(* ===== verification/Go_Prelude.thy ===== *)
theory Go_Prelude
  imports Main "HOL-Library.Sublist" "HOL-Library.AList" "HOL-Library.Multiset"
    "HOL-Library.List_Lexorder" "HOL-Library.Char_ord"
begin

text \<open>
  The part of the Go language and of its standard library that the emulator's
  code uses, shared by every component:
  \<^item> byte strings (\<^verbatim>\<open>string\<close> and \<^verbatim>\<open>[]byte\<close> are both char lists) with the functions of
    package \<^verbatim>\<open>strings\<close> and the decimal conversions of \<^verbatim>\<open>strconv\<close>.  Case mapping and white
    space are those of ASCII;
  \<^item> JSON values.  The text layer of \<^verbatim>\<open>encoding/json\<close> is not modelled: a marshalled
    document is the JSON value it denotes, and decoding a document into a Go struct
    follows the rules of the package (unknown keys ignored, names matched up to case, the
    last key wins, null leaves the zero value, a wrong type is an error that leaves the
    other fields decoded);
  \<^item> times as integers, the nanoseconds since Go's zero time, so that \<open>0\<close> is the zero
    \<^verbatim>\<open>time.Time\<close>;
  \<^item> HTTP requests and responses, and the environment of a handler: the readings of the
    clock, and the order in which \<^verbatim>\<open>range\<close> visits a map (unspecified in Go, so a
    parameter here).
\<close>

section \<open>Collections of simplification rules\<close>

named_theorems go_defs \<open>definitions of the Go library layer, for concrete evaluation\<close>
named_theorems codec \<open>round trips of the JSON encodings of the stored resources\<close>
named_theorems ns_defs \<open>the namespaces of the store\<close>

type_synonym time = int

section \<open>Package strings\<close>

definition hasPrefix :: "string \<Rightarrow> string \<Rightarrow> bool" where
  "hasPrefix s p = prefix p s"

definition trimPrefix :: "string \<Rightarrow> string \<Rightarrow> string" where
  "trimPrefix s p = (if prefix p s then drop (length p) s else s)"

definition trimSuffix :: "string \<Rightarrow> string \<Rightarrow> string" where
  "trimSuffix s p = (if suffix p s then take (length s - length p) s else s)"

text \<open>The first and the last occurrence of a byte, as the two parts around it.\<close>

definition cutAt :: "char \<Rightarrow> string \<Rightarrow> (string \<times> string) option" where
  "cutAt c s = (if c \<in> set s
     then Some (takeWhile (\<lambda>x. x \<noteq> c) s, tl (dropWhile (\<lambda>x. x \<noteq> c) s)) else None)"

definition cut_last :: "char \<Rightarrow> string \<Rightarrow> (string \<times> string) option" where
  "cut_last c s = (case cutAt c (rev s) of None \<Rightarrow> None | Some (a, b) \<Rightarrow> Some (rev b, rev a))"

fun split_on :: "char \<Rightarrow> string \<Rightarrow> string list" where
  "split_on c [] = [[]]"
| "split_on c (x # xs) =
     (if x = c then [] # split_on c xs
      else (case split_on c xs of [] \<Rightarrow> [[x]] | w # ws \<Rightarrow> (x # w) # ws))"

fun splitN :: "nat \<Rightarrow> char \<Rightarrow> string \<Rightarrow> string list" where
  "splitN 0 c s = []"
| "splitN (Suc 0) c s = [s]"
| "splitN (Suc (Suc n)) c s =
     (case cutAt c s of None \<Rightarrow> [s] | Some (a, b) \<Rightarrow> a # splitN (Suc n) c b)"

fun join :: "string \<Rightarrow> string list \<Rightarrow> string" where
  "join sep [] = []"
| "join sep [x] = x"
| "join sep (x # y # ys) = x @ sep @ join sep (y # ys)"

text \<open>\<^verbatim>\<open>strings.Index\<close>: what precedes and follows the first occurrence of a string.\<close>

fun cut_string :: "string \<Rightarrow> string \<Rightarrow> (string \<times> string) option" where
  "cut_string m [] = (if m = [] then Some ([], []) else None)"
| "cut_string m (c # s) = (if hasPrefix (c # s) m then Some ([], drop (length m) (c # s))
     else (case cut_string m s of None \<Rightarrow> None | Some (a, b) \<Rightarrow> Some (c # a, b)))"

text \<open>A byte in a range.\<close>

definition byte_in :: "nat \<Rightarrow> nat \<Rightarrow> char \<Rightarrow> bool" where
  "byte_in lo hi c \<longleftrightarrow> lo \<le> of_char c \<and> of_char c \<le> hi"

definition is_space :: "char \<Rightarrow> bool" where
  "is_space c = (let n = (of_char c :: nat) in (9 \<le> n \<and> n \<le> 13) \<or> n = 32)"

definition trimLeft :: "string \<Rightarrow> string" where
  "trimLeft s = dropWhile is_space s"

definition trimSpace :: "string \<Rightarrow> string" where
  "trimSpace s = rev (dropWhile is_space (rev (dropWhile is_space s)))"

definition upper_char :: "char \<Rightarrow> char" where
  "upper_char c = (let n = (of_char c :: nat) in
     if 97 \<le> n \<and> n \<le> 122 then char_of (n - 32) else c)"

definition toUpper :: "string \<Rightarrow> string" where
  "toUpper s = map upper_char s"

definition lastSegment :: "string \<Rightarrow> string" where
  "lastSegment s = (case cut_last (CHR ''/'') s of None \<Rightarrow> s | Some (_, b) \<Rightarrow> b)"

lemmas [go_defs] = hasPrefix_def trimPrefix_def trimSuffix_def cutAt_def cut_last_def
  is_space_def trimLeft_def trimSpace_def upper_char_def toUpper_def lastSegment_def

subsection \<open>Lemmas on splitting and joining\<close>

lemma cut_append: "c \<notin> set a \<Longrightarrow> cutAt c (a @ c # b) = Some (a, b)"
  by (auto simp: cutAt_def takeWhile_append dropWhile_append)

lemma cut_SomeD: "cutAt c s = Some (a, b) \<Longrightarrow> s = a @ c # b \<and> c \<notin> set a"
proof -
  assume h: "cutAt c s = Some (a, b)"
  then have "c \<in> set s" by (simp add: cutAt_def split: if_splits)
  then obtain ys zs where "s = ys @ c # zs" "c \<notin> set ys"
    by (meson split_list_first)
  with h show ?thesis by (simp add: cut_append)
qed

lemma cut_None [simp]: "cutAt c s = None \<longleftrightarrow> c \<notin> set s"
  by (simp add: cutAt_def)

lemma cut_last_append: "c \<notin> set b \<Longrightarrow> cut_last c (a @ c # b) = Some (a, b)"
  by (simp add: cut_last_def cut_append)

lemma cut_last_None: "c \<notin> set s \<Longrightarrow> cut_last c s = None"
  using cut_None [of c "rev s"] by (simp add: cut_last_def del: cut_None)

lemma cut_last_SomeD: "cut_last c s = Some (a, b) \<Longrightarrow> s = a @ c # b \<and> c \<notin> set b"
proof -
  assume "cut_last c s = Some (a, b)"
  then have "cutAt c (rev s) = Some (rev b, rev a)"
    by (auto simp: cut_last_def split: option.splits)
  from cut_SomeD [OF this] show ?thesis
    by (metis append.assoc append_Cons append_Nil rev.simps(2) rev_append rev_rev_ident set_rev)
qed

lemma append_sep_eq:
  "c \<notin> set a \<Longrightarrow> c \<notin> set a' \<Longrightarrow> a @ c # b = a' @ c # b' \<longleftrightarrow> a = a' \<and> b = b'"
proof (induction a arbitrary: a')
  case Nil
  then show ?case by (cases a') auto
next
  case (Cons x a)
  then show ?case by (cases a') auto
qed

lemma split_on_ne [simp]: "split_on c s \<noteq> []"
  by (induction s) (auto split: list.splits)

lemma split_on_no_sep: "c \<notin> set s \<Longrightarrow> split_on c s = [s]"
  by (induction s) auto

lemma split_on_append: "c \<notin> set a \<Longrightarrow> split_on c (a @ c # b) = a # split_on c b"
  by (induction a) auto

lemma join_split_on: "join [c] (split_on c s) = s"
proof (induction s)
  case (Cons x xs)
  then show ?case
    by (cases "split_on c xs" rule: list.exhaust; cases "tl (split_on c xs)")
       (auto split: list.splits)
qed simp

lemma split_on_join:
  "ps \<noteq> [] \<Longrightarrow> list_all (\<lambda>p. c \<notin> set p) ps \<Longrightarrow> split_on c (join [c] ps) = ps"
proof (induction ps)
  case (Cons x ps)
  then show ?case by (cases ps) (simp_all add: split_on_no_sep split_on_append)
qed simp

lemma split_on_parts: "p \<in> set (split_on c s) \<Longrightarrow> c \<notin> set p"
  by (induction s arbitrary: p) (force split: list.splits if_splits)+

lemma splitN_append:
  "c \<notin> set a \<Longrightarrow> splitN (Suc (Suc n)) c (a @ c # b) = a # splitN (Suc n) c b"
  by (simp add: cut_append)

lemma splitN_4_append:
  "c \<notin> set x \<Longrightarrow> c \<notin> set y \<Longrightarrow> c \<notin> set z \<Longrightarrow>
    splitN 4 c (x @ c # y @ c # z @ c # w) = [x, y, z, w]"
  by (simp add: eval_nat_numeral splitN_append del: splitN.simps(3))

text \<open>A path segment, and its split at the last colon into a name and an action, which several services do.\<close>

definition noslash :: "string \<Rightarrow> bool" where
  "noslash s = (CHR ''/'' \<notin> set s)"

definition splitAction :: "string \<Rightarrow> string \<times> string" where
  "splitAction s = (case cut_last (CHR '':'') s of None \<Rightarrow> (s, []) | Some (n, a) \<Rightarrow> (n, a))"

lemma splitAction_noslash: "splitAction seg = (i, a) \<Longrightarrow> noslash seg \<Longrightarrow> noslash i"
  by (auto simp: splitAction_def noslash_def split: option.splits dest: cut_last_SomeD)

lemma splitAction_append: "CHR '':'' \<notin> set a \<Longrightarrow> splitAction (i @ CHR '':'' # a) = (i, a)"
  by (simp add: splitAction_def cut_last_append)

lemma splitAction_plain: "CHR '':'' \<notin> set i \<Longrightarrow> splitAction i = (i, [])"
  by (simp add: splitAction_def cut_last_None)

section \<open>Package strconv\<close>

definition digit :: "nat \<Rightarrow> char" where
  "digit n = char_of (48 + n)"

definition is_digit :: "char \<Rightarrow> bool" where
  "is_digit c = (48 \<le> (of_char c :: nat) \<and> (of_char c :: nat) \<le> 57)"

definition digit_val :: "char \<Rightarrow> nat" where
  "digit_val c = of_char c - 48"

fun itoa :: "nat \<Rightarrow> string" where
  "itoa n = (if n < 10 then [digit n] else itoa (n div 10) @ [digit (n mod 10)])"

declare itoa.simps [simp del]

definition itoai :: "int \<Rightarrow> string" where
  "itoai i = (if i < 0 then CHR ''-'' # itoa (nat (- i)) else itoa (nat i))"

definition digits_val :: "string \<Rightarrow> nat" where
  "digits_val s = foldl (\<lambda>n c. 10 * n + digit_val c) 0 s"

definition parse_nat :: "string \<Rightarrow> nat option" where
  "parse_nat s = (if s \<noteq> [] \<and> list_all is_digit s then Some (digits_val s) else None)"

text \<open>\<^verbatim>\<open>strconv.ParseInt(s, 10, 64)\<close>: an optional sign, then digits, within 64 bits.\<close>

definition in_int64 :: "int \<Rightarrow> bool" where
  "in_int64 i = (- (2 ^ 63) \<le> i \<and> i < 2 ^ 63)"

definition parse_signed :: "string \<Rightarrow> int option" where
  "parse_signed s = (case s of [] \<Rightarrow> None
     | c # r \<Rightarrow> if c = CHR ''-'' then map_option (\<lambda>n. - int n) (parse_nat r)
               else if c = CHR ''+'' then map_option int (parse_nat r)
               else map_option int (parse_nat s))"

definition parseInt :: "string \<Rightarrow> int option" where
  "parseInt s = (case parse_signed s of None \<Rightarrow> None
     | Some i \<Rightarrow> if in_int64 i then Some i else None)"

text \<open>\<^verbatim>\<open>n, _ := strconv.Atoi(s)\<close>: the value with the error dropped, 0 for a syntax error
  and the nearest bound of the 64-bit range for an overflow.\<close>

definition atoi_val :: "string \<Rightarrow> int" where
  "atoi_val s = (case parse_signed s of None \<Rightarrow> 0
     | Some i \<Rightarrow> if in_int64 i then i else if i < 0 then - (2 ^ 63) else 2 ^ 63 - 1)"

lemmas [go_defs] = digit_def is_digit_def digit_val_def itoai_def digits_val_def
  parse_nat_def in_int64_def parse_signed_def parseInt_def atoi_val_def

lemma of_char_digit: "n < 10 \<Longrightarrow> (of_char (digit n) :: nat) = 48 + n"
  by (simp add: digit_def)

lemma is_digit_digit [simp]: "n < 10 \<Longrightarrow> is_digit (digit n)"
  by (simp add: is_digit_def of_char_digit)

lemma digit_val_digit [simp]: "n < 10 \<Longrightarrow> digit_val (digit n) = n"
  by (simp add: digit_val_def of_char_digit)

lemma itoa_not_Nil [simp]: "itoa n \<noteq> []"
  by (subst itoa.simps) simp

lemma itoa_digits: "list_all is_digit (itoa n)"
proof (induction n rule: itoa.induct)
  case (1 n)
  then show ?case by (subst itoa.simps) simp
qed

lemma itoa_digits_val: "digits_val (itoa n) = n"
proof (induction n rule: itoa.induct)
  case (1 n)
  show ?case
  proof (cases "n < 10")
    case True
    then show ?thesis by (subst itoa.simps) (simp add: digits_val_def)
  next
    case False
    with 1 have "digits_val (itoa (n div 10)) = n div 10" by simp
    with False show ?thesis
      by (subst itoa.simps) (simp add: digits_val_def)
  qed
qed

lemma parse_nat_itoa [simp]: "parse_nat (itoa n) = Some n"
  by (simp add: parse_nat_def itoa_digits itoa_digits_val)

lemma itoa_inj [simp]: "itoa m = itoa n \<longleftrightarrow> m = n"
  by (metis itoa_digits_val)

lemma not_is_digit [simp]:
  "\<not> is_digit (CHR ''-'')" "\<not> is_digit (CHR ''+'')" "\<not> is_digit (CHR ''/'')"
  "\<not> is_digit (CHR '':'')" "\<not> is_digit (CHR ''*'')"
  by (simp_all add: is_digit_def)

lemma itoa_no_char: "\<not> is_digit c \<Longrightarrow> c \<notin> set (itoa n)"
  using itoa_digits [of n] by (auto simp: list_all_iff)

lemma parse_signed_itoa [simp]: "parse_signed (itoa n) = Some (int n)"
proof (cases "itoa n")
  case (Cons c r)
  have "is_digit c" using itoa_digits [of n] Cons by simp
  then have "c \<noteq> CHR ''-''" "c \<noteq> CHR ''+''" by auto
  then show ?thesis using parse_nat_itoa [of n] Cons by (simp add: parse_signed_def)
qed simp

lemma parseInt_itoa: "n < 2 ^ 63 \<Longrightarrow> parseInt (itoa n) = Some (int n)"
  by (simp add: parseInt_def in_int64_def)

lemma atoi_val_itoa: "n < 2 ^ 63 \<Longrightarrow> atoi_val (itoa n) = int n"
  by (simp add: atoi_val_def in_int64_def)

section \<open>Package encoding/json\<close>

datatype json =
    JNull
  | JBool bool
  | JNum int
  | JFloat string
  | JStr string
  | JTime time
  | JArr "json list"
  | JObj "(string \<times> json) list"

text \<open>
  A stored or transmitted document: JSON, or bytes that are not read as JSON.
  \<open>JFloat\<close> is a number that is not an integer, by its text.  \<open>JTime\<close> is the string in which \<^verbatim>\<open>time.Time\<close> marshals itself.
\<close>

datatype blob = JsonB json | RawB string

definition lower_char :: "char \<Rightarrow> char" where
  "lower_char c = (let n = (of_char c :: nat) in
     if 65 \<le> n \<and> n \<le> 90 then char_of (n + 32) else c)"

definition eqFold :: "string \<Rightarrow> string \<Rightarrow> bool" where
  "eqFold a b = (map lower_char a = map lower_char b)"

lemma eqFold_refl [simp]: "eqFold a a"
  by (simp add: eqFold_def)

text \<open>The member of an object that decoding assigns to the field named \<open>k\<close>.\<close>

fun jmember :: "string \<Rightarrow> (string \<times> json) list \<Rightarrow> json option" where
  "jmember k [] = None"
| "jmember k ((a, v) # ms) =
     (case jmember k ms of Some w \<Rightarrow> Some w
      | None \<Rightarrow> if eqFold a k then Some v else None)"

fun jget :: "string \<Rightarrow> json \<Rightarrow> json option" where
  "jget k (JObj ms) = jmember k ms"
| "jget k _ = None"

fun is_struct_doc :: "json \<Rightarrow> bool" where
  "is_struct_doc (JObj _) = True"
| "is_struct_doc JNull = True"
| "is_struct_doc _ = False"

text \<open>One field of a struct: its decoded value and whether decoding it succeeded.\<close>

definition fld_str :: "string \<Rightarrow> json \<Rightarrow> string \<times> bool" where
  "fld_str k j = (case jget k j of None \<Rightarrow> ([], True) | Some JNull \<Rightarrow> ([], True)
     | Some (JStr s) \<Rightarrow> (s, True) | Some _ \<Rightarrow> ([], False))"

definition fld_int :: "string \<Rightarrow> json \<Rightarrow> int \<times> bool" where
  "fld_int k j = (case jget k j of None \<Rightarrow> (0, True) | Some JNull \<Rightarrow> (0, True)
     | Some (JNum i) \<Rightarrow> if in_int64 i then (i, True) else (0, False)
     | Some _ \<Rightarrow> (0, False))"

definition fld_bool :: "string \<Rightarrow> json \<Rightarrow> bool \<times> bool" where
  "fld_bool k j = (case jget k j of None \<Rightarrow> (False, True) | Some JNull \<Rightarrow> (False, True)
     | Some (JBool b) \<Rightarrow> (b, True) | Some _ \<Rightarrow> (False, False))"

text \<open>A time field; \<open>rfc\<close> is \<^verbatim>\<open>time.Parse(time.RFC3339, _)\<close>, for the times clients send.\<close>

definition fld_time :: "(string \<Rightarrow> time option) \<Rightarrow> string \<Rightarrow> json \<Rightarrow> time \<times> bool" where
  "fld_time rfc k j = (case jget k j of None \<Rightarrow> (0, True) | Some JNull \<Rightarrow> (0, True)
     | Some (JTime t) \<Rightarrow> (t, True)
     | Some (JStr s) \<Rightarrow> (case rfc s of Some t \<Rightarrow> (t, True) | None \<Rightarrow> (0, False))
     | Some _ \<Rightarrow> (0, False))"

fun str_members :: "(string \<times> json) list \<Rightarrow> (string \<times> string) list \<times> bool" where
  "str_members [] = ([], True)"
| "str_members ((k, v) # ms) = (let (r, ok) = str_members ms in
     (case v of JStr s \<Rightarrow> ((k, s) # r, ok) | JNull \<Rightarrow> ((k, []) # r, ok) | _ \<Rightarrow> (r, False)))"

text \<open>A \<^verbatim>\<open>map[string]string\<close> field, nil when absent or null.\<close>

definition fld_strmap :: "string \<Rightarrow> json \<Rightarrow> (string \<times> string) list option \<times> bool" where
  "fld_strmap k j = (case jget k j of None \<Rightarrow> (None, True) | Some JNull \<Rightarrow> (None, True)
     | Some (JObj ms) \<Rightarrow> (let (r, ok) = str_members ms in (Some r, ok))
     | Some _ \<Rightarrow> (None, False))"

fun str_elems :: "json list \<Rightarrow> string list \<times> bool" where
  "str_elems [] = ([], True)"
| "str_elems (v # vs) = (let (r, ok) = str_elems vs in
     (case v of JStr s \<Rightarrow> (s # r, ok) | JNull \<Rightarrow> ([] # r, ok) | _ \<Rightarrow> ([] # r, False)))"

text \<open>A \<^verbatim>\<open>[]string\<close> field, nil when absent or null.\<close>

definition fld_strlist :: "string \<Rightarrow> json \<Rightarrow> string list option \<times> bool" where
  "fld_strlist k j = (case jget k j of None \<Rightarrow> (None, True) | Some JNull \<Rightarrow> (None, True)
     | Some (JArr vs) \<Rightarrow> (let (r, ok) = str_elems vs in (Some r, ok))
     | Some _ \<Rightarrow> (None, False))"

text \<open>A field that is a slice of structs; \<open>dec\<close> decodes one of them.\<close>

fun dec_elems :: "(json \<Rightarrow> 'a \<times> bool) \<Rightarrow> json list \<Rightarrow> 'a list \<times> bool" where
  "dec_elems dec [] = ([], True)"
| "dec_elems dec (v # vs) = (let (x, ok) = dec v; (xs, oks) = dec_elems dec vs in (x # xs, ok \<and> oks))"

definition fld_arr :: "(json \<Rightarrow> 'a \<times> bool) \<Rightarrow> string \<Rightarrow> json \<Rightarrow> 'a list \<times> bool" where
  "fld_arr dec k j = (case jget k j of None \<Rightarrow> ([], True) | Some JNull \<Rightarrow> ([], True)
     | Some (JArr vs) \<Rightarrow> dec_elems dec vs | Some _ \<Rightarrow> ([], False))"

text \<open>A nested struct field: the document to decode it from, null when absent.\<close>

definition fld_doc :: "string \<Rightarrow> json \<Rightarrow> json" where
  "fld_doc k j = (case jget k j of None \<Rightarrow> JNull | Some v \<Rightarrow> v)"

lemmas [go_defs] = lower_char_def eqFold_def fld_str_def fld_int_def fld_bool_def
  fld_time_def fld_strmap_def fld_strlist_def fld_doc_def

definition jstrs :: "string list \<Rightarrow> json" where
  "jstrs xs = JArr (map JStr xs)"

definition jstrmap :: "(string \<times> string) list \<Rightarrow> json" where
  "jstrmap m = JObj (map (\<lambda>(k, v). (k, JStr v)) m)"

lemma str_elems_jstrs [simp]: "str_elems (map JStr xs) = (xs, True)"
  by (induction xs) auto

lemma str_members_map [simp]:
  "str_members (map (\<lambda>(k, v). (k, JStr v)) m) = (m, True)"
  by (induction m) auto

text \<open>\<^verbatim>\<open>omitempty\<close>: a member that is left out when the value is empty.\<close>

definition omit :: "bool \<Rightarrow> string \<Rightarrow> json \<Rightarrow> (string \<times> json) list" where
  "omit emp k v = (if emp then [] else [(k, v)])"

lemma jmember_append: "jmember k (a @ b) = (case jmember k b of Some w \<Rightarrow> Some w | None \<Rightarrow> jmember k a)"
  by (induction k a rule: jmember.induct) (auto split: option.splits)

lemma jmember_omit: "jmember k (omit c k' v) = (if c \<or> \<not> eqFold k' k then None else Some v)"
  by (simp add: omit_def)

section \<open>HTTP\<close>

datatype meth = GET | POST | PUT | DELETE | PATCH | OtherMethod string

text \<open>
  A request.  \<open>r_bytes\<close> is the body as read by \<^verbatim>\<open>io.ReadAll\<close> and \<open>r_json\<close> what
  \<^verbatim>\<open>json.NewDecoder(r.Body)\<close> reads from it (\<open>None\<close> when it is not JSON).
\<close>

record http_req =
  r_method :: meth
  r_path :: string
  r_query :: "(string \<times> string) list"
  r_header :: "(string \<times> string) list"
  r_host :: string
  r_tls :: bool
  r_contentLength :: int
  r_bytes :: string
  r_json :: "json option"

definition get_first :: "(string \<times> string) list \<Rightarrow> string \<Rightarrow> string" where
  "get_first m k = (case map_of m k of None \<Rightarrow> [] | Some v \<Rightarrow> v)"

record http_resp =
  rs_code :: nat
  rs_header :: "(string \<times> string) list"
  rs_body :: "blob option"

definition header_only :: "nat \<Rightarrow> http_resp" where
  "header_only c = \<lparr>rs_code = c, rs_header = [], rs_body = None\<rparr>"

definition json_header :: "(string \<times> string) list" where
  "json_header = [(''Content-Type'', ''application/json'')]"

text \<open>The document stored under a key, written back as it is.\<close>

definition write_raw :: "blob \<Rightarrow> http_resp" where
  "write_raw b = \<lparr>rs_code = 200, rs_header = json_header, rs_body = Some b\<rparr>"

section \<open>The environment of a handler\<close>

text \<open>
  \<open>e_now e n\<close> is the \<open>n\<close>-th reading of the clock in the handler; \<open>e_range e\<close> is the
  order in which \<^verbatim>\<open>range\<close> visits the map that a listing of the store returned.
\<close>

record go_env =
  e_now :: "nat \<Rightarrow> time"
  e_range :: "(string \<times> blob) list \<Rightarrow> (string \<times> blob) list"

text \<open>Reading \<open>n\<close> bytes from \<^verbatim>\<open>crypto/rand\<close>: an error text or the bytes.\<close>

type_synonym rand_read = "nat \<Rightarrow> string + string"

definition rnd_ok :: "rand_read \<Rightarrow> bool" where
  "rnd_ok rnd \<longleftrightarrow> (\<forall>n b. rnd n = Inr b \<longrightarrow> length b = n)"

definition env_ok :: "go_env \<Rightarrow> bool" where
  "env_ok e \<longleftrightarrow> (\<forall>xs. mset (e_range e xs) = mset xs)"

lemma env_ok_set [simp]: "env_ok e \<Longrightarrow> set (e_range e xs) = set xs"
  unfolding env_ok_def by (metis set_mset_mset)

lemma env_ok_mset: "env_ok e \<Longrightarrow> mset (e_range e xs) = mset xs"
  by (simp add: env_ok_def)

lemma env_ok_distinct: "env_ok e \<Longrightarrow> distinct (map fst xs) \<Longrightarrow> distinct (map fst (e_range e xs))"
  by (metis env_ok_mset mset_eq_imp_distinct_iff mset_map)

lemma env_ok_map_of:
  "env_ok e \<Longrightarrow> distinct (map fst xs) \<Longrightarrow> map_of (e_range e xs) = map_of xs"
  by (simp add: map_of_inject_set env_ok_distinct)

text \<open>
  Two's complement integers of 64 and 32 bits, and \<^verbatim>\<open>atomic.AddUint64(&x, 1)\<close>, with their wrap-around.
\<close>

definition wrap64 :: "int \<Rightarrow> int" where
  "wrap64 i = (i + 2 ^ 63) mod 2 ^ 64 - 2 ^ 63"

definition wrap32 :: "int \<Rightarrow> int" where
  "wrap32 i = (i + 2 ^ 31) mod 2 ^ 32 - 2 ^ 31"

lemma wrap64_id: "in_int64 i \<Longrightarrow> wrap64 i = i"
  by (simp add: wrap64_def in_int64_def)

definition u64_inc :: "nat \<Rightarrow> nat" where
  "u64_inc n = (n + 1) mod 2 ^ 64"

lemma u64_inc_small [simp]: "n + 1 < 2 ^ 64 \<Longrightarrow> u64_inc n = n + 1"
  by (simp add: u64_inc_def)

text \<open>The \<open>n\<close> values that follow \<open>a\<close> on a counter, for loops that draw one value per element.\<close>

fun seq_from :: "nat \<Rightarrow> nat \<Rightarrow> nat list" where
  "seq_from a 0 = []"
| "seq_from a (Suc n) = Suc a # seq_from (Suc a) n"

lemma set_seq_from: "set (seq_from a n) = {a<..a + n}"
  by (induction a n rule: seq_from.induct) auto

lemma distinct_seq_from [simp]: "distinct (seq_from a n)"
  by (induction a n rule: seq_from.induct) (auto simp: set_seq_from)

lemma length_seq_from [simp]: "length (seq_from a n) = n"
  by (induction a n rule: seq_from.induct) auto

lemma seq_from_add: "seq_from a (m + n) = seq_from a m @ seq_from (a + m) n"
  by (induction a m rule: seq_from.induct) auto

end
