(* ===== verification/State_Store.thy ===== *)
theory State_Store
  imports Go_Prelude
begin

text \<open>
  Package \<^verbatim>\<open>internal/state\<close>: the key-value store behind every service.  The interface
  \<^verbatim>\<open>state.Store\<close> is the locale \<open>kv_store\<close>; \<^verbatim>\<open>Memory\<close> (\<^verbatim>\<open>memory.go\<close>) is a map of maps, written
  as nested association lists so that a listing can be iterated; \<^verbatim>\<open>Bolt\<close> (\<^verbatim>\<open>boltdb.go\<close>) is
  written over the operations of the third-party package \<^verbatim>\<open>bbolt\<close>, which are a parameter.
\<close>

datatype store_err = ErrNotFound | ErrAlreadyExists | ErrBackend string

text \<open>The text of an error, as \<^verbatim>\<open>err.Error()\<close> gives it.\<close>

fun err_text :: "store_err \<Rightarrow> string" where
  "err_text ErrNotFound = ''not found''"
| "err_text ErrAlreadyExists = ''already exists''"
| "err_text (ErrBackend m) = m"

type_synonym bucket = "(string \<times> blob) list"
type_synonym mem = "(string \<times> bucket) list"

section \<open>memory.go\<close>

definition NewMemory :: mem where
  "NewMemory = []"

text \<open>\<^verbatim>\<open>ns\<close> creates the namespace when it is missing.\<close>

definition mem_ns :: "mem \<Rightarrow> string \<Rightarrow> mem \<times> bucket" where
  "mem_ns m n = (case map_of m n of
     None \<Rightarrow> (AList.update n [] m, []) | Some b \<Rightarrow> (m, b))"

definition Get :: "mem \<Rightarrow> string \<Rightarrow> string \<Rightarrow> store_err + blob" where
  "Get m n k = (case map_of m n of None \<Rightarrow> Inl ErrNotFound
     | Some b \<Rightarrow> (case map_of b k of None \<Rightarrow> Inl ErrNotFound | Some v \<Rightarrow> Inr v))"

definition Put :: "mem \<Rightarrow> string \<Rightarrow> string \<Rightarrow> blob \<Rightarrow> store_err + mem" where
  "Put m n k v = (let (m', b) = mem_ns m n in Inr (AList.update n (AList.update k v b) m'))"

definition Delete :: "mem \<Rightarrow> string \<Rightarrow> string \<Rightarrow> store_err + mem" where
  "Delete m n k = (case map_of m n of None \<Rightarrow> Inl ErrNotFound
     | Some b \<Rightarrow> (case map_of b k of None \<Rightarrow> Inl ErrNotFound
         | Some _ \<Rightarrow> Inr (AList.update n (AList.delete k b) m)))"

definition List :: "mem \<Rightarrow> string \<Rightarrow> string \<Rightarrow> store_err + bucket" where
  "List m n p = (case map_of m n of None \<Rightarrow> Inr []
     | Some b \<Rightarrow> Inr (filter (\<lambda>(k, v). p = [] \<or> hasPrefix k p) b))"

section \<open>The interface\<close>

text \<open>
  What a client may assume of a backend: \<open>lookup\<close> is the abstract content, a partial map
  per namespace, and \<open>adm\<close> the keys the backend admits.
\<close>

definition upd2 :: "('a \<Rightarrow> 'b \<Rightarrow> 'c) \<Rightarrow> 'a \<Rightarrow> 'b \<Rightarrow> 'c \<Rightarrow> 'a \<Rightarrow> 'b \<Rightarrow> 'c" where
  "upd2 f a b c = f(a := (f a)(b := c))"

lemma upd2_apply [simp]: "upd2 f a b c x y = (if x = a \<and> y = b then c else f x y)"
  by (simp add: upd2_def)

datatype store_op =
    OGet string string
  | OPut string string blob
  | ODelete string string
  | OList string string

text \<open>What a caller observes of one call; a listing is compared as a map.\<close>

datatype store_obs =
    VErr store_err
  | VUnit
  | VVal blob
  | VList "string \<rightharpoonup> blob"

locale kv_store =
  fixes get :: "'s \<Rightarrow> string \<Rightarrow> string \<Rightarrow> store_err + blob"
    and put :: "'s \<Rightarrow> string \<Rightarrow> string \<Rightarrow> blob \<Rightarrow> store_err + 's"
    and del :: "'s \<Rightarrow> string \<Rightarrow> string \<Rightarrow> store_err + 's"
    and lst :: "'s \<Rightarrow> string \<Rightarrow> string \<Rightarrow> store_err + bucket"
    and lookup :: "'s \<Rightarrow> string \<Rightarrow> string \<Rightarrow> blob option"
    and inv :: "'s \<Rightarrow> bool"
    and adm :: "string \<Rightarrow> string \<Rightarrow> bool"
  assumes get_law: "inv s \<Longrightarrow>
      get s n k = (case lookup s n k of None \<Rightarrow> Inl ErrNotFound | Some v \<Rightarrow> Inr v)"
    and put_law: "inv s \<Longrightarrow> adm n k \<Longrightarrow>
      \<exists>s'. put s n k v = Inr s' \<and> inv s' \<and> lookup s' = upd2 (lookup s) n k (Some v)"
    and del_missing: "inv s \<Longrightarrow> lookup s n k = None \<Longrightarrow> del s n k = Inl ErrNotFound"
    and del_law: "inv s \<Longrightarrow> lookup s n k \<noteq> None \<Longrightarrow>
      \<exists>s'. del s n k = Inr s' \<and> inv s' \<and> lookup s' = upd2 (lookup s) n k None"
    and lst_law: "inv s \<Longrightarrow> \<exists>kvs. lst s n p = Inr kvs \<and> distinct (map fst kvs) \<and>
      map_of kvs = (\<lambda>k. if prefix p k then lookup s n k else None)"
begin

lemma get_Inr: "inv s \<Longrightarrow> get s n k = Inr v \<longleftrightarrow> lookup s n k = Some v"
  by (auto simp: get_law split: option.splits)

lemma get_Inl: "inv s \<Longrightarrow> (\<exists>er. get s n k = Inl er) \<longleftrightarrow> lookup s n k = None"
  by (auto simp: get_law split: option.splits)

lemma put_get:
  assumes "inv s" "adm n k" "put s n k v = Inr s'"
  shows "get s' n' k' = (if n' = n \<and> k' = k then Inr v else get s n' k')"
  using put_law [OF assms(1,2), of v] assms by (auto simp: get_law)

lemma del_get:
  assumes "inv s" "del s n k = Inr s'"
  shows "get s' n' k' = (if n' = n \<and> k' = k then Inl ErrNotFound else get s n' k')"
proof -
  from assms have "lookup s n k \<noteq> None" using del_missing by fastforce
  from del_law [OF assms(1) this] assms show ?thesis by (auto simp: get_law)
qed

text \<open>
  The loop with which services cascade a deletion: every key of a listing is deleted and
  the errors are dropped.
\<close>

lemma del_step:
  assumes "inv s"
  shows "inv (case del s n k of Inl _ \<Rightarrow> s | Inr s' \<Rightarrow> s') \<and>
    lookup (case del s n k of Inl _ \<Rightarrow> s | Inr s' \<Rightarrow> s') = upd2 (lookup s) n k None"
proof (cases "lookup s n k")
  case None
  then have "upd2 (lookup s) n k None = lookup s" by (auto simp: fun_eq_iff)
  with None assms show ?thesis by (simp add: del_missing)
next
  case (Some v)
  then show ?thesis using del_law [OF assms, of n k] by auto
qed

lemma del_loop:
  assumes "inv s"
  shows "inv (foldl (\<lambda>s k. case del s n k of Inl _ \<Rightarrow> s | Inr s' \<Rightarrow> s') s ks) \<and>
    lookup (foldl (\<lambda>s k. case del s n k of Inl _ \<Rightarrow> s | Inr s' \<Rightarrow> s') s ks) =
      (\<lambda>n' k'. if n' = n \<and> k' \<in> set ks then None else lookup s n' k')"
  using assms
proof (induction ks arbitrary: s)
  case (Cons k ks)
  from Cons.IH [OF del_step [THEN conjunct1, OF Cons.prems, of n k]]
    del_step [OF Cons.prems, of n k]
  show ?case by (auto simp: fun_eq_iff)
qed simp

end

subsection \<open>Runs of operations\<close>

text \<open>
  A sequence of calls against a backend, and against the abstract content; a caller sees
  the list of observations.
\<close>

fun run_ops :: "('s \<Rightarrow> string \<Rightarrow> string \<Rightarrow> store_err + blob) \<Rightarrow>
    ('s \<Rightarrow> string \<Rightarrow> string \<Rightarrow> blob \<Rightarrow> store_err + 's) \<Rightarrow>
    ('s \<Rightarrow> string \<Rightarrow> string \<Rightarrow> store_err + 's) \<Rightarrow>
    ('s \<Rightarrow> string \<Rightarrow> string \<Rightarrow> store_err + bucket) \<Rightarrow>
    's \<Rightarrow> store_op list \<Rightarrow> store_obs list" where
  "run_ops g p d l s [] = []"
| "run_ops g p d l s (OGet n k # os) =
     (case g s n k of Inl er \<Rightarrow> VErr er | Inr v \<Rightarrow> VVal v) # run_ops g p d l s os"
| "run_ops g p d l s (OPut n k v # os) =
     (case p s n k v of Inl er \<Rightarrow> VErr er # run_ops g p d l s os
      | Inr s' \<Rightarrow> VUnit # run_ops g p d l s' os)"
| "run_ops g p d l s (ODelete n k # os) =
     (case d s n k of Inl er \<Rightarrow> VErr er # run_ops g p d l s os
      | Inr s' \<Rightarrow> VUnit # run_ops g p d l s' os)"
| "run_ops g p d l s (OList n pr # os) =
     (case l s n pr of Inl er \<Rightarrow> VErr er | Inr kvs \<Rightarrow> VList (map_of kvs)) # run_ops g p d l s os"

fun abs_run :: "(string \<Rightarrow> string \<Rightarrow> blob option) \<Rightarrow> store_op list \<Rightarrow> store_obs list" where
  "abs_run f [] = []"
| "abs_run f (OGet n k # os) =
     (case f n k of None \<Rightarrow> VErr ErrNotFound | Some v \<Rightarrow> VVal v) # abs_run f os"
| "abs_run f (OPut n k v # os) = VUnit # abs_run (upd2 f n k (Some v)) os"
| "abs_run f (ODelete n k # os) =
     (case f n k of None \<Rightarrow> VErr ErrNotFound # abs_run f os
      | Some _ \<Rightarrow> VUnit # abs_run (upd2 f n k None) os)"
| "abs_run f (OList n p # os) =
     VList (\<lambda>k. if prefix p k then f n k else None) # abs_run f os"

fun puts_of :: "store_op \<Rightarrow> (string \<times> string) list" where
  "puts_of (OPut n k v) = [(n, k)]"
| "puts_of _ = []"

context kv_store begin

lemma run_refines:
  assumes "inv s" "list_all (\<lambda>op. list_all (\<lambda>(n, k). adm n k) (puts_of op)) os"
  shows "run_ops get put del lst s os = abs_run (lookup s) os"
  using assms
proof (induction os arbitrary: s)
  case (Cons op os)
  show ?case
  proof (cases op)
    case (OGet n k)
    with Cons show ?thesis by (simp add: get_law split: option.splits)
  next
    case (OPut n k v)
    with Cons.prems have "adm n k" by simp
    from put_law [OF Cons.prems(1) this, of v] OPut Cons show ?thesis by auto
  next
    case (ODelete n k)
    with Cons show ?thesis
      using del_missing [of s n k] del_law [of s n k] by (cases "lookup s n k") auto
  next
    case (OList n p)
    with Cons show ?thesis using lst_law [of s n p] by auto
  qed
qed simp

end

section \<open>Memory implements the interface\<close>

definition mem_lookup :: "mem \<Rightarrow> string \<Rightarrow> string \<Rightarrow> blob option" where
  "mem_lookup m n k = (case map_of m n of None \<Rightarrow> None | Some b \<Rightarrow> map_of b k)"

text \<open>Both levels are maps: no key occurs twice.\<close>

definition mem_ok :: "mem \<Rightarrow> bool" where
  "mem_ok m \<longleftrightarrow> distinct (map fst m) \<and> list_all (\<lambda>(n, b). distinct (map fst b)) m"

definition bucket_of :: "mem \<Rightarrow> string \<Rightarrow> bucket" where
  "bucket_of m n = (case map_of m n of None \<Rightarrow> [] | Some b \<Rightarrow> b)"

lemma mem_lookup_bucket: "mem_lookup m n k = map_of (bucket_of m n) k"
  by (simp add: mem_lookup_def bucket_of_def split: option.splits)

lemma mem_ok_bucket: "mem_ok m \<Longrightarrow> distinct (map fst (bucket_of m n))"
  by (auto simp: mem_ok_def bucket_of_def list_all_iff split: option.splits dest: map_of_SomeD)

lemma mem_ok_New [simp]: "mem_ok NewMemory"
  by (simp add: mem_ok_def NewMemory_def)

lemma lookup_New [simp]: "mem_lookup NewMemory = (\<lambda>_ _. None)"
  by (simp add: fun_eq_iff mem_lookup_def NewMemory_def)

lemma Get_lookup:
  "Get m n k = (case mem_lookup m n k of None \<Rightarrow> Inl ErrNotFound | Some v \<Rightarrow> Inr v)"
  by (simp add: Get_def mem_lookup_def split: option.splits)

lemma Put_eq: "Put m n k v = Inr (AList.update n (AList.update k v (bucket_of m n)) m)"
  by (auto simp: Put_def mem_ns_def bucket_of_def split: option.splits)

lemma bucket_update: "bucket_of (AList.update n b m) n' = (if n' = n then b else bucket_of m n')"
  by (auto simp: bucket_of_def update_conv')

lemma update_fresh: "n \<notin> fst ` set m \<Longrightarrow> AList.update n b m = m @ [(n, b)]"
  by (induction m) auto

lemma set_update_subset: "set (AList.update n b m) \<subseteq> insert (n, b) (set m)"
  by (induction m) auto

lemma mem_ok_update:
  assumes "mem_ok m" "distinct (map fst b)"
  shows "mem_ok (AList.update n b m)"
  using assms set_update_subset [of n b m]
  by (fastforce simp: mem_ok_def distinct_update list_all_iff)

lemma List_eq: "List m n p = Inr (filter (\<lambda>(k, v). prefix p k) (bucket_of m n))"
  by (auto simp: List_def bucket_of_def hasPrefix_def intro!: filter_cong split: option.splits)

interpretation mem: kv_store Get Put Delete List mem_lookup mem_ok "\<lambda>_ _. True"
proof (unfold_locales, goal_cases)
  case (1 s n k)
  show ?case by (rule Get_lookup)
next
  case (2 s n k v)
  then show ?case
    by (auto simp: Put_eq mem_lookup_bucket bucket_update fun_eq_iff update_conv'
        intro!: mem_ok_update distinct_update mem_ok_bucket)
next
  case (3 s n k)
  then show ?case by (auto simp: Delete_def mem_lookup_def split: option.splits)
next
  case (4 s n k)
  then obtain b v where b: "map_of s n = Some b" "map_of b k = Some v"
    by (auto simp: mem_lookup_def split: option.splits)
  then have bn: "bucket_of s n = b" by (simp add: bucket_of_def)
  have "distinct (map fst (AList.delete k b))"
    using mem_ok_bucket [OF 4(1), of n] bn by (simp add: distinct_delete)
  with b bn 4(1) show ?case
    by (auto simp: Delete_def mem_lookup_bucket bucket_update fun_eq_iff delete_conv'
        intro!: mem_ok_update)
next
  case (5 s n p)
  have "map_of (filter (\<lambda>(k, v). prefix p k) b) k = (if prefix p k then map_of b k else None)"
    for b :: bucket and k
    by (induction b) auto
  with mem_ok_bucket [OF 5, of n] show ?case
    by (auto simp: List_eq mem_lookup_bucket fun_eq_iff distinct_map_filter)
qed

subsection \<open>Memory's operations as functions on the content\<close>

text \<open>
  \<^verbatim>\<open>Put\<close> and \<^verbatim>\<open>List\<close> of \<^verbatim>\<open>Memory\<close> never fail and \<^verbatim>\<open>Get\<close> and \<^verbatim>\<open>Delete\<close> fail on a missing key only.
  The services' proofs rewrite with these forms.
\<close>

definition mput :: "mem \<Rightarrow> string \<Rightarrow> string \<Rightarrow> blob \<Rightarrow> mem" where
  "mput m n k v = AList.update n (AList.update k v (bucket_of m n)) m"

definition mdel :: "mem \<Rightarrow> string \<Rightarrow> string \<Rightarrow> mem" where
  "mdel m n k = (case Delete m n k of Inl _ \<Rightarrow> m | Inr m' \<Rightarrow> m')"

definition mlist :: "mem \<Rightarrow> string \<Rightarrow> string \<Rightarrow> bucket" where
  "mlist m n p = filter (\<lambda>(k, v). prefix p k) (bucket_of m n)"

lemma Put_Inr [simp]: "Put m n k v = Inr (mput m n k v)"
  by (simp add: Put_eq mput_def)

lemma List_Inr [simp]: "List m n p = Inr (mlist m n p)"
  by (simp add: List_eq mlist_def)

lemma Delete_cases:
  "mem_ok m \<Longrightarrow> Delete m n k =
    (case mem_lookup m n k of None \<Rightarrow> Inl ErrNotFound | Some _ \<Rightarrow> Inr (mdel m n k))"
  using mem.del_missing [of m n k] mem.del_law [of m n k]
  by (cases "mem_lookup m n k") (auto simp: mdel_def)

lemma mem_ok_mput [simp]: "mem_ok m \<Longrightarrow> mem_ok (mput m n k v)"
  using mem.put_law [of m n k v] by simp

lemma lookup_mput [simp]:
  "mem_ok m \<Longrightarrow> mem_lookup (mput m n k v) = upd2 (mem_lookup m) n k (Some v)"
  using mem.put_law [of m n k v] by simp

lemma mem_ok_mdel [simp]: "mem_ok m \<Longrightarrow> mem_ok (mdel m n k)"
  unfolding mdel_def using mem.del_step by blast

lemma lookup_mdel [simp]:
  "mem_ok m \<Longrightarrow> mem_lookup (mdel m n k) = upd2 (mem_lookup m) n k None"
  unfolding mdel_def using mem.del_step by blast

lemma mlist_distinct: "mem_ok m \<Longrightarrow> distinct (map fst (mlist m n p))"
  by (simp add: mlist_def mem_ok_bucket distinct_map_filter)

lemma map_of_mlist:
  "mem_ok m \<Longrightarrow> map_of (mlist m n p) = (\<lambda>k. if prefix p k then mem_lookup m n k else None)"
  using mem.lst_law [of m n p] by auto

lemma in_mlist:
  "mem_ok m \<Longrightarrow> (k, v) \<in> set (mlist m n p) \<longleftrightarrow> prefix p k \<and> mem_lookup m n k = Some v"
  by (metis (mono_tags, lifting) map_of_eq_Some_iff map_of_mlist mlist_distinct
      option.distinct(1))

lemma in_keys_mlist:
  "mem_ok m \<Longrightarrow> k \<in> fst ` set (mlist m n p) \<longleftrightarrow> prefix p k \<and> mem_lookup m n k \<noteq> None"
  by (auto simp: image_iff Bex_def in_mlist)

text \<open>The cascade: delete every key of a list, dropping the errors.\<close>

definition delete_all :: "mem \<Rightarrow> string \<Rightarrow> string list \<Rightarrow> mem" where
  "delete_all m n ks = foldl (\<lambda>s k. case Delete s n k of Inl _ \<Rightarrow> s | Inr s' \<Rightarrow> s') m ks"

lemma delete_all_simps [simp]:
  "delete_all m n [] = m" "delete_all m n (k # ks) = delete_all (mdel m n k) n ks"
  by (simp_all add: delete_all_def mdel_def)

lemma mem_ok_delete_all [simp]: "mem_ok m \<Longrightarrow> mem_ok (delete_all m n ks)"
  unfolding delete_all_def using mem.del_loop by blast

lemma lookup_delete_all [simp]:
  "mem_ok m \<Longrightarrow> mem_lookup (delete_all m n ks) =
    (\<lambda>n' k'. if n' = n \<and> k' \<in> set ks then None else mem_lookup m n' k')"
  unfolding delete_all_def using mem.del_loop by blast

lemmas store_simps = Get_lookup Delete_cases

section \<open>boltdb.go\<close>

text \<open>
  The operations of a \<^verbatim>\<open>bbolt\<close> transaction the code calls: the existence of a bucket, reading a
  key, creating a bucket, writing and deleting a key and visiting a bucket's pairs.  A
  transaction that returns an error leaves the database as it was.
\<close>

record 'db bbolt =
  bb_Bucket :: "'db \<Rightarrow> string \<Rightarrow> bool"
  bb_Get :: "'db \<Rightarrow> string \<Rightarrow> string \<Rightarrow> blob option"
  bb_CreateBucket :: "'db \<Rightarrow> string \<Rightarrow> string + 'db"
  bb_Put :: "'db \<Rightarrow> string \<Rightarrow> string \<Rightarrow> blob \<Rightarrow> string + 'db"
  bb_Delete :: "'db \<Rightarrow> string \<Rightarrow> string \<Rightarrow> string + 'db"
  bb_ForEach :: "'db \<Rightarrow> string \<Rightarrow> (string \<times> blob) list"

definition bolt_Get :: "'db bbolt \<Rightarrow> 'db \<Rightarrow> string \<Rightarrow> string \<Rightarrow> store_err + blob" where
  "bolt_Get B d n k = (if \<not> bb_Bucket B d n then Inl ErrNotFound
     else (case bb_Get B d n k of None \<Rightarrow> Inl ErrNotFound | Some v \<Rightarrow> Inr v))"

definition bolt_Put :: "'db bbolt \<Rightarrow> 'db \<Rightarrow> string \<Rightarrow> string \<Rightarrow> blob \<Rightarrow> store_err + 'db" where
  "bolt_Put B d n k v = (case bb_CreateBucket B d n of Inl er \<Rightarrow> Inl (ErrBackend er)
     | Inr d' \<Rightarrow> (case bb_Put B d' n k v of Inl er \<Rightarrow> Inl (ErrBackend er) | Inr d'' \<Rightarrow> Inr d''))"

definition bolt_Delete :: "'db bbolt \<Rightarrow> 'db \<Rightarrow> string \<Rightarrow> string \<Rightarrow> store_err + 'db" where
  "bolt_Delete B d n k = (if \<not> bb_Bucket B d n then Inl ErrNotFound
     else (case bb_Get B d n k of None \<Rightarrow> Inl ErrNotFound
       | Some _ \<Rightarrow> (case bb_Delete B d n k of Inl er \<Rightarrow> Inl (ErrBackend er) | Inr d' \<Rightarrow> Inr d')))"

definition bolt_List :: "'db bbolt \<Rightarrow> 'db \<Rightarrow> string \<Rightarrow> string \<Rightarrow> store_err + bucket" where
  "bolt_List B d n p = (if \<not> bb_Bucket B d n then Inr []
     else Inr (filter (\<lambda>(k, v). p = [] \<or> hasPrefix k p) (bb_ForEach B d n)))"

text \<open>
  The documented behaviour of \<^verbatim>\<open>bbolt\<close>: a bucket is a map, a name and a key must not be empty,
  and \<^verbatim>\<open>ForEach\<close> visits every pair once.
\<close>

definition bbolt_laws :: "'db bbolt \<Rightarrow> ('db \<Rightarrow> bool) \<Rightarrow> bool" where
  "bbolt_laws B ok \<longleftrightarrow>
     (\<forall>d n. ok d \<longrightarrow> n \<noteq> [] \<longrightarrow> (\<exists>d'. bb_CreateBucket B d n = Inr d' \<and> ok d' \<and>
        bb_Bucket B d' = (bb_Bucket B d)(n := True) \<and>
        bb_Get B d' = (\<lambda>n' k. if bb_Bucket B d n' then bb_Get B d n' k else
                              if n' = n then None else bb_Get B d n' k))) \<and>
     (\<forall>d n k v. ok d \<longrightarrow> bb_Bucket B d n \<longrightarrow> k \<noteq> [] \<longrightarrow> (\<exists>d'. bb_Put B d n k v = Inr d' \<and> ok d' \<and>
        bb_Bucket B d' = bb_Bucket B d \<and> bb_Get B d' = upd2 (bb_Get B d) n k (Some v))) \<and>
     (\<forall>d n k. ok d \<longrightarrow> bb_Bucket B d n \<longrightarrow> (\<exists>d'. bb_Delete B d n k = Inr d' \<and> ok d' \<and>
        bb_Bucket B d' = bb_Bucket B d \<and> bb_Get B d' = upd2 (bb_Get B d) n k None)) \<and>
     (\<forall>d n. ok d \<longrightarrow> bb_Bucket B d n \<longrightarrow> distinct (map fst (bb_ForEach B d n)) \<and>
        map_of (bb_ForEach B d n) = bb_Get B d n)"

definition bolt_lookup :: "'db bbolt \<Rightarrow> 'db \<Rightarrow> string \<Rightarrow> string \<Rightarrow> blob option" where
  "bolt_lookup B d n k = (if bb_Bucket B d n then bb_Get B d n k else None)"

definition nonempty_key :: "string \<Rightarrow> string \<Rightarrow> bool" where
  "nonempty_key n k \<longleftrightarrow> n \<noteq> [] \<and> k \<noteq> []"

lemma map_of_filter_prefix:
  "map_of (filter (\<lambda>(k, v). prefix p k) b) k = (if prefix p k then map_of b k else None)"
  by (induction b) auto

lemma bolt_kv_store:
  assumes "bbolt_laws B ok"
  shows "kv_store (bolt_Get B) (bolt_Put B) (bolt_Delete B) (bolt_List B) (bolt_lookup B) ok
    nonempty_key"
proof (unfold_locales, goal_cases)
  case (1 s n k)
  show ?case by (simp add: bolt_Get_def bolt_lookup_def)
next
  case (2 s n k v)
  from assms 2 obtain d' where d': "bb_CreateBucket B s n = Inr d'" "ok d'"
      "bb_Bucket B d' = (bb_Bucket B s)(n := True)"
      "bb_Get B d' = (\<lambda>n' k. if bb_Bucket B s n' then bb_Get B s n' k else
                              if n' = n then None else bb_Get B s n' k)"
    unfolding bbolt_laws_def nonempty_key_def by meson
  moreover have "bb_Bucket B d' n" using d'(3) by simp
  ultimately obtain d'' where d'': "bb_Put B d' n k v = Inr d''" "ok d''"
      "bb_Bucket B d'' = bb_Bucket B d'" "bb_Get B d'' = upd2 (bb_Get B d') n k (Some v)"
    using assms 2 unfolding bbolt_laws_def nonempty_key_def by meson
  from d' d'' show ?case
    by (auto simp: bolt_Put_def bolt_lookup_def fun_eq_iff)
next
  case (3 s n k)
  then show ?case by (simp add: bolt_Delete_def bolt_lookup_def split: if_splits)
next
  case (4 s n k)
  then have "bb_Bucket B s n" and g: "bb_Get B s n k \<noteq> None"
    by (auto simp: bolt_lookup_def split: if_splits)
  with assms 4 obtain d' where "bb_Delete B s n k = Inr d'" "ok d'"
      "bb_Bucket B d' = bb_Bucket B s" "bb_Get B d' = upd2 (bb_Get B s) n k None"
    unfolding bbolt_laws_def by meson
  with \<open>bb_Bucket B s n\<close> g show ?case
    by (auto simp: bolt_Delete_def bolt_lookup_def fun_eq_iff)
next
  case (5 s n p)
  have eq: "filter (\<lambda>(k, v). p = [] \<or> hasPrefix k p) b = filter (\<lambda>(k, v). prefix p k) b" for b :: bucket
    by (auto simp: hasPrefix_def intro!: filter_cong)
  from assms 5 have "bb_Bucket B s n \<Longrightarrow> distinct (map fst (bb_ForEach B s n)) \<and>
      map_of (bb_ForEach B s n) = bb_Get B s n"
    unfolding bbolt_laws_def by blast
  then show ?case
    by (auto simp: bolt_List_def bolt_lookup_def eq map_of_filter_prefix fun_eq_iff
        distinct_map_filter)
qed

section \<open>Properties\<close>

text \<open>
  C13: every sequence of \<^verbatim>\<open>Get\<close>, \<^verbatim>\<open>Put\<close>, \<^verbatim>\<open>Delete\<close> and \<^verbatim>\<open>List\<close> calls against a fresh \<^verbatim>\<open>Memory\<close> returns
  what the same calls return on one partial map per namespace: a read returns the last
  value written and not deleted, a write or a deletion touches its own key only, deleting a
  missing key is \<^verbatim>\<open>ErrNotFound\<close>, and a listing is the restriction of the map to the keys
  with the prefix.
\<close>

theorem memory_refines_map:
  "run_ops Get Put Delete List NewMemory os = abs_run (\<lambda>_ _. None) os"
proof -
  have "mem_lookup NewMemory = (\<lambda>_ _. None)"
    by (simp add: fun_eq_iff mem_lookup_def NewMemory_def)
  then show ?thesis
    using mem.run_refines [OF mem_ok_New, of os] by (simp add: list_all_iff)
qed


text \<open>A database that keeps the laws: buckets as association lists.\<close>

definition bbolt_alist :: "mem bbolt" where
  "bbolt_alist = \<lparr>
     bb_Bucket = (\<lambda>d n. map_of d n \<noteq> None),
     bb_Get = mem_lookup,
     bb_CreateBucket = (\<lambda>d n. if n = [] then Inl ''bucket name required''
        else Inr (fst (mem_ns d n))),
     bb_Put = (\<lambda>d n k v. if k = [] then Inl ''key required'' else Inr (mput d n k v)),
     bb_Delete = (\<lambda>d n k. Inr (mdel d n k)),
     bb_ForEach = bucket_of\<rparr>"

lemma mem_ok_ns: "mem_ok d \<Longrightarrow> mem_ok (fst (mem_ns d n))"
  by (auto simp: mem_ns_def mem_ok_update split: option.splits)

lemma lookup_ns: "mem_lookup (fst (mem_ns d n)) = mem_lookup d"
  by (auto simp: mem_ns_def mem_lookup_def fun_eq_iff update_conv' split: option.splits)

lemma map_of_mput: "map_of (mput d n k v) m = None \<longleftrightarrow> m \<noteq> n \<and> map_of d m = None"
  by (simp add: mput_def update_conv')

lemma map_of_mdel: "map_of (mdel d n k) m = None \<longleftrightarrow> map_of d m = None"
  by (auto simp: mdel_def Delete_def update_conv' split: option.splits)

lemma map_of_ns: "map_of (fst (mem_ns d n)) m = None \<longleftrightarrow> m \<noteq> n \<and> map_of d m = None"
  by (auto simp: mem_ns_def update_conv' split: option.splits)

lemma lookup_missing_ns: "map_of d n = None \<Longrightarrow> mem_lookup d n k = None"
  by (simp add: mem_lookup_def)

lemma bbolt_alist_laws: "bbolt_laws bbolt_alist mem_ok"
  unfolding bbolt_laws_def bbolt_alist_def
  by (intro conjI allI impI)
     (auto simp: mem_ok_ns lookup_ns mem_lookup_bucket [symmetric] fun_eq_iff map_of_mput
       map_of_mdel map_of_ns mem_ok_bucket lookup_missing_ns simp del: not_None_eq)


end
