(* ===== verification/Go_Base64.thy ===== *)
theory Go_Base64
  imports Go_Prelude
begin

text \<open>
  \<^verbatim>\<open>base64.StdEncoding\<close> of the Go standard library, which Pub/Sub, Cloud Tasks and KMS put
  their payloads through.  Decoding returns the bytes written before an error together with
  whether it succeeded, because several callers drop the error and keep the bytes.
\<close>

definition b64char :: "nat \<Rightarrow> char" where
  "b64char n = (if n < 26 then char_of (65 + n) else if n < 52 then char_of (71 + n)
     else if n < 62 then char_of (n - 4) else if n = 62 then CHR ''+'' else CHR ''/'')"

definition b64val :: "char \<Rightarrow> nat option" where
  "b64val c = (let n = of_char c in
     if 65 \<le> n \<and> n \<le> 90 then Some (n - 65) else if 97 \<le> n \<and> n \<le> 122 then Some (n - 71)
     else if 48 \<le> n \<and> n \<le> 57 then Some (n + 4) else if c = CHR ''+'' then Some 62
     else if c = CHR ''/'' then Some 63 else None)"

fun b64_encode :: "string \<Rightarrow> string" where
  "b64_encode [] = []"
| "b64_encode [a] = (let x = of_char a in
     [b64char (x div 4), b64char ((x mod 4) * 16), CHR ''='', CHR ''=''])"
| "b64_encode [a, b] = (let x = of_char a; y = of_char b in
     [b64char (x div 4), b64char ((x mod 4) * 16 + y div 16), b64char ((y mod 16) * 4),
      CHR ''=''])"
| "b64_encode (a # b # c # r) = (let x = of_char a; y = of_char b; z = of_char c in
     b64char (x div 4) # b64char ((x mod 4) * 16 + y div 16)
     # b64char ((y mod 16) * 4 + z div 64) # b64char (z mod 64) # b64_encode r)"

fun b64_quanta :: "string \<Rightarrow> string \<times> bool" where
  "b64_quanta [] = ([], True)"
| "b64_quanta (a # b # c # d # r) = (case (b64val a, b64val b) of
     (Some w, Some x) \<Rightarrow> (case (b64val c, b64val d) of
        (Some y, Some z) \<Rightarrow> (let (bs, ok) = b64_quanta r in
           (char_of (w * 4 + x div 16) # char_of ((x mod 16) * 16 + y div 4)
            # char_of ((y mod 4) * 64 + z) # bs, ok))
      | (Some y, None) \<Rightarrow> if d = CHR ''=''
           then ([char_of (w * 4 + x div 16), char_of ((x mod 16) * 16 + y div 4)], r = [])
           else ([], False)
      | (None, _) \<Rightarrow> if c = CHR ''='' \<and> d = CHR ''=''
           then ([char_of (w * 4 + x div 16)], r = []) else ([], False))
   | _ \<Rightarrow> ([], False))"
| "b64_quanta _ = ([], False)"

definition is_newline :: "char \<Rightarrow> bool" where
  "is_newline c = (of_char c = (10::nat) \<or> of_char c = (13::nat))"

definition b64_decode :: "string \<Rightarrow> string \<times> bool" where
  "b64_decode s = b64_quanta (filter (\<lambda>c. \<not> is_newline c) s)"

lemma b64val_char [simp]: "n < 64 \<Longrightarrow> b64val (b64char n) = Some n"
  by (auto simp: b64val_def b64char_def Let_def)

lemma b64val_pad [simp]: "b64val (CHR ''='') = None"
  by (simp add: b64val_def)

lemma b64char_pad: "n < 64 \<Longrightarrow> b64char n \<noteq> CHR ''=''"
  using b64val_char [of n] by force

lemma b64char_newline [simp]: "n < 64 \<Longrightarrow> \<not> is_newline (b64char n)"
  by (auto simp: is_newline_def b64char_def)

lemma pad_newline [simp]: "\<not> is_newline (CHR ''='')"
  by (simp add: is_newline_def)

lemma of_char_256: "(of_char (c :: char) :: nat) < 256"
  by (rule nat_of_char_less_256)

lemma char_sextets:
  fixes x y z :: nat
  assumes "x < 256" "y < 256" "z < 256"
  shows "x div 4 < 64" "(x mod 4) * 16 < 64" "(x mod 4) * 16 + y div 16 < 64"
    "(y mod 16) * 4 < 64" "(y mod 16) * 4 + z div 64 < 64" "z mod 64 < 64"
    "(x div 4) * 4 + ((x mod 4) * 16 + y div 16) div 16 = x"
    "(x div 4) * 4 + (x mod 4) * 16 div 16 = x"
    "((x mod 4) * 16 + y div 16) mod 16 * 16 + ((y mod 16) * 4 + z div 64) div 4 = y"
    "((x mod 4) * 16 + y div 16) mod 16 * 16 + (y mod 16) * 4 div 4 = y"
    "((y mod 16) * 4 + z div 64) mod 4 * 64 + z mod 64 = z"
proof -
  define p q r s t u where defs: "p = x div 4" "q = x mod 4" "r = y div 16" "s = y mod 16"
    "t = z div 64" "u = z mod 64"
  have x: "x = 4 * p + q" and y: "y = 16 * r + s" and z: "z = 64 * t + u"
    by (simp_all add: defs)
  have b: "p < 64" "q < 4" "r < 16" "s < 16" "t < 4" "u < 64"
    using assms by (simp_all add: defs less_mult_imp_div_less)
  have d: "(q * 16 + r) div 16 = q" "(q * 16 + r) mod 16 = r"
    "(s * 4 + t) div 4 = s" "(s * 4 + t) mod 4 = t"
    using b by simp_all
  show "x div 4 < 64" "(x mod 4) * 16 < 64" "(x mod 4) * 16 + y div 16 < 64"
    "(y mod 16) * 4 < 64" "(y mod 16) * 4 + z div 64 < 64" "z mod 64 < 64"
    "(x div 4) * 4 + ((x mod 4) * 16 + y div 16) div 16 = x"
    "(x div 4) * 4 + (x mod 4) * 16 div 16 = x"
    "((x mod 4) * 16 + y div 16) mod 16 * 16 + ((y mod 16) * 4 + z div 64) div 4 = y"
    "((x mod 4) * 16 + y div 16) mod 16 * 16 + (y mod 16) * 4 div 4 = y"
    "((y mod 16) * 4 + z div 64) mod 4 * 64 + z mod 64 = z"
    using b d x y z by (simp_all add: defs [symmetric])
qed

lemma b64_encode_clean: "list_all (\<lambda>c. \<not> is_newline c) (b64_encode s)"
  by (induction s rule: b64_encode.induct)
     (auto simp: Let_def of_char_256 char_sextets(1-6) [OF of_char_256 of_char_256 of_char_256])

lemma b64_quanta_encode: "b64_quanta (b64_encode s) = (s, True)"
proof (induction s rule: b64_encode.induct)
  case (2 a)
  show ?case
    using char_sextets [OF of_char_256 [of a] of_char_256 of_char_256] by (simp add: Let_def)
next
  case (3 a b)
  show ?case
    using char_sextets [OF of_char_256 [of a] of_char_256 [of b] of_char_256]
    by (simp add: Let_def)
next
  case (4 a b c r)
  then show ?case
    using char_sextets [OF of_char_256 [of a] of_char_256 [of b] of_char_256 [of c]]
    by (simp add: Let_def)
qed simp

lemma b64_roundtrip [simp]: "b64_decode (b64_encode s) = (s, True)"
  using b64_encode_clean [of s]
  by (simp add: b64_decode_def b64_quanta_encode filter_id_conv list_all_iff)

end
