(* ===== verification/Config.thy ===== *)
theory Config
  imports Go_Prelude
begin

text \<open>
  Package \<^verbatim>\<open>internal/config\<close>: the configuration record, its defaults and how a file is laid
  over them.  Reading the file and \<^verbatim>\<open>yaml.Unmarshal\<close> (a third-party package) are parameters of
  \<open>Load\<close>.  The sections that only carry an \<^verbatim>\<open>enabled\<close> flag are kept as that flag.
\<close>

record TLS =
  tls_Enabled :: bool
  tls_CertFile :: string
  tls_KeyFile :: string

record SubscriptionCfg =
  cfg_SubName :: string
  cfg_PushEndpoint :: string

record TopicCfg =
  cfg_TopicName :: string
  cfg_Subscriptions :: "SubscriptionCfg list"

record BucketCfg =
  cfg_BucketName :: string
  cfg_Seed :: string

record SecretCfg =
  cfg_SecretName :: string
  cfg_SecretValue :: string

record CloudSQLInstance =
  csql_Name :: string
  csql_Engine :: string
  csql_Port :: int
  csql_Database :: string
  csql_Seed :: string

record ServicesConfig =
  Storage_Enabled :: bool
  Storage_Buckets :: "BucketCfg list"
  PubSub_Enabled :: bool
  PubSub_Topics :: "TopicCfg list"
  SecretManager_Enabled :: bool
  SecretManager_Secrets :: "SecretCfg list"
  Tasks_Enabled :: bool
  Scheduler_Enabled :: bool
  KMS_Enabled :: bool
  Logging_Enabled :: bool
  Monitoring_Enabled :: bool
  Firestore_Enabled :: bool
  BigQuery_Enabled :: bool
  Bigtable_Enabled :: bool
  Spanner_Enabled :: bool
  Memorystore_Enabled :: bool
  Memorystore_Port :: int
  CloudSQL_Enabled :: bool
  CloudSQL_BasePort :: int
  CloudSQL_Instances :: "CloudSQLInstance list"
  CloudRun_Enabled :: bool
  Functions_Enabled :: bool
  Metadata_Enabled :: bool

record Config =
  Project :: string
  Port :: int
  State :: string
  StateDir :: string
  Dashboard :: bool
  DashboardPort :: int
  TLS_cfg :: TLS
  Services :: ServicesConfig

definition Default :: Config where
  "Default = \<lparr>
     Project = ''local-project'',
     Port = 4443,
     State = ''memory'',
     StateDir = [],
     Dashboard = True,
     DashboardPort = 4444,
     TLS_cfg = \<lparr>tls_Enabled = False, tls_CertFile = [], tls_KeyFile = []\<rparr>,
     Services = \<lparr>
       Storage_Enabled = True, Storage_Buckets = [],
       PubSub_Enabled = True, PubSub_Topics = [],
       SecretManager_Enabled = True, SecretManager_Secrets = [],
       Tasks_Enabled = True,
       Scheduler_Enabled = True,
       KMS_Enabled = True,
       Logging_Enabled = True,
       Monitoring_Enabled = True,
       Firestore_Enabled = True,
       BigQuery_Enabled = True,
       Bigtable_Enabled = True,
       Spanner_Enabled = True,
       Memorystore_Enabled = False, Memorystore_Port = 0,
       CloudSQL_Enabled = True, CloudSQL_BasePort = 5432, CloudSQL_Instances = [],
       CloudRun_Enabled = True,
       Functions_Enabled = True,
       Metadata_Enabled = True\<rparr>\<rparr>"

text \<open>
  \<open>readFile\<close> is \<^verbatim>\<open>os.ReadFile\<close> and \<open>yaml\<close> is \<^verbatim>\<open>yaml.Unmarshal\<close> into a configuration that already
  holds the defaults; both may fail with a message.
\<close>

definition Load :: "(string \<Rightarrow> string + string) \<Rightarrow> (string \<Rightarrow> Config \<Rightarrow> string + Config)
    \<Rightarrow> string \<Rightarrow> string + Config" where
  "Load readFile yaml path = (if path = [] then Inr Default
     else (case readFile path of
       Inl er \<Rightarrow> Inl (''read '' @ path @ '': '' @ er)
     | Inr data \<Rightarrow> (case yaml data Default of
         Inl er \<Rightarrow> Inl (''parse '' @ path @ '': '' @ er)
       | Inr cfg \<Rightarrow>
           let cfg = (if Port cfg = 0 then cfg\<lparr>Port := 4443\<rparr> else cfg);
               cfg = (if Project cfg = [] then cfg\<lparr>Project := ''local-project''\<rparr> else cfg);
               cfg = (if State cfg = [] then cfg\<lparr>State := ''memory''\<rparr> else cfg)
           in Inr cfg)))"

datatype backend = UseMemory | UseBolt string | UnknownBackend string

text \<open>\<^verbatim>\<open>state.Open\<close>: which backend a configuration selects.\<close>

definition Open :: "Config \<Rightarrow> backend" where
  "Open cfg = (if State cfg = ''memory'' \<or> State cfg = [] then UseMemory
     else if State cfg = ''boltdb''
       then UseBolt (if StateDir cfg = [] then ''.gcp-local.db'' else StateDir cfg)
     else UnknownBackend (State cfg))"

end
