(* ===== verification/Pubsub.thy ===== *)
theory Pubsub
  imports State_Store Go_Base64 Config
begin

text \<open>
  The core of \<^verbatim>\<open>internal/services/pubsub\<close>: the resources and their JSON encoding, the queues of
  the subscriptions, and the Go API that the REST and gRPC layers and the push workers call
  (\<^verbatim>\<open>CreateTopic\<close> to \<^verbatim>\<open>ListSubscriptions\<close>).  The topics and subscriptions live in the shared store
  \<open>mem\<close>; queues, counters and push workers live in the service state \<open>pubsub\<close>.
\<close>

section \<open>Data\<close>

definition nsTopics :: string where "nsTopics = ''pubsub/topics''"
definition nsSubscriptions :: string where "nsSubscriptions = ''pubsub/subscriptions''"

lemmas [ns_defs] = nsTopics_def nsSubscriptions_def

datatype pubsub_err = PErrAlreadyExists | ErrTopicMissing | ErrSubMissing | PErrStore store_err

record topicResource =
  topic_Name :: string

record pushConfig =
  PushEndpoint :: string

record subscriptionResource =
  sub_Name :: string
  sub_Topic :: string
  sub_AckDeadlineSeconds :: int
  sub_PushConfig :: "pushConfig option"

record pubsubMessage =
  pm_Data :: string
  pm_Attributes :: "(string \<times> string) list"
  pm_MessageID :: string
  pm_PublishTime :: time
  pm_OrderingKey :: string

record storedMessage =
  AckID :: string
  Message :: pubsubMessage
  Inflight :: bool
  Deadline :: time

definition available :: "storedMessage \<Rightarrow> time \<Rightarrow> bool" where
  "available m now = (\<not> Inflight m \<or> now > Deadline m)"

text \<open>The message of the pure-Go API, its data decoded.\<close>

record gmessage =
  gm_ID :: string
  gm_Data :: string
  gm_Attributes :: "(string \<times> string) list"
  gm_OrderingKey :: string
  gm_PublishTime :: time

record Received =
  rc_AckID :: string
  rc_Message :: gmessage

text \<open>
  A push worker: the goroutine \<^verbatim>\<open>runPusher\<close> started for a subscription, with its local
  variables.  \<open>w_pending\<close> holds the pulled messages it has not delivered yet.
\<close>

record pusher =
  w_sub :: string
  w_endpoint :: string
  w_backoff :: int
  w_maxBackoff :: int
  w_pending :: "Received list"
  w_cancelled :: bool

text \<open>
  The service.  A missing key of the Go map \<^verbatim>\<open>queues\<close> reads as the nil slice, so the map is
  a total function.  \<open>ps_pushers\<close> maps a subscription name to the worker whose cancel function
  it holds; \<open>ps_workers\<close> are the live goroutines.
\<close>

record pubsub =
  ps_queues :: "string \<Rightarrow> storedMessage list"
  ps_msgSeq :: nat
  ps_ackSeq :: nat
  ps_pushers :: "(string \<times> nat) list"
  ps_workers :: "(nat \<times> pusher) list"
  ps_nextWorker :: nat
  ps_stopped :: bool

section \<open>JSON of the stored resources\<close>

definition enc_topic :: "topicResource \<Rightarrow> json" where
  "enc_topic t = JObj [(''name'', JStr (topic_Name t))]"

definition enc_sub :: "subscriptionResource \<Rightarrow> json" where
  "enc_sub s = JObj ([(''name'', JStr (sub_Name s)), (''topic'', JStr (sub_Topic s)),
       (''ackDeadlineSeconds'', JNum (sub_AckDeadlineSeconds s))] @
     (case sub_PushConfig s of None \<Rightarrow> []
      | Some p \<Rightarrow> [(''pushConfig'', JObj [(''pushEndpoint'', JStr (PushEndpoint p))])]))"

definition dec_pushConfig :: "json option \<Rightarrow> pushConfig option \<times> bool" where
  "dec_pushConfig jo = (case jo of None \<Rightarrow> (None, True) | Some JNull \<Rightarrow> (None, True)
     | Some j \<Rightarrow> (let (ep, ok) = fld_str ''pushEndpoint'' j in
         (Some \<lparr>PushEndpoint = ep\<rparr>, ok \<and> is_struct_doc j)))"

text \<open>Decoding a subscription: the struct as far as it was filled, and whether there was no error.\<close>

definition dec_sub :: "json \<Rightarrow> subscriptionResource \<times> bool" where
  "dec_sub j = (let (n, ok1) = fld_str ''name'' j; (t, ok2) = fld_str ''topic'' j;
       (a, ok3) = fld_int ''ackDeadlineSeconds'' j;
       (p, ok4) = dec_pushConfig (jget ''pushConfig'' j) in
     (\<lparr>sub_Name = n, sub_Topic = t, sub_AckDeadlineSeconds = a, sub_PushConfig = p\<rparr>,
      is_struct_doc j \<and> ok1 \<and> ok2 \<and> ok3 \<and> ok4))"

definition zero_sub :: subscriptionResource where
  "zero_sub = \<lparr>sub_Name = [], sub_Topic = [], sub_AckDeadlineSeconds = 0, sub_PushConfig = None\<rparr>"

text \<open>\<^verbatim>\<open>json.Unmarshal\<close> of stored bytes.\<close>

fun unmarshal_sub :: "blob \<Rightarrow> subscriptionResource \<times> bool" where
  "unmarshal_sub (JsonB j) = dec_sub j"
| "unmarshal_sub (RawB b) = (zero_sub, False)"

fun unmarshal_topic :: "blob \<Rightarrow> topicResource \<times> bool" where
  "unmarshal_topic (JsonB j) = (let (n, ok) = fld_str ''name'' j in
     (\<lparr>topic_Name = n\<rparr>, ok \<and> is_struct_doc j))"
| "unmarshal_topic (RawB b) = (\<lparr>topic_Name = []\<rparr>, False)"

section \<open>Push workers: start and stop\<close>

definition initialBackoff :: int where "initialBackoff = 100 * 1000000"
definition second :: int where "second = 1000000000"

text \<open>\<^verbatim>\<open>time.Duration(n) * time.Second\<close>, which may wrap around.\<close>

definition seconds :: "int \<Rightarrow> int" where
  "seconds n = wrap64 (n * second)"

definition startPusher :: "pubsub \<Rightarrow> subscriptionResource \<Rightarrow> pubsub" where
  "startPusher p sub = (case sub_PushConfig sub of None \<Rightarrow> p
     | Some pc \<Rightarrow> if PushEndpoint pc = [] then p
       else if map_of (ps_pushers p) (sub_Name sub) \<noteq> None then p
       else p\<lparr>ps_pushers := AList.update (sub_Name sub) (ps_nextWorker p) (ps_pushers p),
              ps_workers := ps_workers p @ [(ps_nextWorker p,
                 \<lparr>w_sub = sub_Name sub, w_endpoint = PushEndpoint pc, w_backoff = initialBackoff,
                  w_maxBackoff = 0, w_pending = [], w_cancelled = ps_stopped p\<rparr>)],
              ps_nextWorker := Suc (ps_nextWorker p)\<rparr>)"

definition cancel_worker :: "nat \<Rightarrow> (nat \<times> pusher) list \<Rightarrow> (nat \<times> pusher) list" where
  "cancel_worker i ws = map (\<lambda>(j, w). (j, if j = i then w\<lparr>w_cancelled := True\<rparr> else w)) ws"

definition stopPusher :: "pubsub \<Rightarrow> string \<Rightarrow> pubsub" where
  "stopPusher p name = (case map_of (ps_pushers p) name of None \<Rightarrow> p
     | Some i \<Rightarrow> p\<lparr>ps_pushers := AList.delete name (ps_pushers p),
                   ps_workers := cancel_worker i (ps_workers p)\<rparr>)"

text \<open>\<^verbatim>\<open>Stop\<close> cancels the parent context, hence every worker.\<close>

definition pubsub_Stop :: "pubsub \<Rightarrow> pubsub" where
  "pubsub_Stop p = p\<lparr>ps_stopped := True,
     ps_workers := map (\<lambda>(j, w). (j, w\<lparr>w_cancelled := True\<rparr>)) (ps_workers p)\<rparr>"

section \<open>Topics and subscriptions\<close>

definition putTopic :: "mem \<Rightarrow> string \<Rightarrow> store_err + mem" where
  "putTopic s name = Put s nsTopics name (JsonB (enc_topic \<lparr>topic_Name = name\<rparr>))"

definition putSubscription :: "mem \<Rightarrow> subscriptionResource \<Rightarrow> store_err + mem" where
  "putSubscription s sub = Put s nsSubscriptions (sub_Name sub) (JsonB (enc_sub sub))"

definition CreateTopic :: "mem \<Rightarrow> string \<Rightarrow> pubsub_err + mem" where
  "CreateTopic s name = (case Get s nsTopics name of
     Inr _ \<Rightarrow> Inl PErrAlreadyExists
   | Inl _ \<Rightarrow> (case putTopic s name of Inl er \<Rightarrow> Inl (PErrStore er) | Inr s' \<Rightarrow> Inr s'))"

definition GetTopic :: "mem \<Rightarrow> string \<Rightarrow> store_err + bool" where
  "GetTopic s name = (case Get s nsTopics name of
     Inl er \<Rightarrow> if er = ErrNotFound then Inr False else Inl er | Inr _ \<Rightarrow> Inr True)"

definition DeleteTopic :: "mem \<Rightarrow> string \<Rightarrow> store_err + mem" where
  "DeleteTopic s name = Delete s nsTopics name"

definition CreateSubscription :: "mem \<Rightarrow> pubsub \<Rightarrow> string \<Rightarrow> string \<Rightarrow> int \<Rightarrow> string
    \<Rightarrow> pubsub_err + (mem \<times> pubsub)" where
  "CreateSubscription s p name topic ackDeadline pushURL =
     (case Get s nsTopics topic of Inl _ \<Rightarrow> Inl ErrTopicMissing
      | Inr _ \<Rightarrow> (case Get s nsSubscriptions name of Inr _ \<Rightarrow> Inl PErrAlreadyExists
        | Inl _ \<Rightarrow>
            let ackDeadline = (if ackDeadline \<le> 0 then 10 else ackDeadline);
                res = \<lparr>sub_Name = name, sub_Topic = topic,
                       sub_AckDeadlineSeconds = ackDeadline,
                       sub_PushConfig = (if pushURL \<noteq> [] then Some \<lparr>PushEndpoint = pushURL\<rparr>
                                         else None)\<rparr>
            in (case putSubscription s res of Inl er \<Rightarrow> Inl (PErrStore er)
                | Inr s' \<Rightarrow> Inr (s', if sub_PushConfig res \<noteq> None then startPusher p res else p))))"

definition GetSubscription :: "mem \<Rightarrow> string \<Rightarrow> pubsub_err + (string \<times> int)" where
  "GetSubscription s name = (case Get s nsSubscriptions name of Inl _ \<Rightarrow> Inl ErrSubMissing
     | Inr d \<Rightarrow> (let (sub, _) = unmarshal_sub d in
         Inr (sub_Topic sub, sub_AckDeadlineSeconds sub)))"

definition drop_queue :: "pubsub \<Rightarrow> string \<Rightarrow> pubsub" where
  "drop_queue p name = p\<lparr>ps_queues := (ps_queues p)(name := [])\<rparr>"

definition DeleteSubscription :: "mem \<Rightarrow> pubsub \<Rightarrow> string \<Rightarrow> pubsub_err + (mem \<times> pubsub)" where
  "DeleteSubscription s p name = (case Delete s nsSubscriptions name of
     Inl _ \<Rightarrow> Inl ErrSubMissing
   | Inr s' \<Rightarrow> Inr (s', drop_queue (stopPusher p name) name))"

section \<open>Publish\<close>

definition subsForTopic :: "go_env \<Rightarrow> mem \<Rightarrow> string \<Rightarrow> store_err + subscriptionResource list" where
  "subsForTopic e s topic = (case List s nsSubscriptions [] of Inl er \<Rightarrow> Inl er
     | Inr all \<Rightarrow> Inr (concat (map (\<lambda>(_, v). let (sub, ok) = unmarshal_sub v in
         if \<not> ok then [] else if sub_Topic sub = topic then [sub] else []) (e_range e all))))"

definition msg_id :: "nat \<Rightarrow> string" where "msg_id n = ''msg-'' @ itoa n"
definition ack_id :: "nat \<Rightarrow> string" where "ack_id n = ''ack-'' @ itoa n"

text \<open>The first loop: message identifiers and publish times, in the order of the request.\<close>

fun stamp :: "go_env \<Rightarrow> nat \<Rightarrow> nat \<Rightarrow> gmessage list \<Rightarrow> gmessage list \<times> nat" where
  "stamp e i sq [] = ([], sq)"
| "stamp e i sq (m # ms) = (let sq' = u64_inc sq; (r, q) = stamp e (Suc i) sq' ms in
     (m\<lparr>gm_ID := msg_id sq', gm_PublishTime := e_now e i\<rparr> # r, q))"

definition to_stored :: "nat \<Rightarrow> gmessage \<Rightarrow> storedMessage" where
  "to_stored ack m = \<lparr>AckID = ack_id ack, Message = \<lparr>
      pm_Data = b64_encode (gm_Data m), pm_Attributes = gm_Attributes m,
      pm_MessageID = gm_ID m, pm_PublishTime = gm_PublishTime m,
      pm_OrderingKey = gm_OrderingKey m\<rparr>, Inflight = False, Deadline = 0\<rparr>"

text \<open>The second loop: each message is appended to the queue of each subscription.\<close>

fun enqueue_msgs :: "string \<Rightarrow> gmessage list \<Rightarrow> pubsub \<Rightarrow> pubsub" where
  "enqueue_msgs sub [] p = p"
| "enqueue_msgs sub (m # ms) p = (let a = u64_inc (ps_ackSeq p) in
     enqueue_msgs sub ms (p\<lparr>ps_ackSeq := a,
       ps_queues := (ps_queues p)(sub := ps_queues p sub @ [to_stored a m])\<rparr>))"

fun enqueue_subs :: "subscriptionResource list \<Rightarrow> gmessage list \<Rightarrow> pubsub \<Rightarrow> pubsub" where
  "enqueue_subs [] ms p = p"
| "enqueue_subs (sub # subs) ms p = enqueue_subs subs ms (enqueue_msgs (sub_Name sub) ms p)"

definition PublishMessages :: "go_env \<Rightarrow> mem \<Rightarrow> pubsub \<Rightarrow> string \<Rightarrow> gmessage list
    \<Rightarrow> (pubsub_err + string list) \<times> pubsub" where
  "PublishMessages e s p topic msgs = (case Get s nsTopics topic of
     Inl _ \<Rightarrow> (Inl ErrTopicMissing, p)
   | Inr _ \<Rightarrow> (case subsForTopic e s topic of Inl er \<Rightarrow> (Inl (PErrStore er), p)
     | Inr subs \<Rightarrow> let (msgs', sq) = stamp e 0 (ps_msgSeq p) msgs in
         (Inr (map gm_ID msgs'), enqueue_subs subs msgs' (p\<lparr>ps_msgSeq := sq\<rparr>))))"

section \<open>Pull, acknowledge, modify\<close>

definition to_received :: "string \<Rightarrow> pubsubMessage \<Rightarrow> Received" where
  "to_received a m = \<lparr>rc_AckID = a, rc_Message = \<lparr>gm_ID = pm_MessageID m,
     gm_Data = fst (b64_decode (pm_Data m)), gm_Attributes = pm_Attributes m,
     gm_OrderingKey = pm_OrderingKey m, gm_PublishTime = pm_PublishTime m\<rparr>\<rparr>"

text \<open>
  The loop over the queue: \<open>room\<close> is \<^verbatim>\<open>limit - len(out)\<close>; the result is what was received, the
  queue as updated in place, and the counter.
\<close>

fun pull_loop :: "time \<Rightarrow> time \<Rightarrow> nat \<Rightarrow> nat \<Rightarrow> storedMessage list
    \<Rightarrow> Received list \<times> storedMessage list \<times> nat" where
  "pull_loop now dl room ack [] = ([], [], ack)"
| "pull_loop now dl 0 ack (m # q) = ([], m # q, ack)"
| "pull_loop now dl (Suc room) ack (m # q) =
     (if \<not> available m now
      then (let (out, q', a) = pull_loop now dl (Suc room) ack q in (out, m # q', a))
      else (let a' = u64_inc ack; (out, q', a) = pull_loop now dl room a' q in
        (to_received (ack_id a') (Message m) # out,
         m\<lparr>Inflight := True, Deadline := dl, AckID := ack_id a'\<rparr> # q', a)))"

definition PullMessages :: "go_env \<Rightarrow> mem \<Rightarrow> pubsub \<Rightarrow> string \<Rightarrow> int
    \<Rightarrow> (pubsub_err + Received list) \<times> pubsub" where
  "PullMessages e s p subName limit = (case Get s nsSubscriptions subName of
     Inl _ \<Rightarrow> (Inl ErrSubMissing, p)
   | Inr d \<Rightarrow>
       let (sub, _) = unmarshal_sub d;
           ackSec = (if sub_AckDeadlineSeconds sub \<le> 0 then 10 else sub_AckDeadlineSeconds sub);
           limit = (if limit \<le> 0 then 10 else limit);
           now = e_now e 0;
           deadline = now + seconds ackSec;
           (out, q', a) = pull_loop now deadline (nat limit) (ps_ackSeq p) (ps_queues p subName)
       in (Inr out, p\<lparr>ps_ackSeq := a, ps_queues := (ps_queues p)(subName := q')\<rparr>))"

definition Acknowledge :: "mem \<Rightarrow> pubsub \<Rightarrow> string \<Rightarrow> string list \<Rightarrow> (pubsub_err + unit) \<times> pubsub" where
  "Acknowledge s p subName ackIDs = (case Get s nsSubscriptions subName of
     Inl _ \<Rightarrow> (Inl ErrSubMissing, p)
   | Inr _ \<Rightarrow> if ackIDs = [] then (Inr (), p)
     else (Inr (), p\<lparr>ps_queues := (ps_queues p)(subName :=
        filter (\<lambda>m. \<not> (AckID m \<in> set ackIDs \<and> Inflight m)) (ps_queues p subName))\<rparr>))"

definition modack_one :: "time \<Rightarrow> string list \<Rightarrow> int \<Rightarrow> storedMessage \<Rightarrow> storedMessage" where
  "modack_one now ackIDs sec m = (if AckID m \<notin> set ackIDs then m
     else if sec \<le> 0 then m\<lparr>Inflight := False, Deadline := 0\<rparr>
     else m\<lparr>Deadline := now + seconds sec\<rparr>)"

definition ModifyAckDeadline :: "go_env \<Rightarrow> mem \<Rightarrow> pubsub \<Rightarrow> string \<Rightarrow> string list \<Rightarrow> int
    \<Rightarrow> (pubsub_err + unit) \<times> pubsub" where
  "ModifyAckDeadline e s p subName ackIDs sec = (case Get s nsSubscriptions subName of
     Inl _ \<Rightarrow> (Inl ErrSubMissing, p)
   | Inr _ \<Rightarrow> if ackIDs = [] then (Inr (), p)
     else (Inr (), p\<lparr>ps_queues := (ps_queues p)(subName :=
        map (modack_one (e_now e 0) ackIDs sec) (ps_queues p subName))\<rparr>))"

definition ListTopics :: "go_env \<Rightarrow> mem \<Rightarrow> string \<Rightarrow> store_err + string list" where
  "ListTopics e s projectPrefix = (case List s nsTopics projectPrefix of Inl er \<Rightarrow> Inl er
     | Inr all \<Rightarrow> Inr (map fst (e_range e all)))"

definition ListSubscriptions :: "go_env \<Rightarrow> mem \<Rightarrow> string \<Rightarrow> store_err + string list" where
  "ListSubscriptions e s projectPrefix = (case List s nsSubscriptions projectPrefix of
     Inl er \<Rightarrow> Inl er | Inr all \<Rightarrow> Inr (map fst (e_range e all)))"

section \<open>Construction from the configuration\<close>

definition empty_pubsub :: pubsub where
  "empty_pubsub = \<lparr>ps_queues = (\<lambda>_. []), ps_msgSeq = 0, ps_ackSeq = 0, ps_pushers = [],
     ps_workers = [], ps_nextWorker = 0, ps_stopped = False\<rparr>"

fun seed_subs :: "string \<Rightarrow> string \<Rightarrow> SubscriptionCfg list \<Rightarrow> mem \<times> pubsub
    \<Rightarrow> string + (mem \<times> pubsub)" where
  "seed_subs proj topicName [] st = Inr st"
| "seed_subs proj topicName (sub # subs) (s, p) =
     (let subName = ''projects/'' @ proj @ ''/subscriptions/'' @ cfg_SubName sub;
          res = \<lparr>sub_Name = subName, sub_Topic = topicName, sub_AckDeadlineSeconds = 10,
                 sub_PushConfig = (if cfg_PushEndpoint sub \<noteq> []
                   then Some \<lparr>PushEndpoint = cfg_PushEndpoint sub\<rparr> else None)\<rparr>
      in (case putSubscription s res of
            Inl er \<Rightarrow> Inl (''seed subscription '' @ cfg_SubName sub)
          | Inr s' \<Rightarrow> seed_subs proj topicName subs
              (s', if sub_PushConfig res \<noteq> None then startPusher p res else p)))"

fun seed_topics :: "string \<Rightarrow> TopicCfg list \<Rightarrow> mem \<times> pubsub \<Rightarrow> string + (mem \<times> pubsub)" where
  "seed_topics proj [] st = Inr st"
| "seed_topics proj (t # ts) (s, p) =
     (let topicName = ''projects/'' @ proj @ ''/topics/'' @ cfg_TopicName t in
      (case putTopic s topicName of Inl er \<Rightarrow> Inl (''seed topic '' @ cfg_TopicName t)
       | Inr s' \<Rightarrow> (case seed_subs proj topicName (cfg_Subscriptions t) (s', p) of
           Inl er \<Rightarrow> Inl er | Inr st \<Rightarrow> seed_topics proj ts st)))"

definition pubsub_New :: "mem \<Rightarrow> Config \<Rightarrow> string + (mem \<times> pubsub)" where
  "pubsub_New s cfg = seed_topics (Project cfg) (PubSub_Topics (Services cfg)) (s, empty_pubsub)"

end
