(* ===== verification/Resource_Codec.thy ===== *)
theory Resource_Codec
  imports State_Store
begin

text \<open>
  What the services share in how they keep resources: a resource is marshalled to JSON under
  its name in a namespace, and unmarshalled when it is read.  The locale \<open>stored_resource\<close> states
  the contract of one kind of resource (decoding undoes encoding) and proves once what follows for
  the store; each service interprets it on its own encoder and decoder.  The locale \<open>machine\<close> is
  the contract of a service as a transition system: an invariant that holds at the start and
  that every step keeps.
\<close>

section \<open>Typed namespaces\<close>

definition typed_ns :: "('a \<Rightarrow> json) \<Rightarrow> ('a \<Rightarrow> bool) \<Rightarrow> ('a \<Rightarrow> string) \<Rightarrow> string \<Rightarrow> mem \<Rightarrow> bool" where
  "typed_ns enc okr key n m \<longleftrightarrow>
     (\<forall>k v. mem_lookup m n k = Some v \<longrightarrow> (\<exists>x. v = JsonB (enc x) \<and> okr x \<and> key x = k))"

lemma typed_ns_lookup_cong:
  "mem_lookup m' n = mem_lookup m n \<Longrightarrow> typed_ns enc okr key n m' \<longleftrightarrow> typed_ns enc okr key n m"
  by (simp add: typed_ns_def)

lemma typed_ns_mono:
  assumes "typed_ns enc okr key n m"
    and "\<And>k v. mem_lookup m' n k = Some v \<Longrightarrow> mem_lookup m n k = Some v"
  shows "typed_ns enc okr key n m'"
  using assms by (auto simp: typed_ns_def)

lemma typed_ns_New [simp]: "typed_ns enc okr key n NewMemory"
  by (simp add: typed_ns_def mem_lookup_def NewMemory_def)

lemma typed_ns_mdel: "mem_ok m \<Longrightarrow> typed_ns enc okr key n m \<Longrightarrow> typed_ns enc okr key n (mdel m n' k)"
  by (erule typed_ns_mono) (simp split: if_splits)

lemma typed_ns_mput:
  "mem_ok m \<Longrightarrow> typed_ns enc okr key n m \<Longrightarrow> okr x \<Longrightarrow> key x = k \<Longrightarrow>
    typed_ns enc okr key n (mput m n k (JsonB (enc x)))"
  by (auto simp: typed_ns_def)

lemma typed_ns_mput_other:
  "mem_ok m \<Longrightarrow> n' \<noteq> n \<Longrightarrow> typed_ns enc okr key n (mput m n' k v) \<longleftrightarrow> typed_ns enc okr key n m"
  by (rule typed_ns_lookup_cong) (simp add: fun_eq_iff)

locale stored_resource =
  fixes enc :: "'a \<Rightarrow> json"
    and unm :: "blob \<Rightarrow> 'a \<times> bool"
    and okr :: "'a \<Rightarrow> bool"
    and key :: "'a \<Rightarrow> string"
    and ns :: string
  assumes roundtrip: "okr x \<Longrightarrow> unm (JsonB (enc x)) = (x, True)"
begin

text \<open>What was written is what is read.\<close>

lemma stored:
  assumes "mem_ok m" "okr x" "Put m ns (key x) (JsonB (enc x)) = Inr m'"
  shows "\<exists>d. Get m' ns (key x) = Inr d \<and> unm d = (x, True)"
  using assms by (auto simp: Get_lookup roundtrip)

text \<open>In a typed namespace every read decodes, to a resource with the name it is kept under.\<close>

lemma lookup_read:
  assumes "typed_ns enc okr key ns m" "mem_lookup m ns k = Some d"
  shows "\<exists>x. unm d = (x, True) \<and> okr x \<and> key x = k \<and> d = JsonB (enc x)"
  using assms unfolding typed_ns_def by (metis roundtrip)

lemma read:
  assumes "typed_ns enc okr key ns m" "Get m ns k = Inr d"
  shows "\<exists>x. unm d = (x, True) \<and> okr x \<and> key x = k \<and> d = JsonB (enc x)"
  using assms lookup_read by (auto simp: Get_lookup split: option.splits)

text \<open>A listing decodes to resources with distinct names.\<close>

lemma listed:
  assumes "mem_ok m" "typed_ns enc okr key ns m" "(k, v) \<in> set (mlist m ns p)"
  shows "\<exists>x. unm v = (x, True) \<and> okr x \<and> key x = k \<and> v = JsonB (enc x)"
  using assms lookup_read by (simp add: in_mlist)

lemma listed_key:
  assumes "mem_ok m" "typed_ns enc okr key ns m" "(k, v) \<in> set (mlist m ns p)"
  shows "key (fst (unm v)) = k" "snd (unm v)"
  using listed [OF assms] by auto

end

section \<open>Listings and frames\<close>

text \<open>The resources that the values of a listing decode to, in the order of iteration.\<close>

definition decoded :: "(blob \<Rightarrow> 'a \<times> bool) \<Rightarrow> (string \<times> blob) list \<Rightarrow> 'a list" where
  "decoded unm kvs = concat (map (\<lambda>(_, d). let (x, ok) = unm d in if ok then [x] else []) kvs)"

lemma set_decoded: "x \<in> set (decoded unm kvs) \<longleftrightarrow> (\<exists>k d. (k, d) \<in> set kvs \<and> unm d = (x, True))"
proof (induction kvs)
  case (Cons kv kvs)
  obtain k d y ok where "kv = (k, d)" "unm d = (y, ok)" by (cases kv) fastforce
  then have "x \<in> set (decoded unm (kv # kvs)) \<longleftrightarrow> (x = y \<and> ok) \<or> x \<in> set (decoded unm kvs)"
    by (simp add: decoded_def)
  then show ?case using Cons \<open>kv = (k, d)\<close> \<open>unm d = (y, ok)\<close> by (metis insert_iff list.set(2) prod.inject)
qed (simp add: decoded_def)

lemma mset_decoded: "mset xs = mset ys \<Longrightarrow> mset (decoded unm xs) = mset (decoded unm ys)"
proof -
  define f where "f = (\<lambda>(k :: string, d). mset (let (x, ok) = unm d in if ok then [x] else []))"
  have "mset (decoded unm xs) = sum_mset (image_mset f (mset xs))" for xs
  proof (induction xs)
    case (Cons kd xs)
    have "mset (decoded unm (kd # xs)) = f kd + mset (decoded unm xs)"
      by (cases kd) (simp add: decoded_def f_def)
    with Cons show ?case by simp
  qed (simp add: decoded_def)
  then show "mset xs = mset ys \<Longrightarrow> ?thesis" by simp
qed

text \<open>A change of the store that is confined to some namespaces.\<close>

definition only_ns :: "string set \<Rightarrow> mem \<Rightarrow> mem \<Rightarrow> bool" where
  "only_ns N m m' \<longleftrightarrow> mem_ok m' \<and> (\<forall>n. n \<notin> N \<longrightarrow> mem_lookup m' n = mem_lookup m n)"

lemma only_ns_refl [simp]: "only_ns N m m \<longleftrightarrow> mem_ok m"
  by (simp add: only_ns_def)

lemma only_ns_trans: "only_ns N m m' \<Longrightarrow> only_ns N m' m'' \<Longrightarrow> only_ns N m m''"
  by (simp add: only_ns_def)

lemma only_ns_mono: "only_ns N m m' \<Longrightarrow> N \<subseteq> M \<Longrightarrow> only_ns M m m'"
  by (auto simp: only_ns_def)

lemma only_ns_mput [simp]: "mem_ok m \<Longrightarrow> n \<in> N \<Longrightarrow> only_ns N m (mput m n k v)"
  by (auto simp: only_ns_def fun_eq_iff)

lemma only_ns_mdel [simp]: "mem_ok m \<Longrightarrow> n \<in> N \<Longrightarrow> only_ns N m (mdel m n k)"
  by (auto simp: only_ns_def fun_eq_iff)

lemma only_ns_delete_all [simp]: "mem_ok m \<Longrightarrow> n \<in> N \<Longrightarrow> only_ns N m (delete_all m n ks)"
  by (auto simp: only_ns_def fun_eq_iff)

lemma only_ns_ok: "only_ns N m m' \<Longrightarrow> mem_ok m'"
  by (simp add: only_ns_def)

section \<open>Transition systems\<close>

inductive reach :: "('s \<Rightarrow> bool) \<Rightarrow> ('s \<Rightarrow> 's \<Rightarrow> bool) \<Rightarrow> 's \<Rightarrow> bool" for init step where
  reach_init: "init s \<Longrightarrow> reach init step s"
| reach_step: "reach init step s \<Longrightarrow> step s s' \<Longrightarrow> reach init step s'"

locale machine =
  fixes init :: "'s \<Rightarrow> bool"
    and step :: "'s \<Rightarrow> 's \<Rightarrow> bool"
    and I :: "'s \<Rightarrow> bool"
  assumes init_inv: "init s \<Longrightarrow> I s"
    and step_inv: "I s \<Longrightarrow> step s s' \<Longrightarrow> I s'"
begin

lemma reach_inv: "reach init step s \<Longrightarrow> I s"
  by (induction rule: reach.induct) (auto intro: init_inv step_inv)

text \<open>Runs from any state with the invariant keep it.\<close>

lemma run_inv: "step\<^sup>*\<^sup>* s s' \<Longrightarrow> I s \<Longrightarrow> I s'"
  by (induction rule: rtranclp_induct) (auto intro: step_inv)

end

end
