(* ===== verification/Pubsub_Delivery.thy ===== *)
theory Pubsub_Delivery
  imports Pubsub Resource_Codec
begin

text \<open>
  What the queues of \<^verbatim>\<open>internal/services/pubsub\<close> guarantee: the laws of the loops of
  \<^verbatim>\<open>PublishMessages\<close> and \<^verbatim>\<open>PullMessages\<close>, the service as a transition system with its
  invariant (identifiers are fresh, stored subscriptions are well formed), and the delivery
  properties that rest on them.
\<close>

section \<open>The stored resources\<close>

definition sub_ok :: "subscriptionResource \<Rightarrow> bool" where
  "sub_ok s = in_int64 (sub_AckDeadlineSeconds s)"

lemma jmember_miss [simp]: "\<not> eqFold a k \<Longrightarrow> jmember k ((a, v) # ms) = jmember k ms"
  by (simp split: option.splits)

lemma dec_enc_sub [codec]: "sub_ok s \<Longrightarrow> dec_sub (enc_sub s) = (s, True)"
  by (cases s; cases "sub_PushConfig s")
     (auto simp: dec_sub_def enc_sub_def sub_ok_def fld_str_def fld_int_def dec_pushConfig_def
       eqFold_def lower_char_def)

interpretation sub_res: stored_resource enc_sub unmarshal_sub sub_ok sub_Name nsSubscriptions
  by unfold_locales (simp add: dec_enc_sub)

interpretation topic_res: stored_resource enc_topic unmarshal_topic "\<lambda>_. True" topic_Name nsTopics
  by unfold_locales (simp add: enc_topic_def fld_str_def eqFold_def)

abbreviation subs_typed :: "mem \<Rightarrow> bool" where
  "subs_typed \<equiv> typed_ns enc_sub sub_ok sub_Name nsSubscriptions"

text \<open>The subscriptions of a topic as the store has them.\<close>

definition subscribed :: "mem \<Rightarrow> string \<Rightarrow> string \<Rightarrow> bool" where
  "subscribed s topic name = (case mem_lookup s nsSubscriptions name of None \<Rightarrow> False
     | Some d \<Rightarrow> sub_Topic (fst (unmarshal_sub d)) = topic)"

section \<open>Publishing\<close>

lemma stamp_fields:
  "stamp e i sq ms = (ms', q) \<Longrightarrow>
    length ms' = length ms \<and> map gm_Data ms' = map gm_Data ms \<and>
    map gm_Attributes ms' = map gm_Attributes ms \<and>
    map gm_OrderingKey ms' = map gm_OrderingKey ms"
proof (induction ms arbitrary: i sq ms' q)
  case (Cons m ms)
  obtain r q' where "stamp e (Suc i) (u64_inc sq) ms = (r, q')" by fastforce
  with Cons show ?case by fastforce
qed simp

lemma stamp_ids:
  "stamp e i sq ms = (ms', q) \<Longrightarrow> sq + length ms < 2 ^ 64 \<Longrightarrow>
    map gm_ID ms' = map msg_id (seq_from sq (length ms)) \<and> q = sq + length ms"
proof (induction ms arbitrary: i sq ms' q)
  case (Cons m ms)
  obtain r q' where r: "stamp e (Suc i) (sq + 1) ms = (r, q')" by fastforce
  with Cons.prems have "ms' = m\<lparr>gm_ID := msg_id (sq + 1), gm_PublishTime := e_now e i\<rparr> # r"
    "q = q'" by auto
  with Cons.IH [OF r] Cons.prems show ?case by simp
qed simp

text \<open>The second loop, one queue: the messages are appended in order with fresh identifiers.\<close>

lemma enqueue_msgs_other:
  "n \<noteq> sub \<Longrightarrow> ps_queues (enqueue_msgs sub ms p) n = ps_queues p n"
  by (induction ms arbitrary: p) (simp_all add: Let_def)

lemma enqueue_msgs_content:
  "map Message (ps_queues (enqueue_msgs sub ms p) sub) =
    map Message (ps_queues p sub) @ map (\<lambda>m. Message (to_stored 0 m)) ms"
  by (induction ms arbitrary: p) (simp_all add: Let_def to_stored_def)

lemma enqueue_msgs_ids:
  "ps_ackSeq p + length ms < 2 ^ 64 \<Longrightarrow>
    ps_ackSeq (enqueue_msgs sub ms p) = ps_ackSeq p + length ms \<and>
    map AckID (ps_queues (enqueue_msgs sub ms p) sub) = map AckID (ps_queues p sub) @
      map ack_id (seq_from (ps_ackSeq p) (length ms))"
  by (induction ms arbitrary: p) (simp_all add: Let_def to_stored_def)

lemma enqueue_msgs_frame [simp]:
  "ps_msgSeq (enqueue_msgs sub ms p) = ps_msgSeq p"
  "ps_pushers (enqueue_msgs sub ms p) = ps_pushers p"
  "ps_workers (enqueue_msgs sub ms p) = ps_workers p"
  by (induction ms arbitrary: p) (simp_all add: Let_def)

lemma enqueue_subs_frame [simp]:
  "ps_msgSeq (enqueue_subs subs ms p) = ps_msgSeq p"
  "ps_pushers (enqueue_subs subs ms p) = ps_pushers p"
  "ps_workers (enqueue_subs subs ms p) = ps_workers p"
  by (induction subs arbitrary: p) simp_all

text \<open>All queues: every subscription gets the batch once.\<close>

lemma enqueue_subs_content:
  "distinct (map sub_Name subs) \<Longrightarrow>
    map Message (ps_queues (enqueue_subs subs ms p) n) = map Message (ps_queues p n) @
      (if n \<in> sub_Name ` set subs then map (\<lambda>m. Message (to_stored 0 m)) ms else [])"
proof (induction subs arbitrary: p)
  case (Cons s subs)
  then show ?case
    by (cases "n = sub_Name s") (auto simp: enqueue_msgs_content enqueue_msgs_other)
qed simp

lemma pick_subs:
  assumes "\<And>k v. (k, v) \<in> set L \<Longrightarrow> \<exists>x. unmarshal_sub v = (x, True) \<and> sub_Name x = k"
  shows "map sub_Name (concat (map (\<lambda>(_, v). let (sub, ok) = unmarshal_sub v in
         if \<not> ok then [] else if sub_Topic sub = t then [sub] else []) L)) =
    map fst (filter (\<lambda>(k, v). sub_Topic (fst (unmarshal_sub v)) = t) L)"
  using assms
proof (induction L)
  case (Cons a L)
  obtain k v where a: "a = (k, v)" by fastforce
  with Cons.prems [of k v] obtain x where "unmarshal_sub v = (x, True)" "sub_Name x = k" by auto
  with Cons a show ?case by simp
qed simp

lemma subsForTopic_set:
  assumes "env_ok e" "mem_ok s" "subs_typed s" "subsForTopic e s t = Inr subs"
  shows "n \<in> sub_Name ` set subs \<longleftrightarrow> subscribed s t n"
    and "distinct (map sub_Name subs)"
proof -
  define L where "L = e_range e (mlist s nsSubscriptions [])"
  have L: "set L = set (mlist s nsSubscriptions [])" "distinct (map fst L)"
    using assms(1,2) by (auto simp: L_def env_ok_distinct mlist_distinct)
  have "\<exists>x. unmarshal_sub v = (x, True) \<and> sub_Name x = k" if "(k, v) \<in> set L" for k v
    using that L(1) sub_res.listed [OF assms(2,3)] by blast
  note pick = pick_subs [of L t, OF this]
  have subs: "map sub_Name subs =
      map fst (filter (\<lambda>(k, v). sub_Topic (fst (unmarshal_sub v)) = t) L)"
    using assms(4) pick by (simp add: subsForTopic_def L_def)
  show "distinct (map sub_Name subs)" using L(2) by (simp add: subs distinct_map_filter)
  have "sub_Name ` set subs = set (map sub_Name subs)" by simp
  then show "n \<in> sub_Name ` set subs \<longleftrightarrow> subscribed s t n"
    unfolding subs by (auto simp: L(1) in_mlist [OF assms(2)] subscribed_def image_iff
        split: option.splits)
qed

section \<open>Pulling\<close>

text \<open>
  The queue without the first \<open>room\<close> messages that are available: what a pull leaves to others.
\<close>

fun leftover :: "time \<Rightarrow> nat \<Rightarrow> storedMessage list \<Rightarrow> storedMessage list" where
  "leftover now room [] = []"
| "leftover now 0 (m # q) = m # q"
| "leftover now (Suc room) (m # q) =
     (if available m now then leftover now room q else m # leftover now (Suc room) q)"

definition content :: "storedMessage \<Rightarrow> gmessage" where
  "content m = rc_Message (to_received [] (Message m))"

lemma rc_Message_to_received [simp]: "rc_Message (to_received a (Message m)) = content m"
  unfolding content_def by (simp add: to_received_def)

lemma rc_AckID_to_received [simp]: "rc_AckID (to_received a m) = a"
  by (simp add: to_received_def)

lemma pull_loop_queue:
  "pull_loop now dl room a q = (out, q', a') \<Longrightarrow>
    map Message q' = map Message q \<and>
    map rc_Message out = take room (map content (filter (\<lambda>m. available m now) q))"
  by (induction now dl room a q arbitrary: out q' a' rule: pull_loop.induct)
     (fastforce simp: Let_def split: prod.splits if_splits)+

lemma pull_loop_length:
  "pull_loop now dl room a q = (out, q', a') \<Longrightarrow>
    length out = min room (length (filter (\<lambda>m. available m now) q))"
  using pull_loop_queue [of now dl room a q out q' a']
  by (metis length_map length_take min.commute)

lemma pull_loop_ids:
  "pull_loop now dl room a q = (out, q', a') \<Longrightarrow> a + length q < 2 ^ 64 \<Longrightarrow>
    a' = a + length out \<and> map rc_AckID out = map ack_id (seq_from a (length out))"
proof (induction now dl room a q arbitrary: out q' a' rule: pull_loop.induct)
  case (3 now dl room a m q)
  then show ?case by (fastforce simp: Let_def split: prod.splits if_splits)
qed auto

text \<open>The identifiers in the queue after a pull are old ones or those just issued.\<close>

lemma ack_id_inj [simp]: "ack_id m = ack_id n \<longleftrightarrow> m = n"
  by (simp add: ack_id_def)

lemma ack_id_fresh: "X \<subseteq> ack_id ` {..a} \<Longrightarrow> x \<in> X \<Longrightarrow> x \<notin> ack_id ` {a<..<b} \<and> x \<notin> ack_id ` {a<..b}"
  by fastforce

lemma msg_id_inj [simp]: "msg_id m = msg_id n \<longleftrightarrow> m = n"
  by (simp add: msg_id_def)

lemma pull_loop_acks:
  assumes "pull_loop now dl room a q = (out, q', a')" "a + length q < 2 ^ 64"
    and "distinct (map AckID q)" "set (map AckID q) \<subseteq> ack_id ` {..a}"
  shows "distinct (map AckID q') \<and> set (map AckID q') \<subseteq> set (map AckID q) \<union> ack_id ` {a<..a'}
    \<and> a \<le> a'"
  using assms
proof (induction now dl room a q arbitrary: out q' a' rule: pull_loop.induct)
  case (3 now dl room a m q)
  show ?case
  proof (cases "available m now")
    case True
    obtain o1 q1 a1 where r: "pull_loop now dl room (a + 1) q = (o1, q1, a1)"
      by (metis prod_cases3)
    with True 3(3,4) have q': "q' = m\<lparr>Inflight := True, Deadline := dl, AckID := ack_id (a + 1)\<rparr> # q1"
      "a' = a1" by (auto simp: Let_def)
    have "set (map AckID q) \<subseteq> ack_id ` {..a + 1}" "a + 1 + length q < 2 ^ 64" "distinct (map AckID q)"
      using 3(4-6) by auto
    from "3.IH"(2) [OF _ refl, of o1 q1 a1] this True r 3(4) have IH: "distinct (map AckID q1)"
      "set (map AckID q1) \<subseteq> set (map AckID q) \<union> ack_id ` {a + 1<..a1}" "a + 1 \<le> a1"
      by auto
    moreover have "ack_id (a + 1) \<notin> set (map AckID q1)"
    proof
      assume "ack_id (a + 1) \<in> set (map AckID q1)"
      with IH(2) have "ack_id (a + 1) \<in> set (map AckID q)" by auto
      with 3(6) show False using ack_id_fresh [of _ a "ack_id (a + 1)" "a + 1"] by auto
    qed
    ultimately show ?thesis using q' by auto
  next
    case False
    obtain o1 q1 a1 where r: "pull_loop now dl (Suc room) a q = (o1, q1, a1)"
      by (metis prod_cases3)
    with False 3(3) have q': "q' = m # q1" "a' = a1" by (auto simp: Let_def)
    from "3.IH"(1) [of o1 q1 a1] False r 3(4-6) have IH: "distinct (map AckID q1)"
      "set (map AckID q1) \<subseteq> set (map AckID q) \<union> ack_id ` {a<..a1}" "a \<le> a1"
      by auto
    moreover have "AckID m \<notin> set (map AckID q1)"
      using IH(2) 3(5,6) by auto
    ultimately show ?thesis using q' by auto
  qed
qed auto

text \<open>While the leases of a pull run, the rest of the queue is what is available.\<close>

lemma pull_loop_leased:
  "pull_loop now dl room a q = (out, q', a') \<Longrightarrow> t \<le> dl \<Longrightarrow>
    filter (\<lambda>m. available m t) q' = filter (\<lambda>m. available m t) (leftover now room q)"
  by (induction now dl room a q arbitrary: out q' a' rule: pull_loop.induct)
     (fastforce simp: Let_def available_def split: prod.splits if_splits)+

text \<open>Acknowledging what a pull returned leaves exactly the rest of the queue.\<close>

lemma pull_loop_acked:
  assumes "pull_loop now dl room a q = (out, q', a')" "a + length q < 2 ^ 64"
    and "set (map AckID q) \<subseteq> ack_id ` {..a0}" "a0 \<le> a" "S = ack_id ` {a0<..<B}" "a' < B"
  shows "filter (\<lambda>m. \<not> (AckID m \<in> S \<and> Inflight m)) q' = leftover now room q"
  using assms
proof (induction now dl room a q arbitrary: out q' a' rule: pull_loop.induct)
  case (2 now dl a m q)
  then have "AckID x \<notin> S" if "x \<in> set (m # q)" for x
    using that ack_id_fresh [of "set (map AckID (m # q))" a0 "AckID x"] by auto
  with 2 show ?case by (auto intro!: filter_True)
next
  case (3 now dl room a m q)
  show ?case
  proof (cases "available m now")
    case True
    obtain o1 q1 a1 where r: "pull_loop now dl room (a + 1) q = (o1, q1, a1)"
      by (metis prod_cases3)
    with True 3(3,4) have q': "q' = m\<lparr>Inflight := True, Deadline := dl, AckID := ack_id (a + 1)\<rparr> # q1"
      "a' = a1" by (auto simp: Let_def)
    have "a + 1 \<le> a1" using pull_loop_ids [OF r] 3(4) by simp
    then have "ack_id (a + 1) \<in> S" using 3(6-8) q' by auto
    with "3.IH"(2) [OF _ refl, of o1 q1 a1] r 3(4-8) q' True show ?thesis by auto
  next
    case False
    obtain o1 q1 a1 where r: "pull_loop now dl (Suc room) a q = (o1, q1, a1)"
      by (metis prod_cases3)
    with False 3(3) have q': "q' = m # q1" "a' = a1" by (auto simp: Let_def)
    have "AckID m \<notin> S" using 3(5,7) by auto
    with "3.IH"(1) [of o1 q1 a1] False r 3(4-8) q' show ?thesis by auto
  qed
qed simp

section \<open>The service as a transition system\<close>

text \<open>
  One step is one call of the Go API, by whichever layer (REST, gRPC, push worker), or a change of
  the store by other code that adds no subscription.  The steps that draw identifiers assume
  that the 64-bit counters do not wrap around during the step.
\<close>

inductive ps_step :: "mem \<times> pubsub \<Rightarrow> mem \<times> pubsub \<Rightarrow> bool" where
  st_putTopic: "putTopic s n = Inr s' \<Longrightarrow> ps_step (s, p) (s', p)"
| st_createTopic: "CreateTopic s n = Inr s' \<Longrightarrow> ps_step (s, p) (s', p)"
| st_deleteTopic: "DeleteTopic s n = Inr s' \<Longrightarrow> ps_step (s, p) (s', p)"
| st_createSub: "in_int64 ack \<Longrightarrow> CreateSubscription s p n t ack url = Inr (s', p') \<Longrightarrow>
    ps_step (s, p) (s', p')"
| st_putSub: "sub_ok sub \<Longrightarrow> putSubscription s sub = Inr s' \<Longrightarrow> ps_step (s, p) (s', startPusher p sub)"
| st_deleteSub: "DeleteSubscription s p n = Inr (s', p') \<Longrightarrow> ps_step (s, p) (s', p')"
| st_publish: "env_ok e \<Longrightarrow> PublishMessages e s p t ms = (r, p') \<Longrightarrow>
    ps_msgSeq p + length ms < 2 ^ 64 \<Longrightarrow>
    ps_ackSeq p + length (bucket_of s nsSubscriptions) * length ms < 2 ^ 64 \<Longrightarrow>
    ps_step (s, p) (s, p')"
| st_pull: "PullMessages e s p n limit = (r, p') \<Longrightarrow>
    ps_ackSeq p + length (ps_queues p n) < 2 ^ 64 \<Longrightarrow> ps_step (s, p) (s, p')"
| st_ack: "Acknowledge s p n ids = (r, p') \<Longrightarrow> ps_step (s, p) (s, p')"
| st_modack: "ModifyAckDeadline e s p n ids sec = (r, p') \<Longrightarrow> ps_step (s, p) (s, p')"
| st_stop: "ps_step (s, p) (s, pubsub_Stop p)"
| st_workers: "ps_step (s, p) (s, p\<lparr>ps_workers := ws\<rparr>)"
| st_other: "mem_ok s' \<Longrightarrow>
    (\<And>k v. mem_lookup s' nsSubscriptions k = Some v \<Longrightarrow> mem_lookup s nsSubscriptions k = Some v) \<Longrightarrow>
    ps_step (s, p) (s', p)"

text \<open>
  The invariant on identifiers: an acknowledgement identifier names at most one message over
  all queues, a message identifier at most one message of a queue, and both were issued.
\<close>

abbreviation acks :: "pubsub \<Rightarrow> string \<Rightarrow> string list" where
  "acks p n \<equiv> map AckID (ps_queues p n)"

abbreviation mids :: "pubsub \<Rightarrow> string \<Rightarrow> string list" where
  "mids p n \<equiv> map pm_MessageID (map Message (ps_queues p n))"

definition acks_ok :: "pubsub \<Rightarrow> bool" where
  "acks_ok p \<longleftrightarrow> (\<forall>n. distinct (acks p n) \<and> set (acks p n) \<subseteq> ack_id ` {..ps_ackSeq p}) \<and>
     (\<forall>m n. m \<noteq> n \<longrightarrow> set (acks p m) \<inter> set (acks p n) = {})"

definition mids_ok :: "pubsub \<Rightarrow> bool" where
  "mids_ok p \<longleftrightarrow> (\<forall>n. distinct (mids p n) \<and> set (mids p n) \<subseteq> msg_id ` {..ps_msgSeq p})"

definition ps_inv :: "mem \<times> pubsub \<Rightarrow> bool" where
  "ps_inv sp \<longleftrightarrow> mem_ok (fst sp) \<and> subs_typed (fst sp) \<and> acks_ok (snd sp) \<and> mids_ok (snd sp)"

subsection \<open>Every operation keeps the invariant\<close>

lemma acks_ok_replace:
  assumes "acks_ok p" "ps_queues p' = (ps_queues p)(n := q')" "ps_ackSeq p \<le> ps_ackSeq p'"
    and "distinct (map AckID q')"
    and "set (map AckID q') \<subseteq> set (acks p n) \<union> ack_id ` {ps_ackSeq p<..ps_ackSeq p'}"
  shows "acks_ok p'"
proof -
  let ?new = "ack_id ` {ps_ackSeq p<..ps_ackSeq p'}"
  have old: "set (acks p m) \<subseteq> ack_id ` {..ps_ackSeq p}" for m
    using assms(1) by (simp add: acks_ok_def)
  have fresh: "set (acks p m) \<inter> ?new = {}" for m
    using ack_id_fresh [OF old [of m]] by blast
  have disj: "set (acks p m) \<inter> set (acks p n) = {}" if "m \<noteq> n" for m n
    using that assms(1) by (simp add: acks_ok_def)
  have "set (map AckID q') \<inter> set (acks p m) = {}" if "m \<noteq> n" for m
    using assms(5) fresh [of m] disj [OF that] by blast
  moreover have grow: "ack_id ` {..ps_ackSeq p} \<subseteq> ack_id ` {..ps_ackSeq p'}"
      "?new \<subseteq> ack_id ` {..ps_ackSeq p'}"
    using assms(3) by auto
  moreover have "set (map AckID q') \<subseteq> ack_id ` {..ps_ackSeq p'}"
    using assms(5) old [of n] grow by blast
  moreover have "set (acks p m) \<subseteq> ack_id ` {..ps_ackSeq p'}" for m
    using old [of m] grow by blast
  moreover have "distinct (acks p m)" for m
    using assms(1) by (simp add: acks_ok_def)
  moreover have "acks p' m = (if m = n then map AckID q' else acks p m)" for m
    by (simp add: assms(2))
  ultimately show ?thesis
    using assms(4) disj unfolding acks_ok_def by (metis Int_commute)
qed

lemma acks_ok_enqueue_msgs:
  assumes "acks_ok p" "ps_ackSeq p + length ms < 2 ^ 64"
  shows "acks_ok (enqueue_msgs sub ms p)"
proof -
  let ?p' = "enqueue_msgs sub ms p"
  have ids: "acks ?p' sub = acks p sub @ map ack_id (seq_from (ps_ackSeq p) (length ms))"
    and sq: "ps_ackSeq ?p' = ps_ackSeq p + length ms"
    using enqueue_msgs_ids [OF assms(2)] by simp_all
  have "set (acks p sub) \<subseteq> ack_id ` {..ps_ackSeq p}" "distinct (acks p sub)"
    using assms(1) by (simp_all add: acks_ok_def)
  moreover from this have "set (acks p sub) \<inter> ack_id ` {ps_ackSeq p<..ps_ackSeq p + length ms} = {}"
    using ack_id_fresh by blast
  ultimately have "distinct (acks ?p' sub)"
    unfolding ids by (simp add: set_seq_from distinct_map inj_on_def)
  moreover have "ps_queues ?p' = (ps_queues p)(sub := ps_queues ?p' sub)"
    by (simp add: fun_eq_iff enqueue_msgs_other)
  moreover have "set (acks ?p' sub) \<subseteq> set (acks p sub) \<union> ack_id ` {ps_ackSeq p<..ps_ackSeq ?p'}"
    unfolding ids sq by (simp add: set_seq_from)
  ultimately show ?thesis
    using acks_ok_replace [OF assms(1)] sq by (metis le_add1)
qed

lemma acks_ok_enqueue_subs:
  assumes "acks_ok p" "ps_ackSeq p + length subs * length ms < 2 ^ 64"
  shows "acks_ok (enqueue_subs subs ms p)"
  using assms
proof (induction subs arbitrary: p)
  case (Cons s subs)
  have lt: "ps_ackSeq p + length ms < 2 ^ 64" using Cons.prems(2) by simp
  moreover have "ps_ackSeq (enqueue_msgs (sub_Name s) ms p) = ps_ackSeq p + length ms"
    using enqueue_msgs_ids [OF lt] by simp
  ultimately show ?case
    using Cons.IH [OF acks_ok_enqueue_msgs [OF Cons.prems(1) lt], of "sub_Name s"] Cons.prems(2)
    by (simp add: algebra_simps)
qed simp

lemma length_pick:
  "length (concat (map (\<lambda>(_, v). let (sub, ok) = unmarshal_sub v in
     if \<not> ok then [] else if sub_Topic sub = t then [sub] else []) L)) \<le> length L"
  by (induction L) (auto split: prod.splits)

lemma subsForTopic_length:
  assumes "env_ok e" "subsForTopic e s t = Inr subs"
  shows "length subs \<le> length (bucket_of s nsSubscriptions)"
proof -
  have "length (e_range e (mlist s nsSubscriptions [])) \<le> length (bucket_of s nsSubscriptions)"
    by (metis assms(1) env_ok_mset length_filter_le mlist_def size_mset)
  with assms(2) length_pick show ?thesis
    by (fastforce simp: subsForTopic_def intro: order_trans)
qed

lemma mids_ok_publish:
  assumes "mids_ok p" "distinct (map sub_Name subs)" "stamp e i (ps_msgSeq p) ms = (ms', sq)"
    and "ps_msgSeq p + length ms < 2 ^ 64"
  shows "mids_ok (enqueue_subs subs ms' (p\<lparr>ps_msgSeq := sq\<rparr>))"
proof -
  let ?p' = "enqueue_subs subs ms' (p\<lparr>ps_msgSeq := sq\<rparr>)"
  let ?new = "map msg_id (seq_from (ps_msgSeq p) (length ms))"
  have ids: "map gm_ID ms' = ?new" and sq: "sq = ps_msgSeq p + length ms"
    using stamp_ids [OF assms(3,4)] by simp_all
  have "map pm_MessageID (map (\<lambda>m. Message (to_stored 0 m)) ms') = ?new"
    unfolding ids [symmetric] by (simp add: to_stored_def)
  then have mids: "mids ?p' n = mids p n \<or> mids ?p' n = mids p n @ ?new" for n
    by (simp only: enqueue_subs_content [OF assms(2)] map_append) simp
  have old: "distinct (mids p n)" "set (mids p n) \<subseteq> msg_id ` {..ps_msgSeq p}" for n
    using assms(1) by (simp_all add: mids_ok_def)
  then have "set (mids p n) \<inter> msg_id ` {ps_msgSeq p<..sq} = {}" for n by fastforce
  then have "distinct (mids p n @ ?new)" for n
    using old(1) by (simp only: distinct_append distinct_map distinct_seq_from set_map set_seq_from
        sq inj_on_def msg_id_inj) simp
  moreover have "set (mids p n @ ?new) \<subseteq> msg_id ` {..sq}" for n
    using old(2) [of n] by (auto simp: set_seq_from sq)
  moreover have "ps_msgSeq ?p' = sq" by simp
  ultimately show ?thesis
    using mids old(1) unfolding mids_ok_def by (metis Un_subset_iff set_append)
qed

lemma mids_ok_sub:
  assumes "mids_ok p" "ps_queues p' = (ps_queues p)(n := q')" "ps_msgSeq p' = ps_msgSeq p"
    and "distinct (map pm_MessageID (map Message q'))"
    and "set (map Message q') \<subseteq> set (map Message (ps_queues p n))"
  shows "mids_ok p'"
proof -
  have "set (map pm_MessageID (map Message q')) \<subseteq> set (mids p n)"
    using image_mono [OF assms(5), of pm_MessageID] by (simp add: image_image)
  moreover have "set (mids p n) \<subseteq> msg_id ` {..ps_msgSeq p}"
    using assms(1) by (simp add: mids_ok_def)
  ultimately have "set (map pm_MessageID (map Message q')) \<subseteq> msg_id ` {..ps_msgSeq p}" by blast
  then show ?thesis using assms(1-4) unfolding mids_ok_def by simp
qed

lemma ps_inv_same_queues:
  "ps_inv (s, p) \<Longrightarrow> ps_queues p' = ps_queues p \<Longrightarrow> ps_ackSeq p' = ps_ackSeq p \<Longrightarrow>
    ps_msgSeq p' = ps_msgSeq p \<Longrightarrow> ps_inv (s, p')"
  by (simp add: ps_inv_def acks_ok_def mids_ok_def)

lemma ps_inv_mem:
  "ps_inv (s, p) \<Longrightarrow> mem_ok s' \<Longrightarrow> subs_typed s' \<Longrightarrow> ps_inv (s', p)"
  by (simp add: ps_inv_def)

lemma startPusher_frame [simp]:
  "ps_queues (startPusher p sub) = ps_queues p" "ps_ackSeq (startPusher p sub) = ps_ackSeq p"
  "ps_msgSeq (startPusher p sub) = ps_msgSeq p"
  by (simp_all add: startPusher_def split: option.splits)

lemma stopPusher_frame [simp]:
  "ps_queues (stopPusher p n) = ps_queues p" "ps_ackSeq (stopPusher p n) = ps_ackSeq p"
  "ps_msgSeq (stopPusher p n) = ps_msgSeq p"
  by (simp_all add: stopPusher_def split: option.splits)

lemma ns_topics_subs [simp]: "nsTopics \<noteq> nsSubscriptions" "nsSubscriptions \<noteq> nsTopics"
  by (simp_all add: ns_defs)

text \<open>A step that rewrites one queue, keeping some of its messages.\<close>

lemma ps_inv_queue:
  assumes "ps_inv (s, p)" "ps_queues p' = (ps_queues p)(n := q')"
    and "ps_ackSeq p \<le> ps_ackSeq p'" "ps_msgSeq p' = ps_msgSeq p"
    and "distinct (map AckID q')"
    and "set (map AckID q') \<subseteq> set (acks p n) \<union> ack_id ` {ps_ackSeq p<..ps_ackSeq p'}"
    and "distinct (map pm_MessageID (map Message q'))"
    and "set (map Message q') \<subseteq> set (map Message (ps_queues p n))"
  shows "ps_inv (s, p')"
  using assms acks_ok_replace [OF _ assms(2,3,5,6)] mids_ok_sub [OF _ assms(2,4,7,8)]
  by (simp add: ps_inv_def)

lemma ps_inv_D:
  assumes "ps_inv (s, p)"
  shows "mem_ok s" "subs_typed s" "distinct (acks p n)" "set (acks p n) \<subseteq> ack_id ` {..ps_ackSeq p}"
    "distinct (mids p n)"
  using assms by (auto simp: ps_inv_def acks_ok_def mids_ok_def)

lemma distinct_map_filter_Message:
  "distinct (map f (map Message q)) \<Longrightarrow> distinct (map f (map Message (filter P q)))"
  by (induction q) auto

lemma pull_inv:
  assumes inv: "ps_inv (s, p)" and pull: "PullMessages e s p n limit = (r, p')"
    and room: "ps_ackSeq p + length (ps_queues p n) < 2 ^ 64"
  shows "ps_inv (s, p')"
proof (cases "Get s nsSubscriptions n")
  case (Inl er)
  with inv pull show ?thesis by (simp add: PullMessages_def)
next
  case (Inr d)
  with pull obtain now dl k out q' a where
    loop: "pull_loop now dl k (ps_ackSeq p) (ps_queues p n) = (out, q', a)"
    and p': "p' = p\<lparr>ps_ackSeq := a, ps_queues := (ps_queues p)(n := q')\<rparr>"
    by (auto simp: PullMessages_def Let_def split: prod.splits)
  have msgs: "map Message q' = map Message (ps_queues p n)"
    using pull_loop_queue [OF loop] by simp
  show ?thesis
    using pull_loop_acks [OF loop room ps_inv_D(3,4) [OF inv]] ps_inv_D(5) [OF inv, of n]
    by (intro ps_inv_queue [OF inv, of _ n q']) (simp_all only: p' msgs, simp_all)
qed

lemma ack_inv:
  assumes "ps_inv (s, p)" "Acknowledge s p n ids = (r, p')"
  shows "ps_inv (s, p')"
proof (cases "p' = p")
  case False
  let ?q = "filter (\<lambda>m. \<not> (AckID m \<in> set ids \<and> Inflight m)) (ps_queues p n)"
  from False assms(2) have p': "p' = p\<lparr>ps_queues := (ps_queues p)(n := ?q)\<rparr>"
    by (auto simp: Acknowledge_def split: sum.splits if_splits)
  show ?thesis
    using ps_inv_D(3,5) [OF assms(1), of n]
    by (intro ps_inv_queue [OF assms(1), of _ n ?q])
       (auto simp: p' distinct_map_filter intro: distinct_map_filter_Message [simplified])
qed (use assms in simp)

lemma modack_one_frame [simp]:
  "AckID (modack_one t ids sec m) = AckID m" "Message (modack_one t ids sec m) = Message m"
  by (simp_all add: modack_one_def)

lemma modack_inv:
  assumes "ps_inv (s, p)" "ModifyAckDeadline e s p n ids sec = (r, p')"
  shows "ps_inv (s, p')"
proof (cases "p' = p")
  case False
  let ?q = "map (modack_one (e_now e 0) ids sec) (ps_queues p n)"
  have same: "map AckID ?q = acks p n" "map Message ?q = map Message (ps_queues p n)"
    by simp_all
  from False assms(2) have p': "p' = p\<lparr>ps_queues := (ps_queues p)(n := ?q)\<rparr>"
    by (auto simp: ModifyAckDeadline_def split: sum.splits if_splits)
  show ?thesis
    using ps_inv_D(3,5) [OF assms(1), of n]
    by (intro ps_inv_queue [OF assms(1), of _ n ?q]) (simp_all only: p' same, simp_all)
qed (use assms in simp)

lemma publish_inv:
  assumes inv: "ps_inv (s, p)" and e: "env_ok e" and pub: "PublishMessages e s p t ms = (r, p')"
    and "ps_msgSeq p + length ms < 2 ^ 64"
    and acks: "ps_ackSeq p + length (bucket_of s nsSubscriptions) * length ms < 2 ^ 64"
  shows "ps_inv (s, p')"
proof (cases "Get s nsTopics t")
  case (Inl er)
  with inv pub show ?thesis by (simp add: PublishMessages_def)
next
  case (Inr d)
  obtain subs where subs: "subsForTopic e s t = Inr subs" by (simp add: subsForTopic_def)
  obtain ms' sq where st: "stamp e 0 (ps_msgSeq p) ms = (ms', sq)" by fastforce
  have p': "p' = enqueue_subs subs ms' (p\<lparr>ps_msgSeq := sq\<rparr>)"
    using pub Inr subs st by (simp add: PublishMessages_def)
  have len: "length ms' = length ms" using stamp_fields [OF st] by simp
  have "length subs * length ms \<le> length (bucket_of s nsSubscriptions) * length ms"
    using subsForTopic_length [OF e subs] by simp
  then have "ps_ackSeq p + length subs * length ms' < 2 ^ 64" unfolding len using acks by linarith
  then have "acks_ok p'"
    using inv unfolding p'
    by (intro acks_ok_enqueue_subs) (simp_all add: ps_inv_def acks_ok_def)
  moreover have "mids_ok p'"
    using mids_ok_publish [OF _ subsForTopic_set(2) [OF e _ _ subs] st assms(4)] inv
    by (simp add: p' ps_inv_def)
  ultimately show ?thesis using inv by (simp add: ps_inv_def)
qed

lemma subs_typed_putTopic: "mem_ok s \<Longrightarrow> subs_typed s \<Longrightarrow> subs_typed (mput s nsTopics n v)"
  by (simp add: typed_ns_mput_other)

lemma deleteSub_inv:
  assumes "ps_inv (s, p)" "DeleteSubscription s p n = Inr (s', p')"
  shows "ps_inv (s', p')"
proof -
  have s': "s' = mdel s nsSubscriptions n" and p': "p' = drop_queue (stopPusher p n) n"
    using assms by (auto simp: DeleteSubscription_def mdel_def split: sum.splits)
  have "ps_inv (s, p')"
    by (rule ps_inv_queue [OF assms(1), of _ n "[]"]) (simp_all add: p' drop_queue_def)
  then show ?thesis
    using ps_inv_D(1,2) [OF assms(1)] ps_inv_mem [of s p'] by (simp add: s' typed_ns_mdel)
qed

lemma putSub_inv:
  assumes "ps_inv (s, p)" "sub_ok sub"
  shows "ps_inv (mput s nsSubscriptions (sub_Name sub) (JsonB (enc_sub sub)), p)"
  using ps_inv_D(1,2) [OF assms(1)] assms(2)
  by (intro ps_inv_mem [OF assms(1)] typed_ns_mput) simp_all

lemma createSub_inv:
  assumes "ps_inv (s, p)" "in_int64 ack" "CreateSubscription s p n t ack url = Inr (s', p')"
  shows "ps_inv (s', p')"
proof -
  define res where "res = \<lparr>sub_Name = n, sub_Topic = t,
     sub_AckDeadlineSeconds = (if ack \<le> 0 then 10 else ack),
     sub_PushConfig = (if url \<noteq> [] then Some \<lparr>PushEndpoint = url\<rparr> else None)\<rparr>"
  have "sub_ok res" using assms(2) by (simp add: res_def sub_ok_def in_int64_def)
  moreover have "s' = mput s nsSubscriptions (sub_Name res) (JsonB (enc_sub res))"
    "p' = p \<or> p' = startPusher p res"
    using assms(3) by (auto simp: CreateSubscription_def putSubscription_def res_def Let_def
        split: sum.splits if_splits)
  ultimately show ?thesis
    using ps_inv_same_queues [OF putSub_inv [OF assms(1), of res]] putSub_inv [OF assms(1)] by auto
qed

lemma topic_inv: "ps_inv (s, p) \<Longrightarrow> ps_inv (mput s nsTopics n v, p)"
  using ps_inv_D(1,2) [of s p] ps_inv_mem [of s p] by (simp add: subs_typed_putTopic)

lemma ps_step_inv:
  assumes "ps_step sp sp'" "ps_inv sp"
  shows "ps_inv sp'"
  using assms
proof (induction rule: ps_step.induct)
  case (st_putTopic s n s' p)
  then show ?case using topic_inv by (auto simp: putTopic_def)
next
  case (st_createTopic s n s' p)
  then show ?case using topic_inv by (auto simp: putTopic_def CreateTopic_def split: sum.splits)
next
  case (st_deleteTopic s n s' p)
  then have "s' = mdel s nsTopics n"
    by (auto simp: DeleteTopic_def mdel_def split: sum.splits)
  with st_deleteTopic show ?case
    using ps_inv_D(1,2) [of s p] ps_inv_mem [of s p] by (simp add: typed_ns_mdel)
next
  case (st_createSub ack s p n t url s' p')
  then show ?case using createSub_inv by blast
next
  case (st_putSub sub s s' p)
  then have "ps_inv (s', p)" by (auto simp: putSubscription_def putSub_inv)
  then show ?case by (rule ps_inv_same_queues) simp_all
next
  case (st_deleteSub s p n s' p')
  then show ?case using deleteSub_inv by blast
next
  case (st_publish e s p t ms r p')
  then show ?case using publish_inv by blast
next
  case (st_pull e s p n limit r p')
  then show ?case using pull_inv by blast
next
  case (st_ack s p n ids r p')
  then show ?case using ack_inv by blast
next
  case (st_modack e s p n ids sec r p')
  then show ?case using modack_inv by blast
next
  case (st_stop s p)
  then show ?case by (rule ps_inv_same_queues) (simp_all add: pubsub_Stop_def)
next
  case (st_workers s p ws)
  then show ?case by (rule ps_inv_same_queues) simp_all
next
  case (st_other s' s p)
  then have "subs_typed s'" using typed_ns_mono ps_inv_D(2) by metis
  with st_other show ?case using ps_inv_mem by blast
qed

definition ps_init :: "mem \<times> pubsub \<Rightarrow> bool" where
  "ps_init sp \<longleftrightarrow> mem_ok (fst sp) \<and> subs_typed (fst sp) \<and> snd sp = empty_pubsub"

lemma ps_init_inv: "ps_init sp \<Longrightarrow> ps_inv sp"
  by (simp add: ps_init_def ps_inv_def acks_ok_def mids_ok_def empty_pubsub_def)

interpretation psm: machine ps_init ps_step ps_inv
  by unfold_locales (auto intro: ps_init_inv ps_step_inv)

section \<open>Properties\<close>

text \<open>The lease a pull grants and the number of messages it may return.\<close>

definition pull_deadline :: "go_env \<Rightarrow> blob \<Rightarrow> time" where
  "pull_deadline e d = (let a = sub_AckDeadlineSeconds (fst (unmarshal_sub d)) in
     e_now e 0 + seconds (if a \<le> 0 then 10 else a))"

definition pull_limit :: "int \<Rightarrow> nat" where
  "pull_limit limit = nat (if limit \<le> 0 then 10 else limit)"

lemma PullMessages_loop:
  assumes "Get s nsSubscriptions n = Inr d"
  shows "\<exists>out q' a. pull_loop (e_now e 0) (pull_deadline e d) (pull_limit limit) (ps_ackSeq p)
      (ps_queues p n) = (out, q', a) \<and>
    PullMessages e s p n limit =
      (Inr out, p\<lparr>ps_ackSeq := a, ps_queues := (ps_queues p)(n := q')\<rparr>)"
  using assms
  by (cases "pull_loop (e_now e 0) (pull_deadline e d) (pull_limit limit) (ps_ackSeq p)
      (ps_queues p n)")
     (auto simp: PullMessages_def pull_deadline_def pull_limit_def Let_def split_def)

lemma pull_loop_retired:
  assumes "pull_loop now dl room a q = (out, q', a')" "a + length q < 2 ^ 64"
    and "distinct (map AckID q)" "set (map AckID q) \<subseteq> ack_id ` {..a}"
    and "x \<in> set (take room (filter (\<lambda>m. available m now) q))"
  shows "AckID x \<notin> set (map AckID q')"
  using assms
proof (induction now dl room a q arbitrary: out q' a' rule: pull_loop.induct)
  case (3 now dl room a m q)
  have old: "set (map AckID q) \<subseteq> ack_id ` {..a}" "distinct (map AckID q)"
    "AckID m \<notin> set (map AckID q)" "AckID m \<in> ack_id ` {..a}" using 3(5,6) by auto
  show ?case
  proof (cases "available m now")
    case True
    obtain o1 q1 a1 where r: "pull_loop now dl room (a + 1) q = (o1, q1, a1)"
      by (metis prod_cases3)
    with True 3(3,4) have q': "q' = m\<lparr>Inflight := True, Deadline := dl, AckID := ack_id (a + 1)\<rparr> # q1"
      by (auto simp: Let_def)
    have lt: "a + 1 + length q < 2 ^ 64" and up: "set (map AckID q) \<subseteq> ack_id ` {..a + 1}"
      using 3(4) old(1) by auto
    have "set (map AckID q1) \<subseteq> set (map AckID q) \<union> ack_id ` {a + 1<..a1}"
      using pull_loop_acks [OF r lt old(2) up] by simp
    moreover have "AckID m \<notin> ack_id ` {a + 1<..a1}" "AckID m \<noteq> ack_id (a + 1)"
      using old(4) by auto
    moreover have "AckID x \<in> set (map AckID (m # q))" using 3(7) by (auto dest!: in_set_takeD split: if_splits)
    then have "AckID x \<in> ack_id ` {..a}" using 3(6) by blast
    then have "AckID x \<noteq> ack_id (a + 1)" by auto
    ultimately show ?thesis
      using "3.IH"(2) [OF _ refl, of o1 q1 a1] r lt up old True 3(4,7) q' by auto
  next
    case False
    obtain o1 q1 a1 where r: "pull_loop now dl (Suc room) a q = (o1, q1, a1)"
      by (metis prod_cases3)
    with False 3(3) have q': "q' = m # q1" by (auto simp: Let_def)
    have "AckID x \<in> set (map AckID q)" using 3(7) False by (auto dest!: in_set_takeD)
    then have "AckID x \<noteq> AckID m" using old(3) by auto
    then show ?thesis
      using "3.IH"(1) [of o1 q1 a1] False r 3(4,7) old q' by auto
  qed
qed auto

text \<open>
  C11: in every state reachable by calls of the API, an acknowledgement identifier names at
  most one message over all subscriptions, a message identifier at most one message of a
  subscription, identifiers of the future are not in use, and every stored subscription
  decodes to one with the name it is stored under.
\<close>

theorem pubsub_ids_unique:
  assumes "reach ps_init ps_step (s, p)"
  shows "distinct (acks p n) \<and> distinct (mids p n) \<and> (m = n \<or> set (acks p m) \<inter> set (acks p n) = {}) \<and>
    set (acks p n) \<subseteq> ack_id ` {..ps_ackSeq p} \<and>
    (Get s nsSubscriptions n = Inr d \<longrightarrow> snd (unmarshal_sub d) \<and> sub_Name (fst (unmarshal_sub d)) = n)"
proof -
  have inv: "ps_inv (s, p)" by (rule psm.reach_inv [OF assms])
  then have "m = n \<or> set (acks p m) \<inter> set (acks p n) = {}"
    by (cases "m = n") (simp_all add: ps_inv_def acks_ok_def)
  then show ?thesis
    using ps_inv_D(3-5) [OF inv, of n] sub_res.read [OF ps_inv_D(2) [OF inv], of n d] by auto
qed

lemma content_to_stored [simp]: "content (to_stored a m) = m"
  unfolding content_def by (simp add: to_stored_def to_received_def)

lemma enqueue_subs_decoded:
  assumes "distinct (map sub_Name subs)"
  shows "map content (ps_queues (enqueue_subs subs ms p) n) = map content (ps_queues p n) @
      (if n \<in> sub_Name ` set subs then ms else [])"
proof -
  have via: "map content q = map (\<lambda>x. rc_Message (to_received [] x)) (map Message q)" for q
    by simp
  have "map (\<lambda>x. rc_Message (to_received [] x)) (map (\<lambda>m. Message (to_stored 0 m)) ms) = ms"
    by (simp add: map_idI)
  then show ?thesis unfolding via enqueue_subs_content [OF assms] by simp
qed

text \<open>
  C1: a publish to an existing topic succeeds with one message identifier per message, and
  afterwards the queue of every subscription of that topic is the old queue followed by the
  batch in its order, data, attributes and ordering keys as sent, while every other queue is
  unchanged.
\<close>

theorem publish_fanout:
  assumes "env_ok e" "mem_ok s" "subs_typed s" "Get s nsTopics t = Inr d"
  shows "\<exists>ids p' batch. PublishMessages e s p t msgs = (Inr ids, p') \<and> ids = map gm_ID batch \<and>
    length ids = length msgs \<and> map gm_Data batch = map gm_Data msgs \<and>
    map gm_Attributes batch = map gm_Attributes msgs \<and>
    map gm_OrderingKey batch = map gm_OrderingKey msgs \<and>
    map content (ps_queues p' n) =
      map content (ps_queues p n) @ (if subscribed s t n then batch else [])"
proof -
  obtain subs where subs: "subsForTopic e s t = Inr subs" by (simp add: subsForTopic_def)
  obtain batch sq where st: "stamp e 0 (ps_msgSeq p) msgs = (batch, sq)" by fastforce
  let ?p' = "enqueue_subs subs batch (p\<lparr>ps_msgSeq := sq\<rparr>)"
  have "map content (ps_queues ?p' n) = map content (ps_queues p n) @
      (if subscribed s t n then batch else [])"
    using enqueue_subs_decoded [OF subsForTopic_set(2) [OF assms(1-3) subs], of batch _ n]
      subsForTopic_set(1) [OF assms(1-3) subs, of n] by simp
  moreover have "PublishMessages e s p t msgs = (Inr (map gm_ID batch), ?p')"
    using assms(4) subs st by (simp add: PublishMessages_def)
  ultimately show ?thesis using stamp_fields [OF st] by auto
qed

text \<open>
  C2: a pull from an existing subscription returns the first messages of the queue that are
  available, in the order of the queue and at most as many as asked for (ten when the limit is
  not positive); no message is lost or reordered and no other queue changes; and until the
  acknowledgement deadline passes, what is available to further pulls is what this pull left.
\<close>

theorem pull_leases_first_available:
  assumes "Get s nsSubscriptions n = Inr d"
  shows "\<exists>out p'. PullMessages e s p n limit = (Inr out, p') \<and>
    map rc_Message out =
      take (pull_limit limit) (map content (filter (\<lambda>m. available m (e_now e 0)) (ps_queues p n))) \<and>
    map Message (ps_queues p' n) = map Message (ps_queues p n) \<and>
    (n' = n \<or> ps_queues p' n' = ps_queues p n') \<and>
    (t > pull_deadline e d \<or>
     filter (\<lambda>m. available m t) (ps_queues p' n) =
     filter (\<lambda>m. available m t) (leftover (e_now e 0) (pull_limit limit) (ps_queues p n)))"
proof -
  from PullMessages_loop [OF assms] obtain out q' a where
    loop: "pull_loop (e_now e 0) (pull_deadline e d) (pull_limit limit) (ps_ackSeq p)
      (ps_queues p n) = (out, q', a)" and
    pull: "PullMessages e s p n limit =
      (Inr out, p\<lparr>ps_ackSeq := a, ps_queues := (ps_queues p)(n := q')\<rparr>)"
    by blast
  have "t > pull_deadline e d \<or> filter (\<lambda>m. available m t) q' =
     filter (\<lambda>m. available m t) (leftover (e_now e 0) (pull_limit limit) (ps_queues p n))"
    using pull_loop_leased [OF loop, of t] by linarith
  then show ?thesis using pull pull_loop_queue [OF loop] by auto
qed

text \<open>
  C3: from a reachable state, acknowledging the identifiers a pull returned removes exactly
  the messages of that pull: what remains is the queue without them, unchanged.
\<close>

theorem pull_ack_removes_exactly:
  assumes "reach ps_init ps_step (s, p)" "Get s nsSubscriptions n = Inr d"
    and "PullMessages e s p n limit = (Inr out, p1)"
    and "ps_ackSeq p + length (ps_queues p n) < 2 ^ 64"
  shows "\<exists>p2. Acknowledge s p1 n (map rc_AckID out) = (Inr (), p2) \<and>
    (out = [] \<or> ps_queues p2 n = leftover (e_now e 0) (pull_limit limit) (ps_queues p n))"
proof -
  have inv: "ps_inv (s, p)" by (rule psm.reach_inv [OF assms(1)])
  from PullMessages_loop [OF assms(2)] assms(3) obtain q' a where
    loop: "pull_loop (e_now e 0) (pull_deadline e d) (pull_limit limit) (ps_ackSeq p)
      (ps_queues p n) = (out, q', a)" and
    p1: "p1 = p\<lparr>ps_ackSeq := a, ps_queues := (ps_queues p)(n := q')\<rparr>"
    by (metis Inr_inject prod.inject)
  let ?S = "ack_id ` {ps_ackSeq p<..<Suc a}"
  have ids: "set (map rc_AckID out) = ?S"
    using pull_loop_ids [OF loop assms(4)]
    by (metis atLeastLessThanSuc_atLeastAtMost atLeastSucAtMost_greaterThanAtMost
        atLeastSucLessThan_greaterThanLessThan list.set_map set_seq_from)
  have "filter (\<lambda>m. \<not> (AckID m \<in> ?S \<and> Inflight m)) q' =
      leftover (e_now e 0) (pull_limit limit) (ps_queues p n)"
    using pull_loop_acked [OF loop assms(4) ps_inv_D(4) [OF inv] le_refl refl] by simp
  then show ?thesis
    using assms(2) ids unfolding p1 by (auto simp: Acknowledge_def simp del: set_map)
qed

text \<open>
  C4: a delivery invalidates the acknowledgement identifiers of earlier ones.  When a pull
  delivers messages again, acknowledging them under the identifiers they had before has no
  effect, so a late consumer cannot settle a message that was given to another one.
\<close>

theorem stale_ack_ignored:
  assumes "reach ps_init ps_step (s, p)" "Get s nsSubscriptions n = Inr d"
    and "PullMessages e s p n limit = (Inr out, p1)"
    and "ps_ackSeq p + length (ps_queues p n) < 2 ^ 64"
    and "old = map AckID (take (pull_limit limit)
           (filter (\<lambda>m. available m (e_now e 0)) (ps_queues p n)))"
  shows "Acknowledge s p1 n old = (Inr (), p1)"
proof -
  have inv: "ps_inv (s, p)" by (rule psm.reach_inv [OF assms(1)])
  from PullMessages_loop [OF assms(2)] assms(3) obtain q' a where
    loop: "pull_loop (e_now e 0) (pull_deadline e d) (pull_limit limit) (ps_ackSeq p)
      (ps_queues p n) = (out, q', a)" and
    p1: "p1 = p\<lparr>ps_ackSeq := a, ps_queues := (ps_queues p)(n := q')\<rparr>"
    by (metis Inr_inject prod.inject)
  have "AckID m \<notin> set old" if "m \<in> set q'" for m
    using pull_loop_retired [OF loop assms(4) ps_inv_D(3,4) [OF inv]] that
    unfolding assms(5) by (metis (no_types, lifting) image_iff list.set_map)
  then have "filter (\<lambda>m. \<not> (AckID m \<in> set old \<and> Inflight m)) q' = q'"
    by (auto intro: filter_True)
  then show ?thesis using assms(2) by (simp add: Acknowledge_def p1)
qed

subsection \<open>A run of the service\<close>

text \<open>
  A topic \<open>T\<close> with a subscription \<open>S\<close> and one message published, on a clock that stands at 5
  seconds and then at 20 seconds.
\<close>

definition env_at :: "time \<Rightarrow> go_env" where
  "env_at t = \<lparr>e_now = (\<lambda>_. t), e_range = (\<lambda>xs. xs)\<rparr>"

lemma env_at_ok [simp]: "env_ok (env_at t)" "e_now (env_at t) i = t" "e_range (env_at t) xs = xs"
  by (simp_all add: env_at_def env_ok_def)

definition demo_sub :: subscriptionResource where
  "demo_sub = \<lparr>sub_Name = ''S'', sub_Topic = ''T'', sub_AckDeadlineSeconds = 10,
     sub_PushConfig = None\<rparr>"

definition demo_mem :: mem where
  "demo_mem = [(nsTopics, [(''T'', JsonB (enc_topic \<lparr>topic_Name = ''T''\<rparr>))]),
     (nsSubscriptions, [(''S'', JsonB (enc_sub demo_sub))])]"

definition demo_msg :: gmessage where
  "demo_msg = \<lparr>gm_ID = [], gm_Data = ''hi'', gm_Attributes = [], gm_OrderingKey = [],
     gm_PublishTime = 0\<rparr>"

definition demo_ps :: pubsub where
  "demo_ps = snd (PublishMessages (env_at (5 * second)) demo_mem empty_pubsub ''T'' [demo_msg])"

lemma demo_mem_ok: "mem_ok demo_mem" "subs_typed demo_mem"
  by (auto simp: mem_ok_def demo_mem_def typed_ns_def mem_lookup_def sub_ok_def in_int64_def
      demo_sub_def split: if_splits)

lemma demo_get: "Get demo_mem nsTopics ''T'' = Inr (JsonB (enc_topic \<lparr>topic_Name = ''T''\<rparr>))"
  "Get demo_mem nsSubscriptions ''S'' = Inr (JsonB (enc_sub demo_sub))"
  by (simp_all add: Get_def demo_mem_def)

lemma demo_dec: "unmarshal_sub (JsonB (enc_sub demo_sub)) = (demo_sub, True)"
  using sub_res.roundtrip [of demo_sub] by (simp add: sub_ok_def demo_sub_def in_int64_def)

lemma demo_queue:
  "ps_queues demo_ps ''S'' = [to_stored 1 (demo_msg\<lparr>gm_ID := msg_id 1,
     gm_PublishTime := 5 * second\<rparr>)]" "ps_ackSeq demo_ps = 1"
proof -
  have "subsForTopic (env_at (5 * second)) demo_mem ''T'' = Inr [demo_sub]"
    using demo_dec by (simp add: subsForTopic_def mlist_def bucket_of_def demo_mem_def demo_sub_def)
  then show "ps_queues demo_ps ''S'' = [to_stored 1 (demo_msg\<lparr>gm_ID := msg_id 1,
     gm_PublishTime := 5 * second\<rparr>)]" "ps_ackSeq demo_ps = 1"
    by (simp_all add: demo_ps_def PublishMessages_def demo_get empty_pubsub_def demo_sub_def)
qed

lemma demo_reach: "reach ps_init ps_step (demo_mem, demo_ps)"
proof (rule reach_step)
  show "reach ps_init ps_step (demo_mem, empty_pubsub)"
    by (rule reach_init) (simp add: ps_init_def demo_mem_ok)
  show "ps_step (demo_mem, empty_pubsub) (demo_mem, demo_ps)"
    by (rule st_publish [of "env_at (5 * second)" _ _ "''T''" "[demo_msg]"
          "fst (PublishMessages (env_at (5 * second)) demo_mem empty_pubsub ''T'' [demo_msg])"])
       (simp_all add: demo_ps_def empty_pubsub_def bucket_of_def demo_mem_def)
qed

lemma demo_pull:
  "PullMessages (env_at (20 * second)) demo_mem demo_ps ''S'' 1 =
    (Inr [to_received (ack_id 2) (Message (hd (ps_queues demo_ps ''S'')))],
     snd (PullMessages (env_at (20 * second)) demo_mem demo_ps ''S'' 1))"
proof -
  have "fst (PullMessages (env_at (20 * second)) demo_mem demo_ps ''S'' 1) =
      Inr [to_received (ack_id 2) (Message (hd (ps_queues demo_ps ''S'')))]"
    by (simp add: PullMessages_def demo_get demo_dec [simplified] demo_queue available_def
        to_stored_def Let_def flip: numeral_2_eq_2)
  then show ?thesis by (metis prod.collapse)
qed

lemma demo_available: "filter (\<lambda>m. available m t) (ps_queues demo_ps ''S'') = ps_queues demo_ps ''S''"
  by (simp add: demo_queue available_def to_stored_def)

theorem pubsub_ids_unique_witness:
  "distinct (acks demo_ps ''S'') \<and> set (acks demo_ps ''S'') \<subseteq> ack_id ` {..1} \<and>
    sub_Name (fst (unmarshal_sub (JsonB (enc_sub demo_sub)))) = ''S''"
  using pubsub_ids_unique [OF demo_reach, of "''S''" "''S''" "JsonB (enc_sub demo_sub)"]
  by (simp add: demo_get demo_queue)

theorem publish_fanout_witness:
  "\<exists>ids p'. PublishMessages (env_at 0) demo_mem empty_pubsub ''T'' [demo_msg] = (Inr ids, p') \<and>
    map (gm_Data \<circ> content) (ps_queues p' ''S'') = [''hi''] \<and> length ids = 1"
proof -
  have "subscribed demo_mem ''T'' ''S''"
    using demo_dec by (simp add: subscribed_def mem_lookup_def demo_mem_def demo_sub_def)
  then show ?thesis
    using publish_fanout [OF env_at_ok(1) demo_mem_ok demo_get(1), of 0 empty_pubsub "[demo_msg]" "''S''"]
    by (fastforce simp: empty_pubsub_def demo_msg_def)
qed

theorem pull_leases_first_available_witness:
  "\<exists>out p'. PullMessages (env_at 0) demo_mem demo_ps ''S'' 3 = (Inr out, p') \<and>
    map (gm_Data \<circ> rc_Message) out = [''hi''] \<and>
    filter (\<lambda>m. available m (10 * second)) (ps_queues p' ''S'') = []"
proof -
  have "pull_deadline (env_at 0) (JsonB (enc_sub demo_sub)) = 10 * second"
    using demo_dec by (simp add: pull_deadline_def demo_sub_def seconds_def wrap64_def second_def)
  moreover have "leftover 0 3 (ps_queues demo_ps ''S'') = []"
    by (simp add: demo_queue available_def to_stored_def eval_nat_numeral)
  moreover have "pull_limit 3 = 3" by (simp add: pull_limit_def)
  moreover have "map content (ps_queues demo_ps ''S'') =
      [demo_msg\<lparr>gm_ID := msg_id 1, gm_PublishTime := 5 * second\<rparr>]"
    by (simp add: demo_queue)
  ultimately obtain out p' where
    "PullMessages (env_at 0) demo_mem demo_ps ''S'' 3 = (Inr out, p')"
    "map rc_Message out = [demo_msg\<lparr>gm_ID := msg_id 1, gm_PublishTime := 5 * second\<rparr>]"
    "filter (\<lambda>m. available m (10 * second)) (ps_queues p' ''S'') = []"
    using pull_leases_first_available [OF demo_get(2), of "env_at 0" demo_ps 3 "''S''" "10 * second"]
    by (auto simp: demo_available)
  moreover have "map (gm_Data \<circ> rc_Message) out = map gm_Data (map rc_Message out)" by simp
  ultimately show ?thesis by (simp add: demo_msg_def)
qed

theorem pull_ack_removes_exactly_witness:
  "\<exists>p2. Acknowledge demo_mem (snd (PullMessages (env_at (20 * second)) demo_mem demo_ps ''S'' 1))
      ''S'' [ack_id 2] = (Inr (), p2) \<and> ps_queues p2 ''S'' = []"
proof -
  have "leftover (20 * second) 1 (ps_queues demo_ps ''S'') = []"
    by (simp add: demo_queue available_def to_stored_def)
  then show ?thesis
    using pull_ack_removes_exactly [OF demo_reach demo_get(2) demo_pull]
    by (simp add: demo_queue pull_limit_def)
qed

theorem stale_ack_ignored_witness:
  "Acknowledge demo_mem (snd (PullMessages (env_at (20 * second)) demo_mem demo_ps ''S'' 1))
      ''S'' [ack_id 1] =
    (Inr (), snd (PullMessages (env_at (20 * second)) demo_mem demo_ps ''S'' 1))"
  by (rule stale_ack_ignored [OF demo_reach demo_get(2) demo_pull])
     (simp_all add: demo_queue pull_limit_def available_def to_stored_def)

end
