(* ===== verification/Httpresp.thy ===== *)
theory Httpresp
  imports Go_Prelude
begin

text \<open>
  Package \<^verbatim>\<open>internal/httpresp\<close>: the JSON response and the JSON error envelope every REST
  handler answers with.  The \<^verbatim>\<open>writeJSON\<close> and \<^verbatim>\<open>writeErr\<close> methods of the services are
  these two functions.
\<close>

definition respJSON :: "nat \<Rightarrow> json \<Rightarrow> http_resp" where
  "respJSON code v =
     \<lparr>rs_code = code, rs_header = json_header, rs_body = Some (JsonB v)\<rparr>"

definition respErr :: "nat \<Rightarrow> string \<Rightarrow> http_resp" where
  "respErr code msg = respJSON code
     (JObj [(''error'', JObj [(''code'', JNum (int code)), (''message'', JStr msg)])])"

text \<open>\<^verbatim>\<open>http.NotFound\<close> and \<^verbatim>\<open>http.Error\<close>: a plain text answer.\<close>

definition http_error :: "string \<Rightarrow> nat \<Rightarrow> http_resp" where
  "http_error msg code = \<lparr>rs_code = code,
     rs_header = [(''Content-Type'', ''text/plain; charset=utf-8'')],
     rs_body = Some (RawB (msg @ ''\<newline>''))\<rparr>"

definition http_notFound :: http_resp where
  "http_notFound = http_error ''404 page not found'' 404"

abbreviation methodNotAllowed :: http_resp where
  "methodNotAllowed \<equiv> respErr 405 ''method not allowed''"

lemma resp_code [simp]:
  "rs_code (respJSON c v) = c" "rs_code (respErr c m) = c"
  "rs_code (http_error m c) = c" "rs_code http_notFound = 404"
  "rs_code (header_only c) = c" "rs_code (write_raw b) = 200"
  by (simp_all add: respJSON_def respErr_def http_error_def http_notFound_def
      header_only_def write_raw_def)

lemma resp_body [simp]:
  "rs_body (respJSON c v) = Some (JsonB v)" "rs_body (write_raw b) = Some b"
  "rs_body (header_only c) = None"
  by (simp_all add: respJSON_def write_raw_def header_only_def)

text \<open>The status codes of \<^verbatim>\<open>google.golang.org/grpc/codes\<close> that the gRPC layers answer with.\<close>

datatype grpc_code = AlreadyExists | NotFound | Internal | InvalidArgument | Unimplemented

type_synonym grpc_err = "grpc_code \<times> string"

end
