(* ===== verification/Pubsub_Rest.thy ===== *)
theory Pubsub_Rest
  imports Pubsub_Delivery Httpresp
begin

text \<open>
  The REST layer of \<^verbatim>\<open>internal/services/pubsub\<close>: routing of a request to a topic or a subscription,
  the handlers, and their JSON bodies.  A handler returns the response, the store and the
  service state.
\<close>

type_synonym ps_result = "http_resp \<times> mem \<times> pubsub"

section \<open>Bodies\<close>

definition enc_message :: "pubsubMessage \<Rightarrow> json" where
  "enc_message m = JObj (
     omit (pm_Data m = []) ''data'' (JStr (pm_Data m)) @
     omit (pm_Attributes m = []) ''attributes'' (jstrmap (pm_Attributes m)) @
     omit (pm_MessageID m = []) ''messageId'' (JStr (pm_MessageID m)) @
     [(''publishTime'', JTime (pm_PublishTime m))] @
     omit (pm_OrderingKey m = []) ''orderingKey'' (JStr (pm_OrderingKey m)))"

definition dec_message :: "(string \<Rightarrow> time option) \<Rightarrow> json \<Rightarrow> pubsubMessage \<times> bool" where
  "dec_message rfc j = (let (d, ok1) = fld_str ''data'' j; (a, ok2) = fld_strmap ''attributes'' j;
       (i, ok3) = fld_str ''messageId'' j; (t, ok4) = fld_time rfc ''publishTime'' j;
       (k, ok5) = fld_str ''orderingKey'' j in
     (\<lparr>pm_Data = d, pm_Attributes = (case a of None \<Rightarrow> [] | Some m \<Rightarrow> m), pm_MessageID = i,
       pm_PublishTime = t, pm_OrderingKey = k\<rparr>,
      is_struct_doc j \<and> ok1 \<and> ok2 \<and> ok3 \<and> ok4 \<and> ok5))"

definition dec_publishRequest :: "(string \<Rightarrow> time option) \<Rightarrow> json \<Rightarrow> pubsubMessage list option" where
  "dec_publishRequest rfc j = (if \<not> is_struct_doc j then None else (case jget ''messages'' j of
     None \<Rightarrow> Some [] | Some JNull \<Rightarrow> Some []
   | Some (JArr ms) \<Rightarrow> if list_all (\<lambda>m. snd (dec_message rfc m)) ms
       then Some (map (\<lambda>m. fst (dec_message rfc m)) ms) else None
   | Some _ \<Rightarrow> None))"

definition enc_publishResponse :: "string list \<Rightarrow> json" where
  "enc_publishResponse ids = JObj [(''messageIds'', jstrs ids)]"

definition enc_receivedMessage :: "string \<Rightarrow> pubsubMessage \<Rightarrow> json" where
  "enc_receivedMessage a m = JObj [(''ackId'', JStr a), (''message'', enc_message m)]"

text \<open>The wire message of a received one, its data encoded again.\<close>

definition wire_message :: "gmessage \<Rightarrow> pubsubMessage" where
  "wire_message m = \<lparr>pm_Data = b64_encode (gm_Data m), pm_Attributes = gm_Attributes m,
     pm_MessageID = gm_ID m, pm_PublishTime = gm_PublishTime m, pm_OrderingKey = gm_OrderingKey m\<rparr>"

definition enc_pullResponse :: "Received list \<Rightarrow> json" where
  "enc_pullResponse rs = JObj [(''receivedMessages'',
     JArr (map (\<lambda>r. enc_receivedMessage (rc_AckID r) (wire_message (rc_Message r))) rs))]"

section \<open>Handlers\<close>

definition publish :: "(string \<Rightarrow> time option) \<Rightarrow> go_env \<Rightarrow> http_req \<Rightarrow> string \<Rightarrow> mem \<Rightarrow> pubsub \<Rightarrow> ps_result" where
  "publish rfc e r topic s p = (case r_json r of None \<Rightarrow> (respErr 400 ''invalid json'', s, p)
     | Some j \<Rightarrow> (case dec_publishRequest rfc j of None \<Rightarrow> (respErr 400 ''invalid json'', s, p)
       | Some body \<Rightarrow>
           let msgs = map (\<lambda>m. \<lparr>gm_ID = [], gm_Data = fst (b64_decode (pm_Data m)),
                 gm_Attributes = pm_Attributes m, gm_OrderingKey = pm_OrderingKey m,
                 gm_PublishTime = 0\<rparr>) body
           in (case PublishMessages e s p topic msgs of
                 (Inl ErrTopicMissing, p') \<Rightarrow> (respErr 404 ''topic not found'', s, p')
               | (Inl (PErrStore er), p') \<Rightarrow> (respErr 500 (err_text er), s, p')
               | (Inl _, p') \<Rightarrow> (respErr 500 ''already exists'', s, p')
               | (Inr ids, p') \<Rightarrow> (respJSON 200 (enc_publishResponse ids), s, p'))))"

definition pull :: "go_env \<Rightarrow> http_req \<Rightarrow> string \<Rightarrow> mem \<Rightarrow> pubsub \<Rightarrow> ps_result" where
  "pull e r subName s p = (case r_json r of None \<Rightarrow> (respErr 400 ''invalid json'', s, p)
     | Some j \<Rightarrow> (let (_, ok1) = fld_bool ''returnImmediately'' j; (mx, ok2) = fld_int ''maxMessages'' j in
         if \<not> (is_struct_doc j \<and> ok1 \<and> ok2) then (respErr 400 ''invalid json'', s, p)
         else (case PullMessages e s p subName mx of
             (Inl _, p') \<Rightarrow> (respErr 404 ''subscription not found'', s, p')
           | (Inr received, p') \<Rightarrow> (respJSON 200 (enc_pullResponse received), s, p'))))"

definition acknowledge :: "http_req \<Rightarrow> string \<Rightarrow> mem \<Rightarrow> pubsub \<Rightarrow> ps_result" where
  "acknowledge r subName s p = (case r_json r of None \<Rightarrow> (respErr 400 ''invalid json'', s, p)
     | Some j \<Rightarrow> (let (ids, ok) = fld_strlist ''ackIds'' j in
         if \<not> (is_struct_doc j \<and> ok) then (respErr 400 ''invalid json'', s, p)
         else (case Acknowledge s p subName (case ids of None \<Rightarrow> [] | Some x \<Rightarrow> x) of
             (Inl _, p') \<Rightarrow> (respErr 404 ''subscription not found'', s, p')
           | (Inr _, p') \<Rightarrow> (header_only 200, s, p'))))"

definition modifyAckDeadline :: "go_env \<Rightarrow> http_req \<Rightarrow> string \<Rightarrow> mem \<Rightarrow> pubsub \<Rightarrow> ps_result" where
  "modifyAckDeadline e r subName s p = (case r_json r of None \<Rightarrow> (respErr 400 ''invalid json'', s, p)
     | Some j \<Rightarrow> (let (ids, ok1) = fld_strlist ''ackIds'' j; (sec, ok2) = fld_int ''ackDeadlineSeconds'' j in
         if \<not> (is_struct_doc j \<and> ok1 \<and> ok2) then (respErr 400 ''invalid json'', s, p)
         else (case ModifyAckDeadline e s p subName (case ids of None \<Rightarrow> [] | Some x \<Rightarrow> x) sec of
             (Inl _, p') \<Rightarrow> (respErr 404 ''subscription not found'', s, p')
           | (Inr _, p') \<Rightarrow> (header_only 200, s, p'))))"

definition handleTopic :: "(string \<Rightarrow> time option) \<Rightarrow> go_env \<Rightarrow> http_req \<Rightarrow> string \<Rightarrow> string \<Rightarrow> mem \<Rightarrow> pubsub
    \<Rightarrow> ps_result" where
  "handleTopic rfc e r name action s p =
    (if action = ''publish''
     then (if r_method r \<noteq> POST then (methodNotAllowed, s, p) else publish rfc e r name s p)
     else (case r_method r of
       PUT \<Rightarrow> (case putTopic s name of Inl er \<Rightarrow> (respErr 500 (err_text er), s, p)
         | Inr s' \<Rightarrow> (respJSON 200 (enc_topic \<lparr>topic_Name = name\<rparr>), s', p))
     | GET \<Rightarrow> (case Get s nsTopics name of Inl _ \<Rightarrow> (respErr 404 ''topic not found'', s, p)
         | Inr _ \<Rightarrow> (respJSON 200 (enc_topic \<lparr>topic_Name = name\<rparr>), s, p))
     | DELETE \<Rightarrow> (case Delete s nsTopics name of
           Inl er \<Rightarrow> if er = ErrNotFound then (respErr 404 ''topic not found'', s, p)
             else (respErr 500 (err_text er), s, p)
         | Inr s' \<Rightarrow> (header_only 204, s', p))
     | _ \<Rightarrow> (methodNotAllowed, s, p)))"

text \<open>\<^verbatim>\<open>PUT\<close> of a subscription; the name of the path replaces the one of the body.\<close>

definition store_subscription :: "subscriptionResource \<Rightarrow> mem \<Rightarrow> pubsub \<Rightarrow> ps_result" where
  "store_subscription body s p =
    (if sub_Topic body = [] then (respErr 400 ''topic required'', s, p)
     else (case Get s nsTopics (sub_Topic body) of
         Inl _ \<Rightarrow> (respErr 404 (''topic not found: '' @ sub_Topic body), s, p)
       | Inr _ \<Rightarrow> (case putSubscription s body of
           Inl er \<Rightarrow> (respErr 500 (err_text er), s, p)
         | Inr s' \<Rightarrow>
             let p' = (case sub_PushConfig body of
                 Some pc \<Rightarrow> if PushEndpoint pc \<noteq> [] then startPusher p body else p
               | None \<Rightarrow> p)
             in (respJSON 200 (enc_sub body), s', p'))))"

definition put_subscription :: "http_req \<Rightarrow> string \<Rightarrow> mem \<Rightarrow> pubsub \<Rightarrow> ps_result" where
  "put_subscription r name s p = (case r_json r of None \<Rightarrow> (respErr 400 ''invalid json'', s, p)
     | Some j \<Rightarrow> (let (body, ok) = dec_sub j in
         if \<not> ok then (respErr 400 ''invalid json'', s, p)
         else
           let body = body\<lparr>sub_Name := name\<rparr>;
               body = (if sub_AckDeadlineSeconds body = 0
                       then body\<lparr>sub_AckDeadlineSeconds := 10\<rparr> else body)
           in store_subscription body s p))"

definition handleSubscription :: "go_env \<Rightarrow> http_req \<Rightarrow> string \<Rightarrow> string \<Rightarrow> mem \<Rightarrow> pubsub \<Rightarrow> ps_result" where
  "handleSubscription e r name action s p =
    (if action = ''pull''
     then (if r_method r \<noteq> POST then (methodNotAllowed, s, p) else pull e r name s p)
     else if action = ''acknowledge''
     then (if r_method r \<noteq> POST then (methodNotAllowed, s, p) else acknowledge r name s p)
     else if action = ''modifyAckDeadline''
     then (if r_method r \<noteq> POST then (methodNotAllowed, s, p) else modifyAckDeadline e r name s p)
     else (case r_method r of
       PUT \<Rightarrow> put_subscription r name s p
     | GET \<Rightarrow> (case Get s nsSubscriptions name of
           Inl _ \<Rightarrow> (respErr 404 ''subscription not found'', s, p)
         | Inr d \<Rightarrow> (write_raw d, s, p))
     | DELETE \<Rightarrow> (case Delete s nsSubscriptions name of
           Inl _ \<Rightarrow> (respErr 404 ''subscription not found'', s, p)
         | Inr s' \<Rightarrow> (header_only 204, s', drop_queue (stopPusher p name) name))
     | _ \<Rightarrow> (methodNotAllowed, s, p)))"

text \<open>The name and the action of the last path part, at its last colon.\<close>

definition split_action :: "string \<Rightarrow> string \<times> string" where
  "split_action seg = (case cut_last (CHR '':'') seg of None \<Rightarrow> (seg, []) | Some (n, a) \<Rightarrow> (n, a))"

definition dispatch :: "(string \<Rightarrow> time option) \<Rightarrow> go_env \<Rightarrow> http_req \<Rightarrow> mem \<Rightarrow> pubsub \<Rightarrow> ps_result" where
  "dispatch rfc e r s p = (case splitN 4 (CHR ''/'') (trimPrefix (r_path r) ''/v1/'') of
     [p0, p1, kind, rest] \<Rightarrow>
       let (name, action) = split_action rest;
           resourceName = join ''/'' [p0, p1, kind, name]
       in if kind = ''topics'' then handleTopic rfc e r resourceName action s p
          else if kind = ''subscriptions'' then handleSubscription e r resourceName action s p
          else (respErr 404 (''unknown resource: '' @ kind), s, p)
   | _ \<Rightarrow> (respErr 404 ''not found'', s, p))"

text \<open>\<^verbatim>\<open>HandleV1\<close> declines a path that is not one of a topic or a subscription.\<close>

definition pubsub_HandleV1 :: "(string \<Rightarrow> time option) \<Rightarrow> go_env \<Rightarrow> http_req \<Rightarrow> string list \<Rightarrow> mem \<Rightarrow> pubsub
    \<Rightarrow> ps_result option" where
  "pubsub_HandleV1 rfc e r parts s p = (if length parts < 4 then None
     else if parts ! 2 \<noteq> ''topics'' \<and> parts ! 2 \<noteq> ''subscriptions'' then None
     else Some (dispatch rfc e r s p))"

section \<open>Every request is at most one step of the service\<close>

definition body_count :: "http_req \<Rightarrow> nat" where
  "body_count r = (case r_json r of None \<Rightarrow> 0
     | Some j \<Rightarrow> (case jget ''messages'' j of Some (JArr ms) \<Rightarrow> length ms | _ \<Rightarrow> 0))"

text \<open>The 64-bit counters have room for what the request may draw.\<close>

definition ps_room :: "http_req \<Rightarrow> mem \<Rightarrow> pubsub \<Rightarrow> bool" where
  "ps_room r s p \<longleftrightarrow> ps_msgSeq p + body_count r < 2 ^ 64 \<and>
     ps_ackSeq p + length (bucket_of s nsSubscriptions) * body_count r < 2 ^ 64 \<and>
     (\<forall>n. ps_ackSeq p + length (ps_queues p n) < 2 ^ 64)"

definition ok_codes :: "nat set" where
  "ok_codes = {200, 204, 400, 404, 405}"

definition one_step :: "mem \<times> pubsub \<Rightarrow> ps_result \<Rightarrow> bool" where
  "one_step sp res \<longleftrightarrow> (case res of (resp, s', p') \<Rightarrow>
     (sp = (s', p') \<or> ps_step sp (s', p')) \<and> rs_code resp \<in> ok_codes)"

lemma one_step_same [simp]: "one_step (s, p) (resp, s, p) \<longleftrightarrow> rs_code resp \<in> ok_codes"
  by (simp add: one_step_def)

lemma ok_codes_simps [simp]:
  "200 \<in> ok_codes" "204 \<in> ok_codes" "400 \<in> ok_codes" "404 \<in> ok_codes" "405 \<in> ok_codes"
  by (simp_all add: ok_codes_def)

lemma dec_publishRequest_length:
  "dec_publishRequest rfc j = Some body \<Longrightarrow> r_json r = Some j \<Longrightarrow> length body = body_count r"
  by (auto simp: dec_publishRequest_def body_count_def split: if_splits option.splits json.splits)

lemma PublishMessages_errors:
  "PublishMessages e s p t ms = (Inl er, p') \<Longrightarrow> er = ErrTopicMissing \<and> p' = p"
  by (auto simp: PublishMessages_def subsForTopic_def split: sum.splits prod.splits)

lemma publish_step:
  assumes "env_ok e" "ps_room r s p"
  shows "one_step (s, p) (publish rfc e r t s p)"
proof (cases "\<exists>j body. r_json r = Some j \<and> dec_publishRequest rfc j = Some body")
  case True
  then obtain j body where j: "r_json r = Some j" "dec_publishRequest rfc j = Some body" by blast
  define ms where "ms = map (\<lambda>m. \<lparr>gm_ID = [], gm_Data = fst (b64_decode (pm_Data m)),
      gm_Attributes = pm_Attributes m, gm_OrderingKey = pm_OrderingKey m, gm_PublishTime = 0\<rparr>) body"
  have len: "length ms = body_count r" using dec_publishRequest_length [OF j(2,1)] by (simp add: ms_def)
  obtain res p' where pub: "PublishMessages e s p t ms = (res, p')" by fastforce
  have "ps_step (s, p) (s, p')"
    using assms len by (intro st_publish [OF assms(1) pub]) (simp_all add: ps_room_def)
  then show ?thesis
    using j pub PublishMessages_errors [of e s p t ms]
    by (cases res) (auto simp: publish_def one_step_def ms_def)
qed (auto simp: publish_def split: option.splits)

lemma pull_step:
  assumes "ps_room r s p"
  shows "one_step (s, p) (pull e r n s p)"
proof (cases "r_json r")
  case (Some j)
  obtain res p' where pl: "PullMessages e s p n (fst (fld_int ''maxMessages'' j)) = (res, p')"
    by fastforce
  have "ps_step (s, p) (s, p')" using assms by (intro st_pull [OF pl]) (simp add: ps_room_def)
  then show ?thesis using Some pl
    by (cases res) (auto simp: pull_def one_step_def split: prod.splits)
qed (simp add: pull_def)

lemma acknowledge_step: "one_step (s, p) (acknowledge r n s p)"
proof -
  have "ps_step (s, p) (s, snd (Acknowledge s p n ids))" for ids
    by (rule st_ack [of _ _ _ ids "fst (Acknowledge s p n ids)"]) simp
  then show ?thesis
    by (auto simp: acknowledge_def one_step_def split: option.splits prod.splits sum.splits)
      (metis snd_conv)+
qed

lemma modifyAckDeadline_step: "one_step (s, p) (modifyAckDeadline e r n s p)"
proof -
  have "ps_step (s, p) (s, snd (ModifyAckDeadline e s p n ids sec))" for ids sec
    by (rule st_modack [of e _ _ _ ids sec "fst (ModifyAckDeadline e s p n ids sec)"]) simp
  then show ?thesis
    by (auto simp: modifyAckDeadline_def one_step_def split: option.splits prod.splits sum.splits)
      (metis snd_conv)+
qed

lemma handleTopic_step:
  assumes "env_ok e" "ps_room r s p"
  shows "one_step (s, p) (handleTopic rfc e r n a s p)"
proof -
  have "ps_step (s, p) (s', p)" if "Delete s nsTopics n = Inr s'" for s'
    by (rule st_deleteTopic [of _ n]) (simp add: DeleteTopic_def that)
  moreover have "ps_step (s, p) (mput s nsTopics n (JsonB (enc_topic \<lparr>topic_Name = n\<rparr>)), p)"
    by (rule st_putTopic [of _ n]) (simp add: putTopic_def)
  moreover have "Delete s nsTopics n = Inl er \<Longrightarrow> er = ErrNotFound" for er
    by (auto simp: Delete_def split: option.splits)
  ultimately show ?thesis
    using publish_step [OF assms]
    by (auto simp: handleTopic_def one_step_def putTopic_def split: meth.splits sum.splits)
qed

lemma dec_sub_ok: "dec_sub j = (b, True) \<Longrightarrow> sub_ok b"
  by (auto simp: dec_sub_def sub_ok_def fld_int_def in_int64_def
      split: prod.splits option.splits json.splits if_splits)

lemma startPusher_none: "sub_PushConfig b = None \<Longrightarrow> startPusher p b = p"
  "sub_PushConfig b = Some c \<Longrightarrow> PushEndpoint c = [] \<Longrightarrow> startPusher p b = p"
  by (simp_all add: startPusher_def)

lemma store_subscription_step:
  assumes "sub_ok b"
  shows "one_step (s, p) (store_subscription b s p)"
proof -
  have "ps_step (s, p) (mput s nsSubscriptions (sub_Name b) (JsonB (enc_sub b)), startPusher p b)"
    using st_putSub [OF assms, of s _ p] by (simp add: putSubscription_def)
  moreover have "(case sub_PushConfig b of Some pc \<Rightarrow>
      if PushEndpoint pc \<noteq> [] then startPusher p b else p | None \<Rightarrow> p) = startPusher p b"
    by (simp add: startPusher_none split: option.splits)
  ultimately show ?thesis
    by (auto simp: store_subscription_def one_step_def putSubscription_def Let_def split: sum.splits)
qed

lemma put_subscription_step: "one_step (s, p) (put_subscription r n s p)"
proof -
  have "one_step (s, p) (store_subscription
      (if sub_AckDeadlineSeconds b = 0 then b\<lparr>sub_Name := n, sub_AckDeadlineSeconds := 10\<rparr>
       else b\<lparr>sub_Name := n\<rparr>) s p)" if "dec_sub j = (b, True)" for j b
    using dec_sub_ok [OF that] by (intro store_subscription_step) (simp add: sub_ok_def in_int64_def)
  then show ?thesis
    by (auto simp: put_subscription_def Let_def split: option.splits prod.splits)
qed

lemma handleSubscription_step:
  assumes "ps_room r s p"
  shows "one_step (s, p) (handleSubscription e r n a s p)"
proof -
  have "ps_step (s, p) (s', drop_queue (stopPusher p n) n)" if "Delete s nsSubscriptions n = Inr s'" for s'
    by (rule st_deleteSub [of _ _ n]) (simp add: DeleteSubscription_def that)
  then show ?thesis
    using pull_step [OF assms, of e n] acknowledge_step [of s p r n]
      modifyAckDeadline_step [of s p e r n] put_subscription_step [of s p r n]
    by (auto simp: handleSubscription_def one_step_def split: meth.splits sum.splits)
qed

text \<open>
  A request to the REST layer is at most one step of the service, so requests keep its
  invariant, and it is answered with a success or a client error, never with a server error.
\<close>

theorem rest_request_is_one_step:
  assumes "env_ok e" "ps_room r s p" "pubsub_HandleV1 rfc e r parts s p = Some (resp, s', p')"
  shows "((s', p') = (s, p) \<or> ps_step (s, p) (s', p')) \<and> rs_code resp \<in> {200, 204, 400, 404, 405}"
proof -
  have "one_step (s, p) (dispatch rfc e r s p)"
    using handleTopic_step [OF assms(1,2)] handleSubscription_step [OF assms(2)]
    by (auto simp: dispatch_def Let_def split: list.splits prod.splits)
  then show ?thesis
    using assms(3) by (auto simp: pubsub_HandleV1_def one_step_def ok_codes_def split: if_splits)
qed

section \<open>Publish and pull over REST\<close>

text \<open>The requests a client sends.\<close>

definition post_req :: "string \<Rightarrow> json \<Rightarrow> http_req" where
  "post_req path j = \<lparr>r_method = POST, r_path = path, r_query = [], r_header = [], r_host = [],
     r_tls = False, r_contentLength = 0, r_bytes = [], r_json = Some j\<rparr>"

definition res_name :: "string \<Rightarrow> string \<Rightarrow> string \<Rightarrow> string" where
  "res_name proj kind n = ''projects/'' @ proj @ ''/'' @ kind @ ''/'' @ n"

definition publish_req :: "string \<Rightarrow> string \<Rightarrow> string list \<Rightarrow> http_req" where
  "publish_req proj t datas = post_req (''/v1/'' @ res_name proj ''topics'' t @ '':publish'')
     (JObj [(''messages'', JArr (map (\<lambda>d. JObj [(''data'', JStr (b64_encode d))]) datas))])"

definition pull_req :: "string \<Rightarrow> string \<Rightarrow> nat \<Rightarrow> http_req" where
  "pull_req proj n mx = post_req (''/v1/'' @ res_name proj ''subscriptions'' n @ '':pull'')
     (JObj [(''maxMessages'', JNum (int mx))])"

text \<open>What a client reads from one received message.\<close>

definition client_data :: "json \<Rightarrow> string" where
  "client_data r = fst (b64_decode (fst (fld_str ''data'' (fld_doc ''message'' r))))"

definition client_id :: "json \<Rightarrow> string" where
  "client_id r = fst (fld_str ''messageId'' (fld_doc ''message'' r))"

lemma splitN_res_name:
  assumes "CHR ''/'' \<notin> set proj" "CHR ''/'' \<notin> set kind"
  shows "splitN 4 (CHR ''/'') (trimPrefix (''/v1/'' @ res_name proj kind n) ''/v1/'') =
    [''projects'', proj, kind, n]"
proof -
  have "trimPrefix (''/v1/'' @ res_name proj kind n) ''/v1/'' =
      ''projects'' @ CHR ''/'' # proj @ CHR ''/'' # kind @ CHR ''/'' # n"
    by (simp add: trimPrefix_def res_name_def)
  moreover have "CHR ''/'' \<notin> set ''projects''" by simp
  ultimately show ?thesis using assms splitN_4_append by metis
qed

lemma split_action_append: "CHR '':'' \<notin> set a \<Longrightarrow> split_action (n @ CHR '':'' # a) = (n, a)"
  by (simp add: split_action_def cut_last_append)

lemma res_name_join: "join ''/'' [''projects'', proj, kind, n] = res_name proj kind n"
  by (simp add: res_name_def)

lemma dispatch_action:
  assumes "CHR ''/'' \<notin> set proj" "CHR '':'' \<notin> set act"
    and "r_path r = ''/v1/'' @ res_name proj kind n @ CHR '':'' # act"
  shows "kind = ''topics'' \<Longrightarrow> dispatch rfc e r s p = handleTopic rfc e r (res_name proj kind n) act s p"
    and "kind = ''subscriptions'' \<Longrightarrow>
      dispatch rfc e r s p = handleSubscription e r (res_name proj kind n) act s p"
proof -
  have p: "r_path r = ''/v1/'' @ res_name proj kind (n @ CHR '':'' # act)"
    by (simp add: assms(3) res_name_def)
  note split = splitN_res_name [OF assms(1), of kind "n @ CHR '':'' # act", folded p]
  show "kind = ''topics'' \<Longrightarrow> dispatch rfc e r s p = handleTopic rfc e r (res_name proj kind n) act s p"
    unfolding dispatch_def using split
    by (simp add: split_action_append [OF assms(2)] res_name_join del: join.simps)
  show "kind = ''subscriptions'' \<Longrightarrow>
      dispatch rfc e r s p = handleSubscription e r (res_name proj kind n) act s p"
    unfolding dispatch_def using split
    by (simp add: split_action_append [OF assms(2)] res_name_join del: join.simps)
qed

lemma enqueue_msgs_inflight:
  "m \<in> set (ps_queues (enqueue_msgs sub ms p) n) \<Longrightarrow> m \<in> set (ps_queues p n) \<or> \<not> Inflight m"
  by (induction ms arbitrary: p) (fastforce simp: Let_def to_stored_def split: if_splits)+

lemma enqueue_subs_inflight:
  "m \<in> set (ps_queues (enqueue_subs subs ms p) n) \<Longrightarrow> m \<in> set (ps_queues p n) \<or> \<not> Inflight m"
  by (induction subs arbitrary: p) (auto dest: enqueue_msgs_inflight)

text \<open>After a publish into an empty queue a large enough pull returns the batch.\<close>

lemma publish_then_pull:
  assumes "env_ok e" "mem_ok s" "subs_typed s" "Get s nsTopics t = Inr d" "subscribed s t n"
    and "ps_queues p n = []" "0 < k" "length msgs \<le> k"
  shows "\<exists>p' p'' batch out. PublishMessages e s p t msgs = (Inr (map gm_ID batch), p') \<and>
    PullMessages e' s p' n (int k) = (Inr out, p'') \<and> map rc_Message out = batch \<and>
    length batch = length msgs \<and> map gm_Data batch = map gm_Data msgs"
proof -
  obtain subs where subs: "subsForTopic e s t = Inr subs" by (simp add: subsForTopic_def)
  obtain batch sq where st: "stamp e 0 (ps_msgSeq p) msgs = (batch, sq)" by fastforce
  let ?p' = "enqueue_subs subs batch (p\<lparr>ps_msgSeq := sq\<rparr>)"
  have q: "map content (ps_queues ?p' n) = batch"
    using enqueue_subs_decoded [OF subsForTopic_set(2) [OF assms(1-3) subs], of batch _ n]
      subsForTopic_set(1) [OF assms(1-3) subs, of n] assms(5,6) by simp
  have "available m t'" if "m \<in> set (ps_queues ?p' n)" for m t'
    using enqueue_subs_inflight [OF that] assms(6) by (simp add: available_def)
  then have av: "filter (\<lambda>m. available m t') (ps_queues ?p' n) = ps_queues ?p' n" for t'
    by (simp add: filter_True)
  have len: "length batch = length msgs" "map gm_Data batch = map gm_Data msgs"
    using stamp_fields [OF st] by simp_all
  from assms(5) obtain d' where d': "Get s nsSubscriptions n = Inr d'"
    by (auto simp: subscribed_def Get_lookup split: option.splits)
  from PullMessages_loop [OF d'] obtain out q' a where
    loop: "pull_loop (e_now e' 0) (pull_deadline e' d') (pull_limit (int k)) (ps_ackSeq ?p')
      (ps_queues ?p' n) = (out, q', a)" and
    pull: "PullMessages e' s ?p' n (int k) =
      (Inr out, ?p'\<lparr>ps_ackSeq := a, ps_queues := (ps_queues ?p')(n := q')\<rparr>)"
    by blast
  have "pull_limit (int k) = k" using assms(7) by (simp add: pull_limit_def)
  then have "map rc_Message out = batch"
    using pull_loop_queue [OF loop] q len(1) assms(8) by (simp add: av)
  moreover have "PublishMessages e s p t msgs = (Inr (map gm_ID batch), ?p')"
    using assms(4) subs st by (simp add: PublishMessages_def)
  ultimately show ?thesis using pull len by blast
qed

lemma dec_client_messages:
  "dec_publishRequest rfc (JObj [(''messages'', JArr (map (\<lambda>d. JObj [(''data'', JStr (b64_encode d))]) ds))]) =
    Some (map (\<lambda>d. \<lparr>pm_Data = b64_encode d, pm_Attributes = [], pm_MessageID = [], pm_PublishTime = 0,
      pm_OrderingKey = []\<rparr>) ds)"
  by (simp add: dec_publishRequest_def dec_message_def fld_str_def fld_strmap_def fld_time_def
      eqFold_def lower_char_def list_all_iff)

lemma client_reads:
  "client_data (enc_receivedMessage a (wire_message m)) = gm_Data m"
  "client_id (enc_receivedMessage a (wire_message m)) = gm_ID m"
proof -
  have "b64_encode (gm_Data m) = [] \<longrightarrow> fst (b64_decode []) = gm_Data m"
    by (metis b64_roundtrip fst_conv)
  then show "client_data (enc_receivedMessage a (wire_message m)) = gm_Data m"
    "client_id (enc_receivedMessage a (wire_message m)) = gm_ID m"
    by (simp_all add: client_data_def client_id_def enc_receivedMessage_def enc_message_def
        wire_message_def omit_def fld_str_def fld_doc_def eqFold_def lower_char_def)
qed

text \<open>
  C12: data published over REST comes back over REST.  When a client posts a batch to a topic
  with an empty subscription, the answer is a list with one identifier per message, and a
  pull that asks for enough messages is answered with the same data, byte for byte and in order,
  under these identifiers.
\<close>

theorem rest_publish_pull_roundtrip:
  assumes "env_ok e" "mem_ok s" "subs_typed s" "CHR ''/'' \<notin> set proj"
    and "Get s nsTopics (res_name proj ''topics'' t) = Inr d"
    and "subscribed s (res_name proj ''topics'' t) (res_name proj ''subscriptions'' n)"
    and "ps_queues p (res_name proj ''subscriptions'' n) = []"
    and "0 < k" "length datas \<le> k" "k < 2 ^ 63"
  shows "\<exists>ids p' rs p''.
    dispatch rfc e (publish_req proj t datas) s p = (respJSON 200 (JObj [(''messageIds'', jstrs ids)]), s, p') \<and>
    dispatch rfc e' (pull_req proj n k) s p' = (respJSON 200 (JObj [(''receivedMessages'', JArr rs)]), s, p'') \<and>
    length ids = length datas \<and> map client_data rs = datas \<and> map client_id rs = ids"
proof -
  define ms where "ms = map (\<lambda>d. \<lparr>gm_ID = [], gm_Data = d, gm_Attributes = [], gm_OrderingKey = [],
      gm_PublishTime = 0\<rparr>) datas"
  have ms: "length ms = length datas" "map gm_Data ms = datas" by (simp_all add: ms_def comp_def)
  obtain p' p'' batch out where pp:
    "PublishMessages e s p (res_name proj ''topics'' t) ms = (Inr (map gm_ID batch), p')"
    "PullMessages e' s p' (res_name proj ''subscriptions'' n) (int k) = (Inr out, p'')"
    "map rc_Message out = batch" "length batch = length ms" "map gm_Data batch = map gm_Data ms"
    using publish_then_pull [OF assms(1-3,5-8), of ms e'] assms(9) ms(1) by auto
  define rs where "rs = map (\<lambda>r. enc_receivedMessage (rc_AckID r) (wire_message (rc_Message r))) out"
  have "dispatch rfc e (publish_req proj t datas) s p =
      publish rfc e (publish_req proj t datas) (res_name proj ''topics'' t) s p"
    using dispatch_action(1) [OF assms(4), of "''publish''" "publish_req proj t datas" "''topics''" t]
    by (simp add: publish_req_def post_req_def handleTopic_def)
  also have "\<dots> = (respJSON 200 (JObj [(''messageIds'', jstrs (map gm_ID batch))]), s, p')"
    using pp(1) by (simp add: publish_def publish_req_def post_req_def dec_client_messages ms_def
        comp_def enc_publishResponse_def)
  finally have A: "dispatch rfc e (publish_req proj t datas) s p = \<dots>" .
  have "dispatch rfc e' (pull_req proj n k) s p' =
      pull e' (pull_req proj n k) (res_name proj ''subscriptions'' n) s p'"
    using dispatch_action(2) [OF assms(4), of "''pull''" "pull_req proj n k" "''subscriptions''" n]
    by (simp add: pull_req_def post_req_def handleSubscription_def)
  also have "\<dots> = (respJSON 200 (JObj [(''receivedMessages'', JArr rs)]), s, p'')"
    using pp(2) assms(10) by (simp add: pull_def pull_req_def post_req_def fld_bool_def fld_int_def
        eqFold_def lower_char_def in_int64_def enc_pullResponse_def rs_def)
  finally have B: "dispatch rfc e' (pull_req proj n k) s p' = \<dots>" .
  have "map client_data rs = map gm_Data (map rc_Message out)"
    "map client_id rs = map gm_ID (map rc_Message out)"
    by (simp_all add: rs_def client_reads)
  then show ?thesis using A B pp(3-5) ms by (metis length_map)
qed

subsection \<open>A topic and a subscription of project p\<close>

definition rest_sub :: subscriptionResource where
  "rest_sub = \<lparr>sub_Name = res_name ''p'' ''subscriptions'' ''s'', sub_Topic = res_name ''p'' ''topics'' ''t'',
     sub_AckDeadlineSeconds = 10, sub_PushConfig = None\<rparr>"

definition rest_mem :: mem where
  "rest_mem = mput (mput NewMemory nsTopics (res_name ''p'' ''topics'' ''t'')
       (JsonB (enc_topic \<lparr>topic_Name = res_name ''p'' ''topics'' ''t''\<rparr>)))
     nsSubscriptions (sub_Name rest_sub) (JsonB (enc_sub rest_sub))"

lemma rest_sub_ok: "sub_ok rest_sub"
  by (simp add: sub_ok_def rest_sub_def in_int64_def)

lemma rest_mem_ok: "mem_ok rest_mem" "subs_typed rest_mem"
  by (simp_all add: rest_mem_def typed_ns_mput typed_ns_mput_other rest_sub_ok)

lemma rest_mem_topic: "\<exists>d. Get rest_mem nsTopics (res_name ''p'' ''topics'' ''t'') = Inr d"
  by (simp add: rest_mem_def Get_lookup)

lemma rest_mem_sub:
  "subscribed rest_mem (res_name ''p'' ''topics'' ''t'') (res_name ''p'' ''subscriptions'' ''s'')"
  using sub_res.roundtrip [OF rest_sub_ok]
  by (simp add: rest_mem_def subscribed_def rest_sub_def)

theorem rest_publish_pull_roundtrip_witness:
  "\<exists>ids p' rs p''.
    dispatch (\<lambda>_. None) (env_at 0) (publish_req ''p'' ''t'' [''a'', []]) rest_mem empty_pubsub =
      (respJSON 200 (JObj [(''messageIds'', jstrs ids)]), rest_mem, p') \<and>
    dispatch (\<lambda>_. None) (env_at 1) (pull_req ''p'' ''s'' 5) rest_mem p' =
      (respJSON 200 (JObj [(''receivedMessages'', JArr rs)]), rest_mem, p'') \<and>
    length ids = 2 \<and> map client_data rs = [''a'', []] \<and> map client_id rs = ids"
proof -
  obtain d where "Get rest_mem nsTopics (res_name ''p'' ''topics'' ''t'') = Inr d"
    using rest_mem_topic by blast
  from rest_publish_pull_roundtrip [OF env_at_ok(1) rest_mem_ok _ this rest_mem_sub,
      of empty_pubsub 5 "[''a'', []]" "\<lambda>_. None" 0 "env_at 1"]
  show ?thesis by (simp add: empty_pubsub_def flip: numeral_2_eq_2)
qed

theorem rest_request_is_one_step_witness:
  "\<exists>resp s' p'. pubsub_HandleV1 (\<lambda>_. None) (env_at 0) (publish_req ''p'' ''t'' [''a''])
      [''projects'', ''p'', ''topics'', ''t:publish''] rest_mem empty_pubsub = Some (resp, s', p') \<and>
    rs_code resp \<in> {200, 204, 400, 404, 405}"
proof -
  have "ps_room (publish_req ''p'' ''t'' [''a'']) rest_mem empty_pubsub"
    by (simp add: ps_room_def body_count_def publish_req_def post_req_def eqFold_def empty_pubsub_def
        rest_mem_def bucket_of_def mput_def NewMemory_def)
  moreover obtain resp s' p' where "dispatch (\<lambda>_. None) (env_at 0) (publish_req ''p'' ''t'' [''a''])
      rest_mem empty_pubsub = (resp, s', p')" by (metis prod_cases3)
  moreover from this have "pubsub_HandleV1 (\<lambda>_. None) (env_at 0) (publish_req ''p'' ''t'' [''a''])
      [''projects'', ''p'', ''topics'', ''t:publish''] rest_mem empty_pubsub = Some (resp, s', p')"
    by (simp add: pubsub_HandleV1_def)
  ultimately show ?thesis
    using rest_request_is_one_step [OF env_at_ok(1)] by blast
qed

end
