(* ===== verification/Pubsub_Push.thy ===== *)
theory Pubsub_Push
  imports Pubsub_Rest
begin

text \<open>
  The other clients of the Pub/Sub core: the push workers (\<^verbatim>\<open>runPusher\<close> and \<^verbatim>\<open>deliver\<close>), the gRPC
  servers of \<^verbatim>\<open>grpc.go\<close> and the console functions of \<^verbatim>\<open>console.go\<close>.
\<close>

section \<open>Push workers\<close>

definition subAckSeconds :: "mem \<Rightarrow> string \<Rightarrow> int option" where
  "subAckSeconds s name = (case Get s nsSubscriptions name of Inl _ \<Rightarrow> None
     | Inr d \<Rightarrow> (let (sub, ok) = unmarshal_sub d in
         if \<not> ok then None
         else if sub_AckDeadlineSeconds sub \<le> 0 then Some 10
         else Some (sub_AckDeadlineSeconds sub)))"

definition enc_pushEnvelope :: "string \<Rightarrow> pubsubMessage \<Rightarrow> json" where
  "enc_pushEnvelope sub m = JObj [(''message'', enc_message m), (''subscription'', JStr sub)]"

text \<open>
  \<open>post endpoint body\<close> is the HTTP client: the status code, or nothing when the request could
  not be made or failed.
\<close>

definition deliver :: "(string \<Rightarrow> json \<Rightarrow> nat option) \<Rightarrow> string \<Rightarrow> string \<Rightarrow> Received \<Rightarrow> bool" where
  "deliver post subName endpoint rec =
     (case post endpoint (enc_pushEnvelope subName (wire_message (rc_Message rec))) of
        None \<Rightarrow> False | Some code \<Rightarrow> 200 \<le> code \<and> code < 300)"

definition set_worker :: "nat \<Rightarrow> pusher \<Rightarrow> pubsub \<Rightarrow> pubsub" where
  "set_worker i w p = p\<lparr>ps_workers := AList.update i w (ps_workers p)\<rparr>"

definition exit_worker :: "nat \<Rightarrow> pubsub \<Rightarrow> pubsub" where
  "exit_worker i p = p\<lparr>ps_workers := AList.delete i (ps_workers p)\<rparr>"

text \<open>
  One worker runs three kinds of steps, between which other calls may run: it returns when
  its context is cancelled; on a tick it reads the deadline and pulls; and it delivers the next
  message it pulled.
\<close>

definition pusher_cancelled :: "pubsub \<Rightarrow> nat \<Rightarrow> pubsub" where
  "pusher_cancelled p i = (case map_of (ps_workers p) i of None \<Rightarrow> p
     | Some w \<Rightarrow> if w_cancelled w \<and> w_pending w = [] then exit_worker i p else p)"

definition pusher_tick :: "go_env \<Rightarrow> mem \<Rightarrow> pubsub \<Rightarrow> nat \<Rightarrow> pubsub" where
  "pusher_tick e s p i = (case map_of (ps_workers p) i of None \<Rightarrow> p
     | Some w \<Rightarrow> if w_pending w \<noteq> [] then p
       else (case subAckSeconds s (w_sub w) of None \<Rightarrow> exit_worker i p
         | Some ackSec \<Rightarrow>
             let w = w\<lparr>w_maxBackoff := seconds ackSec\<rparr> in
             (case PullMessages e s p (w_sub w) 10 of
                (Inl _, p') \<Rightarrow> exit_worker i p'
              | (Inr received, p') \<Rightarrow>
                  if received = [] then set_worker i (w\<lparr>w_backoff := initialBackoff\<rparr>) p'
                  else set_worker i (w\<lparr>w_pending := received\<rparr>) p')))"

definition push_delay :: "pusher \<Rightarrow> int" where
  "push_delay w = (let delay = (if w_backoff w > w_maxBackoff w then w_maxBackoff w else w_backoff w)
     in if delay < second then second else delay)"

definition next_backoff :: "pusher \<Rightarrow> int" where
  "next_backoff w = (let b = wrap64 (w_backoff w * 2) in
     if b > w_maxBackoff w then w_maxBackoff w else b)"

definition pusher_deliver :: "(string \<Rightarrow> json \<Rightarrow> nat option) \<Rightarrow> go_env \<Rightarrow> mem \<Rightarrow> pubsub \<Rightarrow> nat \<Rightarrow> pubsub" where
  "pusher_deliver post e s p i = (case map_of (ps_workers p) i of None \<Rightarrow> p
     | Some w \<Rightarrow> (case w_pending w of [] \<Rightarrow> p
       | rec # rest \<Rightarrow>
           if w_cancelled w then exit_worker i p
           else if deliver post (w_sub w) (w_endpoint w) rec
           then set_worker i (w\<lparr>w_pending := rest, w_backoff := initialBackoff\<rparr>)
                  (snd (Acknowledge s p (w_sub w) [rc_AckID rec]))
           else set_worker i (w\<lparr>w_pending := rest, w_backoff := next_backoff w\<rparr>)
                  (snd (ModifyAckDeadline e s p (w_sub w) [rc_AckID rec] (push_delay w div second)))))"

section \<open>gRPC\<close>

definition grpc_CreateTopic :: "mem \<Rightarrow> string \<Rightarrow> grpc_err + (string \<times> mem)" where
  "grpc_CreateTopic s name = (case CreateTopic s name of
     Inl PErrAlreadyExists \<Rightarrow> Inl (AlreadyExists, ''already exists'')
   | Inl (PErrStore er) \<Rightarrow> Inl (Internal, err_text er)
   | Inl _ \<Rightarrow> Inl (Internal, [])
   | Inr s' \<Rightarrow> Inr (name, s'))"

definition grpc_GetTopic :: "mem \<Rightarrow> string \<Rightarrow> grpc_err + string" where
  "grpc_GetTopic s name = (case GetTopic s name of Inl er \<Rightarrow> Inl (Internal, err_text er)
     | Inr ok \<Rightarrow> if \<not> ok then Inl (NotFound, ''topic not found'') else Inr name)"

definition grpc_DeleteTopic :: "mem \<Rightarrow> string \<Rightarrow> grpc_err + mem" where
  "grpc_DeleteTopic s name = (case DeleteTopic s name of
     Inl _ \<Rightarrow> Inl (NotFound, ''topic not found'') | Inr s' \<Rightarrow> Inr s')"

text \<open>The messages of a request: data, attributes and ordering key.\<close>

definition grpc_Publish :: "go_env \<Rightarrow> mem \<Rightarrow> pubsub \<Rightarrow> string \<Rightarrow>
    (string \<times> (string \<times> string) list \<times> string) list \<Rightarrow> (grpc_err + string list) \<times> pubsub" where
  "grpc_Publish e s p topic ms =
     (let msgs = map (\<lambda>(d, a, k). \<lparr>gm_ID = [], gm_Data = d, gm_Attributes = a, gm_OrderingKey = k,
            gm_PublishTime = 0\<rparr>) ms
      in (case PublishMessages e s p topic msgs of
        (Inl ErrTopicMissing, p') \<Rightarrow> (Inl (NotFound, ''topic not found''), p')
      | (Inl (PErrStore er), p') \<Rightarrow> (Inl (Internal, err_text er), p')
      | (Inl _, p') \<Rightarrow> (Inl (Internal, []), p')
      | (Inr ids, p') \<Rightarrow> (Inr ids, p')))"

definition grpc_ListTopics :: "go_env \<Rightarrow> mem \<Rightarrow> string \<Rightarrow> grpc_err + string list" where
  "grpc_ListTopics e s project = (case ListTopics e s (project @ ''/topics/'') of
     Inl er \<Rightarrow> Inl (Internal, err_text er) | Inr names \<Rightarrow> Inr names)"

text \<open>\<open>push\<close> is the endpoint of the push configuration, if the request has one.\<close>

definition grpc_CreateSubscription :: "mem \<Rightarrow> pubsub \<Rightarrow> string \<Rightarrow> string \<Rightarrow> int \<Rightarrow> string option
    \<Rightarrow> grpc_err + (subscriptionResource \<times> mem \<times> pubsub)" where
  "grpc_CreateSubscription s p name topic ack push =
     (case CreateSubscription s p name topic ack (case push of None \<Rightarrow> [] | Some u \<Rightarrow> u) of
        Inl ErrTopicMissing \<Rightarrow> Inl (NotFound, ''topic not found'')
      | Inl PErrAlreadyExists \<Rightarrow> Inl (AlreadyExists, ''already exists'')
      | Inl (PErrStore er) \<Rightarrow> Inl (Internal, err_text er)
      | Inl ErrSubMissing \<Rightarrow> Inl (Internal, ''subscription missing'')
      | Inr (s', p') \<Rightarrow> Inr (\<lparr>sub_Name = name, sub_Topic = topic,
          sub_AckDeadlineSeconds = (if ack = 0 then 10 else ack),
          sub_PushConfig = map_option (\<lambda>u. \<lparr>PushEndpoint = u\<rparr>) push\<rparr>, s', p'))"

definition grpc_GetSubscription :: "mem \<Rightarrow> string \<Rightarrow> grpc_err + subscriptionResource" where
  "grpc_GetSubscription s name = (case GetSubscription s name of
     Inl _ \<Rightarrow> Inl (NotFound, ''subscription not found'')
   | Inr (topic, ack) \<Rightarrow> Inr \<lparr>sub_Name = name, sub_Topic = topic,
       sub_AckDeadlineSeconds = wrap32 ack, sub_PushConfig = None\<rparr>)"

definition grpc_DeleteSubscription :: "mem \<Rightarrow> pubsub \<Rightarrow> string \<Rightarrow> grpc_err + (mem \<times> pubsub)" where
  "grpc_DeleteSubscription s p name = (case DeleteSubscription s p name of
     Inl _ \<Rightarrow> Inl (NotFound, ''subscription not found'') | Inr r \<Rightarrow> Inr r)"

text \<open>The received message of the wire has no publish time.\<close>

definition grpc_message :: "Received \<Rightarrow> string \<times> gmessage" where
  "grpc_message r = (rc_AckID r, (rc_Message r)\<lparr>gm_PublishTime := 0\<rparr>)"

definition grpc_Pull :: "go_env \<Rightarrow> mem \<Rightarrow> pubsub \<Rightarrow> string \<Rightarrow> int
    \<Rightarrow> (grpc_err + (string \<times> gmessage) list) \<times> pubsub" where
  "grpc_Pull e s p sub mx = (case PullMessages e s p sub mx of
     (Inl _, p') \<Rightarrow> (Inl (NotFound, ''subscription not found''), p')
   | (Inr msgs, p') \<Rightarrow> (Inr (map grpc_message msgs), p'))"

definition grpc_Acknowledge :: "mem \<Rightarrow> pubsub \<Rightarrow> string \<Rightarrow> string list \<Rightarrow> (grpc_err + unit) \<times> pubsub" where
  "grpc_Acknowledge s p sub ids = (case Acknowledge s p sub ids of
     (Inl _, p') \<Rightarrow> (Inl (NotFound, ''subscription not found''), p') | (Inr _, p') \<Rightarrow> (Inr (), p'))"

definition grpc_ModifyAckDeadline :: "go_env \<Rightarrow> mem \<Rightarrow> pubsub \<Rightarrow> string \<Rightarrow> string list \<Rightarrow> int
    \<Rightarrow> (grpc_err + unit) \<times> pubsub" where
  "grpc_ModifyAckDeadline e s p sub ids sec = (case ModifyAckDeadline e s p sub ids sec of
     (Inl _, p') \<Rightarrow> (Inl (NotFound, ''subscription not found''), p') | (Inr _, p') \<Rightarrow> (Inr (), p'))"

text \<open>
  \<^verbatim>\<open>StreamingPull\<close>: the first request opens the stream, each later one settles messages, and each
  tick of the server sends what it can pull.
\<close>

record stream_req =
  sr_Subscription :: string
  sr_AckIds :: "string list"
  sr_ModifyDeadlineAckIds :: "string list"
  sr_ModifyDeadlineSeconds :: "int list"

definition stream_open :: "mem \<Rightarrow> pubsub \<Rightarrow> stream_req \<Rightarrow> (grpc_err + string) \<times> pubsub" where
  "stream_open s p first = (if sr_Subscription first = []
     then (Inl (InvalidArgument, ''subscription required''), p)
     else (case GetSubscription s (sr_Subscription first) of
        Inl _ \<Rightarrow> (Inl (NotFound, ''subscription not found''), p)
      | Inr _ \<Rightarrow> (Inr (sr_Subscription first),
          if sr_AckIds first \<noteq> [] then snd (Acknowledge s p (sr_Subscription first) (sr_AckIds first))
          else p)))"

definition stream_recv :: "go_env \<Rightarrow> mem \<Rightarrow> pubsub \<Rightarrow> string \<Rightarrow> stream_req \<Rightarrow> pubsub" where
  "stream_recv e s p subName req =
     (let p = (if sr_AckIds req \<noteq> [] then snd (Acknowledge s p subName (sr_AckIds req)) else p)
      in if sr_ModifyDeadlineAckIds req \<noteq> []
         then snd (ModifyAckDeadline e s p subName (sr_ModifyDeadlineAckIds req)
                (case sr_ModifyDeadlineSeconds req of [] \<Rightarrow> 0 | x # _ \<Rightarrow> x))
         else p)"

definition stream_tick :: "go_env \<Rightarrow> mem \<Rightarrow> pubsub \<Rightarrow> string
    \<Rightarrow> (grpc_err + (string \<times> gmessage) list option) \<times> pubsub" where
  "stream_tick e s p subName = (case PullMessages e s p subName 100 of
     (Inl _, p') \<Rightarrow> (Inl (Internal, ''subscription missing''), p')
   | (Inr msgs, p') \<Rightarrow> (Inr (if msgs = [] then None else Some (map grpc_message msgs)), p'))"

section \<open>Console\<close>

definition ConsoleTopics :: "go_env \<Rightarrow> mem \<Rightarrow> store_err + string list" where
  "ConsoleTopics e s = (case List s nsTopics [] of Inl er \<Rightarrow> Inl er
     | Inr all \<Rightarrow> Inr (sort (concat (map (\<lambda>(_, v). let (t, ok) = unmarshal_topic v in
         if \<not> ok then [] else [topic_Name t]) (e_range e all)))))"

definition ConsoleSubscriptions :: "go_env \<Rightarrow> mem \<Rightarrow> string
    \<Rightarrow> store_err + (string \<times> string \<times> int \<times> string) list" where
  "ConsoleSubscriptions e s topic = (case List s nsSubscriptions [] of Inl er \<Rightarrow> Inl er
     | Inr all \<Rightarrow> Inr (sort_key fst (concat (map (\<lambda>(_, v). let (sub, ok) = unmarshal_sub v in
         if \<not> ok then []
         else if topic \<noteq> [] \<and> sub_Topic sub \<noteq> topic then []
         else [(sub_Name sub, sub_Topic sub, sub_AckDeadlineSeconds sub,
                case sub_PushConfig sub of None \<Rightarrow> [] | Some c \<Rightarrow> PushEndpoint c)])
         (e_range e all)))))"

definition ConsolePublish :: "go_env \<Rightarrow> mem \<Rightarrow> pubsub \<Rightarrow> string \<Rightarrow> string \<Rightarrow> (string \<times> string) list
    \<Rightarrow> (pubsub_err + string) \<times> pubsub" where
  "ConsolePublish e s p topic data attrs =
     (case PublishMessages e s p topic [\<lparr>gm_ID = [], gm_Data = data, gm_Attributes = attrs,
          gm_OrderingKey = [], gm_PublishTime = 0\<rparr>] of
        (Inl er, p') \<Rightarrow> (Inl er, p')
      | (Inr [], p') \<Rightarrow> (Inr [], p')
      | (Inr (i # _), p') \<Rightarrow> (Inr i, p'))"

definition ConsolePeekMessages :: "pubsub \<Rightarrow> string \<Rightarrow> int
    \<Rightarrow> (string \<times> time \<times> (string \<times> string) list \<times> string \<times> bool) list" where
  "ConsolePeekMessages p subName limit =
     (let q = ps_queues p subName;
          limit = (if limit \<le> 0 \<or> limit > int (length q) then int (length q) else limit)
      in map (\<lambda>m. (pm_MessageID (Message m), pm_PublishTime (Message m), pm_Attributes (Message m),
           fst (b64_decode (pm_Data (Message m))), Inflight m)) (take (nat limit) q))"

section \<open>Workers and streams are runs of the service\<close>

lemma st_snd_ack: "ps_step (s, p) (s, snd (Acknowledge s p n ids))"
  by (rule st_ack [of _ _ _ ids "fst (Acknowledge s p n ids)"]) simp

lemma st_snd_modack: "ps_step (s, p) (s, snd (ModifyAckDeadline e s p n ids sec))"
  by (rule st_modack [of e _ _ _ ids sec "fst (ModifyAckDeadline e s p n ids sec)"]) simp

lemma st_set_worker: "ps_step (s, p) (s, set_worker i w p)" "ps_step (s, p) (s, exit_worker i p)"
  unfolding set_worker_def exit_worker_def by (rule st_workers)+

lemma pusher_deliver_run: "ps_step\<^sup>*\<^sup>* (s, p) (s, pusher_deliver post e s p i)"
proof -
  have "ps_step\<^sup>*\<^sup>* (s, p) (s, set_worker i w (snd (Acknowledge s p n ids)))" for w n ids
    by (meson st_snd_ack st_set_worker(1) r_into_rtranclp rtranclp_trans)
  moreover have "ps_step\<^sup>*\<^sup>* (s, p) (s, set_worker i w (snd (ModifyAckDeadline e s p n ids sec)))"
    for w n ids sec
    by (meson st_snd_modack st_set_worker(1) r_into_rtranclp rtranclp_trans)
  ultimately show ?thesis
    by (auto simp: pusher_deliver_def st_set_worker r_into_rtranclp split: option.splits list.splits)
qed

lemma pusher_tick_run:
  assumes "\<And>n. ps_ackSeq p + length (ps_queues p n) < 2 ^ 64"
  shows "ps_step\<^sup>*\<^sup>* (s, p) (s, pusher_tick e s p i)"
proof (cases "map_of (ps_workers p) i")
  case (Some w)
  obtain r p' where pl: "PullMessages e s p (w_sub w) 10 = (r, p')" by fastforce
  have "ps_step (s, p) (s, p')" by (rule st_pull [OF pl assms])
  then have "ps_step\<^sup>*\<^sup>* (s, p) (s, set_worker i w' p')" "ps_step\<^sup>*\<^sup>* (s, p) (s, exit_worker i p')" for w'
    by (meson st_set_worker r_into_rtranclp rtranclp_trans)+
  then show ?thesis
    using Some pl by (auto simp: pusher_tick_def Let_def st_set_worker r_into_rtranclp
        split: option.splits sum.splits)
qed (simp add: pusher_tick_def)

lemma stream_recv_run: "ps_step\<^sup>*\<^sup>* (s, p) (s, stream_recv e s p n req)"
proof -
  have "ps_step\<^sup>*\<^sup>* (s, p) (s, snd (ModifyAckDeadline e s (snd (Acknowledge s p n ids)) n ids' sec))"
    for ids ids' sec
    by (meson st_snd_ack st_snd_modack r_into_rtranclp rtranclp_trans)
  then show ?thesis
    by (auto simp: stream_recv_def Let_def st_snd_ack st_snd_modack r_into_rtranclp)
qed

section \<open>Properties\<close>

lemma push_delay_bounds:
  assumes "second \<le> w_maxBackoff w"
  shows "second \<le> push_delay w" "push_delay w \<le> w_maxBackoff w"
  using assms by (simp_all add: push_delay_def Let_def)

lemma seconds_div:
  assumes "0 \<le> d" "in_int64 d"
  shows "seconds (d div second) = d div second * second"
proof -
  have "d div second * second \<le> d" by (simp add: second_def)
  moreover have "0 \<le> d div second * second" using assms(1) by (simp add: second_def pos_imp_zdiv_nonneg_iff)
  ultimately show ?thesis using assms(2) by (auto simp: seconds_def in_int64_def intro!: wrap64_id)
qed

lemma filter_remove1:
  assumes "distinct (map f q)" "m \<in> set q"
  shows "filter (\<lambda>x. f x \<noteq> f m) q = remove1 m q"
  using assms
proof (induction q)
  case (Cons x q)
  then have fx: "f x \<notin> f ` set q" by simp
  show ?case
  proof (cases "x = m")
    case True
    with fx have "\<forall>y \<in> set q. f y \<noteq> f m" by (metis image_eqI)
    with True show ?thesis by (simp add: filter_True)
  next
    case False
    with Cons.prems fx have "f x \<noteq> f m" by (metis image_eqI set_ConsD)
    with False Cons show ?thesis by simp
  qed
qed simp

lemma ps_queues_workers [simp]:
  "ps_queues (set_worker i w p) = ps_queues p" "ps_queues (exit_worker i p) = ps_queues p"
  by (simp_all add: set_worker_def exit_worker_def)

text \<open>
  What a push worker does with a message it holds a lease on.  When the endpoint answers
  with a 2xx status the message leaves the queue and nothing else does.  Otherwise the queue
  keeps every message, and the lease of this one is extended by at least a second and at most
  the acknowledgement deadline (the worker's bound), so it is delivered again.
\<close>

theorem push_outcome:
  assumes "ps_inv (s, p)" "Get s nsSubscriptions (w_sub w) = Inr d"
    and "map_of (ps_workers p) i = Some w" "w_pending w = rec # rest" "\<not> w_cancelled w"
    and "m \<in> set (ps_queues p (w_sub w))" "AckID m = rc_AckID rec" "Inflight m"
    and "second \<le> w_maxBackoff w" "in_int64 (w_maxBackoff w)"
    and "q' = ps_queues (pusher_deliver post e s p i) (w_sub w)"
  shows "if deliver post (w_sub w) (w_endpoint w) rec
    then q' = remove1 m (ps_queues p (w_sub w))
    else map Message q' = map Message (ps_queues p (w_sub w)) \<and>
      (\<exists>m'. m' \<in> set q' \<and> Message m' = Message m \<and> AckID m' = AckID m \<and>
        e_now e 0 + second \<le> Deadline m' \<and> Deadline m' \<le> e_now e 0 + w_maxBackoff w)"
proof (cases "deliver post (w_sub w) (w_endpoint w) rec")
  case True
  let ?q = "ps_queues p (w_sub w)"
  have d: "distinct (map AckID ?q)" using ps_inv_D(3) [OF assms(1)] .
  have "q' = filter (\<lambda>x. \<not> (AckID x = AckID m \<and> Inflight x)) ?q"
    using True assms(2-5,7,11) by (simp add: pusher_deliver_def Acknowledge_def)
  also have "\<dots> = filter (\<lambda>x. AckID x \<noteq> AckID m) ?q"
    using d assms(6,8) by (intro filter_cong) (auto dest: inj_onD simp: distinct_map)
  finally show ?thesis using True filter_remove1 [OF d assms(6)] by simp
next
  case False
  let ?k = "push_delay w div second"
  define m' where "m' = modack_one (e_now e 0) [rc_AckID rec] ?k m"
  have delay: "second \<le> push_delay w" "push_delay w \<le> w_maxBackoff w"
    using push_delay_bounds [OF assms(9)] by simp_all
  have k: "1 \<le> ?k" using delay(1) zdiv_mono1 [OF delay(1), of second] by (simp add: second_def)
  have "in_int64 (push_delay w)" "0 \<le> push_delay w"
    using delay assms(10) by (simp_all add: in_int64_def second_def)
  then have "seconds ?k = ?k * second" using seconds_div by blast
  moreover have "?k * second \<le> push_delay w" by (simp add: second_def)
  moreover have "second \<le> ?k * second" using k by (simp add: second_def)
  moreover have "Deadline m' = e_now e 0 + seconds ?k"
    using k assms(7) by (simp add: m'_def modack_one_def)
  ultimately have "e_now e 0 + second \<le> Deadline m'" "Deadline m' \<le> e_now e 0 + w_maxBackoff w"
    using delay(2) by linarith+
  moreover have q': "q' = map (modack_one (e_now e 0) [rc_AckID rec] ?k) (ps_queues p (w_sub w))"
    using False assms(2-5,11) by (simp add: pusher_deliver_def ModifyAckDeadline_def)
  moreover have "m' \<in> set q'" using assms(6) by (auto simp: q' m'_def)
  moreover have "Message m' = Message m" "AckID m' = AckID m" by (simp_all add: m'_def)
  ultimately show ?thesis using False by (auto simp: comp_def)
qed

text \<open>A worker of subscription \<open>S\<close> that holds a lease on one message.\<close>

definition push_msg :: storedMessage where
  "push_msg = (to_stored 1 (demo_msg\<lparr>gm_ID := msg_id 1\<rparr>))\<lparr>Inflight := True, Deadline := 10 * second\<rparr>"

definition push_worker :: pusher where
  "push_worker = \<lparr>w_sub = ''S'', w_endpoint = ''http://x'', w_backoff = initialBackoff,
     w_maxBackoff = 10 * second, w_pending = [to_received (ack_id 1) (Message push_msg)],
     w_cancelled = False\<rparr>"

definition push_ps :: pubsub where
  "push_ps = \<lparr>ps_queues = (\<lambda>_. [])(''S'' := [push_msg]), ps_msgSeq = 1, ps_ackSeq = 1,
     ps_pushers = [(''S'', 0)], ps_workers = [(0, push_worker)], ps_nextWorker = 1, ps_stopped = False\<rparr>"

lemma push_ps_inv: "ps_inv (demo_mem, push_ps)"
  by (auto simp: ps_inv_def demo_mem_ok acks_ok_def mids_ok_def push_ps_def push_msg_def to_stored_def)

theorem push_outcome_witness:
  "map Message (ps_queues (pusher_deliver (\<lambda>_ _. Some 503) (env_at 0) demo_mem push_ps 0) ''S'') =
      [Message push_msg] \<and>
   ps_queues (pusher_deliver (\<lambda>_ _. Some 204) (env_at 0) demo_mem push_ps 0) ''S'' = []"
proof -
  have w: "w_sub push_worker = ''S''" "map_of (ps_workers push_ps) 0 = Some push_worker"
    "w_pending push_worker = [to_received (ack_id 1) (Message push_msg)]" "\<not> w_cancelled push_worker"
    "push_msg \<in> set (ps_queues push_ps ''S'')" "AckID push_msg = ack_id 1" "Inflight push_msg"
    "second \<le> w_maxBackoff push_worker" "in_int64 (w_maxBackoff push_worker)"
    by (simp_all add: push_ps_def push_worker_def push_msg_def to_stored_def second_def in_int64_def)
  note out = push_outcome [OF push_ps_inv, of push_worker _ 0 _ "[]" push_msg _ _ "env_at 0",
      OF _ w(2,3,4) _ _ w(7,8,9) refl, unfolded w(1), OF demo_get(2) w(5)]
  from out [of "\<lambda>_ _. Some 503"] out [of "\<lambda>_ _. Some 204"] show ?thesis
    by (simp add: w(6) deliver_def push_ps_def)
qed

end
