(* ===== verification/Pubsub_Liveness.thy ===== *)
theory Pubsub_Liveness
  imports Pubsub_Delivery
begin

text \<open>
  Delivery as a liveness property: a message that waits in the queue of a subscription is handed out by one of the next
  pulls, whatever else the queue holds and however small the limit of a pull is.
\<close>

section \<open>What one pull takes from the queue\<close>

definition open_at :: "time \<Rightarrow> storedMessage \<Rightarrow> bool" where
  "open_at t m \<longleftrightarrow> \<not> (Inflight m \<and> t \<le> Deadline m)"

text \<open>
  The messages of a queue that are not leased beyond \<open>t\<close> get fewer by those that a pull takes, since
  the lease it gives reaches to \<open>dl \<ge> t\<close>.
\<close>

lemma pull_loop_opens:
  assumes "pull_loop now dl room a q = (out, q', a')" "now \<le> t" "t \<le> dl"
  shows "length (filter (open_at t) q') + length out \<le> length (filter (open_at t) q)"
  using assms
proof (induction now dl room a q arbitrary: out q' a' rule: pull_loop.induct)
  case (3 now dl room a m q)
  show ?case
  proof (cases "available m now")
    case True
    obtain o1 q1 a1 where r: "pull_loop now dl room (u64_inc a) q = (o1, q1, a1)" by (metis prod_cases3)
    have "open_at t m" "\<not> open_at t (m\<lparr>Inflight := True, Deadline := dl, AckID := ack_id (u64_inc a)\<rparr>)"
      using True 3(4,5) by (auto simp: open_at_def available_def)
    moreover have "out = to_received (ack_id (u64_inc a)) (Message m) # o1"
      "q' = m\<lparr>Inflight := True, Deadline := dl, AckID := ack_id (u64_inc a)\<rparr> # q1"
      using 3(3) True r by (simp_all add: Let_def)
    ultimately show ?thesis using 3(2) [OF _ refl r 3(4,5)] True by simp
  next
    case False
    obtain o1 q1 a1 where r: "pull_loop now dl (Suc room) a q = (o1, q1, a1)" by (metis prod_cases3)
    with 3(3) False have "out = o1" "q' = m # q1" by (simp_all add: Let_def)
    with 3(1) [OF _ r 3(4,5)] False show ?thesis by simp
  qed
qed auto

text \<open>A message that is available is taken, or the pull is full and the message stays as it is.\<close>

lemma pull_loop_takes:
  assumes "pull_loop now dl room a q = (out, q', a')" "m \<in> set q" "available m now"
  shows "content m \<in> rc_Message ` set out \<or> length out = room \<and> m \<in> set q'"
  using assms
proof (induction now dl room a q arbitrary: out q' a' rule: pull_loop.induct)
  case (3 now dl room a x q)
  then show ?case by (fastforce simp: Let_def split: prod.splits if_splits)
qed auto

section \<open>A sequence of pulls\<close>

text \<open>The pulls of a client, one per environment: what they return together, and the state after them.\<close>

fun pulls :: "go_env list \<Rightarrow> mem \<Rightarrow> pubsub \<Rightarrow> string \<Rightarrow> int \<Rightarrow> Received list \<times> pubsub" where
  "pulls [] s p n limit = ([], p)"
| "pulls (e # es) s p n limit = (case PullMessages e s p n limit of
     (Inl _, p') \<Rightarrow> pulls es s p' n limit
   | (Inr out, p') \<Rightarrow> (let (outs, p'') = pulls es s p' n limit in (out @ outs, p'')))"

lemma pulls_deliver:
  assumes "Get s nsSubscriptions n = Inr d" "m \<in> set (ps_queues p n)"
    and "\<forall>e\<in>set es. available m (e_now e 0) \<and> e_now e 0 \<le> t \<and> t \<le> pull_deadline e d"
    and "length (filter (open_at t) (ps_queues p n)) \<le> length es * pull_limit limit" "es \<noteq> []"
  shows "content m \<in> rc_Message ` set (fst (pulls es s p n limit))"
  using assms(2-)
proof (induction es arbitrary: p)
  case (Cons e es)
  from PullMessages_loop [OF assms(1)] obtain out q' a where
    loop: "pull_loop (e_now e 0) (pull_deadline e d) (pull_limit limit) (ps_ackSeq p) (ps_queues p n) = (out, q', a)" and
    pull: "PullMessages e s p n limit = (Inr out, p\<lparr>ps_ackSeq := a, ps_queues := (ps_queues p)(n := q')\<rparr>)" by blast
  let ?p = "p\<lparr>ps_ackSeq := a, ps_queues := (ps_queues p)(n := q')\<rparr>"
  have m: "available m (e_now e 0)" "e_now e 0 \<le> t" "t \<le> pull_deadline e d" using Cons.prems(2) by auto
  show ?case
  proof (cases "content m \<in> rc_Message ` set out")
    case True
    then show ?thesis using pull by (auto split: prod.splits)
  next
    case False
    then have full: "length out = pull_limit limit" "m \<in> set q'" using pull_loop_takes [OF loop Cons.prems(1) m(1)] by auto
    have less: "length (filter (open_at t) q') + pull_limit limit \<le> length (filter (open_at t) (ps_queues p n))"
      using pull_loop_opens [OF loop m(2,3)] full by simp
    have "open_at t m" using m(1,2) by (auto simp: open_at_def available_def)
    then have "0 < length (filter (open_at t) q')" using full(2) by (auto simp: filter_empty_conv)
    with less Cons.prems(3) have "es \<noteq> []" by (cases es) (simp_all del: length_greater_0_conv)
    moreover have "length (filter (open_at t) (ps_queues ?p n)) \<le> length es * pull_limit limit" using less Cons.prems(3) by simp
    ultimately have "content m \<in> rc_Message ` set (fst (pulls es s ?p n limit))"
      using Cons.IH [of ?p] full(2) Cons.prems(2) by simp
    then show ?thesis using pull by (auto split: prod.splits)
  qed
qed simp



end
