(* ===== verification/Secret_Manager.thy ===== *)
theory Secret_Manager
  imports Resource_Codec Httpresp Go_Base64
begin

text \<open>
  Service \<^verbatim>\<open>internal/services/secretmanager\<close>: secrets and their numbered versions in the store, with the
  counter of versions per secret (\<^verbatim>\<open>verSeq\<close>, an int map whose missing keys read as 0) in the service.
\<close>

section \<open>Data\<close>

definition nsSecrets :: string where "nsSecrets = ''secretmanager/secrets''"
definition nsVersions :: string where "nsVersions = ''secretmanager/versions''"

lemmas [ns_defs] = nsSecrets_def nsVersions_def

record secretResource =
  sec_Name :: string
  sec_CreateTime :: time
  sec_Labels :: "(string \<times> string) list"

record versionResource =
  ver_Name :: string
  ver_CreateTime :: time
  ver_State :: string
  ver_PayloadB64 :: string

type_synonym verSeq = "string \<Rightarrow> int"

definition enc_secret :: "secretResource \<Rightarrow> json" where
  "enc_secret r = JObj ([(''name'', JStr (sec_Name r)), (''createTime'', JTime (sec_CreateTime r))] @
     omit (sec_Labels r = []) ''labels'' (jstrmap (sec_Labels r)))"

definition dec_secret :: "(string \<Rightarrow> time option) \<Rightarrow> json \<Rightarrow> secretResource \<times> bool" where
  "dec_secret rfc j = (let (n, ok1) = fld_str ''name'' j; (t, ok2) = fld_time rfc ''createTime'' j;
       (l, ok3) = fld_strmap ''labels'' j in
     (\<lparr>sec_Name = n, sec_CreateTime = t, sec_Labels = (case l of None \<Rightarrow> [] | Some m \<Rightarrow> m)\<rparr>,
      is_struct_doc j \<and> ok1 \<and> ok2 \<and> ok3))"

fun unmarshal_secret :: "(string \<Rightarrow> time option) \<Rightarrow> blob \<Rightarrow> secretResource \<times> bool" where
  "unmarshal_secret rfc (JsonB j) = dec_secret rfc j"
| "unmarshal_secret rfc (RawB _) = (\<lparr>sec_Name = [], sec_CreateTime = 0, sec_Labels = []\<rparr>, False)"

text \<open>A version on the wire has no payload; the stored document has it under \<^verbatim>\<open>payload_b64\<close>.\<close>

definition enc_version :: "versionResource \<Rightarrow> json" where
  "enc_version v = JObj [(''name'', JStr (ver_Name v)), (''createTime'', JTime (ver_CreateTime v)),
     (''state'', JStr (ver_State v))]"

definition enc_stored_version :: "versionResource \<Rightarrow> json" where
  "enc_stored_version v = JObj [(''name'', JStr (ver_Name v)), (''createTime'', JTime (ver_CreateTime v)),
     (''state'', JStr (ver_State v)), (''payload_b64'', JStr (ver_PayloadB64 v))]"

definition dec_version :: "(string \<Rightarrow> time option) \<Rightarrow> json \<Rightarrow> versionResource \<times> bool" where
  "dec_version rfc j = (let (n, ok1) = fld_str ''name'' j; (t, ok2) = fld_time rfc ''createTime'' j;
       (st, ok3) = fld_str ''state'' j in
     (\<lparr>ver_Name = n, ver_CreateTime = t, ver_State = st, ver_PayloadB64 = []\<rparr>,
      is_struct_doc j \<and> ok1 \<and> ok2 \<and> ok3))"

definition dec_stored_version :: "(string \<Rightarrow> time option) \<Rightarrow> json \<Rightarrow> versionResource \<times> bool" where
  "dec_stored_version rfc j = (let (v, ok1) = dec_version rfc j; (b, ok2) = fld_str ''payload_b64'' j in
     (v\<lparr>ver_PayloadB64 := b\<rparr>, ok1 \<and> ok2))"

definition zero_version :: versionResource where
  "zero_version = \<lparr>ver_Name = [], ver_CreateTime = 0, ver_State = [], ver_PayloadB64 = []\<rparr>"

fun unmarshal_version :: "(string \<Rightarrow> time option) \<Rightarrow> blob \<Rightarrow> versionResource \<times> bool" where
  "unmarshal_version rfc (JsonB j) = dec_version rfc j"
| "unmarshal_version rfc (RawB _) = (zero_version, False)"

fun unmarshal_stored_version :: "(string \<Rightarrow> time option) \<Rightarrow> blob \<Rightarrow> versionResource \<times> bool" where
  "unmarshal_stored_version rfc (JsonB j) = dec_stored_version rfc j"
| "unmarshal_stored_version rfc (RawB _) = (zero_version, False)"

definition secretName :: "string \<Rightarrow> string \<Rightarrow> string" where
  "secretName project i = ''projects/'' @ project @ ''/secrets/'' @ i"

section \<open>Handlers\<close>

type_synonym sm_result = "http_resp \<times> mem \<times> verSeq"

definition sm_collection :: "(string \<Rightarrow> time option) \<Rightarrow> go_env \<Rightarrow> http_req \<Rightarrow> string \<Rightarrow> mem \<Rightarrow> verSeq \<Rightarrow> sm_result" where
  "sm_collection rfc e r project s v = (case r_method r of
     POST \<Rightarrow> (let i = get_first (r_query r) ''secretId''; name = secretName project i in
       if i = [] then (respErr 400 ''secretId query parameter required'', s, v)
       else (case Get s nsSecrets name of Inr _ \<Rightarrow> (respErr 409 ''secret exists'', s, v)
         | Inl _ \<Rightarrow>
             let labels = (if r_contentLength r > 0
                   then (case r_json r of None \<Rightarrow> []
                     | Some j \<Rightarrow> (case fst (fld_strmap ''labels'' j) of None \<Rightarrow> [] | Some m \<Rightarrow> m))
                   else []);
                 res = \<lparr>sec_Name = name, sec_CreateTime = e_now e 0, sec_Labels = labels\<rparr>
             in (case Put s nsSecrets name (JsonB (enc_secret res)) of
                   Inl er \<Rightarrow> (respErr 500 (err_text er), s, v)
                 | Inr s' \<Rightarrow> (respJSON 200 (enc_secret res), s', v))))
   | GET \<Rightarrow> (let all = (case List s nsSecrets (''projects/'' @ project @ ''/secrets/'') of
           Inl _ \<Rightarrow> [] | Inr l \<Rightarrow> l)
       in (respJSON 200 (JObj [(''secrets'', JArr (concat (map (\<lambda>(_, d).
             let (sec, ok) = unmarshal_secret rfc d in if ok then [enc_secret sec] else [])
           (e_range e all))))]), s, v))
   | _ \<Rightarrow> (methodNotAllowed, s, v))"

definition addVersion :: "go_env \<Rightarrow> http_req \<Rightarrow> string \<Rightarrow> mem \<Rightarrow> verSeq \<Rightarrow> sm_result" where
  "addVersion e r name s v = (if r_method r \<noteq> POST then (methodNotAllowed, s, v)
     else (case Get s nsSecrets name of Inl _ \<Rightarrow> (respErr 404 ''secret not found'', s, v)
       | Inr _ \<Rightarrow> (case r_json r of None \<Rightarrow> (respErr 400 ''invalid json'', s, v)
         | Some j \<Rightarrow> (let pl = fld_doc ''payload'' j; (data, ok) = fld_str ''data'' pl in
             if \<not> (is_struct_doc j \<and> is_struct_doc pl \<and> ok) then (respErr 400 ''invalid json'', s, v)
             else
               let verNum = wrap64 (v name + 1);
                   v' = v(name := verNum);
                   verName = name @ ''/versions/'' @ itoai verNum;
                   ver = \<lparr>ver_Name = verName, ver_CreateTime = e_now e 0, ver_State = ''ENABLED'',
                          ver_PayloadB64 = data\<rparr>
               in (case Put s nsVersions verName (JsonB (enc_stored_version ver)) of
                     Inl er \<Rightarrow> (respErr 500 (err_text er), s, v')
                   | Inr s' \<Rightarrow> (respJSON 200 (enc_version ver), s', v'))))))"

definition secretItem :: "(string \<Rightarrow> time option) \<Rightarrow> go_env \<Rightarrow> http_req \<Rightarrow> string \<Rightarrow> string \<Rightarrow> mem \<Rightarrow> verSeq \<Rightarrow> sm_result" where
  "secretItem rfc e r project seg s v =
     (let (i, action) = splitAction seg; name = secretName project i in
      if action = ''addVersion'' then addVersion e r name s v
      else (case r_method r of
        GET \<Rightarrow> (case Get s nsSecrets name of
            Inl er \<Rightarrow> if er = ErrNotFound then (respErr 404 ''secret not found'', s, v)
              else (write_raw (RawB []), s, v)
          | Inr d \<Rightarrow> (write_raw d, s, v))
      | DELETE \<Rightarrow> (case Delete s nsSecrets name of
            Inl _ \<Rightarrow> (respErr 404 ''secret not found'', s, v)
          | Inr s' \<Rightarrow>
              let s'' = (case List s' nsVersions (name @ ''/versions/'') of
                    Inl _ \<Rightarrow> s'
                  | Inr all \<Rightarrow> delete_all s' nsVersions (map fst (e_range e all)))
              in (header_only 204, s'', v(name := 0)))
      | _ \<Rightarrow> (methodNotAllowed, s, v)))"

definition sm_listVersions :: "(string \<Rightarrow> time option) \<Rightarrow> go_env \<Rightarrow> http_req \<Rightarrow> string \<Rightarrow> string \<Rightarrow> mem \<Rightarrow> verSeq \<Rightarrow> sm_result" where
  "sm_listVersions rfc e r project i s v = (if r_method r \<noteq> GET then (methodNotAllowed, s, v)
     else (let all = (case List s nsVersions (secretName project i @ ''/versions/'') of
           Inl _ \<Rightarrow> [] | Inr l \<Rightarrow> l)
       in (respJSON 200 (JObj [(''versions'', JArr (concat (map (\<lambda>(_, d).
             let (ver, ok) = unmarshal_version rfc d in if ok then [enc_version ver] else [])
           (e_range e all))))]), s, v)))"

text \<open>The loop that resolves \<^verbatim>\<open>latest\<close>: the highest number among the keys.\<close>

definition highest_version :: "string \<Rightarrow> string list \<Rightarrow> int" where
  "highest_version pre ks = foldl (\<lambda>h k. let n = atoi_val (trimPrefix k pre) in if n > h then n else h) 0 ks"

definition resolve_version :: "go_env \<Rightarrow> mem \<Rightarrow> string \<Rightarrow> string \<Rightarrow> string option" where
  "resolve_version e s name verName = (if verName = ''latest''
     then (let pre = name @ ''/versions/'';
               all = (case List s nsVersions pre of Inl _ \<Rightarrow> [] | Inr l \<Rightarrow> l);
               highest = highest_version pre (map fst (e_range e all))
           in if highest = 0 then None else Some (itoai highest))
     else Some verName)"

definition enc_access :: "string \<Rightarrow> string \<Rightarrow> json" where
  "enc_access name data = JObj [(''name'', JStr name), (''payload'', JObj [(''data'', JStr data)])]"

definition versionItem :: "(string \<Rightarrow> time option) \<Rightarrow> go_env \<Rightarrow> http_req \<Rightarrow> string \<Rightarrow> string \<Rightarrow> string \<Rightarrow> mem \<Rightarrow> verSeq \<Rightarrow> sm_result" where
  "versionItem rfc e r project i seg s v =
     (let (verName, action) = splitAction seg; name = secretName project i in
      (case resolve_version e s name verName of None \<Rightarrow> (respErr 404 ''no versions'', s, v)
       | Some verName \<Rightarrow>
           let full = name @ ''/versions/'' @ verName in
           if action = ''access''
           then (case Get s nsVersions full of Inl _ \<Rightarrow> (respErr 404 ''version not found'', s, v)
             | Inr d \<Rightarrow> (let (st, _) = unmarshal_stored_version rfc d in
                 (respJSON 200 (enc_access (ver_Name st) (ver_PayloadB64 st)), s, v)))
           else (case r_method r of
             GET \<Rightarrow> (case Get s nsVersions full of Inl _ \<Rightarrow> (respErr 404 ''version not found'', s, v)
               | Inr d \<Rightarrow> (let (st, _) = unmarshal_version rfc d in
                   (respJSON 200 (enc_version st), s, v)))
           | _ \<Rightarrow> (methodNotAllowed, s, v))))"

definition sm_HandleV1 :: "(string \<Rightarrow> time option) \<Rightarrow> go_env \<Rightarrow> http_req \<Rightarrow> string list \<Rightarrow> mem \<Rightarrow> verSeq
    \<Rightarrow> sm_result option" where
  "sm_HandleV1 rfc e r parts s v = (if length parts < 3 \<or> parts ! 2 \<noteq> ''secrets'' then None
     else if length parts = 3 then Some (sm_collection rfc e r (parts ! 1) s v)
     else if length parts = 4 then Some (secretItem rfc e r (parts ! 1) (parts ! 3) s v)
     else if length parts = 5
     then (if parts ! 4 = ''versions'' then Some (sm_listVersions rfc e r (parts ! 1) (parts ! 3) s v)
           else None)
     else if length parts = 6
     then Some (versionItem rfc e r (parts ! 1) (parts ! 3) (parts ! 5) s v)
     else None)"

section \<open>Console\<close>

definition ConsoleSecrets :: "(string \<Rightarrow> time option) \<Rightarrow> go_env \<Rightarrow> mem
    \<Rightarrow> store_err + (string \<times> string \<times> time \<times> (string \<times> string) list) list" where
  "ConsoleSecrets rfc e s = (case List s nsSecrets [] of Inl er \<Rightarrow> Inl er
     | Inr all \<Rightarrow> Inr (sort_key fst (concat (map (\<lambda>(_, d). let (sec, ok) = unmarshal_secret rfc d in
         if \<not> ok then [] else [(sec_Name sec, lastSegment (sec_Name sec), sec_CreateTime sec, sec_Labels sec)])
         (e_range e all)))))"

definition ConsoleVersions :: "(string \<Rightarrow> time option) \<Rightarrow> go_env \<Rightarrow> mem \<Rightarrow> string
    \<Rightarrow> store_err + (string \<times> int \<times> string \<times> time) list" where
  "ConsoleVersions rfc e s secret = (case List s nsVersions (secret @ ''/versions/'') of Inl er \<Rightarrow> Inl er
     | Inr all \<Rightarrow> Inr (sort_key (\<lambda>(_, n, _). - n) (concat (map (\<lambda>(k, d).
         let (ver, ok) = unmarshal_version rfc d in
         if \<not> ok then []
         else [(ver_Name ver, atoi_val (trimPrefix k (secret @ ''/versions/'')), ver_State ver, ver_CreateTime ver)])
         (e_range e all)))))"

definition ConsoleVersionPayload :: "(string \<Rightarrow> time option) \<Rightarrow> go_env \<Rightarrow> mem \<Rightarrow> string \<Rightarrow> string
    \<Rightarrow> string + string" where
  "ConsoleVersionPayload rfc e s secret version =
     (case resolve_version e s secret version of None \<Rightarrow> Inl ''no versions''
      | Some version \<Rightarrow> (case Get s nsVersions (secret @ ''/versions/'' @ version) of
          Inl _ \<Rightarrow> Inl ''version not found''
        | Inr d \<Rightarrow> (let (st, ok) = unmarshal_stored_version rfc d in
            if \<not> ok then Inl ''invalid json''
            else (let (raw, good) = b64_decode (ver_PayloadB64 st) in
              if \<not> good then Inl ''illegal base64 data'' else Inr raw))))"

section \<open>Versions are numbered consecutively\<close>

definition vname :: "string \<Rightarrow> string \<Rightarrow> nat \<Rightarrow> string" where
  "vname p i n = secretName p i @ ''/versions/'' @ itoa n"

lemma ns_secret_versions [simp]: "nsSecrets \<noteq> nsVersions" "nsVersions \<noteq> nsSecrets"
  by (simp_all add: ns_defs)

lemma secretName_append_eq:
  assumes "noslash p" "noslash i" "noslash p'" "noslash i'"
  shows "secretName p i @ CHR ''/'' # x = secretName p' i' @ CHR ''/'' # y \<longleftrightarrow> p = p' \<and> i = i' \<and> x = y"
proof -
  have "secretName p i @ CHR ''/'' # x = ''projects/'' @ p @ CHR ''/'' # ''secrets/'' @ i @ CHR ''/'' # x"
    for p i x by (simp add: secretName_def)
  then show ?thesis
    using assms by (simp add: noslash_def append_sep_eq)
qed

lemma vname_prefix:
  assumes "noslash p" "noslash i" "noslash p'" "noslash i'"
  shows "prefix (secretName p i @ ''/versions/'') (vname p' i' n) \<longleftrightarrow> p = p' \<and> i = i'"
proof
  assume "prefix (secretName p i @ ''/versions/'') (vname p' i' n)"
  then obtain z where "secretName p' i' @ CHR ''/'' # ''versions/'' @ itoa n =
      secretName p i @ CHR ''/'' # ''versions/'' @ z" by (auto simp: prefix_def vname_def)
  then show "p = p' \<and> i = i'" using secretName_append_eq [of p' i' p i] assms by blast
qed (simp add: vname_def)

lemma vname_inj:
  assumes "noslash p" "noslash i" "noslash p'" "noslash i'"
  shows "vname p i n = vname p' i' n' \<longleftrightarrow> p = p' \<and> i = i' \<and> n = n'"
  using secretName_append_eq [OF assms, of "''versions/'' @ itoa n" "''versions/'' @ itoa n'"]
  by (auto simp: vname_def)

lemma secretName_inj: "noslash p \<Longrightarrow> noslash p' \<Longrightarrow> secretName p i = secretName p' i' \<longleftrightarrow> p = p' \<and> i = i'"
  unfolding secretName_def noslash_def using append_sep_eq [of "CHR ''/''" p p' "''secrets/'' @ i" "''secrets/'' @ i'"]
  by simp

text \<open>Every stored version has a number that the counter of its secret has reached.\<close>

definition sm_inv :: "mem \<times> verSeq \<Rightarrow> bool" where
  "sm_inv sv \<longleftrightarrow> mem_ok (fst sv) \<and> (\<forall>k. mem_lookup (fst sv) nsVersions k \<noteq> None \<longrightarrow>
     (\<exists>p i n. noslash p \<and> noslash i \<and> k = vname p i n \<and> 1 \<le> n \<and> int n \<le> snd sv (secretName p i))) \<and>
     (\<forall>n. 0 \<le> snd sv n)"

text \<open>A call that writes no version and lowers no counter.\<close>

lemma sm_inv_frame:
  assumes "sm_inv (s, v)" "mem_ok s'" "\<And>k. mem_lookup s' nsVersions k \<noteq> None \<Longrightarrow> mem_lookup s nsVersions k \<noteq> None"
  shows "sm_inv (s', v)"
  using assms unfolding sm_inv_def by auto

lemma addVersion_put:
  assumes "addVersion e r name s v = (resp, s', v')" "0 \<le> v name" "v name < 2 ^ 63 - 1"
  shows "(s' = s \<and> v' = v) \<or> (\<exists>d. s' = mput s nsVersions (name @ ''/versions/'' @ itoa (nat (v name + 1))) d \<and>
     v' = v(name := v name + 1))"
proof -
  have "wrap64 (v name + 1) = v name + 1" using assms(2,3) by (simp add: wrap64_id in_int64_def)
  moreover have "itoai (v name + 1) = itoa (nat (v name + 1))" using assms(2) by (simp add: itoai_def)
  ultimately show ?thesis
    using assms(1) by (auto simp: addVersion_def Let_def split: if_splits sum.splits option.splits prod.splits)
qed

lemma addVersion_inv:
  assumes inv: "sm_inv (s, v)" and add: "addVersion e r (secretName p i) s v = (resp, s', v')"
    and "noslash p" "noslash i" "v (secretName p i) < 2 ^ 63 - 1"
  shows "sm_inv (s', v')"
proof -
  let ?n = "secretName p i"
  have v0: "0 \<le> v ?n" using inv by (simp add: sm_inv_def)
  from addVersion_put [OF add v0 assms(5)] show ?thesis
  proof (elim disjE exE conjE)
    fix d
    assume s': "s' = mput s nsVersions (?n @ ''/versions/'' @ itoa (nat (v ?n + 1))) d"
      and v': "v' = v(?n := v ?n + 1)"
    have ok: "mem_ok s" using inv by (simp add: sm_inv_def)
    have "\<exists>p i n. noslash p \<and> noslash i \<and> k = vname p i n \<and> 1 \<le> n \<and> int n \<le> v' (secretName p i)"
      if k: "mem_lookup s' nsVersions k \<noteq> None" for k
    proof (cases "mem_lookup s nsVersions k")
      case None
      with k ok have "k = vname p i (nat (v ?n + 1))" by (auto simp: s' vname_def split: if_splits)
      with v0 assms(3,4) show ?thesis by (intro exI [of _ p] exI [of _ i] exI) (auto simp: v')
    next
      case (Some x)
      then obtain p' i' n where "noslash p'" "noslash i'" "k = vname p' i' n" "1 \<le> n"
        "int n \<le> v (secretName p' i')" using inv unfolding sm_inv_def by fastforce
      then show ?thesis by (intro exI [of _ p'] exI [of _ i'] exI [of _ n]) (auto simp: v')
    qed
    then show ?thesis using inv ok v0 by (auto simp: sm_inv_def s' v')
  qed (use inv in simp)
qed

lemma secretItem_inv:
  assumes inv: "sm_inv (s, v)" and e: "env_ok e" and "noslash p" "noslash seg"
    and it: "secretItem rfc e r p seg s v = (resp, s', v')"
    and "\<And>n. v n < 2 ^ 63 - 1"
  shows "sm_inv (s', v')"
proof -
  obtain i a where ia: "splitAction seg = (i, a)" by fastforce
  have i: "noslash i" using splitAction_noslash [OF ia assms(4)] .
  let ?n = "secretName p i"
  have ok: "mem_ok s" using inv by (simp add: sm_inv_def)
  consider "addVersion e r ?n s v = (resp, s', v')" | "s' = s" "v' = v" |
    "s' = delete_all (mdel s nsSecrets ?n) nsVersions
        (map fst (e_range e (mlist (mdel s nsSecrets ?n) nsVersions (?n @ ''/versions/''))))" "v' = v(?n := 0)"
    using it ok by (auto simp: secretItem_def ia Let_def Delete_cases
        split: if_splits meth.splits sum.splits option.splits)
  then show ?thesis
  proof cases
    case 1
    then show ?thesis using addVersion_inv [OF inv _ assms(3) i] assms(6) by blast
  next
    case 3
    have gone: "mem_lookup s' nsVersions k =
        (if prefix (?n @ ''/versions/'') k then None else mem_lookup s nsVersions k)" for k
    proof -
      have "k \<in> set (map fst (e_range e (mlist (mdel s nsSecrets ?n) nsVersions (?n @ ''/versions/'')))) \<longleftrightarrow>
          prefix (?n @ ''/versions/'') k \<and> mem_lookup s nsVersions k \<noteq> None"
        using e ok by (simp add: in_keys_mlist)
      then show ?thesis using ok by (auto simp: 3(1) simp del: set_map)
    qed
    have "\<exists>p i n. noslash p \<and> noslash i \<and> k = vname p i n \<and> 1 \<le> n \<and> int n \<le> v' (secretName p i)"
      if "mem_lookup s' nsVersions k \<noteq> None" for k
    proof -
      have np: "\<not> prefix (?n @ ''/versions/'') k" and "mem_lookup s nsVersions k \<noteq> None"
        using that gone [of k] by (auto split: if_splits)
      then obtain p' i' n where k: "noslash p'" "noslash i'" "k = vname p' i' n" "1 \<le> n"
        "int n \<le> v (secretName p' i')" using inv unfolding sm_inv_def by fastforce
      have "secretName p' i' \<noteq> ?n"
        using np k vname_prefix [OF assms(3) i k(1,2)] secretName_inj [OF k(1) assms(3)] by auto
      with k 3(2) show ?thesis by (intro exI [of _ p'] exI [of _ i'] exI [of _ n]) simp
    qed
    moreover have "mem_ok s'" using ok by (simp add: 3(1))
    ultimately show ?thesis using inv 3(2) by (auto simp: sm_inv_def)
  qed (use inv in simp)
qed

text \<open>A step is a request, its path split at the slashes, or a change of the store that adds no version.\<close>

inductive sm_step :: "mem \<times> verSeq \<Rightarrow> mem \<times> verSeq \<Rightarrow> bool" where
  sm_request: "env_ok e \<Longrightarrow> list_all noslash parts \<Longrightarrow> (\<And>n. v n < 2 ^ 63 - 1) \<Longrightarrow>
    sm_HandleV1 rfc e r parts s v = Some (resp, s', v') \<Longrightarrow> sm_step (s, v) (s', v')"
| sm_other: "mem_ok s' \<Longrightarrow>
    (\<And>k. mem_lookup s' nsVersions k \<noteq> None \<Longrightarrow> mem_lookup s nsVersions k \<noteq> None) \<Longrightarrow>
    sm_step (s, v) (s', v)"

definition sm_init :: "mem \<times> verSeq \<Rightarrow> bool" where
  "sm_init sv \<longleftrightarrow> mem_ok (fst sv) \<and> (\<forall>k. mem_lookup (fst sv) nsVersions k = None) \<and> snd sv = (\<lambda>_. 0)"

lemma sm_collection_inv:
  assumes "sm_inv (s, v)" "sm_collection rfc e r p s v = (resp, s', v')"
  shows "sm_inv (s', v')"
proof -
  have ok: "mem_ok s" using assms(1) by (simp add: sm_inv_def)
  have "v' = v \<and> (s' = s \<or> (\<exists>n d. s' = mput s nsSecrets n d))"
    using assms(2) by (auto simp: sm_collection_def Let_def split: meth.splits if_splits sum.splits)
  then show ?thesis using assms(1) ok by (auto intro: sm_inv_frame)
qed

lemma sm_step_inv:
  assumes "sm_step sv sv'" "sm_inv sv"
  shows "sm_inv sv'"
  using assms
proof (induction rule: sm_step.induct)
  case (sm_request e parts v rfc r s resp s' v')
  from sm_request(2,4) have ns: "length parts = 4 \<Longrightarrow> noslash (parts ! 1) \<and> noslash (parts ! 3)"
    by (simp add: list_all_length)
  consider "sm_collection rfc e r (parts ! 1) s v = (resp, s', v')"
    | "length parts = 4" "secretItem rfc e r (parts ! 1) (parts ! 3) s v = (resp, s', v')"
    | "s' = s" "v' = v"
    using sm_request(4) by (auto simp: sm_HandleV1_def sm_listVersions_def versionItem_def Let_def
        split: if_splits option.splits sum.splits meth.splits prod.splits)
  then show ?case
  proof cases
    case 1
    then show ?thesis using sm_collection_inv sm_request.prems by blast
  next
    case 2
    then show ?thesis using secretItem_inv [OF sm_request.prems sm_request(1)] ns sm_request(3) by blast
  qed (use sm_request.prems in simp)
next
  case (sm_other s' s v)
  then show ?case by (auto intro: sm_inv_frame)
qed

interpretation smm: machine sm_init sm_step sm_inv
  by unfold_locales (auto simp: sm_init_def sm_inv_def [of "(_, _)"] intro: sm_step_inv)

section \<open>Properties\<close>

lemma Max_insert_max: "finite A \<Longrightarrow> Max (insert (max h x) A) = Max (insert h (insert x A))" for h :: int
  by (cases "A = {}") (simp_all add: max.assoc)

lemma highest_version_Max:
  "highest_version pre ks = Max (insert 0 ((\<lambda>k. atoi_val (trimPrefix k pre)) ` set ks))"
proof -
  have "foldl (\<lambda>h k. let n = atoi_val (trimPrefix k pre) in if n > h then n else h) h ks =
      Max (insert h ((\<lambda>k. atoi_val (trimPrefix k pre)) ` set ks))" for h
  proof (induction ks arbitrary: h)
    case (Cons k ks)
    have "(if atoi_val (trimPrefix k pre) > h then atoi_val (trimPrefix k pre) else h) =
        max h (atoi_val (trimPrefix k pre))" by (simp add: max_def)
    with Cons show ?case
      by (simp only: foldl_Cons Let_def list.set image_insert Max_insert_max finite_imageI List.finite_set)
  qed simp
  then show ?thesis by (simp add: highest_version_def)
qed

lemma trimPrefix_append [simp]: "trimPrefix (a @ b) a = b"
  by (simp add: trimPrefix_def)

lemma atoi_vname: "n < 2 ^ 63 \<Longrightarrow> atoi_val (trimPrefix (vname p i n) (secretName p i @ ''/versions/'')) = int n"
  using trimPrefix_append [of "secretName p i @ ''/versions/''" "itoa n"]
  by (simp add: vname_def atoi_val_itoa)

lemma resolve_latest:
  assumes inv: "sm_inv (s, v)" and e: "env_ok e" and ns: "noslash p" "noslash i"
    and top: "mem_lookup s nsVersions (vname p i n) \<noteq> None" "v (secretName p i) = int n"
    and n: "1 \<le> n" "n < 2 ^ 63"
  shows "resolve_version e s (secretName p i) ''latest'' = Some (itoa n)"
proof -
  let ?pre = "secretName p i @ ''/versions/''"
  let ?ks = "map fst (e_range e (mlist s nsVersions ?pre))"
  let ?f = "\<lambda>k. atoi_val (trimPrefix k ?pre)"
  have ok: "mem_ok s" using inv by (simp add: sm_inv_def)
  have ks: "k \<in> set ?ks \<longleftrightarrow> prefix ?pre k \<and> mem_lookup s nsVersions k \<noteq> None" for k
    using e ok by (simp add: in_keys_mlist)
  have "?f k \<le> int n" if "k \<in> set ?ks" for k
  proof -
    from that ks have "prefix ?pre k" "mem_lookup s nsVersions k \<noteq> None" by blast+
    then obtain p' i' m where k: "noslash p'" "noslash i'" "k = vname p' i' m" "1 \<le> m"
      "int m \<le> v (secretName p' i')" using inv unfolding sm_inv_def by fastforce
    with \<open>prefix ?pre k\<close> vname_prefix [OF ns k(1,2)] have "p' = p" "i' = i" by auto
    with k top n show ?thesis by (simp add: atoi_vname)
  qed
  moreover have "vname p i n \<in> set ?ks"
    using ks top(1) by (simp add: vname_def)
  moreover have "?f (vname p i n) = int n" using atoi_vname [OF n(2)] .
  ultimately have "Max (insert 0 (?f ` set ?ks)) = int n"
    using n(1) by (intro Max_eqI) (auto simp del: set_map intro: rev_image_eqI)
  then show ?thesis
    using n(1) by (simp add: resolve_version_def Let_def highest_version_Max itoai_def)
qed

definition payload_json :: "string \<Rightarrow> json" where
  "payload_json x = JObj [(''payload'', JObj [(''data'', JStr x)])]"


text \<open>
  C18: deleting an existing secret removes the secret and all of its versions, and nothing
  else of the store, and its numbering starts again.
\<close>

theorem secret_delete_cascades:
  assumes "env_ok e" "mem_ok s" "Get s nsSecrets (secretName p i) = Inr d" "CHR '':'' \<notin> set i"
    and "r_method r = DELETE"
  shows "\<exists>s'. sm_HandleV1 rfc e r [''projects'', p, ''secrets'', i] s v =
      Some (header_only 204, s', v(secretName p i := 0)) \<and>
    mem_lookup s' ns k = (if ns = nsSecrets \<and> k = secretName p i \<or>
        ns = nsVersions \<and> prefix (secretName p i @ ''/versions/'') k then None else mem_lookup s ns k)"
proof -
  let ?nm = "secretName p i"
  let ?s1 = "mdel s nsSecrets ?nm"
  let ?ks = "map fst (e_range e (mlist ?s1 nsVersions (?nm @ ''/versions/'')))"
  have sp: "splitAction i = (i, [])" using assms(4) by (simp add: splitAction_def cut_last_None)
  have some: "mem_lookup s nsSecrets ?nm = Some d"
    using assms(3) by (simp add: Get_lookup split: option.splits)
  have "sm_HandleV1 rfc e r [''projects'', p, ''secrets'', i] s v =
      Some (header_only 204, delete_all ?s1 nsVersions ?ks, v(?nm := 0))"
    using assms(2,5) some
    by (simp add: sm_HandleV1_def secretItem_def sp Delete_cases Let_def eval_nat_numeral)
  moreover have "k \<in> set ?ks \<longleftrightarrow> prefix (?nm @ ''/versions/'') k \<and> mem_lookup s nsVersions k \<noteq> None"
    using assms(1,2) by (simp add: in_keys_mlist)
  ultimately show ?thesis using assms(2) by (auto simp del: set_map)
qed

text \<open>
  The counters are not restored at a restart.  A fresh service over a store that already
  holds version 1 of a secret gives the next payload number 1 again, and the stored payload of
  version 1 is replaced.
\<close>

theorem secret_restart_overwrites_version_1:
  assumes "mem_ok s" "Get s nsSecrets (secretName p i) = Inr d"
    and "r_method r = POST" "r_json r = Some (payload_json x)"
  shows "\<exists>resp s' v'.
    sm_HandleV1 rfc e r [''projects'', p, ''secrets'', i @ '':addVersion''] s (\<lambda>_. 0) = Some (resp, s', v') \<and>
    rs_code resp = 200 \<and> mem_lookup s' nsVersions (vname p i 1) =
      Some (JsonB (enc_stored_version \<lparr>ver_Name = vname p i 1, ver_CreateTime = e_now e 0,
        ver_State = ''ENABLED'', ver_PayloadB64 = x\<rparr>))"
proof -
  have "splitAction (i @ '':addVersion'') = (i, ''addVersion'')"
    using cut_last_append [of "CHR '':''" "''addVersion''" i] by (simp add: splitAction_def)
  then show ?thesis
    using assms by (simp add: sm_HandleV1_def secretItem_def addVersion_def payload_json_def fld_doc_def
        fld_str_def eqFold_def Let_def vname_def wrap64_def itoai_def eval_nat_numeral)
qed

subsection \<open>A project with one secret\<close>

definition sm_req :: "meth \<Rightarrow> http_req" where
  "sm_req m = \<lparr>r_method = m, r_path = [], r_query = [], r_header = [], r_host = [], r_tls = False,
     r_contentLength = 0, r_bytes = [], r_json = Some (payload_json ''czNjcmV0'')\<rparr>"

definition sm_env :: go_env where
  "sm_env = \<lparr>e_now = (\<lambda>_. 7), e_range = rev\<rparr>"

definition sm_mem :: mem where
  "sm_mem = mput NewMemory nsSecrets (secretName ''p'' ''db'')
     (JsonB (enc_secret \<lparr>sec_Name = secretName ''p'' ''db'', sec_CreateTime = 7, sec_Labels = []\<rparr>))"

lemma sm_mem_facts: "env_ok sm_env" "mem_ok sm_mem" "\<exists>d. Get sm_mem nsSecrets (secretName ''p'' ''db'') = Inr d"
  by (simp_all add: sm_env_def env_ok_def sm_mem_def Get_lookup)

lemma sm_mem_reach: "reach sm_init sm_step (sm_mem, \<lambda>_. 0)"
  by (rule reach_init) (simp add: sm_init_def sm_mem_facts, simp add: sm_mem_def NewMemory_def mem_lookup_def mput_def bucket_of_def)


theorem secret_delete_cascades_witness:
  "\<exists>s'. sm_HandleV1 (\<lambda>_. None) sm_env (sm_req DELETE) [''projects'', ''p'', ''secrets'', ''db''] sm_mem (\<lambda>_. 1) =
      Some (header_only 204, s', (\<lambda>_. 1)(secretName ''p'' ''db'' := 0)) \<and>
    mem_lookup s' nsSecrets (secretName ''p'' ''db'') = None"
proof -
  obtain d where d: "Get sm_mem nsSecrets (secretName ''p'' ''db'') = Inr d" using sm_mem_facts(3) by blast
  show ?thesis
    using secret_delete_cascades [OF sm_mem_facts(1,2) d, of "sm_req DELETE" "\<lambda>_. None" "\<lambda>_. 1" nsSecrets
        "secretName ''p'' ''db''"]
    by (auto simp: sm_req_def)
qed

theorem secret_restart_overwrites_version_1_witness:
  "\<exists>resp s' v'. sm_HandleV1 (\<lambda>_. None) sm_env (sm_req POST) [''projects'', ''p'', ''secrets'', ''db'' @ '':addVersion'']
      sm_mem (\<lambda>_. 0) = Some (resp, s', v') \<and> rs_code resp = 200"
proof -
  obtain d where d: "Get sm_mem nsSecrets (secretName ''p'' ''db'') = Inr d" using sm_mem_facts(3) by blast
  show ?thesis
    using secret_restart_overwrites_version_1 [OF sm_mem_facts(2) d, of "sm_req POST" "''czNjcmV0''" "\<lambda>_. None" sm_env]
    by (auto simp: sm_req_def)
qed

end
