(* ===== verification/Cloud_Tasks.thy ===== *)
theory Cloud_Tasks
  imports Resource_Codec Httpresp Go_Base64
begin

text \<open>
  Service \<^verbatim>\<open>internal/services/tasks\<close>: queues and tasks in the store, the dispatch of HTTP tasks with its
  retries, and the console functions.  A task with an HTTP request is handed to a goroutine; the
  goroutines that have not run yet are the list \<open>tk_pending\<close> of the service state.
\<close>

section \<open>Data\<close>

definition nsQueues :: string where "nsQueues = ''tasks/queues''"
definition nsTasks :: string where "nsTasks = ''tasks/tasks''"

lemmas [ns_defs] = nsQueues_def nsTasks_def

record queueResource =
  q_Name :: string

record httpRequest =
  hr_URL :: string
  hr_HTTPMethod :: string
  hr_Headers :: "(string \<times> string) list"
  hr_Body :: string

record taskResource =
  t_Name :: string
  t_HTTPRequest :: "httpRequest option"
  t_CreateTime :: time
  t_ScheduleTime :: time

record tasks_state =
  tk_taskSeq :: nat
  tk_pending :: "taskResource list"

definition enc_queue :: "queueResource \<Rightarrow> json" where
  "enc_queue q = JObj [(''name'', JStr (q_Name q))]"

definition dec_queue :: "json \<Rightarrow> queueResource \<times> bool" where
  "dec_queue j = (let (n, ok) = fld_str ''name'' j in (\<lparr>q_Name = n\<rparr>, is_struct_doc j \<and> ok))"

definition enc_httpRequest :: "httpRequest \<Rightarrow> json" where
  "enc_httpRequest h = JObj ([(''url'', JStr (hr_URL h)), (''httpMethod'', JStr (hr_HTTPMethod h))] @
     omit (hr_Headers h = []) ''headers'' (jstrmap (hr_Headers h)) @
     omit (hr_Body h = []) ''body'' (JStr (hr_Body h)))"

definition dec_httpRequest :: "json \<Rightarrow> httpRequest \<times> bool" where
  "dec_httpRequest j = (let (u, ok1) = fld_str ''url'' j; (m, ok2) = fld_str ''httpMethod'' j;
       (h, ok3) = fld_strmap ''headers'' j; (b, ok4) = fld_str ''body'' j in
     (\<lparr>hr_URL = u, hr_HTTPMethod = m, hr_Headers = (case h of None \<Rightarrow> [] | Some x \<Rightarrow> x), hr_Body = b\<rparr>,
      is_struct_doc j \<and> ok1 \<and> ok2 \<and> ok3 \<and> ok4))"

definition enc_task :: "taskResource \<Rightarrow> json" where
  "enc_task t = JObj ([(''name'', JStr (t_Name t))] @
     (case t_HTTPRequest t of None \<Rightarrow> [] | Some h \<Rightarrow> [(''httpRequest'', enc_httpRequest h)]) @
     [(''createTime'', JTime (t_CreateTime t)), (''scheduleTime'', JTime (t_ScheduleTime t))])"

definition dec_httpRequest_ptr :: "json option \<Rightarrow> httpRequest option \<times> bool" where
  "dec_httpRequest_ptr jo = (case jo of None \<Rightarrow> (None, True) | Some JNull \<Rightarrow> (None, True)
     | Some j \<Rightarrow> (let (h, ok) = dec_httpRequest j in (Some h, ok)))"

definition dec_task :: "(string \<Rightarrow> time option) \<Rightarrow> json \<Rightarrow> taskResource \<times> bool" where
  "dec_task rfc j = (let (n, ok1) = fld_str ''name'' j;
       (h, ok2) = dec_httpRequest_ptr (jget ''httpRequest'' j);
       (c, ok3) = fld_time rfc ''createTime'' j; (st, ok4) = fld_time rfc ''scheduleTime'' j in
     (\<lparr>t_Name = n, t_HTTPRequest = h, t_CreateTime = c, t_ScheduleTime = st\<rparr>,
      is_struct_doc j \<and> ok1 \<and> ok2 \<and> ok3 \<and> ok4))"

fun unmarshal_queue :: "blob \<Rightarrow> queueResource \<times> bool" where
  "unmarshal_queue (JsonB j) = dec_queue j"
| "unmarshal_queue (RawB _) = (\<lparr>q_Name = []\<rparr>, False)"

fun unmarshal_task :: "(string \<Rightarrow> time option) \<Rightarrow> blob \<Rightarrow> taskResource \<times> bool" where
  "unmarshal_task rfc (JsonB j) = dec_task rfc j"
| "unmarshal_task rfc (RawB _) =
     (\<lparr>t_Name = [], t_HTTPRequest = None, t_CreateTime = 0, t_ScheduleTime = 0\<rparr>, False)"

definition queueName :: "string \<Rightarrow> string \<Rightarrow> string \<Rightarrow> string" where
  "queueName project loc i = ''projects/'' @ project @ ''/locations/'' @ loc @ ''/queues/'' @ i"

section \<open>Dispatch\<close>

definition maxAttempts :: nat where "maxAttempts = 5"
definition baseBackoff :: int where "baseBackoff = 100 * 1000000"
definition maxBackoff :: int where "maxBackoff = 30 * 1000000000"

definition backoffFor :: "int \<Rightarrow> int" where
  "backoffFor attempts =
     (let shift = attempts - 1;
          shift = (if shift < 0 then 0 else shift);
          shift = (if shift > 30 then 30 else shift);
          d = wrap64 (baseBackoff * 2 ^ nat shift)
      in if d \<le> 0 \<or> d > maxBackoff then maxBackoff else d)"

text \<open>
  The world as one dispatch sees it: whether the service is still running before an attempt,
  whether \<^verbatim>\<open>http.NewRequestWithContext\<close> accepts the method and URL, the status code of an attempt
  (nothing for a transport error), and whether a sleep after it ended without a shutdown.
\<close>

record dispatch_world =
  dw_alive :: "nat \<Rightarrow> bool"
  dw_newRequest :: "string \<Rightarrow> string \<Rightarrow> bool"
  dw_do :: "nat \<Rightarrow> nat option"
  dw_sleep :: "nat \<Rightarrow> bool"

datatype dispatch_event = Sent nat | Slept int

definition success :: "nat option \<Rightarrow> bool" where
  "success st = (case st of None \<Rightarrow> False | Some c \<Rightarrow> 200 \<le> c \<and> c < 400)"

definition retryable :: "nat option \<Rightarrow> bool" where
  "retryable st = (case st of None \<Rightarrow> True | Some c \<Rightarrow> 500 \<le> c \<and> c < 600)"

function attempt_loop :: "dispatch_world \<Rightarrow> string \<Rightarrow> string \<Rightarrow> nat \<Rightarrow> dispatch_event list" where
  "attempt_loop w m u attempt =
     (if attempt > maxAttempts then []
      else if \<not> dw_alive w attempt then []
      else if \<not> dw_newRequest w m u then []
      else Sent attempt #
        (if success (dw_do w attempt) then []
         else if \<not> retryable (dw_do w attempt) \<or> attempt = maxAttempts then []
         else Slept (backoffFor (int attempt)) #
           (if \<not> dw_sleep w attempt then [] else attempt_loop w m u (attempt + 1))))"
  by pat_completeness auto
termination by (relation "measure (\<lambda>(_, _, _, a). Suc maxAttempts - a)") (auto simp: maxAttempts_def)

declare attempt_loop.simps [simp del]

text \<open>The deferred deletion runs on every return after the request is known to be complete.\<close>

definition dispatchHTTP :: "dispatch_world \<Rightarrow> taskResource \<Rightarrow> mem \<Rightarrow> dispatch_event list \<times> mem" where
  "dispatchHTTP w t s = (case t_HTTPRequest t of None \<Rightarrow> ([], s)
     | Some h \<Rightarrow> if hr_URL h = [] then ([], s)
       else let m = (if hr_HTTPMethod h = [] then ''POST'' else hr_HTTPMethod h) in
         (attempt_loop w m (hr_URL h) 1,
          case Delete s nsTasks (t_Name t) of Inl _ \<Rightarrow> s | Inr s' \<Rightarrow> s'))"

text \<open>
  The goroutine of the \<open>i\<close>-th pending task: it waits for the schedule time, which fails on a
  shutdown (\<open>woken\<close> false), and dispatches.
\<close>

definition run_task :: "dispatch_world \<Rightarrow> bool \<Rightarrow> time \<Rightarrow> nat \<Rightarrow> mem \<Rightarrow> tasks_state \<Rightarrow> mem \<times> tasks_state" where
  "run_task w woken now i s ts =
     (if i < length (tk_pending ts)
      then let t = tk_pending ts ! i;
               ts' = ts\<lparr>tk_pending := take i (tk_pending ts) @ drop (Suc i) (tk_pending ts)\<rparr>
           in if t_ScheduleTime t - now > 0 \<and> \<not> woken then (s, ts') else (snd (dispatchHTTP w t s), ts')
      else (s, ts))"

section \<open>Handlers\<close>

type_synonym tk_result = "http_resp \<times> mem \<times> tasks_state"

definition queueCollection :: "go_env \<Rightarrow> http_req \<Rightarrow> string \<Rightarrow> string \<Rightarrow> mem \<Rightarrow> tasks_state \<Rightarrow> tk_result" where
  "queueCollection e r project loc s ts = (case r_method r of
     POST \<Rightarrow> (case r_json r of None \<Rightarrow> (respErr 400 ''invalid json'', s, ts)
       | Some j \<Rightarrow> (let (i, ok) = fld_str ''name'' j in
           if \<not> (is_struct_doc j \<and> ok) then (respErr 400 ''invalid json'', s, ts)
           else let name = queueName project loc (lastSegment i) in
             (case Get s nsQueues name of Inr _ \<Rightarrow> (respErr 409 ''queue exists'', s, ts)
              | Inl _ \<Rightarrow> (case Put s nsQueues name (JsonB (enc_queue \<lparr>q_Name = name\<rparr>)) of
                  Inl er \<Rightarrow> (respErr 500 (err_text er), s, ts)
                | Inr s' \<Rightarrow> (respJSON 200 (enc_queue \<lparr>q_Name = name\<rparr>), s', ts)))))
   | GET \<Rightarrow> (let all = (case List s nsQueues (''projects/'' @ project @ ''/locations/'' @ loc @ ''/queues/'') of
           Inl _ \<Rightarrow> [] | Inr l \<Rightarrow> l)
       in (respJSON 200 (JObj [(''queues'', JArr (concat (map (\<lambda>(_, d).
             let (q, ok) = unmarshal_queue d in if ok then [enc_queue q] else []) (e_range e all))))]), s, ts))
   | _ \<Rightarrow> (methodNotAllowed, s, ts))"

definition queueItem :: "http_req \<Rightarrow> string \<Rightarrow> string \<Rightarrow> string \<Rightarrow> mem \<Rightarrow> tasks_state \<Rightarrow> tk_result" where
  "queueItem r project loc i s ts = (let name = queueName project loc i in
     (case r_method r of
        GET \<Rightarrow> (case Get s nsQueues name of
            Inl er \<Rightarrow> if er = ErrNotFound then (respErr 404 ''queue not found'', s, ts)
              else (write_raw (RawB []), s, ts)
          | Inr d \<Rightarrow> (write_raw d, s, ts))
      | DELETE \<Rightarrow> (case Delete s nsQueues name of Inl _ \<Rightarrow> (respErr 404 ''queue not found'', s, ts)
          | Inr s' \<Rightarrow> (header_only 204, s', ts))
      | _ \<Rightarrow> (methodNotAllowed, s, ts)))"

definition taskCollection :: "(string \<Rightarrow> time option) \<Rightarrow> go_env \<Rightarrow> http_req \<Rightarrow> string \<Rightarrow> string \<Rightarrow> string \<Rightarrow> mem
    \<Rightarrow> tasks_state \<Rightarrow> tk_result" where
  "taskCollection rfc e r project loc i s ts = (let qName = queueName project loc i in
     (case Get s nsQueues qName of Inl _ \<Rightarrow> (respErr 404 ''queue not found'', s, ts)
      | Inr _ \<Rightarrow> (case r_method r of
          POST \<Rightarrow> (case r_json r of None \<Rightarrow> (respErr 400 ''invalid json'', s, ts)
            | Some j \<Rightarrow> (let (t, ok) = dec_task rfc (fld_doc ''task'' j) in
                if \<not> (is_struct_doc j \<and> ok) then (respErr 400 ''invalid json'', s, ts)
                else
                  let sq = u64_inc (tk_taskSeq ts);
                      t = t\<lparr>t_Name := qName @ ''/tasks/task-'' @ itoa sq, t_CreateTime := e_now e 0\<rparr>;
                      ts' = ts\<lparr>tk_taskSeq := sq\<rparr>
                  in (case Put s nsTasks (t_Name t) (JsonB (enc_task t)) of
                        Inl er \<Rightarrow> (respErr 500 (err_text er), s, ts')
                      | Inr s' \<Rightarrow> (respJSON 200 (enc_task t), s',
                          if t_HTTPRequest t \<noteq> None then ts'\<lparr>tk_pending := tk_pending ts' @ [t]\<rparr> else ts'))))
        | GET \<Rightarrow> (let all = (case List s nsTasks (qName @ ''/tasks/'') of Inl _ \<Rightarrow> [] | Inr l \<Rightarrow> l)
            in (respJSON 200 (JObj [(''tasks'', JArr (concat (map (\<lambda>(_, d).
                  let (t, ok) = unmarshal_task rfc d in if ok then [enc_task t] else []) (e_range e all))))]), s, ts))
        | _ \<Rightarrow> (methodNotAllowed, s, ts))))"

definition taskItem :: "http_req \<Rightarrow> string \<Rightarrow> string \<Rightarrow> string \<Rightarrow> string \<Rightarrow> mem \<Rightarrow> tasks_state \<Rightarrow> tk_result" where
  "taskItem r project loc i t s ts = (let name = queueName project loc i @ ''/tasks/'' @ t in
     (case r_method r of
        GET \<Rightarrow> (case Get s nsTasks name of Inl _ \<Rightarrow> (respErr 404 ''task not found'', s, ts)
          | Inr d \<Rightarrow> (write_raw d, s, ts))
      | DELETE \<Rightarrow> (case Delete s nsTasks name of Inl _ \<Rightarrow> (respErr 404 ''task not found'', s, ts)
          | Inr s' \<Rightarrow> (header_only 204, s', ts))
      | _ \<Rightarrow> (methodNotAllowed, s, ts)))"

definition tasks_HandleV2 :: "(string \<Rightarrow> time option) \<Rightarrow> go_env \<Rightarrow> http_req \<Rightarrow> string list \<Rightarrow> mem \<Rightarrow> tasks_state
    \<Rightarrow> tk_result option" where
  "tasks_HandleV2 rfc e r parts s ts =
     (if length parts < 5 \<or> parts ! 2 \<noteq> ''locations'' \<or> parts ! 4 \<noteq> ''queues'' then None
      else if length parts = 5 then Some (queueCollection e r (parts ! 1) (parts ! 3) s ts)
      else if length parts = 6 then Some (queueItem r (parts ! 1) (parts ! 3) (parts ! 5) s ts)
      else if length parts = 7
      then (if parts ! 6 = ''tasks''
            then Some (taskCollection rfc e r (parts ! 1) (parts ! 3) (parts ! 5) s ts) else None)
      else if length parts = 8
      then (if parts ! 6 = ''tasks''
            then Some (taskItem r (parts ! 1) (parts ! 3) (parts ! 5) (parts ! 7) s ts) else None)
      else None)"

section \<open>Console\<close>

definition ConsoleQueues :: "go_env \<Rightarrow> mem \<Rightarrow> store_err + (string \<times> string) list" where
  "ConsoleQueues e s = (case List s nsQueues [] of Inl er \<Rightarrow> Inl er
     | Inr all \<Rightarrow> Inr (sort_key fst (concat (map (\<lambda>(_, d). let (q, ok) = unmarshal_queue d in
         if \<not> ok then [] else [(q_Name q, lastSegment (q_Name q))]) (e_range e all)))))"

definition ConsoleTasks :: "(string \<Rightarrow> time option) \<Rightarrow> go_env \<Rightarrow> mem \<Rightarrow> string
    \<Rightarrow> store_err + (string \<times> string \<times> time \<times> time \<times> (string \<times> string) option) list" where
  "ConsoleTasks rfc e s queue = (case List s nsTasks (queue @ ''/tasks/'') of Inl er \<Rightarrow> Inl er
     | Inr all \<Rightarrow> Inr (sort_key fst (concat (map (\<lambda>(_, d). let (t, ok) = unmarshal_task rfc d in
         if \<not> ok then []
         else [(t_Name t, lastSegment (t_Name t), t_CreateTime t, t_ScheduleTime t,
                map_option (\<lambda>h. (hr_URL h, hr_HTTPMethod h)) (t_HTTPRequest t))]) (e_range e all)))))"

section \<open>Properties\<close>

definition clamp_shift :: "int \<Rightarrow> nat" where
  "clamp_shift a = nat (min 30 (max 0 (a - 1)))"

lemma backoffFor_eq: "backoffFor a = min maxBackoff (baseBackoff * 2 ^ clamp_shift a)"
proof -
  let ?k = "clamp_shift a"
  have shift: "nat (if (if a - 1 < 0 then 0 else a - 1) > 30 then 30 else (if a - 1 < 0 then 0 else a - 1)) = ?k"
    unfolding clamp_shift_def by (rule arg_cong [where f = nat]) auto
  have "?k \<le> 30" by (simp add: clamp_shift_def)
  then have "(2::int) ^ ?k \<le> 2 ^ 30" by (rule power_increasing) simp
  then have "baseBackoff * 2 ^ ?k < 2 ^ 63" by (simp add: baseBackoff_def)
  moreover have pos: "0 < baseBackoff * 2 ^ ?k" by (simp add: baseBackoff_def)
  ultimately have "in_int64 (baseBackoff * 2 ^ ?k)" unfolding in_int64_def by linarith
  with pos show ?thesis
    unfolding backoffFor_def Let_def shift by (simp only: wrap64_id) auto
qed

text \<open>
  C40: the delay before the next attempt is 100 ms after the first failure and doubles with each
  one (exactly so for the nine first), never decreases, and stays between 100 ms and 30 s for
  every number of failures.
\<close>

theorem backoff_doubles_and_is_bounded:
  "baseBackoff \<le> backoffFor a \<and> backoffFor a \<le> maxBackoff \<and>
   (a \<le> b \<longrightarrow> backoffFor a \<le> backoffFor b) \<and>
   (1 \<le> a \<and> a \<le> 9 \<longrightarrow> backoffFor a = baseBackoff * 2 ^ nat (a - 1))"
proof (intro conjI impI)
  show "baseBackoff \<le> backoffFor a"
    using one_le_power [of "2 :: int" "clamp_shift a"] by (simp add: backoffFor_eq baseBackoff_def maxBackoff_def)
  show "backoffFor a \<le> maxBackoff" by (simp add: backoffFor_eq)
next
  assume "a \<le> b"
  then have "clamp_shift a \<le> clamp_shift b" by (simp add: clamp_shift_def)
  then have "(2::int) ^ clamp_shift a \<le> 2 ^ clamp_shift b" by (rule power_increasing) simp
  then show "backoffFor a \<le> backoffFor b"
    by (simp add: backoffFor_eq baseBackoff_def min_le_iff_disj)
next
  assume a: "1 \<le> a \<and> a \<le> 9"
  then have "clamp_shift a = nat (a - 1)" "nat (a - 1) \<le> 8" unfolding clamp_shift_def by arith+
  moreover from this(2) have "(2::int) ^ nat (a - 1) \<le> 2 ^ 8" by (rule power_increasing) simp
  ultimately show "backoffFor a = baseBackoff * 2 ^ nat (a - 1)"
    by (simp add: backoffFor_eq baseBackoff_def maxBackoff_def min_def)
qed

theorem backoff_doubles_and_is_bounded_witness:
  "backoffFor 3 \<le> backoffFor 4 \<and> backoffFor 4 = 800000000 \<and> backoffFor 20 \<le> 30000000000"
  using backoff_doubles_and_is_bounded [of 3 4] backoff_doubles_and_is_bounded [of 4 4]
    backoff_doubles_and_is_bounded [of 20 20]
  by (simp add: baseBackoff_def maxBackoff_def)

fun attempts_of :: "dispatch_event list \<Rightarrow> nat list" where
  "attempts_of [] = []"
| "attempts_of (Sent i # es) = i # attempts_of es"
| "attempts_of (Slept _ # es) = attempts_of es"

lemma attempts_consecutive:
  assumes "a \<le> Suc maxAttempts"
  shows "\<exists>n. a + n \<le> Suc maxAttempts \<and> attempts_of (attempt_loop w m u a) = [a..<a + n]"
  using assms
proof (induction w m u a rule: attempt_loop.induct)
  case (1 w m u a)
  let ?go = "a \<le> maxAttempts \<and> dw_alive w a \<and> dw_newRequest w m u"
  let ?more = "\<not> success (dw_do w a) \<and> retryable (dw_do w a) \<and> a \<noteq> maxAttempts \<and> dw_sleep w a"
  show ?case
  proof (cases "?go \<and> ?more")
    case True
    with 1 obtain n where n: "a + 1 + n \<le> Suc maxAttempts"
        "attempts_of (attempt_loop w m u (a + 1)) = [a + 1..<a + 1 + n]" by auto
    have "attempts_of (attempt_loop w m u a) = a # attempts_of (attempt_loop w m u (a + 1))"
      using True by (subst attempt_loop.simps) simp
    also have "\<dots> = [a..<a + Suc n]" unfolding n(2) by (subst upt_conv_Cons) auto
    finally show ?thesis using n(1) by (intro exI [of _ "Suc n"]) simp
  next
    case False
    then have "attempts_of (attempt_loop w m u a) = (if ?go then [a] else [])"
      by (subst attempt_loop.simps) auto
    then show ?thesis
      using "1.prems" by (intro exI [of _ "if ?go then 1 else 0"]) (auto simp: upt_conv_Cons)
  qed
qed

text \<open>
  C19: whatever the endpoint, the network or a shutdown does, the dispatch of a task with a URL
  makes consecutively numbered attempts, at most five, and in the end the task is gone from the store,
  which is otherwise unchanged.
\<close>

theorem dispatch_settles_task:
  assumes "mem_ok s" "t_HTTPRequest t = Some h" "hr_URL h \<noteq> []"
  shows "\<exists>n evs s'. dispatchHTTP w t s = (evs, s') \<and> n \<le> 5 \<and> attempts_of evs = [1..<Suc n] \<and>
    mem_lookup s' = upd2 (mem_lookup s) nsTasks (t_Name t) None"
proof -
  let ?m = "if hr_HTTPMethod h = [] then ''POST'' else hr_HTTPMethod h"
  obtain n where "1 + n \<le> Suc maxAttempts" "attempts_of (attempt_loop w ?m (hr_URL h) 1) = [1..<1 + n]"
    using attempts_consecutive [of 1 w ?m "hr_URL h"] by (auto simp: maxAttempts_def)
  moreover have "dispatchHTTP w t s = (attempt_loop w ?m (hr_URL h) 1, mdel s nsTasks (t_Name t))"
    using assms(2,3) by (simp add: dispatchHTTP_def mdel_def)
  ultimately show ?thesis using assms(1) by (auto simp: maxAttempts_def)
qed

text \<open>
  On a service that keeps running, retryable failures (transport errors and 5xx) are retried after
  the back-off of their number, until the first attempt whose answer is not retryable or until the
  fifth, which is the last.
\<close>

theorem dispatch_retries_with_backoff:
  assumes "\<And>i. dw_alive w i" "\<And>i. dw_sleep w i" "dw_newRequest w m u"
    and "1 \<le> k" "k \<le> 5" "\<And>i. 1 \<le> i \<Longrightarrow> i < k \<Longrightarrow> retryable (dw_do w i)"
    and "k = 5 \<or> \<not> retryable (dw_do w k)"
  shows "attempt_loop w m u 1 = concat (map (\<lambda>i. [Sent i, Slept (backoffFor (int i))]) [1..<k]) @ [Sent k]"
proof -
  have succ: "retryable st \<Longrightarrow> \<not> success st" for st
    by (auto simp: retryable_def success_def split: option.splits)
  have "a \<le> k \<Longrightarrow> 1 \<le> a \<Longrightarrow> attempt_loop w m u a =
      concat (map (\<lambda>i. [Sent i, Slept (backoffFor (int i))]) [a..<k]) @ [Sent k]" for a
  proof (induction "k - a" arbitrary: a)
    case 0
    then have "a = k" by simp
    with assms(1,3,5,7) show ?case by (subst attempt_loop.simps) (auto simp: maxAttempts_def)
  next
    case (Suc x)
    then have lt: "a < k" by simp
    have "attempt_loop w m u a = [Sent a, Slept (backoffFor (int a))] @ attempt_loop w m u (a + 1)"
      using lt Suc.prems assms succ [OF assms(6) [of a]]
      by (subst attempt_loop.simps) (auto simp: maxAttempts_def)
    also have "attempt_loop w m u (a + 1) =
        concat (map (\<lambda>i. [Sent i, Slept (backoffFor (int i))]) [a + 1..<k]) @ [Sent k]"
      using Suc lt by (intro Suc.hyps(1)) auto
    finally show ?case using lt by (subst upt_conv_Cons) simp_all
  qed
  then show ?thesis using assms(4) by simp
qed

definition flaky :: dispatch_world where
  "flaky = \<lparr>dw_alive = (\<lambda>_. True), dw_newRequest = (\<lambda>_ _. True),
     dw_do = (\<lambda>i. if i = 1 then None else if i = 2 then Some 503 else Some 200), dw_sleep = (\<lambda>_. True)\<rparr>"

theorem dispatch_retries_with_backoff_witness:
  "attempt_loop flaky ''POST'' ''http://x'' 1 =
    [Sent 1, Slept 100000000, Sent 2, Slept 200000000, Sent 3]"
proof -
  have b: "backoffFor (int 1) = 100000000" "backoffFor (int 2) = 200000000"
    by (simp_all add: backoffFor_eq clamp_shift_def baseBackoff_def maxBackoff_def)
  have "[1..<3] = [1::nat, 2]" by (simp add: upt_rec)
  then show ?thesis
    using dispatch_retries_with_backoff [of flaky "''POST''" "''http://x''" 3] b
    by (simp add: flaky_def retryable_def)
qed

definition demo_task :: taskResource where
  "demo_task = \<lparr>t_Name = ''q/tasks/task-1'', t_HTTPRequest = Some \<lparr>hr_URL = ''http://x'', hr_HTTPMethod = [],
     hr_Headers = [], hr_Body = []\<rparr>, t_CreateTime = 0, t_ScheduleTime = 0\<rparr>"

theorem dispatch_settles_task_witness:
  "\<exists>evs s'. dispatchHTTP flaky demo_task (mput NewMemory nsTasks ''q/tasks/task-1'' (JsonB (enc_task demo_task))) =
      (evs, s') \<and> mem_lookup s' nsTasks ''q/tasks/task-1'' = None"
proof -
  obtain h where h: "t_HTTPRequest demo_task = Some h" "hr_URL h \<noteq> []" by (simp add: demo_task_def)
  show ?thesis
    using dispatch_settles_task [OF _ h, of "mput NewMemory nsTasks ''q/tasks/task-1'' (JsonB (enc_task demo_task))" flaky]
    by (fastforce simp: demo_task_def)
qed

end
