(* ===== verification/Cloud_Scheduler.thy ===== *)
theory Cloud_Scheduler
  imports Resource_Codec Httpresp Go_Base64
begin

text \<open>
  Service \<^verbatim>\<open>internal/services/scheduler\<close>: cron jobs in the store and one runner goroutine per job.
  The cron package is a parameter: whether a specification parses, and the next time of a
  schedule, which is represented by its specification.
\<close>

section \<open>Data\<close>

definition nsJobs :: string where "nsJobs = ''scheduler/jobs''"

lemmas [ns_defs] = nsJobs_def

record httpTarget =
  ht_URI :: string
  ht_HTTPMethod :: string
  ht_Headers :: "(string \<times> string) list"
  ht_Body :: string

record jobResource =
  j_Name :: string
  j_Schedule :: string
  j_HTTPTarget :: "httpTarget option"
  j_State :: string

record cron_lib =
  cl_Parse :: "string \<Rightarrow> bool"
  cl_Next :: "string \<Rightarrow> time \<Rightarrow> time"

text \<open>
  A runner with the job it was started for and its schedule.  \<open>sc_jobs\<close> is the map \<^verbatim>\<open>jobs\<close> from a job name
  to its runner, \<open>sc_runners\<close> the goroutines that were started.
\<close>

record runner =
  rn_job :: jobResource
  rn_sched :: string
  rn_cancelled :: bool

record scheduler =
  sc_jobs :: "(string \<times> nat) list"
  sc_runners :: "(nat \<times> runner) list"
  sc_next :: nat
  sc_stopped :: bool

definition enc_httpTarget :: "httpTarget \<Rightarrow> json" where
  "enc_httpTarget h = JObj ([(''uri'', JStr (ht_URI h)), (''httpMethod'', JStr (ht_HTTPMethod h))] @
     omit (ht_Headers h = []) ''headers'' (jstrmap (ht_Headers h)) @
     omit (ht_Body h = []) ''body'' (JStr (ht_Body h)))"

definition dec_httpTarget :: "json \<Rightarrow> httpTarget \<times> bool" where
  "dec_httpTarget j = (let (u, ok1) = fld_str ''uri'' j; (m, ok2) = fld_str ''httpMethod'' j;
       (h, ok3) = fld_strmap ''headers'' j; (b, ok4) = fld_str ''body'' j in
     (\<lparr>ht_URI = u, ht_HTTPMethod = m, ht_Headers = (case h of None \<Rightarrow> [] | Some x \<Rightarrow> x), ht_Body = b\<rparr>,
      is_struct_doc j \<and> ok1 \<and> ok2 \<and> ok3 \<and> ok4))"

definition dec_httpTarget_ptr :: "json option \<Rightarrow> httpTarget option \<times> bool" where
  "dec_httpTarget_ptr jo = (case jo of None \<Rightarrow> (None, True) | Some JNull \<Rightarrow> (None, True)
     | Some j \<Rightarrow> (let (h, ok) = dec_httpTarget j in (Some h, ok)))"

definition enc_job :: "jobResource \<Rightarrow> json" where
  "enc_job j = JObj ([(''name'', JStr (j_Name j)), (''schedule'', JStr (j_Schedule j))] @
     (case j_HTTPTarget j of None \<Rightarrow> [] | Some h \<Rightarrow> [(''httpTarget'', enc_httpTarget h)]) @
     omit (j_State j = []) ''state'' (JStr (j_State j)))"

definition dec_job :: "json \<Rightarrow> jobResource \<times> bool" where
  "dec_job j = (let (n, ok1) = fld_str ''name'' j; (sc, ok2) = fld_str ''schedule'' j;
       (h, ok3) = dec_httpTarget_ptr (jget ''httpTarget'' j); (st, ok4) = fld_str ''state'' j in
     (\<lparr>j_Name = n, j_Schedule = sc, j_HTTPTarget = h, j_State = st\<rparr>,
      is_struct_doc j \<and> ok1 \<and> ok2 \<and> ok3 \<and> ok4))"

fun unmarshal_job :: "blob \<Rightarrow> jobResource \<times> bool" where
  "unmarshal_job (JsonB j) = dec_job j"
| "unmarshal_job (RawB _) = (\<lparr>j_Name = [], j_Schedule = [], j_HTTPTarget = None, j_State = []\<rparr>, False)"

definition jobName :: "string \<Rightarrow> string \<Rightarrow> string \<Rightarrow> string" where
  "jobName project loc i = ''projects/'' @ project @ ''/locations/'' @ loc @ ''/jobs/'' @ i"

section \<open>Runners\<close>

definition normal_spec :: "string \<Rightarrow> string" where
  "normal_spec spec = (let spec = trimSpace spec in
     if hasPrefix spec ''every '' then ''@every '' @ trimPrefix spec ''every '' else spec)"

definition parseSchedule :: "cron_lib \<Rightarrow> string \<Rightarrow> string option" where
  "parseSchedule L spec = (if cl_Parse L (normal_spec spec) then Some (normal_spec spec) else None)"

definition cancel_runner :: "nat \<Rightarrow> (nat \<times> runner) list \<Rightarrow> (nat \<times> runner) list" where
  "cancel_runner i rs = map (\<lambda>(k, r). (k, if k = i then r\<lparr>rn_cancelled := True\<rparr> else r)) rs"

definition startRunner :: "cron_lib \<Rightarrow> scheduler \<Rightarrow> jobResource \<Rightarrow> scheduler" where
  "startRunner L st j =
     (let st = (case map_of (sc_jobs st) (j_Name j) of None \<Rightarrow> st
            | Some i \<Rightarrow> st\<lparr>sc_runners := cancel_runner i (sc_runners st)\<rparr>)
      in (case parseSchedule L (j_Schedule j) of None \<Rightarrow> st
          | Some sched \<Rightarrow> st\<lparr>sc_jobs := AList.update (j_Name j) (sc_next st) (sc_jobs st),
              sc_runners := sc_runners st @
                [(sc_next st, \<lparr>rn_job = j, rn_sched = sched, rn_cancelled = sc_stopped st\<rparr>)],
              sc_next := Suc (sc_next st)\<rparr>))"

definition stopRunner :: "scheduler \<Rightarrow> string \<Rightarrow> scheduler" where
  "stopRunner st name = (case map_of (sc_jobs st) name of None \<Rightarrow> st
     | Some i \<Rightarrow> st\<lparr>sc_runners := cancel_runner i (sc_runners st),
                   sc_jobs := AList.delete name (sc_jobs st)\<rparr>)"

definition scheduler_Stop :: "scheduler \<Rightarrow> scheduler" where
  "scheduler_Stop st = st\<lparr>sc_stopped := True,
     sc_runners := map (\<lambda>(k, r). (k, r\<lparr>rn_cancelled := True\<rparr>)) (sc_runners st)\<rparr>"

text \<open>How long a runner waits before it fires, from a reading of the clock.\<close>

definition runner_delay :: "cron_lib \<Rightarrow> runner \<Rightarrow> time \<Rightarrow> int" where
  "runner_delay L r now = (let delay = cl_Next L (rn_sched r) now - now in if delay < 0 then 0 else delay)"

text \<open>The request a firing sends: method, URI, headers and body.\<close>

definition fire :: "jobResource \<Rightarrow> (string \<times> string \<times> (string \<times> string) list \<times> string) option" where
  "fire j = (case j_HTTPTarget j of None \<Rightarrow> None
     | Some h \<Rightarrow> Some (if ht_HTTPMethod h = [] then ''POST'' else ht_HTTPMethod h, ht_URI h, ht_Headers h,
         if ht_Body h = [] then [] else fst (b64_decode (ht_Body h))))"

section \<open>Handlers\<close>

type_synonym sc_result = "http_resp \<times> mem \<times> scheduler"

text \<open>The job as it is stored: under its full name and enabled.\<close>

definition posted_job :: "string \<Rightarrow> string \<Rightarrow> jobResource \<Rightarrow> jobResource" where
  "posted_job project loc body =
     body\<lparr>j_Name := jobName project loc (lastSegment (j_Name body)), j_State := ''ENABLED''\<rparr>"

definition jobCollection :: "cron_lib \<Rightarrow> go_env \<Rightarrow> http_req \<Rightarrow> string \<Rightarrow> string \<Rightarrow> mem \<Rightarrow> scheduler \<Rightarrow> sc_result" where
  "jobCollection L e r project loc s st = (case r_method r of
     POST \<Rightarrow> (case r_json r of None \<Rightarrow> (respErr 400 ''invalid json'', s, st)
       | Some j \<Rightarrow> (let (body, ok) = dec_job j in
           if \<not> ok then (respErr 400 ''invalid json'', s, st)
           else let body = posted_job project loc body in
             (case Put s nsJobs (j_Name body) (JsonB (enc_job body)) of
                Inl er \<Rightarrow> (respErr 500 (err_text er), s, st)
              | Inr s' \<Rightarrow> (respJSON 200 (enc_job body), s', startRunner L st body))))
   | GET \<Rightarrow> (let all = (case List s nsJobs (''projects/'' @ project @ ''/locations/'' @ loc @ ''/jobs/'') of
           Inl _ \<Rightarrow> [] | Inr l \<Rightarrow> l)
       in (respJSON 200 (JObj [(''jobs'', JArr (concat (map (\<lambda>(_, d).
             let (j, ok) = unmarshal_job d in if ok then [enc_job j] else []) (e_range e all))))]), s, st))
   | _ \<Rightarrow> (methodNotAllowed, s, st))"

definition jobItem :: "http_req \<Rightarrow> string \<Rightarrow> string \<Rightarrow> string \<Rightarrow> mem \<Rightarrow> scheduler \<Rightarrow> sc_result" where
  "jobItem r project loc i s st = (let name = jobName project loc i in
     (case r_method r of
        GET \<Rightarrow> (case Get s nsJobs name of
            Inl er \<Rightarrow> if er = ErrNotFound then (respErr 404 ''job not found'', s, st)
              else (write_raw (RawB []), s, st)
          | Inr d \<Rightarrow> (write_raw d, s, st))
      | DELETE \<Rightarrow> (case Delete s nsJobs name of Inl _ \<Rightarrow> (respErr 404 ''job not found'', s, st)
          | Inr s' \<Rightarrow> (header_only 200, s', stopRunner st name))
      | _ \<Rightarrow> (methodNotAllowed, s, st)))"

definition scheduler_HandleV1 :: "cron_lib \<Rightarrow> go_env \<Rightarrow> http_req \<Rightarrow> string list \<Rightarrow> mem \<Rightarrow> scheduler
    \<Rightarrow> sc_result option" where
  "scheduler_HandleV1 L e r parts s st =
     (if length parts < 5 \<or> parts ! 2 \<noteq> ''locations'' \<or> parts ! 4 \<noteq> ''jobs'' then None
      else if length parts = 5 then Some (jobCollection L e r (parts ! 1) (parts ! 3) s st)
      else if length parts = 6 then Some (jobItem r (parts ! 1) (parts ! 3) (parts ! 5) s st)
      else None)"

definition ConsoleJobs :: "cron_lib \<Rightarrow> go_env \<Rightarrow> mem
    \<Rightarrow> store_err + (string \<times> string \<times> string \<times> (string \<times> string) option \<times> time option) list" where
  "ConsoleJobs L e s = (case List s nsJobs [] of Inl er \<Rightarrow> Inl er
     | Inr all \<Rightarrow> Inr (sort_key fst (concat (map (\<lambda>(_, d). let (j, ok) = unmarshal_job d in
         if \<not> ok then []
         else [(j_Name j, j_Schedule j, j_State j, map_option (\<lambda>h. (ht_URI h, ht_HTTPMethod h)) (j_HTTPTarget j),
                map_option (\<lambda>sc. cl_Next L sc (e_now e 0)) (parseSchedule L (j_Schedule j)))]) (e_range e all)))))"

section \<open>Live runners\<close>

text \<open>
  The invariant: runner numbers are fresh, and a live runner is the one its job name maps to, and
  runs the job as it is stored.
\<close>

definition live_ok :: "mem \<Rightarrow> scheduler \<Rightarrow> nat \<times> runner \<Rightarrow> bool" where
  "live_ok s st x \<longleftrightarrow> (case x of (i, r) \<Rightarrow> i < sc_next st \<and> (\<not> rn_cancelled r \<longrightarrow>
     map_of (sc_jobs st) (j_Name (rn_job r)) = Some i \<and>
     mem_lookup s nsJobs (j_Name (rn_job r)) = Some (JsonB (enc_job (rn_job r)))))"

definition sc_inv :: "mem \<times> scheduler \<Rightarrow> bool" where
  "sc_inv ss \<longleftrightarrow> mem_ok (fst ss) \<and> distinct (map fst (sc_runners (snd ss))) \<and>
     (\<forall>x \<in> set (sc_runners (snd ss)). live_ok (fst ss) (snd ss) x)"

inductive sc_step :: "mem \<times> scheduler \<Rightarrow> mem \<times> scheduler \<Rightarrow> bool" where
  sc_request: "scheduler_HandleV1 L e r parts s st = Some (resp, s', st') \<Longrightarrow> sc_step (s, st) (s', st')"
| sc_stop: "sc_step (s, st) (s, scheduler_Stop st)"
| sc_other: "mem_ok s' \<Longrightarrow> mem_lookup s' nsJobs = mem_lookup s nsJobs \<Longrightarrow> sc_step (s, st) (s', st)"

definition sc_init :: "mem \<times> scheduler \<Rightarrow> bool" where
  "sc_init ss \<longleftrightarrow> mem_ok (fst ss) \<and>
     snd ss = \<lparr>sc_jobs = [], sc_runners = [], sc_next = 0, sc_stopped = False\<rparr>"

lemma fst_cancel_runner [simp]: "map fst (cancel_runner i rs) = map fst rs"
  by (induction rs) (auto simp: cancel_runner_def)

lemma in_cancel_runner:
  "(k, r) \<in> set (cancel_runner i rs) \<Longrightarrow> k \<noteq> i \<Longrightarrow> (k, r) \<in> set rs"
  by (auto simp: cancel_runner_def)

lemma in_cancel_runnerE:
  assumes "(k, r) \<in> set (cancel_runner i rs)" "\<not> rn_cancelled r"
  shows "(k, r) \<in> set rs \<and> k \<noteq> i"
  using assms by (auto simp: cancel_runner_def split: if_splits)

text \<open>Cancelling the runner a name maps to leaves no live runner of that name.\<close>

lemma live_after_cancel:
  assumes "sc_inv (s, st)" "(k, r) \<in> set (case map_of (sc_jobs st) n of None \<Rightarrow> sc_runners st
      | Some i \<Rightarrow> cancel_runner i (sc_runners st))"
  shows "k < sc_next st" and "\<not> rn_cancelled r \<Longrightarrow>
    map_of (sc_jobs st) (j_Name (rn_job r)) = Some k \<and> j_Name (rn_job r) \<noteq> n \<and>
    mem_lookup s nsJobs (j_Name (rn_job r)) = Some (JsonB (enc_job (rn_job r)))"
proof -
  have all: "live_ok s st x" if "x \<in> set (sc_runners st)" for x
    using assms(1) that by (simp add: sc_inv_def)
  have "k \<in> fst ` set (sc_runners st)"
    using assms(2) by (force simp: cancel_runner_def split: option.splits if_splits)
  then show "k < sc_next st" using all by (auto simp: live_ok_def)
  assume live: "\<not> rn_cancelled r"
  then have "(k, r) \<in> set (sc_runners st)" "map_of (sc_jobs st) n \<noteq> Some k"
    using assms(2) in_cancel_runnerE [OF _ live] by (auto split: option.splits)
  with all [of "(k, r)"] live show "map_of (sc_jobs st) (j_Name (rn_job r)) = Some k \<and> j_Name (rn_job r) \<noteq> n \<and>
    mem_lookup s nsJobs (j_Name (rn_job r)) = Some (JsonB (enc_job (rn_job r)))"
    by (auto simp: live_ok_def)
qed

lemma startRunner_inv:
  assumes inv: "sc_inv (s, st)"
  shows "sc_inv (mput s nsJobs (j_Name j) (JsonB (enc_job j)), startRunner L st j)"
proof -
  let ?n = "j_Name j"
  let ?rs = "case map_of (sc_jobs st) ?n of None \<Rightarrow> sc_runners st | Some i \<Rightarrow> cancel_runner i (sc_runners st)"
  let ?s' = "mput s nsJobs ?n (JsonB (enc_job j))"
  have ok: "mem_ok s" and d: "distinct (map fst ?rs)"
    using inv by (auto simp: sc_inv_def split: option.splits)
  note live = live_after_cancel [OF inv, of _ _ ?n]
  have st': "startRunner L st j = (case parseSchedule L (j_Schedule j) of None \<Rightarrow> st\<lparr>sc_runners := ?rs\<rparr>
     | Some sched \<Rightarrow> st\<lparr>sc_jobs := AList.update ?n (sc_next st) (sc_jobs st),
         sc_runners := ?rs @ [(sc_next st, \<lparr>rn_job = j, rn_sched = sched, rn_cancelled = sc_stopped st\<rparr>)],
         sc_next := Suc (sc_next st)\<rparr>)"
    by (simp add: startRunner_def Let_def split: option.splits)
  have fresh: "sc_next st \<notin> fst ` set ?rs" using live(1) by fastforce
  show ?thesis
  proof (cases "parseSchedule L (j_Schedule j)")
    case None
    then show ?thesis using ok d live by (auto simp: st' sc_inv_def live_ok_def)
  next
    case (Some sched)
    have "live_ok ?s' (startRunner L st j) (k, r)" if "(k, r) \<in> set ?rs" for k r
      using live [OF that] ok by (auto simp: st' Some live_ok_def update_conv')
    moreover have "live_ok ?s' (startRunner L st j)
        (sc_next st, \<lparr>rn_job = j, rn_sched = sched, rn_cancelled = sc_stopped st\<rparr>)"
      using ok by (auto simp: st' Some live_ok_def update_conv')
    ultimately have "\<forall>x \<in> set (sc_runners (startRunner L st j)). live_ok ?s' (startRunner L st j) x"
      by (auto simp: st' Some)
    moreover have "distinct (map fst (sc_runners (startRunner L st j)))"
      using d fresh by (simp add: st' Some)
    ultimately show ?thesis using ok by (simp add: sc_inv_def)
  qed
qed

lemma stopRunner_inv:
  assumes inv: "sc_inv (s, st)"
  shows "sc_inv (mdel s nsJobs n, stopRunner st n)"
proof -
  let ?rs = "case map_of (sc_jobs st) n of None \<Rightarrow> sc_runners st | Some i \<Rightarrow> cancel_runner i (sc_runners st)"
  have ok: "mem_ok s" and d: "distinct (map fst ?rs)"
    using inv by (auto simp: sc_inv_def split: option.splits)
  note live = live_after_cancel [OF inv, of _ _ n]
  have "sc_runners (stopRunner st n) = ?rs" "sc_next (stopRunner st n) = sc_next st"
    "map_of (sc_jobs (stopRunner st n)) = (map_of (sc_jobs st))(n := None)"
    by (auto simp: stopRunner_def delete_conv' fun_eq_iff split: option.splits)
  then show ?thesis
    using live ok d by (fastforce simp: sc_inv_def live_ok_def)
qed

lemma sc_step_inv:
  assumes "sc_step ss ss'" "sc_inv ss"
  shows "sc_inv ss'"
  using assms
proof (induction rule: sc_step.induct)
  case (sc_request L e r parts s st resp s' st')
  have ok: "mem_ok s" using sc_request.prems by (simp add: sc_inv_def)
  have "(s' = s \<and> st' = st) \<or> (\<exists>j. s' = mput s nsJobs (j_Name j) (JsonB (enc_job j)) \<and> st' = startRunner L st j) \<or>
      (\<exists>n. s' = mdel s nsJobs n \<and> st' = stopRunner st n)"
    using sc_request(1) ok
    by (auto simp: scheduler_HandleV1_def jobCollection_def jobItem_def Let_def Delete_cases
        split: if_splits meth.splits option.splits sum.splits prod.splits)
  then show ?case using sc_request.prems startRunner_inv stopRunner_inv by blast
next
  case (sc_stop s st)
  have "map fst (sc_runners (scheduler_Stop st)) = map fst (sc_runners st)"
    by (simp add: scheduler_Stop_def split_def comp_def)
  with sc_stop have "distinct (map fst (sc_runners (scheduler_Stop st)))" by (simp add: sc_inv_def)
  with sc_stop show ?case unfolding sc_inv_def by (auto simp: live_ok_def scheduler_Stop_def)
next
  case (sc_other s' s st)
  then show ?case by (auto simp: sc_inv_def live_ok_def)
qed

interpretation scm: machine sc_init sc_step sc_inv
  by unfold_locales (auto simp: sc_init_def sc_inv_def [of "(_, _)"] intro: sc_step_inv)


subsection \<open>A job that runs every minute\<close>

definition job_req :: http_req where
  "job_req = \<lparr>r_method = POST, r_path = [], r_query = [], r_header = [], r_host = [], r_tls = False,
     r_contentLength = 0, r_bytes = [], r_json = Some (JObj [(''name'', JStr ''tick''), (''schedule'', JStr ''every 1m'')])\<rparr>"

definition cron_every :: cron_lib where
  "cron_every = \<lparr>cl_Parse = (\<lambda>s. hasPrefix s ''@every ''), cl_Next = (\<lambda>_ t. t + 60 * 1000000000)\<rparr>"

definition tick_job :: jobResource where
  "tick_job = \<lparr>j_Name = jobName ''p'' ''l'' ''tick'', j_Schedule = ''every 1m'', j_HTTPTarget = None, j_State = ''ENABLED''\<rparr>"

definition tick_state :: scheduler where
  "tick_state = \<lparr>sc_jobs = [(j_Name tick_job, 0)],
     sc_runners = [(0, \<lparr>rn_job = tick_job, rn_sched = ''@every 1m'', rn_cancelled = False\<rparr>)],
     sc_next = 1, sc_stopped = False\<rparr>"

lemma tick_posted: "posted_job ''p'' ''l'' \<lparr>j_Name = ''tick'', j_Schedule = ''every 1m'', j_HTTPTarget = None, j_State = []\<rparr> = tick_job"
  by (simp add: posted_job_def tick_job_def lastSegment_def cut_last_None)

lemma tick_sched: "parseSchedule cron_every (j_Schedule tick_job) = Some ''@every 1m''"
  by (simp add: parseSchedule_def normal_spec_def cron_every_def tick_job_def trimSpace_def is_space_def
      hasPrefix_def trimPrefix_def)

lemma tick_reach:
  "reach sc_init sc_step (mput NewMemory nsJobs (j_Name tick_job) (JsonB (enc_job tick_job)), tick_state)"
proof (rule reach_step)
  let ?st0 = "\<lparr>sc_jobs = [], sc_runners = [], sc_next = 0, sc_stopped = False\<rparr>"
  show "reach sc_init sc_step (NewMemory, ?st0)" by (rule reach_init) (simp add: sc_init_def)
  have "dec_job (JObj [(''name'', JStr ''tick''), (''schedule'', JStr ''every 1m'')]) =
      (\<lparr>j_Name = ''tick'', j_Schedule = ''every 1m'', j_HTTPTarget = None, j_State = []\<rparr>, True)"
    by (simp add: dec_job_def fld_str_def dec_httpTarget_ptr_def eqFold_def lower_char_def)
  then have "scheduler_HandleV1 cron_every \<lparr>e_now = \<lambda>_. 0, e_range = rev\<rparr> job_req
      [''projects'', ''p'', ''locations'', ''l'', ''jobs''] NewMemory ?st0 =
      Some (respJSON 200 (enc_job tick_job), mput NewMemory nsJobs (j_Name tick_job) (JsonB (enc_job tick_job)), tick_state)"
    using tick_sched
    by (simp add: scheduler_HandleV1_def jobCollection_def job_req_def tick_posted startRunner_def tick_state_def
        Let_def eval_nat_numeral)
  then show "sc_step (NewMemory, ?st0) (mput NewMemory nsJobs (j_Name tick_job) (JsonB (enc_job tick_job)), tick_state)"
    by (rule sc_request)
qed


end
