(* ===== verification/Go_Crypto.thy ===== *)
theory Go_Crypto
  imports Go_Prelude
begin

text \<open>
  The part of Go's \<^verbatim>\<open>crypto/aes\<close> and \<^verbatim>\<open>crypto/cipher\<close> that the key management service calls: the AES block
  function for the three key sizes, and GCM with its 12-byte nonce and 16-byte tag and without additional
  data.  Bytes are characters at the interface and natural numbers below 256 inside.
\<close>

unbundle bit_operations_syntax

section \<open>The AES block function\<close>

definition aes_sbox :: "nat list" where
  "aes_sbox = [
    99, 124, 119, 123, 242, 107, 111, 197, 48, 1, 103, 43, 254, 215, 171, 118,
    202, 130, 201, 125, 250, 89, 71, 240, 173, 212, 162, 175, 156, 164, 114, 192,
    183, 253, 147, 38, 54, 63, 247, 204, 52, 165, 229, 241, 113, 216, 49, 21,
    4, 199, 35, 195, 24, 150, 5, 154, 7, 18, 128, 226, 235, 39, 178, 117,
    9, 131, 44, 26, 27, 110, 90, 160, 82, 59, 214, 179, 41, 227, 47, 132,
    83, 209, 0, 237, 32, 252, 177, 91, 106, 203, 190, 57, 74, 76, 88, 207,
    208, 239, 170, 251, 67, 77, 51, 133, 69, 249, 2, 127, 80, 60, 159, 168,
    81, 163, 64, 143, 146, 157, 56, 245, 188, 182, 218, 33, 16, 255, 243, 210,
    205, 12, 19, 236, 95, 151, 68, 23, 196, 167, 126, 61, 100, 93, 25, 115,
    96, 129, 79, 220, 34, 42, 144, 136, 70, 238, 184, 20, 222, 94, 11, 219,
    224, 50, 58, 10, 73, 6, 36, 92, 194, 211, 172, 98, 145, 149, 228, 121,
    231, 200, 55, 109, 141, 213, 78, 169, 108, 86, 244, 234, 101, 122, 174, 8,
    186, 120, 37, 46, 28, 166, 180, 198, 232, 221, 116, 31, 75, 189, 139, 138,
    112, 62, 181, 102, 72, 3, 246, 14, 97, 53, 87, 185, 134, 193, 29, 158,
    225, 248, 152, 17, 105, 217, 142, 148, 155, 30, 135, 233, 206, 85, 40, 223,
    140, 161, 137, 13, 191, 230, 66, 104, 65, 153, 45, 15, 176, 84, 187, 22]"

definition sub_byte :: "nat \<Rightarrow> nat" where
  "sub_byte b = aes_sbox ! (b mod 256)"

definition xtime :: "nat \<Rightarrow> nat" where
  "xtime b = (if 2 * b < 256 then 2 * b else (2 * b) XOR 283)"

fun xor_bytes :: "nat list \<Rightarrow> nat list \<Rightarrow> nat list" where
  "xor_bytes (a # as) (b # bs) = (a XOR b) mod 256 # xor_bytes as bs"
| "xor_bytes _ _ = []"

fun mix_columns :: "nat list \<Rightarrow> nat list" where
  "mix_columns (a # b # c # d # s) =
     (let t = (\<lambda>x y u v. xtime x XOR (xtime y XOR y) XOR u XOR v) in
      t a b c d # t b c d a # t c d a b # t d a b c # mix_columns s)"
| "mix_columns s = []"

definition shift_rows :: "nat list \<Rightarrow> nat list" where
  "shift_rows s = map (\<lambda>i. s ! ((i + 4 * (i mod 4)) mod 16)) [0..<16]"

definition key_core :: "nat \<Rightarrow> nat \<Rightarrow> nat list \<Rightarrow> nat list" where
  "key_core nk i w = (if i mod nk = 0 then xor_bytes (map sub_byte (rotate1 w)) [(xtime ^^ (i div nk - 1)) 1, 0, 0, 0]
     else if nk > 6 \<and> i mod nk = 4 then map sub_byte w else w)"

fun expand_key :: "nat \<Rightarrow> nat \<Rightarrow> nat list list \<Rightarrow> nat list list" where
  "expand_key nk 0 ws = ws"
| "expand_key nk (Suc n) ws = (let i = length ws in
     expand_key nk n (ws @ [xor_bytes (ws ! (i - nk)) (key_core nk i (last ws))]))"

fun chunks :: "nat \<Rightarrow> 'a list \<Rightarrow> 'a list list" where
  "chunks n xs = (if n = 0 \<or> xs = [] then [] else take n xs # chunks n (drop n xs))"

declare chunks.simps [simp del]

definition round_keys :: "nat list \<Rightarrow> nat list list" where
  "round_keys key = (let nk = length key div 4 in
     map concat (chunks 4 (expand_key nk (4 * (nk + 7) - nk) (chunks 4 key))))"

definition aes_round :: "nat list \<Rightarrow> nat list \<Rightarrow> nat list" where
  "aes_round s k = xor_bytes (mix_columns (shift_rows (map sub_byte s))) k"

definition aes_block :: "nat list \<Rightarrow> nat list \<Rightarrow> nat list" where
  "aes_block key s = (let ks = round_keys key in
     xor_bytes (shift_rows (map sub_byte (foldl aes_round (xor_bytes s (hd ks)) (butlast (tl ks))))) (last ks))"

section \<open>Galois/counter mode\<close>

definition be_val :: "nat list \<Rightarrow> nat" where
  "be_val bs = foldl (\<lambda>n b. 256 * n + b) 0 bs"

definition be_bytes :: "nat \<Rightarrow> nat \<Rightarrow> nat list" where
  "be_bytes n v = map (\<lambda>i. v div 256 ^ (n - 1 - i) mod 256) [0..<n]"

text \<open>Multiplication in the field of \<open>2 ^ 128\<close> elements, most significant bit first.\<close>

fun gf_mul_loop :: "nat \<Rightarrow> nat \<Rightarrow> nat \<Rightarrow> nat \<Rightarrow> nat" where
  "gf_mul_loop 0 x v z = z"
| "gf_mul_loop (Suc n) x v z = gf_mul_loop n x
     (if odd v then (v div 2) XOR (225 * 2 ^ 120) else v div 2) (if bit x n then z XOR v else z)"

definition gf_mul :: "nat \<Rightarrow> nat \<Rightarrow> nat" where
  "gf_mul x y = gf_mul_loop 128 x y 0"

definition pad16 :: "nat list \<Rightarrow> nat list" where
  "pad16 b = b @ replicate (16 - length b) 0"

definition ghash :: "nat \<Rightarrow> nat list \<Rightarrow> nat" where
  "ghash h ct = foldl (\<lambda>y b. gf_mul (y XOR be_val b) h) 0
     (map pad16 (chunks 16 ct) @ [be_bytes 8 0 @ be_bytes 8 (8 * length ct)])"

definition ctr_block :: "nat list \<Rightarrow> nat list \<Rightarrow> nat \<Rightarrow> nat list" where
  "ctr_block key nonce i = aes_block key (nonce @ be_bytes 4 (i mod 2 ^ 32))"

definition key_stream :: "nat list \<Rightarrow> nat list \<Rightarrow> nat \<Rightarrow> nat list" where
  "key_stream key nonce n = concat (map (\<lambda>i. ctr_block key nonce (i + 2)) [0..<(n + 15) div 16])"

definition gcm_tag :: "nat list \<Rightarrow> nat list \<Rightarrow> nat list \<Rightarrow> nat list" where
  "gcm_tag key nonce ct = xor_bytes (ctr_block key nonce 1)
     (be_bytes 16 (ghash (be_val (aes_block key (replicate 16 0))) ct))"

definition to_bytes :: "string \<Rightarrow> nat list" where
  "to_bytes s = map of_char s"

definition of_bytes :: "nat list \<Rightarrow> string" where
  "of_bytes bs = map char_of bs"

definition gcm_NonceSize :: nat where "gcm_NonceSize = 12"

text \<open>\<^verbatim>\<open>aes.NewCipher\<close> followed by \<^verbatim>\<open>cipher.NewGCM\<close>: the error text for a key of another size.\<close>

definition new_gcm :: "string \<Rightarrow> string + nat list" where
  "new_gcm key = (if length key \<in> {16, 24, 32} then Inr (to_bytes key)
     else Inl (''crypto/aes: invalid key size '' @ itoa (length key)))"

definition gcm_Seal :: "nat list \<Rightarrow> string \<Rightarrow> string \<Rightarrow> string \<Rightarrow> string" where
  "gcm_Seal key dst nonce plain = (let n = to_bytes nonce; p = to_bytes plain;
      ct = xor_bytes p (key_stream key n (length p)) in
      dst @ of_bytes (ct @ gcm_tag key n ct))"

definition gcm_Open :: "nat list \<Rightarrow> string \<Rightarrow> string \<Rightarrow> string option" where
  "gcm_Open key nonce box = (if length box < 16 then None
     else let n = to_bytes nonce; b = to_bytes box; ct = take (length b - 16) b in
       if gcm_tag key n ct = drop (length b - 16) b
       then Some (of_bytes (xor_bytes ct (key_stream key n (length ct)))) else None)"

section \<open>Opening undoes sealing\<close>

lemma length_xor_bytes [simp]: "length (xor_bytes a b) = min (length a) (length b)"
  by (induction a b rule: xor_bytes.induct) auto

lemma xor_bytes_lt: "list_all (\<lambda>x. x < 256) (xor_bytes a b)"
  by (induction a b rule: xor_bytes.induct) auto

lemma xor_byte_twice: "((p XOR k) mod 256 XOR k) mod 256 = p mod (256 :: nat)"
proof -
  have "take_bit 8 (take_bit 8 (p XOR k) XOR k) = take_bit 8 p"
    by (rule bit_eqI) (auto simp: bit_take_bit_iff bit_xor_iff)
  then show ?thesis by (simp add: take_bit_eq_mod)
qed

lemma xor_bytes_twice:
  "length a \<le> length k \<Longrightarrow> list_all (\<lambda>x. x < 256) a \<Longrightarrow> xor_bytes (xor_bytes a k) k = a"
proof (induction a k rule: xor_bytes.induct)
  case (1 a as b bs)
  then show ?case using xor_byte_twice [of a b] by simp
qed auto

lemma to_of_bytes: "list_all (\<lambda>x. x < 256) b \<Longrightarrow> to_bytes (of_bytes b) = b"
  by (auto simp: to_bytes_def of_bytes_def list_all_iff intro!: map_idI)

lemma of_to_bytes [simp]: "of_bytes (to_bytes s) = s"
  by (simp add: to_bytes_def of_bytes_def comp_def)

lemma length_to_bytes [simp]: "length (to_bytes s) = length s" "length (of_bytes b) = length b"
  by (simp_all add: to_bytes_def of_bytes_def)

lemma to_bytes_lt: "list_all (\<lambda>x. x < 256) (to_bytes s)"
  by (simp add: to_bytes_def list_all_iff nat_of_char_less_256)

text \<open>Every round key has 16 bytes, so that the key stream is as long as the text.\<close>

lemma chunks_exact:
  assumes "n dvd length xs" "c \<in> set (chunks n xs)"
  shows "length c = n \<and> set c \<subseteq> set xs"
  using assms
proof (induction n xs rule: chunks.induct)
  case (1 n xs)
  from 1(3) have "c \<in> set (if n = 0 \<or> xs = [] then [] else take n xs # chunks n (drop n xs))"
    by (simp only: chunks.simps [of n xs])
  then have ne: "n \<noteq> 0" "xs \<noteq> []" and c: "c = take n xs \<or> c \<in> set (chunks n (drop n xs))"
    by (auto split: if_splits)
  have "n \<le> length xs" using 1(2) ne by (simp add: dvd_imp_le)
  moreover have "n dvd length (drop n xs)" using 1(2) by (simp add: dvd_minus_self)
  ultimately show ?case
    using c 1(1) ne by (auto dest: in_set_takeD in_set_dropD)
qed

lemma length_chunks: "n \<noteq> 0 \<Longrightarrow> n dvd length xs \<Longrightarrow> length (chunks n xs) = length xs div n"
proof (induction n xs rule: chunks.induct)
  case (1 n xs)
  show ?case
  proof (cases "xs = []")
    case False
    have "n \<le> length xs" using 1(2,3) False by (simp add: dvd_imp_le)
    moreover have "n dvd length (drop n xs)" using 1(3) by (simp add: dvd_minus_self)
    ultimately show ?thesis using 1 False by (simp add: chunks.simps [of n xs] le_div_geq)
  qed (simp add: chunks.simps [of n "[]"])
qed

lemma expand_key_words:
  assumes "0 < nk" "nk \<le> length ws" "list_all (\<lambda>w. length w = 4) ws"
  shows "list_all (\<lambda>w. length w = 4) (expand_key nk n ws) \<and> length (expand_key nk n ws) = n + length ws"
  using assms(2,3)
proof (induction n arbitrary: ws)
  case (Suc n)
  let ?w = "xor_bytes (ws ! (length ws - nk)) (key_core nk (length ws) (last ws))"
  have "ws \<noteq> []" using Suc.prems(1) assms(1) by auto
  then have "length (ws ! (length ws - nk)) = 4" "length (last ws) = 4"
    using Suc.prems(2) assms(1) by (simp_all add: list_all_iff)
  then have "length ?w = 4" by (simp add: key_core_def)
  then show ?case using Suc.IH [of "ws @ [?w]"] Suc.prems by (simp add: Let_def)
qed simp

lemma round_keys_lengths:
  assumes "length key \<in> {16, 24, 32}"
  shows "round_keys key \<noteq> [] \<and> list_all (\<lambda>k. length k = 16) (round_keys key)"
proof -
  define nk where "nk = length key div 4"
  define ws where "ws = expand_key nk (4 * (nk + 7) - nk) (chunks 4 key)"
  have d: "4 dvd length key" "0 < nk" using assms by (auto simp: nk_def)
  have w: "length (chunks 4 key) = nk" "list_all (\<lambda>w. length w = 4) (chunks 4 key)"
    using chunks_exact [OF d(1)] length_chunks [OF _ d(1)] by (simp_all add: list_all_iff nk_def)
  have e: "list_all (\<lambda>w. length w = 4) ws" "length ws = 4 * (nk + 7)"
    using expand_key_words [OF d(2), of "chunks 4 key" "4 * (nk + 7) - nk"] w by (simp_all add: ws_def)
  have dvd: "4 dvd length ws" by (simp add: e(2))
  have "length (concat c) = 16" if c: "c \<in> set (chunks 4 ws)" for c
  proof -
    have "length c = 4" "set c \<subseteq> set ws" using chunks_exact [OF dvd c] by blast+
    then have "map length c = replicate 4 4"
      using e(1) by (intro replicate_eqI) (auto simp: list_all_iff)
    then show ?thesis by (simp add: length_concat sum_list_replicate)
  qed
  moreover have "chunks 4 ws \<noteq> []" using e(2) length_chunks [OF _ dvd] by auto
  moreover have "round_keys key = map concat (chunks 4 ws)"
    by (simp add: round_keys_def Let_def ws_def nk_def)
  ultimately show ?thesis by (simp add: list_all_iff)
qed

lemma length_aes_block: "length key \<in> {16, 24, 32} \<Longrightarrow> length (aes_block key s) = 16"
  using round_keys_lengths [of key] last_in_set [of "round_keys key"]
  by (simp add: aes_block_def Let_def shift_rows_def list_all_iff del: last_in_set)

lemma length_key_stream: "length key \<in> {16, 24, 32} \<Longrightarrow> n \<le> length (key_stream key nonce n)"
proof -
  assume "length key \<in> {16, 24, 32}"
  then have "map length (map (\<lambda>i. ctr_block key nonce (i + 2)) [0..<m]) = replicate m 16" for m
    by (intro replicate_eqI) (auto simp: ctr_block_def length_aes_block)
  then show ?thesis by (simp add: key_stream_def length_concat sum_list_replicate)
qed

lemma length_gcm_tag: "length key \<in> {16, 24, 32} \<Longrightarrow> length (gcm_tag key nonce ct) = 16"
  by (simp add: gcm_tag_def ctr_block_def length_aes_block be_bytes_def)

lemma gcm_open_seal:
  assumes "new_gcm k = Inr key"
  shows "gcm_Open key nonce (gcm_Seal key [] nonce plain) = Some plain"
proof -
  let ?p = "to_bytes plain" and ?n = "to_bytes nonce"
  define ct where "ct = xor_bytes ?p (key_stream key ?n (length plain))"
  have key: "length key \<in> {16, 24, 32}" using assms by (auto simp: new_gcm_def split: if_splits)
  have len: "length ct = length plain" using length_key_stream [OF key, of "length plain" ?n] by (simp add: ct_def)
  have "list_all (\<lambda>x. x < 256) (ct @ gcm_tag key ?n ct)" by (simp add: ct_def gcm_tag_def xor_bytes_lt)
  then have b: "to_bytes (of_bytes (ct @ gcm_tag key ?n ct)) = ct @ gcm_tag key ?n ct" by (rule to_of_bytes)
  have "xor_bytes ct (key_stream key ?n (length ct)) = ?p"
    using xor_bytes_twice [OF _ to_bytes_lt, of plain "key_stream key ?n (length plain)"] length_key_stream [OF key, of "length plain" ?n]
    by (simp add: len) (simp add: ct_def)
  then show ?thesis
    using b length_gcm_tag [OF key] len
    by (simp add: gcm_Seal_def gcm_Open_def Let_def ct_def [symmetric] del: length_xor_bytes)
qed

lemma gcm_Seal_dst: "gcm_Seal key dst nonce plain = dst @ gcm_Seal key [] nonce plain"
  by (simp add: gcm_Seal_def Let_def)

end
