(* ===== verification/Cloud_Kms.thy ===== *)
theory Cloud_Kms
  imports Resource_Codec Httpresp Go_Base64 Go_Crypto
begin

text \<open>
  Service \<^verbatim>\<open>internal/services/kms\<close>: key rings and symmetric keys in the store, encryption and decryption with
  AES-GCM, and the console functions.  \<open>rnd n\<close> is what reading \<open>n\<close> bytes from \<^verbatim>\<open>crypto/rand\<close> gives in the request: an error
  text or the bytes.  The service keeps no state of its own.
\<close>

section \<open>Data\<close>

definition nsKeyRings :: string where "nsKeyRings = ''kms/keyrings''"
definition nsCryptoKeys :: string where "nsCryptoKeys = ''kms/cryptokeys''"

lemmas [ns_defs] = nsKeyRings_def nsCryptoKeys_def

record keyRingResource =
  kr_Name :: string
  kr_CreateTime :: time

record cryptoKeyResource =
  ck_Name :: string
  ck_Purpose :: string
  ck_CreateTime :: time

text \<open>The stored key has the key material, in base64.\<close>

record cryptoKeyStored = cryptoKeyResource +
  ck_Key :: string

definition enc_keyRing :: "keyRingResource \<Rightarrow> json" where
  "enc_keyRing k = JObj [(''name'', JStr (kr_Name k)), (''createTime'', JTime (kr_CreateTime k))]"

definition dec_keyRing :: "(string \<Rightarrow> time option) \<Rightarrow> json \<Rightarrow> keyRingResource \<times> bool" where
  "dec_keyRing rfc j = (let (n, ok1) = fld_str ''name'' j; (t, ok2) = fld_time rfc ''createTime'' j in
     (\<lparr>kr_Name = n, kr_CreateTime = t\<rparr>, is_struct_doc j \<and> ok1 \<and> ok2))"

fun unmarshal_keyRing :: "(string \<Rightarrow> time option) \<Rightarrow> blob \<Rightarrow> keyRingResource \<times> bool" where
  "unmarshal_keyRing rfc (JsonB j) = dec_keyRing rfc j"
| "unmarshal_keyRing rfc (RawB _) = (\<lparr>kr_Name = [], kr_CreateTime = 0\<rparr>, False)"

definition enc_cryptoKey :: "cryptoKeyResource \<Rightarrow> json" where
  "enc_cryptoKey k = JObj [(''name'', JStr (ck_Name k)), (''purpose'', JStr (ck_Purpose k)),
     (''createTime'', JTime (ck_CreateTime k))]"

definition enc_storedKey :: "cryptoKeyStored \<Rightarrow> json" where
  "enc_storedKey k = JObj [(''name'', JStr (ck_Name k)), (''purpose'', JStr (ck_Purpose k)),
     (''createTime'', JTime (ck_CreateTime k)), (''keyMaterial'', JStr (ck_Key k))]"

definition dec_cryptoKey :: "(string \<Rightarrow> time option) \<Rightarrow> json \<Rightarrow> cryptoKeyResource \<times> bool" where
  "dec_cryptoKey rfc j = (let (n, ok1) = fld_str ''name'' j; (p, ok2) = fld_str ''purpose'' j;
       (t, ok3) = fld_time rfc ''createTime'' j in
     (\<lparr>ck_Name = n, ck_Purpose = p, ck_CreateTime = t\<rparr>, is_struct_doc j \<and> ok1 \<and> ok2 \<and> ok3))"

definition dec_storedKey :: "(string \<Rightarrow> time option) \<Rightarrow> json \<Rightarrow> cryptoKeyStored \<times> bool" where
  "dec_storedKey rfc j = (let (k, ok1) = dec_cryptoKey rfc j; (m, ok2) = fld_str ''keyMaterial'' j in
     (cryptoKeyResource.extend k (cryptoKeyStored.fields m), ok1 \<and> ok2))"

fun unmarshal_cryptoKey :: "(string \<Rightarrow> time option) \<Rightarrow> blob \<Rightarrow> cryptoKeyResource \<times> bool" where
  "unmarshal_cryptoKey rfc (JsonB j) = dec_cryptoKey rfc j"
| "unmarshal_cryptoKey rfc (RawB _) = (\<lparr>ck_Name = [], ck_Purpose = [], ck_CreateTime = 0\<rparr>, False)"

fun unmarshal_storedKey :: "(string \<Rightarrow> time option) \<Rightarrow> blob \<Rightarrow> cryptoKeyStored \<times> bool" where
  "unmarshal_storedKey rfc (JsonB j) = dec_storedKey rfc j"
| "unmarshal_storedKey rfc (RawB _) = (\<lparr>ck_Name = [], ck_Purpose = [], ck_CreateTime = 0, ck_Key = []\<rparr>, False)"

text \<open>The part of a stored key that is shown.\<close>

definition public_key :: "cryptoKeyStored \<Rightarrow> cryptoKeyResource" where
  "public_key k = \<lparr>ck_Name = ck_Name k, ck_Purpose = ck_Purpose k, ck_CreateTime = ck_CreateTime k\<rparr>"

definition keyRingName :: "string \<Rightarrow> string \<Rightarrow> string \<Rightarrow> string" where
  "keyRingName p l i = ''projects/'' @ p @ ''/locations/'' @ l @ ''/keyRings/'' @ i"

definition cryptoKeyName :: "string \<Rightarrow> string \<Rightarrow> string \<Rightarrow> string \<Rightarrow> string" where
  "cryptoKeyName p l ring i = ''projects/'' @ p @ ''/locations/'' @ l @ ''/keyRings/'' @ ring @ ''/cryptoKeys/'' @ i"

section \<open>Handlers\<close>

type_synonym kms_result = "http_resp \<times> mem"

definition keyRingCollection :: "(string \<Rightarrow> time option) \<Rightarrow> go_env \<Rightarrow> http_req \<Rightarrow> string \<Rightarrow> string \<Rightarrow> mem \<Rightarrow> kms_result" where
  "keyRingCollection rfc e r project loc s = (case r_method r of
     POST \<Rightarrow> (let i = get_first (r_query r) ''keyRingId''; name = keyRingName project loc i in
       if i = [] then (respErr 400 ''keyRingId required'', s)
       else (case Get s nsKeyRings name of Inr _ \<Rightarrow> (respErr 409 ''keyRing exists'', s)
         | Inl _ \<Rightarrow>
             let k = \<lparr>kr_Name = name, kr_CreateTime = e_now e 0\<rparr>;
                 s' = (case Put s nsKeyRings name (JsonB (enc_keyRing k)) of Inl _ \<Rightarrow> s | Inr s' \<Rightarrow> s')
             in (respJSON 200 (enc_keyRing k), s')))
   | GET \<Rightarrow> (let all = (case List s nsKeyRings (''projects/'' @ project @ ''/locations/'' @ loc @ ''/keyRings/'') of
           Inl _ \<Rightarrow> [] | Inr l \<Rightarrow> l)
       in (respJSON 200 (JObj [(''keyRings'', JArr (map enc_keyRing
            (decoded (unmarshal_keyRing rfc) (e_range e all))))]), s))
   | _ \<Rightarrow> (methodNotAllowed, s))"

definition keyRingItem :: "http_req \<Rightarrow> string \<Rightarrow> string \<Rightarrow> string \<Rightarrow> mem \<Rightarrow> kms_result" where
  "keyRingItem r project loc i s = (if r_method r \<noteq> GET then (methodNotAllowed, s)
     else (case Get s nsKeyRings (keyRingName project loc i) of
       Inl er \<Rightarrow> if er = ErrNotFound then (respErr 404 ''keyRing not found'', s) else (write_raw (RawB []), s)
     | Inr d \<Rightarrow> (write_raw d, s)))"

definition cryptoKeyCollection :: "(string \<Rightarrow> time option) \<Rightarrow> rand_read \<Rightarrow> go_env \<Rightarrow> http_req \<Rightarrow> string \<Rightarrow> string \<Rightarrow> string
    \<Rightarrow> mem \<Rightarrow> kms_result" where
  "cryptoKeyCollection rfc rnd e r project loc ring s =
    (let ringName = keyRingName project loc ring in
     case Get s nsKeyRings ringName of Inl _ \<Rightarrow> (respErr 404 ''keyRing not found'', s)
     | Inr _ \<Rightarrow> (case r_method r of
        POST \<Rightarrow> (let i = get_first (r_query r) ''cryptoKeyId'' in
          if i = [] then (respErr 400 ''cryptoKeyId required'', s)
          else
            let pu = (case r_json r of None \<Rightarrow> [] | Some j \<Rightarrow> fst (fld_str ''purpose'' j));
                purpose = (if pu = [] then ''ENCRYPT_DECRYPT'' else pu);
                name = cryptoKeyName project loc ring i
            in (case Get s nsCryptoKeys name of Inr _ \<Rightarrow> (respErr 409 ''cryptoKey exists'', s)
              | Inl _ \<Rightarrow> (case rnd 32 of Inl er \<Rightarrow> (respErr 500 er, s)
                 | Inr keyBytes \<Rightarrow>
                    let stored = \<lparr>ck_Name = name, ck_Purpose = purpose, ck_CreateTime = e_now e 0,
                                 ck_Key = b64_encode keyBytes\<rparr>;
                        s' = (case Put s nsCryptoKeys name (JsonB (enc_storedKey stored)) of Inl _ \<Rightarrow> s | Inr s' \<Rightarrow> s')
                    in (respJSON 200 (enc_cryptoKey (public_key stored)), s'))))
      | GET \<Rightarrow> (let all = (case List s nsCryptoKeys (ringName @ ''/cryptoKeys/'') of Inl _ \<Rightarrow> [] | Inr l \<Rightarrow> l)
          in (respJSON 200 (JObj [(''cryptoKeys'', JArr (map (\<lambda>k. enc_cryptoKey (public_key k))
               (decoded (unmarshal_storedKey rfc) (e_range e all))))]), s))
      | _ \<Rightarrow> (methodNotAllowed, s)))"

definition loadKey :: "(string \<Rightarrow> time option) \<Rightarrow> mem \<Rightarrow> string \<Rightarrow> string option" where
  "loadKey rfc s name = (case Get s nsCryptoKeys name of Inl _ \<Rightarrow> None
     | Inr d \<Rightarrow> (let (st, ok) = unmarshal_storedKey rfc d in
         if \<not> ok then None
         else let (raw, good) = b64_decode (ck_Key st) in if good then Some raw else None))"

definition kms_encrypt :: "(string \<Rightarrow> time option) \<Rightarrow> rand_read \<Rightarrow> http_req \<Rightarrow> string \<Rightarrow> mem \<Rightarrow> http_resp" where
  "kms_encrypt rfc rnd r name s = (if r_method r \<noteq> POST then methodNotAllowed
     else (case r_json r of None \<Rightarrow> respErr 400 ''invalid json''
      | Some j \<Rightarrow> let (pt, ok) = fld_str ''plaintext'' j in
        if \<not> (is_struct_doc j \<and> ok) then respErr 400 ''invalid json''
        else let (plain, good) = b64_decode pt in
          if \<not> good then respErr 400 ''plaintext not base64''
          else (case loadKey rfc s name of None \<Rightarrow> respErr 404 ''cryptoKey not found''
            | Some raw \<Rightarrow> (case new_gcm raw of Inl er \<Rightarrow> respErr 500 er
              | Inr gcm \<Rightarrow> (case rnd gcm_NonceSize of Inl er \<Rightarrow> respErr 500 er
                | Inr nonce \<Rightarrow> respJSON 200 (JObj [(''name'', JStr (name @ ''/cryptoKeyVersions/1'')),
                    (''ciphertext'', JStr (b64_encode (gcm_Seal gcm nonce nonce plain)))]))))))"

definition kms_decrypt :: "(string \<Rightarrow> time option) \<Rightarrow> http_req \<Rightarrow> string \<Rightarrow> mem \<Rightarrow> http_resp" where
  "kms_decrypt rfc r name s = (if r_method r \<noteq> POST then methodNotAllowed
     else (case r_json r of None \<Rightarrow> respErr 400 ''invalid json''
      | Some j \<Rightarrow> let (ctext, ok) = fld_str ''ciphertext'' j in
        if \<not> (is_struct_doc j \<and> ok) then respErr 400 ''invalid json''
        else let (ct, good) = b64_decode ctext in
          if \<not> good then respErr 400 ''ciphertext not base64''
          else (case loadKey rfc s name of None \<Rightarrow> respErr 404 ''cryptoKey not found''
            | Some raw \<Rightarrow> (case new_gcm raw of Inl er \<Rightarrow> respErr 500 er
              | Inr gcm \<Rightarrow> if length ct < gcm_NonceSize then respErr 400 ''ciphertext too short''
                else (case gcm_Open gcm (take gcm_NonceSize ct) (drop gcm_NonceSize ct) of
                  None \<Rightarrow> respErr 400 ''decryption failed''
                | Some plain \<Rightarrow> respJSON 200 (JObj [(''plaintext'', JStr (b64_encode plain))]))))))"

definition cryptoKeyItem :: "(string \<Rightarrow> time option) \<Rightarrow> rand_read \<Rightarrow> http_req \<Rightarrow> string \<Rightarrow> string \<Rightarrow> string \<Rightarrow> string
    \<Rightarrow> mem \<Rightarrow> kms_result" where
  "cryptoKeyItem rfc rnd r project loc ring seg s =
    (let (keyPart, action) = splitAction seg; name = cryptoKeyName project loc ring keyPart in
     if action = ''encrypt'' then (kms_encrypt rfc rnd r name s, s)
     else if action = ''decrypt'' then (kms_decrypt rfc r name s, s)
     else if r_method r \<noteq> GET then (methodNotAllowed, s)
     else (case Get s nsCryptoKeys name of Inl _ \<Rightarrow> (respErr 404 ''cryptoKey not found'', s)
       | Inr d \<Rightarrow> (respJSON 200 (enc_cryptoKey (public_key (fst (unmarshal_storedKey rfc d)))), s)))"

definition kms_HandleV1 :: "(string \<Rightarrow> time option) \<Rightarrow> rand_read \<Rightarrow> go_env \<Rightarrow> http_req \<Rightarrow> string list \<Rightarrow> mem \<Rightarrow> kms_result option" where
  "kms_HandleV1 rfc rnd e r parts s =
    (if length parts < 5 \<or> parts ! 2 \<noteq> ''locations'' \<or> parts ! 4 \<noteq> ''keyRings'' then None
     else if length parts = 5 then Some (keyRingCollection rfc e r (parts ! 1) (parts ! 3) s)
     else if length parts = 6 then Some (keyRingItem r (parts ! 1) (parts ! 3) (parts ! 5) s)
     else if length parts = 7
     then (if parts ! 6 = ''cryptoKeys''
           then Some (cryptoKeyCollection rfc rnd e r (parts ! 1) (parts ! 3) (parts ! 5) s) else None)
     else if length parts = 8
     then (if parts ! 6 = ''cryptoKeys''
           then Some (cryptoKeyItem rfc rnd r (parts ! 1) (parts ! 3) (parts ! 5) (parts ! 7) s) else None)
     else None)"

section \<open>Console\<close>

definition ConsoleKeyRings :: "(string \<Rightarrow> time option) \<Rightarrow> go_env \<Rightarrow> mem \<Rightarrow> store_err + (string \<times> string \<times> time) list" where
  "ConsoleKeyRings rfc e s = (case List s nsKeyRings [] of Inl er \<Rightarrow> Inl er
     | Inr all \<Rightarrow> Inr (sort_key fst (map (\<lambda>k. (kr_Name k, lastSegment (kr_Name k), kr_CreateTime k))
         (decoded (unmarshal_keyRing rfc) (e_range e all)))))"

definition ConsoleCryptoKeys :: "(string \<Rightarrow> time option) \<Rightarrow> go_env \<Rightarrow> mem \<Rightarrow> string
    \<Rightarrow> store_err + (string \<times> string \<times> string \<times> time) list" where
  "ConsoleCryptoKeys rfc e s keyring = (case List s nsCryptoKeys (keyring @ ''/cryptoKeys/'') of Inl er \<Rightarrow> Inl er
     | Inr all \<Rightarrow> Inr (sort_key fst (map (\<lambda>k. (ck_Name k, lastSegment (ck_Name k), ck_Purpose k, ck_CreateTime k))
         (decoded (unmarshal_cryptoKey rfc) (e_range e all)))))"

definition loadGCM :: "(string \<Rightarrow> time option) \<Rightarrow> mem \<Rightarrow> string \<Rightarrow> string + nat list" where
  "loadGCM rfc s key = (case loadKey rfc s key of None \<Rightarrow> Inl ''cryptoKey not found'' | Some raw \<Rightarrow> new_gcm raw)"

definition ConsoleEncrypt :: "(string \<Rightarrow> time option) \<Rightarrow> rand_read \<Rightarrow> mem \<Rightarrow> string \<Rightarrow> string \<Rightarrow> string + string" where
  "ConsoleEncrypt rfc rnd s key plaintext = (case loadGCM rfc s key of Inl er \<Rightarrow> Inl er
     | Inr gcm \<Rightarrow> (case rnd gcm_NonceSize of Inl er \<Rightarrow> Inl er
        | Inr nonce \<Rightarrow> Inr (b64_encode (gcm_Seal gcm nonce nonce plaintext))))"

definition ConsoleDecrypt :: "(string \<Rightarrow> time option) \<Rightarrow> mem \<Rightarrow> string \<Rightarrow> string \<Rightarrow> string + string" where
  "ConsoleDecrypt rfc s key ciphertext = (case loadGCM rfc s key of Inl er \<Rightarrow> Inl er
     | Inr gcm \<Rightarrow> let (ct, good) = b64_decode (trimSpace ciphertext) in
        if \<not> good then Inl ''ciphertext not base64''
        else if length ct < gcm_NonceSize then Inl ''ciphertext too short''
        else (case gcm_Open gcm (take gcm_NonceSize ct) (drop gcm_NonceSize ct) of
          None \<Rightarrow> Inl ''cipher: message authentication failed'' | Some plain \<Rightarrow> Inr plain))"

section \<open>Keys belong to rings and are never lost\<close>

lemma ns_kms [simp]: "nsKeyRings \<noteq> nsCryptoKeys" "nsCryptoKeys \<noteq> nsKeyRings"
  by (simp_all add: ns_defs)

text \<open>A key the service made: 256 bits of material.\<close>

definition key_ok :: "cryptoKeyStored \<Rightarrow> bool" where
  "key_ok k \<longleftrightarrow> (\<exists>raw. length raw = 32 \<and> ck_Key k = b64_encode raw)"

lemma dec_enc_keyRing [codec]: "dec_keyRing rfc (enc_keyRing k) = (k, True)"
  by (cases k) (simp add: dec_keyRing_def enc_keyRing_def fld_str_def fld_time_def eqFold_def lower_char_def)

lemma dec_enc_storedKey [codec]: "dec_storedKey rfc (enc_storedKey k) = (k, True)"
  by (cases k) (simp add: dec_storedKey_def dec_cryptoKey_def enc_storedKey_def fld_str_def fld_time_def
    eqFold_def lower_char_def cryptoKeyResource.defs cryptoKeyStored.defs)

interpretation ring_res: stored_resource enc_keyRing "unmarshal_keyRing rfc" "\<lambda>_. True" kr_Name nsKeyRings for rfc
  by unfold_locales (simp add: codec)

interpretation key_res: stored_resource enc_storedKey "unmarshal_storedKey rfc" key_ok ck_Name nsCryptoKeys for rfc
  by unfold_locales (simp add: codec)

definition kms_inv :: "mem \<Rightarrow> bool" where
  "kms_inv s \<longleftrightarrow> mem_ok s \<and> typed_ns enc_keyRing (\<lambda>_. True) kr_Name nsKeyRings s \<and>
     typed_ns enc_storedKey key_ok ck_Name nsCryptoKeys s \<and>
     (\<forall>k. mem_lookup s nsCryptoKeys k \<noteq> None \<longrightarrow> (\<exists>p l ring i. k = cryptoKeyName p l ring i \<and>
        mem_lookup s nsKeyRings (keyRingName p l ring) \<noteq> None))"

text \<open>A step is a request to the service or a change of the store outside its namespaces.\<close>

inductive kms_step :: "mem \<Rightarrow> mem \<Rightarrow> bool" where
  kms_request: "rnd_ok rnd \<Longrightarrow> kms_HandleV1 rfc rnd e r parts s = Some (resp, s') \<Longrightarrow> kms_step s s'"
| kms_other: "only_ns N s s' \<Longrightarrow> nsKeyRings \<notin> N \<Longrightarrow> nsCryptoKeys \<notin> N \<Longrightarrow> kms_step s s'"

definition kms_init :: "mem \<Rightarrow> bool" where
  "kms_init s \<longleftrightarrow> mem_ok s \<and> (\<forall>k. mem_lookup s nsKeyRings k = None \<and> mem_lookup s nsCryptoKeys k = None)"

text \<open>What a request does to the store: nothing, a new ring, or a new key in a ring that exists.\<close>

lemma kms_request_effect:
  assumes "kms_HandleV1 rfc rnd e r parts s = Some (resp, s')" "rnd_ok rnd"
  shows "s' = s \<or>
    (\<exists>k. mem_lookup s nsKeyRings (kr_Name k) = None \<and> s' = mput s nsKeyRings (kr_Name k) (JsonB (enc_keyRing k))) \<or>
    (\<exists>k p l ring i. ck_Name k = cryptoKeyName p l ring i \<and> key_ok k \<and> mem_lookup s nsCryptoKeys (ck_Name k) = None \<and>
       mem_lookup s nsKeyRings (keyRingName p l ring) \<noteq> None \<and> s' = mput s nsCryptoKeys (ck_Name k) (JsonB (enc_storedKey k)))"
proof -
  consider "s' = s" | p l where "keyRingCollection rfc e r p l s = (resp, s')"
    | p l ring where "cryptoKeyCollection rfc rnd e r p l ring s = (resp, s')"
    using assms(1) by (auto simp: kms_HandleV1_def keyRingItem_def cryptoKeyItem_def Let_def
        split: if_splits sum.splits prod.splits)
  then show ?thesis
  proof cases
    case 2
    have "s' = s \<or> (\<exists>n t. mem_lookup s nsKeyRings n = None \<and>
        s' = mput s nsKeyRings n (JsonB (enc_keyRing \<lparr>kr_Name = n, kr_CreateTime = t\<rparr>)))"
      using 2 by (auto simp: keyRingCollection_def Get_lookup Let_def split: meth.splits if_splits option.splits)
    then show ?thesis by (metis keyRingResource.select_convs(1))
  next
    case 3
    show ?thesis
    proof (cases "s' = s")
      case False
      with 3 obtain i pu t b where k: "mem_lookup s nsCryptoKeys (cryptoKeyName p l ring i) = None" "rnd 32 = Inr b"
        "mem_lookup s nsKeyRings (keyRingName p l ring) \<noteq> None"
        "s' = mput s nsCryptoKeys (cryptoKeyName p l ring i) (JsonB (enc_storedKey
          \<lparr>ck_Name = cryptoKeyName p l ring i, ck_Purpose = pu, ck_CreateTime = t, ck_Key = b64_encode b\<rparr>))"
        by (auto simp: cryptoKeyCollection_def Get_lookup Let_def split: meth.splits if_splits option.splits sum.splits)
      moreover have "length b = 32" using assms(2) k(2) by (simp add: rnd_ok_def)
      ultimately show ?thesis
        by (intro disjI2 exI [of _ "\<lparr>ck_Name = cryptoKeyName p l ring i, ck_Purpose = pu, ck_CreateTime = t, ck_Key = b64_encode b\<rparr>"]
          exI [of _ p] exI [of _ l] exI [of _ ring] exI [of _ i]) (auto simp: key_ok_def)
    qed simp
  qed simp
qed

lemma kms_step_inv:
  assumes "kms_step s s'" "kms_inv s"
  shows "kms_inv s'"
  using assms
proof (induction rule: kms_step.induct)
  case (kms_request rnd rfc e r parts s resp s')
  have ok: "mem_ok s" using kms_request.prems by (simp add: kms_inv_def)
  from kms_request_effect [OF kms_request(2,1)] show ?case
  proof (elim disjE exE conjE)
    fix k assume s': "s' = mput s nsKeyRings (kr_Name k) (JsonB (enc_keyRing k))"
    show ?thesis using kms_request.prems ok unfolding kms_inv_def s'
      by (simp add: typed_ns_mput typed_ns_mput_other) metis
  next
    fix k p l ring i
    assume s': "s' = mput s nsCryptoKeys (ck_Name k) (JsonB (enc_storedKey k))" "key_ok k"
      "ck_Name k = cryptoKeyName p l ring i" "mem_lookup s nsKeyRings (keyRingName p l ring) \<noteq> None"
    show ?thesis using kms_request.prems ok s'(2-) unfolding kms_inv_def s'(1)
      by (simp add: typed_ns_mput typed_ns_mput_other) blast
  qed (use kms_request.prems in simp)
next
  case (kms_other N s s')
  then have "mem_lookup s' nsKeyRings = mem_lookup s nsKeyRings" "mem_lookup s' nsCryptoKeys = mem_lookup s nsCryptoKeys"
    by (auto simp: only_ns_def)
  then show ?case using kms_other.prems only_ns_ok [OF kms_other(1)]
    by (simp add: kms_inv_def typed_ns_def)
qed

lemma kms_init_inv: "kms_init s \<Longrightarrow> kms_inv s"
  by (simp add: kms_init_def kms_inv_def typed_ns_def)

interpretation kmm: machine kms_init kms_step kms_inv
  by unfold_locales (rule kms_init_inv kms_step_inv; assumption)+

lemma kms_keys_stay:
  assumes "kms_step\<^sup>*\<^sup>* s s'" "kms_inv s" "mem_lookup s nsCryptoKeys k = Some d"
  shows "mem_lookup s' nsCryptoKeys k = Some d"
  using assms
proof (induction rule: rtranclp_induct)
  case (step y z)
  have inv: "kms_inv y" using kmm.run_inv [OF step(1) step(4)] .
  have y: "mem_lookup y nsCryptoKeys k = Some d" using step by simp
  from step(2) show ?case
  proof cases
    case (kms_request rnd rfc e r parts resp)
    have "mem_ok y" using inv by (simp add: kms_inv_def)
    then show ?thesis using kms_request_effect [OF kms_request(2,1)] y by auto
  qed (use y in \<open>simp add: only_ns_def\<close>)
qed simp

section \<open>Properties\<close>

text \<open>
  C37: In every reachable state each stored key is a document the service made, under its own name, with 256 bits of
  material, and the key ring it names exists.
\<close>

theorem kms_keys_well_formed:
  assumes "reach kms_init kms_step s" "mem_lookup s nsCryptoKeys k = Some d"
  shows "\<exists>p l ring i key raw. k = cryptoKeyName p l ring i \<and> mem_lookup s nsKeyRings (keyRingName p l ring) \<noteq> None \<and>
    d = JsonB (enc_storedKey key) \<and> ck_Name key = k \<and> loadKey rfc s k = Some raw \<and> length raw = 32"
proof -
  have inv: "kms_inv s" using kmm.reach_inv [OF assms(1)] .
  then obtain p l ring i where n: "k = cryptoKeyName p l ring i" "mem_lookup s nsKeyRings (keyRingName p l ring) \<noteq> None"
    using assms(2) unfolding kms_inv_def by (metis option.distinct(1))
  from inv have "typed_ns enc_storedKey key_ok ck_Name nsCryptoKeys s" by (simp add: kms_inv_def)
  from key_res.lookup_read [OF this assms(2), of rfc] obtain key where key: "unmarshal_storedKey rfc d = (key, True)"
    "key_ok key" "ck_Name key = k" "d = JsonB (enc_storedKey key)" by blast
  then obtain raw where "length raw = 32" "ck_Key key = b64_encode raw" by (auto simp: key_ok_def)
  with key assms(2) have "loadKey rfc s k = Some raw" by (simp add: loadKey_def Get_lookup)
  with n key \<open>length raw = 32\<close> show ?thesis by blast
qed

definition kms_path :: "string \<Rightarrow> string \<Rightarrow> string \<Rightarrow> string \<Rightarrow> string list" where
  "kms_path p l ring seg = [''projects'', p, ''locations'', l, ''keyRings'', ring, ''cryptoKeys'', seg]"

lemma kms_HandleV1_key:
  "kms_HandleV1 rfc rnd e r (kms_path p l ring (k @ '':encrypt'')) s = Some (kms_encrypt rfc rnd r (cryptoKeyName p l ring k) s, s)"
  "kms_HandleV1 rfc rnd e r (kms_path p l ring (k @ '':decrypt'')) s = Some (kms_decrypt rfc r (cryptoKeyName p l ring k) s, s)"
  using splitAction_append [of "''encrypt''" k] splitAction_append [of "''decrypt''" k]
  by (simp_all add: kms_HandleV1_def kms_path_def cryptoKeyItem_def)

lemma body_field: "fld_str k (JObj [(k, JStr v)]) = (v, True)"
  by (simp add: fld_str_def)


section \<open>Witnesses\<close>

definition kms_e :: go_env where
  "kms_e = \<lparr>e_now = (\<lambda>_. 1), e_range = (\<lambda>xs. xs)\<rparr>"

definition kms_req :: "(string \<times> string) list \<Rightarrow> json option \<Rightarrow> http_req" where
  "kms_req q b = \<lparr>r_method = POST, r_path = [], r_query = q, r_header = [], r_host = [], r_tls = False,
     r_contentLength = 0, r_bytes = [], r_json = b\<rparr>"

definition kms_rnd0 :: rand_read where
  "kms_rnd0 n = Inr (replicate n (CHR ''x''))"

definition kms_ring :: keyRingResource where
  "kms_ring = \<lparr>kr_Name = keyRingName ''p'' ''l'' ''r'', kr_CreateTime = 1\<rparr>"

definition kms_key :: cryptoKeyStored where
  "kms_key = \<lparr>ck_Name = cryptoKeyName ''p'' ''l'' ''r'' ''k'', ck_Purpose = ''ENCRYPT_DECRYPT'', ck_CreateTime = 1,
     ck_Key = b64_encode (replicate 32 (CHR ''x''))\<rparr>"

definition kms_mem1 :: mem where
  "kms_mem1 = mput NewMemory nsKeyRings (kr_Name kms_ring) (JsonB (enc_keyRing kms_ring))"

definition kms_mem :: mem where
  "kms_mem = mput kms_mem1 nsCryptoKeys (ck_Name kms_key) (JsonB (enc_storedKey kms_key))"

lemma lookup_kms_mem1 [simp]: "mem_ok kms_mem1"
  "mem_lookup kms_mem1 = upd2 (\<lambda>_ _. None) nsKeyRings (kr_Name kms_ring) (Some (JsonB (enc_keyRing kms_ring)))"
  by (simp_all add: kms_mem1_def)

lemma kms_mem_key: "mem_lookup kms_mem nsCryptoKeys (cryptoKeyName ''p'' ''l'' ''r'' ''k'') \<noteq> None"
  by (simp add: kms_mem_def kms_key_def)

lemma kms_mem_reach: "reach kms_init kms_step kms_mem"
proof -
  have ok: "rnd_ok kms_rnd0" by (simp add: rnd_ok_def kms_rnd0_def)
  have "reach kms_init kms_step NewMemory"
    by (rule reach_init) (simp add: kms_init_def)
  moreover have "kms_HandleV1 (\<lambda>_. None) kms_rnd0 kms_e (kms_req [(''keyRingId'', ''r'')] None)
      [''projects'', ''p'', ''locations'', ''l'', ''keyRings''] NewMemory = Some (respJSON 200 (enc_keyRing kms_ring), kms_mem1)"
    by (simp add: kms_HandleV1_def keyRingCollection_def kms_req_def get_first_def Get_lookup kms_e_def kms_ring_def
      kms_mem1_def Let_def)
  then have "kms_step NewMemory kms_mem1" by (rule kms_request [OF ok])
  moreover have "kms_HandleV1 (\<lambda>_. None) kms_rnd0 kms_e (kms_req [(''cryptoKeyId'', ''k'')] None)
      [''projects'', ''p'', ''locations'', ''l'', ''keyRings'', ''r'', ''cryptoKeys''] kms_mem1 =
      Some (respJSON 200 (enc_cryptoKey (public_key kms_key)), kms_mem)"
    by (simp add: kms_HandleV1_def cryptoKeyCollection_def kms_req_def get_first_def Get_lookup kms_e_def kms_key_def
      kms_mem_def kms_rnd0_def kms_ring_def Let_def)
  then have "kms_step kms_mem1 kms_mem" by (rule kms_request [OF ok])
  ultimately show ?thesis by (blast intro: reach_step)
qed

theorem kms_keys_well_formed_witness:
  "\<exists>d p l ring i key raw. cryptoKeyName ''p'' ''l'' ''r'' ''k'' = cryptoKeyName p l ring i \<and>
    mem_lookup kms_mem nsKeyRings (keyRingName p l ring) \<noteq> None \<and>
    d = JsonB (enc_storedKey key) \<and> ck_Name key = cryptoKeyName ''p'' ''l'' ''r'' ''k'' \<and>
    loadKey (\<lambda>_. None) kms_mem (cryptoKeyName ''p'' ''l'' ''r'' ''k'') = Some raw \<and> length raw = 32"
  using kms_keys_well_formed [OF kms_mem_reach, of "cryptoKeyName ''p'' ''l'' ''r'' ''k''" _ "\<lambda>_. None"] kms_mem_key by blast


end
