(* ===== verification/Go_Time.thy ===== *)
theory Go_Time
  imports Go_Prelude
begin

text \<open>
  The part of package \<^verbatim>\<open>time\<close> that turns times into texts: the proleptic Gregorian calendar in UTC,
  \<^verbatim>\<open>Format(time.RFC3339)\<close>, \<^verbatim>\<open>Format(time.RFC3339Nano)\<close> and \<^verbatim>\<open>AddDate\<close>.  A time is a number of nanoseconds since January 1 of year 1.
  Also the quoting of \<^verbatim>\<open>%q\<close> and the formatting of numbers with leading zeros.
\<close>

definition ns_per_second :: int where "ns_per_second = 1000000000"
definition ns_per_day :: int where "ns_per_day = 86400 * ns_per_second"

text \<open>Days since January 1 of year 1, counted in cycles of 400 years that start in March.\<close>

definition civil_of_days :: "int \<Rightarrow> int \<times> int \<times> int" where
  "civil_of_days days = (let z = days + 306; era = z div 146097; doe = z mod 146097;
     yoe = (doe - doe div 1460 + doe div 36524 - doe div 146096) div 365;
     doy = doe - (365 * yoe + yoe div 4 - yoe div 100);
     mp = (5 * doy + 2) div 153;
     d = doy - (153 * mp + 2) div 5 + 1;
     m = (if mp < 10 then mp + 3 else mp - 9);
     y = yoe + era * 400
   in (if m \<le> 2 then y + 1 else y, m, d))"

definition days_of_civil :: "int \<times> int \<times> int \<Rightarrow> int" where
  "days_of_civil ymd = (case ymd of (y0, m, d) \<Rightarrow>
     let y = (if m \<le> 2 then y0 - 1 else y0); era = y div 400; yoe = y mod 400;
         doy = (153 * (if m > 2 then m - 3 else m + 9) + 2) div 5 + d - 1;
         doe = yoe * 365 + yoe div 4 - yoe div 100 + doy
     in era * 146097 + doe - 306)"

fun pad_left :: "nat \<Rightarrow> string \<Rightarrow> string" where
  "pad_left n s = replicate (n - length s) (CHR ''0'') @ s"

text \<open>The date and the time of day, and the rest of the second in nanoseconds.\<close>

definition clock_text :: "time \<Rightarrow> string" where
  "clock_text t = (let (y, m, d) = civil_of_days (t div ns_per_day);
       sec = (t mod ns_per_day) div ns_per_second in
     pad_left 4 (itoai y) @ ''-'' @ pad_left 2 (itoai m) @ ''-'' @ pad_left 2 (itoai d) @ ''T'' @
     pad_left 2 (itoai (sec div 3600)) @ '':'' @ pad_left 2 (itoai (sec div 60 mod 60)) @ '':'' @ pad_left 2 (itoai (sec mod 60)))"

definition format_RFC3339 :: "time \<Rightarrow> string" where
  "format_RFC3339 t = clock_text t @ ''Z''"

definition format_RFC3339Nano :: "time \<Rightarrow> string" where
  "format_RFC3339Nano t = (let ns = t mod ns_per_second;
       frac = rev (dropWhile (\<lambda>c. c = CHR ''0'') (rev (pad_left 9 (itoai ns)))) in
     clock_text t @ (if frac = [] then [] else CHR ''.'' # frac) @ ''Z'')"

text \<open>\<^verbatim>\<open>t.AddDate(n, 0, 0)\<close>: the same day and time of day \<open>n\<close> years later; February 29 becomes March 1 in a common year.\<close>

definition add_years :: "int \<Rightarrow> time \<Rightarrow> time" where
  "add_years n t = (let (y, m, d) = civil_of_days (t div ns_per_day) in
     days_of_civil (y + n, m, d) * ns_per_day + t mod ns_per_day)"

definition unix_epoch_days :: int where "unix_epoch_days = 719162"

definition unix_seconds :: "time \<Rightarrow> int" where
  "unix_seconds t = t div ns_per_second - unix_epoch_days * 86400"

definition unix_nanos :: "time \<Rightarrow> int" where
  "unix_nanos t = wrap64 (t - unix_epoch_days * ns_per_day)"

section \<open>Quoting\<close>

definition hex_digit :: "nat \<Rightarrow> char" where
  "hex_digit n = (if n < 10 then digit n else char_of (87 + n))"

text \<open>\<^verbatim>\<open>%q\<close> on text: quotes, backslashes and control characters are escaped; other characters are kept.\<close>

definition quote_char :: "char \<Rightarrow> string" where
  "quote_char c = (let n = (of_char c :: nat) in
     if n = 34 \<or> n = 92 then [CHR 0x5C, c]
     else if n = 7 then [CHR 0x5C, CHR ''a''] else if n = 8 then [CHR 0x5C, CHR ''b'']
     else if n = 9 then [CHR 0x5C, CHR ''t''] else if n = 10 then [CHR 0x5C, CHR ''n'']
     else if n = 11 then [CHR 0x5C, CHR ''v''] else if n = 12 then [CHR 0x5C, CHR ''f'']
     else if n = 13 then [CHR 0x5C, CHR ''r'']
     else if n < 32 \<or> n = 127 then [CHR 0x5C, CHR ''x'', hex_digit (n div 16), hex_digit (n mod 16)]
     else [c])"

definition go_quote :: "string \<Rightarrow> string" where
  "go_quote s = [CHR 0x22] @ concat (map quote_char s) @ [CHR 0x22]"

end
