(* ===== verification/Iam_Policy.thy ===== *)
theory Iam_Policy
  imports Resource_Codec Httpresp Go_Base64
begin

text \<open>
  Package \<^verbatim>\<open>internal/iam\<close>: the policy of a resource, kept in the store under the resource's name,
  and the handlers of the IAM verbs.  \<open>sha1\<close> stands for \<^verbatim>\<open>sha1.Sum\<close> on the text of a JSON document.
\<close>

definition iam_Namespace :: string where "iam_Namespace = ''iam/policies''"

lemmas [ns_defs] = iam_Namespace_def

text \<open>A nil slice is \<open>None\<close>, since it marshals as null; an absent condition is \<open>None\<close>.\<close>

record Binding =
  b_Role :: string
  b_Members :: "string list option"
  b_Condition :: "json option"

record Policy =
  p_Version :: int
  p_Bindings :: "Binding list option"
  p_Etag :: string

definition enc_binding :: "Binding \<Rightarrow> json" where
  "enc_binding b = JObj ([(''role'', JStr (b_Role b)),
     (''members'', case b_Members b of None \<Rightarrow> JNull | Some ms \<Rightarrow> jstrs ms)] @
     (case b_Condition b of None \<Rightarrow> [] | Some c \<Rightarrow> [(''condition'', c)]))"

definition enc_policy :: "Policy \<Rightarrow> json" where
  "enc_policy p = JObj ([(''version'', JNum (p_Version p)),
     (''bindings'', case p_Bindings p of None \<Rightarrow> JNull | Some bs \<Rightarrow> JArr (map enc_binding bs))] @
     omit (p_Etag p = []) ''etag'' (JStr (p_Etag p)))"

definition dec_binding :: "json \<Rightarrow> Binding \<times> bool" where
  "dec_binding j = (let (r, ok1) = fld_str ''role'' j; (m, ok2) = fld_strlist ''members'' j in
     (\<lparr>b_Role = r, b_Members = m, b_Condition = jget ''condition'' j\<rparr>, is_struct_doc j \<and> ok1 \<and> ok2))"

definition dec_bindings :: "json option \<Rightarrow> Binding list option \<times> bool" where
  "dec_bindings jo = (case jo of None \<Rightarrow> (None, True) | Some JNull \<Rightarrow> (None, True)
     | Some (JArr bs) \<Rightarrow> (Some (map (fst \<circ> dec_binding) bs), list_all (snd \<circ> dec_binding) bs)
     | Some _ \<Rightarrow> (None, False))"

definition dec_policy :: "json \<Rightarrow> Policy \<times> bool" where
  "dec_policy j = (let (v, ok1) = fld_int ''version'' j; (b, ok2) = dec_bindings (jget ''bindings'' j);
       (t, ok3) = fld_str ''etag'' j in
     (\<lparr>p_Version = v, p_Bindings = b, p_Etag = t\<rparr>, is_struct_doc j \<and> ok1 \<and> ok2 \<and> ok3))"

section \<open>The policy store\<close>

definition computeEtag :: "(json \<Rightarrow> string) \<Rightarrow> Policy \<Rightarrow> string" where
  "computeEtag sha1 p = b64_encode (take 8 (sha1 (enc_policy
     \<lparr>p_Version = p_Version p, p_Bindings = p_Bindings p, p_Etag = []\<rparr>)))"

definition emptyEtag :: "(json \<Rightarrow> string) \<Rightarrow> string" where
  "emptyEtag sha1 = computeEtag sha1 \<lparr>p_Version = 1, p_Bindings = Some [], p_Etag = []\<rparr>"

definition some_bindings :: "Policy \<Rightarrow> Policy" where
  "some_bindings p = (if p_Bindings p = None then p\<lparr>p_Bindings := Some []\<rparr> else p)"

definition iam_Get :: "(json \<Rightarrow> string) \<Rightarrow> mem \<Rightarrow> string \<Rightarrow> string + Policy" where
  "iam_Get sha1 s resource = (case Get s iam_Namespace resource of
     Inl er \<Rightarrow> if er = ErrNotFound
       then Inr \<lparr>p_Version = 1, p_Bindings = Some [], p_Etag = emptyEtag sha1\<rparr> else Inl (err_text er)
   | Inr (RawB _) \<Rightarrow> Inl ''invalid json''
   | Inr (JsonB j) \<Rightarrow> (let (p, ok) = dec_policy j in
       if \<not> ok then Inl ''invalid json'' else Inr (some_bindings p)))"

definition iam_Set :: "(json \<Rightarrow> string) \<Rightarrow> mem \<Rightarrow> string \<Rightarrow> Policy \<Rightarrow> string + (Policy \<times> mem)" where
  "iam_Set sha1 s resource p =
     (let p = (if p_Version p = 0 then p\<lparr>p_Version := 1\<rparr> else p);
          p = some_bindings p;
          p = p\<lparr>p_Etag := computeEtag sha1 p\<rparr>
      in (case Put s iam_Namespace resource (JsonB (enc_policy p)) of
            Inl er \<Rightarrow> Inl (err_text er) | Inr s' \<Rightarrow> Inr (p, s')))"

definition iam_Delete :: "mem \<Rightarrow> string \<Rightarrow> store_err + mem" where
  "iam_Delete s resource = (case Delete s iam_Namespace resource of
     Inl er \<Rightarrow> if er = ErrNotFound then Inr s else Inl er | Inr s' \<Rightarrow> Inr s')"

definition IsVerb :: "string \<Rightarrow> bool" where
  "IsVerb action = (action \<in> {''getIamPolicy'', ''setIamPolicy'', ''testIamPermissions''})"

section \<open>Handlers\<close>

definition iam_handleGet :: "(json \<Rightarrow> string) \<Rightarrow> http_req \<Rightarrow> string \<Rightarrow> mem \<Rightarrow> http_resp \<times> mem" where
  "iam_handleGet sha1 r resource s = (if r_method r \<noteq> POST then (methodNotAllowed, s)
     else (case iam_Get sha1 s resource of Inl m \<Rightarrow> (respErr 500 m, s)
       | Inr p \<Rightarrow> (respJSON 200 (enc_policy p), s)))"

definition iam_handleSet :: "(json \<Rightarrow> string) \<Rightarrow> http_req \<Rightarrow> string \<Rightarrow> mem \<Rightarrow> http_resp \<times> mem" where
  "iam_handleSet sha1 r resource s = (if r_method r \<noteq> POST then (methodNotAllowed, s)
     else (case r_json r of None \<Rightarrow> (respErr 400 ''invalid json'', s)
       | Some j \<Rightarrow> (let (p, ok1) = dec_policy (fld_doc ''policy'' j); (_, ok2) = fld_str ''updateMask'' j in
           if \<not> (is_struct_doc j \<and> ok1 \<and> ok2) then (respErr 400 ''invalid json'', s)
           else (case iam_Set sha1 s resource p of Inl m \<Rightarrow> (respErr 500 m, s)
             | Inr (out, s') \<Rightarrow> (respJSON 200 (enc_policy out), s')))))"

definition iam_handleTest :: "http_req \<Rightarrow> mem \<Rightarrow> http_resp \<times> mem" where
  "iam_handleTest r s = (if r_method r \<noteq> POST then (methodNotAllowed, s)
     else (case r_json r of None \<Rightarrow> (respErr 400 ''invalid json'', s)
       | Some j \<Rightarrow> (let (ps, ok) = fld_strlist ''permissions'' j in
           if \<not> (is_struct_doc j \<and> ok) then (respErr 400 ''invalid json'', s)
           else (respJSON 200 (JObj [(''permissions'',
                   jstrs (case ps of None \<Rightarrow> [] | Some x \<Rightarrow> x))]), s))))"

definition iam_Handle :: "(json \<Rightarrow> string) \<Rightarrow> http_req \<Rightarrow> string \<Rightarrow> string \<Rightarrow> mem \<Rightarrow> (http_resp \<times> mem) option" where
  "iam_Handle sha1 r resource action s =
     (if action = ''getIamPolicy'' then Some (iam_handleGet sha1 r resource s)
      else if action = ''setIamPolicy'' then Some (iam_handleSet sha1 r resource s)
      else if action = ''testIamPermissions'' then Some (iam_handleTest r s)
      else None)"

definition HandleGCSPolicy :: "(json \<Rightarrow> string) \<Rightarrow> http_req \<Rightarrow> string \<Rightarrow> mem \<Rightarrow> http_resp \<times> mem" where
  "HandleGCSPolicy sha1 r resource s = (case r_method r of
     GET \<Rightarrow> (case iam_Get sha1 s resource of Inl m \<Rightarrow> (respErr 500 m, s)
       | Inr p \<Rightarrow> (respJSON 200 (enc_policy p), s))
   | PUT \<Rightarrow> (case r_json r of None \<Rightarrow> (respErr 400 ''invalid json'', s)
       | Some j \<Rightarrow> (let (p, ok) = dec_policy j in
           if \<not> ok then (respErr 400 ''invalid json'', s)
           else (case iam_Set sha1 s resource p of Inl m \<Rightarrow> (respErr 500 m, s)
             | Inr (out, s') \<Rightarrow> (respJSON 200 (enc_policy out), s'))))
   | _ \<Rightarrow> (methodNotAllowed, s))"

text \<open>The values of a repeated query parameter, in order.\<close>

definition query_all :: "http_req \<Rightarrow> string \<Rightarrow> string list" where
  "query_all r k = map snd (filter (\<lambda>(a, _). a = k) (r_query r))"

definition HandleGCSTestPermissions :: "http_req \<Rightarrow> http_resp" where
  "HandleGCSTestPermissions r = (if r_method r \<noteq> GET then methodNotAllowed
     else respJSON 200 (JObj [(''permissions'', jstrs (query_all r ''permissions''))]))"

section \<open>Round trip\<close>

lemma dec_enc_binding [simp]: "dec_binding (enc_binding b) = (b, True)"
  by (cases b; cases "b_Members b"; cases "b_Condition b")
     (auto simp: dec_binding_def enc_binding_def fld_str_def fld_strlist_def jstrs_def eqFold_def
       lower_char_def)

lemma dec_enc_policy [codec]:
  "in_int64 (p_Version p) \<Longrightarrow> dec_policy (enc_policy p) = (p, True)"
  by (cases p; cases "p_Bindings p")
     (auto simp: dec_policy_def enc_policy_def fld_int_def fld_str_def dec_bindings_def omit_def
       eqFold_def lower_char_def comp_def list_all_iff map_idI)

lemma dec_policy_int64: "dec_policy j = (p, ok) \<Longrightarrow> in_int64 (p_Version p)"
  by (auto simp: dec_policy_def fld_int_def in_int64_def
      split: prod.splits option.splits json.splits if_splits)

lemma iam_Set_Get:
  assumes "mem_ok s" "in_int64 (p_Version p)" "iam_Set sha1 s res p = Inr (out, s')"
  shows "iam_Get sha1 s' res = Inr out \<and> mem_ok s' \<and>
    (r' \<noteq> res \<longrightarrow> iam_Get sha1 s' r' = iam_Get sha1 s r')"
proof -
  have s': "s' = mput s iam_Namespace res (JsonB (enc_policy out))"
    and v: "in_int64 (p_Version out)" and b: "p_Bindings out \<noteq> None"
    using assms(2,3) by (auto simp: iam_Set_def Let_def some_bindings_def in_int64_def split: if_splits)
  then show ?thesis
    using assms(1) by (simp add: iam_Get_def Get_lookup dec_enc_policy some_bindings_def)
qed

text \<open>
  A policy round-trips.  When \<^verbatim>\<open>setIamPolicy\<close> succeeds, a following \<^verbatim>\<open>getIamPolicy\<close> of the resource
  is answered with the very document that \<^verbatim>\<open>setIamPolicy\<close> answered with, and the policies of
  all other resources are as before.
\<close>

theorem iam_policy_roundtrip:
  assumes "mem_ok s" "iam_Handle sha1 r res ''setIamPolicy'' s = Some (resp, s')" "rs_code resp = 200"
    and "r_method r' = POST"
  shows "iam_Handle sha1 r' res ''getIamPolicy'' s' = Some (resp, s') \<and>
    (res' = res \<or> iam_Get sha1 s' res' = iam_Get sha1 s res')"
proof -
  from assms(2,3) obtain j p out where p: "dec_policy (fld_doc ''policy'' j) = (p, True)"
    and set: "iam_Set sha1 s res p = Inr (out, s')" and resp: "resp = respJSON 200 (enc_policy out)"
    by (auto simp: iam_Handle_def iam_handleSet_def split: if_splits option.splits prod.splits sum.splits)
  show ?thesis
    using iam_Set_Get [OF assms(1) dec_policy_int64 [OF p] set, of res'] resp assms(4)
    by (auto simp: iam_Handle_def iam_handleGet_def)
qed

definition policy_req :: http_req where
  "policy_req = \<lparr>r_method = POST, r_path = [], r_query = [], r_header = [], r_host = [], r_tls = False,
     r_contentLength = 0, r_bytes = [], r_json = Some (JObj [(''policy'', JObj [(''bindings'',
       JArr [JObj [(''role'', JStr ''viewer''), (''members'', jstrs [''user:a''])]])])])\<rparr>"

theorem iam_policy_roundtrip_witness:
  "iam_Handle (\<lambda>_. ''12345678'') policy_req ''b'' ''getIamPolicy''
      (snd (iam_handleSet (\<lambda>_. ''12345678'') policy_req ''b'' NewMemory)) =
    Some (iam_handleSet (\<lambda>_. ''12345678'') policy_req ''b'' NewMemory)"
proof -
  let ?h = "iam_handleSet (\<lambda>_. ''12345678'') policy_req ''b'' NewMemory"
  have "rs_code (fst ?h) = 200"
    by (simp add: iam_handleSet_def policy_req_def fld_doc_def dec_policy_def fld_int_def dec_bindings_def
        dec_binding_def fld_str_def fld_strlist_def jstrs_def eqFold_def lower_char_def iam_Set_def Let_def)
  then show ?thesis
    using iam_policy_roundtrip [of NewMemory "\<lambda>_. ''12345678''" policy_req "''b''" "fst ?h" "snd ?h" policy_req]
    by (simp add: iam_Handle_def policy_req_def)
qed

end
