(* ===== verification/Log_Filter.thy ===== *)
theory Log_Filter
  imports Go_Prelude
begin

text \<open>
  The filter language of \<^verbatim>\<open>internal/services/logging/filter.go\<close>: tokeniser, parser and evaluation, with the log entry they
  are about.  The scanner works on the rest of the text instead of an index.  \<open>rfc\<close> is
  \<^verbatim>\<open>time.Parse(time.RFC3339, _)\<close>.
\<close>

section \<open>Entries and predicates\<close>

text \<open>A nil map is \<open>None\<close>.\<close>

record logEntry =
  le_LogName :: string
  le_Resource :: "(string \<times> json) list option"
  le_Timestamp :: time
  le_Severity :: string
  le_TextPayload :: string
  le_JSONPayload :: "(string \<times> json) list option"
  le_Labels :: "(string \<times> json) list option"
  le_InsertID :: string

type_synonym predicate = "logEntry \<Rightarrow> bool"

definition severityRank :: "string \<Rightarrow> int option" where
  "severityRank s = map_of [(''DEFAULT'', 0), (''DEBUG'', 100), (''INFO'', 200), (''NOTICE'', 300), (''WARNING'', 400),
     (''ERROR'', 500), (''CRITICAL'', 600), (''ALERT'', 700), (''EMERGENCY'', 800)] s"

text \<open>\<^verbatim>\<open>m[k].(string)\<close> on a decoded JSON object: the last member with the key, the empty string unless it is a string.\<close>

definition any_string :: "json option \<Rightarrow> string" where
  "any_string v = (case v of Some (JStr s) \<Rightarrow> s | _ \<Rightarrow> [])"

definition jlook :: "(string \<times> json) list option \<Rightarrow> string \<Rightarrow> json option" where
  "jlook m k = (case m of None \<Rightarrow> None | Some ms \<Rightarrow> map_of (rev ms) k)"

definition any_map :: "json option \<Rightarrow> (string \<times> json) list option" where
  "any_map v = (case v of Some (JObj ms) \<Rightarrow> Some ms | _ \<Rightarrow> None)"

section \<open>Tokens\<close>

datatype tokKind = tIdent | tString | tNumber | tOp | tAnd

type_synonym token = "tokKind \<times> string"

definition isIdentStart :: "char \<Rightarrow> bool" where
  "isIdentStart c = (let n = (of_char c :: nat) in
     (97 \<le> n \<and> n \<le> 122) \<or> (65 \<le> n \<and> n \<le> 90) \<or> c = CHR ''_'' \<or> c = CHR ''/'')"

definition isIdentCont :: "char \<Rightarrow> bool" where
  "isIdentCont c = (isIdentStart c \<or> is_digit c \<or> c = CHR ''.'' \<or> c = CHR ''-'')"

definition isNumber :: "string \<Rightarrow> bool" where
  "isNumber s = (case s of [] \<Rightarrow> False
     | c # r \<Rightarrow> (is_digit c \<or> c = CHR ''-'' \<or> c = CHR ''+'') \<and> list_all is_digit r)"

fun unescape :: "string \<Rightarrow> string" where
  "unescape [] = []"
| "unescape (c # s) = (if c = CHR 0x5C
     then (case s of [] \<Rightarrow> [c] | d # r \<Rightarrow> d # unescape r)
     else c # unescape s)"

text \<open>The literal after its opening quote: the raw text, and what follows the closing quote.\<close>

fun string_lit :: "string \<Rightarrow> (string \<times> string) option" where
  "string_lit [] = None"
| "string_lit (c # s) = (if c = CHR 0x22 then Some ([], s)
     else if c = CHR 0x5C
     then (case s of [] \<Rightarrow> None
       | d # r \<Rightarrow> (case string_lit r of None \<Rightarrow> None | Some (raw, rest) \<Rightarrow> Some (c # d # raw, rest)))
     else (case string_lit s of None \<Rightarrow> None | Some (raw, rest) \<Rightarrow> Some (c # raw, rest)))"

lemma string_lit_length: "string_lit s = Some (raw, rest) \<Longrightarrow> length rest < length s"
  by (induction s arbitrary: raw rest rule: string_lit.induct)
     (fastforce split: if_splits list.splits option.splits)+

definition word_token :: "string \<Rightarrow> string + token" where
  "word_token w = (let up = toUpper w in
     if up = ''AND'' then Inr (tAnd, ''AND'')
     else if up = ''OR'' \<or> up = ''NOT'' then Inl (up @ '' is not supported; only AND between predicates'')
     else if isNumber w then Inr (tNumber, w) else Inr (tIdent, w))"

definition add_token :: "token \<Rightarrow> string + token list \<Rightarrow> string + token list" where
  "add_token t r = (case r of Inl er \<Rightarrow> Inl er | Inr ts \<Rightarrow> Inr (t # ts))"

function (sequential) tokenize :: "string \<Rightarrow> string + token list" where
  "tokenize [] = Inr []"
| "tokenize (c # s) =
     (if c = CHR '' '' \<or> c = CHR 0x09 \<or> c = CHR 0x0A then tokenize s
      else if c = CHR 0x22
      then (case string_lit s of None \<Rightarrow> Inl ''unterminated string literal''
        | Some (raw, rest) \<Rightarrow> add_token (tString, unescape raw) (tokenize rest))
      else if c = CHR ''='' \<or> c = CHR ''!'' \<or> c = CHR ''<'' \<or> c = CHR ''>''
      then (if s \<noteq> [] \<and> hd s = CHR ''='' then add_token (tOp, [c, CHR ''='']) (tokenize (tl s))
            else if c = CHR ''!'' then Inl ''expected != ''
            else add_token (tOp, [c]) (tokenize s))
      else if c = CHR ''('' \<or> c = CHR '')'' then Inl ''parentheses are not supported''
      else if isIdentStart c
      then (case word_token (c # takeWhile isIdentCont s) of Inl er \<Rightarrow> Inl er
        | Inr t \<Rightarrow> add_token t (tokenize (dropWhile isIdentCont s)))
      else Inl ''unexpected character in filter'')"
  by pat_completeness auto
termination
  by (relation "measure length")
     (auto simp: string_lit_length less_Suc_eq_le length_dropWhile_le dest!: string_lit_length)

section \<open>Predicates\<close>

definition numericCmp :: "string \<Rightarrow> string + (int \<Rightarrow> int \<Rightarrow> bool)" where
  "numericCmp op = (if op = ''='' then Inr (\<lambda>a b. a = b) else if op = ''!='' then Inr (\<lambda>a b. a \<noteq> b)
     else if op = ''>'' then Inr (\<lambda>a b. a > b) else if op = ''>='' then Inr (\<lambda>a b. a \<ge> b)
     else if op = ''<'' then Inr (\<lambda>a b. a < b) else if op = ''<='' then Inr (\<lambda>a b. a \<le> b)
     else Inl (''unsupported operator '' @ op))"

definition timeCmp :: "string \<Rightarrow> string + (time \<Rightarrow> time \<Rightarrow> bool)" where
  "timeCmp op = (if op = ''='' then Inr (\<lambda>a b. a = b) else if op = ''!='' then Inr (\<lambda>a b. \<not> a = b)
     else if op = ''>'' then Inr (\<lambda>a b. b < a) else if op = ''>='' then Inr (\<lambda>a b. b < a \<or> a = b)
     else if op = ''<'' then Inr (\<lambda>a b. a < b) else if op = ''<='' then Inr (\<lambda>a b. a < b \<or> a = b)
     else Inl (''unsupported operator '' @ op))"

text \<open>The rank of a numeric severity: every byte of the text counts as a digit, in byte and 64-bit arithmetic.\<close>

definition numeric_rank :: "string \<Rightarrow> int" where
  "numeric_rank s = foldl (\<lambda>n c. wrap64 (n * 10 + (int (of_char c) - 48) mod 256)) 0 s"

definition eq_test :: "string \<Rightarrow> bool \<Rightarrow> bool" where
  "eq_test op eq = (if op = ''='' then eq else \<not> eq)"

definition buildPredicate :: "(string \<Rightarrow> time option) \<Rightarrow> string \<Rightarrow> string \<Rightarrow> string \<Rightarrow> string + predicate" where
  "buildPredicate rfc field op val =
    (if field = ''severity''
     then (case (case severityRank (toUpper val) of Some n \<Rightarrow> Some n
              | None \<Rightarrow> if \<not> isNumber val then None else Some (numeric_rank val)) of
        None \<Rightarrow> Inl (''unknown severity '' @ val)
      | Some want \<Rightarrow> (case numericCmp op of Inl er \<Rightarrow> Inl er
          | Inr cmp \<Rightarrow> Inr (\<lambda>e. cmp (case severityRank (toUpper (le_Severity e)) of None \<Rightarrow> 0 | Some n \<Rightarrow> n) want)))
     else if field = ''logName''
     then (if op \<noteq> ''='' \<and> op \<noteq> ''!='' then Inl ''logName supports = and != only''
           else Inr (\<lambda>e. eq_test op (le_LogName e = val)))
     else if field = ''resource.type''
     then (if op \<noteq> ''='' \<and> op \<noteq> ''!='' then Inl ''resource.type supports = and != only''
           else Inr (\<lambda>e. eq_test op (any_string (jlook (le_Resource e) ''type'') = val)))
     else if hasPrefix field ''resource.labels.''
     then (if op \<noteq> ''='' \<and> op \<noteq> ''!='' then Inl ''resource.labels supports = and != only''
           else let key = trimPrefix field ''resource.labels.'' in
             if key = [] then Inl ''resource.labels.<key> requires a key''
             else Inr (\<lambda>e. eq_test op (any_string (jlook (any_map (jlook (le_Resource e) ''labels'')) key) = val)))
     else if field = ''timestamp''
     then (case rfc val of None \<Rightarrow> Inl (''timestamp value is not RFC3339: '' @ val)
       | Some ts \<Rightarrow> (case timeCmp op of Inl er \<Rightarrow> Inl er
           | Inr cmp \<Rightarrow> Inr (\<lambda>e. cmp (le_Timestamp e) ts)))
     else Inl (''unsupported field '' @ field))"

section \<open>Parser\<close>

fun parsePredicate :: "(string \<Rightarrow> time option) \<Rightarrow> token list \<Rightarrow> string + (predicate \<times> token list)" where
  "parsePredicate rfc ts = (case ts of
     (tIdent, field) # ts1 \<Rightarrow> (case ts1 of
         (tOp, op) # ts2 \<Rightarrow> (case ts2 of
             (k, val) # ts3 \<Rightarrow> if k = tString \<or> k = tIdent \<or> k = tNumber
               then (case buildPredicate rfc field op val of Inl er \<Rightarrow> Inl er | Inr p \<Rightarrow> Inr (p, ts3))
               else Inl ''expected value''
           | [] \<Rightarrow> Inl ''expected value'')
       | _ \<Rightarrow> Inl ''expected comparison operator'')
   | _ \<Rightarrow> Inl ''expected field name in filter'')"

declare parsePredicate.simps [simp del]

lemma parsePredicate_length: "parsePredicate rfc ts = Inr (p, ts') \<Longrightarrow> length ts' < length ts"
  by (auto simp: parsePredicate.simps split: list.splits prod.splits tokKind.splits if_splits sum.splits)

text \<open>The loop of \<^verbatim>\<open>parseExpr\<close>: as long as the next token is AND, another predicate is conjoined.\<close>

function parse_ands :: "(string \<Rightarrow> time option) \<Rightarrow> predicate \<Rightarrow> token list \<Rightarrow> string + (predicate \<times> token list)" where
  "parse_ands rfc left ts = (case ts of
     (tAnd, _) # ts1 \<Rightarrow> (case parsePredicate rfc ts1 of Inl er \<Rightarrow> Inl er
       | Inr (right, ts2) \<Rightarrow> parse_ands rfc (\<lambda>e. left e \<and> right e) ts2)
   | _ \<Rightarrow> Inr (left, ts))"
  by pat_completeness auto
termination
  by (relation "measure (\<lambda>(_, _, ts). length ts)") (auto dest!: parsePredicate_length)

declare parse_ands.simps [simp del]

definition parseExpr :: "(string \<Rightarrow> time option) \<Rightarrow> token list \<Rightarrow> string + (predicate \<times> token list)" where
  "parseExpr rfc ts = (case parsePredicate rfc ts of Inl er \<Rightarrow> Inl er
     | Inr (left, ts1) \<Rightarrow> parse_ands rfc left ts1)"

definition parseFilter :: "(string \<Rightarrow> time option) \<Rightarrow> string \<Rightarrow> string + predicate" where
  "parseFilter rfc s = (let s = trimSpace s in
     if s = [] then Inr (\<lambda>_. True)
     else (case tokenize s of Inl er \<Rightarrow> Inl er
       | Inr toks \<Rightarrow> (case parseExpr rfc toks of Inl er \<Rightarrow> Inl er
           | Inr (pred, rest) \<Rightarrow> if rest \<noteq> [] then Inl ''unexpected token at end of filter'' else Inr pred)))"

section \<open>What the parser accepts\<close>

text \<open>
  A comparison is a field, an operator and a value token; the tokens of a filter are those of its comparisons
  with AND between them, and its meaning is their conjunction.
\<close>

type_synonym comparison = "string \<times> string \<times> token"

definition builds :: "(string \<Rightarrow> time option) \<Rightarrow> comparison \<Rightarrow> predicate \<Rightarrow> bool" where
  "builds rfc c p = (case c of (f, op, (k, v)) \<Rightarrow> k \<in> {tString, tIdent, tNumber} \<and> buildPredicate rfc f op v = Inr p)"

lemma parsePredicate_iff:
  "parsePredicate rfc ts = Inr (p, ts') \<longleftrightarrow>
    (\<exists>f op v. ts = (tIdent, f) # (tOp, op) # v # ts' \<and> builds rfc (f, op, v) p)"
  by (auto simp: parsePredicate.simps builds_def split: list.splits prod.splits tokKind.splits if_splits sum.splits)

lemma parse_ands_stop: "ts = [] \<or> fst (hd ts) \<noteq> tAnd \<Longrightarrow> parse_ands rfc p ts = Inr (p, ts)"
  by (subst parse_ands.simps) (auto split: list.splits prod.splits tokKind.splits)

definition conj_preds :: "predicate list \<Rightarrow> predicate" where
  "conj_preds ps e = list_all (\<lambda>p. p e) ps"

text \<open>Soundness and completeness of the loop, by induction on the comparisons and on the tokens.\<close>

fun and_tokens :: "(string \<times> comparison) list \<Rightarrow> token list" where
  "and_tokens [] = []"
| "and_tokens ((a, f, op, v) # cs) = (tAnd, a) # (tIdent, f) # (tOp, op) # v # and_tokens cs"

lemma parse_ands_complete:
  "list_all2 (builds rfc) (map snd cs) ps \<Longrightarrow> parse_ands rfc l (and_tokens cs) = Inr (\<lambda>e. l e \<and> conj_preds ps e, [])"
proof (induction cs arbitrary: ps l)
  case Nil
  then show ?case by (simp add: parse_ands_stop conj_preds_def)
next
  case (Cons c cs)
  obtain a f op v where c: "c = (a, f, op, v)" by (metis prod_cases4)
  from Cons.prems obtain p ps' where ps: "ps = p # ps'" "builds rfc (f, op, v) p" "list_all2 (builds rfc) (map snd cs) ps'"
    by (auto simp: c list_all2_Cons1)
  have "parsePredicate rfc ((tIdent, f) # (tOp, op) # v # and_tokens cs) = Inr (p, and_tokens cs)"
    using ps(2) by (simp add: parsePredicate_iff)
  then have "parse_ands rfc l (and_tokens (c # cs)) = parse_ands rfc (\<lambda>e. l e \<and> p e) (and_tokens cs)"
    by (subst parse_ands.simps) (simp add: c)
  with Cons.IH [OF ps(3)] show ?case by (simp add: ps(1) conj_preds_def conj_assoc)
qed

lemma parse_ands_sound:
  "parse_ands rfc l ts = Inr (q, []) \<Longrightarrow>
    \<exists>cs ps. ts = and_tokens cs \<and> list_all2 (builds rfc) (map snd cs) ps \<and> q = (\<lambda>e. l e \<and> conj_preds ps e)"
proof (induction rfc l ts arbitrary: q rule: parse_ands.induct)
  case (1 rfc l ts)
  show ?case
  proof (cases "ts = [] \<or> fst (hd ts) \<noteq> tAnd")
    case True
    with "1.prems" have "ts = []" "q = l" by (auto simp: parse_ands_stop)
    then show ?thesis by (intro exI [of _ "[]"]) (simp add: conj_preds_def)
  next
    case False
    then obtain a ts1 where ts: "ts = (tAnd, a) # ts1" by (cases ts) auto
    with "1.prems" obtain r ts2 where pp: "parsePredicate rfc ts1 = Inr (r, ts2)"
      and rec: "parse_ands rfc (\<lambda>e. l e \<and> r e) ts2 = Inr (q, [])"
      by (subst (asm) parse_ands.simps) (auto split: sum.splits)
    from 1(1) [OF ts refl refl pp refl rec] obtain cs ps where IH: "ts2 = and_tokens cs"
      "list_all2 (builds rfc) (map snd cs) ps" "q = (\<lambda>e. (l e \<and> r e) \<and> conj_preds ps e)" by blast
    from pp obtain f op v where "ts1 = (tIdent, f) # (tOp, op) # v # ts2" "builds rfc (f, op, v) r"
      by (auto simp: parsePredicate_iff)
    then show ?thesis
      using IH by (intro exI [of _ "(a, f, op, v) # cs"] exI [of _ "r # ps"]) (auto simp: ts conj_preds_def)
  qed
qed

definition filter_tokens :: "comparison \<Rightarrow> (string \<times> comparison) list \<Rightarrow> token list" where
  "filter_tokens c cs = (case c of (f, op, v) \<Rightarrow> (tIdent, f) # (tOp, op) # v # and_tokens cs)"

lemma parseExpr_iff:
  "parseExpr rfc toks = Inr (p, []) \<longleftrightarrow> (\<exists>c cs ps. toks = filter_tokens c cs \<and>
    list_all2 (builds rfc) (c # map snd cs) ps \<and> p = conj_preds ps)"
proof
  assume "parseExpr rfc toks = Inr (p, [])"
  then obtain l ts1 where pp: "parsePredicate rfc toks = Inr (l, ts1)" and ands: "parse_ands rfc l ts1 = Inr (p, [])"
    by (auto simp: parseExpr_def split: sum.splits)
  from parse_ands_sound [OF ands] obtain cs ps where cs: "ts1 = and_tokens cs" "list_all2 (builds rfc) (map snd cs) ps"
    "p = (\<lambda>e. l e \<and> conj_preds ps e)" by blast
  from pp obtain f op v where "toks = (tIdent, f) # (tOp, op) # v # ts1" "builds rfc (f, op, v) l"
    by (auto simp: parsePredicate_iff)
  with cs show "\<exists>c cs ps. toks = filter_tokens c cs \<and> list_all2 (builds rfc) (c # map snd cs) ps \<and> p = conj_preds ps"
    by (intro exI [of _ "(f, op, v)"] exI [of _ cs] exI [of _ "l # ps"]) (auto simp: filter_tokens_def conj_preds_def)
next
  assume "\<exists>c cs ps. toks = filter_tokens c cs \<and> list_all2 (builds rfc) (c # map snd cs) ps \<and> p = conj_preds ps"
  then obtain f op v cs ps where *: "toks = filter_tokens (f, op, v) cs"
    "list_all2 (builds rfc) ((f, op, v) # map snd cs) ps" "p = conj_preds ps" by auto
  then obtain l ps' where ps: "ps = l # ps'" "builds rfc (f, op, v) l" "list_all2 (builds rfc) (map snd cs) ps'"
    by (auto simp: list_all2_Cons1)
  then have "parsePredicate rfc toks = Inr (l, and_tokens cs)"
    using *(1) by (simp add: filter_tokens_def parsePredicate_iff)
  with parse_ands_complete [OF ps(3), of l] show "parseExpr rfc toks = Inr (p, [])"
    by (simp add: parseExpr_def *(3) ps(1) conj_preds_def fun_eq_iff)
qed

section \<open>Printing filters\<close>

text \<open>The filters the language is meant for, with their meaning.\<close>

datatype cmp_op = OpEq | OpNe | OpGt | OpGe | OpLt | OpLe

fun op_text :: "cmp_op \<Rightarrow> string" where
  "op_text OpEq = ''=''"
| "op_text OpNe = ''!=''"
| "op_text OpGt = ''>''"
| "op_text OpGe = ''>=''"
| "op_text OpLt = ''<''"
| "op_text OpLe = ''<=''"

fun op_holds :: "cmp_op \<Rightarrow> int \<Rightarrow> int \<Rightarrow> bool" where
  "op_holds OpEq a b = (a = b)"
| "op_holds OpNe a b = (a \<noteq> b)"
| "op_holds OpGt a b = (a > b)"
| "op_holds OpGe a b = (a \<ge> b)"
| "op_holds OpLt a b = (a < b)"
| "op_holds OpLe a b = (a \<le> b)"

datatype fterm =
    FSeverity cmp_op string
  | FLogName bool string
  | FResourceType bool string
  | FLabel bool string string
  | FTimestamp cmp_op string

definition rank_of :: "string \<Rightarrow> int" where
  "rank_of s = (case severityRank (toUpper s) of None \<Rightarrow> 0 | Some n \<Rightarrow> n)"

fun fterm_ok :: "(string \<Rightarrow> time option) \<Rightarrow> fterm \<Rightarrow> bool" where
  "fterm_ok rfc (FSeverity op l) = (severityRank (toUpper l) \<noteq> None)"
| "fterm_ok rfc (FLabel pos k v) = (k \<noteq> [] \<and> list_all isIdentCont k)"
| "fterm_ok rfc (FTimestamp op t) = (rfc t \<noteq> None)"
| "fterm_ok rfc _ = True"

fun fterm_holds :: "(string \<Rightarrow> time option) \<Rightarrow> fterm \<Rightarrow> logEntry \<Rightarrow> bool" where
  "fterm_holds rfc (FSeverity op l) e = op_holds op (rank_of (le_Severity e)) (rank_of l)"
| "fterm_holds rfc (FLogName pos v) e = ((le_LogName e = v) = pos)"
| "fterm_holds rfc (FResourceType pos v) e = ((any_string (jlook (le_Resource e) ''type'') = v) = pos)"
| "fterm_holds rfc (FLabel pos k v) e = ((any_string (jlook (any_map (jlook (le_Resource e) ''labels'')) k) = v) = pos)"
| "fterm_holds rfc (FTimestamp op t) e = op_holds op (le_Timestamp e) (the (rfc t))"

definition eq_op :: "bool \<Rightarrow> cmp_op" where
  "eq_op pos = (if pos then OpEq else OpNe)"

fun fterm_parts :: "fterm \<Rightarrow> string \<times> cmp_op \<times> string" where
  "fterm_parts (FSeverity op l) = (''severity'', op, l)"
| "fterm_parts (FLogName pos v) = (''logName'', eq_op pos, v)"
| "fterm_parts (FResourceType pos v) = (''resource.type'', eq_op pos, v)"
| "fterm_parts (FLabel pos k v) = (''resource.labels.'' @ k, eq_op pos, v)"
| "fterm_parts (FTimestamp op t) = (''timestamp'', op, t)"

fun quote_body :: "string \<Rightarrow> string" where
  "quote_body [] = []"
| "quote_body (c # s) = (if c = CHR 0x5C \<or> c = CHR 0x22 then [CHR 0x5C, c] else [c]) @ quote_body s"

definition show_parts :: "string \<times> cmp_op \<times> string \<Rightarrow> string" where
  "show_parts x = (case x of (f, op, v) \<Rightarrow> f @ '' '' @ op_text op @ '' '' @ [CHR 0x22] @ quote_body v @ [CHR 0x22])"

definition show_filter :: "fterm list \<Rightarrow> string" where
  "show_filter ts = join '' AND '' (map (\<lambda>t. show_parts (fterm_parts t)) ts)"

lemma string_lit_quote: "string_lit (quote_body v @ CHR 0x22 # rest) = Some (quote_body v, rest)"
  by (induction v) auto

lemma unescape_quote: "unescape (quote_body v) = v"
  by (induction v) auto

lemma tokenize_quoted:
  "tokenize (CHR 0x22 # quote_body v @ CHR 0x22 # rest) = add_token (tString, v) (tokenize rest)"
  by (simp add: string_lit_quote unescape_quote)

lemma tokenize_op:
  "tokenize (op_text op @ CHR '' '' # rest) = add_token (tOp, op_text op) (tokenize rest)"
  by (cases op) simp_all

definition is_field :: "string \<Rightarrow> bool" where
  "is_field f \<longleftrightarrow> f \<noteq> [] \<and> isIdentStart (hd f) \<and> list_all isIdentCont (tl f)"

lemma ident_start_chars:
  assumes "isIdentStart c"
  shows "c \<noteq> CHR '' ''" "c \<noteq> CHR 0x09" "c \<noteq> CHR 0x0A" "c \<noteq> CHR 0x22" "c \<noteq> CHR ''=''" "c \<noteq> CHR ''!''" "c \<noteq> CHR ''<''"
    "c \<noteq> CHR ''>''" "c \<noteq> CHR ''(''" "c \<noteq> CHR '')''" "\<not> is_digit c" "c \<noteq> CHR ''-''" "c \<noteq> CHR ''+''"
  using assms by (auto simp: isIdentStart_def is_digit_def Let_def)

lemma not_ident_space: "\<not> isIdentCont (CHR '' '')"
  by (simp add: isIdentCont_def isIdentStart_def is_digit_def)

lemma tokenize_word:
  assumes "is_field f"
  shows "tokenize (f @ CHR '' '' # rest) = (case word_token f of Inl er \<Rightarrow> Inl er | Inr t \<Rightarrow> add_token t (tokenize rest))"
proof -
  obtain c w where f: "f = c # w" "isIdentStart c" "list_all isIdentCont w"
    using assms by (cases f) (auto simp: is_field_def)
  have "takeWhile isIdentCont (w @ CHR '' '' # rest) = w" "dropWhile isIdentCont (w @ CHR '' '' # rest) = CHR '' '' # rest"
    using f(3) not_ident_space by (auto simp: list_all_iff takeWhile_append dropWhile_append)
  then show ?thesis using f ident_start_chars [OF f(2)] by (simp split: sum.split)
qed

lemma word_token_field:
  assumes "is_field f" "toUpper f \<notin> {''AND'', ''OR'', ''NOT''}"
  shows "word_token f = Inr (tIdent, f)"
  using assms ident_start_chars(11-13) [of "hd f"] by (cases f) (auto simp: word_token_def is_field_def isNumber_def Let_def)

lemma literal_fields:
  "is_field ''severity''" "is_field ''logName''" "is_field ''resource.type''" "is_field ''timestamp''"
  "list_all isIdentCont k \<Longrightarrow> is_field (''resource.labels.'' @ k)"
  by (simp_all add: is_field_def isIdentStart_def isIdentCont_def is_digit_def)

lemma long_not_keyword: "4 \<le> length f \<Longrightarrow> toUpper f \<notin> {''AND'', ''OR'', ''NOT''}"
proof
  assume h: "4 \<le> length f" "toUpper f \<in> {''AND'', ''OR'', ''NOT''}"
  then have "length (toUpper f) \<le> 3" by (elim insertE) simp_all
  with h(1) show False by (simp add: toUpper_def)
qed

lemma fterm_field:
  assumes "fterm_ok rfc t" "fterm_parts t = (f, op, v)"
  shows "is_field f" "toUpper f \<notin> {''AND'', ''OR'', ''NOT''}"
proof -
  show "is_field f" using assms literal_fields by (cases t) (simp_all, metis)
  have "4 \<le> length f" using assms by (cases t) auto
  then show "toUpper f \<notin> {''AND'', ''OR'', ''NOT''}" by (rule long_not_keyword)
qed

text \<open>The tokens of one printed comparison, with whatever follows after a blank or at the end.\<close>

lemma tokenize_show_parts:
  assumes "is_field f" "toUpper f \<notin> {''AND'', ''OR'', ''NOT''}" "tokenize rest = Inr ts"
  shows "tokenize (show_parts (f, op, v) @ rest) = Inr ((tIdent, f) # (tOp, op_text op) # (tString, v) # ts)"
proof -
  have "show_parts (f, op, v) @ rest = f @ CHR '' '' # op_text op @ CHR '' '' # CHR 0x22 # quote_body v @ CHR 0x22 # rest"
    by (simp add: show_parts_def)
  moreover have "tokenize (op_text op @ CHR '' '' # CHR 0x22 # quote_body v @ CHR 0x22 # rest) =
      Inr ((tOp, op_text op) # (tString, v) # ts)"
    using assms(3) by (simp only: tokenize_op tokenize_quoted) (simp add: add_token_def)
  ultimately show ?thesis
    by (simp only: tokenize_word [OF assms(1)] word_token_field [OF assms(1,2)]) (simp add: add_token_def)
qed

definition fterm_comparison :: "fterm \<Rightarrow> comparison" where
  "fterm_comparison t = (case fterm_parts t of (f, op, v) \<Rightarrow> (f, op_text op, (tString, v)))"

lemma tokenize_and: "tokenize rest = Inr ts \<Longrightarrow> tokenize ('' AND '' @ rest) = Inr ((tAnd, ''AND'') # ts)"
proof -
  assume h: "tokenize rest = Inr ts"
  have "is_field ''AND''" by (simp add: is_field_def isIdentStart_def isIdentCont_def)
  from tokenize_word [OF this, of rest] h show ?thesis
    by (simp add: word_token_def toUpper_def upper_char_def add_token_def)
qed

lemma tokenize_show_filter:
  assumes "list_all (fterm_ok rfc) (t # ts)"
  shows "tokenize (show_filter (t # ts)) =
    Inr (filter_tokens (fterm_comparison t) (map (\<lambda>t. (''AND'', fterm_comparison t)) ts))"
  using assms
proof (induction ts arbitrary: t)
  case Nil
  obtain f op v where p: "fterm_parts t = (f, op, v)" by (metis prod_cases3)
  have ok: "fterm_ok rfc t" using Nil by simp
  have "tokenize [] = Inr []" by simp
  from tokenize_show_parts [OF fterm_field [OF ok p] this, of op v] show ?case
    by (simp add: show_filter_def p filter_tokens_def fterm_comparison_def)
next
  case (Cons t' ts)
  obtain f op v where p: "fterm_parts t = (f, op, v)" by (metis prod_cases3)
  have ok: "fterm_ok rfc t" using Cons.prems by simp
  have "show_filter (t # t' # ts) = show_parts (f, op, v) @ '' AND '' @ show_filter (t' # ts)"
    by (simp add: show_filter_def p)
  moreover have "tokenize ('' AND '' @ show_filter (t' # ts)) = Inr ((tAnd, ''AND'') #
      filter_tokens (fterm_comparison t') (map (\<lambda>t. (''AND'', fterm_comparison t)) ts))"
    using Cons by (intro tokenize_and Cons.IH) simp
  ultimately show ?case
    using tokenize_show_parts [OF fterm_field [OF ok p]]
    by (simp add: filter_tokens_def fterm_comparison_def p split: prod.splits)
qed

lemma numericCmp_op: "numericCmp (op_text op) = Inr (op_holds op)"
  by (cases op) (simp_all add: numericCmp_def fun_eq_iff)

lemma timeCmp_op: "timeCmp (op_text op) = Inr (op_holds op)"
  by (cases op) (auto simp: timeCmp_def fun_eq_iff)

lemma eq_op_text [simp]: "op_text (eq_op pos) = ''='' \<or> op_text (eq_op pos) = ''!=''"
  "eq_test (op_text (eq_op pos)) b = (b = pos)"
  by (auto simp: eq_op_def eq_test_def)

lemma fterm_builds:
  assumes "fterm_ok rfc t"
  shows "builds rfc (fterm_comparison t) (fterm_holds rfc t)"
proof (cases t)
  case (FSeverity op l)
  then show ?thesis
    using assms by (auto simp: builds_def fterm_comparison_def buildPredicate_def numericCmp_op rank_of_def fun_eq_iff)
next
  case (FTimestamp op x)
  then show ?thesis
    using assms by (auto simp: builds_def fterm_comparison_def buildPredicate_def timeCmp_op hasPrefix_def fun_eq_iff)
next
  case (FLabel pos k v)
  have "trimPrefix (''resource.labels.'' @ k) ''resource.labels.'' = k" "hasPrefix (''resource.labels.'' @ k) ''resource.labels.''"
    by (simp_all only: trimPrefix_def hasPrefix_def) simp_all
  then show ?thesis
    using assms FLabel eq_op_text(1) [of pos]
    by (simp add: builds_def fterm_comparison_def buildPredicate_def fun_eq_iff Let_def)
qed (use eq_op_text(1) in \<open>auto simp: builds_def fterm_comparison_def buildPredicate_def fun_eq_iff hasPrefix_def\<close>)

lemma trimSpace_id:
  assumes "s \<noteq> []" "\<not> is_space (hd s)" "\<not> is_space (last s)"
  shows "trimSpace s = s"
proof -
  have "dropWhile is_space s = s" using assms(1,2) by (cases s) auto
  moreover have "dropWhile is_space (rev s) = rev s" using assms(1,3) by (cases s rule: rev_cases) auto
  ultimately show ?thesis by (simp add: trimSpace_def)
qed

lemma ident_not_space: "isIdentStart c \<Longrightarrow> \<not> is_space c"
  by (auto simp: isIdentStart_def is_space_def Let_def)

lemma quote_not_space: "\<not> is_space (CHR 0x22)"
  by (simp add: is_space_def)

lemma show_filter_ends:
  assumes "list_all (fterm_ok rfc) (t # ts)"
  shows "show_filter (t # ts) \<noteq> [] \<and> isIdentStart (hd (show_filter (t # ts))) \<and> last (show_filter (t # ts)) = CHR 0x22"
  using assms
proof (induction ts arbitrary: t)
  case Nil
  obtain f op v where p: "fterm_parts t = (f, op, v)" by (metis prod_cases3)
  have "fterm_ok rfc t" using Nil by simp
  then have "is_field f" by (rule fterm_field(1) [OF _ p])
  then show ?case by (simp add: show_filter_def show_parts_def p is_field_def)
next
  case (Cons t' ts)
  obtain f op v where p: "fterm_parts t = (f, op, v)" by (metis prod_cases3)
  have "fterm_ok rfc t" using Cons.prems by simp
  then have "is_field f" by (rule fterm_field(1) [OF _ p])
  moreover have "show_filter (t # t' # ts) = show_parts (f, op, v) @ '' AND '' @ show_filter (t' # ts)"
    by (simp add: show_filter_def p)
  moreover have "show_filter (t' # ts) \<noteq> []" "last (show_filter (t' # ts)) = CHR 0x22"
    using Cons by simp_all
  ultimately show ?case by (simp add: show_parts_def is_field_def)
qed

lemma trimSpace_show_filter:
  "list_all (fterm_ok rfc) (t # ts) \<Longrightarrow> trimSpace (show_filter (t # ts)) = show_filter (t # ts)"
  using show_filter_ends [of rfc t ts] quote_not_space by (intro trimSpace_id) (simp_all add: ident_not_space)

text \<open>
  C38: Writing any non-empty conjunction of supported comparisons in the filter language and parsing the text gives the
  predicate that holds of exactly the entries all the comparisons hold of; values may contain quotes and backslashes.
\<close>

theorem filter_print_parse:
  assumes "ts \<noteq> []" "list_all (fterm_ok rfc) ts"
  shows "parseFilter rfc (show_filter ts) = Inr (\<lambda>e. list_all (\<lambda>t. fterm_holds rfc t e) ts)"
proof -
  obtain t us where ts: "ts = t # us" using assms(1) by (cases ts) auto
  note ok = assms(2) [unfolded ts]
  have all: "list_all2 (builds rfc) (map fterm_comparison ts) (map (fterm_holds rfc) ts)"
    using assms(2) by (auto simp: list_all2_conv_all_nth list_all_length fterm_builds)
  have "parseExpr rfc (filter_tokens (fterm_comparison t) (map (\<lambda>t. (''AND'', fterm_comparison t)) us)) =
      Inr (conj_preds (map (fterm_holds rfc) ts), [])"
    unfolding parseExpr_iff
    by (rule exI [of _ "fterm_comparison t"], rule exI [of _ "map (\<lambda>t. (''AND'', fterm_comparison t)) us"],
        rule exI [of _ "map (fterm_holds rfc) ts"]) (use all in \<open>simp add: ts comp_def\<close>)
  moreover have "conj_preds (map (fterm_holds rfc) ts) = (\<lambda>e. list_all (\<lambda>t. fterm_holds rfc t e) ts)"
    by (simp add: conj_preds_def fun_eq_iff list_all_iff)
  ultimately show ?thesis
    using show_filter_ends [OF ok] trimSpace_show_filter [OF ok] tokenize_show_filter [OF ok]
    by (simp add: parseFilter_def ts)
qed

theorem filter_print_parse_witness:
  "parseFilter (\<lambda>_. None) (show_filter [FSeverity OpGe ''WARNING'', FLabel False ''zone'' [CHR 0x22]]) =
   Inr (\<lambda>e. list_all (\<lambda>t. fterm_holds (\<lambda>_. None) t e) [FSeverity OpGe ''WARNING'', FLabel False ''zone'' [CHR 0x22]])"
  by (rule filter_print_parse)
     (simp_all add: severityRank_def toUpper_def upper_char_def isIdentCont_def isIdentStart_def is_digit_def)

text \<open>
  No part of an accepted filter is silently dropped: its text is either blank, and then everything matches, or its
  tokens are exactly a sequence of comparisons with AND between them, each of which builds a predicate, and an entry
  matches just when all these predicates hold.
\<close>

theorem filter_nothing_dropped:
  assumes "parseFilter rfc s = Inr p"
  shows "(trimSpace s = [] \<and> p = (\<lambda>_. True)) \<or>
    (\<exists>c cs ps. tokenize (trimSpace s) = Inr (filter_tokens c cs) \<and>
      list_all2 (builds rfc) (c # map snd cs) ps \<and> p = conj_preds ps)"
proof (cases "trimSpace s = []")
  case False
  with assms obtain toks where "tokenize (trimSpace s) = Inr toks" "parseExpr rfc toks = Inr (p, [])"
    by (auto simp: parseFilter_def Let_def split: sum.splits if_splits)
  then show ?thesis unfolding parseExpr_iff by blast
qed (use assms in \<open>simp add: parseFilter_def\<close>)

theorem filter_nothing_dropped_witness:
  "\<exists>p c cs ps. parseFilter (\<lambda>_. None) (show_filter [FLogName True ''a'']) = Inr p \<and>
    tokenize (trimSpace (show_filter [FLogName True ''a''])) = Inr (filter_tokens c cs) \<and>
    list_all2 (builds (\<lambda>_. None)) (c # map snd cs) ps \<and> p = conj_preds ps"
proof -
  let ?s = "show_filter [FLogName True ''a'']"
  let ?p = "\<lambda>e. list_all (\<lambda>t. fterm_holds (\<lambda>_. None) t e) [FLogName True ''a'']"
  have c: "fterm_comparison (FLogName True ''a'') = (''logName'', ''='', (tString, ''a''))"
    by (simp add: fterm_comparison_def eq_op_def)
  have ok: "list_all (fterm_ok (\<lambda>_. None)) [FLogName True ''a'']" by simp
  have "parseFilter (\<lambda>_. None) ?s = Inr (\<lambda>e. le_LogName e = ''a'')"
    using show_filter_ends [OF ok] trimSpace_show_filter [OF ok] tokenize_show_filter [OF ok]
    by (simp add: parseFilter_def c filter_tokens_def parseExpr_def parsePredicate.simps buildPredicate_def
      eq_test_def parse_ands_stop)
  moreover have "trimSpace ?s \<noteq> []" using show_filter_ends [OF ok] trimSpace_show_filter [OF ok] by simp
  ultimately show ?thesis
    using filter_nothing_dropped [of "\<lambda>_. None" ?s "\<lambda>e. le_LogName e = ''a''"] by blast
qed

lemma digit_chars:
  assumes "is_digit d"
  shows "d \<noteq> CHR '' ''" "d \<noteq> CHR 0x09" "d \<noteq> CHR 0x0A" "d \<noteq> CHR 0x22" "d \<noteq> CHR ''=''" "d \<noteq> CHR ''!''" "d \<noteq> CHR ''<''"
    "d \<noteq> CHR ''>''" "d \<noteq> CHR ''(''" "d \<noteq> CHR '')''" "\<not> isIdentStart d"
  using assms ident_start_chars(11) by (auto simp: is_digit_def)

lemma tokenize_digit: "is_digit d \<Longrightarrow> tokenize (d # r) = Inl ''unexpected character in filter''"
  using digit_chars [of d] by simp

lemma digit_not_space: "is_digit d \<Longrightarrow> \<not> is_space d"
  by (auto simp: is_digit_def is_space_def)

text \<open>
  A bare number is never accepted as a severity, although the comment on the language lists it: the tokeniser
  has no case for a digit at the start of a token.
\<close>

theorem bare_severity_number_rejected:
  assumes "ds \<noteq> []" "list_all is_digit ds"
  shows "parseFilter rfc (''severity '' @ op_text op @ '' '' @ ds) = Inl ''unexpected character in filter''"
proof -
  let ?s = "''severity '' @ op_text op @ '' '' @ ds"
  obtain d r where ds: "ds = d # r" using assms(1) by (cases ds) auto
  have "is_digit (last ds)" using assms by (simp add: list_all_iff)
  then have "trimSpace ?s = ?s"
    using assms(1) by (intro trimSpace_id) (simp_all add: digit_not_space, simp add: is_space_def)
  moreover have "tokenize (op_text op @ CHR '' '' # ds) = Inl ''unexpected character in filter''"
    using assms(2) tokenize_digit [of d r] by (simp add: tokenize_op ds add_token_def del: tokenize.simps)
  then have "tokenize (''severity'' @ CHR '' '' # op_text op @ CHR '' '' # ds) = Inl ''unexpected character in filter''"
    using tokenize_word [OF literal_fields(1)] word_token_field [OF literal_fields(1) long_not_keyword]
    by (simp add: add_token_def del: tokenize.simps)
  ultimately show ?thesis by (simp add: parseFilter_def del: tokenize.simps)
qed

theorem bare_severity_number_rejected_witness:
  "parseFilter (\<lambda>_. None) (''severity '' @ op_text OpGe @ '' '' @ ''400'') = Inl ''unexpected character in filter''"
  by (rule bare_severity_number_rejected) (simp_all add: is_digit_def)

end
