(* ===== verification/Cloud_Logging.thy ===== *)
theory Cloud_Logging
  imports Log_Filter Resource_Codec Httpresp Go_Time
begin

text \<open>
  Service \<^verbatim>\<open>internal/services/logging/logging.go\<close>: the entries in the store, the write and list handlers and the console
  function.  The state of the service is the counter \<^verbatim>\<open>seq\<close>.  \<open>rfc\<close> is \<^verbatim>\<open>time.Parse(time.RFC3339, _)\<close> and \<open>jtext\<close> the text
  \<^verbatim>\<open>json.Marshal\<close> gives for a map.  The abstract view of the store is the multiset of the entries in it.
\<close>

section \<open>Data\<close>

definition nsEntries :: string where "nsEntries = ''logging/entries''"

lemmas [ns_defs] = nsEntries_def

text \<open>A \<^verbatim>\<open>map[string]any\<close> field, nil when absent or null; a nil or empty map is left out when encoding.\<close>

definition fld_map :: "string \<Rightarrow> json \<Rightarrow> (string \<times> json) list option \<times> bool" where
  "fld_map k j = (case jget k j of None \<Rightarrow> (None, True) | Some JNull \<Rightarrow> (None, True)
     | Some (JObj ms) \<Rightarrow> (Some ms, True) | Some _ \<Rightarrow> (None, False))"

definition opt_map :: "string \<Rightarrow> (string \<times> json) list option \<Rightarrow> (string \<times> json) list" where
  "opt_map k m = (case m of None \<Rightarrow> [] | Some ms \<Rightarrow> omit (ms = []) k (JObj ms))"

definition enc_logEntry :: "logEntry \<Rightarrow> json" where
  "enc_logEntry e = JObj ([(''logName'', JStr (le_LogName e))] @ opt_map ''resource'' (le_Resource e) @
     [(''timestamp'', JTime (le_Timestamp e))] @ omit (le_Severity e = []) ''severity'' (JStr (le_Severity e)) @
     omit (le_TextPayload e = []) ''textPayload'' (JStr (le_TextPayload e)) @
     opt_map ''jsonPayload'' (le_JSONPayload e) @ opt_map ''labels'' (le_Labels e) @
     omit (le_InsertID e = []) ''insertId'' (JStr (le_InsertID e)))"

definition dec_logEntry :: "(string \<Rightarrow> time option) \<Rightarrow> json \<Rightarrow> logEntry \<times> bool" where
  "dec_logEntry rfc j = (let (n, o1) = fld_str ''logName'' j; (re, o2) = fld_map ''resource'' j;
       (t, o3) = fld_time rfc ''timestamp'' j; (sv, o4) = fld_str ''severity'' j; (tp, o5) = fld_str ''textPayload'' j;
       (jp, o6) = fld_map ''jsonPayload'' j; (la, o7) = fld_map ''labels'' j; (ii, o8) = fld_str ''insertId'' j in
     (\<lparr>le_LogName = n, le_Resource = re, le_Timestamp = t, le_Severity = sv, le_TextPayload = tp,
       le_JSONPayload = jp, le_Labels = la, le_InsertID = ii\<rparr>,
      is_struct_doc j \<and> o1 \<and> o2 \<and> o3 \<and> o4 \<and> o5 \<and> o6 \<and> o7 \<and> o8))"

fun unmarshal_logEntry :: "(string \<Rightarrow> time option) \<Rightarrow> blob \<Rightarrow> logEntry \<times> bool" where
  "unmarshal_logEntry rfc (JsonB j) = dec_logEntry rfc j"
| "unmarshal_logEntry rfc (RawB _) = (fst (dec_logEntry rfc JNull), False)"

record writeRequest =
  wr_LogName :: string
  wr_Resource :: "(string \<times> json) list option"
  wr_Entries :: "logEntry list"

definition dec_writeRequest :: "(string \<Rightarrow> time option) \<Rightarrow> json \<Rightarrow> writeRequest \<times> bool" where
  "dec_writeRequest rfc j = (let (n, o1) = fld_str ''logName'' j; (re, o2) = fld_map ''resource'' j;
       (es, o3) = fld_arr (dec_logEntry rfc) ''entries'' j in
     (\<lparr>wr_LogName = n, wr_Resource = re, wr_Entries = es\<rparr>, is_struct_doc j \<and> o1 \<and> o2 \<and> o3))"

record listRequest =
  lr_ResourceNames :: "string list"
  lr_Filter :: string
  lr_OrderBy :: string
  lr_PageSize :: int

definition dec_listRequest :: "json \<Rightarrow> listRequest" where
  "dec_listRequest j = \<lparr>lr_ResourceNames = (case fst (fld_strlist ''resourceNames'' j) of None \<Rightarrow> [] | Some l \<Rightarrow> l),
     lr_Filter = fst (fld_str ''filter'' j), lr_OrderBy = fst (fld_str ''orderBy'' j), lr_PageSize = fst (fld_int ''pageSize'' j)\<rparr>"

section \<open>Handlers\<close>

text \<open>The defaults an entry takes from the request and the clock; \<open>now\<close> is the next reading of the clock.\<close>

definition complete_entry :: "go_env \<Rightarrow> nat \<Rightarrow> writeRequest \<Rightarrow> logEntry \<Rightarrow> logEntry" where
  "complete_entry e now req en =
     (let en = (if le_LogName en = [] then en\<lparr>le_LogName := wr_LogName req\<rparr> else en);
          en = (if le_Resource en = None then en\<lparr>le_Resource := wr_Resource req\<rparr> else en)
      in if le_Timestamp en = 0 then en\<lparr>le_Timestamp := e_now e now\<rparr> else en)"

definition entry_id :: "logEntry \<Rightarrow> nat \<Rightarrow> string" where
  "entry_id en sq = itoai (unix_nanos (le_Timestamp en)) @ ''-'' @ itoa sq"

fun write_entries :: "go_env \<Rightarrow> nat \<Rightarrow> writeRequest \<Rightarrow> logEntry list \<Rightarrow> mem \<Rightarrow> nat \<Rightarrow> mem \<times> nat" where
  "write_entries e now req [] s sq = (s, sq)"
| "write_entries e now req (en # es) s sq =
     (let en' = complete_entry e now req en; sq' = u64_inc sq;
          s' = (case Put s nsEntries (entry_id en' sq') (JsonB (enc_logEntry en')) of Inl _ \<Rightarrow> s | Inr s' \<Rightarrow> s')
      in write_entries e (if le_Timestamp en = 0 then Suc now else now) req es s' sq')"

definition handleWrite :: "(string \<Rightarrow> time option) \<Rightarrow> go_env \<Rightarrow> http_req \<Rightarrow> mem \<Rightarrow> nat \<Rightarrow> http_resp \<times> mem \<times> nat" where
  "handleWrite rfc e r s sq = (if r_method r \<noteq> POST then (methodNotAllowed, s, sq)
     else (case r_json r of None \<Rightarrow> (respErr 400 ''invalid json'', s, sq)
      | Some j \<Rightarrow> let (body, ok) = dec_writeRequest rfc j in
         if \<not> ok then (respErr 400 ''invalid json'', s, sq)
         else (respJSON 200 (JObj []), write_entries e 0 body (wr_Entries body) s sq)))"

definition matchResourceNames :: "listRequest \<Rightarrow> logEntry \<Rightarrow> bool" where
  "matchResourceNames req en = (lr_ResourceNames req = [] \<or>
     list_ex (\<lambda>rn. hasPrefix (le_LogName en) rn \<or> rn = []) (lr_ResourceNames req))"

definition handleList :: "(string \<Rightarrow> time option) \<Rightarrow> go_env \<Rightarrow> http_req \<Rightarrow> mem \<Rightarrow> http_resp" where
  "handleList rfc e r s = (if r_method r \<noteq> POST then methodNotAllowed
     else let req = dec_listRequest (case r_json r of None \<Rightarrow> JNull | Some j \<Rightarrow> j) in
       case parseFilter rfc (lr_Filter req) of Inl er \<Rightarrow> respErr 400 (''invalid filter: '' @ er)
       | Inr p \<Rightarrow>
          let all = (case List s nsEntries [] of Inl _ \<Rightarrow> [] | Inr l \<Rightarrow> l);
              out = filter (\<lambda>en. matchResourceNames req en \<and> p en) (decoded (unmarshal_logEntry rfc) (e_range e all));
              out = (if lr_PageSize req > 0 \<and> int (length out) > lr_PageSize req then take (nat (lr_PageSize req)) out else out)
          in respJSON 200 (JObj [(''entries'', JArr (map enc_logEntry out))]))"

text \<open>A row of the console: time, severity, log name, insert identifier and message.\<close>

definition log_ConsoleEntries :: "(string \<Rightarrow> time option) \<Rightarrow> (json \<Rightarrow> string) \<Rightarrow> go_env \<Rightarrow> mem \<Rightarrow> int \<Rightarrow> string
    \<Rightarrow> string + (string \<times> string \<times> string \<times> string \<times> string) list" where
  "log_ConsoleEntries rfc jtext e s limit flt = (case parseFilter rfc flt of Inl er \<Rightarrow> Inl er
     | Inr p \<Rightarrow>
        let all = (case List s nsEntries [] of Inl _ \<Rightarrow> [] | Inr l \<Rightarrow> l);
            es = sort_key (\<lambda>en. - le_Timestamp en) (filter p (decoded (unmarshal_logEntry rfc) (e_range e all)));
            es = (if limit > 0 \<and> int (length es) > limit then take (nat limit) es else es)
        in Inr (map (\<lambda>en. (format_RFC3339Nano (le_Timestamp en), le_Severity en, le_LogName en, le_InsertID en,
             if le_TextPayload en = [] then (case le_JSONPayload en of None \<Rightarrow> [] | Some ms \<Rightarrow> jtext (JObj ms))
             else le_TextPayload en)) es))"

section \<open>Encoding\<close>

text \<open>An empty map comes back as nil.\<close>

definition norm_map :: "(string \<times> json) list option \<Rightarrow> (string \<times> json) list option" where
  "norm_map m = (if m = Some [] then None else m)"

definition le_norm :: "logEntry \<Rightarrow> logEntry" where
  "le_norm en = en\<lparr>le_Resource := norm_map (le_Resource en), le_JSONPayload := norm_map (le_JSONPayload en),
     le_Labels := norm_map (le_Labels en)\<rparr>"

lemma jmember_opt_map: "jmember k (opt_map k' m) =
    (if eqFold k' k then map_option JObj (norm_map m) else None)"
  by (auto simp: opt_map_def jmember_omit norm_map_def split: option.splits)

lemma norm_map_cases: "case_option (None, True) (\<lambda>x. case x of JNull \<Rightarrow> (None, True) | JObj ms \<Rightarrow> (Some ms, True) | _ \<Rightarrow> (None, False))
    (map_option JObj (norm_map m)) = (norm_map m, True)"
  by (cases "norm_map m") auto

lemma dec_enc_logEntry [codec]: "dec_logEntry rfc (enc_logEntry en) = (le_norm en, True)"
proof -
  note j = enc_logEntry_def jmember_append jmember_omit jmember_opt_map eqFold_def lower_char_def
  have "fld_str ''logName'' (enc_logEntry en) = (le_LogName en, True)" by (simp add: fld_str_def j)
  moreover have "fld_map ''resource'' (enc_logEntry en) = (norm_map (le_Resource en), True)"
    by (cases "norm_map (le_Resource en)") (simp_all add: fld_map_def j)
  moreover have "fld_time rfc ''timestamp'' (enc_logEntry en) = (le_Timestamp en, True)" by (simp add: fld_time_def j)
  moreover have "fld_str ''severity'' (enc_logEntry en) = (le_Severity en, True)" by (simp add: fld_str_def j)
  moreover have "fld_str ''textPayload'' (enc_logEntry en) = (le_TextPayload en, True)" by (simp add: fld_str_def j)
  moreover have "fld_map ''jsonPayload'' (enc_logEntry en) = (norm_map (le_JSONPayload en), True)"
    by (cases "norm_map (le_JSONPayload en)") (simp_all add: fld_map_def j)
  moreover have "fld_map ''labels'' (enc_logEntry en) = (norm_map (le_Labels en), True)"
    by (cases "norm_map (le_Labels en)") (simp_all add: fld_map_def j)
  moreover have "fld_str ''insertId'' (enc_logEntry en) = (le_InsertID en, True)" by (simp add: fld_str_def j)
  moreover have "is_struct_doc (enc_logEntry en)" by (simp add: enc_logEntry_def)
  ultimately show ?thesis by (cases en) (simp add: dec_logEntry_def le_norm_def)
qed

section \<open>The log as a multiset of entries\<close>

definition log_content :: "(string \<Rightarrow> time option) \<Rightarrow> mem \<Rightarrow> logEntry multiset" where
  "log_content rfc s = mset (decoded (unmarshal_logEntry rfc) (bucket_of s nsEntries))"

text \<open>The entries as they are stored: completed one after the other.\<close>

fun completed :: "go_env \<Rightarrow> nat \<Rightarrow> writeRequest \<Rightarrow> logEntry list \<Rightarrow> logEntry list" where
  "completed e now req [] = []"
| "completed e now req (en # es) =
     complete_entry e now req en # completed e (if le_Timestamp en = 0 then Suc now else now) req es"

definition log_inv :: "mem \<times> nat \<Rightarrow> bool" where
  "log_inv x \<longleftrightarrow> mem_ok (fst x) \<and> (\<forall>k. mem_lookup (fst x) nsEntries k \<noteq> None \<longrightarrow>
     (\<exists>n i. k = itoai n @ ''-'' @ itoa i \<and> i \<le> snd x))"

lemma entry_key_inj: "itoai n @ ''-'' @ itoa i = itoai m @ ''-'' @ itoa j \<Longrightarrow> i = j"
proof -
  assume h: "itoai n @ ''-'' @ itoa i = itoai m @ ''-'' @ itoa j"
  have "cut_last (CHR ''-'') (itoai n @ ''-'' @ itoa i) = Some (itoai n, itoa i)" for n i
    using cut_last_append [of "CHR ''-''" "itoa i" "itoai n"] itoa_no_char by simp
  then have "Some (itoai n, itoa i) = Some (itoai m, itoa j)" using h by metis
  then show ?thesis by simp
qed

lemma log_put_fresh:
  assumes "log_inv (s, sq)"
  shows "log_inv (mput s nsEntries (entry_id en (Suc sq)) (JsonB (enc_logEntry en)), Suc sq)"
    "log_content rfc (mput s nsEntries (entry_id en (Suc sq)) (JsonB (enc_logEntry en))) =
      log_content rfc s + {#le_norm en#}"
proof -
  let ?k = "entry_id en (Suc sq)" and ?v = "JsonB (enc_logEntry en)"
  have ok: "mem_ok s" using assms by (simp add: log_inv_def)
  have fresh: "mem_lookup s nsEntries ?k = None"
  proof (rule ccontr)
    assume "mem_lookup s nsEntries ?k \<noteq> None"
    then obtain n i where "?k = itoai n @ ''-'' @ itoa i" "i \<le> sq" using assms unfolding log_inv_def by auto
    then show False using entry_key_inj [of _ "Suc sq" n i] by (simp add: entry_id_def)
  qed
  have "\<exists>n i. k = itoai n @ ''-'' @ itoa i \<and> i \<le> Suc sq" if "mem_lookup (mput s nsEntries ?k ?v) nsEntries k \<noteq> None" for k
  proof (cases "k = ?k")
    case False
    then have "mem_lookup s nsEntries k \<noteq> None" using that ok by simp
    then show ?thesis using assms unfolding log_inv_def by fastforce
  qed (auto simp: entry_id_def)
  then show "log_inv (mput s nsEntries ?k ?v, Suc sq)" using ok by (simp add: log_inv_def)
  have "?k \<notin> fst ` set (bucket_of s nsEntries)"
    using fresh by (simp add: mem_lookup_bucket map_of_eq_None_iff)
  then have "bucket_of (mput s nsEntries ?k ?v) nsEntries = bucket_of s nsEntries @ [(?k, ?v)]"
    by (simp add: mput_def bucket_update update_fresh)
  then show "log_content rfc (mput s nsEntries ?k ?v) = log_content rfc s + {#le_norm en#}"
    by (simp add: log_content_def decoded_def codec)
qed

lemma write_entries_content:
  assumes "log_inv (s, sq)" "sq + length es < 2 ^ 64" "write_entries e now req es s sq = (s', sq')"
  shows "log_inv (s', sq') \<and> sq' = sq + length es \<and>
    log_content rfc s' = log_content rfc s + image_mset le_norm (mset (completed e now req es))"
  using assms
proof (induction es arbitrary: now s sq)
  case (Cons en es)
  let ?en = "complete_entry e now req en"
  let ?s = "mput s nsEntries (entry_id ?en (Suc sq)) (JsonB (enc_logEntry ?en))"
  have "u64_inc sq = Suc sq" using Cons.prems(2) by simp
  then have "write_entries e (if le_Timestamp en = 0 then Suc now else now) req es ?s (Suc sq) = (s', sq')"
    using Cons.prems(3) by (simp add: Let_def)
  moreover have "Suc sq + length es < 2 ^ 64" using Cons.prems(2) by simp
  ultimately show ?case
    using Cons.IH [OF log_put_fresh(1) [OF Cons.prems(1)]] log_put_fresh(2) [OF Cons.prems(1)] by simp
qed simp

section \<open>The service as a transition system\<close>

text \<open>A step is a write request, or a change of the store outside the namespace of the entries.\<close>

inductive log_step :: "mem \<times> nat \<Rightarrow> mem \<times> nat \<Rightarrow> bool" where
  log_write: "handleWrite rfc e r s sq = (resp, s', sq') \<Longrightarrow>
    sq + (case r_json r of None \<Rightarrow> 0 | Some j \<Rightarrow> length (wr_Entries (fst (dec_writeRequest rfc j)))) < 2 ^ 64 \<Longrightarrow>
    log_step (s, sq) (s', sq')"
| log_other: "only_ns N s s' \<Longrightarrow> nsEntries \<notin> N \<Longrightarrow> log_step (s, sq) (s', sq)"

definition log_init :: "mem \<times> nat \<Rightarrow> bool" where
  "log_init x \<longleftrightarrow> mem_ok (fst x) \<and> (\<forall>k. mem_lookup (fst x) nsEntries k = None)"

lemma log_step_inv:
  assumes "log_step x y" "log_inv x"
  shows "log_inv y"
  using assms
proof (induction rule: log_step.induct)
  case (log_write rfc e r s sq resp s' sq')
  show ?case
  proof (cases "(s', sq') = (s, sq)")
    case False
    with log_write(1) obtain j body where j: "r_json r = Some j" "dec_writeRequest rfc j = (body, True)"
      and w: "write_entries e 0 body (wr_Entries body) s sq = (s', sq')"
      by (auto simp: handleWrite_def split: if_splits option.splits prod.splits)
    have "sq + length (wr_Entries body) < 2 ^ 64" using log_write(2) j by simp
    from write_entries_content [OF log_write.prems this w] show ?thesis by blast
  qed (use log_write.prems in simp)
next
  case (log_other N s s' sq)
  then have "mem_lookup s' nsEntries = mem_lookup s nsEntries" by (simp add: only_ns_def)
  then show ?case using log_other.prems only_ns_ok [OF log_other(1)] by (simp add: log_inv_def)
qed

interpretation logm: machine log_init log_step log_inv
  by unfold_locales (simp add: log_init_def log_inv_def, rule log_step_inv)

lemma handleList_content:
  assumes "r_method r = POST" "r_json r = Some j" "parseFilter rfc (lr_Filter (dec_listRequest j)) = Inr p" "env_ok e"
  defines "req \<equiv> dec_listRequest j"
  shows "\<exists>out. handleList rfc e r s = respJSON 200 (JObj [(''entries'', JArr (map enc_logEntry out))]) \<and>
    (let M = filter_mset (\<lambda>en. matchResourceNames req en \<and> p en) (log_content rfc s) in mset out \<subseteq># M \<and>
      int (length out) = (if lr_PageSize req > 0 then min (lr_PageSize req) (int (size M)) else int (size M)))"
proof -
  let ?ds = "filter (\<lambda>en. matchResourceNames req en \<and> p en) (decoded (unmarshal_logEntry rfc) (e_range e (bucket_of s nsEntries)))"
  let ?M = "filter_mset (\<lambda>en. matchResourceNames req en \<and> p en) (log_content rfc s)"
  let ?out = "if lr_PageSize req > 0 \<and> int (length ?ds) > lr_PageSize req then take (nat (lr_PageSize req)) ?ds else ?ds"
  have "mset (decoded (unmarshal_logEntry rfc) (e_range e (bucket_of s nsEntries))) = log_content rfc s"
    unfolding log_content_def by (rule mset_decoded) (simp add: env_ok_mset [OF assms(4)])
  then have M: "mset ?ds = ?M" by simp
  then have len: "length ?ds = size ?M" by (metis size_mset)
  have bucket: "mlist s nsEntries [] = bucket_of s nsEntries" by (auto simp: mlist_def intro!: filter_True)
  have "handleList rfc e r s = respJSON 200 (JObj [(''entries'', JArr (map enc_logEntry ?out))])"
    using assms(1-3) by (simp add: handleList_def Let_def req_def bucket)
  moreover have "mset ?out \<subseteq># ?M"
  proof -
    have "mset (take n ?ds) \<subseteq># mset ?ds" for n by (metis append_take_drop_id mset_append mset_subset_eq_add_left)
    then show ?thesis using M by simp
  qed
  moreover have "int (length ?out) = (if lr_PageSize req > 0 then min (lr_PageSize req) (int (size ?M)) else int (size ?M))"
    using len by auto
  ultimately show ?thesis unfolding Let_def by blast
qed

text \<open>
  The service is a log: after a write request is accepted in any reachable state, a list request returns, each exactly
  once, the earlier and the new entries whose log name has one of the requested prefixes and which satisfy the filter; with a
  page size it returns that many of them.
\<close>

theorem log_write_then_list:
  assumes "reach log_init log_step (s, sq)"
    and "r_method r = POST" "r_json r = Some j" "dec_writeRequest rfc j = (body, True)" "sq + length (wr_Entries body) < 2 ^ 64"
    and "r_method r' = POST" "r_json r' = Some j'" "parseFilter rfc (lr_Filter (dec_listRequest j')) = Inr p" "env_ok e'"
  shows "\<exists>s' out. handleWrite rfc e r s sq = (respJSON 200 (JObj []), s', sq + length (wr_Entries body)) \<and>
    handleList rfc e' r' s' = respJSON 200 (JObj [(''entries'', JArr (map enc_logEntry out))]) \<and>
    (let M = filter_mset (\<lambda>en. matchResourceNames (dec_listRequest j') en \<and> p en)
          (log_content rfc s + image_mset le_norm (mset (completed e 0 body (wr_Entries body)))) in
     mset out \<subseteq># M \<and>
     int (length out) = (if lr_PageSize (dec_listRequest j') > 0 then min (lr_PageSize (dec_listRequest j')) (int (size M))
       else int (size M)))"
proof -
  obtain s' sq' where w: "write_entries e 0 body (wr_Entries body) s sq = (s', sq')" by fastforce
  note c = write_entries_content [OF logm.reach_inv [OF assms(1)] assms(5) w, of rfc]
  have "handleWrite rfc e r s sq = (respJSON 200 (JObj []), s', sq + length (wr_Entries body))"
    using assms(2-4) w c by (simp add: handleWrite_def)
  then show ?thesis
    using handleList_content [OF assms(6-9), of s'] c by auto
qed

section \<open>Witness\<close>

definition log_e :: go_env where
  "log_e = \<lparr>e_now = (\<lambda>_. 5), e_range = (\<lambda>xs. xs)\<rparr>"

definition log_req :: "json \<Rightarrow> http_req" where
  "log_req b = \<lparr>r_method = POST, r_path = [], r_query = [], r_header = [], r_host = [], r_tls = False,
     r_contentLength = 0, r_bytes = [], r_json = Some b\<rparr>"

definition log_body :: json where
  "log_body = JObj [(''entries'', JArr [JObj [(''logName'', JStr ''a'')]])]"

definition log_en :: logEntry where
  "log_en = \<lparr>le_LogName = ''a'', le_Resource = None, le_Timestamp = 0, le_Severity = [], le_TextPayload = [],
     le_JSONPayload = None, le_Labels = None, le_InsertID = []\<rparr>"

lemma dec_log_body: "dec_writeRequest (\<lambda>_. None) log_body =
    (\<lparr>wr_LogName = [], wr_Resource = None, wr_Entries = [log_en]\<rparr>, True)"
  by (simp add: dec_writeRequest_def log_body_def fld_str_def fld_map_def fld_arr_def dec_logEntry_def fld_time_def
    log_en_def eqFold_def lower_char_def)

lemma dec_empty_list: "dec_listRequest (JObj []) = \<lparr>lr_ResourceNames = [], lr_Filter = [], lr_OrderBy = [], lr_PageSize = 0\<rparr>"
  by (simp add: dec_listRequest_def fld_strlist_def fld_str_def fld_int_def)

theorem log_write_then_list_witness:
  "\<exists>s' out. handleWrite (\<lambda>_. None) log_e (log_req log_body) NewMemory 0 = (respJSON 200 (JObj []), s', 1) \<and>
    handleList (\<lambda>_. None) log_e (log_req (JObj [])) s' = respJSON 200 (JObj [(''entries'', JArr (map enc_logEntry out))]) \<and>
    mset out = {#log_en\<lparr>le_Timestamp := 5\<rparr>#}"
proof -
  have r: "reach log_init log_step (NewMemory, 0)" by (rule reach_init) (simp add: log_init_def)
  have p: "parseFilter (\<lambda>_. None) (lr_Filter (dec_listRequest (JObj []))) = Inr (\<lambda>_. True)"
    by (simp add: dec_empty_list parseFilter_def trimSpace_def)
  have b: "log_content (\<lambda>_. None) NewMemory = {#}"
    by (simp add: log_content_def bucket_of_def NewMemory_def decoded_def)
  have c: "le_norm (complete_entry log_e 0 \<lparr>wr_LogName = [], wr_Resource = None, wr_Entries = [log_en]\<rparr> log_en) =
      log_en\<lparr>le_Timestamp := 5\<rparr>"
    by (simp add: complete_entry_def log_en_def le_norm_def norm_map_def log_e_def)
  have m: "r_method (log_req x) = POST" "r_json (log_req x) = Some x" for x by (simp_all add: log_req_def)
  have e: "env_ok log_e" by (simp add: env_ok_def log_e_def)
  have l: "0 + length (wr_Entries \<lparr>wr_LogName = [], wr_Resource = None, wr_Entries = [log_en]\<rparr>) < 2 ^ 64" by simp
  from log_write_then_list [OF r m dec_log_body l m p e, of log_e]
  obtain s' out where *: "handleWrite (\<lambda>_. None) log_e (log_req log_body) NewMemory 0 = (respJSON 200 (JObj []), s', 1)"
    "handleList (\<lambda>_. None) log_e (log_req (JObj [])) s' = respJSON 200 (JObj [(''entries'', JArr (map enc_logEntry out))])"
    "mset out \<subseteq># {#log_en\<lparr>le_Timestamp := 5\<rparr>#}" "length out = 1"
    by (auto simp: dec_empty_list matchResourceNames_def b c Let_def)
  then have "mset out = {#log_en\<lparr>le_Timestamp := 5\<rparr>#}"
    by (cases out) auto
  with * show ?thesis by blast
qed

end
