(* ===== verification/Cloud_Monitoring.thy ===== *)
theory Cloud_Monitoring
  imports Cloud_Logging
begin

text \<open>
  Service \<^verbatim>\<open>internal/services/monitoring\<close>: time series in the store under a counter.  Decoding the maps of a series is the
  same as for log entries.
\<close>

section \<open>Data\<close>

definition nsSeries :: string where "nsSeries = ''monitoring/timeseries''"

lemmas [ns_defs] = nsSeries_def

record point =
  pt_EndTime :: time
  pt_StartTime :: time
  pt_Value :: "(string \<times> json) list option"

record timeSeries =
  ts_Metric :: "(string \<times> json) list option"
  ts_Resource :: "(string \<times> json) list option"
  ts_MetricKind :: string
  ts_ValueType :: string
  ts_Points :: "point list option"

definition enc_map :: "(string \<times> json) list option \<Rightarrow> json" where
  "enc_map m = (case m of None \<Rightarrow> JNull | Some ms \<Rightarrow> JObj ms)"

definition enc_point :: "point \<Rightarrow> json" where
  "enc_point p = JObj [(''interval'', JObj [(''endTime'', JTime (pt_EndTime p)), (''startTime'', JTime (pt_StartTime p))]),
     (''value'', enc_map (pt_Value p))]"

definition dec_point :: "(string \<Rightarrow> time option) \<Rightarrow> json \<Rightarrow> point \<times> bool" where
  "dec_point rfc j = (let iv = fld_doc ''interval'' j; (et, o1) = fld_time rfc ''endTime'' iv;
       (st, o2) = fld_time rfc ''startTime'' iv; (v, o3) = fld_map ''value'' j in
     (\<lparr>pt_EndTime = et, pt_StartTime = st, pt_Value = v\<rparr>, is_struct_doc j \<and> is_struct_doc iv \<and> o1 \<and> o2 \<and> o3))"

definition enc_timeSeries :: "timeSeries \<Rightarrow> json" where
  "enc_timeSeries t = JObj ([(''metric'', enc_map (ts_Metric t)), (''resource'', enc_map (ts_Resource t))] @
     omit (ts_MetricKind t = []) ''metricKind'' (JStr (ts_MetricKind t)) @
     omit (ts_ValueType t = []) ''valueType'' (JStr (ts_ValueType t)) @
     [(''points'', case ts_Points t of None \<Rightarrow> JNull | Some ps \<Rightarrow> JArr (map enc_point ps))])"

definition dec_timeSeries :: "(string \<Rightarrow> time option) \<Rightarrow> json \<Rightarrow> timeSeries \<times> bool" where
  "dec_timeSeries rfc j = (let (m, o1) = fld_map ''metric'' j; (re, o2) = fld_map ''resource'' j;
       (mk, o3) = fld_str ''metricKind'' j; (vt, o4) = fld_str ''valueType'' j;
       (ps, o5) = fld_arr (dec_point rfc) ''points'' j in
     (\<lparr>ts_Metric = m, ts_Resource = re, ts_MetricKind = mk, ts_ValueType = vt,
       ts_Points = (case jget ''points'' j of Some (JArr _) \<Rightarrow> Some ps | _ \<Rightarrow> None)\<rparr>,
      is_struct_doc j \<and> o1 \<and> o2 \<and> o3 \<and> o4 \<and> o5))"

fun unmarshal_timeSeries :: "(string \<Rightarrow> time option) \<Rightarrow> blob \<Rightarrow> timeSeries \<times> bool" where
  "unmarshal_timeSeries rfc (JsonB j) = dec_timeSeries rfc j"
| "unmarshal_timeSeries rfc (RawB _) = (fst (dec_timeSeries rfc JNull), False)"

section \<open>Handlers\<close>

fun put_series :: "string \<Rightarrow> timeSeries list \<Rightarrow> mem \<Rightarrow> nat \<Rightarrow> mem \<times> nat" where
  "put_series project [] s sq = (s, sq)"
| "put_series project (t # ts) s sq =
     (let sq' = u64_inc sq; i = ''projects/'' @ project @ ''/'' @ itoa sq';
          s' = (case Put s nsSeries i (JsonB (enc_timeSeries t)) of Inl _ \<Rightarrow> s | Inr s' \<Rightarrow> s')
      in put_series project ts s' sq')"

definition mon_create :: "(string \<Rightarrow> time option) \<Rightarrow> http_req \<Rightarrow> string \<Rightarrow> mem \<Rightarrow> nat \<Rightarrow> http_resp \<times> mem \<times> nat" where
  "mon_create rfc r project s sq = (case r_json r of None \<Rightarrow> (respErr 400 ''invalid json'', s, sq)
     | Some j \<Rightarrow> let (ts, ok) = fld_arr (dec_timeSeries rfc) ''timeSeries'' j in
         if \<not> (is_struct_doc j \<and> ok) then (respErr 400 ''invalid json'', s, sq)
         else (respJSON 200 (JObj []), put_series project ts s sq))"

definition mon_list :: "(string \<Rightarrow> time option) \<Rightarrow> go_env \<Rightarrow> string \<Rightarrow> mem \<Rightarrow> http_resp" where
  "mon_list rfc e project s = (let pre = ''projects/'' @ project @ ''/'';
       all = (case List s nsSeries pre of Inl _ \<Rightarrow> [] | Inr l \<Rightarrow> l) in
     respJSON 200 (JObj [(''timeSeries'', JArr (map enc_timeSeries (decoded (unmarshal_timeSeries rfc)
       (filter (\<lambda>(k, _). hasPrefix k pre) (e_range e all)))))]))"

definition mon_HandleV3 :: "(string \<Rightarrow> time option) \<Rightarrow> go_env \<Rightarrow> http_req \<Rightarrow> string list \<Rightarrow> mem \<Rightarrow> nat
    \<Rightarrow> (http_resp \<times> mem \<times> nat) option" where
  "mon_HandleV3 rfc e r parts s sq =
    (if length parts < 3 \<or> parts ! 0 \<noteq> ''projects'' \<or> parts ! 2 \<noteq> ''timeSeries'' then None
     else (case r_method r of
        POST \<Rightarrow> Some (mon_create rfc r (parts ! 1) s sq)
      | GET \<Rightarrow> Some (mon_list rfc e (parts ! 1) s, s, sq)
      | _ \<Rightarrow> Some (methodNotAllowed, s, sq)))"

text \<open>A row of the console: metric type, resource type, kind, value type, number of points and the last point, if any.\<close>

definition ConsoleSeries :: "(string \<Rightarrow> time option) \<Rightarrow> go_env \<Rightarrow> mem \<Rightarrow> int
    \<Rightarrow> store_err + (string \<times> string \<times> string \<times> string \<times> nat \<times> (time \<times> (string \<times> json) list option) option) list" where
  "ConsoleSeries rfc e s limit = (case List s nsSeries [] of Inl er \<Rightarrow> Inl er
     | Inr all \<Rightarrow>
        let rows = sort_key fst (map (\<lambda>t. let ps = (case ts_Points t of None \<Rightarrow> [] | Some ps \<Rightarrow> ps) in
              (any_string (jlook (ts_Metric t) ''type''), any_string (jlook (ts_Resource t) ''type''),
               ts_MetricKind t, ts_ValueType t, length ps,
               if ps = [] then None else Some (pt_EndTime (last ps), pt_Value (last ps))))
            (decoded (unmarshal_timeSeries rfc) (e_range e all)))
        in Inr (if limit > 0 \<and> int (length rows) > limit then take (nat limit) rows else rows))"

section \<open>Series are appended\<close>

lemma dec_enc_point: "dec_point rfc (enc_point p) = (p, True)"
  by (cases p; cases "pt_Value p")
     (auto simp: dec_point_def enc_point_def fld_doc_def fld_time_def fld_map_def enc_map_def eqFold_def lower_char_def)

lemma dec_elems_map: "(\<And>x. dec (enc x) = (x, True)) \<Longrightarrow> dec_elems dec (map enc xs) = (xs, True)"
  by (induction xs) auto

lemma dec_enc_timeSeries [codec]: "dec_timeSeries rfc (enc_timeSeries t) = (t, True)"
proof -
  note j = enc_timeSeries_def jmember_append jmember_omit eqFold_def lower_char_def
  have "fld_map ''metric'' (enc_timeSeries t) = (ts_Metric t, True)"
    by (cases "ts_Metric t") (simp_all add: fld_map_def j enc_map_def)
  moreover have "fld_map ''resource'' (enc_timeSeries t) = (ts_Resource t, True)"
    by (cases "ts_Resource t") (simp_all add: fld_map_def j enc_map_def)
  moreover have "fld_str ''metricKind'' (enc_timeSeries t) = (ts_MetricKind t, True)" by (simp add: fld_str_def j)
  moreover have "fld_str ''valueType'' (enc_timeSeries t) = (ts_ValueType t, True)" by (simp add: fld_str_def j)
  moreover have p: "jget ''points'' (enc_timeSeries t) =
      Some (case ts_Points t of None \<Rightarrow> JNull | Some ps \<Rightarrow> JArr (map enc_point ps))" by (simp add: j)
  moreover have "fld_arr (dec_point rfc) ''points'' (enc_timeSeries t) = (case ts_Points t of None \<Rightarrow> [] | Some ps \<Rightarrow> ps, True)"
    by (cases "ts_Points t") (simp_all add: fld_arr_def p dec_elems_map dec_enc_point)
  moreover have "is_struct_doc (enc_timeSeries t)" by (simp add: enc_timeSeries_def)
  ultimately show ?thesis by (cases t; cases "ts_Points t") (simp_all add: dec_timeSeries_def)
qed

interpretation series_res: stored_resource enc_timeSeries "unmarshal_timeSeries rfc" "\<lambda>_. True" "\<lambda>_. []" nsSeries for rfc
  by unfold_locales (simp add: codec)

lemma put_series_only: "mem_ok s \<Longrightarrow> put_series project ts s sq = (s', sq') \<Longrightarrow> only_ns {nsSeries} s s'"
proof (induction ts arbitrary: s sq)
  case (Cons t ts)
  let ?s = "mput s nsSeries (''projects/'' @ project @ ''/'' @ itoa (u64_inc sq)) (JsonB (enc_timeSeries t))"
  have "only_ns {nsSeries} ?s s'" using Cons.prems by (intro Cons.IH [of ?s "u64_inc sq"]) (simp_all add: Let_def)
  moreover have "only_ns {nsSeries} s ?s" using Cons.prems(1) by simp
  ultimately show ?case by (rule only_ns_trans [rotated])
qed simp

end
