(* ===== verification/Metadata_Server.thy ===== *)
theory Metadata_Server
  imports Httpresp Go_Base64 Go_Time Config
begin

text \<open>
  Services \<^verbatim>\<open>internal/services/metadata\<close> (the instance metadata server) and \<^verbatim>\<open>internal/services/iamcredentials\<close>
  (impersonation tokens), which share a signing key.  \<open>sign\<close> is the RS256 signature with this key of a signing input: an error
  text or the signature; \<open>jwk_n\<close> and \<open>jwk_e\<close> are the bytes of its public numbers.
\<close>

section \<open>JSON text\<close>

text \<open>The text of a document as \<^verbatim>\<open>json.Marshal\<close> writes it, for texts of characters it keeps or escapes one by one.\<close>

definition json_char :: "char \<Rightarrow> string" where
  "json_char c = (let n = (of_char c :: nat) in
     if n = 34 \<or> n = 92 then [CHR 0x5C, c]
     else if n = 8 then [CHR 0x5C, CHR ''b''] else if n = 12 then [CHR 0x5C, CHR ''f'']
     else if n = 10 then [CHR 0x5C, CHR ''n''] else if n = 13 then [CHR 0x5C, CHR ''r'']
     else if n = 9 then [CHR 0x5C, CHR ''t'']
     else if n < 32 \<or> n = 60 \<or> n = 62 \<or> n = 38
     then [CHR 0x5C, CHR ''u'', CHR ''0'', CHR ''0'', hex_digit (n div 16), hex_digit (n mod 16)]
     else [c])"

definition json_string :: "string \<Rightarrow> string" where
  "json_string s = [CHR 0x22] @ concat (map json_char s) @ [CHR 0x22]"

fun json_text :: "json \<Rightarrow> string" where
  "json_text JNull = ''null''"
| "json_text (JBool b) = (if b then ''true'' else ''false'')"
| "json_text (JNum i) = itoai i"
| "json_text (JStr s) = json_string s"
| "json_text (JFloat t) = t"
| "json_text (JTime t) = json_string (format_RFC3339Nano t)"
| "json_text (JArr vs) = ''['' @ join '','' (map json_text vs) @ '']''"
| "json_text (JObj ms) = ''{'' @ join '','' (map (\<lambda>(k, v). json_string k @ '':'' @ json_text v) ms) @ ''}''"

section \<open>Tokens\<close>

text \<open>\<^verbatim>\<open>base64.RawURLEncoding\<close>: the other alphabet, and no padding.\<close>

definition url_char :: "char \<Rightarrow> char" where
  "url_char c = (if c = CHR ''+'' then CHR ''-'' else if c = CHR ''/'' then CHR ''_'' else c)"

definition b64url :: "string \<Rightarrow> string" where
  "b64url s = map url_char (filter (\<lambda>c. c \<noteq> CHR ''='') (b64_encode s))"

record meta_service =
  ms_project :: string
  ms_email :: string
  ms_scopes :: "string list"

definition meta_New :: "Config option \<Rightarrow> meta_service" where
  "meta_New cfg = (let project = (case cfg of Some c \<Rightarrow> if Project c \<noteq> [] then Project c else ''local-project''
        | None \<Rightarrow> ''local-project'') in
     \<lparr>ms_project = project, ms_email = ''gcp-local@'' @ project @ ''.iam.gserviceaccount.com'',
      ms_scopes = [''https://www.googleapis.com/auth/cloud-platform'']\<rparr>)"

definition keyID :: string where "keyID = ''gcp-local-key-1''"
definition issuer :: string where "issuer = ''gcp-local''"

definition jwt_header :: json where
  "jwt_header = JObj [(''alg'', JStr ''RS256''), (''kid'', JStr keyID), (''typ'', JStr ''JWT'')]"

definition signJWT :: "(string \<Rightarrow> string + string) \<Rightarrow> json \<Rightarrow> string + string" where
  "signJWT sign claims = (let signingInput = b64url (json_text jwt_header) @ ''.'' @ b64url (json_text claims) in
     case sign signingInput of Inl er \<Rightarrow> Inl er | Inr sig \<Rightarrow> Inr (signingInput @ ''.'' @ b64url sig))"

text \<open>The members of a map are marshalled in the order of their keys.\<close>

definition id_claims :: "string \<Rightarrow> string \<Rightarrow> string \<Rightarrow> int \<Rightarrow> json" where
  "id_claims audience sub email now = JObj [(''aud'', JStr audience), (''email'', JStr email), (''email_verified'', JBool True),
     (''exp'', JNum (now + 3600)), (''iat'', JNum now), (''iss'', JStr issuer), (''sub'', JStr sub)]"

definition SignIDToken :: "(string \<Rightarrow> string + string) \<Rightarrow> go_env \<Rightarrow> meta_service \<Rightarrow> string \<Rightarrow> string \<Rightarrow> string \<Rightarrow> string + string" where
  "SignIDToken sign e ms audience sub email =
     (let sub = (if sub = [] then ''000000000000000000000'' else sub);
          email = (if email = [] then ms_email ms else email)
      in signJWT sign (id_claims audience sub email (unix_seconds (e_now e 0))))"

definition SignAccessToken :: "string \<times> int" where
  "SignAccessToken = (''gcp-local-access-token'', 3600)"

section \<open>The metadata server\<close>

definition flavorHeader :: string where "flavorHeader = ''Metadata-Flavor''"
definition flavorValue :: string where "flavorValue = ''Google''"

text \<open>Answers carry the flavour header once it has been checked.\<close>

definition writePlain :: "string \<Rightarrow> http_resp" where
  "writePlain s = \<lparr>rs_code = 200, rs_header = [(flavorHeader, flavorValue), (''Content-Type'', ''application/text'')],
     rs_body = Some (RawB s)\<rparr>"

definition meta_writeJSON :: "json \<Rightarrow> http_resp" where
  "meta_writeJSON j = \<lparr>rs_code = 200, rs_header = (flavorHeader, flavorValue) # json_header, rs_body = Some (JsonB j)\<rparr>"

definition meta_writeErr :: "nat \<Rightarrow> string \<Rightarrow> http_resp" where
  "meta_writeErr code msg = (respErr code msg)\<lparr>rs_header := (flavorHeader, flavorValue) # json_header\<rparr>"

definition writeJWKS :: "string \<Rightarrow> string \<Rightarrow> http_resp" where
  "writeJWKS jwk_n jwk_e = meta_writeJSON (JObj [(''keys'', JArr [JObj [(''alg'', JStr ''RS256''), (''e'', JStr (b64url jwk_e)),
     (''kid'', JStr keyID), (''kty'', JStr ''RSA''), (''n'', JStr (b64url jwk_n)), (''use'', JStr ''sig'')]])])"

definition default_account :: string where "default_account = ''/instance/service-accounts/default''"

definition nl :: string where "nl = [CHR 0x0A]"

definition meta_handle :: "(string \<Rightarrow> string + string) \<Rightarrow> string \<Rightarrow> string \<Rightarrow> go_env \<Rightarrow> meta_service \<Rightarrow> http_req \<Rightarrow> http_resp" where
  "meta_handle sign jwk_n jwk_e e ms r =
    (if r_method r \<noteq> GET then respErr 405 ''method not allowed''
     else if r_path r = ''/computeMetadata/v1/jwks'' then writeJWKS jwk_n jwk_e
     else if get_first (r_header r) flavorHeader \<noteq> flavorValue
     then \<lparr>rs_code = 403, rs_header = [(''Content-Type'', ''text/html; charset=UTF-8'')],
           rs_body = Some (RawB (''Missing Metadata-Flavor:Google header.'' @ nl))\<rparr>
     else let path = trimPrefix (r_path r) ''/computeMetadata/v1'' in
       if path = [] \<or> path = ''/'' then writePlain (''instance/'' @ nl @ ''project/'' @ nl)
       else if path = ''/instance'' \<or> path = ''/instance/'' then writePlain (''service-accounts/'' @ nl)
       else if path = ''/instance/service-accounts'' \<or> path = ''/instance/service-accounts/'' then writePlain (''default/'' @ nl)
       else if path = default_account \<or> path = default_account @ ''/''
       then (if get_first (r_query r) ''recursive'' = ''true''
             then meta_writeJSON (JObj [(''aliases'', jstrs [''default'']), (''email'', JStr (ms_email ms)),
                (''scopes'', jstrs (ms_scopes ms))])
             else writePlain (''aliases'' @ nl @ ''email'' @ nl @ ''identity'' @ nl @ ''scopes'' @ nl @ ''token'' @ nl))
       else if path = default_account @ ''/email'' then writePlain (ms_email ms)
       else if path = default_account @ ''/aliases'' then writePlain ''default''
       else if path = default_account @ ''/scopes'' then writePlain (join nl (ms_scopes ms))
       else if path = default_account @ ''/token''
       then meta_writeJSON (JObj [(''access_token'', JStr (fst SignAccessToken)), (''expires_in'', JNum (snd SignAccessToken)),
          (''token_type'', JStr ''Bearer'')])
       else if path = default_account @ ''/identity''
       then (let audience = get_first (r_query r) ''audience'' in
         if audience = [] then meta_writeErr 400 ''non-empty audience parameter required''
         else (case SignIDToken sign e ms audience [] [] of Inl er \<Rightarrow> meta_writeErr 500 er | Inr jwt \<Rightarrow> writePlain jwt))
       else if path = ''/project'' \<or> path = ''/project/'' then writePlain (''numeric-project-id'' @ nl @ ''project-id'' @ nl)
       else if path = ''/project/project-id'' then writePlain (ms_project ms)
       else if path = ''/project/numeric-project-id'' then writePlain ''1234567890''
       else meta_writeErr 404 ''not found'')"

section \<open>Impersonation\<close>

definition generateAccessToken :: "go_env \<Rightarrow> http_req \<Rightarrow> http_resp" where
  "generateAccessToken e r = (if r_method r \<noteq> POST then methodNotAllowed
     else let (tok, ttl) = SignAccessToken in
       respJSON 200 (JObj [(''accessToken'', JStr tok),
         (''expireTime'', JStr (format_RFC3339 (e_now e 0 + ttl * ns_per_second)))]))"

definition generateIDToken :: "(string \<Rightarrow> string + string) \<Rightarrow> go_env \<Rightarrow> meta_service \<Rightarrow> http_req \<Rightarrow> string \<Rightarrow> http_resp" where
  "generateIDToken sign e ms r email = (if r_method r \<noteq> POST then methodNotAllowed
     else (case r_json r of None \<Rightarrow> respErr 400 ''invalid json''
      | Some j \<Rightarrow> let (aud, o1) = fld_str ''audience'' j; (_, o2) = fld_strlist ''delegates'' j;
           (inc, o3) = fld_bool ''includeEmail'' j in
         if \<not> (is_struct_doc j \<and> o1 \<and> o2 \<and> o3) then respErr 400 ''invalid json''
         else if aud = [] then respErr 400 ''audience required''
         else (case SignIDToken sign e ms aud email (if inc then email else []) of
             Inl er \<Rightarrow> respErr 500 er
           | Inr jwt \<Rightarrow> respJSON 200 (JObj [(''token'', JStr jwt)]))))"

definition iamc_HandleV1 :: "(string \<Rightarrow> string + string) \<Rightarrow> go_env \<Rightarrow> meta_service \<Rightarrow> http_req \<Rightarrow> string list \<Rightarrow> http_resp option" where
  "iamc_HandleV1 sign e ms r parts =
    (if length parts \<noteq> 4 \<or> parts ! 2 \<noteq> ''serviceAccounts'' then None
     else let (email, action) = splitAction (parts ! 3) in
       if email = [] \<or> action = [] then None
       else if action = ''generateAccessToken'' then Some (generateAccessToken e r)
       else if action = ''generateIdToken'' then Some (generateIDToken sign e ms r email)
       else None)"

section \<open>What a client reads from a token\<close>

text \<open>Decoding as a client does it: the standard alphabet and the padding are put back.\<close>

definition std_char :: "char \<Rightarrow> char" where
  "std_char c = (if c = CHR ''-'' then CHR ''+'' else if c = CHR ''_'' then CHR ''/'' else c)"

definition b64url_decode :: "string \<Rightarrow> string \<times> bool" where
  "b64url_decode s = b64_decode (map std_char s @ replicate ((4 - length s mod 4) mod 4) (CHR ''=''))"

lemma b64char_cases: "n < 64 \<Longrightarrow> b64char n \<notin> {CHR ''='', CHR ''-'', CHR ''_'', CHR ''.''}"
  using b64val_char [of n] by (auto simp: b64val_def)

lemma url_char_b64: "n < 64 \<Longrightarrow> std_char (url_char (b64char n)) = b64char n"
  using b64char_cases [of n] by (auto simp: std_char_def url_char_def)

lemma url_char_no_dot: "n < 64 \<Longrightarrow> url_char (b64char n) \<noteq> CHR ''.''"
  using b64char_cases [of n] by (auto simp: url_char_def)

text \<open>The characters of an encoding are digits of the alphabet followed by the padding that its length asks for.\<close>

lemma b64_encode_shape:
  "\<exists>ns. list_all (\<lambda>n. n < 64) ns \<and> b64_encode s = map b64char ns @ replicate ((4 - length ns mod 4) mod 4) (CHR ''='')"
proof (induction s rule: b64_encode.induct)
  case 1
  show ?case by (intro exI [of _ "[]"]) simp
next
  case (2 a)
  let ?ns = "[of_char a div 4, (of_char a mod 4) * 16] :: nat list"
  show ?case using char_sextets(1,2) [OF of_char_256 [of a] of_char_256 of_char_256]
    by (intro exI [of _ ?ns]) (simp add: Let_def numeral_2_eq_2)
next
  case (3 a b)
  let ?ns = "[of_char a div 4, (of_char a mod 4) * 16 + of_char b div 16, (of_char b mod 16) * 4] :: nat list"
  show ?case using char_sextets(1,3,4) [OF of_char_256 [of a] of_char_256 [of b] of_char_256]
    by (intro exI [of _ ?ns]) (simp add: Let_def)
next
  case (4 a b c r)
  then obtain ns where ns: "list_all (\<lambda>n. n < 64) ns" "b64_encode r = map b64char ns @ replicate ((4 - length ns mod 4) mod 4) (CHR ''='')"
    by blast
  let ?ns = "[of_char a div 4, (of_char a mod 4) * 16 + of_char b div 16, (of_char b mod 16) * 4 + of_char c div 64,
    of_char c mod 64] @ ns :: nat list"
  have "length ?ns mod 4 = length ns mod 4" by simp
  then show ?case using ns char_sextets(1,3,5,6) [OF of_char_256 [of a] of_char_256 [of b] of_char_256 [of c]]
    by (intro exI [of _ ?ns]) (simp add: Let_def)
qed

lemma b64url_ns: "\<exists>ns. list_all (\<lambda>n. n < 64) ns \<and> b64url s = map (\<lambda>n. url_char (b64char n)) ns \<and>
    b64_encode s = map b64char ns @ replicate ((4 - length ns mod 4) mod 4) (CHR ''='')"
proof -
  from b64_encode_shape [of s] obtain ns where ns: "list_all (\<lambda>n. n < 64) ns"
    "b64_encode s = map b64char ns @ replicate ((4 - length ns mod 4) mod 4) (CHR ''='')" by blast
  have "filter (\<lambda>c. c \<noteq> CHR ''='') (map b64char ns) = map b64char ns"
    using ns(1) b64char_pad by (intro filter_True) (auto simp: list_all_iff)
  then have "b64url s = map (\<lambda>n. url_char (b64char n)) ns" by (simp add: b64url_def ns(2) comp_def)
  with ns show ?thesis by blast
qed

lemma b64url_roundtrip [simp]: "b64url_decode (b64url s) = (s, True)"
proof -
  from b64url_ns [of s] obtain ns where ns: "list_all (\<lambda>n. n < 64) ns" "b64url s = map (\<lambda>n. url_char (b64char n)) ns"
    "b64_encode s = map b64char ns @ replicate ((4 - length ns mod 4) mod 4) (CHR ''='')" by blast
  have "map std_char (b64url s) = map b64char ns" using ns(1) by (simp add: ns(2) url_char_b64 list_all_iff)
  moreover have "length (b64url s) = length ns" by (simp add: ns(2))
  ultimately have "b64url_decode (b64url s) = b64_decode (b64_encode s)"
    by (simp add: b64url_decode_def ns(3))
  then show ?thesis by simp
qed

lemma b64url_no_dot [simp]: "CHR ''.'' \<notin> set (b64url s)"
  using b64url_ns [of s] url_char_no_dot by (fastforce simp: list_all_iff)

text \<open>
  A client that asks for an identity token gets three segments: a header, the claims, and the signature of the first two
  under the published key.  The claims are those of the requested audience and the impersonated account, valid for an hour.
\<close>

theorem id_token_carries_claims:
  assumes "r_method r = POST" "r_json r = Some (JObj [(''audience'', JStr aud), (''includeEmail'', JBool inc)])" "aud \<noteq> []"
    and "email \<noteq> []" "\<And>x. \<exists>g. sign x = Inr g"
  shows "\<exists>h c g. iamc_HandleV1 sign e ms r [''projects'', p, ''serviceAccounts'', email @ '':generateIdToken''] =
      Some (respJSON 200 (JObj [(''token'', JStr (join ''.'' [h, c, b64url g]))])) \<and>
    split_on (CHR ''.'') (join ''.'' [h, c, b64url g]) = [h, c, b64url g] \<and>
    b64url_decode h = (json_text jwt_header, True) \<and>
    b64url_decode c = (json_text (id_claims aud email (if inc then email else ms_email ms) (unix_seconds (e_now e 0))), True) \<and>
    sign (h @ ''.'' @ c) = Inr g"
proof -
  let ?h = "b64url (json_text jwt_header)"
  let ?c = "b64url (json_text (id_claims aud email (if inc then email else ms_email ms) (unix_seconds (e_now e 0))))"
  obtain g where g: "sign (?h @ ''.'' @ ?c) = Inr g" using assms(5) by blast
  have f: "fld_str ''audience'' (JObj [(''audience'', JStr aud), (''includeEmail'', JBool inc)]) = (aud, True)"
    "fld_bool ''includeEmail'' (JObj [(''audience'', JStr aud), (''includeEmail'', JBool inc)]) = (inc, True)"
    "fld_strlist ''delegates'' (JObj [(''audience'', JStr aud), (''includeEmail'', JBool inc)]) = (None, True)"
    by (simp_all add: fld_str_def fld_bool_def fld_strlist_def eqFold_def lower_char_def)
  have "SignIDToken sign e ms aud email (if inc then email else []) = Inr (join ''.'' [?h, ?c, b64url g])"
    using g assms(4) by (auto simp: SignIDToken_def signJWT_def Let_def split: if_splits)
  then have "iamc_HandleV1 sign e ms r [''projects'', p, ''serviceAccounts'', email @ '':generateIdToken''] =
      Some (respJSON 200 (JObj [(''token'', JStr (join ''.'' [?h, ?c, b64url g]))]))"
    using assms(1-4) f splitAction_append [of "''generateIdToken''" email]
    by (simp add: iamc_HandleV1_def generateIDToken_def del: join.simps)
  moreover have "split_on (CHR ''.'') (join ''.'' [?h, ?c, b64url g]) = [?h, ?c, b64url g]"
    by (rule split_on_join) (simp_all del: join.simps)
  ultimately show ?thesis using g b64url_roundtrip by blast
qed

theorem id_token_carries_claims_witness:
  "\<exists>h c g. iamc_HandleV1 (\<lambda>x. Inr ''sig'') \<lparr>e_now = (\<lambda>_. 0), e_range = (\<lambda>xs. xs)\<rparr> (meta_New None)
      \<lparr>r_method = POST, r_path = [], r_query = [], r_header = [], r_host = [], r_tls = False, r_contentLength = 0, r_bytes = [],
        r_json = Some (JObj [(''audience'', JStr ''https://x''), (''includeEmail'', JBool True)])\<rparr>
      [''projects'', ''-'', ''serviceAccounts'', ''a@b'' @ '':generateIdToken''] =
      Some (respJSON 200 (JObj [(''token'', JStr (join ''.'' [h, c, b64url g]))])) \<and> g = ''sig'' \<and>
    b64url_decode c = (json_text (id_claims ''https://x'' ''a@b'' ''a@b'' (unix_seconds 0)), True)"
proof -
  let ?r = "\<lparr>r_method = POST, r_path = [], r_query = [], r_header = [], r_host = [], r_tls = False, r_contentLength = 0, r_bytes = [],
        r_json = Some (JObj [(''audience'', JStr ''https://x''), (''includeEmail'', JBool True)])\<rparr> :: http_req"
  let ?e = "\<lparr>e_now = (\<lambda>_. 0), e_range = (\<lambda>xs. xs)\<rparr> :: go_env"
  have "\<exists>h c g. iamc_HandleV1 (\<lambda>x. Inr ''sig'') ?e (meta_New None) ?r [''projects'', ''-'', ''serviceAccounts'', ''a@b'' @ '':generateIdToken''] =
      Some (respJSON 200 (JObj [(''token'', JStr (join ''.'' [h, c, b64url g]))])) \<and>
    split_on (CHR ''.'') (join ''.'' [h, c, b64url g]) = [h, c, b64url g] \<and>
    b64url_decode h = (json_text jwt_header, True) \<and>
    b64url_decode c = (json_text (id_claims ''https://x'' ''a@b'' (if True then ''a@b'' else ms_email (meta_New None)) (unix_seconds (e_now ?e 0))), True) \<and>
    (Inr ''sig'' :: string + string) = Inr g"
    by (rule id_token_carries_claims [where r = ?r]) simp_all
  then obtain h c g where *: "iamc_HandleV1 (\<lambda>x. Inr ''sig'') ?e (meta_New None) ?r
      [''projects'', ''-'', ''serviceAccounts'', ''a@b'' @ '':generateIdToken''] =
      Some (respJSON 200 (JObj [(''token'', JStr (join ''.'' [h, c, b64url g]))]))"
    "b64url_decode c = (json_text (id_claims ''https://x'' ''a@b'' (if True then ''a@b'' else ms_email (meta_New None)) (unix_seconds (e_now ?e 0))), True)"
    "(Inr ''sig'' :: string + string) = Inr g" by blast
  have "g = ''sig''" using *(3) by simp
  moreover have "b64url_decode c = (json_text (id_claims ''https://x'' ''a@b'' ''a@b'' (unix_seconds 0)), True)"
    using *(2) by (simp only: if_True go_env.select_convs)
  ultimately show ?thesis using *(1) by blast
qed

end
