(* ===== verification/Cloud_Run.thy ===== *)
theory Cloud_Run
  imports Resource_Codec Httpresp Go_Time
begin

text \<open>
  Service \<^verbatim>\<open>internal/services/cloudrun\<close>, which serves both Cloud Run services and Cloud Functions, and the runner of its child
  processes.  The record \<open>run_world\<close> is what the operating system and the backends answer in one request: the environment of
  the process, a free port, the process a start gives, whether it binds its port, and the answer of the HTTP client.
  \<^verbatim>\<open>startOrGet\<close> gives up its lock between looking a child up and recording a new one, so it is split into its atomic
  sections.
\<close>

section \<open>Data\<close>

datatype Kind = KindService | KindFunction

definition nsServices :: string where "nsServices = ''cloudrun/services''"
definition nsFunctions :: string where "nsFunctions = ''functions/functions''"

lemmas [ns_defs] = nsServices_def nsFunctions_def

fun cr_ns :: "Kind \<Rightarrow> string" where
  "cr_ns KindService = nsServices"
| "cr_ns KindFunction = nsFunctions"

fun collectionSeg :: "Kind \<Rightarrow> string" where
  "collectionSeg KindService = ''services''"
| "collectionSeg KindFunction = ''functions''"

record cr_resource =
  cr_Name :: string
  cr_BackendURL :: string
  cr_Command :: "string list"
  cr_Env :: "(string \<times> string) list"
  cr_CreateTime :: time

definition enc_cr :: "cr_resource \<Rightarrow> json" where
  "enc_cr c = JObj ([(''name'', JStr (cr_Name c))] @ omit (cr_BackendURL c = []) ''backendUrl'' (JStr (cr_BackendURL c)) @
     omit (cr_Command c = []) ''command'' (jstrs (cr_Command c)) @ omit (cr_Env c = []) ''env'' (jstrmap (cr_Env c)) @
     [(''createTime'', JTime (cr_CreateTime c))])"

definition dec_cr :: "(string \<Rightarrow> time option) \<Rightarrow> json \<Rightarrow> cr_resource \<times> bool" where
  "dec_cr rfc j = (let (n, o1) = fld_str ''name'' j; (b, o2) = fld_str ''backendUrl'' j; (c, o3) = fld_strlist ''command'' j;
       (v, o4) = fld_strmap ''env'' j; (t, o5) = fld_time rfc ''createTime'' j in
     (\<lparr>cr_Name = n, cr_BackendURL = b, cr_Command = (case c of None \<Rightarrow> [] | Some l \<Rightarrow> l),
       cr_Env = (case v of None \<Rightarrow> [] | Some m \<Rightarrow> m), cr_CreateTime = t\<rparr>,
      is_struct_doc j \<and> o1 \<and> o2 \<and> o3 \<and> o4 \<and> o5))"

fun unmarshal_cr :: "(string \<Rightarrow> time option) \<Rightarrow> blob \<Rightarrow> cr_resource \<times> bool" where
  "unmarshal_cr rfc (JsonB j) = dec_cr rfc j"
| "unmarshal_cr rfc (RawB _) = (fst (dec_cr rfc JNull), False)"

definition resourceName :: "Kind \<Rightarrow> string \<Rightarrow> string \<Rightarrow> string \<Rightarrow> string" where
  "resourceName k project loc i = ''projects/'' @ project @ ''/locations/'' @ loc @ ''/'' @ collectionSeg k @ ''/'' @ i"

section \<open>The runner\<close>

record child =
  ch_pid :: nat
  ch_port :: nat
  ch_baseURL :: string

text \<open>A running process: its identifier, its command line and its environment.\<close>

type_synonym proc = "nat \<times> string list \<times> (string \<times> string) list"

record cr_runner =
  rn_children :: "(string \<times> child) list"
  rn_procs :: "proc list"

definition newRunner :: cr_runner where
  "newRunner = \<lparr>rn_children = [], rn_procs = []\<rparr>"

record run_world =
  rw_environ :: "(string \<times> string) list"
  rw_freePort :: "string + nat"
  rw_start :: "string + nat"
  rw_listening :: "string option"
  rw_do :: "meth \<Rightarrow> string \<Rightarrow> (string \<times> string) list \<Rightarrow> string \<Rightarrow> string + http_resp"
  rw_newRequest :: "string \<Rightarrow> string option"

definition running :: "cr_runner \<Rightarrow> nat \<Rightarrow> bool" where
  "running rn pid = (pid \<in> fst ` set (rn_procs rn))"

definition kill :: "nat \<Rightarrow> cr_runner \<Rightarrow> cr_runner" where
  "kill pid rn = rn\<lparr>rn_procs := filter (\<lambda>(p, _). p \<noteq> pid) (rn_procs rn)\<rparr>"

text \<open>The first critical section: a child that runs is returned, one that has exited is forgotten.\<close>

definition runner_lookup :: "string \<Rightarrow> cr_runner \<Rightarrow> child option \<times> cr_runner" where
  "runner_lookup name rn = (case map_of (rn_children rn) name of None \<Rightarrow> (None, rn)
     | Some c \<Rightarrow> if running rn (ch_pid c) then (Some c, rn)
         else (None, rn\<lparr>rn_children := AList.delete name (rn_children rn)\<rparr>))"

text \<open>Between the critical sections: the process is started, and killed again when it does not bind its port.\<close>

definition runner_spawn :: "run_world \<Rightarrow> string \<Rightarrow> string list \<Rightarrow> (string \<times> string) list \<Rightarrow> cr_runner \<Rightarrow> (string + child) \<times> cr_runner" where
  "runner_spawn w name command env rn = (case rw_freePort w of Inl er \<Rightarrow> (Inl (''allocate port: '' @ er), rn)
     | Inr port \<Rightarrow> (case rw_start w of Inl er \<Rightarrow> (Inl (''start '' @ hd command @ '': '' @ er), rn)
       | Inr pid \<Rightarrow>
          let vars = rw_environ w @ [(''PORT'', itoa port), (''K_SERVICE'', lastSegment name)] @ env;
              rn' = rn\<lparr>rn_procs := (pid, command, vars) # rn_procs rn\<rparr>;
              c = \<lparr>ch_pid = pid, ch_port = port, ch_baseURL = ''http://127.0.0.1:'' @ itoa port\<rparr>
          in (case rw_listening w of Some er \<Rightarrow> (Inl (''child '' @ go_quote name @ '' did not bind port '' @ itoa port @ '': '' @ er), kill pid rn')
            | None \<Rightarrow> (Inr c, rn'))))"

text \<open>The second critical section.\<close>

definition runner_register :: "string \<Rightarrow> child \<Rightarrow> cr_runner \<Rightarrow> cr_runner" where
  "runner_register name c rn = rn\<lparr>rn_children := AList.update name c (rn_children rn)\<rparr>"

definition startOrGet :: "run_world \<Rightarrow> string \<Rightarrow> string list \<Rightarrow> (string \<times> string) list \<Rightarrow> cr_runner \<Rightarrow> (string + child) \<times> cr_runner" where
  "startOrGet w name command env rn = (if command = [] then (Inl ''command is empty'', rn)
     else (case runner_lookup name rn of (Some c, rn1) \<Rightarrow> (Inr c, rn1)
       | (None, rn1) \<Rightarrow> (case runner_spawn w name command env rn1 of (Inl er, rn2) \<Rightarrow> (Inl er, rn2)
          | (Inr c, rn2) \<Rightarrow> (Inr c, runner_register name c rn2))))"

definition runner_stop :: "string \<Rightarrow> cr_runner \<Rightarrow> cr_runner" where
  "runner_stop name rn = (case map_of (rn_children rn) name of None \<Rightarrow> rn
     | Some c \<Rightarrow> kill (ch_pid c) (rn\<lparr>rn_children := AList.delete name (rn_children rn)\<rparr>))"

definition stopAll :: "cr_runner \<Rightarrow> cr_runner" where
  "stopAll rn = fold (\<lambda>(_, c) r. kill (ch_pid c) r) (rn_children rn) (rn\<lparr>rn_children := []\<rparr>)"

section \<open>Handlers\<close>

type_synonym cr_result = "http_resp \<times> mem \<times> cr_runner"

definition cr_collection :: "Kind \<Rightarrow> (string \<Rightarrow> time option) \<Rightarrow> go_env \<Rightarrow> http_req \<Rightarrow> string \<Rightarrow> string \<Rightarrow> mem \<Rightarrow> cr_runner \<Rightarrow> cr_result" where
  "cr_collection k rfc e r project loc s rn = (case r_method r of
     POST \<Rightarrow> (case r_json r of None \<Rightarrow> (respErr 400 ''invalid json'', s, rn)
      | Some j \<Rightarrow> let (body, ok) = dec_cr rfc j in
         if \<not> ok then (respErr 400 ''invalid json'', s, rn)
         else let i = lastSegment (cr_Name body) in
           if i = [] then (respErr 400 ''name required'', s, rn)
           else let body = body\<lparr>cr_Name := resourceName k project loc i, cr_CreateTime := e_now e 0\<rparr> in
             (case Get s (cr_ns k) (cr_Name body) of Inr _ \<Rightarrow> (respErr 409 ''exists'', s, rn)
              | Inl _ \<Rightarrow> (respJSON 200 (enc_cr body),
                 (case Put s (cr_ns k) (cr_Name body) (JsonB (enc_cr body)) of Inl _ \<Rightarrow> s | Inr s' \<Rightarrow> s'), rn)))
   | GET \<Rightarrow> (let all = (case List s (cr_ns k) (''projects/'' @ project @ ''/locations/'' @ loc @ ''/'' @ collectionSeg k @ ''/'') of
            Inl _ \<Rightarrow> [] | Inr l \<Rightarrow> l)
       in (respJSON 200 (JObj [(collectionSeg k, JArr (map enc_cr (decoded (unmarshal_cr rfc) (e_range e all))))]), s, rn))
   | _ \<Rightarrow> (methodNotAllowed, s, rn))"

definition cr_item :: "Kind \<Rightarrow> http_req \<Rightarrow> string \<Rightarrow> string \<Rightarrow> string \<Rightarrow> mem \<Rightarrow> cr_runner \<Rightarrow> cr_result" where
  "cr_item k r project loc i s rn = (let name = resourceName k project loc i in
     case r_method r of
       GET \<Rightarrow> (case Get s (cr_ns k) name of
           Inl er \<Rightarrow> if er = ErrNotFound then (respErr 404 ''not found'', s, rn) else (write_raw (RawB []), s, rn)
         | Inr d \<Rightarrow> (write_raw d, s, rn))
     | DELETE \<Rightarrow> (case Delete s (cr_ns k) name of Inl _ \<Rightarrow> (respErr 404 ''not found'', s, rn)
         | Inr s' \<Rightarrow> (header_only 200, s', runner_stop name rn))
     | _ \<Rightarrow> (methodNotAllowed, s, rn))"

definition cr_invoke :: "Kind \<Rightarrow> (string \<Rightarrow> time option) \<Rightarrow> run_world \<Rightarrow> http_req \<Rightarrow> string \<Rightarrow> string \<Rightarrow> string \<Rightarrow> mem \<Rightarrow> cr_runner \<Rightarrow> cr_result" where
  "cr_invoke k rfc w r project loc i s rn = (let name = resourceName k project loc i in
     case Get s (cr_ns k) name of Inl _ \<Rightarrow> (respErr 404 ''not found'', s, rn)
     | Inr d \<Rightarrow> let (res, ok) = unmarshal_cr rfc d in
        if \<not> ok then (respErr 500 ''invalid json'', s, rn)
        else let (target, rn') = (if cr_Command res \<noteq> []
                 then (case startOrGet w name (cr_Command res) (cr_Env res) rn of
                    (Inl er, rn') \<Rightarrow> (Inl er, rn') | (Inr c, rn') \<Rightarrow> (Inr (ch_baseURL c), rn'))
                 else (Inr (cr_BackendURL res), rn)) in
          case target of Inl er \<Rightarrow> (respErr 502 (''spawn child: '' @ er), s, rn')
          | Inr url \<Rightarrow> if url = [] then (respErr 400 ''no backendUrl or command set on resource'', s, rn')
             else (case rw_newRequest w url of Some er \<Rightarrow> (respErr 500 er, s, rn')
               | None \<Rightarrow> (case rw_do w (r_method r) url (r_header r) (r_bytes r) of
                   Inl er \<Rightarrow> (respErr 502 er, s, rn') | Inr resp \<Rightarrow> (resp, s, rn'))))"

definition cr_HandleV2 :: "Kind \<Rightarrow> (string \<Rightarrow> time option) \<Rightarrow> run_world \<Rightarrow> go_env \<Rightarrow> http_req \<Rightarrow> string list \<Rightarrow> mem \<Rightarrow> cr_runner \<Rightarrow> cr_result option" where
  "cr_HandleV2 k rfc w e r parts s rn =
    (if length parts < 5 \<or> parts ! 2 \<noteq> ''locations'' then None
     else if parts ! 4 \<noteq> collectionSeg k then None
     else if length parts = 5 then Some (cr_collection k rfc e r (parts ! 1) (parts ! 3) s rn)
     else if length parts = 6 then Some (cr_item k r (parts ! 1) (parts ! 3) (parts ! 5) s rn)
     else if length parts = 7 \<and> parts ! 6 = ''invoke'' then Some (cr_invoke k rfc w r (parts ! 1) (parts ! 3) (parts ! 5) s rn)
     else None)"

definition ConsoleResources :: "Kind \<Rightarrow> (string \<Rightarrow> time option) \<Rightarrow> go_env \<Rightarrow> mem \<Rightarrow> store_err + (string \<times> string \<times> time) list" where
  "ConsoleResources k rfc e s = (case List s (cr_ns k) [] of Inl er \<Rightarrow> Inl er
     | Inr all \<Rightarrow> Inr (sort_key fst (map (\<lambda>c. (cr_Name c, cr_BackendURL c, cr_CreateTime c))
         (decoded (unmarshal_cr rfc) (e_range e all)))))"

definition ConsoleKind :: "Kind \<Rightarrow> string" where
  "ConsoleKind k = (case k of KindService \<Rightarrow> ''service'' | KindFunction \<Rightarrow> ''function'')"

section \<open>Processes and the runner's table\<close>

text \<open>Every process that runs is in the table, under one name, and no process identifier is used twice.\<close>

definition rn_inv :: "cr_runner \<Rightarrow> bool" where
  "rn_inv rn \<longleftrightarrow> distinct (map fst (rn_children rn)) \<and> distinct (map fst (rn_procs rn)) \<and>
     (\<forall>pid. running rn pid \<longrightarrow> (\<exists>name c. map_of (rn_children rn) name = Some c \<and> ch_pid c = pid))"

text \<open>
  Whole operations, one after the other: an invocation gets or starts the child of its resource, a deletion stops it, a process
  exits by itself.  The operating system gives a new process an identifier that no running process and no recorded child has.
\<close>

inductive rn_step :: "cr_runner \<Rightarrow> cr_runner \<Rightarrow> bool" where
  rn_invoke: "(\<And>pid. rw_start w = Inr pid \<Longrightarrow> \<not> running rn pid \<and> pid \<notin> ch_pid ` snd ` set (rn_children rn)) \<Longrightarrow>
    startOrGet w name command env rn = (res, rn') \<Longrightarrow> rn_step rn rn'"
| rn_delete: "rn_step rn (runner_stop name rn)"
| rn_exit: "rn_step rn (kill pid rn)"

lemma running_kill: "running (kill p rn) pid \<longleftrightarrow> running rn pid \<and> pid \<noteq> p"
  by (auto simp: running_def kill_def)

lemma kill_children [simp]: "rn_children (kill p rn) = rn_children rn"
  by (simp add: kill_def)

lemma distinct_kill: "distinct (map fst (rn_procs rn)) \<Longrightarrow> distinct (map fst (rn_procs (kill p rn)))"
  by (simp add: kill_def distinct_map_filter)

lemma runner_lookup_inv:
  assumes "rn_inv rn" "runner_lookup name rn = (c, rn')"
  shows "rn_inv rn'" "rn_procs rn' = rn_procs rn"
    "c = None \<Longrightarrow> map_of (rn_children rn') name = None"
proof -
  consider "rn' = rn" "c = None \<longrightarrow> map_of (rn_children rn) name = None"
    | d where "map_of (rn_children rn) name = Some d" "\<not> running rn (ch_pid d)" "c = None"
      "rn' = rn\<lparr>rn_children := AList.delete name (rn_children rn)\<rparr>"
    using assms(2) by (cases "map_of (rn_children rn) name") (fastforce simp: runner_lookup_def split: if_splits)+
  then have "rn_inv rn' \<and> rn_procs rn' = rn_procs rn \<and>
    (c = None \<longrightarrow> map_of (rn_children rn') name = None)"
  proof cases
    case 2
    have "\<exists>n c. map_of (AList.delete name (rn_children rn)) n = Some c \<and> ch_pid c = pid" if run: "running rn pid" for pid
    proof -
      obtain n c where "map_of (rn_children rn) n = Some c" "ch_pid c = pid" using assms(1) run unfolding rn_inv_def by blast
      moreover from this have "n \<noteq> name" using 2(1,2) run by auto
      ultimately show ?thesis by (auto simp: delete_conv')
    qed
    then show ?thesis using assms(1) 2(4)
      by (simp add: rn_inv_def distinct_delete running_def delete_conv')
  qed (use assms(1) in simp)
  then show "rn_inv rn'" "rn_procs rn' = rn_procs rn"
    "c = None \<Longrightarrow> map_of (rn_children rn') name = None" by simp_all
qed

lemma runner_spawn_cases:
  assumes "runner_spawn w name command env rn = (res, rn')" "\<And>pid. rw_start w = Inr pid \<Longrightarrow> \<not> running rn pid"
  shows "(\<exists>er. res = Inl er \<and> rn' = rn) \<or> (\<exists>c vars. res = Inr c \<and> rw_start w = Inr (ch_pid c) \<and>
    rn' = rn\<lparr>rn_procs := (ch_pid c, command, vars) # rn_procs rn\<rparr>)"
proof -
  have "kill pid (rn\<lparr>rn_procs := (pid, x) # rn_procs rn\<rparr>) = rn" if "\<not> running rn pid" for pid x
  proof -
    have "filter (\<lambda>(p, _). p \<noteq> pid) (rn_procs rn) = rn_procs rn"
      using that by (intro filter_True) (force simp: running_def)
    then show ?thesis by (simp add: kill_def)
  qed
  then show ?thesis using assms
    by (auto simp: runner_spawn_def Let_def split: sum.splits option.splits)
qed

lemma runner_register_inv:
  assumes "rn_inv rn" "map_of (rn_children rn) name = None" "\<not> running rn (ch_pid c)"
  shows "rn_inv (runner_register name c (rn\<lparr>rn_procs := (ch_pid c, x) # rn_procs rn\<rparr>))"
proof -
  have "\<exists>n d. map_of (AList.update name c (rn_children rn)) n = Some d \<and> ch_pid d = pid"
    if "pid = ch_pid c \<or> running rn pid" for pid
  proof (cases "pid = ch_pid c")
    case False
    then have "running rn pid" using that by simp
    then obtain n d where "map_of (rn_children rn) n = Some d" "ch_pid d = pid" using assms(1) unfolding rn_inv_def by blast
    moreover from this assms(2) have "n \<noteq> name" by auto
    ultimately show ?thesis by (auto simp: update_conv')
  qed (auto simp: update_conv')
  then show ?thesis
    using assms by (auto simp: rn_inv_def runner_register_def running_def distinct_update)
qed

lemma rn_step_inv:
  assumes "rn_step rn rn'" "rn_inv rn"
  shows "rn_inv rn'"
  using assms
proof (induction rule: rn_step.induct)
  case (rn_invoke w rn name command env res rn')
  show ?case
  proof (cases "command = [] \<or> fst (runner_lookup name rn) \<noteq> None")
    case True
    then show ?thesis using rn_invoke(2) rn_invoke.prems runner_lookup_inv(1) [OF rn_invoke.prems, of name]
      by (auto simp: startOrGet_def split: if_splits prod.splits option.splits)
  next
    case False
    then obtain rn1 where l: "runner_lookup name rn = (None, rn1)" by (cases "runner_lookup name rn") auto
    note inv = runner_lookup_inv [OF rn_invoke.prems l]
    obtain r2 rn2 where sp: "runner_spawn w name command env rn1 = (r2, rn2)" by fastforce
    have fresh: "\<And>pid. rw_start w = Inr pid \<Longrightarrow> \<not> running rn1 pid"
      using rn_invoke(1) inv(2) by (simp add: running_def)
    from runner_spawn_cases [OF sp] fresh have "(\<exists>er. r2 = Inl er \<and> rn2 = rn1) \<or> (\<exists>c vars. r2 = Inr c \<and> rw_start w = Inr (ch_pid c) \<and>
      rn2 = rn1\<lparr>rn_procs := (ch_pid c, command, vars) # rn_procs rn1\<rparr>)" by blast
    then show ?thesis
    proof (elim disjE exE conjE)
      fix er assume "r2 = Inl er" "rn2 = rn1"
      then show ?thesis using False l sp rn_invoke(2) inv(1) by (simp add: startOrGet_def)
    next
      fix c vars assume c: "r2 = Inr c" "rw_start w = Inr (ch_pid c)" "rn2 = rn1\<lparr>rn_procs := (ch_pid c, command, vars) # rn_procs rn1\<rparr>"
      have "rn' = runner_register name c rn2" using False l sp rn_invoke(2) c(1) by (simp add: startOrGet_def)
      then show ?thesis using runner_register_inv [OF inv(1) inv(3) [OF refl] fresh [OF c(2)]] c(3) by simp
    qed
  qed
next
  case (rn_delete rn name)
  show ?case
  proof (cases "map_of (rn_children rn) name")
    case (Some d)
    let ?rn = "rn\<lparr>rn_children := AList.delete name (rn_children rn)\<rparr>"
    have "\<exists>n c. map_of (AList.delete name (rn_children rn)) n = Some c \<and> ch_pid c = pid"
      if run: "running rn pid" and ne: "pid \<noteq> ch_pid d" for pid
    proof -
      obtain n c where "map_of (rn_children rn) n = Some c" "ch_pid c = pid"
        using rn_delete.prems run unfolding rn_inv_def by blast
      moreover from this Some ne have "n \<noteq> name" by auto
      ultimately show ?thesis by (auto simp: delete_conv')
    qed
    then have "rn_inv (kill (ch_pid d) ?rn)"
      using rn_delete.prems distinct_kill [of ?rn]
      by (simp add: rn_inv_def running_kill distinct_delete) (simp add: running_def)
    then show ?thesis using Some by (simp add: runner_stop_def)
  qed (use rn_delete.prems in \<open>simp add: runner_stop_def\<close>)
next
  case (rn_exit rn pid)
  then show ?case by (auto simp: rn_inv_def running_kill distinct_kill)
qed

definition rn_init :: "cr_runner \<Rightarrow> bool" where
  "rn_init rn \<longleftrightarrow> rn = newRunner"

interpretation rnm: machine rn_init rn_step rn_inv
  by unfold_locales (simp add: rn_init_def rn_inv_def newRunner_def running_def, rule rn_step_inv)

lemma stopAll_fold:
  "running (fold (\<lambda>(_, c) r. kill (ch_pid c) r) cs rn) pid \<longleftrightarrow> running rn pid \<and> pid \<notin> ch_pid ` snd ` set cs"
  by (induction cs arbitrary: rn) (auto simp: running_kill)

lemma stopAll_stops:
  assumes "rn_inv rn"
  shows "\<not> running (stopAll rn) pid"
proof -
  have "pid \<in> ch_pid ` snd ` set (rn_children rn)" if "running rn pid"
    using assms that unfolding rn_inv_def by (force dest: map_of_SomeD)
  moreover have "running (rn\<lparr>rn_children := []\<rparr>) pid \<longleftrightarrow> running rn pid" by (simp add: running_def)
  ultimately show ?thesis by (auto simp: stopAll_def stopAll_fold)
qed

text \<open>
  As long as invocations of the same runner do not overlap, no child process is lost: in every reachable state each
  running process is the recorded child of some resource, and stopping the service ends all of them.
\<close>

theorem sequential_invokes_no_orphans:
  assumes "reach rn_init rn_step rn"
  shows "(running rn pid \<longrightarrow> (\<exists>name c. map_of (rn_children rn) name = Some c \<and> ch_pid c = pid)) \<and> \<not> running (stopAll rn) pid"
  using rnm.reach_inv [OF assms] stopAll_stops unfolding rn_inv_def by blast

section \<open>Overlapping invocations\<close>

text \<open>
  The sections of \<^verbatim>\<open>startOrGet\<close> as separate steps.  The second component lists the invocations that found no child, with the child
  each has started.
\<close>

inductive rn_cstep :: "cr_runner \<times> (string \<times> child option) list \<Rightarrow> cr_runner \<times> (string \<times> child option) list \<Rightarrow> bool" where
  c_lookup: "runner_lookup name rn = (None, rn') \<Longrightarrow> rn_cstep (rn, ps) (rn', ps @ [(name, None)])"
| c_spawn: "(\<And>pid. rw_start w = Inr pid \<Longrightarrow> \<not> running rn pid \<and> pid \<notin> ch_pid ` snd ` set (rn_children rn)) \<Longrightarrow>
    runner_spawn w name command env rn = (Inr c, rn') \<Longrightarrow>
    rn_cstep (rn, ps @ (name, None) # qs) (rn', ps @ (name, Some c) # qs)"
| c_register: "rn_cstep (rn, ps @ (name, Some c) # qs) (runner_register name c rn, ps @ qs)"

definition leak_world :: "nat \<Rightarrow> run_world" where
  "leak_world pid = \<lparr>rw_environ = [], rw_freePort = Inr (8000 + pid), rw_start = Inr pid, rw_listening = None,
     rw_do = (\<lambda>_ _ _ _. Inl []), rw_newRequest = (\<lambda>_. None)\<rparr>"

definition leak_child :: "nat \<Rightarrow> child" where
  "leak_child pid = \<lparr>ch_pid = pid, ch_port = 8000 + pid, ch_baseURL = ''http://127.0.0.1:'' @ itoa (8000 + pid)\<rparr>"

definition leak_env :: "nat \<Rightarrow> string \<Rightarrow> (string \<times> string) list" where
  "leak_env pid name = [(''PORT'', itoa (8000 + pid)), (''K_SERVICE'', lastSegment name)]"

lemma leak_spawn:
  "runner_spawn (leak_world pid) name command [] rn =
    (Inr (leak_child pid), rn\<lparr>rn_procs := (pid, command, leak_env pid name) # rn_procs rn\<rparr>)"
  by (simp add: runner_spawn_def leak_world_def leak_child_def leak_env_def Let_def)

text \<open>
  Two overlapping first invocations of a resource both start a process and only the second is recorded, so that stopping
  the service leaves the other running.
\<close>

theorem concurrent_first_invokes_leak:
  "\<exists>rn. rn_cstep\<^sup>*\<^sup>* (newRunner, []) (rn, []) \<and> (\<exists>pid. running (stopAll rn) pid)"
proof -
  let ?n = "''svc''" and ?cmd = "[''/bin/app'']"
  define ra where "ra = newRunner\<lparr>rn_procs := [(1, ?cmd, leak_env 1 ?n)]\<rparr>"
  define rb where "rb = newRunner\<lparr>rn_procs := [(2, ?cmd, leak_env 2 ?n), (1, ?cmd, leak_env 1 ?n)]\<rparr>"
  have s1: "runner_spawn (leak_world 1) ?n ?cmd [] newRunner = (Inr (leak_child 1), ra)"
    and s2: "runner_spawn (leak_world 2) ?n ?cmd [] ra = (Inr (leak_child 2), rb)"
    by (simp_all only: leak_spawn) (simp_all add: ra_def rb_def newRunner_def)
  define rc where "rc = runner_register ?n (leak_child 1) rb"
  define rd where "rd = runner_register ?n (leak_child 2) rc"
  have l: "runner_lookup ?n newRunner = (None, newRunner)" by (simp add: runner_lookup_def newRunner_def)
  have "rn_cstep (newRunner, []) (newRunner, [(?n, None)])" using c_lookup [OF l, of "[]"] by simp
  also have "rn_cstep\<^sup>*\<^sup>* \<dots> (newRunner, [(?n, None), (?n, None)])"
    using c_lookup [OF l, of "[(?n, None)]"] by auto
  also (rtranclp_trans [OF r_into_rtranclp]) have "rn_cstep\<^sup>*\<^sup>* \<dots> (ra, [(?n, Some (leak_child 1)), (?n, None)])"
    using c_spawn [OF _ s1, of "[]" "[(?n, None)]"] by (auto simp: ra_def running_def newRunner_def leak_world_def)
  also (rtranclp_trans) have "rn_cstep\<^sup>*\<^sup>* \<dots> (rb, [(?n, Some (leak_child 1)), (?n, Some (leak_child 2))])"
    using c_spawn [OF _ s2, of "[(?n, Some (leak_child 1))]" "[]"]
    by (auto simp: rb_def ra_def running_def newRunner_def leak_world_def)
  also (rtranclp_trans) have "rn_cstep\<^sup>*\<^sup>* \<dots> (rc, [(?n, Some (leak_child 2))])"
    using c_register [of rb "[]" ?n "leak_child 1" "[(?n, Some (leak_child 2))]"] by (auto simp: rc_def)
  also (rtranclp_trans) have "rn_cstep\<^sup>*\<^sup>* \<dots> (rd, [])"
    using c_register [of rc "[]" ?n "leak_child 2" "[]"] by (auto simp: rd_def)
  finally (rtranclp_trans) have "rn_cstep\<^sup>*\<^sup>* (newRunner, []) (rd, [])" .
  moreover have "running (stopAll rd) 1"
    by (simp add: stopAll_def stopAll_fold rd_def rc_def rb_def runner_register_def newRunner_def leak_child_def)
       (simp add: running_def kill_def)
  ultimately show ?thesis by blast
qed

theorem sequential_invokes_no_orphans_witness:
  "\<exists>rn c. startOrGet (leak_world 1) ''svc'' [''/bin/app''] [] newRunner = (Inr c, rn) \<and> running rn 1 \<and> \<not> running (stopAll rn) 1 \<and>
    (\<exists>name c. map_of (rn_children rn) name = Some c \<and> ch_pid c = 1)"
proof -
  obtain rn c where s: "startOrGet (leak_world 1) ''svc'' [''/bin/app''] [] newRunner = (Inr c, rn)" "running rn 1"
    by (simp add: startOrGet_def runner_lookup_def newRunner_def runner_spawn_def leak_world_def Let_def runner_register_def running_def)
  have "reach rn_init rn_step newRunner" by (rule reach_init) (simp add: rn_init_def)
  moreover have "rn_step newRunner rn"
    by (rule rn_invoke [OF _ s(1)]) (simp add: running_def newRunner_def)
  ultimately have "reach rn_init rn_step rn" by (rule reach_step)
  from sequential_invokes_no_orphans [OF this, of 1] s show ?thesis by blast
qed

end
