(* ===== verification/Api_Services.thy ===== *)
theory Api_Services
  imports Pubsub_Rest Secret_Manager Cloud_Tasks Cloud_Scheduler Cloud_Kms Iam_Admin Iam_Policy Cloud_Monitoring
    Metadata_Server Cloud_Run
begin

text \<open>
  The contract between the gateway and a service that it offers requests to: the service either declines, or answers and
  then changes only its own namespaces of the shared store and its own memory.  The locale \<open>api_service\<close> states it, with the paths
  a service claims; every service with a \<^verbatim>\<open>HandleV1\<close>, \<^verbatim>\<open>HandleV2\<close> or \<^verbatim>\<open>HandleV3\<close> method is an interpretation.
\<close>

type_synonym 'st api_handler = "http_req \<Rightarrow> string list \<Rightarrow> mem \<Rightarrow> 'st \<Rightarrow> (http_resp \<times> mem \<times> 'st) option"

locale api_service =
  fixes handle :: "'st api_handler"
    and owns :: "string set"
    and claims :: "string list \<Rightarrow> bool"
  assumes confined: "mem_ok s \<Longrightarrow> handle r parts s st = Some (resp, s', st') \<Longrightarrow> only_ns owns s s'"
    and claimed: "handle r parts s st = Some x \<Longrightarrow> claims parts"
begin

lemma declined: "\<not> claims parts \<Longrightarrow> handle r parts s st = None"
  using claimed by (cases "handle r parts s st") auto

lemma keeps_ok: "mem_ok s \<Longrightarrow> handle r parts s st = Some (resp, s', st') \<Longrightarrow> mem_ok s'"
  using confined by (auto simp: only_ns_def)

lemma keeps_other: "mem_ok s \<Longrightarrow> handle r parts s st = Some (resp, s', st') \<Longrightarrow> n \<notin> owns \<Longrightarrow> mem_lookup s' n = mem_lookup s n"
  using confined by (auto simp: only_ns_def)

end

text \<open>A service without memory, and one that does not write to the store.\<close>

definition stateless :: "(http_req \<Rightarrow> string list \<Rightarrow> mem \<Rightarrow> (http_resp \<times> mem) option) \<Rightarrow> unit api_handler" where
  "stateless h r parts s u = map_option (\<lambda>(resp, s'). (resp, s', ())) (h r parts s)"

definition storeless :: "(http_req \<Rightarrow> string list \<Rightarrow> http_resp option) \<Rightarrow> unit api_handler" where
  "storeless h r parts s u = map_option (\<lambda>resp. (resp, s, ())) (h r parts)"

section \<open>The services\<close>

definition pubsub_ns :: "string set" where "pubsub_ns = {nsTopics, nsSubscriptions}"
definition sm_ns :: "string set" where "sm_ns = {nsSecrets, nsVersions}"
definition sched_ns :: "string set" where "sched_ns = {nsJobs}"
definition tasks_ns :: "string set" where "tasks_ns = {nsQueues, nsTasks}"
definition kms_ns :: "string set" where "kms_ns = {nsKeyRings, nsCryptoKeys}"
definition ia_ns :: "string set" where "ia_ns = {NamespaceAccounts, NamespaceKeys}"
definition mon_ns :: "string set" where "mon_ns = {nsSeries}"

text \<open>The paths each service claims.\<close>

definition at_location :: "string \<Rightarrow> string list \<Rightarrow> bool" where
  "at_location coll parts \<longleftrightarrow> 5 \<le> length parts \<and> parts ! 2 = ''locations'' \<and> parts ! 4 = coll"

definition at_project :: "string set \<Rightarrow> string list \<Rightarrow> bool" where
  "at_project colls parts \<longleftrightarrow> 3 \<le> length parts \<and> parts ! 2 \<in> colls"

definition account_action :: "string list \<Rightarrow> bool" where
  "account_action parts \<longleftrightarrow> length parts = 4 \<and> CHR '':'' \<in> set (parts ! 3)"

lemma dispatch_store:
  assumes "mem_ok s" "dispatch rfc e r s p = (resp, s', p')"
  shows "only_ns pubsub_ns s s'"
proof -
  have st: "only_ns pubsub_ns s s'" if "handleTopic rfc e r n a s p = (resp, s', p')" for n a resp s' p'
    using that assms(1) by (auto simp: handleTopic_def putTopic_def publish_def pubsub_ns_def Delete_cases
        split: if_splits meth.splits sum.splits option.splits prod.splits pubsub_err.splits)
  have sub: "only_ns pubsub_ns s s'" if "store_subscription b s p = (resp, s', p')" for b resp s' p'
    using that assms(1) by (auto simp: store_subscription_def putSubscription_def pubsub_ns_def Let_def split: sum.splits if_splits)
  have "only_ns pubsub_ns s s'" if "handleSubscription e r n a s p = (resp, s', p')" for n a resp s' p'
    using that assms(1) sub by (auto simp: handleSubscription_def put_subscription_def pull_def acknowledge_def
        modifyAckDeadline_def pubsub_ns_def Delete_cases Let_def
        split: if_splits meth.splits sum.splits option.splits prod.splits)
  with st assms show ?thesis
    by (auto simp: dispatch_def Let_def split: list.splits prod.splits if_splits)
qed

interpretation pubsub_api: api_service "pubsub_HandleV1 rfc e" pubsub_ns "at_project {''topics'', ''subscriptions''}" for rfc e
proof
  fix s r parts st resp s' st'
  assume "mem_ok s" "pubsub_HandleV1 rfc e r parts s st = Some (resp, s', st')"
  then show "only_ns pubsub_ns s s'" using dispatch_store by (auto simp: pubsub_HandleV1_def split: if_splits)
qed (auto simp: pubsub_HandleV1_def at_project_def split: if_splits)

interpretation kms_api: api_service "stateless (kms_HandleV1 rfc rnd e)" kms_ns "at_location ''keyRings''" for rfc rnd e
proof
  fix s r parts st resp s' st'
  assume s: "mem_ok s" "stateless (kms_HandleV1 rfc rnd e) r parts s st = Some (resp, s', st')"
  then have "kms_HandleV1 rfc rnd e r parts s = Some (resp, s')" by (auto simp: stateless_def)
  then show "only_ns kms_ns s s'"
    using s(1) by (auto simp: kms_HandleV1_def keyRingItem_def cryptoKeyItem_def keyRingCollection_def cryptoKeyCollection_def
        kms_ns_def Let_def split: if_splits sum.splits prod.splits meth.splits)
qed (auto simp: stateless_def kms_HandleV1_def at_location_def split: if_splits)

interpretation iamc_api: api_service "storeless (iamc_HandleV1 sign e ms)" "{}"
    "\<lambda>parts. at_project {''serviceAccounts''} parts \<and> account_action parts" for sign e ms
proof
  fix s r parts st x
  assume "storeless (iamc_HandleV1 sign e ms) r parts s st = Some x"
  then obtain i a where *: "length parts = 4" "parts ! 2 = ''serviceAccounts''" "splitAction (parts ! 3) = (i, a)" "a \<noteq> []"
    by (auto simp: storeless_def iamc_HandleV1_def split: if_splits prod.splits)
  then have "CHR '':'' \<in> set (parts ! 3)" using splitAction_plain by fastforce
  with * show "at_project {''serviceAccounts''} parts \<and> account_action parts" by (simp add: at_project_def account_action_def)
qed (auto simp: storeless_def)

interpretation mon_api: api_service "mon_HandleV3 rfc e" mon_ns "at_project {''timeSeries''}" for rfc e
proof
  fix s r parts st resp s' st'
  assume "mem_ok s" "mon_HandleV3 rfc e r parts s st = Some (resp, s', st')"
  then show "only_ns mon_ns s s'"
    using put_series_only by (auto simp: mon_HandleV3_def mon_create_def mon_ns_def split: if_splits meth.splits option.splits prod.splits)
qed (auto simp: mon_HandleV3_def at_project_def split: if_splits)

lemma delete_chain:
  "mem_ok s \<Longrightarrow> n \<in> N \<Longrightarrow> m \<in> N \<Longrightarrow> only_ns N s (delete_all (mdel s n k) m ks)"
  by (rule only_ns_trans [of _ _ "mdel s n k"]) simp_all

interpretation sm_api: api_service "sm_HandleV1 rfc e" sm_ns "at_project {''secrets''}" for rfc e
proof
  fix s r parts v resp s' v'
  assume s: "mem_ok s" and h: "sm_HandleV1 rfc e r parts s v = Some (resp, s', v')"
  have add: "only_ns sm_ns s s'" if "addVersion e r name s v = (resp, s', v')" for name resp s' v'
    using that s by (auto simp: addVersion_def sm_ns_def Let_def split: if_splits sum.splits option.splits prod.splits)
  have item: "only_ns sm_ns s s'" if "secretItem rfc e r p seg s v = (resp, s', v')" for p seg resp s' v'
    using that s add by (auto simp: secretItem_def Let_def Delete_cases sm_ns_def delete_chain
        split: if_splits meth.splits sum.splits option.splits prod.splits)
  have "only_ns sm_ns s s'" if "sm_collection rfc e r p s v = (resp, s', v')" for p resp s' v'
    using that s by (auto simp: sm_collection_def sm_ns_def Let_def split: meth.splits if_splits sum.splits)
  with item h s show "only_ns sm_ns s s'"
    by (auto simp: sm_HandleV1_def sm_listVersions_def versionItem_def Let_def
        split: if_splits option.splits sum.splits meth.splits prod.splits)
qed (auto simp: sm_HandleV1_def at_project_def split: if_splits)

interpretation sched_api: api_service "scheduler_HandleV1 L e" sched_ns "at_location ''jobs''" for L e
proof
  fix s r parts v resp s' v'
  assume s: "mem_ok s" and h: "scheduler_HandleV1 L e r parts s v = Some (resp, s', v')"
  have "only_ns sched_ns s s'" if "jobCollection L e r p l s v = (resp, s', v')" for p l resp s' v'
    using that s by (auto simp: jobCollection_def sched_ns_def Let_def split: meth.splits if_splits sum.splits option.splits prod.splits)
  moreover have "only_ns sched_ns s s'" if "jobItem r p l i s v = (resp, s', v')" for p l i resp s' v'
    using that s by (auto simp: jobItem_def sched_ns_def Delete_cases Let_def split: meth.splits if_splits sum.splits option.splits prod.splits)
  ultimately show "only_ns sched_ns s s'" using h by (auto simp: scheduler_HandleV1_def split: if_splits)
qed (auto simp: scheduler_HandleV1_def at_location_def split: if_splits)

interpretation tasks_api: api_service "tasks_HandleV2 rfc e" tasks_ns "at_location ''queues''" for rfc e
proof
  fix s r parts v resp s' v'
  assume s: "mem_ok s" and h: "tasks_HandleV2 rfc e r parts s v = Some (resp, s', v')"
  have "only_ns tasks_ns s s'" if "queueCollection e r p l s v = (resp, s', v')" for p l resp s' v'
    using that s by (auto simp: queueCollection_def tasks_ns_def Let_def split: meth.splits if_splits sum.splits option.splits prod.splits)
  moreover have "only_ns tasks_ns s s'" if "queueItem r p l i s v = (resp, s', v')" for p l i resp s' v'
    using that s by (auto simp: queueItem_def tasks_ns_def Delete_cases Let_def split: meth.splits if_splits sum.splits option.splits prod.splits)
  moreover have "only_ns tasks_ns s s'" if "taskCollection rfc e r p l q s v = (resp, s', v')" for p l q resp s' v'
    using that s by (auto simp: taskCollection_def tasks_ns_def Let_def split: meth.splits if_splits sum.splits option.splits prod.splits)
  moreover have "only_ns tasks_ns s s'" if "taskItem r p l q i s v = (resp, s', v')" for p l q i resp s' v'
    using that s by (auto simp: taskItem_def tasks_ns_def Delete_cases Let_def split: meth.splits if_splits sum.splits option.splits prod.splits)
  ultimately show "only_ns tasks_ns s s'" using h by (auto simp: tasks_HandleV2_def split: if_splits)
qed (auto simp: tasks_HandleV2_def at_location_def split: if_splits)

interpretation ia_api: api_service "stateless (iamadmin_HandleV1 rnd e)" ia_ns
    "\<lambda>parts. at_project {''serviceAccounts''} parts \<and> \<not> account_action parts" for rnd e
proof
  fix s r parts v resp s' v'
  assume s: "mem_ok s" and "stateless (iamadmin_HandleV1 rnd e) r parts s v = Some (resp, s', v')"
  then have h: "iamadmin_HandleV1 rnd e r parts s = Some (resp, s')" by (auto simp: stateless_def)
  have "only_ns ia_ns s s'" if "ia_collection rnd e r p s = (resp, s')" for p resp s'
    using that s by (auto simp: ia_collection_def ia_ns_def Let_def split: meth.splits option.splits prod.splits if_splits sum.splits)
  moreover have "only_ns ia_ns s s'" if "ia_item e r p m s = (resp, s')" for p m resp s'
    using that s by (auto simp: ia_item_def ia_ns_def Delete_cases Let_def delete_chain
        split: meth.splits option.splits prod.splits if_splits sum.splits)
  moreover have "only_ns ia_ns s s'" if "keysCollection rnd e r p m s = (resp, s')" for p m resp s'
    using that s by (auto simp: keysCollection_def ia_ns_def Let_def split: meth.splits sum.splits)
  moreover have "only_ns ia_ns s s'" if "keyItem r p m i s = (resp, s')" for p m i resp s'
    using that s by (auto simp: keyItem_def ia_ns_def Delete_cases Let_def split: meth.splits sum.splits option.splits)
  ultimately show "only_ns ia_ns s s'" using h by (auto simp: iamadmin_HandleV1_def split: if_splits)
qed (auto simp: stateless_def iamadmin_HandleV1_def at_project_def account_action_def split: if_splits)

interpretation run_api: api_service "cr_HandleV2 k rfc w e" "{cr_ns k}" "at_location (collectionSeg k)" for k rfc w e
proof
  fix s r parts v resp s' v'
  assume s: "mem_ok s" and h: "cr_HandleV2 k rfc w e r parts s v = Some (resp, s', v')"
  have "only_ns {cr_ns k} s s'" if "cr_collection k rfc e r p l s v = (resp, s', v')" for p l resp s' v'
    using that s by (auto simp: cr_collection_def Let_def split: meth.splits option.splits prod.splits if_splits sum.splits)
  moreover have "only_ns {cr_ns k} s s'" if "cr_item k r p l i s v = (resp, s', v')" for p l i resp s' v'
    using that s by (auto simp: cr_item_def Delete_cases Let_def split: meth.splits option.splits if_splits sum.splits)
  moreover have "only_ns {cr_ns k} s s'" if "cr_invoke k rfc w r p l i s v = (resp, s', v')" for p l i resp s' v'
    using that s by (auto simp: cr_invoke_def Let_def split: sum.splits prod.splits option.splits if_splits)
  ultimately show "only_ns {cr_ns k} s s'" using h by (auto simp: cr_HandleV2_def split: if_splits)
qed (auto simp: cr_HandleV2_def at_location_def split: if_splits)

end
