(* ===== verification/Health.thy ===== *)
theory Health
  imports Httpresp
begin

text \<open>
  Package \<^verbatim>\<open>internal/health\<close>: the registry of service states and the \<^verbatim>\<open>/healthz\<close> endpoint
  test harnesses wait on.
\<close>

datatype Status = StatusStarting | StatusReady | StatusError

record Registry =
  services :: "(string \<times> Status) list"

definition new_Registry :: Registry where
  "new_Registry = \<lparr>services = []\<rparr>"

definition Registry_Set :: "Registry \<Rightarrow> string \<Rightarrow> Status \<Rightarrow> Registry" where
  "Registry_Set r name s = r\<lparr>services := AList.update name s (services r)\<rparr>"

definition Registry_Lookup :: "Registry \<Rightarrow> string \<Rightarrow> Status option" where
  "Registry_Lookup r name = map_of (services r) name"

fun snapshot_loop :: "(string \<times> Status) list \<Rightarrow> (string \<times> Status) list \<Rightarrow> bool
    \<Rightarrow> (string \<times> Status) list \<times> bool" where
  "snapshot_loop [] out allReady = (out, allReady)"
| "snapshot_loop ((k, v) # r) out allReady =
     snapshot_loop r (AList.update k v out) (if v \<noteq> StatusReady then False else allReady)"

definition snapshot :: "Registry \<Rightarrow> (string \<times> Status) list \<times> bool" where
  "snapshot r = (let (out, allReady) = snapshot_loop (services r) [] True
     in (out, if services r = [] then False else allReady))"

fun status_text :: "Status \<Rightarrow> string" where
  "status_text StatusStarting = ''starting''"
| "status_text StatusReady = ''ready''"
| "status_text StatusError = ''error''"

definition health_Handler :: "Registry \<Rightarrow> http_resp" where
  "health_Handler r = (let (svcs, ready) = snapshot r;
       (status, code) = (if ready then (''ok'', 200) else (''starting'', 503))
     in respJSON code (JObj [
          (''services'', JObj (map (\<lambda>(k, v). (k, JStr (status_text v))) svcs)),
          (''status'', JStr status)]))"

section \<open>Properties\<close>

definition registry_ok :: "Registry \<Rightarrow> bool" where
  "registry_ok r \<longleftrightarrow> distinct (map fst (services r))"

lemma registry_ok_new [simp]: "registry_ok new_Registry"
  by (simp add: registry_ok_def new_Registry_def)

lemma registry_ok_Set [simp]: "registry_ok r \<Longrightarrow> registry_ok (Registry_Set r n s)"
  by (simp add: registry_ok_def Registry_Set_def distinct_update)

lemma Lookup_Set [simp]:
  "Registry_Lookup (Registry_Set r n s) m = (if m = n then Some s else Registry_Lookup r m)"
  by (auto simp: Registry_Lookup_def Registry_Set_def update_conv')

lemma snapshot_loop_ready:
  "snd (snapshot_loop xs out b) \<longleftrightarrow> b \<and> list_all (\<lambda>(k, v). v = StatusReady) xs"
  by (induction xs out b rule: snapshot_loop.induct) auto

lemma snapshot_ready:
  "snd (snapshot r) \<longleftrightarrow> services r \<noteq> [] \<and> list_all (\<lambda>(k, v). v = StatusReady) (services r)"
  using snapshot_loop_ready [of "services r" "[]" True]
  by (auto simp: snapshot_def split: prod.splits)

text \<open>The registry after a sequence of \<^verbatim>\<open>Set\<close> calls.\<close>

fun set_all :: "Registry \<Rightarrow> (string \<times> Status) list \<Rightarrow> Registry" where
  "set_all r [] = r"
| "set_all r ((n, s) # evs) = set_all (Registry_Set r n s) evs"

lemma registry_ok_set_all: "registry_ok r \<Longrightarrow> registry_ok (set_all r evs)"
  by (induction r evs rule: set_all.induct) auto

lemma set_all_Nil: "services (set_all r evs) = [] \<longleftrightarrow> services r = [] \<and> evs = []"
proof (induction r evs rule: set_all.induct)
  case (2 r n s evs)
  have "AList.update n s (services r) \<noteq> []"
    by (cases "services r") auto
  with 2 show ?case by (simp add: Registry_Set_def)
qed simp

lemma all_ready_lookup:
  assumes "registry_ok r"
  shows "list_all (\<lambda>(k, v). v = StatusReady) (services r) \<longleftrightarrow>
      (\<forall>n. Registry_Lookup r n \<in> {None, Some StatusReady})"
proof -
  have "list_all (\<lambda>(k, v). v = StatusReady) (services r) \<longleftrightarrow>
      (\<forall>k v. map_of (services r) k = Some v \<longrightarrow> v = StatusReady)"
    using assms by (auto simp: list_all_iff registry_ok_def dest: map_of_SomeD)
  also have "\<dots> \<longleftrightarrow> (\<forall>n. Registry_Lookup r n \<in> {None, Some StatusReady})"
    unfolding Registry_Lookup_def
    by (metis insertCI insertE option.distinct(1) option.exhaust option.inject singletonD)
  finally show ?thesis .
qed

text \<open>
  After any sequence of \<^verbatim>\<open>Set\<close> calls, \<^verbatim>\<open>/healthz\<close> answers 200 exactly when at least one
  service is registered and the last state set for every registered service is ready;
  in every other case it answers 503.
\<close>

theorem healthz_ready_iff:
  "rs_code (health_Handler (set_all new_Registry evs)) =
    (if evs \<noteq> [] \<and> (\<forall>n. Registry_Lookup (set_all new_Registry evs) n \<in> {None, Some StatusReady})
     then 200 else 503)"
proof -
  let ?r = "set_all new_Registry evs"
  have "snd (snapshot ?r) \<longleftrightarrow> evs \<noteq> [] \<and> (\<forall>n. Registry_Lookup ?r n \<in> {None, Some StatusReady})"
    using all_ready_lookup [OF registry_ok_set_all [OF registry_ok_new], of evs]
      set_all_Nil [of new_Registry evs]
    by (simp add: snapshot_ready new_Registry_def)
  then show ?thesis by (auto simp: health_Handler_def split: prod.splits)
qed

end
