(* ===== verification/Cloud_Storage.thy ===== *)
theory Cloud_Storage
  imports Iam_Policy Config
begin

text \<open>
  Service \<^verbatim>\<open>internal/services/storage\<close>: buckets and objects over the JSON and XML surfaces, with media,
  multipart and resumable uploads.  The hash functions are parameters, as are the parts of
  a multipart body (\<^verbatim>\<open>mime\<close> and \<^verbatim>\<open>mime/multipart\<close>).  An upload body is given as the bytes read.
\<close>

section \<open>Data\<close>

definition nsBuckets :: string where "nsBuckets = ''storage/buckets''"

lemmas [ns_defs] = nsBuckets_def

record bucketResource =
  bk_Kind :: string
  bk_ID :: string
  bk_Name :: string
  bk_ProjectNumber :: string
  bk_Location :: string
  bk_StorageClass :: string
  bk_TimeCreated :: time
  bk_Updated :: time
  bk_Metageneration :: string
  bk_Etag :: string

record objectResource =
  o_Kind :: string
  o_ID :: string
  o_Name :: string
  o_Bucket :: string
  o_Generation :: string
  o_Metageneration :: string
  o_ContentType :: string
  o_Size :: string
  o_MD5Hash :: string
  o_CRC32C :: string
  o_Etag :: string
  o_TimeCreated :: time
  o_Updated :: time
  o_StorageClass :: string
  o_SelfLink :: string
  o_MediaLink :: string

record resumableSession =
  rs_Bucket :: string
  rs_Name :: string
  rs_ContentType :: string
  rs_Buffer :: string
  rs_TotalSize :: int

text \<open>The package variables: the generation counter and the upload sessions.\<close>

record storage_state =
  ss_generation :: nat
  ss_sessions :: "(string \<times> resumableSession) list"
  ss_resumableSeq :: nat

record hash_lib =
  h_md5 :: "string \<Rightarrow> string"
  h_crc32c :: "string \<Rightarrow> nat"
  h_sha1 :: "json \<Rightarrow> string"

definition ostr :: "string \<Rightarrow> string \<Rightarrow> (string \<times> json) list" where
  "ostr k v = omit (v = []) k (JStr v)"

definition enc_bucket :: "bucketResource \<Rightarrow> json" where
  "enc_bucket b = JObj ([(''kind'', JStr (bk_Kind b)), (''id'', JStr (bk_ID b)), (''name'', JStr (bk_Name b))] @
     ostr ''projectNumber'' (bk_ProjectNumber b) @ ostr ''location'' (bk_Location b) @
     ostr ''storageClass'' (bk_StorageClass b) @
     [(''timeCreated'', JTime (bk_TimeCreated b)), (''updated'', JTime (bk_Updated b))] @
     ostr ''metageneration'' (bk_Metageneration b) @ ostr ''etag'' (bk_Etag b))"

definition dec_bucket :: "(string \<Rightarrow> time option) \<Rightarrow> json \<Rightarrow> bucketResource \<times> bool" where
  "dec_bucket rfc j = (let (k, ok1) = fld_str ''kind'' j; (i, ok2) = fld_str ''id'' j;
       (n, ok3) = fld_str ''name'' j; (pn, ok4) = fld_str ''projectNumber'' j;
       (l, ok5) = fld_str ''location'' j; (c, ok6) = fld_str ''storageClass'' j;
       (t, ok7) = fld_time rfc ''timeCreated'' j; (u, ok8) = fld_time rfc ''updated'' j;
       (m, ok9) = fld_str ''metageneration'' j; (et, ok10) = fld_str ''etag'' j in
     (\<lparr>bk_Kind = k, bk_ID = i, bk_Name = n, bk_ProjectNumber = pn, bk_Location = l, bk_StorageClass = c,
       bk_TimeCreated = t, bk_Updated = u, bk_Metageneration = m, bk_Etag = et\<rparr>,
      is_struct_doc j \<and> ok1 \<and> ok2 \<and> ok3 \<and> ok4 \<and> ok5 \<and> ok6 \<and> ok7 \<and> ok8 \<and> ok9 \<and> ok10))"

definition enc_object :: "objectResource \<Rightarrow> json" where
  "enc_object ob = JObj ([(''kind'', JStr (o_Kind ob)), (''id'', JStr (o_ID ob)), (''name'', JStr (o_Name ob)),
     (''bucket'', JStr (o_Bucket ob)), (''generation'', JStr (o_Generation ob)),
     (''metageneration'', JStr (o_Metageneration ob))] @ ostr ''contentType'' (o_ContentType ob) @
     [(''size'', JStr (o_Size ob))] @ ostr ''md5Hash'' (o_MD5Hash ob) @ ostr ''crc32c'' (o_CRC32C ob) @
     ostr ''etag'' (o_Etag ob) @
     [(''timeCreated'', JTime (o_TimeCreated ob)), (''updated'', JTime (o_Updated ob))] @
     ostr ''storageClass'' (o_StorageClass ob) @ ostr ''selfLink'' (o_SelfLink ob) @ ostr ''mediaLink'' (o_MediaLink ob))"

definition dec_object :: "(string \<Rightarrow> time option) \<Rightarrow> json \<Rightarrow> objectResource \<times> bool" where
  "dec_object rfc j = (let (k, ok1) = fld_str ''kind'' j; (i, ok2) = fld_str ''id'' j; (n, ok3) = fld_str ''name'' j;
       (b, ok4) = fld_str ''bucket'' j; (g, ok5) = fld_str ''generation'' j; (mg, ok6) = fld_str ''metageneration'' j;
       (ct, ok7) = fld_str ''contentType'' j; (sz, ok8) = fld_str ''size'' j; (m, ok9) = fld_str ''md5Hash'' j;
       (c, ok10) = fld_str ''crc32c'' j; (et, ok11) = fld_str ''etag'' j; (t, ok12) = fld_time rfc ''timeCreated'' j;
       (u, ok13) = fld_time rfc ''updated'' j; (sc, ok14) = fld_str ''storageClass'' j;
       (sl, ok15) = fld_str ''selfLink'' j; (ml, ok16) = fld_str ''mediaLink'' j in
     (\<lparr>o_Kind = k, o_ID = i, o_Name = n, o_Bucket = b, o_Generation = g, o_Metageneration = mg, o_ContentType = ct,
       o_Size = sz, o_MD5Hash = m, o_CRC32C = c, o_Etag = et, o_TimeCreated = t, o_Updated = u, o_StorageClass = sc,
       o_SelfLink = sl, o_MediaLink = ml\<rparr>,
      is_struct_doc j \<and> ok1 \<and> ok2 \<and> ok3 \<and> ok4 \<and> ok5 \<and> ok6 \<and> ok7 \<and> ok8 \<and> ok9 \<and> ok10 \<and> ok11 \<and> ok12 \<and> ok13 \<and>
        ok14 \<and> ok15 \<and> ok16))"

fun unmarshal_bucket :: "(string \<Rightarrow> time option) \<Rightarrow> blob \<Rightarrow> bucketResource \<times> bool" where
  "unmarshal_bucket rfc (JsonB j) = dec_bucket rfc j"
| "unmarshal_bucket rfc (RawB _) = (fst (dec_bucket rfc JNull), False)"

fun unmarshal_object :: "(string \<Rightarrow> time option) \<Rightarrow> blob \<Rightarrow> objectResource \<times> bool" where
  "unmarshal_object rfc (JsonB j) = dec_object rfc j"
| "unmarshal_object rfc (RawB _) = (fst (dec_object rfc JNull), False)"

section \<open>Helpers\<close>

definition objectNamespace :: "string \<Rightarrow> string" where
  "objectNamespace bucket = ''storage/objects/'' @ bucket"

definition objectDataNamespace :: "string \<Rightarrow> string" where
  "objectDataNamespace bucket = ''storage/data/'' @ bucket"

definition bucketResourceName :: "string \<Rightarrow> string" where
  "bucketResourceName bucket = ''projects/_/buckets/'' @ bucket"

definition splitFirst :: "string \<Rightarrow> string \<times> string" where
  "splitFirst s = (case cutAt (CHR ''/'') s of None \<Rightarrow> (s, []) | Some (a, b) \<Rightarrow> (a, b))"

definition computeMD5 :: "hash_lib \<Rightarrow> string \<Rightarrow> string" where
  "computeMD5 H data = b64_encode (h_md5 H data)"

definition be32 :: "nat \<Rightarrow> string" where
  "be32 n = [char_of (n div 16777216 mod 256), char_of (n div 65536 mod 256), char_of (n div 256 mod 256), char_of (n mod 256)]"

definition computeCRC32C :: "hash_lib \<Rightarrow> string \<Rightarrow> string" where
  "computeCRC32C H data = b64_encode (be32 (h_crc32c H data))"

definition hex_digit :: "nat \<Rightarrow> char" where
  "hex_digit n = (if n < 10 then char_of (48 + n) else char_of (87 + n))"

definition hex_encode :: "string \<Rightarrow> string" where
  "hex_encode s = concat (map (\<lambda>c. [hex_digit (of_char c div 16), hex_digit (of_char c mod 16)]) s)"

definition hexEtag :: "hash_lib \<Rightarrow> string \<Rightarrow> string" where
  "hexEtag H data = hex_encode (h_md5 H data)"

text \<open>\<^verbatim>\<open>url.PathUnescape\<close>: every percent sign must start an escape of two hexadecimal digits.\<close>

definition unhex :: "char \<Rightarrow> nat option" where
  "unhex c = (let n = (of_char c :: nat) in
     if 48 \<le> n \<and> n \<le> 57 then Some (n - 48)
     else if 97 \<le> n \<and> n \<le> 102 then Some (n - 87)
     else if 65 \<le> n \<and> n \<le> 70 then Some (n - 55) else None)"

fun pathUnescape :: "string \<Rightarrow> string option" where
  "pathUnescape [] = Some []"
| "pathUnescape (c # s) = (if c = CHR ''%''
     then (case s of a # b # rest \<Rightarrow> (case (unhex a, unhex b) of
              (Some x, Some y) \<Rightarrow> map_option ((#) (char_of (16 * x + y))) (pathUnescape rest)
            | _ \<Rightarrow> None)
          | _ \<Rightarrow> None)
     else map_option ((#) c) (pathUnescape s))"

definition mk_bucket :: "go_env \<Rightarrow> string \<Rightarrow> bucketResource" where
  "mk_bucket e name = \<lparr>bk_Kind = ''storage#bucket'', bk_ID = name, bk_Name = name, bk_ProjectNumber = [],
     bk_Location = ''US'', bk_StorageClass = ''STANDARD'', bk_TimeCreated = e_now e 0, bk_Updated = e_now e 1,
     bk_Metageneration = [], bk_Etag = []\<rparr>"

section \<open>Objects\<close>

definition mk_object :: "hash_lib \<Rightarrow> go_env \<Rightarrow> nat \<Rightarrow> string \<Rightarrow> string \<Rightarrow> string \<Rightarrow> string \<Rightarrow> objectResource" where
  "mk_object H e gen bucket name ct body = \<lparr>o_Kind = ''storage#object'',
     o_ID = bucket @ ''/'' @ name @ ''/'' @ itoa gen, o_Name = name, o_Bucket = bucket, o_Generation = itoa gen,
     o_Metageneration = ''1'', o_ContentType = ct, o_Size = itoa (length body), o_MD5Hash = computeMD5 H body,
     o_CRC32C = computeCRC32C H body, o_Etag = hexEtag H body, o_TimeCreated = e_now e 0, o_Updated = e_now e 1,
     o_StorageClass = ''STANDARD'', o_SelfLink = [], o_MediaLink = []\<rparr>"

text \<open>Errors of the two writes are dropped.\<close>

definition put_quiet :: "mem \<Rightarrow> string \<Rightarrow> string \<Rightarrow> blob \<Rightarrow> mem" where
  "put_quiet s n k v = (case Put s n k v of Inl _ \<Rightarrow> s | Inr s' \<Rightarrow> s')"

definition storeObject :: "hash_lib \<Rightarrow> go_env \<Rightarrow> string \<Rightarrow> string \<Rightarrow> string \<Rightarrow> string \<Rightarrow> mem \<Rightarrow> storage_state
    \<Rightarrow> objectResource \<times> mem \<times> storage_state" where
  "storeObject H e bucket name ct body s st =
     (let gen = u64_inc (ss_generation st);
          obj = mk_object H e gen bucket name ct body;
          s = put_quiet s (objectNamespace bucket) name (JsonB (enc_object obj));
          s = put_quiet s (objectDataNamespace bucket) name (RawB body)
      in (obj, s, st\<lparr>ss_generation := gen\<rparr>))"

definition getObjectMeta :: "string \<Rightarrow> string \<Rightarrow> mem \<Rightarrow> http_resp" where
  "getObjectMeta bucket object s = (case Get s (objectNamespace bucket) object of
     Inl er \<Rightarrow> if er = ErrNotFound then respErr 404 ''object not found'' else respErr 500 (err_text er)
   | Inr d \<Rightarrow> write_raw d)"

fun blob_len :: "blob \<Rightarrow> nat" where
  "blob_len (RawB b) = length b"
| "blob_len (JsonB _) = 0"

definition downloadObject :: "(string \<Rightarrow> time option) \<Rightarrow> string \<Rightarrow> string \<Rightarrow> mem \<Rightarrow> http_resp" where
  "downloadObject rfc bucket object s = (case Get s (objectNamespace bucket) object of
     Inl er \<Rightarrow> if er = ErrNotFound then respErr 404 ''object not found'' else respErr 500 (err_text er)
   | Inr metaRaw \<Rightarrow> (let (meta, _) = unmarshal_object rfc metaRaw in
       (case Get s (objectDataNamespace bucket) object of Inl er \<Rightarrow> respErr 500 (err_text er)
        | Inr body \<Rightarrow> \<lparr>rs_code = 200,
            rs_header = [(''Content-Type'', if o_ContentType meta = [] then ''application/octet-stream'' else o_ContentType meta),
              (''Content-Length'', itoa (blob_len body))] @
              (if o_Etag meta \<noteq> [] then [(''ETag'', o_Etag meta)] else []),
            rs_body = Some body\<rparr>)))"

type_synonym st_result = "http_resp \<times> mem \<times> storage_state"

definition deleteObject :: "string \<Rightarrow> string \<Rightarrow> mem \<Rightarrow> storage_state \<Rightarrow> st_result" where
  "deleteObject bucket object s st = (case Delete s (objectNamespace bucket) object of
     Inl er \<Rightarrow> (if er = ErrNotFound then respErr 404 ''object not found'' else respErr 500 (err_text er), s, st)
   | Inr s' \<Rightarrow> (header_only 204,
       case Delete s' (objectDataNamespace bucket) object of Inl _ \<Rightarrow> s' | Inr s'' \<Rightarrow> s'', st))"

definition handleObjects :: "(string \<Rightarrow> time option) \<Rightarrow> go_env \<Rightarrow> http_req \<Rightarrow> string \<Rightarrow> mem \<Rightarrow> http_resp" where
  "handleObjects rfc e r bucket s = (case Get s nsBuckets bucket of Inl _ \<Rightarrow> respErr 404 ''bucket not found''
     | Inr _ \<Rightarrow> if r_method r \<noteq> GET then methodNotAllowed
       else (case List s (objectNamespace bucket) (get_first (r_query r) ''prefix'') of
          Inl er \<Rightarrow> respErr 500 (err_text er)
        | Inr items \<Rightarrow> respJSON 200 (JObj [(''kind'', JStr ''storage#objects''),
            (''items'', JArr (concat (map (\<lambda>(_, d). let (ob, ok) = unmarshal_object rfc d in
               if ok then [enc_object ob] else []) (e_range e items))))])))"

definition handleObject :: "(string \<Rightarrow> time option) \<Rightarrow> http_req \<Rightarrow> string \<Rightarrow> string \<Rightarrow> mem \<Rightarrow> storage_state \<Rightarrow> st_result" where
  "handleObject rfc r bucket object s st = (case pathUnescape object of
     None \<Rightarrow> (respErr 400 ''invalid object name'', s, st)
   | Some objName \<Rightarrow> (case Get s nsBuckets bucket of Inl _ \<Rightarrow> (respErr 404 ''bucket not found'', s, st)
     | Inr _ \<Rightarrow> (case r_method r of
         GET \<Rightarrow> (if get_first (r_query r) ''alt'' = ''media'' then downloadObject rfc bucket objName s
                else getObjectMeta bucket objName s, s, st)
       | DELETE \<Rightarrow> deleteObject bucket objName s st
       | _ \<Rightarrow> (methodNotAllowed, s, st))))"

definition handleDownload :: "(string \<Rightarrow> time option) \<Rightarrow> http_req \<Rightarrow> mem \<Rightarrow> http_resp" where
  "handleDownload rfc r s = (let (bucket, suf) = splitFirst (trimPrefix (r_path r) ''/download/storage/v1/b/'') in
     if \<not> hasPrefix suf ''o/'' then respErr 404 ''not found''
     else (case pathUnescape (trimPrefix suf ''o/'') of None \<Rightarrow> respErr 400 ''invalid object name''
       | Some objName \<Rightarrow> downloadObject rfc bucket objName s))"

section \<open>Buckets\<close>

definition ensureBucket :: "go_env \<Rightarrow> string \<Rightarrow> mem \<Rightarrow> string + mem" where
  "ensureBucket e name s = (if name = [] then Inl ''empty bucket name''
     else (case Get s nsBuckets name of Inr _ \<Rightarrow> Inr s
       | Inl er \<Rightarrow> if er \<noteq> ErrNotFound then Inl (err_text er)
         else (case Put s nsBuckets name (JsonB (enc_bucket (mk_bucket e name))) of
           Inl er \<Rightarrow> Inl (err_text er) | Inr s' \<Rightarrow> Inr s')))"

definition listBuckets :: "(string \<Rightarrow> time option) \<Rightarrow> go_env \<Rightarrow> mem \<Rightarrow> http_resp" where
  "listBuckets rfc e s = (case List s nsBuckets [] of Inl er \<Rightarrow> respErr 500 (err_text er)
     | Inr items \<Rightarrow> respJSON 200 (JObj [(''kind'', JStr ''storage#buckets''),
         (''items'', JArr (concat (map (\<lambda>(_, d). let (b, ok) = unmarshal_bucket rfc d in
            if ok then [enc_bucket b] else []) (e_range e items))))]))"

definition createBucket :: "go_env \<Rightarrow> http_req \<Rightarrow> mem \<Rightarrow> http_resp \<times> mem" where
  "createBucket e r s = (case r_json r of None \<Rightarrow> (respErr 400 ''invalid json'', s)
     | Some j \<Rightarrow> (let (name, ok) = fld_str ''name'' j in
         if \<not> (is_struct_doc j \<and> ok) then (respErr 400 ''invalid json'', s)
         else if name = [] then (respErr 400 ''name required'', s)
         else (case Get s nsBuckets name of Inr _ \<Rightarrow> (respErr 409 ''bucket already exists'', s)
           | Inl _ \<Rightarrow> (case Put s nsBuckets name (JsonB (enc_bucket (mk_bucket e name))) of
               Inl er \<Rightarrow> (respErr 500 (err_text er), s)
             | Inr s' \<Rightarrow> (respJSON 200 (enc_bucket (mk_bucket e name)), s')))))"

definition handleBuckets :: "(string \<Rightarrow> time option) \<Rightarrow> go_env \<Rightarrow> http_req \<Rightarrow> mem \<Rightarrow> http_resp \<times> mem" where
  "handleBuckets rfc e r s = (case r_method r of GET \<Rightarrow> (listBuckets rfc e s, s)
     | POST \<Rightarrow> createBucket e r s | _ \<Rightarrow> (methodNotAllowed, s))"

text \<open>One round of the loop deletes the metadata and the data of an object.\<close>

definition del_quiet :: "mem \<Rightarrow> string \<Rightarrow> string \<Rightarrow> mem" where
  "del_quiet s n k = (case Delete s n k of Inl _ \<Rightarrow> s | Inr s' \<Rightarrow> s')"

definition deleteBucketAndObjects :: "go_env \<Rightarrow> string \<Rightarrow> mem \<Rightarrow> store_err option \<times> mem" where
  "deleteBucketAndObjects e bucket s = (case Get s nsBuckets bucket of Inl er \<Rightarrow> (Some er, s)
     | Inr _ \<Rightarrow>
         let all = (case List s (objectNamespace bucket) [] of Inl _ \<Rightarrow> [] | Inr l \<Rightarrow> l);
             s' = foldl (\<lambda>s k. del_quiet (del_quiet s (objectNamespace bucket) k) (objectDataNamespace bucket) k) s
                    (map fst (e_range e all))
         in (case Delete s' nsBuckets bucket of Inl er \<Rightarrow> (Some er, s') | Inr s'' \<Rightarrow> (None, s'')))"

definition bucketOp :: "go_env \<Rightarrow> http_req \<Rightarrow> string \<Rightarrow> mem \<Rightarrow> http_resp \<times> mem" where
  "bucketOp e r bucket s = (case r_method r of
     GET \<Rightarrow> (case Get s nsBuckets bucket of
         Inl er \<Rightarrow> (if er = ErrNotFound then respErr 404 ''bucket not found'' else respErr 500 (err_text er), s)
       | Inr d \<Rightarrow> (write_raw d, s))
   | DELETE \<Rightarrow> (case deleteBucketAndObjects e bucket s of
         (Some er, s') \<Rightarrow> (if er = ErrNotFound then respErr 404 ''bucket not found'' else respErr 500 (err_text er), s')
       | (None, s') \<Rightarrow> (header_only 204, s'))
   | _ \<Rightarrow> (methodNotAllowed, s))"

definition handleBucketPath :: "hash_lib \<Rightarrow> (string \<Rightarrow> time option) \<Rightarrow> go_env \<Rightarrow> http_req \<Rightarrow> mem \<Rightarrow> storage_state \<Rightarrow> st_result" where
  "handleBucketPath H rfc e r s st =
     (let path = r_path r;
          rest = (if hasPrefix path ''/storage/v1/b/'' then trimPrefix path ''/storage/v1/b/''
                  else if hasPrefix path ''/b/'' then trimPrefix path ''/b/'' else path)
      in if rest = [] then (let (resp, s') = handleBuckets rfc e r s in (resp, s', st))
         else let (bucket, suf) = splitFirst rest in
           if suf = [] then (let (resp, s') = bucketOp e r bucket s in (resp, s', st))
           else if suf = ''o'' then (handleObjects rfc e r bucket s, s, st)
           else if hasPrefix suf ''o/'' then handleObject rfc r bucket (trimPrefix suf ''o/'') s st
           else if suf = ''iam''
             then (let (resp, s') = HandleGCSPolicy (h_sha1 H) r (bucketResourceName bucket) s in (resp, s', st))
           else if suf = ''iam/testPermissions'' then (HandleGCSTestPermissions r, s, st)
           else (respErr 404 ''not found'', s, st))"

end
