(* ===== verification/Cloud_Storage_Upload.thy ===== *)
theory Cloud_Storage_Upload
  imports Cloud_Storage
begin

text \<open>
  The uploads of \<^verbatim>\<open>internal/services/storage/objects.go\<close> (media, multipart and the resumable protocol with its
  \<^verbatim>\<open>Content-Range\<close> headers), the XML surface and the console functions, and the properties
  of the service.
\<close>

section \<open>The resumable protocol\<close>

record content_range =
  cr_start :: int
  cr_end :: int
  cr_total :: int
  cr_final :: bool
  cr_isStatus :: bool

definition parseContentRange :: "string \<Rightarrow> string + content_range" where
  "parseContentRange s = (if \<not> hasPrefix s ''bytes '' then Inl ''missing bytes prefix''
     else (case cutAt (CHR ''/'') (trimPrefix s ''bytes '') of None \<Rightarrow> Inl ''missing / separator''
       | Some (rangePart, totalPart) \<Rightarrow>
           (case (if totalPart = ''*'' then Some (- 1) else parseInt totalPart) of
              None \<Rightarrow> Inl ''invalid total''
            | Some tot \<Rightarrow>
                if rangePart = ''*''
                then Inr \<lparr>cr_start = - 1, cr_end = - 1, cr_total = tot, cr_final = False, cr_isStatus = True\<rparr>
                else (case cutAt (CHR ''-'') rangePart of None \<Rightarrow> Inl ''missing - in range''
                  | Some (startStr, endStr) \<Rightarrow> (case parseInt startStr of None \<Rightarrow> Inl ''invalid start''
                    | Some s1 \<Rightarrow>
                        if endStr = ''*''
                        then Inr \<lparr>cr_start = s1, cr_end = - 1, cr_total = tot, cr_final = False, cr_isStatus = False\<rparr>
                        else (case parseInt endStr of None \<Rightarrow> Inl ''invalid end''
                          | Some e1 \<Rightarrow> Inr \<lparr>cr_start = s1, cr_end = e1, cr_total = tot,
                              cr_final = (tot \<ge> 0 \<and> e1 = tot - 1), cr_isStatus = False\<rparr>))))))"

definition writeResumableStatus :: "string \<Rightarrow> resumableSession \<Rightarrow> http_resp" where
  "writeResumableStatus uploadID sess = \<lparr>rs_code = 308,
     rs_header = (if length (rs_Buffer sess) > 0
        then [(''Range'', ''bytes=0-'' @ itoa (length (rs_Buffer sess) - 1))] else []) @
       [(''X-Guploader-UploadID'', uploadID)],
     rs_body = None\<rparr>"

definition finaliseResumableLocked :: "hash_lib \<Rightarrow> go_env \<Rightarrow> resumableSession \<Rightarrow> string \<Rightarrow> mem \<Rightarrow> storage_state \<Rightarrow> st_result" where
  "finaliseResumableLocked H e sess uploadID s st =
     (let ct = (if rs_ContentType sess = [] then ''application/octet-stream'' else rs_ContentType sess);
          (obj, s', st') = storeObject H e (rs_Bucket sess) (rs_Name sess) ct (rs_Buffer sess) s st
      in (respJSON 200 (enc_object obj), s', st'\<lparr>ss_sessions := AList.delete uploadID (ss_sessions st')\<rparr>))"

definition set_session :: "string \<Rightarrow> resumableSession \<Rightarrow> storage_state \<Rightarrow> storage_state" where
  "set_session uploadID sess st = st\<lparr>ss_sessions := AList.update uploadID sess (ss_sessions st)\<rparr>"

definition finaliseResumable :: "hash_lib \<Rightarrow> go_env \<Rightarrow> resumableSession \<Rightarrow> string \<Rightarrow> string \<Rightarrow> mem \<Rightarrow> storage_state \<Rightarrow> st_result" where
  "finaliseResumable H e sess uploadID body s st =
     finaliseResumableLocked H e (sess\<lparr>rs_Buffer := rs_Buffer sess @ body\<rparr>) uploadID s st"

definition with_total :: "int \<Rightarrow> resumableSession \<Rightarrow> resumableSession" where
  "with_total tot sess = (if tot \<ge> 0 then sess\<lparr>rs_TotalSize := tot\<rparr> else sess)"

definition uploadResumableData :: "hash_lib \<Rightarrow> go_env \<Rightarrow> http_req \<Rightarrow> string \<Rightarrow> string \<Rightarrow> mem \<Rightarrow> storage_state \<Rightarrow> st_result" where
  "uploadResumableData H e r bucket uploadID s st = (case map_of (ss_sessions st) uploadID of
     None \<Rightarrow> (respErr 404 ''upload session not found'', s, st)
   | Some sess \<Rightarrow> if rs_Bucket sess \<noteq> bucket then (respErr 404 ''upload session not found'', s, st)
     else let cr = get_first (r_header r) ''Content-Range''; body = r_bytes r in
       if cr = [] then finaliseResumable H e sess uploadID body s st
       else (case parseContentRange cr of Inl m \<Rightarrow> (respErr 400 (''invalid Content-Range: '' @ m), s, st)
         | Inr c \<Rightarrow>
             if cr_isStatus c
             then let sess = with_total (cr_total c) sess in
               (writeResumableStatus uploadID sess, s, set_session uploadID sess st)
             else
               let (end, final) = (if cr_end c < 0 then (wrap64 (cr_start c + int (length body) - 1), True)
                                   else (cr_end c, cr_final c))
               in if int (length body) \<noteq> wrap64 (end - cr_start c + 1)
               then (respErr 400 ''Content-Range byte count does not match body length'', s, st)
               else if cr_start c \<noteq> int (length (rs_Buffer sess))
               then (writeResumableStatus uploadID sess, s, st)
               else let sess = with_total (cr_total c) (sess\<lparr>rs_Buffer := rs_Buffer sess @ body\<rparr>) in
                 if final then finaliseResumableLocked H e sess uploadID s (set_session uploadID sess st)
                 else (writeResumableStatus uploadID sess, s, set_session uploadID sess st)))"

definition uploadResumableStart :: "http_req \<Rightarrow> string \<Rightarrow> mem \<Rightarrow> storage_state \<Rightarrow> st_result" where
  "uploadResumableStart r bucket s st =
     (let (mname, mct) = (if r_contentLength r > 0
            then (case r_json r of None \<Rightarrow> ([], [])
              | Some j \<Rightarrow> (fst (fld_str ''name'' j), fst (fld_str ''contentType'' j)))
            else ([], []));
          name = (let q = get_first (r_query r) ''name'' in if q = [] then mname else q)
      in if name = [] then (respErr 400 ''name required'', s, st)
         else
           let ct = (let h = get_first (r_header r) ''X-Upload-Content-Type'' in if h = [] then mct else h);
               sq = u64_inc (ss_resumableSeq st);
               i = ''session-'' @ itoa sq;
               sess = \<lparr>rs_Bucket = bucket, rs_Name = name, rs_ContentType = ct, rs_Buffer = [], rs_TotalSize = - 1\<rparr>;
               scheme = (if r_tls r then ''https'' else ''http'')
           in (\<lparr>rs_code = 200,
                rs_header = [(''Location'', scheme @ ''://'' @ r_host r @ ''/upload/storage/v1/b/'' @ bucket @ ''/o?upload_id='' @ i),
                  (''X-Guploader-UploadID'', i)],
                rs_body = None\<rparr>, s, set_session i sess (st\<lparr>ss_resumableSeq := sq\<rparr>)))"

section \<open>Media and multipart uploads\<close>

definition uploadMedia :: "hash_lib \<Rightarrow> go_env \<Rightarrow> http_req \<Rightarrow> string \<Rightarrow> mem \<Rightarrow> storage_state \<Rightarrow> st_result" where
  "uploadMedia H e r bucket s st = (let name = get_first (r_query r) ''name'' in
     if name = [] then (respErr 400 ''name query parameter required for media upload'', s, st)
     else let (obj, s', st') = storeObject H e bucket name (get_first (r_header r) ''Content-Type'') (r_bytes r) s st
          in (respJSON 200 (enc_object obj), s', st'))"

text \<open>
  The multipart library: the media type and boundary of a header, and the parts of a body, each with its
  content type, its bytes and the JSON they are, if they are.
\<close>

record mpart =
  mp_ct :: string
  mp_data :: string
  mp_json :: "json option"

record multipart_lib =
  ml_ParseMediaType :: "string \<Rightarrow> (string \<times> string) option"
  ml_Parts :: "string \<Rightarrow> string \<Rightarrow> string + mpart list"

fun read_parts :: "mpart list \<Rightarrow> string \<times> string \<Rightarrow> string \<times> string \<Rightarrow> (string \<times> string) \<times> (string \<times> string)" where
  "read_parts [] meta pl = (meta, pl)"
| "read_parts (p # ps) (n, ct) (d, dct) =
     (if hasPrefix (mp_ct p) ''application/json''
      then (case mp_json p of None \<Rightarrow> read_parts ps (n, ct) (d, dct)
        | Some j \<Rightarrow> read_parts ps
            (case jget ''name'' j of Some (JStr x) \<Rightarrow> x | _ \<Rightarrow> n,
             case jget ''contentType'' j of Some (JStr x) \<Rightarrow> x | _ \<Rightarrow> ct) (d, dct))
      else read_parts ps (n, ct) (mp_data p, mp_ct p))"

definition uploadMultipart :: "multipart_lib \<Rightarrow> hash_lib \<Rightarrow> go_env \<Rightarrow> http_req \<Rightarrow> string \<Rightarrow> mem \<Rightarrow> storage_state \<Rightarrow> st_result" where
  "uploadMultipart M H e r bucket s st = (case ml_ParseMediaType M (get_first (r_header r) ''Content-Type'') of
     None \<Rightarrow> (respErr 400 ''expected multipart content-type'', s, st)
   | Some (mt, boundary) \<Rightarrow>
       if \<not> hasPrefix mt ''multipart/'' then (respErr 400 ''expected multipart content-type'', s, st)
       else if boundary = [] then (respErr 400 ''missing boundary'', s, st)
       else (case ml_Parts M boundary (r_bytes r) of Inl m \<Rightarrow> (respErr 400 m, s, st)
         | Inr ps \<Rightarrow>
             let ((mname, mct), (payload, pct)) = read_parts ps ([], []) ([], []);
                 name = (if mname = [] then get_first (r_query r) ''name'' else mname)
             in if name = [] then (respErr 400 ''object name required'', s, st)
                else let (obj, s', st') = storeObject H e bucket name (if mct = [] then pct else mct) payload s st
                     in (respJSON 200 (enc_object obj), s', st')))"

definition handleUpload :: "multipart_lib \<Rightarrow> hash_lib \<Rightarrow> go_env \<Rightarrow> http_req \<Rightarrow> mem \<Rightarrow> storage_state \<Rightarrow> st_result" where
  "handleUpload M H e r s st =
     (let (bucket, suf) = splitFirst (trimPrefix (r_path r) ''/upload/storage/v1/b/'') in
      if \<not> hasPrefix suf ''o'' then (respErr 404 ''not found'', s, st)
      else (case Get s nsBuckets bucket of Inl _ \<Rightarrow> (respErr 404 ''bucket not found'', s, st)
        | Inr _ \<Rightarrow>
            let uploadID = get_first (r_query r) ''upload_id''; ut = get_first (r_query r) ''uploadType'' in
            if uploadID \<noteq> [] then uploadResumableData H e r bucket uploadID s st
            else if r_method r \<noteq> POST then (methodNotAllowed, s, st)
            else if ut = ''media'' then uploadMedia H e r bucket s st
            else if ut = ''multipart'' then uploadMultipart M H e r bucket s st
            else if ut = ''resumable'' then uploadResumableStart r bucket s st
            else if ut = [] then uploadMedia H e r bucket s st
            else (respErr 400 (''unsupported uploadType='' @ ut), s, st)))"

definition handleUploadRoot :: "multipart_lib \<Rightarrow> hash_lib \<Rightarrow> go_env \<Rightarrow> http_req \<Rightarrow> mem \<Rightarrow> storage_state \<Rightarrow> st_result" where
  "handleUploadRoot M H e r s st = handleUpload M H e
     (r\<lparr>r_path := ''/upload/storage/v1'' @ drop (length ''/upload'') (r_path r)\<rparr>) s st"

definition handleDownloadRoot :: "(string \<Rightarrow> time option) \<Rightarrow> http_req \<Rightarrow> mem \<Rightarrow> http_resp" where
  "handleDownloadRoot rfc r s = handleDownload rfc
     (r\<lparr>r_path := ''/download/storage/v1'' @ drop (length ''/download'') (r_path r)\<rparr>) s"

section \<open>The XML surface\<close>

definition xmlPutObject :: "hash_lib \<Rightarrow> go_env \<Rightarrow> http_req \<Rightarrow> string \<Rightarrow> string \<Rightarrow> mem \<Rightarrow> storage_state \<Rightarrow> st_result" where
  "xmlPutObject H e r bucket object s st =
     (let (obj, s', st') = storeObject H e bucket object (get_first (r_header r) ''Content-Type'') (r_bytes r) s st
      in (\<lparr>rs_code = 200, rs_header = (if o_Etag obj \<noteq> [] then [(''ETag'', o_Etag obj)] else []) @
             [(''x-goog-generation'', o_Generation obj)], rs_body = None\<rparr>, s', st'))"

definition HandleXML :: "hash_lib \<Rightarrow> (string \<Rightarrow> time option) \<Rightarrow> go_env \<Rightarrow> http_req \<Rightarrow> mem \<Rightarrow> storage_state \<Rightarrow> st_result option" where
  "HandleXML H rfc e r s st = (let path = trimPrefix (r_path r) ''/'' in
     if path = [] then None
     else let (bucket, object) = splitFirst path in
       if object = [] then None
       else (case Get s nsBuckets bucket of Inl _ \<Rightarrow> None
         | Inr _ \<Rightarrow> (case pathUnescape object of None \<Rightarrow> Some (respErr 400 ''invalid object name'', s, st)
           | Some objName \<Rightarrow> (case r_method r of
               GET \<Rightarrow> Some (downloadObject rfc bucket objName s, s, st)
             | PUT \<Rightarrow> Some (xmlPutObject H e r bucket objName s st)
             | DELETE \<Rightarrow> Some (deleteObject bucket objName s st)
             | _ \<Rightarrow> None))))"

section \<open>Seeding and console\<close>

text \<open>
  \<open>dctype\<close> is \<^verbatim>\<open>http.DetectContentType\<close>; the walk of the seed directory is given as the files it visits
  (relative path and content, nothing for a file that cannot be read).
\<close>

definition file_ext :: "string \<Rightarrow> string" where
  "file_ext name = (case cut_last (CHR ''.'') name of None \<Rightarrow> []
     | Some (_, x) \<Rightarrow> if CHR ''/'' \<in> set x then [] else CHR ''.'' # map lower_char x)"

definition detectContentType :: "(string \<Rightarrow> string) \<Rightarrow> string \<Rightarrow> string \<Rightarrow> string" where
  "detectContentType dctype name data = (let x = file_ext name in
     if x = ''.txt'' then ''text/plain; charset=utf-8''
     else if x = ''.json'' then ''application/json''
     else if x = ''.html'' \<or> x = ''.htm'' then ''text/html; charset=utf-8''
     else if x = ''.csv'' then ''text/csv''
     else dctype data)"

fun seedBucket :: "(string \<Rightarrow> string) \<Rightarrow> hash_lib \<Rightarrow> go_env \<Rightarrow> string \<Rightarrow> (string \<times> string option) list \<Rightarrow> mem \<Rightarrow> storage_state
    \<Rightarrow> string option \<times> mem \<times> storage_state" where
  "seedBucket dct H e bucket [] s st = (None, s, st)"
| "seedBucket dct H e bucket ((rel, content) # fs) s st = (case content of None \<Rightarrow> (Some ''read error'', s, st)
     | Some data \<Rightarrow> (let (_, s', st') = storeObject H e bucket rel (detectContentType dct rel data) data s st
         in seedBucket dct H e bucket fs s' st'))"

definition ConsoleBuckets :: "(string \<Rightarrow> time option) \<Rightarrow> go_env \<Rightarrow> mem
    \<Rightarrow> store_err + (string \<times> string \<times> string \<times> time \<times> time) list" where
  "ConsoleBuckets rfc e s = (case List s nsBuckets [] of Inl er \<Rightarrow> Inl er
     | Inr all \<Rightarrow> Inr (sort_key fst (concat (map (\<lambda>(_, d). let (b, ok) = unmarshal_bucket rfc d in
         if \<not> ok then [] else [(bk_Name b, bk_Location b, bk_StorageClass b, bk_TimeCreated b, bk_Updated b)])
         (e_range e all)))))"

definition ConsoleObjects :: "(string \<Rightarrow> time option) \<Rightarrow> go_env \<Rightarrow> mem \<Rightarrow> string
    \<Rightarrow> string + (string \<times> string \<times> string \<times> time \<times> string) list" where
  "ConsoleObjects rfc e s bucket = (case Get s nsBuckets bucket of
     Inl er \<Rightarrow> if er = ErrNotFound then Inl (''bucket not found: '' @ bucket) else Inl (err_text er)
   | Inr _ \<Rightarrow> (case List s (objectNamespace bucket) [] of Inl er \<Rightarrow> Inl (err_text er)
     | Inr all \<Rightarrow> Inr (sort_key fst (concat (map (\<lambda>(_, d). let (ob, ok) = unmarshal_object rfc d in
         if \<not> ok then [] else [(o_Name ob, o_Size ob, o_ContentType ob, o_Updated ob, o_MD5Hash ob)])
         (e_range e all))))))"

definition ConsoleUpload :: "(string \<Rightarrow> string) \<Rightarrow> hash_lib \<Rightarrow> go_env \<Rightarrow> string \<Rightarrow> string \<Rightarrow> string \<Rightarrow> string \<Rightarrow> mem \<Rightarrow> storage_state
    \<Rightarrow> string option \<times> mem \<times> storage_state" where
  "ConsoleUpload dct H e bucket object ct data s st =
     (if object = [] then (Some ''object name is required'', s, st)
      else (case Get s nsBuckets bucket of Inl _ \<Rightarrow> (Some (''bucket not found: '' @ bucket), s, st)
        | Inr _ \<Rightarrow> (let (_, s', st') = storeObject H e bucket object
              (if ct = [] then detectContentType dct object data else ct) data s st in (None, s', st'))))"

section \<open>Storing an object\<close>

lemma object_ns [simp]:
  "objectNamespace b \<noteq> objectDataNamespace b'" "objectDataNamespace b' \<noteq> objectNamespace b"
  "objectNamespace b \<noteq> nsBuckets" "nsBuckets \<noteq> objectNamespace b"
  "objectDataNamespace b \<noteq> nsBuckets" "nsBuckets \<noteq> objectDataNamespace b"
  "objectNamespace b = objectNamespace b' \<longleftrightarrow> b = b'"
  "objectDataNamespace b = objectDataNamespace b' \<longleftrightarrow> b = b'"
  by (simp_all add: objectNamespace_def objectDataNamespace_def ns_defs)

lemma put_quiet_mput [simp]: "put_quiet s n k v = mput s n k v"
  by (simp add: put_quiet_def)

lemma del_quiet_mdel [simp]: "del_quiet s n k = mdel s n k"
  by (simp add: del_quiet_def mdel_def)

lemma storeObject_effect:
  assumes "mem_ok s" "storeObject H e b n ct body s st = (obj, s', st')"
  shows "mem_ok s'"
    and "mem_lookup s' = upd2 (upd2 (mem_lookup s) (objectNamespace b) n (Some (JsonB (enc_object obj))))
        (objectDataNamespace b) n (Some (RawB body))"
    and "o_ContentType obj = ct" "ss_sessions st' = ss_sessions st" "ss_resumableSeq st' = ss_resumableSeq st"
  using assms by (auto simp: storeObject_def Let_def mk_object_def)

lemma jmember_ostr:
  "jmember k (ostr k' v) = (if eqFold k' k \<and> v \<noteq> [] then Some (JStr v) else None)"
  by (simp add: ostr_def omit_def)

lemma dec_enc_object_type:
  "o_ContentType (fst (dec_object rfc (enc_object ob))) = o_ContentType ob"
proof -
  have "o_ContentType (fst (dec_object rfc j)) = fst (fld_str ''contentType'' j)" for j
    by (simp only: dec_object_def split_def Let_def fst_conv objectResource.select_convs)
  moreover have "fld_str ''contentType'' (enc_object ob) = (o_ContentType ob, True)"
    by (simp add: enc_object_def fld_str_def jmember_append jmember_ostr eqFold_def lower_char_def)
  ultimately show ?thesis by simp
qed

lemma downloadObject_stored:
  assumes "mem_lookup s (objectNamespace b) n = Some (JsonB (enc_object obj))"
    and "mem_lookup s (objectDataNamespace b) n = Some (RawB body)"
  shows "\<exists>h. downloadObject rfc b n s = \<lparr>rs_code = 200, rs_header =
      [(''Content-Type'', if o_ContentType obj = [] then ''application/octet-stream'' else o_ContentType obj),
       (''Content-Length'', itoa (length body))] @ h, rs_body = Some (RawB body)\<rparr>"
proof -
  have "downloadObject rfc b n s = (let meta = fst (dec_object rfc (enc_object obj)) in
      \<lparr>rs_code = 200,
        rs_header = [(''Content-Type'', if o_ContentType meta = [] then ''application/octet-stream'' else o_ContentType meta),
          (''Content-Length'', itoa (length body))] @ (if o_Etag meta \<noteq> [] then [(''ETag'', o_Etag meta)] else []),
        rs_body = Some (RawB body)\<rparr>)"
    using assms by (simp add: downloadObject_def Get_lookup Let_def split_def)
  then show ?thesis by (simp add: Let_def dec_enc_object_type del: append.simps)
qed

section \<open>Properties\<close>

text \<open>Requests of a client: the path is the decoded one, as \<^verbatim>\<open>r.URL.Path\<close> holds it.\<close>

definition media_req :: "string \<Rightarrow> string \<Rightarrow> string \<Rightarrow> string \<Rightarrow> http_req" where
  "media_req bucket name ct data = \<lparr>r_method = POST, r_path = ''/upload/storage/v1/b/'' @ bucket @ ''/o'',
     r_query = [(''uploadType'', ''media''), (''name'', name)], r_header = [(''Content-Type'', ct)], r_host = [],
     r_tls = False, r_contentLength = int (length data), r_bytes = data, r_json = None\<rparr>"

definition download_req :: "string \<Rightarrow> string \<Rightarrow> http_req" where
  "download_req bucket object = \<lparr>r_method = GET, r_path = ''/download/storage/v1/b/'' @ bucket @ ''/o/'' @ object,
     r_query = [], r_header = [], r_host = [], r_tls = False, r_contentLength = 0, r_bytes = [], r_json = None\<rparr>"

lemma splitFirst_append: "CHR ''/'' \<notin> set b \<Longrightarrow> splitFirst (b @ CHR ''/'' # x) = (b, x)"
  by (simp add: splitFirst_def cut_append)

lemma trimPrefix_path [simp]: "trimPrefix (pre @ x) pre = x"
  by (simp add: trimPrefix_def)

lemma media_upload:
  assumes "CHR ''/'' \<notin> set b" "Get s nsBuckets b = Inr d" "name \<noteq> []"
  shows "handleUpload M H e (media_req b name ct data) s st =
    (let (obj, s', st') = storeObject H e b name ct data s st in (respJSON 200 (enc_object obj), s', st'))"
proof -
  have "splitFirst (trimPrefix (r_path (media_req b name ct data)) ''/upload/storage/v1/b/'') = (b, ''o'')"
    using splitFirst_append [OF assms(1), of "''o''"] trimPrefix_path [of "''/upload/storage/v1/b/''" "b @ ''/o''"]
    by (simp add: media_req_def)
  moreover have "get_first (r_query (media_req b name ct data)) ''upload_id'' = []"
    "get_first (r_query (media_req b name ct data)) ''uploadType'' = ''media''"
    "get_first (r_query (media_req b name ct data)) ''name'' = name"
    "get_first (r_header (media_req b name ct data)) ''Content-Type'' = ct"
    "r_method (media_req b name ct data) = POST" "r_bytes (media_req b name ct data) = data"
    by (simp_all add: media_req_def get_first_def)
  ultimately show ?thesis
    using assms(2,3) by (simp add: handleUpload_def uploadMedia_def hasPrefix_def Let_def)
qed

lemma download_path:
  assumes "CHR ''/'' \<notin> set b"
  shows "handleDownload rfc (download_req b x) s = (case pathUnescape x of None \<Rightarrow> respErr 400 ''invalid object name''
    | Some n \<Rightarrow> downloadObject rfc b n s)"
proof -
  have "splitFirst (trimPrefix (r_path (download_req b x)) ''/download/storage/v1/b/'') = (b, ''o/'' @ x)"
    using splitFirst_append [OF assms, of "''o/'' @ x"]
      trimPrefix_path [of "''/download/storage/v1/b/''" "b @ CHR ''/'' # ''o/'' @ x"]
    by (simp add: download_req_def)
  moreover have "hasPrefix (''o/'' @ x) ''o/''" by (simp add: hasPrefix_def)
  moreover have "trimPrefix (''o/'' @ x) ''o/'' = x" by (rule trimPrefix_path)
  ultimately show ?thesis by (simp add: handleDownload_def)
qed

text \<open>
  C16: an object uploaded to an existing bucket downloads as the same bytes, with the content type it was
  uploaded with and its length, under every path that unescapes to its name, and
  nothing else in the store changes.
\<close>

theorem upload_download_roundtrip:
  assumes "mem_ok s" "CHR ''/'' \<notin> set b" "Get s nsBuckets b = Inr d" "name \<noteq> []" "pathUnescape x = Some name"
  shows "\<exists>obj s' st' h. handleUpload M H e (media_req b name ct data) s st = (respJSON 200 (enc_object obj), s', st') \<and>
    handleDownload rfc (download_req b x) s' = \<lparr>rs_code = 200, rs_header =
      [(''Content-Type'', if ct = [] then ''application/octet-stream'' else ct),
       (''Content-Length'', itoa (length data))] @ h, rs_body = Some (RawB data)\<rparr> \<and>
    ((k = name \<and> (n = objectNamespace b \<or> n = objectDataNamespace b)) \<or> mem_lookup s' n k = mem_lookup s n k)"
proof -
  obtain obj s' st' where so: "storeObject H e b name ct data s st = (obj, s', st')" by (metis prod_cases3)
  note eff = storeObject_effect [OF assms(1) so]
  have "mem_lookup s' (objectNamespace b) name = Some (JsonB (enc_object obj))"
    "mem_lookup s' (objectDataNamespace b) name = Some (RawB data)" by (simp_all add: eff(2))
  from downloadObject_stored [OF this, of rfc] obtain h where
    "downloadObject rfc b name s' = \<lparr>rs_code = 200, rs_header =
      [(''Content-Type'', if ct = [] then ''application/octet-stream'' else ct),
       (''Content-Length'', itoa (length data))] @ h, rs_body = Some (RawB data)\<rparr>"
    unfolding eff(3) by blast
  moreover have "(k = name \<and> (n = objectNamespace b \<or> n = objectDataNamespace b)) \<or> mem_lookup s' n k = mem_lookup s n k"
    by (auto simp: eff(2))
  ultimately show ?thesis
    unfolding media_upload [OF assms(2-4)] download_path [OF assms(2)] so
    using assms(5) by (auto simp del: append.simps)
qed

text \<open>
  Object names are unescaped twice.  \<^verbatim>\<open>r.URL.Path\<close> is already decoded when the handlers unescape the object
  part again, so an object whose name has a percent sign that starts no valid escape is accepted by an
  upload and afterwards every download request for that name is rejected.
\<close>

theorem percent_name_cannot_be_downloaded:
  assumes "CHR ''/'' \<notin> set b" "Get s nsBuckets b = Inr d" "name \<noteq> []" "pathUnescape name = None"
  shows "rs_code (fst (handleUpload M H e (media_req b name ct data) s st)) = 200 \<and>
    handleDownload rfc (download_req b name) (fst (snd (handleUpload M H e (media_req b name ct data) s st))) =
      respErr 400 ''invalid object name''"
  using assms(4) unfolding media_upload [OF assms(1-3)] download_path [OF assms(1)]
  by (simp add: split_def Let_def)

subsection \<open>Resumable uploads\<close>

definition range_header :: "nat \<Rightarrow> nat \<Rightarrow> nat \<Rightarrow> string" where
  "range_header start stop sz = ''bytes '' @ itoa start @ ''-'' @ itoa stop @ ''/'' @ itoa sz"

lemma itoa_not_star: "itoa n \<noteq> ''*''" "CHR ''/'' \<notin> set (itoa n)" "CHR ''-'' \<notin> set (itoa n)"
  using itoa_no_char [of "CHR ''*''" n] itoa_no_char [of "CHR ''/''" n] itoa_no_char [of "CHR ''-''" n] by auto

lemma parse_range_header:
  assumes "a < 2 ^ 63" "z < 2 ^ 63" "n < 2 ^ 63"
  shows "parseContentRange (range_header a z n) = Inr \<lparr>cr_start = int a, cr_end = int z, cr_total = int n,
    cr_final = (z + 1 = n), cr_isStatus = False\<rparr>"
proof -
  have r: "hasPrefix (range_header a z n) ''bytes ''"
    "trimPrefix (range_header a z n) ''bytes '' = (itoa a @ CHR ''-'' # itoa z) @ CHR ''/'' # itoa n"
    by (simp_all add: range_header_def hasPrefix_def trimPrefix_def)
  have "cutAt (CHR ''/'') ((itoa a @ CHR ''-'' # itoa z) @ CHR ''/'' # itoa n) = Some (itoa a @ CHR ''-'' # itoa z, itoa n)"
    by (rule cut_append) (simp add: itoa_not_star)
  moreover have "cutAt (CHR ''-'') (itoa a @ CHR ''-'' # itoa z) = Some (itoa a, itoa z)"
    by (rule cut_append) (simp add: itoa_not_star)
  moreover have "itoa a @ CHR ''-'' # itoa z \<noteq> ''*''" by (cases "itoa a") auto
  moreover have "(int z = int n - 1) = (z + 1 = n)" by auto
  ultimately show ?thesis
    using assms by (simp add: parseContentRange_def r parseInt_itoa itoa_not_star)
qed

text \<open>The request with one chunk, and the run of a client that sends its chunks in order.\<close>

definition chunk_req :: "string \<Rightarrow> string \<Rightarrow> nat \<Rightarrow> nat \<Rightarrow> string \<Rightarrow> http_req" where
  "chunk_req bucket i start sz chunk = \<lparr>r_method = PUT, r_path = ''/upload/storage/v1/b/'' @ bucket @ ''/o'',
     r_query = [(''upload_id'', i)],
     r_header = [(''Content-Range'', range_header start (start + length chunk - 1) sz)], r_host = [],
     r_tls = False, r_contentLength = int (length chunk), r_bytes = chunk, r_json = None\<rparr>"

fun send_chunks :: "hash_lib \<Rightarrow> go_env \<Rightarrow> string \<Rightarrow> string \<Rightarrow> nat \<Rightarrow> nat \<Rightarrow> string list \<Rightarrow> mem \<Rightarrow> storage_state
    \<Rightarrow> nat list \<times> mem \<times> storage_state" where
  "send_chunks H e b i start sz [] s st = ([], s, st)"
| "send_chunks H e b i start sz (c # cs) s st =
     (let (resp, s', st') = uploadResumableData H e (chunk_req b i start sz c) b i s st;
          (codes, s'', st'') = send_chunks H e b i (start + length c) sz cs s' st'
      in (rs_code resp # codes, s'', st''))"

lemma chunk_header:
  assumes "c \<noteq> []" "start + length c \<le> sz" "sz < 2 ^ 63"
  shows "get_first (r_header (chunk_req b i start sz c)) ''Content-Range'' = range_header start (start + length c - 1) sz"
    and "r_bytes (chunk_req b i start sz c) = c" and "range_header start (start + length c - 1) sz \<noteq> []"
    and "wrap64 (int (start + length c - 1) - int start + 1) = int (length c)"
    and "parseContentRange (range_header start (start + length c - 1) sz) = Inr \<lparr>cr_start = int start,
      cr_end = int (start + length c - 1), cr_total = int sz, cr_final = (start + length c = sz), cr_isStatus = False\<rparr>"
proof -
  have pos: "0 < length c" using assms(1) by simp
  show "get_first (r_header (chunk_req b i start sz c)) ''Content-Range'' = range_header start (start + length c - 1) sz"
    "r_bytes (chunk_req b i start sz c) = c" by (simp_all add: chunk_req_def get_first_def)
  show "range_header start (start + length c - 1) sz \<noteq> []" by (simp add: range_header_def)
  have stop: "int (start + length c - 1) = int start + int (length c) - 1" using pos by linarith
  show "wrap64 (int (start + length c - 1) - int start + 1) = int (length c)"
    unfolding stop using assms(2,3) by (simp add: wrap64_id in_int64_def)
  have "start + length c - 1 + 1 = start + length c" using pos by simp
  then show "parseContentRange (range_header start (start + length c - 1) sz) = Inr \<lparr>cr_start = int start,
      cr_end = int (start + length c - 1), cr_total = int sz, cr_final = (start + length c = sz), cr_isStatus = False\<rparr>"
    using parse_range_header [of start "start + length c - 1" sz] assms(2,3) by simp
qed

lemma uploadResumableData_chunk:
  assumes "map_of (ss_sessions st) i = Some sess" "rs_Bucket sess = b"
    and "get_first (r_header r) ''Content-Range'' = h" "r_bytes r = c" "h \<noteq> []" "wrap64 (z - a + 1) = int (length c)"
    and "parseContentRange h = Inr \<lparr>cr_start = a, cr_end = z, cr_total = t, cr_final = f, cr_isStatus = False\<rparr>" "0 \<le> z"
  shows "uploadResumableData H e r b i s st = (if a \<noteq> int (length (rs_Buffer sess)) then (writeResumableStatus i sess, s, st)
    else let sess = with_total t (sess\<lparr>rs_Buffer := rs_Buffer sess @ c\<rparr>) in
      if f then finaliseResumableLocked H e sess i s (set_session i sess st)
      else (writeResumableStatus i sess, s, set_session i sess st))"
  using assms by (simp add: uploadResumableData_def Let_def)

lemma chunk_accepted:
  assumes "map_of (ss_sessions st) i = Some sess" "rs_Bucket sess = b" "c \<noteq> []"
    and "start = length (rs_Buffer sess)" "start + length c \<le> sz" "sz < 2 ^ 63"
    and "sess' = with_total (int sz) (sess\<lparr>rs_Buffer := rs_Buffer sess @ c\<rparr>)"
  shows "uploadResumableData H e (chunk_req b i start sz c) b i s st =
    (if start + length c = sz then finaliseResumableLocked H e sess' i s (set_session i sess' st)
     else (writeResumableStatus i sess', s, set_session i sess' st))"
  unfolding uploadResumableData_chunk [OF assms(1,2) chunk_header [OF assms(3,5,6)] of_nat_0_le_iff] Let_def
  using assms(4,7) by simp

lemma finalise_effect:
  assumes "mem_ok s" "finaliseResumableLocked H e sess i s st = (resp, s', st')"
  shows "rs_code resp = 200" "mem_lookup s' (objectDataNamespace (rs_Bucket sess)) (rs_Name sess) = Some (RawB (rs_Buffer sess))"
    "map_of (ss_sessions st') i = None" "mem_ok s'"
proof -
  let ?ct = "if rs_ContentType sess = [] then ''application/octet-stream'' else rs_ContentType sess"
  obtain obj s1 st1 where so: "storeObject H e (rs_Bucket sess) (rs_Name sess) ?ct (rs_Buffer sess) s st = (obj, s1, st1)"
    by (metis prod_cases3)
  note eff = storeObject_effect [OF assms(1) so]
  show "rs_code resp = 200" "mem_lookup s' (objectDataNamespace (rs_Bucket sess)) (rs_Name sess) = Some (RawB (rs_Buffer sess))"
    "map_of (ss_sessions st') i = None" "mem_ok s'"
    using assms(2) so eff(1,2) by (auto simp: finaliseResumableLocked_def delete_conv')
qed

lemma send_chunks_assemble:
  assumes "mem_ok s" "map_of (ss_sessions st) i = Some sess" "rs_Bucket sess = b" "list_all (\<lambda>c. c \<noteq> []) cs" "cs \<noteq> []"
    and "start = length (rs_Buffer sess)" "sz = start + length (concat cs)" "sz < 2 ^ 63"
  shows "\<exists>s' st'. send_chunks H e b i start sz cs s st = (replicate (length cs - 1) 308 @ [200], s', st') \<and>
    mem_lookup s' (objectDataNamespace b) (rs_Name sess) = Some (RawB (rs_Buffer sess @ concat cs)) \<and>
    map_of (ss_sessions st') i = None"
  using assms
proof (induction cs arbitrary: sess st start)
  case (Cons c cs)
  define sess' where "sess' = with_total (int sz) (sess\<lparr>rs_Buffer := rs_Buffer sess @ c\<rparr>)"
  have c: "c \<noteq> []" "start + length c \<le> sz" using Cons.prems(4,7) by auto
  have s': "rs_Bucket sess' = b" "rs_Name sess' = rs_Name sess" "rs_Buffer sess' = rs_Buffer sess @ c"
    using Cons.prems(3) by (simp_all add: sess'_def with_total_def)
  note step = chunk_accepted [OF Cons.prems(2,3) c(1) Cons.prems(6) c(2) Cons.prems(8) sess'_def, of H e s]
  show ?case
  proof (cases "cs = []")
    case True
    obtain resp s1 st1 where fin: "finaliseResumableLocked H e sess' i s (set_session i sess' st) = (resp, s1, st1)"
      by (metis prod_cases3)
    have "start + length c = sz" using True Cons.prems(7) by simp
    then show ?thesis
      using True step finalise_effect [OF Cons.prems(1) fin] s' by (simp add: fin)
  next
    case False
    then have "concat cs \<noteq> []" using Cons.prems(4) by (cases cs) auto
    then have ne: "start + length c \<noteq> sz" using Cons.prems(7) by simp
    have sess1: "map_of (ss_sessions (set_session i sess' st)) i = Some sess'"
      by (simp add: set_session_def update_conv')
    have "list_all (\<lambda>c. c \<noteq> []) cs" "start + length c = length (rs_Buffer sess')"
      "sz = start + length c + length (concat cs)"
      using Cons.prems(4,6,7) s' by simp_all
    from Cons.IH [OF Cons.prems(1) sess1 s'(1) this(1) False this(2,3) Cons.prems(8)] obtain s1 st1 where
      "send_chunks H e b i (start + length c) sz cs s (set_session i sess' st) =
        (replicate (length cs - 1) 308 @ [200], s1, st1)"
      "mem_lookup s1 (objectDataNamespace b) (rs_Name sess) = Some (RawB (rs_Buffer sess @ c @ concat cs))"
      "map_of (ss_sessions st1) i = None" using s' by auto
    moreover have "length cs = Suc (length cs - 1)" using False by (cases cs) auto
    then have "replicate (length cs) (308::nat) = 308 # replicate (length cs - 1) 308"
      by (metis replicate_Suc)
    ultimately show ?thesis using step ne by (simp add: writeResumableStatus_def)
  qed
qed simp

text \<open>
  C15: a resumable upload stores the concatenation of its chunks.  For any division of the data into
  non-empty chunks, sent in order with their byte ranges, every chunk but the last is answered with 308, the last
  one with 200, the stored object has exactly the data, and the session is closed.
\<close>

theorem resumable_upload_assembles_chunks:
  assumes "mem_ok s" "map_of (ss_sessions st) i = Some sess" "rs_Buffer sess = []"
    and "list_all (\<lambda>c. c \<noteq> []) cs" "cs \<noteq> []" "concat cs = data" "length data < 2 ^ 63"
  shows "\<exists>s' st'. send_chunks H e (rs_Bucket sess) i 0 (length data) cs s st =
      (replicate (length cs - 1) 308 @ [200], s', st') \<and>
    mem_lookup s' (objectDataNamespace (rs_Bucket sess)) (rs_Name sess) = Some (RawB data) \<and>
    map_of (ss_sessions st') i = None"
  using send_chunks_assemble [OF assms(1,2) refl assms(4,5), of 0 "length data" H e] assms(3,6,7) by simp

text \<open>
  A chunk that does not start where the received data ends, because it was lost, repeated or reordered,
  changes nothing: neither the store nor the session, and the answer is 308 with the range received so far.
\<close>

theorem out_of_order_chunk_ignored:
  assumes "map_of (ss_sessions st) i = Some sess" "c \<noteq> []" "start \<noteq> length (rs_Buffer sess)"
    and "start + length c \<le> sz" "sz < 2 ^ 63"
  shows "uploadResumableData H e (chunk_req (rs_Bucket sess) i start sz c) (rs_Bucket sess) i s st =
    (writeResumableStatus i sess, s, st)"
  unfolding uploadResumableData_chunk [OF assms(1) refl chunk_header [OF assms(2,4,5)] of_nat_0_le_iff]
  using assms(3) by simp

subsection \<open>Deleting a bucket\<close>

text \<open>What every write and deletion of the service maintains: no data without metadata.\<close>

definition data_has_meta :: "mem \<Rightarrow> bool" where
  "data_has_meta s \<longleftrightarrow> (\<forall>b k. mem_lookup s (objectDataNamespace b) k \<noteq> None \<longrightarrow> mem_lookup s (objectNamespace b) k \<noteq> None)"

lemma storeObject_data_has_meta:
  assumes "mem_ok s" "data_has_meta s" "storeObject H e b n ct body s st = (obj, s', st')"
  shows "data_has_meta s'"
  using assms(2) storeObject_effect(2) [OF assms(1,3)] by (auto simp: data_has_meta_def)

lemma deleteObject_data_has_meta:
  assumes "mem_ok s" "data_has_meta s" "deleteObject b k s st = (resp, s', st')"
  shows "data_has_meta s'"
proof -
  have "s' = s \<or> s' = mdel (mdel s (objectNamespace b) k) (objectDataNamespace b) k"
    using assms(1,3) by (auto simp: deleteObject_def mdel_def split: sum.splits)
  then show ?thesis using assms(1,2) by (auto simp: data_has_meta_def split: if_splits)
qed

lemma delete_objects_loop:
  assumes "mem_ok s"
  shows "mem_ok (foldl (\<lambda>s k. mdel (mdel s (objectNamespace b) k) (objectDataNamespace b) k) s ks) \<and>
    mem_lookup (foldl (\<lambda>s k. mdel (mdel s (objectNamespace b) k) (objectDataNamespace b) k) s ks) =
      (\<lambda>n k. if (n = objectNamespace b \<or> n = objectDataNamespace b) \<and> k \<in> set ks then None else mem_lookup s n k)"
  using assms
proof (induction ks arbitrary: s)
  case (Cons x ks)
  from Cons.IH [of "mdel (mdel s (objectNamespace b) x) (objectDataNamespace b) x"] Cons.prems
  show ?case by (auto simp: fun_eq_iff)
qed simp

text \<open>
  Deleting an existing bucket removes the bucket, every object of it and every object's data, and leaves the
  rest of the store, in particular the objects of all other buckets, as it was.
\<close>

theorem bucket_delete_cascades:
  assumes "env_ok e" "mem_ok s" "data_has_meta s" "Get s nsBuckets b = Inr d" "r_method r = DELETE"
  shows "\<exists>s'. bucketOp e r b s = (header_only 204, s') \<and>
    mem_lookup s' n k = (if n = objectNamespace b \<or> n = objectDataNamespace b \<or> n = nsBuckets \<and> k = b then None
      else mem_lookup s n k)"
proof -
  let ?ks = "map fst (e_range e (mlist s (objectNamespace b) []))"
  define s1 where "s1 = foldl (\<lambda>s k. mdel (mdel s (objectNamespace b) k) (objectDataNamespace b) k) s ?ks"
  have s1: "mem_ok s1" "mem_lookup s1 = (\<lambda>n k. if (n = objectNamespace b \<or> n = objectDataNamespace b) \<and> k \<in> set ?ks
      then None else mem_lookup s n k)"
    using delete_objects_loop [OF assms(2)] by (auto simp: s1_def simp del: set_map)
  have ks: "k \<in> set ?ks \<longleftrightarrow> mem_lookup s (objectNamespace b) k \<noteq> None" for k
    using assms(1,2) by (simp add: in_keys_mlist)
  have "mem_lookup s1 nsBuckets b = Some d"
    using assms(4) by (simp add: s1(2) Get_lookup split: option.splits)
  then have "bucketOp e r b s = (header_only 204, mdel s1 nsBuckets b)"
    using assms(4,5) s1(1) by (simp add: bucketOp_def deleteBucketAndObjects_def s1_def [symmetric] Delete_cases)
  moreover have "mem_lookup (mdel s1 nsBuckets b) n k = (if n = objectNamespace b \<or> n = objectDataNamespace b \<or>
      n = nsBuckets \<and> k = b then None else mem_lookup s n k)"
  proof -
    have "mem_lookup s (objectNamespace b) k = None \<Longrightarrow> mem_lookup s (objectDataNamespace b) k = None"
      using assms(3) unfolding data_has_meta_def by blast
    then show ?thesis using s1(1) ks [of k] by (auto simp: s1(2) simp del: set_map)
  qed
  ultimately show ?thesis by blast
qed

subsection \<open>A bucket with one object\<close>

definition demo_hash :: hash_lib where
  "demo_hash = \<lparr>h_md5 = (\<lambda>_. ''md5''), h_crc32c = (\<lambda>d. length d), h_sha1 = (\<lambda>_. ''sha1'')\<rparr>"

definition demo_ml :: multipart_lib where
  "demo_ml = \<lparr>ml_ParseMediaType = (\<lambda>_. None), ml_Parts = (\<lambda>_ _. Inl ''none'')\<rparr>"

definition st_env :: go_env where "st_env = \<lparr>e_now = (\<lambda>_. 3), e_range = (\<lambda>x. x)\<rparr>"

definition st_mem :: mem where
  "st_mem = mput NewMemory nsBuckets ''b'' (JsonB (enc_bucket (mk_bucket st_env ''b'')))"

definition st_state :: storage_state where
  "st_state = \<lparr>ss_generation = 0, ss_sessions = [(''session-1'',
     \<lparr>rs_Bucket = ''b'', rs_Name = ''f'', rs_ContentType = [], rs_Buffer = [], rs_TotalSize = - 1\<rparr>)],
     ss_resumableSeq = 1\<rparr>"

lemma st_mem_facts: "mem_ok st_mem" "\<exists>d. Get st_mem nsBuckets ''b'' = Inr d" "env_ok st_env" "data_has_meta st_mem"
  by (auto simp: st_mem_def Get_lookup st_env_def env_ok_def data_has_meta_def)

theorem upload_download_roundtrip_witness:
  "\<exists>obj s' st' h. handleUpload demo_ml demo_hash st_env (media_req ''b'' ''a b'' ''text/plain'' ''data'') st_mem st_state =
      (respJSON 200 (enc_object obj), s', st') \<and>
    handleDownload (\<lambda>_. None) (download_req ''b'' ''a%20b'') s' = \<lparr>rs_code = 200, rs_header =
      [(''Content-Type'', ''text/plain''), (''Content-Length'', itoa 4)] @ h, rs_body = Some (RawB ''data'')\<rparr>"
proof -
  obtain d where d: "Get st_mem nsBuckets ''b'' = Inr d" using st_mem_facts(2) by blast
  have "pathUnescape ''a%20b'' = Some ''a b''" by (simp add: unhex_def char_of_def bit_0)
  then show ?thesis
    using upload_download_roundtrip [OF st_mem_facts(1) _ d, of "''a b''" "''a%20b''" demo_ml demo_hash st_env
        "''text/plain''" "''data''" st_state "\<lambda>_. None" "[]" "[]"]
    by (auto simp del: append.simps)
qed

theorem percent_name_cannot_be_downloaded_witness:
  "rs_code (fst (handleUpload demo_ml demo_hash st_env (media_req ''b'' ''100%'' [] ''x'') st_mem st_state)) = 200 \<and>
   rs_code (handleDownload (\<lambda>_. None) (download_req ''b'' ''100%'')
     (fst (snd (handleUpload demo_ml demo_hash st_env (media_req ''b'' ''100%'' [] ''x'') st_mem st_state)))) = 400"
proof -
  obtain d where d: "Get st_mem nsBuckets ''b'' = Inr d" using st_mem_facts(2) by blast
  show ?thesis
    using percent_name_cannot_be_downloaded [OF _ d, of "''100%''" demo_ml demo_hash st_env "[]" "''x''" st_state "\<lambda>_. None"]
    by simp
qed

lemma st_session: "map_of (ss_sessions st_state) ''session-1'' = Some \<lparr>rs_Bucket = ''b'', rs_Name = ''f'',
    rs_ContentType = [], rs_Buffer = [], rs_TotalSize = - 1\<rparr>"
  by (simp add: st_state_def)

theorem resumable_upload_assembles_chunks_witness:
  "\<exists>s' st'. send_chunks demo_hash st_env ''b'' ''session-1'' 0 5 [''ab'', ''c'', ''de''] st_mem st_state =
      ([308, 308, 200], s', st') \<and> mem_lookup s' (objectDataNamespace ''b'') ''f'' = Some (RawB ''abcde'')"
  using resumable_upload_assembles_chunks [OF st_mem_facts(1) st_session, of "[''ab'', ''c'', ''de'']" "''abcde''" demo_hash st_env]
  by (simp add: numeral_2_eq_2 [symmetric]) (auto simp: eval_nat_numeral)

theorem out_of_order_chunk_ignored_witness:
  "uploadResumableData demo_hash st_env (chunk_req ''b'' ''session-1'' 2 5 ''c'') ''b'' ''session-1'' st_mem st_state =
    (writeResumableStatus ''session-1'' \<lparr>rs_Bucket = ''b'', rs_Name = ''f'', rs_ContentType = [], rs_Buffer = [],
       rs_TotalSize = - 1\<rparr>, st_mem, st_state)"
  using out_of_order_chunk_ignored [OF st_session, of "''c''" 2 5 demo_hash st_env st_mem] by simp

theorem bucket_delete_cascades_witness:
  "\<exists>s'. bucketOp st_env (download_req ''b'' []\<lparr>r_method := DELETE\<rparr>) ''b'' st_mem = (header_only 204, s') \<and>
    mem_lookup s' nsBuckets ''b'' = None"
proof -
  obtain d where d: "Get st_mem nsBuckets ''b'' = Inr d" using st_mem_facts(2) by blast
  show ?thesis
    using bucket_delete_cascades [OF st_mem_facts(3,1,4) d, of "download_req ''b'' []\<lparr>r_method := DELETE\<rparr>" nsBuckets "''b''"]
    by auto
qed

end
