(* ===== verification/Gateway.thy ===== *)
theory Gateway
  imports Api_Services Health Cloud_Storage_Upload Cloud_Logging
begin

text \<open>
  Package \<^verbatim>\<open>internal/gateway\<close>: how a versioned request finds its service, the IAM verbs that every resource has, and
  \<^verbatim>\<open>/admin/reset\<close>.  The construction of the server, its multiplexer and its shutdown are in \<open>Gateway_Server\<close>.  Shown: the service a
  path belongs to depends on the path only, not on the order in which the handlers are asked; a request leaves
  all other services as they are; a reset clears its namespaces and nothing else.
\<close>

section \<open>The gateway and the libraries of its services\<close>

record gw_lib =
  gl_rfc :: "string \<Rightarrow> time option"
  gl_sha1 :: "json \<Rightarrow> string"
  gl_rnd :: rand_read
  gl_sign :: "string \<Rightarrow> string + string"
  gl_cron :: cron_lib
  gl_world :: run_world

text \<open>A service that is not enabled is \<open>None\<close>, the \<^verbatim>\<open>nil\<close> of the code.\<close>

record gateway =
  g_store :: mem
  g_pubsub :: "pubsub option"
  g_sm :: "verSeq option"
  g_tasks :: "tasks_state option"
  g_sched :: "scheduler option"
  g_kms :: "unit option"
  g_mon :: "nat option"
  g_run :: "cr_runner option"
  g_funcs :: "cr_runner option"
  g_iamc :: "meta_service option"
  g_iamSA :: "unit option"

type_synonym gw_handler = "http_req \<Rightarrow> string list \<Rightarrow> gateway \<Rightarrow> (http_resp \<times> gateway) option"

text \<open>A service's handler as a handler of the gateway.\<close>

definition via :: "'st api_handler \<Rightarrow> (gateway \<Rightarrow> 'st option) \<Rightarrow> ('st \<Rightarrow> gateway \<Rightarrow> gateway) \<Rightarrow> gw_handler" where
  "via h get put r parts g = (case get g of None \<Rightarrow> None
     | Some st \<Rightarrow> (case h r parts (g_store g) st of None \<Rightarrow> None
         | Some (resp, s', st') \<Rightarrow> Some (resp, put st' (g\<lparr>g_store := s'\<rparr>))))"

definition h_iamSA :: "gw_lib \<Rightarrow> go_env \<Rightarrow> gw_handler" where
  "h_iamSA L e = via (stateless (iamadmin_HandleV1 (gl_rnd L) e)) g_iamSA (\<lambda>st g. g\<lparr>g_iamSA := Some st\<rparr>)"

definition h_pubsub :: "gw_lib \<Rightarrow> go_env \<Rightarrow> gw_handler" where
  "h_pubsub L e = via (pubsub_HandleV1 (gl_rfc L) e) g_pubsub (\<lambda>st g. g\<lparr>g_pubsub := Some st\<rparr>)"

definition h_sm :: "gw_lib \<Rightarrow> go_env \<Rightarrow> gw_handler" where
  "h_sm L e = via (sm_HandleV1 (gl_rfc L) e) g_sm (\<lambda>st g. g\<lparr>g_sm := Some st\<rparr>)"

definition h_sched :: "gw_lib \<Rightarrow> go_env \<Rightarrow> gw_handler" where
  "h_sched L e = via (scheduler_HandleV1 (gl_cron L) e) g_sched (\<lambda>st g. g\<lparr>g_sched := Some st\<rparr>)"

definition h_kms :: "gw_lib \<Rightarrow> go_env \<Rightarrow> gw_handler" where
  "h_kms L e = via (stateless (kms_HandleV1 (gl_rfc L) (gl_rnd L) e)) g_kms (\<lambda>st g. g\<lparr>g_kms := Some st\<rparr>)"

definition h_iamc :: "gw_lib \<Rightarrow> go_env \<Rightarrow> gw_handler" where
  "h_iamc L e r parts g = (case g_iamc g of None \<Rightarrow> None
     | Some ms \<Rightarrow> map_option (\<lambda>resp. (resp, g)) (iamc_HandleV1 (gl_sign L) e ms r parts))"

definition h_tasks :: "gw_lib \<Rightarrow> go_env \<Rightarrow> gw_handler" where
  "h_tasks L e = via (tasks_HandleV2 (gl_rfc L) e) g_tasks (\<lambda>st g. g\<lparr>g_tasks := Some st\<rparr>)"

definition h_run :: "gw_lib \<Rightarrow> go_env \<Rightarrow> gw_handler" where
  "h_run L e = via (cr_HandleV2 KindService (gl_rfc L) (gl_world L) e) g_run (\<lambda>st g. g\<lparr>g_run := Some st\<rparr>)"

definition h_funcs :: "gw_lib \<Rightarrow> go_env \<Rightarrow> gw_handler" where
  "h_funcs L e = via (cr_HandleV2 KindFunction (gl_rfc L) (gl_world L) e) g_funcs (\<lambda>st g. g\<lparr>g_funcs := Some st\<rparr>)"

definition h_mon :: "gw_lib \<Rightarrow> go_env \<Rightarrow> gw_handler" where
  "h_mon L e = via (mon_HandleV3 (gl_rfc L) e) g_mon (\<lambda>st g. g\<lparr>g_mon := Some st\<rparr>)"

section \<open>Dispatch\<close>

definition splitPath :: "string \<Rightarrow> string \<Rightarrow> string list" where
  "splitPath path pre = split_on (CHR ''/'') (trimPrefix path pre)"

definition handleIAMVerb :: "gw_lib \<Rightarrow> gw_handler" where
  "handleIAMVerb L r parts g =
    (if length parts < 4 then None
     else (case cut_last (CHR '':'') (last parts) of None \<Rightarrow> None
       | Some (name, action) \<Rightarrow>
          if \<not> IsVerb action then None
          else map_option (\<lambda>(resp, s'). (resp, g\<lparr>g_store := s'\<rparr>))
                 (iam_Handle (gl_sha1 L) r (join ''/'' (butlast parts @ [name])) action (g_store g))))"

fun first_claim :: "gw_handler list \<Rightarrow> gw_handler" where
  "first_claim [] r parts g = None"
| "first_claim (h # hs) r parts g = (case h r parts g of Some x \<Rightarrow> Some x | None \<Rightarrow> first_claim hs r parts g)"

definition v1_handlers :: "gw_lib \<Rightarrow> go_env \<Rightarrow> gateway \<Rightarrow> gw_handler list" where
  "v1_handlers L e g =
     (if g_iamSA g \<noteq> None then [h_iamSA L e] else []) @
     (if g_pubsub g \<noteq> None then [h_pubsub L e] else []) @
     (if g_sm g \<noteq> None then [h_sm L e] else []) @
     (if g_sched g \<noteq> None then [h_sched L e] else []) @
     (if g_kms g \<noteq> None then [h_kms L e] else []) @
     (if g_iamc g \<noteq> None then [h_iamc L e] else [])"

definition dispatchV1 :: "gw_lib \<Rightarrow> go_env \<Rightarrow> http_req \<Rightarrow> gateway \<Rightarrow> http_resp \<times> gateway" where
  "dispatchV1 L e r g = (let parts = splitPath (r_path r) ''/v1/'' in
     if length parts < 3 \<or> parts ! 0 \<noteq> ''projects'' then (http_notFound, g)
     else (case handleIAMVerb L r parts g of Some x \<Rightarrow> x
       | None \<Rightarrow> (case first_claim (v1_handlers L e g) r parts g of Some x \<Rightarrow> x | None \<Rightarrow> (http_notFound, g))))"

definition dispatchV2 :: "gw_lib \<Rightarrow> go_env \<Rightarrow> http_req \<Rightarrow> gateway \<Rightarrow> http_resp \<times> gateway" where
  "dispatchV2 L e r g = (let parts = splitPath (r_path r) ''/v2/'' in
     if length parts < 3 \<or> parts ! 0 \<noteq> ''projects'' then (http_notFound, g)
     else (case handleIAMVerb L r parts g of Some x \<Rightarrow> x
       | None \<Rightarrow> (case h_tasks L e r parts g of Some x \<Rightarrow> x
       | None \<Rightarrow> (case h_run L e r parts g of Some x \<Rightarrow> x
       | None \<Rightarrow> (case h_funcs L e r parts g of Some x \<Rightarrow> x | None \<Rightarrow> (http_notFound, g))))))"

definition dispatchV3 :: "gw_lib \<Rightarrow> go_env \<Rightarrow> http_req \<Rightarrow> gateway \<Rightarrow> http_resp \<times> gateway" where
  "dispatchV3 L e r g = (let parts = splitPath (r_path r) ''/v3/'' in
     if length parts < 3 \<or> parts ! 0 \<noteq> ''projects'' then (http_notFound, g)
     else (case h_mon L e r parts g of Some x \<Rightarrow> x | None \<Rightarrow> (http_notFound, g)))"

section \<open>Reset\<close>

definition reset_namespaces :: "string list" where
  "reset_namespaces = [''storage/buckets'', ''pubsub/topics'', ''pubsub/subscriptions'', ''secretmanager/secrets'',
     ''secretmanager/versions'', ''tasks/queues'', ''tasks/tasks'', ''scheduler/jobs'', ''kms/keyrings'', ''kms/cryptokeys'',
     iam_Namespace, NamespaceAccounts, NamespaceKeys]"

fun reset_keys :: "string \<Rightarrow> string list \<Rightarrow> mem \<Rightarrow> string option \<times> mem" where
  "reset_keys n [] s = (None, s)"
| "reset_keys n (k # ks) s = (case Delete s n k of
     Inl er \<Rightarrow> (Some (''delete '' @ n @ ''/'' @ k @ '': '' @ err_text er), s)
   | Inr s' \<Rightarrow> reset_keys n ks s')"

fun reset_all :: "go_env \<Rightarrow> string list \<Rightarrow> mem \<Rightarrow> string option \<times> mem" where
  "reset_all e [] s = (None, s)"
| "reset_all e (n # ns) s = (case List s n [] of
     Inl er \<Rightarrow> (Some (''list '' @ n @ '': '' @ err_text er), s)
   | Inr all \<Rightarrow> (case reset_keys n (map fst (e_range e all)) s of
       (Some er, s') \<Rightarrow> (Some er, s')
     | (None, s') \<Rightarrow> reset_all e ns s'))"

definition handleReset :: "go_env \<Rightarrow> http_req \<Rightarrow> gateway \<Rightarrow> http_resp \<times> gateway" where
  "handleReset e r g =
    (if r_method r \<noteq> POST then (http_error ''method not allowed'' 405, g)
     else (case reset_all e reset_namespaces (g_store g) of
        (Some er, s') \<Rightarrow> (http_error er 500, g\<lparr>g_store := s'\<rparr>)
      | (None, s') \<Rightarrow> (header_only 204, g\<lparr>g_store := s'\<rparr>)))"

section \<open>Which service a path belongs to\<close>

datatype service = SvcIam | SvcIamAdmin | SvcPubSub | SvcSecrets | SvcScheduler | SvcKms | SvcIamCreds
  | SvcTasks | SvcRun | SvcFunctions | SvcMonitoring

datatype version = V1 | V2 | V3

fun version_path :: "version \<Rightarrow> string" where
  "version_path V1 = ''/v1/''"
| "version_path V2 = ''/v2/''"
| "version_path V3 = ''/v3/''"

definition is_iam_verb :: "string list \<Rightarrow> bool" where
  "is_iam_verb parts \<longleftrightarrow> 4 \<le> length parts \<and>
     (case cut_last (CHR '':'') (last parts) of None \<Rightarrow> False | Some (_, action) \<Rightarrow> IsVerb action)"

definition owner :: "version \<Rightarrow> string list \<Rightarrow> service option" where
  "owner v parts =
    (if length parts < 3 \<or> parts ! 0 \<noteq> ''projects'' then None
     else if v \<noteq> V3 \<and> is_iam_verb parts then Some SvcIam
     else (case v of
       V1 \<Rightarrow> if at_project {''serviceAccounts''} parts
              then (if account_action parts then Some SvcIamCreds else Some SvcIamAdmin)
            else if at_project {''topics'', ''subscriptions''} parts then Some SvcPubSub
            else if at_project {''secrets''} parts then Some SvcSecrets
            else if at_location ''jobs'' parts then Some SvcScheduler
            else if at_location ''keyRings'' parts then Some SvcKms
            else None
     | V2 \<Rightarrow> if at_location ''queues'' parts then Some SvcTasks
            else if at_location (collectionSeg KindService) parts then Some SvcRun
            else if at_location (collectionSeg KindFunction) parts then Some SvcFunctions
            else None
     | V3 \<Rightarrow> if at_project {''timeSeries''} parts then Some SvcMonitoring else None))"

text \<open>The namespaces and the memory of a service, compared in two states of the gateway.\<close>

fun service_ns :: "service \<Rightarrow> string set" where
  "service_ns SvcIam = {iam_Namespace}"
| "service_ns SvcIamAdmin = ia_ns"
| "service_ns SvcPubSub = pubsub_ns"
| "service_ns SvcSecrets = sm_ns"
| "service_ns SvcScheduler = sched_ns"
| "service_ns SvcKms = kms_ns"
| "service_ns SvcIamCreds = {}"
| "service_ns SvcTasks = tasks_ns"
| "service_ns SvcRun = {nsServices}"
| "service_ns SvcFunctions = {nsFunctions}"
| "service_ns SvcMonitoring = mon_ns"

fun same_memory :: "service \<Rightarrow> gateway \<Rightarrow> gateway \<Rightarrow> bool" where
  "same_memory SvcPubSub g g' = (g_pubsub g' = g_pubsub g)"
| "same_memory SvcSecrets g g' = (g_sm g' = g_sm g)"
| "same_memory SvcScheduler g g' = (g_sched g' = g_sched g)"
| "same_memory SvcTasks g g' = (g_tasks g' = g_tasks g)"
| "same_memory SvcRun g g' = (g_run g' = g_run g)"
| "same_memory SvcFunctions g g' = (g_funcs g' = g_funcs g)"
| "same_memory SvcMonitoring g g' = (g_mon g' = g_mon g)"
| "same_memory SvcIamAdmin g g' = (g_iamSA g' = g_iamSA g)"
| "same_memory SvcKms g g' = (g_kms g' = g_kms g)"
| "same_memory SvcIamCreds g g' = (g_iamc g' = g_iamc g)"
| "same_memory SvcIam g g' = True"

text \<open>\<open>touches o g g'\<close>: at most the service \<open>o\<close> has changed.\<close>

definition touches :: "service option \<Rightarrow> gateway \<Rightarrow> gateway \<Rightarrow> bool" where
  "touches ow g g' \<longleftrightarrow> only_ns (case ow of None \<Rightarrow> {} | Some x \<Rightarrow> service_ns x) (g_store g) (g_store g') \<and>
     (\<forall>s. ow \<noteq> Some s \<longrightarrow> same_memory s g g')"

lemma touches_refl [simp]: "touches ow g g \<longleftrightarrow> mem_ok (g_store g)"
proof -
  have "same_memory s g g" for s by (cases s) auto
  then show ?thesis by (simp add: touches_def)
qed

lemma service_ns_disjoint: "x \<noteq> y \<Longrightarrow> service_ns x \<inter> service_ns y = {}"
  by (cases x; cases y) (simp_all add: ia_ns_def pubsub_ns_def sm_ns_def sched_ns_def kms_ns_def tasks_ns_def mon_ns_def ns_defs)

text \<open>
  One rule for every service: a handler with the contract \<open>api_service\<close> changes only the memory it is
  given and its own namespaces.
\<close>

definition answers_for :: "service \<Rightarrow> (string list \<Rightarrow> bool) \<Rightarrow> gw_handler \<Rightarrow> bool" where
  "answers_for x cl h \<longleftrightarrow> (\<forall>r parts g resp g'. mem_ok (g_store g) \<longrightarrow> h r parts g = Some (resp, g') \<longrightarrow>
     touches (Some x) g g' \<and> cl parts)"

lemma via_answers:
  assumes "api_service h (service_ns x) cl"
    and "\<And>st s g y. y \<noteq> x \<Longrightarrow> same_memory y g (put st (g\<lparr>g_store := s\<rparr>))"
    and "\<And>st s g. g_store (put st (g\<lparr>g_store := s\<rparr>)) = s"
  shows "answers_for x cl (via h get put)"
  unfolding answers_for_def
proof (intro allI impI)
  fix r parts g resp g'
  assume ok: "mem_ok (g_store g)" and "via h get put r parts g = Some (resp, g')"
  then obtain st s' st' where h: "h r parts (g_store g) st = Some (resp, s', st')" "g' = put st' (g\<lparr>g_store := s'\<rparr>)"
    by (auto simp: via_def split: option.splits)
  with assms(2,3) ok api_service.confined [OF assms(1)] have "touches (Some x) g g'" by (auto simp: touches_def)
  moreover have "cl parts" using h(1) api_service.claimed [OF assms(1)] by blast
  ultimately show "touches (Some x) g g' \<and> cl parts" ..
qed

lemma memory_frames [simp]:
  "same_memory y g (g\<lparr>g_store := s\<rparr>)"
  "y \<noteq> SvcIamAdmin \<Longrightarrow> same_memory y g (g\<lparr>g_store := s, g_iamSA := f\<rparr>)"
  "y \<noteq> SvcPubSub \<Longrightarrow> same_memory y g (g\<lparr>g_store := s, g_pubsub := a\<rparr>)"
  "y \<noteq> SvcSecrets \<Longrightarrow> same_memory y g (g\<lparr>g_store := s, g_sm := b\<rparr>)"
  "y \<noteq> SvcScheduler \<Longrightarrow> same_memory y g (g\<lparr>g_store := s, g_sched := c\<rparr>)"
  "y \<noteq> SvcKms \<Longrightarrow> same_memory y g (g\<lparr>g_store := s, g_kms := f\<rparr>)"
  "y \<noteq> SvcTasks \<Longrightarrow> same_memory y g (g\<lparr>g_store := s, g_tasks := d\<rparr>)"
  "y \<noteq> SvcRun \<Longrightarrow> same_memory y g (g\<lparr>g_store := s, g_run := rn\<rparr>)"
  "y \<noteq> SvcFunctions \<Longrightarrow> same_memory y g (g\<lparr>g_store := s, g_funcs := rn\<rparr>)"
  "y \<noteq> SvcMonitoring \<Longrightarrow> same_memory y g (g\<lparr>g_store := s, g_mon := q\<rparr>)"
  by (cases y; simp)+

lemma handlers_answer:
  "answers_for SvcIamAdmin (\<lambda>p. at_project {''serviceAccounts''} p \<and> \<not> account_action p) (h_iamSA L e)"
  "answers_for SvcPubSub (at_project {''topics'', ''subscriptions''}) (h_pubsub L e)"
  "answers_for SvcSecrets (at_project {''secrets''}) (h_sm L e)"
  "answers_for SvcScheduler (at_location ''jobs'') (h_sched L e)"
  "answers_for SvcKms (at_location ''keyRings'') (h_kms L e)"
  "answers_for SvcTasks (at_location ''queues'') (h_tasks L e)"
  "answers_for SvcRun (at_location (collectionSeg KindService)) (h_run L e)"
  "answers_for SvcFunctions (at_location (collectionSeg KindFunction)) (h_funcs L e)"
  "answers_for SvcMonitoring (at_project {''timeSeries''}) (h_mon L e)"
  unfolding h_iamSA_def h_pubsub_def h_sm_def h_sched_def h_kms_def h_tasks_def h_run_def h_funcs_def h_mon_def
  by (rule via_answers;
      simp add: ia_api.api_service_axioms pubsub_api.api_service_axioms sm_api.api_service_axioms sched_api.api_service_axioms
        kms_api.api_service_axioms tasks_api.api_service_axioms mon_api.api_service_axioms
        run_api.api_service_axioms [of KindService, simplified] run_api.api_service_axioms [of KindFunction, simplified])+

lemma h_iamc_answers: "answers_for SvcIamCreds (\<lambda>p. at_project {''serviceAccounts''} p \<and> account_action p) (h_iamc L e)"
proof -
  have "at_project {''serviceAccounts''} p \<and> account_action p" if "iamc_HandleV1 (gl_sign L) e ms r p = Some resp" for ms r p resp
    using iamc_api.claimed [of "gl_sign L" e ms r p NewMemory "()"] that by (simp add: storeless_def)
  then show ?thesis by (auto simp: answers_for_def h_iamc_def split: option.splits)
qed

lemma iam_verb_answers: "answers_for SvcIam is_iam_verb (handleIAMVerb L)"
proof -
  have "only_ns {iam_Namespace} s s'" if "mem_ok s" "iam_Handle sha r n a s = Some (resp, s')" for sha r n a s resp s'
    using that by (auto simp: iam_Handle_def iam_handleGet_def iam_handleSet_def iam_handleTest_def iam_Set_def Let_def
        split: if_splits option.splits sum.splits prod.splits)
  then show ?thesis
    by (auto simp: answers_for_def handleIAMVerb_def is_iam_verb_def touches_def split: if_splits option.splits)
qed

lemma iam_verb_declines: "handleIAMVerb L r parts g = None \<longleftrightarrow> \<not> is_iam_verb parts"
  by (auto simp: handleIAMVerb_def is_iam_verb_def IsVerb_def iam_Handle_def split: option.splits)

lemma first_claim_Some: "first_claim hs r p g = Some y \<Longrightarrow> \<exists>h\<in>set hs. h r p g = Some y"
  by (induction hs) (auto split: option.splits)

lemma first_claim_None: "first_claim hs r p g = None \<longleftrightarrow> (\<forall>h\<in>set hs. h r p g = None)"
  by (induction hs) (auto split: option.splits)

text \<open>When no two handlers answer differently, only the set of handlers matters.\<close>

lemma first_claim_agree:
  assumes "\<And>h h' y y'. h \<in> set hs \<Longrightarrow> h' \<in> set hs \<Longrightarrow> h r p g = Some y \<Longrightarrow> h' r p g = Some y' \<Longrightarrow> y = y'"
    and "set hs' = set hs"
  shows "first_claim hs' r p g = first_claim hs r p g"
proof (cases "first_claim hs r p g")
  case None
  then have "first_claim hs' r p g = None" using assms(2) by (simp add: first_claim_None)
  with None show ?thesis by simp
next
  case (Some y)
  then obtain h where h: "h \<in> set hs" "h r p g = Some y" using first_claim_Some by blast
  then have "first_claim hs' r p g \<noteq> None" using assms(2) first_claim_None [of hs' r p g] by fastforce
  then obtain y' h' where "first_claim hs' r p g = Some y'" "h' \<in> set hs" "h' r p g = Some y'"
    using first_claim_Some assms(2) by (metis not_None_eq)
  with h assms(1) Some show ?thesis by metis
qed

lemma answersD:
  "answers_for x cl h \<Longrightarrow> mem_ok (g_store g) \<Longrightarrow> h r p g = Some y \<Longrightarrow> touches (Some x) g (snd y) \<and> cl p"
  by (cases y) (auto simp: answers_for_def)

lemma claims_owner:
  assumes "\<not> is_iam_verb p" "3 \<le> length p" "p ! 0 = ''projects''"
  shows "at_project {''serviceAccounts''} p \<and> \<not> account_action p \<Longrightarrow> owner V1 p = Some SvcIamAdmin"
    and "at_project {''topics'', ''subscriptions''} p \<Longrightarrow> owner V1 p = Some SvcPubSub"
    and "at_project {''secrets''} p \<Longrightarrow> owner V1 p = Some SvcSecrets"
    and "at_location ''jobs'' p \<Longrightarrow> owner V1 p = Some SvcScheduler"
    and "at_location ''keyRings'' p \<Longrightarrow> owner V1 p = Some SvcKms"
    and "at_project {''serviceAccounts''} p \<and> account_action p \<Longrightarrow> owner V1 p = Some SvcIamCreds"
    and "at_location ''queues'' p \<Longrightarrow> owner V2 p = Some SvcTasks"
    and "at_location (collectionSeg KindService) p \<Longrightarrow> owner V2 p = Some SvcRun"
    and "at_location (collectionSeg KindFunction) p \<Longrightarrow> owner V2 p = Some SvcFunctions"
  using assms by (auto simp: owner_def at_project_def at_location_def)

text \<open>The service that a handler of the list answers for.\<close>

lemma v1_handler_owner:
  assumes "mem_ok (g_store g)" "h \<in> set (v1_handlers L e g)" "h r p g = Some y" "\<not> is_iam_verb p" "3 \<le> length p" "p ! 0 = ''projects''"
  shows "\<exists>x. owner V1 p = Some x \<and> touches (Some x) g (snd y)"
proof -
  consider "h = h_iamSA L e" | "h = h_pubsub L e" | "h = h_sm L e" | "h = h_sched L e" | "h = h_kms L e" | "h = h_iamc L e"
    using assms(2) by (auto simp: v1_handlers_def split: if_splits)
  then obtain x cl where a: "answers_for x cl h" and o: "cl p \<Longrightarrow> owner V1 p = Some x"
    using handlers_answer(1-5) [of L e] h_iamc_answers [of L e] claims_owner(1-6) [OF assms(4-6)] by cases blast+
  from answersD [OF a assms(1,3)] o show ?thesis by blast
qed

lemma v1_handlers_agree:
  assumes "mem_ok (g_store g)" "h \<in> set (v1_handlers L e g)" "h' \<in> set (v1_handlers L e g)" "h r p g = Some y" "h' r p g = Some y'"
  shows "y = y'"
proof -
  note cl = handlers_answer(1-5) [THEN answersD, OF assms(1), THEN conjunct2] h_iamc_answers [THEN answersD, OF assms(1), THEN conjunct2]
  have "h = h'"
    using assms(2-5) by (auto simp: v1_handlers_def at_project_def at_location_def split: if_splits dest!: cl)
  with assms(4,5) show ?thesis by simp
qed

definition dispatch_version :: "gw_lib \<Rightarrow> go_env \<Rightarrow> version \<Rightarrow> http_req \<Rightarrow> gateway \<Rightarrow> http_resp \<times> gateway" where
  "dispatch_version L e v = (case v of V1 \<Rightarrow> dispatchV1 L e | V2 \<Rightarrow> dispatchV2 L e | V3 \<Rightarrow> dispatchV3 L e)"

definition path_owner :: "version \<Rightarrow> http_req \<Rightarrow> service option" where
  "path_owner v r = owner v (splitPath (r_path r) (version_path v))"

lemma iam_verb_owner: "is_iam_verb p \<Longrightarrow> p ! 0 = ''projects'' \<Longrightarrow> v \<noteq> V3 \<Longrightarrow> owner v p = Some SvcIam"
  by (simp add: owner_def is_iam_verb_def)

lemma dispatchV1_touches:
  assumes "mem_ok (g_store g)" "dispatchV1 L e r g = (resp, g')"
  shows "g' = g \<or> touches (path_owner V1 r) g g'"
proof -
  define p where "p = splitPath (r_path r) ''/v1/''"
  show ?thesis
  proof (cases "length p < 3 \<or> p ! 0 \<noteq> ''projects''")
    case False
    show ?thesis
    proof (cases "handleIAMVerb L r p g")
      case None
      with False assms(2) have "g' = g \<or> first_claim (v1_handlers L e g) r p g = Some (resp, g')"
        by (auto simp: dispatchV1_def Let_def p_def split: option.splits)
      moreover have p: "\<not> is_iam_verb p" "3 \<le> length p" "p ! 0 = ''projects''"
        using None False by (simp_all add: iam_verb_declines)
      ultimately show ?thesis
        using first_claim_Some v1_handler_owner [OF assms(1) _ _ p]
        unfolding path_owner_def version_path.simps p_def [symmetric] by (metis snd_conv)
    next
      case (Some y)
      with False assms(2) have "y = (resp, g')" by (auto simp: dispatchV1_def Let_def p_def)
      with answersD [OF iam_verb_answers assms(1) Some] False show ?thesis
        by (simp add: iam_verb_owner path_owner_def p_def)
    qed
  qed (use assms(2) in \<open>simp add: dispatchV1_def p_def\<close>)
qed

lemma dispatchV2_touches:
  assumes "mem_ok (g_store g)" "dispatchV2 L e r g = (resp, g')"
  shows "g' = g \<or> touches (path_owner V2 r) g g'"
proof -
  define p where "p = splitPath (r_path r) ''/v2/''"
  show ?thesis
  proof (cases "length p < 3 \<or> p ! 0 \<noteq> ''projects''")
    case False
    show ?thesis
    proof (cases "handleIAMVerb L r p g")
      case None
      with False assms(2) consider "g' = g" | "h_tasks L e r p g = Some (resp, g')" | "h_run L e r p g = Some (resp, g')"
        | "h_funcs L e r p g = Some (resp, g')"
        by (auto simp: dispatchV2_def Let_def p_def split: option.splits)
      moreover have p: "\<not> is_iam_verb p" "3 \<le> length p" "p ! 0 = ''projects''"
        using None False by (simp_all add: iam_verb_declines)
      ultimately show ?thesis
        using answersD [OF handlers_answer(6) assms(1), of L e r p "(resp, g')"] claims_owner(7) [OF p]
          answersD [OF handlers_answer(7) assms(1), of L e r p "(resp, g')"] claims_owner(8) [OF p]
          answersD [OF handlers_answer(8) assms(1), of L e r p "(resp, g')"] claims_owner(9) [OF p]
        unfolding path_owner_def version_path.simps p_def [symmetric] snd_conv by cases metis+
    next
      case (Some y)
      with False assms(2) have "y = (resp, g')" by (auto simp: dispatchV2_def Let_def p_def)
      with answersD [OF iam_verb_answers assms(1) Some] False show ?thesis
        by (simp add: iam_verb_owner path_owner_def p_def)
    qed
  qed (use assms(2) in \<open>simp add: dispatchV2_def p_def\<close>)
qed

lemma dispatchV3_touches:
  assumes "mem_ok (g_store g)" "dispatchV3 L e r g = (resp, g')"
  shows "g' = g \<or> touches (path_owner V3 r) g g'"
proof -
  define p where "p = splitPath (r_path r) ''/v3/''"
  consider "g' = g" | "3 \<le> length p" "p ! 0 = ''projects''" "h_mon L e r p g = Some (resp, g')"
    using assms(2) by (auto simp: dispatchV3_def Let_def p_def split: if_splits option.splits)
  then show ?thesis
    using handlers_answer(9) [THEN answersD, OF assms(1), of L e r p "(resp, g')"]
    by cases (auto simp: path_owner_def owner_def p_def)
qed

lemma dispatch_touches:
  assumes "mem_ok (g_store g)"
  shows "touches (path_owner v r) g (snd (dispatch_version L e v r g))"
  using assms dispatchV1_touches [OF assms, of L e r] dispatchV2_touches [OF assms, of L e r] dispatchV3_touches [OF assms, of L e r]
  by (cases v) (auto simp: dispatch_version_def, (metis prod.collapse touches_refl)+)

text \<open>
  Which service answers a request does not depend on the order in which the gateway asks the services: any
  rearrangement of the list of handlers gives the same answer and the same state, because no two services
  claim the same path.
\<close>

theorem v1_order_irrelevant:
  assumes "mem_ok (g_store g)" "mset hs = mset (v1_handlers L e g)"
  shows "first_claim hs r parts g = first_claim (v1_handlers L e g) r parts g"
proof (rule first_claim_agree)
  show "set hs = set (v1_handlers L e g)" using assms(2) by (metis set_mset_mset)
qed (rule v1_handlers_agree [OF assms(1)])

fun serve_all :: "gw_lib \<Rightarrow> (go_env \<times> version \<times> http_req) list \<Rightarrow> gateway \<Rightarrow> gateway" where
  "serve_all L [] g = g"
| "serve_all L ((e, v, r) # rs) g = serve_all L rs (snd (dispatch_version L e v r g))"

text \<open>
  Services do not interfere.  However many requests are served, a service to which none of their paths belongs
  keeps every document of its namespaces and all of its memory: queues, counters, runners and processes.
\<close>

theorem other_services_undisturbed:
  assumes "mem_ok (g_store g)" "\<forall>(e, v, r)\<in>set reqs. path_owner v r \<noteq> Some x"
  shows "same_memory x g (serve_all L reqs g) \<and>
    (\<forall>n\<in>service_ns x. mem_lookup (g_store (serve_all L reqs g)) n = mem_lookup (g_store g) n)"
  using assms
proof (induction L reqs g rule: serve_all.induct)
  case (1 L g)
  then show ?case by (cases x) auto
next
  case (2 L e v r rs g)
  let ?g = "snd (dispatch_version L e v r g)"
  have t: "touches (path_owner v r) g ?g" using dispatch_touches 2(2) by blast
  have x: "path_owner v r \<noteq> Some x" using 2(3) by auto
  from t x have "same_memory x g ?g" by (simp add: touches_def)
  moreover have "mem_lookup (g_store ?g) n = mem_lookup (g_store g) n" if "n \<in> service_ns x" for n
    using t x that service_ns_disjoint [of x "the (path_owner v r)"] by (cases "path_owner v r") (auto simp: touches_def only_ns_def)
  moreover have "mem_ok (g_store ?g)" using t by (simp add: touches_def only_ns_def)
  moreover note 2(1)
  ultimately show ?case using 2(3) by (cases x) auto
qed

section \<open>What a reset does\<close>

lemma reset_keys_all:
  "mem_ok s \<Longrightarrow> distinct ks \<Longrightarrow> \<forall>k\<in>set ks. mem_lookup s n k \<noteq> None \<Longrightarrow> reset_keys n ks s = (None, delete_all s n ks)"
proof (induction n ks s rule: reset_keys.induct)
  case (2 n k ks s)
  then have "Delete s n k = Inr (mdel s n k)" by (auto simp: Delete_cases)
  moreover have "\<forall>j\<in>set ks. mem_lookup (mdel s n k) n j \<noteq> None" using 2(2-4) by auto
  ultimately show ?case using 2 by simp
qed simp

lemma reset_all_clears:
  assumes "env_ok e" "mem_ok s"
  shows "\<exists>s'. reset_all e ns s = (None, s') \<and> mem_ok s' \<and>
    mem_lookup s' = (\<lambda>n k. if n \<in> set ns then None else mem_lookup s n k)"
  using assms(2)
proof (induction ns arbitrary: s)
  case (Cons n ns)
  let ?ks = "map fst (e_range e (mlist s n []))"
  have "map_of (e_range e (mlist s n [])) = mem_lookup s n"
    using env_ok_map_of [OF assms(1) mlist_distinct] map_of_mlist [of s n "[]"] Cons(2) by simp
  then have ks: "distinct ?ks" "set ?ks = dom (mem_lookup s n)"
    using env_ok_distinct [OF assms(1) mlist_distinct] Cons(2) by (simp, metis dom_map_of_conv_image_fst list.set_map)
  have "reset_keys n ?ks s = (None, delete_all s n ?ks)"
    using reset_keys_all [OF Cons(2) ks(1)] ks(2) by blast
  moreover have "mem_ok (delete_all s n ?ks)" using Cons(2) by simp
  moreover have "mem_lookup (delete_all s n ?ks) = (\<lambda>n' k. if n' = n then None else mem_lookup s n' k)"
    using Cons(2) ks(2) by (auto simp: fun_eq_iff domIff)
  ultimately show ?case
    using Cons(1) [of "delete_all s n ?ks"] by (auto simp: fun_eq_iff)
qed auto

text \<open>
  A POST to the reset endpoint answers 204 and removes every document of the listed namespaces; every document of any
  other namespace (objects and their data, log entries, time series, Cloud Run services) and all memory of the services stays.
\<close>

theorem reset_clears_exactly:
  assumes "env_ok e" "mem_ok (g_store g)" "r_method r = POST"
  shows "\<exists>s'. handleReset e r g = (header_only 204, g\<lparr>g_store := s'\<rparr>) \<and> mem_ok s' \<and>
    (\<forall>n k. mem_lookup s' n k = (if n \<in> set reset_namespaces then None else mem_lookup (g_store g) n k))"
  using reset_all_clears [OF assms(1,2), of reset_namespaces] assms(3) by (auto simp: handleReset_def)

text \<open>
  Messages survive a reset.  After a reset the topic and the subscription can be created again under their names, and a
  pull from the new subscription returns the messages that were published before the reset.
\<close>

theorem reset_keeps_messages:
  assumes "env_ok e" "mem_ok (g_store g)" "r_method r = POST" "g_pubsub g = Some p" "handleReset e r g = (resp, g')"
  shows "g_pubsub g' = Some p \<and> (\<exists>s1 s2 out p'.
    CreateTopic (g_store g') topic = Inr s1 \<and> CreateSubscription s1 p n topic d [] = Inr (s2, p) \<and>
    PullMessages e' s2 p n limit = (Inr out, p') \<and>
    map rc_Message out = take (pull_limit limit) (map content (filter (\<lambda>m. available m (e_now e' 0)) (ps_queues p n))))"
proof -
  obtain s' where s': "g' = g\<lparr>g_store := s'\<rparr>" "mem_ok s'"
    "mem_lookup s' = (\<lambda>n k. if n \<in> set reset_namespaces then None else mem_lookup (g_store g) n k)"
    using reset_all_clears [OF assms(1,2), of reset_namespaces] assms(3,5) by (auto simp: handleReset_def)
  then have none: "mem_lookup s' nsTopics k = None" "mem_lookup s' nsSubscriptions k = None" for k
    by (simp_all add: reset_namespaces_def nsTopics_def nsSubscriptions_def)
  define s1 where "s1 = mput s' nsTopics topic (JsonB (enc_topic \<lparr>topic_Name = topic\<rparr>))"
  have ct: "CreateTopic s' topic = Inr s1"
    using none s'(2) by (simp add: CreateTopic_def putTopic_def Get_lookup s1_def)
  obtain s2 b where cs: "CreateSubscription s1 p n topic d [] = Inr (s2, p)" "Get s2 nsSubscriptions n = Inr b"
    using none s'(2) by (auto simp: CreateSubscription_def putSubscription_def Get_lookup s1_def ns_defs Let_def)
  obtain out q a where "pull_loop (e_now e' 0) (pull_deadline e' b) (pull_limit limit) (ps_ackSeq p) (ps_queues p n) = (out, q, a)"
    "PullMessages e' s2 p n limit = (Inr out, p\<lparr>ps_ackSeq := a, ps_queues := (ps_queues p)(n := q)\<rparr>)"
    using PullMessages_loop [OF cs(2)] by blast
  with ct cs(1) s'(1) assms(4) pull_loop_queue show ?thesis by fastforce
qed

section \<open>Start\<close>

text \<open>
  The states that \<^verbatim>\<open>New\<close> registers, in its order, when every constructor succeeds.  Cloud Storage and Pub/Sub pass through
  the state \<^verbatim>\<open>starting\<close>.
\<close>

definition configured :: "Config \<Rightarrow> (string \<times> bool) list" where
  "configured cfg = (let sv = Services cfg in
    [(''storage'', Storage_Enabled sv), (''pubsub'', PubSub_Enabled sv), (''secretmanager'', SecretManager_Enabled sv),
     (''tasks'', Tasks_Enabled sv), (''scheduler'', Scheduler_Enabled sv), (''kms'', KMS_Enabled sv), (''logging'', Logging_Enabled sv),
     (''monitoring'', Monitoring_Enabled sv), (''firestore'', Firestore_Enabled sv), (''bigquery'', BigQuery_Enabled sv),
     (''bigtable'', Bigtable_Enabled sv), (''spanner'', Spanner_Enabled sv), (''memorystore'', Memorystore_Enabled sv),
     (''cloudsql'', CloudSQL_Enabled sv), (''cloudrun'', CloudRun_Enabled sv), (''functions'', Functions_Enabled sv),
     (''metadata'', Metadata_Enabled sv), (''iamcredentials'', Metadata_Enabled sv)])"

definition starts_slowly :: "string \<Rightarrow> bool" where
  "starts_slowly name \<longleftrightarrow> name = ''storage'' \<or> name = ''pubsub''"

definition register_one :: "string \<Rightarrow> bool \<Rightarrow> Registry \<Rightarrow> Registry" where
  "register_one name enabled h = (if \<not> enabled then h
     else Registry_Set (if starts_slowly name then Registry_Set h name StatusStarting else h) name StatusReady)"

fun register_services :: "(string \<times> bool) list \<Rightarrow> Registry \<Rightarrow> Registry" where
  "register_services [] h = h"
| "register_services ((name, enabled) # rest) h = register_services rest (register_one name enabled h)"

definition New_health :: "Config \<Rightarrow> Registry" where
  "New_health cfg = register_services (configured cfg) (Registry_Set new_Registry ''iamadmin'' StatusReady)"

definition all_ready :: "Registry \<Rightarrow> bool" where
  "all_ready h \<longleftrightarrow> registry_ok h \<and> services h \<noteq> [] \<and> (\<forall>n s. Registry_Lookup h n = Some s \<longrightarrow> s = StatusReady)"

lemma Set_nonempty [simp]: "services (Registry_Set h n s) \<noteq> []"
  using set_all_Nil [of h "[(n, s)]"] by simp

lemma register_one_ready:
  assumes "all_ready h"
  shows "all_ready (register_one m b h)"
    and "Registry_Lookup (register_one m b h) n \<noteq> None \<longleftrightarrow> Registry_Lookup h n \<noteq> None \<or> (b \<and> n = m)"
  using assms by (simp_all add: all_ready_def register_one_def)

lemma register_services_ready:
  "all_ready h \<Longrightarrow> all_ready (register_services cs h) \<and>
    (Registry_Lookup (register_services cs h) n \<noteq> None \<longleftrightarrow> Registry_Lookup h n \<noteq> None \<or> (n, True) \<in> set cs)"
proof (induction cs h rule: register_services.induct)
  case (2 m b rest h)
  then show ?case using register_one_ready [OF 2(2), of m b] by auto
qed simp

text \<open>
  A gateway that has started is healthy whatever the configuration: \<^verbatim>\<open>/healthz\<close> answers 200, and it lists a service exactly
  when the configuration enables it; the IAM admin service is always there and the IAM credentials service comes with the metadata server.
\<close>

theorem started_gateway_healthy:
  "rs_code (health_Handler (New_health cfg)) = 200 \<and>
   (Registry_Lookup (New_health cfg) n \<noteq> None \<longleftrightarrow> n = ''iamadmin'' \<or> (n, True) \<in> set (configured cfg))"
proof -
  have none: "Registry_Lookup new_Registry m = None" for m by (simp add: Registry_Lookup_def new_Registry_def)
  then have "all_ready (Registry_Set new_Registry ''iamadmin'' StatusReady)" by (auto simp: all_ready_def split: if_splits)
  note r = register_services_ready [OF this, of "configured cfg" n, folded New_health_def]
  then have "list_all (\<lambda>(k, v). v = StatusReady) (services (New_health cfg))"
    unfolding all_ready_def using all_ready_lookup by fastforce
  then have "snd (snapshot (New_health cfg))" using r by (simp add: snapshot_ready all_ready_def)
  then have "rs_code (health_Handler (New_health cfg)) = 200" by (auto simp: health_Handler_def split: prod.splits)
  with r none show ?thesis by auto
qed

section \<open>Witnesses\<close>

definition demo_lib :: gw_lib where
  "demo_lib = \<lparr>gl_rfc = (\<lambda>_. None), gl_sha1 = (\<lambda>_. []), gl_rnd = (\<lambda>n. Inr (replicate n (CHR ''x''))), gl_sign = Inr,
     gl_cron = cron_every, gl_world = leak_world 1\<rparr>"

definition demo_gw :: gateway where
  "demo_gw = \<lparr>g_store = demo_mem, g_pubsub = Some demo_ps, g_sm = Some (\<lambda>_. 0), g_tasks = None, g_sched = None, g_kms = Some (),
     g_mon = None, g_run = Some newRunner, g_funcs = Some newRunner, g_iamc = None, g_iamSA = Some ()\<rparr>"

definition demo_req :: "meth \<Rightarrow> string \<Rightarrow> http_req" where
  "demo_req m path = \<lparr>r_method = m, r_path = path, r_query = [], r_header = [], r_host = [], r_tls = False,
     r_contentLength = 0, r_bytes = [], r_json = Some (JObj [])\<rparr>"

lemma demo_gw_ok: "mem_ok (g_store demo_gw)"
  by (simp add: demo_gw_def demo_mem_ok)

theorem v1_order_irrelevant_witness:
  "first_claim (rev (v1_handlers demo_lib (env_at 0) demo_gw)) (demo_req GET []) [''projects'', ''p'', ''secrets''] demo_gw =
    first_claim (v1_handlers demo_lib (env_at 0) demo_gw) (demo_req GET []) [''projects'', ''p'', ''secrets''] demo_gw"
  by (rule v1_order_irrelevant [OF demo_gw_ok]) simp

theorem other_services_undisturbed_witness:
  "g_pubsub (serve_all demo_lib [(env_at 0, V1, demo_req POST ''/v1/projects/p/secrets''),
      (env_at 0, V1, demo_req GET ''/v1/projects/p/topics/T:getIamPolicy'')] demo_gw) = Some demo_ps"
proof -
  have "path_owner V1 (demo_req POST ''/v1/projects/p/secrets'') = Some SvcSecrets"
    "path_owner V1 (demo_req GET ''/v1/projects/p/topics/T:getIamPolicy'') = Some SvcIam"
    by (simp_all add: path_owner_def demo_req_def splitPath_def trimPrefix_def hasPrefix_def owner_def is_iam_verb_def
        at_project_def cut_last_def cutAt_def IsVerb_def)
  then show ?thesis
    using other_services_undisturbed [OF demo_gw_ok, of "[(env_at 0, V1, demo_req POST ''/v1/projects/p/secrets''),
      (env_at 0, V1, demo_req GET ''/v1/projects/p/topics/T:getIamPolicy'')]" SvcPubSub demo_lib]
    by (simp add: demo_gw_def)
qed

theorem reset_clears_exactly_witness:
  "rs_code (fst (handleReset (env_at 0) (demo_req POST ''/admin/reset'') demo_gw)) = 204 \<and>
    mem_lookup (g_store (snd (handleReset (env_at 0) (demo_req POST ''/admin/reset'') demo_gw))) nsTopics ''T'' = None"
proof -
  obtain s' where "handleReset (env_at 0) (demo_req POST ''/admin/reset'') demo_gw = (header_only 204, demo_gw\<lparr>g_store := s'\<rparr>)"
    "\<forall>n k. mem_lookup s' n k = (if n \<in> set reset_namespaces then None else mem_lookup (g_store demo_gw) n k)"
    using reset_clears_exactly [OF env_at_ok(1) demo_gw_ok, of "demo_req POST ''/admin/reset''" 0] by (auto simp: demo_req_def)
  then show ?thesis by (simp add: reset_namespaces_def nsTopics_def)
qed

theorem reset_keeps_messages_witness:
  "\<exists>g' s1 s2 out p'. handleReset (env_at 0) (demo_req POST ''/admin/reset'') demo_gw = (header_only 204, g') \<and>
    CreateTopic (g_store g') ''T'' = Inr s1 \<and> CreateSubscription s1 demo_ps ''S'' ''T'' 10 [] = Inr (s2, demo_ps) \<and>
    PullMessages (env_at 0) s2 demo_ps ''S'' 3 = (Inr out, p') \<and> map (gm_Data \<circ> rc_Message) out = [''hi'']"
proof -
  obtain s' where h: "handleReset (env_at 0) (demo_req POST ''/admin/reset'') demo_gw = (header_only 204, demo_gw\<lparr>g_store := s'\<rparr>)"
    using reset_all_clears [OF env_at_ok(1) demo_gw_ok, of 0 reset_namespaces] by (auto simp: handleReset_def demo_req_def)
  have "map content (ps_queues demo_ps ''S'') = [demo_msg\<lparr>gm_ID := msg_id 1, gm_PublishTime := 5 * second\<rparr>]"
    by (simp add: demo_queue)
  moreover obtain s1 s2 out p' where
    "CreateTopic s' ''T'' = Inr s1" "CreateSubscription s1 demo_ps ''S'' ''T'' 10 [] = Inr (s2, demo_ps)"
    "PullMessages (env_at 0) s2 demo_ps ''S'' 3 = (Inr out, p')"
    "map rc_Message out = take (pull_limit 3) (map content (ps_queues demo_ps ''S''))"
    using reset_keeps_messages [OF env_at_ok(1) demo_gw_ok _ _ h, of demo_ps "''T''" "''S''" 10 "env_at 0" 3]
    by (auto simp: demo_req_def demo_gw_def demo_available)
  moreover have "map (gm_Data \<circ> rc_Message) out = map gm_Data (map rc_Message out)" by simp
  ultimately show ?thesis using h by (fastforce simp: pull_limit_def demo_msg_def)
qed

end
