(* ===== verification/Firestore_Values.thy ===== *)
theory Firestore_Values
  imports Go_Prelude
begin

text \<open>
  The values of Firestore documents (\<^verbatim>\<open>internal/services/firestore/firestore.go\<close>): how a protobuf value is kept as JSON and read
  back.  The message types of the Firestore API are generated code outside the repository; \<open>pb_value\<close> has the alternatives that
  the code distinguishes, and \<open>VOther\<close> for the rest (references, geographical points).  A finite \<^verbatim>\<open>float64\<close> is represented
  by the shortest decimal text that Go prints for it.
\<close>

section \<open>Strings in JSON\<close>

text \<open>
  \<^verbatim>\<open>json.Marshal\<close> writes text; a byte that does not begin a well-formed UTF-8 sequence becomes the replacement character.
  \<open>utf8_width\<close> is the width of the sequence at the start of a string, 0 if there is none.
\<close>

definition continues :: "nat \<Rightarrow> nat \<Rightarrow> nat \<Rightarrow> string \<Rightarrow> bool" where
  "continues lo hi n s \<longleftrightarrow> n \<le> length s \<and> byte_in lo hi (hd s) \<and> list_all (byte_in 0x80 0xBF) (take n s)"

definition utf8_width :: "string \<Rightarrow> nat" where
  "utf8_width bs = (case bs of [] \<Rightarrow> 0 | c # s \<Rightarrow>
    (if byte_in 0 0x7F c then 1
     else if byte_in 0xC2 0xDF c then (if continues 0x80 0xBF 1 s then 2 else 0)
     else if byte_in 0xE0 0xE0 c then (if continues 0xA0 0xBF 2 s then 3 else 0)
     else if byte_in 0xED 0xED c then (if continues 0x80 0x9F 2 s then 3 else 0)
     else if byte_in 0xE1 0xEF c then (if continues 0x80 0xBF 2 s then 3 else 0)
     else if byte_in 0xF0 0xF0 c then (if continues 0x90 0xBF 3 s then 4 else 0)
     else if byte_in 0xF1 0xF3 c then (if continues 0x80 0xBF 3 s then 4 else 0)
     else if byte_in 0xF4 0xF4 c then (if continues 0x80 0x8F 3 s then 4 else 0)
     else 0))"

definition replacement_char :: string where
  "replacement_char = [CHR 0xEF, CHR 0xBF, CHR 0xBD]"

function coerce_utf8 :: "string \<Rightarrow> string" where
  "coerce_utf8 [] = []"
| "coerce_utf8 (c # s) = (let w = utf8_width (c # s) in
     if w = 0 then replacement_char @ coerce_utf8 s
     else take w (c # s) @ coerce_utf8 (drop w (c # s)))"
  by pat_completeness auto
termination by (relation "measure length") auto

definition valid_utf8 :: "string \<Rightarrow> bool" where
  "valid_utf8 s \<longleftrightarrow> coerce_utf8 s = s"

section \<open>Values\<close>

datatype go_float = Finite string | NonFinite string

datatype pb_value =
    VNull
  | VBool bool
  | VInt int
  | VDouble go_float
  | VStr string
  | VBytes string
  | VTime time
  | VMap "(string \<times> pb_value) list"
  | VArr "pb_value list"
  | VOther string

datatype storedValue = SV (sv_Kind: string) (sv_Str: string) (sv_Int: int) (sv_Double: go_float) (sv_Bool: bool)
  (sv_BytesB64: string) (sv_Timestamp: time) (sv_Map: "(string \<times> storedValue) list option") (sv_Array: "storedValue list option")

abbreviation zero_float :: go_float where "zero_float \<equiv> Finite ''0''"

abbreviation sv_kind :: "string \<Rightarrow> storedValue" where
  "sv_kind k \<equiv> SV k [] 0 zero_float False [] 0 None None"

fun storedValueFromProto :: "pb_value \<Rightarrow> storedValue" where
  "storedValueFromProto VNull = sv_kind ''null''"
| "storedValueFromProto (VBool b) = SV ''bool'' [] 0 zero_float b [] 0 None None"
| "storedValueFromProto (VInt i) = SV ''int'' [] i zero_float False [] 0 None None"
| "storedValueFromProto (VDouble d) = SV ''double'' [] 0 d False [] 0 None None"
| "storedValueFromProto (VStr s) = SV ''str'' s 0 zero_float False [] 0 None None"
| "storedValueFromProto (VBytes s) = SV ''bytes'' [] 0 zero_float False s 0 None None"
| "storedValueFromProto (VTime t) = SV ''ts'' [] 0 zero_float False [] t None None"
| "storedValueFromProto (VMap ms) = SV ''map'' [] 0 zero_float False [] 0
     (Some (map (\<lambda>(k, v). (k, storedValueFromProto v)) ms)) None"
| "storedValueFromProto (VArr vs) = SV ''array'' [] 0 zero_float False [] 0 None
     (if vs = [] then None else Some (map storedValueFromProto vs))"
| "storedValueFromProto (VOther _) = sv_kind ''null''"

fun protoFromStoredValue :: "storedValue \<Rightarrow> pb_value" where
  "protoFromStoredValue (SV kind s i d b y t m a) =
    (if kind = ''null'' then VNull
     else if kind = ''bool'' then VBool b
     else if kind = ''int'' then VInt i
     else if kind = ''double'' then VDouble d
     else if kind = ''str'' then VStr s
     else if kind = ''bytes'' then VBytes y
     else if kind = ''ts'' then VTime t
     else if kind = ''map'' then VMap (case m of None \<Rightarrow> [] | Some ms \<Rightarrow> map (\<lambda>(k, v). (k, protoFromStoredValue v)) ms)
     else if kind = ''array'' then VArr (case a of None \<Rightarrow> [] | Some vs \<Rightarrow> map protoFromStoredValue vs)
     else VNull)"

section \<open>Stored values as JSON\<close>

text \<open>A number whose text is that of an integer is the integer; both zeros are empty values.\<close>

fun float_zero :: "go_float \<Rightarrow> bool" where
  "float_zero (Finite t) \<longleftrightarrow> t = ''0'' \<or> t = ''-0''"
| "float_zero (NonFinite _) \<longleftrightarrow> False"

definition float_json :: "string \<Rightarrow> json" where
  "float_json t = (case parse_signed t of Some i \<Rightarrow> if itoai i = t then JNum i else JFloat t | None \<Rightarrow> JFloat t)"

fun enc_float :: "go_float \<Rightarrow> json" where
  "enc_float (Finite t) = float_json t"
| "enc_float (NonFinite t) = JNull"

definition fld_float :: "string \<Rightarrow> json \<Rightarrow> go_float \<times> bool" where
  "fld_float k j = (case jget k j of None \<Rightarrow> (zero_float, True) | Some JNull \<Rightarrow> (zero_float, True)
     | Some (JNum i) \<Rightarrow> (Finite (itoai i), True) | Some (JFloat t) \<Rightarrow> (Finite t, True)
     | Some _ \<Rightarrow> (zero_float, False))"

fun enc_sv :: "storedValue \<Rightarrow> json" where
  "enc_sv (SV kind s i d b y t m a) = JObj ([(''kind'', JStr (coerce_utf8 kind))] @
     omit (s = []) ''str'' (JStr (coerce_utf8 s)) @ omit (i = 0) ''int'' (JNum i) @
     omit (float_zero d) ''double'' (enc_float d) @ omit (\<not> b) ''bool'' (JBool b) @
     omit (y = []) ''bytes'' (JStr (coerce_utf8 y)) @ [(''ts'', JTime t)] @
     (case m of None \<Rightarrow> [] | Some ms \<Rightarrow> omit (ms = []) ''map'' (JObj (map (\<lambda>(k, v). (coerce_utf8 k, enc_sv v)) ms))) @
     (case a of None \<Rightarrow> [] | Some vs \<Rightarrow> omit (vs = []) ''array'' (JArr (map enc_sv vs))))"

text \<open>The first number that JSON cannot express, if there is one.\<close>

fun unsupported :: "storedValue \<Rightarrow> string option" where
  "unsupported (SV kind s i d b y t m a) =
    (case List.concat [(case d of Finite _ \<Rightarrow> [] | NonFinite x \<Rightarrow> [x]),
        (case m of None \<Rightarrow> [] | Some ms \<Rightarrow> List.concat (map (\<lambda>(k, v). case unsupported v of None \<Rightarrow> [] | Some x \<Rightarrow> [x]) ms)),
        (case a of None \<Rightarrow> [] | Some vs \<Rightarrow> List.concat (map (\<lambda>v. case unsupported v of None \<Rightarrow> [] | Some x \<Rightarrow> [x]) vs))]
     of [] \<Rightarrow> None | x # _ \<Rightarrow> Some x)"

definition marshalValue :: "pb_value \<Rightarrow> string + json" where
  "marshalValue v = (let sv = storedValueFromProto v in
     case unsupported sv of Some x \<Rightarrow> Inl (''json: unsupported value: '' @ x) | None \<Rightarrow> Inr (enc_sv sv))"

lemma size_jget: "jget k j = Some v \<Longrightarrow> size v < size j"
proof (cases j)
  case (JObj ms)
  moreover have "jmember k ms = Some v \<Longrightarrow> size v < Suc (size_list (size_prod (\<lambda>_. 0) size) ms)"
    by (induction k ms rule: jmember.induct) (auto split: option.splits if_splits)
  ultimately show "jget k j = Some v \<Longrightarrow> size v < size j" by simp
qed auto

text \<open>
  Decoding into the struct, with whether there was no error.  \<open>build_sv\<close> fills in the fields once the members of the map and
  the elements of the array are decoded.
\<close>

definition map_members :: "json \<Rightarrow> (string \<times> json) list" where
  "map_members j = (case jget ''map'' j of Some (JObj ms) \<Rightarrow> ms | _ \<Rightarrow> [])"

definition array_elems :: "json \<Rightarrow> json list" where
  "array_elems j = (case jget ''array'' j of Some (JArr vs) \<Rightarrow> vs | _ \<Rightarrow> [])"

definition build_sv :: "(string \<Rightarrow> time option) \<Rightarrow> json \<Rightarrow> (string \<times> storedValue \<times> bool) list \<Rightarrow> (storedValue \<times> bool) list
    \<Rightarrow> storedValue \<times> bool" where
  "build_sv rfc j dms das = (let (kind, ok1) = fld_str ''kind'' j; (s, ok2) = fld_str ''str'' j; (i, ok3) = fld_int ''int'' j;
       (d, ok4) = fld_float ''double'' j; (b, ok5) = fld_bool ''bool'' j; (y, ok6) = fld_str ''bytes'' j;
       (t, ok7) = fld_time rfc ''ts'' j;
       (m, ok8) = (case jget ''map'' j of None \<Rightarrow> (None, True) | Some JNull \<Rightarrow> (None, True)
         | Some (JObj _) \<Rightarrow> (Some (map (\<lambda>(k, v, _). (k, v)) dms), list_all (\<lambda>(_, _, ok). ok) dms)
         | Some _ \<Rightarrow> (None, False));
       (a, ok9) = (case jget ''array'' j of None \<Rightarrow> (None, True) | Some JNull \<Rightarrow> (None, True)
         | Some (JArr _) \<Rightarrow> (Some (map fst das), list_all snd das)
         | Some _ \<Rightarrow> (None, False))
     in (SV kind s i d b y t m a,
         is_struct_doc j \<and> ok1 \<and> ok2 \<and> ok3 \<and> ok4 \<and> ok5 \<and> ok6 \<and> ok7 \<and> ok8 \<and> ok9))"

lemma size_member: "(x, v) \<in> set (map_members j) \<Longrightarrow> size v < size j"
proof -
  assume "(x, v) \<in> set (map_members j)"
  then obtain ms where "jget ''map'' j = Some (JObj ms)" "(x, v) \<in> set ms"
    by (auto simp: map_members_def split: option.splits json.splits dest: sym)
  then show ?thesis
    using size_jget [of "''map''" j "JObj ms"] size_list_estimation' [of "(x, v)" ms "size v" "size_prod (\<lambda>_. 0) size"] by auto
qed

lemma size_element: "v \<in> set (array_elems j) \<Longrightarrow> size v < size j"
proof -
  assume "v \<in> set (array_elems j)"
  then obtain vs where "jget ''array'' j = Some (JArr vs)" "v \<in> set vs"
    by (auto simp: array_elems_def split: option.splits json.splits dest: sym)
  then show ?thesis
    using size_jget [of "''array''" j "JArr vs"] size_list_estimation' [of v vs "size v" size] by auto
qed

function dec_sv :: "(string \<Rightarrow> time option) \<Rightarrow> json \<Rightarrow> storedValue \<times> bool" where
  "dec_sv rfc j = build_sv rfc j (map (\<lambda>(k, v). (k, dec_sv rfc v)) (map_members j)) (map (dec_sv rfc) (array_elems j))"
  by pat_completeness auto
termination by (relation "measure (\<lambda>(rfc, j). size j)") (auto dest: size_member size_element)

declare dec_sv.simps [simp del]

definition unmarshalValue :: "(string \<Rightarrow> time option) \<Rightarrow> json \<Rightarrow> pb_value option" where
  "unmarshalValue rfc raw = (let (sv, ok) = dec_sv rfc raw in if ok then Some (protoFromStoredValue sv) else None)"

section \<open>What survives storage\<close>

fun storable :: "pb_value \<Rightarrow> bool" where
  "storable (VInt i) \<longleftrightarrow> in_int64 i"
| "storable (VDouble (Finite t)) \<longleftrightarrow> t \<noteq> ''-0''"
| "storable (VDouble (NonFinite t)) \<longleftrightarrow> False"
| "storable (VStr s) \<longleftrightarrow> valid_utf8 s"
| "storable (VBytes s) \<longleftrightarrow> valid_utf8 s"
| "storable (VMap ms) \<longleftrightarrow> list_all (\<lambda>(k, v). valid_utf8 k \<and> storable v) ms"
| "storable (VArr vs) \<longleftrightarrow> list_all storable vs"
| "storable (VOther _) \<longleftrightarrow> False"
| "storable _ \<longleftrightarrow> True"

lemma kinds_valid [simp]:
  "valid_utf8 []" "valid_utf8 ''null''" "valid_utf8 ''bool''" "valid_utf8 ''int''" "valid_utf8 ''double''" "valid_utf8 ''str''"
  "valid_utf8 ''bytes''" "valid_utf8 ''ts''" "valid_utf8 ''map''" "valid_utf8 ''array''"
  by (simp_all add: valid_utf8_def utf8_width_def byte_in_def Let_def)

text \<open>The members that an encoded value has.\<close>

lemma enc_sv_members:
  fixes kind s i d b y t m a
  defines "j \<equiv> enc_sv (SV kind s i d b y t m a)"
  shows "jget ''kind'' j = Some (JStr (coerce_utf8 kind))"
    and "jget ''str'' j = (if s = [] then None else Some (JStr (coerce_utf8 s)))"
    and "jget ''int'' j = (if i = 0 then None else Some (JNum i))"
    and "jget ''double'' j = (if float_zero d then None else Some (enc_float d))"
    and "jget ''bool'' j = (if b then Some (JBool True) else None)"
    and "jget ''bytes'' j = (if y = [] then None else Some (JStr (coerce_utf8 y)))"
    and "jget ''ts'' j = Some (JTime t)"
    and "jget ''map'' j = (case m of None \<Rightarrow> None | Some ms \<Rightarrow> if ms = [] then None
           else Some (JObj (map (\<lambda>(k, v). (coerce_utf8 k, enc_sv v)) ms)))"
    and "jget ''array'' j = (case a of None \<Rightarrow> None | Some vs \<Rightarrow> if vs = [] then None else Some (JArr (map enc_sv vs)))"
  unfolding j_def
  by (simp_all add: jmember_append jmember_omit eqFold_def lower_char_def split: option.split)

declare enc_sv.simps [simp del] coerce_utf8.simps [simp del]

lemma float_roundtrip:
  "fld_float k j = (Finite t, True)" if "jget k j = (if float_zero (Finite t) then None else Some (float_json t))" "t \<noteq> ''-0''"
  using that by (auto simp: fld_float_def float_json_def split: option.splits if_splits)

text \<open>Decoding undoes encoding, except that an empty map or array comes back as nil.\<close>

definition nonempty :: "'a list option \<Rightarrow> 'a list option" where
  "nonempty xo = (case xo of None \<Rightarrow> None | Some xs \<Rightarrow> if xs = [] then None else Some xs)"

lemma nonempty_simps [simp]: "nonempty None = None" "nonempty (Some xs) = (if xs = [] then None else Some xs)"
  by (simp_all add: nonempty_def)

lemma build_sv_eq:
  assumes "fld_str ''kind'' j = (kind, True)" "fld_str ''str'' j = (s, True)" "fld_int ''int'' j = (i, True)"
    "fld_float ''double'' j = (d, True)" "fld_bool ''bool'' j = (b, True)" "fld_str ''bytes'' j = (y, True)"
    "fld_time rfc ''ts'' j = (t, True)" "is_struct_doc j"
    and "jget ''map'' j = map_option JObj mo" "jget ''array'' j = map_option JArr ao"
  shows "build_sv rfc j dms das = (SV kind s i d b y t
      (map_option (\<lambda>_. map (\<lambda>(k, v, _). (k, v)) dms) mo) (map_option (\<lambda>_. map fst das) ao),
    (mo \<noteq> None \<longrightarrow> list_all (\<lambda>(_, _, ok). ok) dms) \<and> (ao \<noteq> None \<longrightarrow> list_all snd das))"
  using assms by (cases mo; cases ao) (simp_all add: build_sv_def)

lemma valid_utf8D: "valid_utf8 s \<Longrightarrow> coerce_utf8 s = s"
  by (simp add: valid_utf8_def)

lemma dec_enc_sv:
  assumes "in_int64 i" "f \<noteq> ''-0''"
  shows "dec_sv rfc (enc_sv (SV kind s i (Finite f) b y t m a)) =
    (SV (coerce_utf8 kind) (coerce_utf8 s) i (Finite f) b (coerce_utf8 y) t
       (map_option (map (\<lambda>(k, v). (coerce_utf8 k, fst (dec_sv rfc (enc_sv v))))) (nonempty m))
       (map_option (map (\<lambda>v. fst (dec_sv rfc (enc_sv v)))) (nonempty a)),
     (nonempty m \<noteq> None \<longrightarrow> list_all (\<lambda>(k, v). snd (dec_sv rfc (enc_sv v))) (the m)) \<and>
     (nonempty a \<noteq> None \<longrightarrow> list_all (\<lambda>v. snd (dec_sv rfc (enc_sv v))) (the a)))"
proof -
  define j where "j = enc_sv (SV kind s i (Finite f) b y t m a)"
  note mem = enc_sv_members [of kind s i "Finite f" b y t m a, folded j_def]
  have mp: "jget ''map'' j = map_option JObj (map_option (map (\<lambda>(k, v). (coerce_utf8 k, enc_sv v))) (nonempty m))"
    using mem(8) by (simp add: nonempty_def split: option.split)
  have ar: "jget ''array'' j = map_option JArr (map_option (map enc_sv) (nonempty a))"
    using mem(9) by (simp add: nonempty_def split: option.split)
  have j: "fld_str ''kind'' j = (coerce_utf8 kind, True)" "fld_str ''str'' j = (coerce_utf8 s, True)" "fld_int ''int'' j = (i, True)"
    "fld_float ''double'' j = (Finite f, True)" "fld_bool ''bool'' j = (b, True)" "fld_str ''bytes'' j = (coerce_utf8 y, True)"
    "fld_time rfc ''ts'' j = (t, True)" "is_struct_doc j"
    using assms mem float_roundtrip [of "''double''" j f]
    by (simp_all add: fld_str_def coerce_utf8.simps(1) fld_int_def fld_bool_def fld_time_def) (simp add: j_def enc_sv.simps)
  have ms: "map_members j = (case nonempty m of None \<Rightarrow> [] | Some ms \<Rightarrow> map (\<lambda>(k, v). (coerce_utf8 k, enc_sv v)) ms)"
    using mp by (simp add: map_members_def split: option.split)
  have as: "array_elems j = (case nonempty a of None \<Rightarrow> [] | Some vs \<Rightarrow> map enc_sv vs)"
    using ar by (simp add: array_elems_def split: option.split)
  show ?thesis
    unfolding j_def [symmetric]
    by (subst dec_sv.simps, subst build_sv_eq [OF j mp ar], unfold ms as)
       (simp add: nonempty_def list.pred_map case_prod_unfold comp_def split: option.split)
qed

lemma value_survives:
  "storable v \<Longrightarrow> \<exists>sv. dec_sv rfc (enc_sv (storedValueFromProto v)) = (sv, True) \<and> protoFromStoredValue sv = v"
proof (induction v)
  case (VDouble d)
  then show ?case by (cases d) (simp_all add: dec_enc_sv in_int64_def valid_utf8D)
next
  case (VMap ms)
  have "snd (dec_sv rfc (enc_sv (storedValueFromProto v))) \<and> protoFromStoredValue (fst (dec_sv rfc (enc_sv (storedValueFromProto v)))) = v \<and>
    coerce_utf8 k = k" if "(k, v) \<in> set ms" for k v
    using VMap.IH [OF that, of v] VMap.prems that by (fastforce simp: list_all_iff valid_utf8_def)
  then show ?case by (auto simp: dec_enc_sv in_int64_def valid_utf8D list_all_iff case_prod_unfold comp_def intro!: map_idI)
next
  case (VArr vs)
  have "snd (dec_sv rfc (enc_sv (storedValueFromProto v))) \<and> protoFromStoredValue (fst (dec_sv rfc (enc_sv (storedValueFromProto v)))) = v"
    if "v \<in> set vs" for v
    using VArr.IH [OF that] VArr.prems that by (fastforce simp: list_all_iff)
  then show ?case by (auto simp: dec_enc_sv in_int64_def valid_utf8D list_all_iff comp_def intro!: map_idI)
qed (simp_all add: dec_enc_sv in_int64_def valid_utf8D)

lemma unsupported_storable: "storable v \<Longrightarrow> unsupported (storedValueFromProto v) = None"
proof (induction v)
  case (VDouble d)
  then show ?case by (cases d) simp_all
next
  case (VMap ms)
  then have "concat (map (\<lambda>(k, v). case unsupported v of None \<Rightarrow> [] | Some x \<Rightarrow> [x]) (map (\<lambda>(k, v). (k, storedValueFromProto v)) ms)) = []"
    by (fastforce simp: list_all_iff)
  then show ?case by (simp del: concat_eq_Nil_conv)
next
  case (VArr vs)
  then have "concat (map (\<lambda>v. case unsupported v of None \<Rightarrow> [] | Some x \<Rightarrow> [x]) (map storedValueFromProto vs)) = []"
    by (fastforce simp: list_all_iff)
  then show ?case by (simp del: concat_eq_Nil_conv)
qed simp_all

text \<open>
  C21: a value that is stored is read back as it was: every null, boolean, 64-bit integer, finite number other than minus zero,
  time and well-formed string, and every map and array of them, however deep.
\<close>

theorem firestore_value_roundtrip:
  assumes "storable v"
  shows "\<exists>raw. marshalValue v = Inr raw \<and> unmarshalValue rfc raw = Some v"
proof -
  obtain sv where "dec_sv rfc (enc_sv (storedValueFromProto v)) = (sv, True)" "protoFromStoredValue sv = v"
    using value_survives [OF assms] by blast
  then show ?thesis using unsupported_storable [OF assms] by (simp add: marshalValue_def unmarshalValue_def)
qed

theorem firestore_value_roundtrip_witness:
  "\<exists>raw. marshalValue (VMap [(''a'', VArr [VInt 7, VStr ''x'', VNull, VArr []]), (''b'', VDouble (Finite ''0.5''))]) = Inr raw \<and>
    unmarshalValue (\<lambda>_. None) raw = Some (VMap [(''a'', VArr [VInt 7, VStr ''x'', VNull, VArr []]), (''b'', VDouble (Finite ''0.5''))])"
  by (rule firestore_value_roundtrip)
     (simp add: in_int64_def valid_utf8_def coerce_utf8.simps utf8_width_def byte_in_def Let_def)

text \<open>
  Bytes are kept as JSON text, so a byte value that is not UTF-8 is stored without an error and read back as another
  value; and references and geographical points are read back as null.
\<close>

theorem firestore_bytes_are_lossy:
  assumes "\<not> valid_utf8 b"
  shows "\<exists>raw raw' b'. marshalValue (VBytes b) = Inr raw \<and> unmarshalValue rfc raw = Some (VBytes b') \<and> b' \<noteq> b \<and>
    marshalValue (VOther x) = Inr raw' \<and> unmarshalValue rfc raw' = Some VNull"
proof -
  have "coerce_utf8 b \<noteq> b" using assms by (simp add: valid_utf8_def)
  moreover have "unmarshalValue rfc (enc_sv (storedValueFromProto (VBytes b))) = Some (VBytes (coerce_utf8 b))"
    "unmarshalValue rfc (enc_sv (storedValueFromProto (VOther x))) = Some VNull"
    by (simp_all add: unmarshalValue_def dec_enc_sv in_int64_def valid_utf8D)
  ultimately show ?thesis by (simp add: marshalValue_def)
qed

theorem firestore_bytes_are_lossy_witness:
  "\<exists>raw b'. marshalValue (VBytes [CHR 0xFF]) = Inr raw \<and> unmarshalValue (\<lambda>_. None) raw = Some (VBytes b') \<and> b' \<noteq> [CHR 0xFF]"
proof -
  have "utf8_width [CHR 0xFF] = 0" by (simp add: utf8_width_def byte_in_def)
  then have "coerce_utf8 [CHR 0xFF] = replacement_char" by (simp add: coerce_utf8.simps)
  then have "\<not> valid_utf8 [CHR 0xFF]" by (simp add: valid_utf8_def replacement_char_def)
  from firestore_bytes_are_lossy [OF this, of "\<lambda>_. None" "[]"] show ?thesis by blast
qed

end
