(* ===== verification/Firestore.thy ===== *)
theory Firestore
  imports Firestore_Values Resource_Codec Httpresp Go_Time
begin

text \<open>
  Service \<^verbatim>\<open>internal/services/firestore\<close>: documents, the gRPC methods on them, commits, and the listeners that are told
  of changes (\<^verbatim>\<open>listen.go\<close>).  A listener's outbox is a queue of at most 64 messages that its sender goroutine empties; a method
  call is one step, and \<open>sender_step\<close> and \<open>listen_end\<close> are steps of the stream.  What the code leaves open is the record \<open>fs_env\<close>:
  the order in which maps are visited, which of two ready cases a \<^verbatim>\<open>select\<close> takes, the clock, and the texts of decoding errors.
\<close>

definition nsDocs :: string where "nsDocs = ''firestore/documents''"
lemmas [ns_defs] = nsDocs_def

section \<open>Documents\<close>

record storedDoc =
  sd_Name :: string
  sd_Fields :: "(string \<times> json) list"
  sd_CreateTime :: time
  sd_UpdateTime :: time

record pb_doc =
  pd_Name :: string
  pd_Fields :: "(string \<times> pb_value) list"
  pd_CreateTime :: time
  pd_UpdateTime :: time

definition enc_doc :: "storedDoc \<Rightarrow> json" where
  "enc_doc d = JObj [(''name'', JStr (sd_Name d)), (''fields'', JObj (sd_Fields d)),
     (''createTime'', JTime (sd_CreateTime d)), (''updateTime'', JTime (sd_UpdateTime d))]"

definition dec_doc :: "(string \<Rightarrow> time option) \<Rightarrow> json \<Rightarrow> storedDoc \<times> bool" where
  "dec_doc rfc j = (let (n, ok1) = fld_str ''name'' j;
       (fs, ok2) = (case jget ''fields'' j of None \<Rightarrow> ([], True) | Some JNull \<Rightarrow> ([], True) | Some (JObj ms) \<Rightarrow> (ms, True) | Some _ \<Rightarrow> ([], False));
       (c, ok3) = fld_time rfc ''createTime'' j; (u, ok4) = fld_time rfc ''updateTime'' j
     in (\<lparr>sd_Name = n, sd_Fields = fs, sd_CreateTime = c, sd_UpdateTime = u\<rparr>, is_struct_doc j \<and> ok1 \<and> ok2 \<and> ok3 \<and> ok4))"

fun unmarshal_doc :: "(string \<Rightarrow> time option) \<Rightarrow> blob \<Rightarrow> storedDoc \<times> bool" where
  "unmarshal_doc rfc (JsonB j) = dec_doc rfc j"
| "unmarshal_doc rfc (RawB _) = (\<lparr>sd_Name = [], sd_Fields = [], sd_CreateTime = 0, sd_UpdateTime = 0\<rparr>, False)"

section \<open>Listeners\<close>

datatype change_type = TC_ADD | TC_REMOVE | TC_CURRENT | TC_NO_CHANGE

datatype listen_msg =
    TargetChange change_type "int list" "time option"
  | DocumentChange pb_doc "int list"
  | DocumentDelete string "int list"

record listenTarget =
  lt_docNames :: "string list"
  lt_parentColl :: string

record listener =
  l_outbox :: "listen_msg list"
  l_done :: bool
  l_targets :: "(int \<times> listenTarget) list"

record firestore =
  fs_verSeq :: nat
  fs_listeners :: "(nat \<times> listener) list"
  fs_nextListener :: nat

record fs_env =
  fe_env :: go_env
  fe_rfc :: "string \<Rightarrow> time option"
  fe_ids :: "int list \<Rightarrow> int list"
  fe_names :: "string list \<Rightarrow> string list"
  fe_pick :: "listener \<Rightarrow> listen_msg \<Rightarrow> bool"
  fe_read :: "nat \<Rightarrow> string \<Rightarrow> time"
  fe_jsonErr :: "blob \<Rightarrow> string"

abbreviation fe_time :: "fs_env \<Rightarrow> time" where "fe_time fe \<equiv> e_now (fe_env fe) 0"

definition target_matches :: "listenTarget \<Rightarrow> string \<Rightarrow> bool" where
  "target_matches t docName =
    (if docName \<in> set (lt_docNames t) then True
     else if lt_parentColl t = [] then False
     else (let pre = lt_parentColl t @ ''/'' in
       if \<not> hasPrefix docName pre then False else CHR ''/'' \<notin> set (drop (length pre) docName)))"

definition outbox_size :: nat where "outbox_size = 64"

text \<open>A message is queued, dropped when the listener is closed, or closes a listener whose outbox is full.\<close>

definition listener_send :: "fs_env \<Rightarrow> listen_msg \<Rightarrow> listener \<Rightarrow> listener" where
  "listener_send fe msg l =
    (if length (l_outbox l) < outbox_size
     then (if l_done l \<and> fe_pick fe l msg then l else l\<lparr>l_outbox := l_outbox l @ [msg]\<rparr>)
     else if l_done l then l else l\<lparr>l_done := True\<rparr>)"

definition sendNoChange :: "fs_env \<Rightarrow> nat \<Rightarrow> string \<Rightarrow> listener \<Rightarrow> listener" where
  "sendNoChange fe lid name = listener_send fe (TargetChange TC_NO_CHANGE [] (Some (fe_read fe lid name)))"

definition matched_targets :: "fs_env \<Rightarrow> string \<Rightarrow> listener \<Rightarrow> int list" where
  "matched_targets fe name l = fe_ids fe (map fst (filter (\<lambda>(_, t). target_matches t name) (l_targets l)))"

definition notify :: "fs_env \<Rightarrow> string \<Rightarrow> (int list \<Rightarrow> listen_msg) \<Rightarrow> nat \<Rightarrow> listener \<Rightarrow> listener" where
  "notify fe name msg lid l = (let matched = matched_targets fe name l in
     if matched = [] then l else sendNoChange fe lid name (listener_send fe (msg matched) l))"

fun marshalFields :: "(string \<times> pb_value) list \<Rightarrow> string + (string \<times> json) list" where
  "marshalFields [] = Inr []"
| "marshalFields ((k, v) # fds) = (case marshalValue v of Inl er \<Rightarrow> Inl er
     | Inr raw \<Rightarrow> (case marshalFields fds of Inl er \<Rightarrow> Inl er | Inr out \<Rightarrow> Inr ((k, raw) # out)))"

definition toProtoDoc :: "(string \<Rightarrow> time option) \<Rightarrow> storedDoc \<Rightarrow> pb_doc" where
  "toProtoDoc rfc d = \<lparr>pd_Name = sd_Name d,
     pd_Fields = concat (map (\<lambda>(k, raw). case unmarshalValue rfc raw of None \<Rightarrow> [] | Some v \<Rightarrow> [(k, v)]) (sd_Fields d)),
     pd_CreateTime = sd_CreateTime d, pd_UpdateTime = sd_UpdateTime d\<rparr>"

definition broadcastChange :: "fs_env \<Rightarrow> storedDoc \<Rightarrow> firestore \<Rightarrow> firestore" where
  "broadcastChange fe d fs = fs\<lparr>fs_listeners := map (\<lambda>(i, l). (i, notify fe (sd_Name d) (DocumentChange (toProtoDoc (fe_rfc fe) d)) i l))
     (fs_listeners fs)\<rparr>"

definition broadcastDelete :: "fs_env \<Rightarrow> string \<Rightarrow> firestore \<Rightarrow> firestore" where
  "broadcastDelete fe name fs = fs\<lparr>fs_listeners := map (\<lambda>(i, l). (i, notify fe name (DocumentDelete name) i l)) (fs_listeners fs)\<rparr>"

section \<open>Reading and writing documents\<close>

datatype doc_err = DocStore store_err | DocJson string

definition getDoc :: "fs_env \<Rightarrow> mem \<Rightarrow> string \<Rightarrow> doc_err + storedDoc" where
  "getDoc fe s name = (case Get s nsDocs name of Inl er \<Rightarrow> Inl (DocStore er)
     | Inr data \<Rightarrow> (let (d, ok) = unmarshal_doc (fe_rfc fe) data in if ok then Inr d else Inl (DocJson (fe_jsonErr fe data))))"

definition putDoc :: "mem \<Rightarrow> storedDoc \<Rightarrow> store_err + mem" where
  "putDoc s d = Put s nsDocs (sd_Name d) (JsonB (enc_doc d))"

fun doc_err_status :: "doc_err \<Rightarrow> grpc_err" where
  "doc_err_status (DocStore er) = (if er = ErrNotFound then (NotFound, ''document not found'') else (Internal, err_text er))"
| "doc_err_status (DocJson m) = (Internal, m)"

text \<open>The direct children of a collection.\<close>

definition listColl :: "fs_env \<Rightarrow> mem \<Rightarrow> string \<Rightarrow> storedDoc list" where
  "listColl fe s parent = (let pre = parent @ ''/'';
       all = (case List s nsDocs pre of Inl _ \<Rightarrow> [] | Inr l \<Rightarrow> l) in
     decoded (unmarshal_doc (fe_rfc fe)) (filter (\<lambda>(k, _). CHR ''/'' \<notin> set (trimPrefix k pre)) (e_range (fe_env fe) all)))"

definition GetDocument :: "fs_env \<Rightarrow> mem \<Rightarrow> string \<Rightarrow> grpc_err + pb_doc" where
  "GetDocument fe s name = (case getDoc fe s name of Inl er \<Rightarrow> Inl (doc_err_status er) | Inr d \<Rightarrow> Inr (toProtoDoc (fe_rfc fe) d))"

type_synonym 'a fs_result = "(grpc_err + 'a) \<times> mem \<times> firestore"

definition CreateDocument :: "fs_env \<Rightarrow> string \<Rightarrow> string \<Rightarrow> string \<Rightarrow> (string \<times> pb_value) list \<Rightarrow> mem \<Rightarrow> firestore \<Rightarrow> pb_doc fs_result" where
  "CreateDocument fe parent collectionId documentId docFields s fs =
    (let name = parent @ ''/'' @ collectionId @ ''/'' @ documentId in
     case getDoc fe s name of Inr _ \<Rightarrow> (Inl (AlreadyExists, ''document exists''), s, fs)
     | Inl _ \<Rightarrow> (case marshalFields docFields of Inl er \<Rightarrow> (Inl (Internal, er), s, fs)
       | Inr flds \<Rightarrow>
          let d = \<lparr>sd_Name = name, sd_Fields = flds, sd_CreateTime = fe_time fe, sd_UpdateTime = fe_time fe\<rparr> in
          (case putDoc s d of Inl er \<Rightarrow> (Inl (Internal, err_text er), s, fs)
           | Inr s' \<Rightarrow> (Inr (toProtoDoc (fe_rfc fe) d), s', broadcastChange fe d fs))))"

definition merge_fields :: "(string \<times> json) list \<Rightarrow> (string \<times> json) list \<Rightarrow> (string \<times> json) list" where
  "merge_fields new old = foldl (\<lambda>acc (k, v). AList.update k v acc) old new"

text \<open>\<open>paths\<close> is the list of field paths of the request, empty when there is none.\<close>

definition UpdateDocument :: "fs_env \<Rightarrow> string \<Rightarrow> (string \<times> pb_value) list \<Rightarrow> string list \<Rightarrow> mem \<Rightarrow> firestore \<Rightarrow> pb_doc fs_result" where
  "UpdateDocument fe name docFields paths s fs = (case marshalFields docFields of Inl er \<Rightarrow> (Inl (Internal, er), s, fs)
     | Inr flds \<Rightarrow>
        let now = fe_time fe;
            d = (case getDoc fe s name of
                Inr ex \<Rightarrow> ex\<lparr>sd_Fields := (if paths \<noteq> [] then merge_fields flds (sd_Fields ex) else flds), sd_UpdateTime := now\<rparr>
              | Inl _ \<Rightarrow> \<lparr>sd_Name = name, sd_Fields = flds, sd_CreateTime = now, sd_UpdateTime = now\<rparr>) in
        (case putDoc s d of Inl er \<Rightarrow> (Inl (Internal, err_text er), s, fs)
         | Inr s' \<Rightarrow> (Inr (toProtoDoc (fe_rfc fe) d), s', broadcastChange fe d fs)))"

definition DeleteDocument :: "fs_env \<Rightarrow> string \<Rightarrow> mem \<Rightarrow> firestore \<Rightarrow> unit fs_result" where
  "DeleteDocument fe name s fs = (case Delete s nsDocs name of Inl er \<Rightarrow> (Inl (doc_err_status (DocStore er)), s, fs)
     | Inr s' \<Rightarrow> (Inr (), s', broadcastDelete fe name fs))"

definition ListDocuments :: "fs_env \<Rightarrow> mem \<Rightarrow> string \<Rightarrow> string \<Rightarrow> pb_doc list" where
  "ListDocuments fe s parent collectionId = map (toProtoDoc (fe_rfc fe)) (listColl fe s (parent @ ''/'' @ collectionId))"

section \<open>Commit\<close>

datatype pb_write =
    WUpdate string "(string \<times> pb_value) list" "string list"
  | WDelete string
  | WOther

definition apply_mask :: "string list \<Rightarrow> (string \<times> json) list \<Rightarrow> (string \<times> json) list \<Rightarrow> (string \<times> json) list" where
  "apply_mask paths new old = foldl (\<lambda>acc fp. case map_of new fp of Some v \<Rightarrow> AList.update fp v acc | None \<Rightarrow> AList.delete fp acc) old paths"

definition commit_doc :: "fs_env \<Rightarrow> mem \<Rightarrow> string \<Rightarrow> (string \<times> json) list \<Rightarrow> string list \<Rightarrow> storedDoc" where
  "commit_doc fe s name new paths = (case getDoc fe s name of
     Inr ex \<Rightarrow> ex\<lparr>sd_Fields := (if paths \<noteq> [] then apply_mask paths new (sd_Fields ex) else new), sd_UpdateTime := fe_time fe\<rparr>
   | Inl _ \<Rightarrow> \<lparr>sd_Name = name, sd_Fields = new, sd_CreateTime = fe_time fe, sd_UpdateTime = fe_time fe\<rparr>)"

text \<open>
  The loop over the writes, under the lock: it stops at the first error and keeps what it has written.  The result is the error or
  the changed documents, the deleted names and the update times, with the store.
\<close>

fun commit_loop :: "fs_env \<Rightarrow> pb_write list \<Rightarrow> mem \<Rightarrow> (grpc_err + (storedDoc list \<times> string list \<times> time list)) \<times> mem" where
  "commit_loop fe [] s = (Inr ([], [], []), s)"
| "commit_loop fe (WUpdate name docFields paths # ws) s = (case marshalFields docFields of Inl er \<Rightarrow> (Inl (Internal, er), s)
     | Inr new \<Rightarrow> (let d = commit_doc fe s name new paths in
        case putDoc s d of Inl er \<Rightarrow> (Inl (Internal, err_text er), s)
        | Inr s' \<Rightarrow> (case commit_loop fe ws s' of (Inl er, s'') \<Rightarrow> (Inl er, s'')
          | (Inr (cs, ds, ts), s'') \<Rightarrow> (Inr (d # cs, ds, sd_UpdateTime d # ts), s''))))"
| "commit_loop fe (WDelete name # ws) s = (case Delete s nsDocs name of
       Inl _ \<Rightarrow> (case commit_loop fe ws s of (Inl er, s'') \<Rightarrow> (Inl er, s'')
          | (Inr (cs, ds, ts), s'') \<Rightarrow> (Inr (cs, ds, fe_time fe # ts), s''))
     | Inr s' \<Rightarrow> (case commit_loop fe ws s' of (Inl er, s'') \<Rightarrow> (Inl er, s'')
          | (Inr (cs, ds, ts), s'') \<Rightarrow> (Inr (cs, name # ds, fe_time fe # ts), s'')))"
| "commit_loop fe (WOther # ws) s = (case commit_loop fe ws s of (Inl er, s'') \<Rightarrow> (Inl er, s'')
          | (Inr (cs, ds, ts), s'') \<Rightarrow> (Inr (cs, ds, fe_time fe # ts), s''))"

text \<open>The answer is the update times of the writes and the commit time; listeners are told after the lock is released.\<close>

definition Commit :: "fs_env \<Rightarrow> pb_write list \<Rightarrow> mem \<Rightarrow> firestore \<Rightarrow> (time list \<times> time) fs_result" where
  "Commit fe ws s fs = (let fs1 = fs\<lparr>fs_verSeq := u64_inc (fs_verSeq fs)\<rparr> in
     case commit_loop fe ws s of
       (Inl er, s') \<Rightarrow> (Inl er, s', fs1)
     | (Inr (changes, deletes, stamps), s') \<Rightarrow>
         (Inr (stamps, fe_time fe), s', fold (broadcastDelete fe) deletes (fold (broadcastChange fe) changes fs1)))"

definition BatchWrite :: "fs_env \<Rightarrow> pb_write list \<Rightarrow> mem \<Rightarrow> firestore \<Rightarrow> time list fs_result" where
  "BatchWrite fe ws s fs = (case Commit fe ws s fs of (Inl er, s', fs') \<Rightarrow> (Inl er, s', fs')
     | (Inr (stamps, _), s', fs') \<Rightarrow> (Inr stamps, s', fs'))"

section \<open>Queries\<close>

text \<open>\<open>send\<close> is the outcome of \<^verbatim>\<open>stream.Send\<close> for the \<open>n\<close>-th message; the result is the error, if any, and what was sent.\<close>

fun stream_out :: "(nat \<Rightarrow> grpc_err option) \<Rightarrow> nat \<Rightarrow> 'a list \<Rightarrow> grpc_err option \<times> 'a list" where
  "stream_out send n [] = (None, [])"
| "stream_out send n (x # xs) = (case send n of Some er \<Rightarrow> (Some er, [])
     | None \<Rightarrow> (let (er, out) = stream_out send (Suc n) xs in (er, x # out)))"

text \<open>\<open>from\<close> is the list of collection identifiers of the structured query, empty when there is none.\<close>

definition RunQuery :: "fs_env \<Rightarrow> (nat \<Rightarrow> grpc_err option) \<Rightarrow> mem \<Rightarrow> string \<Rightarrow> string list \<Rightarrow> grpc_err option \<times> (pb_doc \<times> time) list" where
  "RunQuery fe send s parent froms = (let collID = (case froms of [] \<Rightarrow> [] | c # _ \<Rightarrow> c) in
     if collID = [] then (Some (InvalidArgument, ''collection id required''), [])
     else stream_out send 0 (map (\<lambda>d. (toProtoDoc (fe_rfc fe) d, fe_time fe)) (listColl fe s (parent @ ''/'' @ collID))))"

definition BatchGetDocuments :: "fs_env \<Rightarrow> (nat \<Rightarrow> grpc_err option) \<Rightarrow> mem \<Rightarrow> string list \<Rightarrow> grpc_err option \<times> ((string + pb_doc) \<times> time) list" where
  "BatchGetDocuments fe send s names = stream_out send 0 (map (\<lambda>name.
     (case getDoc fe s name of Inl _ \<Rightarrow> Inl name | Inr d \<Rightarrow> Inr (toProtoDoc (fe_rfc fe) d), fe_time fe)) names)"

definition BeginTransaction :: "fs_env \<Rightarrow> string" where
  "BeginTransaction fe = ''txn-'' @ itoai (unix_nanos (fe_time fe))"

section \<open>The Listen stream\<close>

definition listen_open :: "firestore \<Rightarrow> nat \<times> firestore" where
  "listen_open fs = (fs_nextListener fs, fs\<lparr>fs_listeners := fs_listeners fs @ [(fs_nextListener fs, \<lparr>l_outbox = [], l_done = False, l_targets = []\<rparr>)],
     fs_nextListener := Suc (fs_nextListener fs)\<rparr>)"

definition removeListener :: "nat \<Rightarrow> firestore \<Rightarrow> firestore" where
  "removeListener i fs = fs\<lparr>fs_listeners := filter (\<lambda>(j, _). j \<noteq> i) (fs_listeners fs)\<rparr>"

datatype pb_target = DocumentsTarget int "string list" | QueryTarget int string "string list" | OtherTarget int

definition snapshot_msgs :: "fs_env \<Rightarrow> mem \<Rightarrow> int \<Rightarrow> listenTarget \<Rightarrow> listen_msg list" where
  "snapshot_msgs fe s tid t = (if lt_parentColl t \<noteq> []
     then map (\<lambda>d. DocumentChange (toProtoDoc (fe_rfc fe) d) [tid]) (listColl fe s (lt_parentColl t))
     else map (\<lambda>name. case getDoc fe s name of Inr d \<Rightarrow> DocumentChange (toProtoDoc (fe_rfc fe) d) [tid] | Inl _ \<Rightarrow> DocumentDelete name [tid])
            (fe_names fe (remdups (lt_docNames t))))"

definition addListenTarget :: "fs_env \<Rightarrow> mem \<Rightarrow> pb_target option \<Rightarrow> listener \<Rightarrow> grpc_err option \<times> listener" where
  "addListenTarget fe s target l =
    (let add = (\<lambda>tid t. (None, fold (listener_send fe)
           ([TargetChange TC_ADD [tid] None] @ snapshot_msgs fe s tid t @
            [TargetChange TC_CURRENT [tid] (Some (fe_time fe)), TargetChange TC_NO_CHANGE [] (Some (fe_time fe))])
           (l\<lparr>l_targets := AList.update tid t (l_targets l)\<rparr>))) in
     case target of None \<Rightarrow> (Some (InvalidArgument, ''target required''), l)
     | Some (DocumentsTarget tid names) \<Rightarrow> add tid \<lparr>lt_docNames = names, lt_parentColl = []\<rparr>
     | Some (QueryTarget tid parent froms) \<Rightarrow> (case froms of
          [] \<Rightarrow> (Some (InvalidArgument, ''query target requires from''), l)
        | c # _ \<Rightarrow> add tid \<lparr>lt_docNames = [], lt_parentColl = parent @ ''/'' @ c\<rparr>)
     | Some (OtherTarget _) \<Rightarrow> (Some (InvalidArgument, ''unsupported target type''), l))"

definition removeListenTarget :: "fs_env \<Rightarrow> int \<Rightarrow> listener \<Rightarrow> listener" where
  "removeListenTarget fe tid l = listener_send fe (TargetChange TC_REMOVE [tid] None) (l\<lparr>l_targets := AList.delete tid (l_targets l)\<rparr>)"

text \<open>
  The sender goroutine takes one message for the stream, or ends when the listener is closed; \<open>pick\<close> says which
  case the \<^verbatim>\<open>select\<close> takes when both are ready.  \<open>None\<close>: there is nothing to do, or the goroutine ends.
\<close>

definition sender_step :: "bool \<Rightarrow> listener \<Rightarrow> (listen_msg \<times> listener) option" where
  "sender_step pick l = (if l_done l \<and> pick then None
     else (case l_outbox l of [] \<Rightarrow> None | m # ms \<Rightarrow> Some (m, l\<lparr>l_outbox := ms\<rparr>)))"

text \<open>
  The end of the stream: \<^verbatim>\<open>Recv\<close> fails and the reader closes \<^verbatim>\<open>done\<close>.  Closing a closed channel is a run-time panic of Go, which
  ends the process.
\<close>

datatype 'a go_run = Panic string | Returns 'a

definition listen_end :: "listener \<Rightarrow> listener go_run" where
  "listen_end l = (if l_done l then Panic ''close of closed channel'' else Returns (l\<lparr>l_done := True\<rparr>))"

section \<open>Console\<close>

definition docNameToCollection :: "string \<Rightarrow> string" where
  "docNameToCollection name = (case cut_string ''/documents/'' name of None \<Rightarrow> []
     | Some (_, rest) \<Rightarrow> (let parts = split_on (CHR ''/'') rest in
         if length parts < 2 then [] else join ''/'' (butlast parts)))"

definition ConsoleCollections :: "mem \<Rightarrow> store_err + string list" where
  "ConsoleCollections s = (case List s nsDocs [] of Inl er \<Rightarrow> Inl er
     | Inr all \<Rightarrow> Inr (sort (remdups (filter (\<lambda>c. c \<noteq> []) (map (docNameToCollection \<circ> fst) all)))))"

text \<open>A row of the console: identifier, name, and the two times.\<close>

definition ConsoleDocuments :: "fs_env \<Rightarrow> mem \<Rightarrow> string \<Rightarrow> string + (string \<times> string \<times> time \<times> time) list" where
  "ConsoleDocuments fe s collection = (if collection = [] then Inl ''collection required''
     else (case List s nsDocs [] of Inl er \<Rightarrow> Inl (err_text er)
       | Inr all \<Rightarrow> Inr (sort_key fst (map (\<lambda>d. (last (split_on (CHR ''/'') (sd_Name d)), sd_Name d, sd_CreateTime d, sd_UpdateTime d))
            (filter (\<lambda>d. docNameToCollection (sd_Name d) = collection)
              (decoded (unmarshal_doc (fe_rfc fe)) (e_range (fe_env fe) all)))))))"

definition ConsoleDocument :: "fs_env \<Rightarrow> mem \<Rightarrow> string \<Rightarrow> string + storedDoc" where
  "ConsoleDocument fe s name = (case getDoc fe s name of
     Inl (DocStore er) \<Rightarrow> Inl (if er = ErrNotFound then ''document not found'' else err_text er)
   | Inl (DocJson m) \<Rightarrow> Inl m
   | Inr d \<Rightarrow> Inr d)"

section \<open>Documents in the store\<close>

definition doc_ok :: "storedDoc \<Rightarrow> bool" where
  "doc_ok d \<longleftrightarrow> distinct (map fst (sd_Fields d))"

lemma dec_enc_doc [codec]: "dec_doc rfc (enc_doc d) = (d, True)"
  by (cases d) (simp add: dec_doc_def enc_doc_def fld_str_def fld_time_def eqFold_def lower_char_def)

interpretation doc_res: stored_resource enc_doc "unmarshal_doc rfc" doc_ok sd_Name nsDocs for rfc
  by unfold_locales (simp add: dec_enc_doc)

abbreviation docs_ok :: "mem \<Rightarrow> bool" where
  "docs_ok s \<equiv> mem_ok s \<and> typed_ns enc_doc doc_ok sd_Name nsDocs s"

lemma getDoc_cases:
  assumes "docs_ok s"
  shows "getDoc fe s name = (case mem_lookup s nsDocs name of None \<Rightarrow> Inl (DocStore ErrNotFound)
    | Some data \<Rightarrow> Inr (fst (unmarshal_doc (fe_rfc fe) data)))"
proof (cases "mem_lookup s nsDocs name")
  case None
  then show ?thesis by (simp add: getDoc_def Get_lookup)
next
  case (Some data)
  then obtain d where "unmarshal_doc (fe_rfc fe) data = (d, True)" using doc_res.lookup_read assms by blast
  with Some show ?thesis by (simp add: getDoc_def Get_lookup)
qed

lemma getDoc_Some:
  assumes "docs_ok s" "getDoc fe s name = Inr d"
  shows "sd_Name d = name" "doc_ok d" "mem_lookup s nsDocs name = Some (JsonB (enc_doc d))"
proof -
  obtain data where data: "mem_lookup s nsDocs name = Some data" "d = fst (unmarshal_doc (fe_rfc fe) data)"
    using assms by (auto simp: getDoc_cases split: option.splits)
  then show "sd_Name d = name" "doc_ok d" "mem_lookup s nsDocs name = Some (JsonB (enc_doc d))"
    using doc_res.lookup_read [of s name data "fe_rfc fe"] assms(1) by auto
qed

lemma docs_ok_put: "docs_ok s \<Longrightarrow> doc_ok d \<Longrightarrow> docs_ok (mput s nsDocs (sd_Name d) (JsonB (enc_doc d)))"
  by (simp add: typed_ns_mput)

lemma getDoc_put:
  assumes "docs_ok s" "doc_ok d"
  shows "getDoc fe (mput s nsDocs (sd_Name d) (JsonB (enc_doc d))) name = (if name = sd_Name d then Inr d else getDoc fe s name)"
  using docs_ok_put [OF assms] assms(1) by (simp add: getDoc_cases dec_enc_doc)

lemma getDoc_del:
  assumes "docs_ok s"
  shows "docs_ok (mdel s nsDocs n)"
    "getDoc fe (mdel s nsDocs n) name = (if name = n then Inl (DocStore ErrNotFound) else getDoc fe s name)"
proof -
  show ok: "docs_ok (mdel s nsDocs n)" using assms by (simp add: typed_ns_mdel)
  show "getDoc fe (mdel s nsDocs n) name = (if name = n then Inl (DocStore ErrNotFound) else getDoc fe s name)"
    using assms ok by (simp add: getDoc_cases)
qed

section \<open>A commit is a sequence of updates of a map\<close>

text \<open>The abstract state: documents by name, each a map from fields to values.\<close>

type_synonym fs_map = "string \<Rightarrow> (string \<Rightarrow> pb_value option) option"

definition doc_view :: "fs_env \<Rightarrow> storedDoc \<Rightarrow> string \<Rightarrow> pb_value option" where
  "doc_view fe d k = Option.bind (map_of (sd_Fields d) k) (unmarshalValue (fe_rfc fe))"

definition fs_view :: "fs_env \<Rightarrow> mem \<Rightarrow> fs_map" where
  "fs_view fe s name = (case getDoc fe s name of Inl _ \<Rightarrow> None | Inr d \<Rightarrow> Some (doc_view fe d))"

fun spec_write :: "pb_write \<Rightarrow> fs_map \<Rightarrow> fs_map" where
  "spec_write (WUpdate name fds paths) m = m(name := Some (case m name of
       Some old \<Rightarrow> if paths \<noteq> [] then (\<lambda>k. if k \<in> set paths then map_of fds k else old k) else map_of fds
     | None \<Rightarrow> map_of fds))"
| "spec_write (WDelete name) m = m(name := None)"
| "spec_write WOther m = m"

definition storable_fields :: "(string \<times> pb_value) list \<Rightarrow> bool" where
  "storable_fields fds \<longleftrightarrow> distinct (map fst fds) \<and> list_all (\<lambda>(_, v). storable v) fds"

fun storable_write :: "pb_write \<Rightarrow> bool" where
  "storable_write (WUpdate _ fds _) = storable_fields fds"
| "storable_write _ = True"

lemma marshal_storable: "storable v \<Longrightarrow> \<exists>raw. marshalValue v = Inr raw \<and> unmarshalValue rfc raw = Some v"
  using value_survives [of v rfc] unsupported_storable [of v] by (auto simp: marshalValue_def unmarshalValue_def)

lemma marshalFields_storable:
  "list_all (\<lambda>(_, v). storable v) fds \<Longrightarrow> \<exists>raws. marshalFields fds = Inr raws \<and> map fst raws = map fst fds \<and>
    (\<forall>k. Option.bind (map_of raws k) (unmarshalValue rfc) = map_of fds k)"
proof (induction fds)
  case (Cons kv fds)
  obtain k v where kv: "kv = (k, v)" by fastforce
  obtain raws where r: "marshalFields fds = Inr raws" "map fst raws = map fst fds"
    "\<forall>k. Option.bind (map_of raws k) (unmarshalValue rfc) = map_of fds k" using Cons by auto
  obtain raw where "marshalValue v = Inr raw" "unmarshalValue rfc raw = Some v"
    using marshal_storable Cons.prems kv by fastforce
  with r kv show ?case by auto
qed simp

lemma apply_mask_of:
  assumes "distinct (map fst old)"
  shows "distinct (map fst (apply_mask paths new old)) \<and>
    map_of (apply_mask paths new old) k = (if k \<in> set paths then map_of new k else map_of old k)"
  using assms unfolding apply_mask_def
proof (induction paths arbitrary: old)
  case (Cons fp paths)
  let ?old = "case map_of new fp of Some v \<Rightarrow> AList.update fp v old | None \<Rightarrow> AList.delete fp old"
  have "distinct (map fst ?old)" "map_of ?old k = (if k = fp then map_of new fp else map_of old k)"
    using Cons.prems by (auto simp: distinct_update distinct_delete update_conv' delete_conv' split: option.split)
  with Cons.IH [of ?old] show ?case by (cases "k = fp") simp_all
qed simp

lemma commit_doc_view:
  assumes "docs_ok s" "distinct (map fst new)"
  shows "sd_Name (commit_doc fe s name new paths) = name" "doc_ok (commit_doc fe s name new paths)"
    and "doc_view fe (commit_doc fe s name new paths) k = (case fs_view fe s name of
      Some old \<Rightarrow> if paths \<noteq> [] \<and> k \<notin> set paths then old k else Option.bind (map_of new k) (unmarshalValue (fe_rfc fe))
    | None \<Rightarrow> Option.bind (map_of new k) (unmarshalValue (fe_rfc fe)))"
proof -
  have *: "sd_Name (commit_doc fe s name new paths) = name \<and> doc_ok (commit_doc fe s name new paths) \<and>
    doc_view fe (commit_doc fe s name new paths) k = (case fs_view fe s name of
      Some old \<Rightarrow> if paths \<noteq> [] \<and> k \<notin> set paths then old k else Option.bind (map_of new k) (unmarshalValue (fe_rfc fe))
    | None \<Rightarrow> Option.bind (map_of new k) (unmarshalValue (fe_rfc fe)))"
  proof (cases "getDoc fe s name")
    case (Inl er)
    then show ?thesis using assms(2) by (simp add: commit_doc_def doc_ok_def doc_view_def fs_view_def)
  next
    case (Inr d)
    with apply_mask_of [of "sd_Fields d" paths new k] getDoc_Some [OF assms(1) Inr] assms(2) show ?thesis
      by (auto simp: commit_doc_def doc_ok_def doc_view_def fs_view_def)
  qed
  then show "sd_Name (commit_doc fe s name new paths) = name" "doc_ok (commit_doc fe s name new paths)"
    "doc_view fe (commit_doc fe s name new paths) k = (case fs_view fe s name of
      Some old \<Rightarrow> if paths \<noteq> [] \<and> k \<notin> set paths then old k else Option.bind (map_of new k) (unmarshalValue (fe_rfc fe))
    | None \<Rightarrow> Option.bind (map_of new k) (unmarshalValue (fe_rfc fe)))" by auto
qed

lemma fs_view_put:
  assumes "docs_ok s" "doc_ok d"
  shows "fs_view fe (mput s nsDocs (sd_Name d) (JsonB (enc_doc d))) = (fs_view fe s)(sd_Name d := Some (doc_view fe d))"
  using getDoc_put [OF assms] by (auto simp: fs_view_def fun_eq_iff)

lemma fs_view_del:
  assumes "docs_ok s"
  shows "fs_view fe (mdel s nsDocs n) = (fs_view fe s)(n := None)"
  using getDoc_del(2) [OF assms] by (auto simp: fs_view_def fun_eq_iff)

lemma commit_loop_refines:
  assumes "docs_ok s" "list_all storable_write ws"
  shows "\<exists>cs ds ts s'. commit_loop fe ws s = (Inr (cs, ds, ts), s') \<and> docs_ok s' \<and> length ts = length ws \<and>
    fs_view fe s' = fold spec_write ws (fs_view fe s)"
  using assms
proof (induction ws arbitrary: s)
  case (Cons w ws)
  then have ws: "list_all storable_write ws" by simp
  show ?case
  proof (cases w)
    case (WUpdate name fds paths)
    then have fds: "distinct (map fst fds)" "list_all (\<lambda>(_, v). storable v) fds" using Cons.prems by (auto simp: storable_fields_def)
    obtain raws where r: "marshalFields fds = Inr raws" "map fst raws = map fst fds"
      "\<forall>k. Option.bind (map_of raws k) (unmarshalValue (fe_rfc fe)) = map_of fds k"
      using marshalFields_storable [OF fds(2), of "fe_rfc fe"] by blast
    define d where "d = commit_doc fe s name raws paths"
    have "distinct (map fst raws)" using r(2) fds(1) by simp
    note d = commit_doc_view [OF Cons.prems(1) this, of fe name paths, folded d_def]
    let ?s = "mput s nsDocs (sd_Name d) (JsonB (enc_doc d))"
    have ok: "docs_ok ?s" using docs_ok_put [OF Cons.prems(1) d(2)] .
    have "Some (doc_view fe d) = spec_write w (fs_view fe s) name"
      using d(3) r(3) WUpdate by (auto simp: fun_eq_iff split: option.split)
    then have "fs_view fe ?s = spec_write w (fs_view fe s)"
      using fs_view_put [OF Cons.prems(1) d(2)] d(1) WUpdate by simp
    moreover obtain cs ds ts s' where "commit_loop fe ws ?s = (Inr (cs, ds, ts), s')" "docs_ok s'" "length ts = length ws"
      "fs_view fe s' = fold spec_write ws (fs_view fe ?s)" using Cons.IH [OF ok ws] by blast
    moreover from this(1) have "commit_loop fe (w # ws) s = (Inr (d # cs, ds, sd_UpdateTime d # ts), s')"
      using r(1) WUpdate d_def by (simp add: putDoc_def Let_def)
    ultimately show ?thesis by simp
  next
    case (WDelete name)
    define s1 where "s1 = mdel s nsDocs name"
    have ok: "docs_ok s1" unfolding s1_def using getDoc_del(1) [OF Cons.prems(1)] .
    have v: "fs_view fe s1 = spec_write w (fs_view fe s)"
      unfolding s1_def using fs_view_del [OF Cons.prems(1)] WDelete by simp
    obtain cs ds ts s' where IH: "commit_loop fe ws s1 = (Inr (cs, ds, ts), s')" "docs_ok s'" "length ts = length ws"
      "fs_view fe s' = fold spec_write ws (fs_view fe s1)" using Cons.IH [OF ok ws] by blast
    have "\<exists>ds'. commit_loop fe (w # ws) s = (Inr (cs, ds', fe_time fe # ts), s')"
    proof (cases "mem_lookup s nsDocs name")
      case None
      then have "Delete s nsDocs name = Inl ErrNotFound" using Cons.prems(1) by (simp add: Delete_cases)
      moreover from this have "s1 = s" by (simp add: s1_def mdel_def)
      ultimately show ?thesis using IH(1) WDelete by simp
    next
      case (Some x)
      then have "Delete s nsDocs name = Inr s1" using Cons.prems(1) by (simp add: Delete_cases s1_def)
      then show ?thesis using IH(1) WDelete by simp
    qed
    with IH v show ?thesis by auto
  next
    case WOther
    obtain cs ds ts s' where IH: "commit_loop fe ws s = (Inr (cs, ds, ts), s')" "docs_ok s'" "length ts = length ws"
      "fs_view fe s' = fold spec_write ws (fs_view fe s)" using Cons.IH [OF Cons.prems(1) ws] by blast
    then have "commit_loop fe (w # ws) s = (Inr (cs, ds, fe_time fe # ts), s')" using WOther by simp
    with IH WOther show ?thesis by simp
  qed
qed simp

text \<open>
  C20: a commit whose values can be stored succeeds with one result per write, and its effect on the documents is that of its
  writes in their order on a map from names to fields: an update replaces a document or, with a mask, exactly the fields of the
  mask; a deletion removes it.
\<close>

theorem commit_refines_map:
  assumes "docs_ok s" "list_all storable_write ws"
  shows "\<exists>ts s' fs'. Commit fe ws s fs = (Inr (ts, fe_time fe), s', fs') \<and> docs_ok s' \<and> length ts = length ws \<and>
    fs_view fe s' = fold spec_write ws (fs_view fe s)"
proof -
  obtain cs ds ts s' where "commit_loop fe ws s = (Inr (cs, ds, ts), s')" "docs_ok s'" "length ts = length ws"
    "fs_view fe s' = fold spec_write ws (fs_view fe s)" using commit_loop_refines [OF assms, of fe] by blast
  then show ?thesis by (simp add: Commit_def)
qed

lemma commit_loop_fails:
  "commit_loop fe ws s = (Inr x, s') \<Longrightarrow> commit_loop fe [w] s' = (Inl er, s') \<Longrightarrow> commit_loop fe (ws @ [w]) s = (Inl er, s')"
proof (induction ws arbitrary: s x)
  case (Cons v ws)
  show ?case
  proof (cases v)
    case (WUpdate name fds paths)
    then show ?thesis using Cons.prems(1) by (auto simp: Let_def split: sum.splits prod.splits dest!: Cons.IH [OF _ Cons.prems(2)])
  next
    case (WDelete name)
    then show ?thesis using Cons.prems(1) by (auto split: sum.splits prod.splits dest!: Cons.IH [OF _ Cons.prems(2)])
  next
    case WOther
    then show ?thesis using Cons.prems(1) by (auto split: sum.splits prod.splits dest!: Cons.IH [OF _ Cons.prems(2)])
  qed
qed simp

text \<open>
  A commit is not atomic.  When a write cannot be stored, the commit reports an error, but the writes before it have been
  made and no listener is told of them.
\<close>

theorem commit_is_not_atomic:
  assumes "docs_ok s" "list_all storable_write ws" "marshalFields bad = Inl er"
  shows "\<exists>s' fs'. Commit fe (ws @ [WUpdate name bad paths]) s fs = (Inl (Internal, er), s', fs') \<and>
    fs_view fe s' = fold spec_write ws (fs_view fe s) \<and> fs_listeners fs' = fs_listeners fs"
proof -
  obtain cs ds ts s' where "commit_loop fe ws s = (Inr (cs, ds, ts), s')" "fs_view fe s' = fold spec_write ws (fs_view fe s)"
    using commit_loop_refines [OF assms(1,2), of fe] by blast
  moreover from this(1) have "commit_loop fe (ws @ [WUpdate name bad paths]) s = (Inl (Internal, er), s')"
    by (rule commit_loop_fails) (simp add: assms(3))
  ultimately show ?thesis by (simp add: Commit_def)
qed

section \<open>Witnesses\<close>

definition fs_demo :: fs_env where
  "fs_demo = \<lparr>fe_env = \<lparr>e_now = (\<lambda>_. 5), e_range = (\<lambda>xs. xs)\<rparr>, fe_rfc = (\<lambda>_. None), fe_ids = (\<lambda>xs. xs), fe_names = (\<lambda>xs. xs),
     fe_pick = (\<lambda>_ _. True), fe_read = (\<lambda>_ _. 7), fe_jsonErr = (\<lambda>_. [])\<rparr>"

definition fs_start :: firestore where
  "fs_start = \<lparr>fs_verSeq = 0, fs_listeners = [], fs_nextListener = 0\<rparr>"

definition demo_writes :: "pb_write list" where
  "demo_writes = [WUpdate ''c/a'' [(''x'', VInt 1), (''y'', VBool True)] [], WUpdate ''c/a'' [(''x'', VInt 2)] [''x''], WDelete ''c/b'']"

lemma demo_writes_ok: "docs_ok NewMemory" "list_all storable_write demo_writes"
  by (simp_all add: demo_writes_def storable_fields_def in_int64_def)

lemma demo_writes_spec:
  "fold spec_write demo_writes (\<lambda>_. None) ''c/a'' = Some (\<lambda>k. if k = ''x'' then Some (VInt 2) else if k = ''y'' then Some (VBool True) else None)"
  by (simp add: demo_writes_def fun_eq_iff)

lemma fs_view_New: "fs_view fe NewMemory = (\<lambda>_. None)"
  by (simp add: fs_view_def getDoc_cases fun_eq_iff)

theorem commit_refines_map_witness:
  "\<exists>ts s' fs'. Commit fs_demo demo_writes NewMemory fs_start = (Inr (ts, 5), s', fs') \<and> length ts = 3 \<and>
    fs_view fs_demo s' ''c/a'' = Some (\<lambda>k. if k = ''x'' then Some (VInt 2) else if k = ''y'' then Some (VBool True) else None)"
proof -
  obtain ts s' fs' where "Commit fs_demo demo_writes NewMemory fs_start = (Inr (ts, fe_time fs_demo), s', fs')"
    "length ts = length demo_writes" "fs_view fs_demo s' = fold spec_write demo_writes (fs_view fs_demo NewMemory)"
    using commit_refines_map [OF demo_writes_ok, of fs_demo fs_start] by blast
  then show ?thesis using demo_writes_spec by (simp add: fs_view_New) (simp add: fs_demo_def demo_writes_def)
qed

theorem commit_is_not_atomic_witness:
  "\<exists>s' fs'. Commit fs_demo (demo_writes @ [WUpdate ''c/d'' [(''z'', VDouble (NonFinite ''NaN''))] []]) NewMemory fs_start =
      (Inl (Internal, ''json: unsupported value: NaN''), s', fs') \<and> fs_view fs_demo s' ''c/a'' \<noteq> None"
proof -
  have "marshalFields [(''z'', VDouble (NonFinite ''NaN''))] = Inl ''json: unsupported value: NaN''"
    by (simp add: marshalValue_def)
  from commit_is_not_atomic [OF demo_writes_ok this, of fs_demo "''c/d''" "[]" fs_start] obtain s' fs' where
    "Commit fs_demo (demo_writes @ [WUpdate ''c/d'' [(''z'', VDouble (NonFinite ''NaN''))] []]) NewMemory fs_start =
      (Inl (Internal, ''json: unsupported value: NaN''), s', fs')"
    "fs_view fs_demo s' = fold spec_write demo_writes (fs_view fs_demo NewMemory)" by blast
  then show ?thesis using demo_writes_spec by (simp add: fs_view_New)
qed

end
