(* ===== verification/Firestore_Listen.thy ===== *)
theory Firestore_Listen
  imports Firestore
begin

text \<open>
  What listeners of Firestore see: a change reaches every listener that watches the document, a new query target begins with all
  documents of its collection, and what becomes of a listener whose client does not read.
\<close>

lemma listener_send_room [simp]:
  "\<not> l_done l \<Longrightarrow> length (l_outbox l) < outbox_size \<Longrightarrow> listener_send fe m l = l\<lparr>l_outbox := l_outbox l @ [m]\<rparr>"
  by (simp add: listener_send_def)

lemma send_all_room:
  "\<not> l_done l \<Longrightarrow> length (l_outbox l) + length ms \<le> outbox_size \<Longrightarrow>
    fold (listener_send fe) ms l = l\<lparr>l_outbox := l_outbox l @ ms\<rparr>"
  by (induction ms arbitrary: l) simp_all

lemma notify_room:
  assumes "\<not> l_done l" "length (l_outbox l) + 2 \<le> outbox_size" "matched_targets fe name l \<noteq> []"
  shows "notify fe name msg i l = l\<lparr>l_outbox := l_outbox l @
    [msg (matched_targets fe name l), TargetChange TC_NO_CHANGE [] (Some (fe_read fe i name))]\<rparr>"
  using assms by (simp add: notify_def sendNoChange_def Let_def)

lemma create_cases:
  assumes "CreateDocument fe parent coll ident flds s fs = (Inr doc, s', fs')"
  obtains d raws where "getDoc fe s (parent @ ''/'' @ coll @ ''/'' @ ident) \<in> range Inl" "marshalFields flds = Inr raws"
    "d = \<lparr>sd_Name = parent @ ''/'' @ coll @ ''/'' @ ident, sd_Fields = raws, sd_CreateTime = fe_time fe, sd_UpdateTime = fe_time fe\<rparr>"
    "s' = mput s nsDocs (sd_Name d) (JsonB (enc_doc d))" "doc = toProtoDoc (fe_rfc fe) d" "fs' = broadcastChange fe d fs"
  using assms by (auto simp: CreateDocument_def putDoc_def Let_def split: sum.splits)

lemma marshalFields_keys: "marshalFields fds = Inr raws \<Longrightarrow> map fst raws = map fst fds"
  by (induction fds arbitrary: raws) (auto split: sum.splits)

text \<open>
  A created document is seen.  It can be read back as the answer of the creation gave it, and every open listener with room
  for two messages and a target that covers its name is sent the document, followed by the mark that closes the snapshot; a
  listener without such a target is left alone.
\<close>

theorem created_document_is_seen:
  assumes "docs_ok s" "distinct (map fst flds)"
    and "CreateDocument fe parent coll ident flds s fs = (Inr doc, s', fs')" "(i, l) \<in> set (fs_listeners fs)"
  shows "GetDocument fe s' (pd_Name doc) = Inr doc \<and> pd_Name doc = parent @ ''/'' @ coll @ ''/'' @ ident \<and>
    (\<exists>l'. (i, l') \<in> set (fs_listeners fs') \<and>
      (if matched_targets fe (pd_Name doc) l = [] then l' = l
       else l_done l \<or> outbox_size < length (l_outbox l) + 2 \<or>
         l' = l\<lparr>l_outbox := l_outbox l @ [DocumentChange doc (matched_targets fe (pd_Name doc) l),
           TargetChange TC_NO_CHANGE [] (Some (fe_read fe i (pd_Name doc)))]\<rparr>))"
proof -
  obtain d raws where d: "marshalFields flds = Inr raws"
    "d = \<lparr>sd_Name = parent @ ''/'' @ coll @ ''/'' @ ident, sd_Fields = raws, sd_CreateTime = fe_time fe, sd_UpdateTime = fe_time fe\<rparr>"
    "s' = mput s nsDocs (sd_Name d) (JsonB (enc_doc d))" "doc = toProtoDoc (fe_rfc fe) d" "fs' = broadcastChange fe d fs"
    by (rule create_cases [OF assms(3)]) blast
  have n: "pd_Name doc = sd_Name d" using d(4) by (simp add: toProtoDoc_def)
  have "doc_ok d" using d(2) marshalFields_keys [OF d(1)] assms(2) by (simp add: doc_ok_def)
  from getDoc_put [OF assms(1) this] have "GetDocument fe s' (pd_Name doc) = Inr doc"
    using n d(3,4) by (simp add: GetDocument_def)
  moreover define l' where "l' = notify fe (pd_Name doc) (DocumentChange doc) i l"
  have "(i, l') \<in> set (fs_listeners fs')"
    using assms(4) d(4,5) n by (force simp: broadcastChange_def l'_def)
  moreover have "if matched_targets fe (pd_Name doc) l = [] then l' = l
       else l_done l \<or> outbox_size < length (l_outbox l) + 2 \<or>
         l' = l\<lparr>l_outbox := l_outbox l @ [DocumentChange doc (matched_targets fe (pd_Name doc) l),
           TargetChange TC_NO_CHANGE [] (Some (fe_read fe i (pd_Name doc)))]\<rparr>"
  proof (cases "matched_targets fe (pd_Name doc) l = []")
    case True
    then show ?thesis by (simp add: l'_def notify_def)
  next
    case False
    then show ?thesis
      using notify_room [of l fe "pd_Name doc" "DocumentChange doc" i]
      by (cases "l_done l"; cases "outbox_size < length (l_outbox l) + 2") (simp_all add: not_less l'_def)
  qed
  moreover have "pd_Name doc = parent @ ''/'' @ coll @ ''/'' @ ident" using n d(2) by simp
  ultimately show ?thesis by blast
qed

section \<open>The first snapshot\<close>

lemma child_key:
  "prefix (coll @ ''/'') k \<and> CHR ''/'' \<notin> set (trimPrefix k (coll @ ''/'')) \<longleftrightarrow>
    (\<exists>ident. k = coll @ ''/'' @ ident \<and> CHR ''/'' \<notin> set ident)"
  by (auto simp: prefix_def trimPrefix_def hasPrefix_def)

lemma listColl_names:
  assumes "docs_ok s" "env_ok (fe_env fe)"
  shows "d \<in> set (listColl fe s coll) \<longleftrightarrow>
    getDoc fe s (sd_Name d) = Inr d \<and> (\<exists>ident. sd_Name d = coll @ ''/'' @ ident \<and> CHR ''/'' \<notin> set ident)"
proof -
  have "d \<in> set (listColl fe s coll) \<longleftrightarrow> (\<exists>k b. mem_lookup s nsDocs k = Some b \<and> unmarshal_doc (fe_rfc fe) b = (d, True) \<and>
      (\<exists>ident. k = coll @ ''/'' @ ident \<and> CHR ''/'' \<notin> set ident))"
    using assms unfolding child_key [symmetric] by (auto simp: listColl_def Let_def set_decoded in_mlist)
  moreover have "k = sd_Name d \<and> b = JsonB (enc_doc d)"
    if k: "mem_lookup s nsDocs k = Some b" "unmarshal_doc (fe_rfc fe) b = (d, True)" for k b
  proof -
    obtain x where "unmarshal_doc (fe_rfc fe) b = (x, True)" "sd_Name x = k" "b = JsonB (enc_doc x)"
      using doc_res.lookup_read [of s k b "fe_rfc fe"] assms(1) k(1) by blast
    with k(2) show ?thesis by simp
  qed
  moreover have "unmarshal_doc (fe_rfc fe) (JsonB (enc_doc d)) = (d, True)" by (simp add: dec_enc_doc)
  moreover have "mem_lookup s nsDocs (sd_Name d) = Some (JsonB (enc_doc d)) \<longleftrightarrow> getDoc fe s (sd_Name d) = Inr d"
  proof
    assume "mem_lookup s nsDocs (sd_Name d) = Some (JsonB (enc_doc d))"
    then show "getDoc fe s (sd_Name d) = Inr d" using getDoc_cases [OF assms(1), of fe "sd_Name d"] by (simp add: dec_enc_doc)
  qed (rule getDoc_Some(3) [OF assms(1)])
  ultimately show ?thesis by metis
qed

definition listed_docs :: "listen_msg list \<Rightarrow> pb_doc set" where
  "listed_docs ms = {d. \<exists>ids. DocumentChange d ids \<in> set ms}"


section \<open>A client that does not read\<close>

lemma listener_send_fills:
  "l_done l \<or> n \<le> length (l_outbox l) \<Longrightarrow> l_done (listener_send fe m l) \<or> Suc n \<le> length (l_outbox (listener_send fe m l))"
  "l_targets (listener_send fe m l) = l_targets l"
  by (auto simp: listener_send_def)

lemma notify_fills:
  assumes "matched_targets fe name l \<noteq> []" "l_done l \<or> n \<le> length (l_outbox l)"
  shows "l_done (notify fe name msg i l) \<or> n + 2 \<le> length (l_outbox (notify fe name msg i l))"
    and "l_targets (notify fe name msg i l) = l_targets l"
  using assms(1) listener_send_fills(1) [OF listener_send_fills(1) [OF assms(2)]]
  by (simp_all add: notify_def sendNoChange_def listener_send_fills(2) Let_def)

lemma listener_send_bound: "length (l_outbox l) \<le> outbox_size \<Longrightarrow> length (l_outbox (listener_send fe m l)) \<le> outbox_size"
  by (auto simp: listener_send_def)

lemma notify_bound: "length (l_outbox l) \<le> outbox_size \<Longrightarrow> length (l_outbox (notify fe name msg i l)) \<le> outbox_size"
  by (simp add: notify_def sendNoChange_def Let_def listener_send_bound)

lemma unread_changes_fill:
  assumes "\<forall>d\<in>set ds. matched_targets fe (sd_Name d) l \<noteq> []" "(i, l) \<in> set (fs_listeners fs)"
    and "l_done l \<or> n \<le> length (l_outbox l)" "length (l_outbox l) \<le> outbox_size"
  shows "\<exists>l'. (i, l') \<in> set (fs_listeners (fold (broadcastChange fe) ds fs)) \<and> length (l_outbox l') \<le> outbox_size \<and>
    (l_done l' \<or> n + 2 * length ds \<le> length (l_outbox l'))"
  using assms
proof (induction ds arbitrary: fs l n)
  case (Cons d ds)
  define l1 where "l1 = notify fe (sd_Name d) (DocumentChange (toProtoDoc (fe_rfc fe) d)) i l"
  have m: "matched_targets fe (sd_Name d) l \<noteq> []" using Cons.prems(1) by simp
  note fill = notify_fills [OF m Cons.prems(3), of "DocumentChange (toProtoDoc (fe_rfc fe) d)" i, folded l1_def]
  have "(i, l1) \<in> set (fs_listeners (broadcastChange fe d fs))"
    using Cons.prems(2) by (force simp: broadcastChange_def l1_def)
  moreover have "\<forall>d\<in>set ds. matched_targets fe (sd_Name d) l1 \<noteq> []"
    using Cons.prems(1) fill(2) by (simp add: matched_targets_def)
  moreover have "length (l_outbox l1) \<le> outbox_size" unfolding l1_def by (rule notify_bound [OF Cons.prems(4)])
  ultimately show ?case
    using Cons.IH [of l1 "broadcastChange fe d fs" "n + 2"] fill(1) by (simp add: algebra_simps)
qed auto

text \<open>
  A client that stops reading brings the emulator down.  After 33 changes to documents that a listener watches, made while
  its sender goroutine is blocked, the listener has been closed by the writers; when the client then ends its stream, the handler closes
  the same channel again, which is a panic that ends the process.
\<close>

theorem unread_listener_panics:
  assumes "(i, l) \<in> set (fs_listeners fs)" "length (l_outbox l) \<le> outbox_size" "33 \<le> length ds"
    and "\<forall>d\<in>set ds. matched_targets fe (sd_Name d) l \<noteq> []"
  shows "\<exists>l'. (i, l') \<in> set (fs_listeners (fold (broadcastChange fe) ds fs)) \<and> listen_end l' = Panic ''close of closed channel''"
proof -
  obtain l' where "(i, l') \<in> set (fs_listeners (fold (broadcastChange fe) ds fs))" "length (l_outbox l') \<le> outbox_size"
    "l_done l' \<or> 0 + 2 * length ds \<le> length (l_outbox l')"
    using unread_changes_fill [OF assms(4,1) _ assms(2), of 0] by auto
  then show ?thesis using assms(3) by (auto simp: listen_end_def outbox_size_def)
qed

section \<open>Witnesses\<close>

definition demo_listener :: listener where
  "demo_listener = \<lparr>l_outbox = [], l_done = False, l_targets = [(1, \<lparr>lt_docNames = [], lt_parentColl = ''r/c''\<rparr>)]\<rparr>"

definition demo_fs :: firestore where
  "demo_fs = \<lparr>fs_verSeq = 0, fs_listeners = [(0, demo_listener)], fs_nextListener = 1\<rparr>"

lemma demo_matches: "hasPrefix n ''r/c/'' \<Longrightarrow> CHR ''/'' \<notin> set (drop (Suc (Suc (Suc (Suc 0)))) n) \<Longrightarrow> matched_targets fs_demo n demo_listener = [1]"
  by (simp add: matched_targets_def fs_demo_def demo_listener_def target_matches_def)

theorem created_document_is_seen_witness:
  "\<exists>doc s' fs' l'. CreateDocument fs_demo ''r'' ''c'' ''a'' [(''x'', VInt 1)] NewMemory demo_fs = (Inr doc, s', fs') \<and>
    GetDocument fs_demo s' ''r/c/a'' = Inr doc \<and> (0, l') \<in> set (fs_listeners fs') \<and> hd (l_outbox l') = DocumentChange doc [1]"
proof -
  have c: "\<exists>doc s' fs'. CreateDocument fs_demo ''r'' ''c'' ''a'' [(''x'', VInt 1)] NewMemory demo_fs = (Inr doc, s', fs')"
    by (simp add: CreateDocument_def getDoc_cases marshalValue_def putDoc_def Let_def)
  then obtain doc s' fs' where c: "CreateDocument fs_demo ''r'' ''c'' ''a'' [(''x'', VInt 1)] NewMemory demo_fs = (Inr doc, s', fs')" by blast
  have "(0, demo_listener) \<in> set (fs_listeners demo_fs)" by (simp add: demo_fs_def)
  from created_document_is_seen [OF demo_writes_ok(1) _ c this] obtain l' where
    r: "GetDocument fs_demo s' (pd_Name doc) = Inr doc" "pd_Name doc = ''r'' @ ''/'' @ ''c'' @ ''/'' @ ''a''"
      "(0, l') \<in> set (fs_listeners fs')"
      "if matched_targets fs_demo (pd_Name doc) demo_listener = [] then l' = demo_listener
       else l_done demo_listener \<or> outbox_size < length (l_outbox demo_listener) + 2 \<or>
         l' = demo_listener\<lparr>l_outbox := l_outbox demo_listener @ [DocumentChange doc (matched_targets fs_demo (pd_Name doc) demo_listener),
           TargetChange TC_NO_CHANGE [] (Some (fe_read fs_demo 0 (pd_Name doc)))]\<rparr>" by auto
  moreover have "matched_targets fs_demo ''r/c/a'' demo_listener = [1]" by (rule demo_matches) (simp_all add: hasPrefix_def)
  ultimately have "hd (l_outbox l') = DocumentChange doc [1]" by (simp add: demo_listener_def outbox_size_def)
  with c r show ?thesis by auto
qed


theorem unread_listener_panics_witness:
  "\<exists>l'. (0, l') \<in> set (fs_listeners (fold (broadcastChange fs_demo)
      (replicate 33 \<lparr>sd_Name = ''r/c/a'', sd_Fields = [], sd_CreateTime = 0, sd_UpdateTime = 0\<rparr>) demo_fs)) \<and>
    listen_end l' = Panic ''close of closed channel''"
proof (rule unread_listener_panics)
  show "(0, demo_listener) \<in> set (fs_listeners demo_fs)" by (simp add: demo_fs_def)
  have "matched_targets fs_demo ''r/c/a'' demo_listener = [1]" by (rule demo_matches) (simp_all add: hasPrefix_def)
  then show "\<forall>d\<in>set (replicate 33 \<lparr>sd_Name = ''r/c/a'', sd_Fields = [], sd_CreateTime = 0, sd_UpdateTime = 0\<rparr>).
      matched_targets fs_demo (sd_Name d) demo_listener \<noteq> []" by simp
qed (simp_all add: demo_listener_def outbox_size_def)

end
