(* ===== verification/Sql_Db.thy ===== *)
theory Sql_Db
  imports Go_Prelude
begin

text \<open>
  Package \<^verbatim>\<open>database/sql\<close> with the SQLite driver, which the BigQuery and Cloud SQL services execute statements with.  SQLite is
  not part of the repository: a database is a state of any type, and the two operations are fields of a record.
  A statement can change the database and fail all the same, so both return the state.
\<close>

text \<open>The values that go in and out of the driver.  A float is named by a decimal literal for it; \<open>VTime\<close> is a \<^verbatim>\<open>time.Time\<close>.\<close>

datatype go_value = VNil | VBool bool | VInt int | VFloat string | VStr string | VBytes string | VTime time

text \<open>The rows of a query, with the names and declared types of its columns; the iteration can end with an error.\<close>

record result_set =
  rset_cols :: "(string \<times> string) list"
  rset_rows :: "go_value list list"
  rset_err :: "string option"

text \<open>
  \<^verbatim>\<open>Exec\<close> reports the number of affected rows and the last inserted row, when the driver knows them.
\<close>

record 'db sql_driver =
  drv_exec :: "'db \<Rightarrow> string \<Rightarrow> go_value list \<Rightarrow> 'db \<times> (string + int option \<times> int option)"
  drv_query :: "'db \<Rightarrow> string \<Rightarrow> go_value list \<Rightarrow> 'db \<times> (string + result_set)"

text \<open>How the packages \<^verbatim>\<open>fmt\<close> and \<^verbatim>\<open>strconv\<close> write a float, and \<^verbatim>\<open>fmt\<close> a time.\<close>

record fmt_env =
  fmt_float_v :: "string \<Rightarrow> string"
  fmt_float_g :: "string \<Rightarrow> string"
  fmt_time :: "time \<Rightarrow> string"

text \<open>\<^verbatim>\<open>fmt.Sprintf("%v", v)\<close>.\<close>

fun sprint_v :: "fmt_env \<Rightarrow> go_value \<Rightarrow> string" where
  "sprint_v f VNil = ''<nil>''"
| "sprint_v f (VBool b) = (if b then ''true'' else ''false'')"
| "sprint_v f (VInt i) = itoai i"
| "sprint_v f (VFloat x) = fmt_float_v f x"
| "sprint_v f (VStr s) = s"
| "sprint_v f (VBytes b) = ''['' @ join '' '' (map (\<lambda>c. itoa (of_char c)) b) @ '']''"
| "sprint_v f (VTime t) = fmt_time f t"

text \<open>A decoded JSON value as an argument; the driver interface has no slices and no maps.\<close>

fun json_arg :: "json \<Rightarrow> go_value option" where
  "json_arg JNull = Some VNil"
| "json_arg (JBool b) = Some (VBool b)"
| "json_arg (JNum n) = Some (VFloat (itoai n))"
| "json_arg (JFloat x) = Some (VFloat x)"
| "json_arg (JStr s) = Some (VStr s)"
| "json_arg _ = None"

text \<open>Texts the scanners of statements share.\<close>

definition str_contains :: "string \<Rightarrow> string \<Rightarrow> bool" where
  "str_contains s m \<longleftrightarrow> cut_string m s \<noteq> None"

text \<open>The first byte of a text, if there is one, satisfies a predicate.\<close>

definition starts :: "(char \<Rightarrow> bool) \<Rightarrow> string \<Rightarrow> bool" where
  "starts P s \<longleftrightarrow> (case s of [] \<Rightarrow> True | c # _ \<Rightarrow> P c)"

lemma starts_Nil [simp]: "starts Q []"
  by (simp add: starts_def)

lemma starts_Cons: "starts Q (c # s) \<longleftrightarrow> Q c"
  by (simp add: starts_def)

lemma starts_mono: "starts P s \<Longrightarrow> (\<And>c. P c \<Longrightarrow> Q c) \<Longrightarrow> starts Q s"
  by (auto simp: starts_def split: list.splits)

lemma starts_append: "starts Q (a @ b) \<longleftrightarrow> (if a = [] then starts Q b else Q (hd a))"
  by (cases a) (auto simp: starts_def)

end
