(* ===== verification/Pg_Translate.thy ===== *)
theory Pg_Translate
  imports Sql_Db
begin

text \<open>
  Package \<^verbatim>\<open>internal/services/cloudsql/pgwire\<close>, \<^verbatim>\<open>translate.go\<close>: PostgreSQL statements are rewritten for SQLite.  Positions in the
  text are rests of the text; where the code looks at the byte before a position, that byte is an argument.  Upper-casing and
  white space are those of ASCII.
\<close>

section \<open>Lexical helpers\<close>

text \<open>The rest of a quoted region after its opening quote, and what follows it; a doubled quote stands for itself.\<close>

fun quoted_tail :: "char \<Rightarrow> string \<Rightarrow> string \<times> string" where
  "quoted_tail q [] = ([], [])"
| "quoted_tail q (c # s) =
    (if c = q
     then (case s of [] \<Rightarrow> ([c], [])
       | d # s' \<Rightarrow> if d = q then (let (a, b) = quoted_tail q s' in (c # d # a, b)) else ([c], s))
     else (let (a, b) = quoted_tail q s in (c # a, b)))"

definition squote :: char where "squote = CHR 0x27"
definition dquote :: char where "dquote = CHR 0x22"

definition skipSingleQuoted :: "string \<Rightarrow> string \<times> string" where
  "skipSingleQuoted s = (let (a, b) = quoted_tail squote (tl s) in (hd s # a, b))"

definition skipDoubleQuoted :: "string \<Rightarrow> string \<times> string" where
  "skipDoubleQuoted s = (let (a, b) = quoted_tail dquote (tl s) in (hd s # a, b))"

definition isIdentByte :: "char \<Rightarrow> bool" where
  "isIdentByte c = (c = CHR ''_'' \<or> is_digit c \<or> byte_in 0x61 0x7A c \<or> byte_in 0x41 0x5A c)"

text \<open>The tag of a dollar quote at the start of the text, with what follows its second dollar sign.\<close>

definition dollarQuoteTag :: "string \<Rightarrow> (string \<times> string) option" where
  "dollarQuoteTag s = (case s of [] \<Rightarrow> None
     | c # r \<Rightarrow> if c \<noteq> CHR ''$'' then None
         else (case dropWhile isIdentByte r of
             d # r' \<Rightarrow> if d = CHR ''$'' then Some (takeWhile isIdentByte r, r') else None
           | [] \<Rightarrow> None))"

text \<open>A dollar-quoted block, given its tag and the text after the opening delimiter: up to its end, or all of it.\<close>

definition dollar_block :: "string \<Rightarrow> string \<Rightarrow> string \<times> string" where
  "dollar_block tag r = (let delim = ''$'' @ tag @ ''$'' in
     case cut_string delim r of None \<Rightarrow> (delim @ r, []) | Some (a, b) \<Rightarrow> (delim @ a @ delim, b))"

lemma quoted_tail_append: "quoted_tail q s = (a, b) \<Longrightarrow> s = a @ b"
proof (induction q s arbitrary: a b rule: quoted_tail.induct)
  case (2 q c s)
  show ?case
  proof (cases "c = q")
    case False
    obtain a1 b1 where "quoted_tail q s = (a1, b1)" by fastforce
    with 2 False show ?thesis by simp
  next
    case c: True
    show ?thesis
    proof (cases s)
      case Nil
      then show ?thesis using 2 c by simp
    next
      case (Cons d s')
      obtain a1 b1 where "quoted_tail q s' = (a1, b1)" by fastforce
      with 2 c Cons show ?thesis by (cases "d = q") auto
    qed
  qed
qed simp

lemma cut_string_append: "cut_string m s = Some (a, b) \<Longrightarrow> s = a @ m @ b"
proof (induction m s arbitrary: a b rule: cut_string.induct)
  case (2 m c s)
  show ?case
  proof (cases "hasPrefix (c # s) m")
    case True
    then obtain r where "c # s = m @ r" by (auto simp: hasPrefix_def prefix_def)
    moreover have "a = []" "b = drop (length m) (c # s)" using 2(2) True by simp_all
    ultimately show ?thesis by simp
  next
    case False
    then show ?thesis using 2 by (auto split: option.splits)
  qed
qed (auto split: if_splits)

lemma dollarQuoteTag_append: "dollarQuoteTag s = Some (tag, r) \<Longrightarrow> s = ''$'' @ tag @ ''$'' @ r"
  by (auto simp: dollarQuoteTag_def split: list.splits if_splits) (metis takeWhile_dropWhile_id)

lemma dollar_block_append: "dollar_block tag r = (a, b) \<Longrightarrow> ''$'' @ tag @ ''$'' @ r = a @ b"
  by (auto simp: dollar_block_def Let_def split: option.splits dest!: cut_string_append)

lemma skip_quoted_append:
  "s \<noteq> [] \<Longrightarrow> skipSingleQuoted s = (a, b) \<Longrightarrow> s = a @ b \<and> a \<noteq> []"
  "s \<noteq> [] \<Longrightarrow> skipDoubleQuoted s = (a, b) \<Longrightarrow> s = a @ b \<and> a \<noteq> []"
  by (auto simp: skipSingleQuoted_def skipDoubleQuoted_def neq_Nil_conv split: prod.splits dest!: quoted_tail_append)

text \<open>What is left after a region is shorter, for the termination of the scanners.\<close>

lemma rest_shorter:
  "length (snd (skipSingleQuoted (c # s))) < Suc (length s)"
  "length (snd (skipDoubleQuoted (c # s))) < Suc (length s)"
  "dollarQuoteTag (c # s) = Some (tag, r) \<Longrightarrow> length (snd (dollar_block tag r)) < Suc (length s)"
proof -
  show "length (snd (skipSingleQuoted (c # s))) < Suc (length s)"
    using skip_quoted_append(1) [of "c # s" "fst (skipSingleQuoted (c # s))" "snd (skipSingleQuoted (c # s))"]
    by simp (metis length_append length_Cons less_add_same_cancel2 length_greater_0_conv)
  show "length (snd (skipDoubleQuoted (c # s))) < Suc (length s)"
    using skip_quoted_append(2) [of "c # s" "fst (skipDoubleQuoted (c # s))" "snd (skipDoubleQuoted (c # s))"]
    by simp (metis length_append length_Cons less_add_same_cancel2 length_greater_0_conv)
  assume tag: "dollarQuoteTag (c # s) = Some (tag, r)"
  have "length (c # s) = length (''$'' @ tag @ ''$'' @ r)" using dollarQuoteTag_append [OF tag] by simp
  moreover have "''$'' @ tag @ ''$'' @ r = fst (dollar_block tag r) @ snd (dollar_block tag r)"
    by (rule dollar_block_append) simp
  moreover have "fst (dollar_block tag r) \<noteq> []" by (simp add: dollar_block_def Let_def split: option.split)
  ultimately show "length (snd (dollar_block tag r)) < Suc (length s)"
    by (metis length_append length_Cons less_add_same_cancel2 length_greater_0_conv)
qed

lemma rest_shorter_eq:
  "(a, b) = skipSingleQuoted (c # s) \<Longrightarrow> length b < Suc (length s)"
  "(a, b) = skipDoubleQuoted (c # s) \<Longrightarrow> length b < Suc (length s)"
  "dollarQuoteTag (c # s) = Some (tag, r) \<Longrightarrow> (a, b) = dollar_block tag r \<Longrightarrow> length b < Suc (length s)"
  using rest_shorter by (metis snd_conv)+

section \<open>Placeholders, casts and keywords\<close>

text \<open>\<^verbatim>\<open>n = n*10 + digit\<close> over the digits, in 64-bit integers.\<close>

definition param_index :: "string \<Rightarrow> int" where
  "param_index ds = foldl (\<lambda>n d. wrap64 (n * 10 + int (digit_val d))) 0 ds"

lemma length_dropWhile_lt: "length (dropWhile P s) < Suc (length s)"
  by (simp add: length_dropWhile_le less_Suc_eq_le)

function rewriteSQL :: "string \<Rightarrow> string \<times> int list" where
  "rewriteSQL [] = ([], [])"
| "rewriteSQL (c # s) =
    (if c = squote then (let (a, b) = skipSingleQuoted (c # s); (t, ord) = rewriteSQL b in (a @ t, ord))
     else if c = dquote then (let (a, b) = skipDoubleQuoted (c # s); (t, ord) = rewriteSQL b in (a @ t, ord))
     else if c = CHR ''$'' then
       (case dollarQuoteTag (c # s) of
          Some (tag, r) \<Rightarrow> (let (a, b) = dollar_block tag r; (t, ord) = rewriteSQL b in (a @ t, ord))
        | None \<Rightarrow>
            if takeWhile is_digit s \<noteq> []
            then (let (t, ord) = rewriteSQL (dropWhile is_digit s) in (CHR ''?'' # t, param_index (takeWhile is_digit s) # ord))
            else (let (t, ord) = rewriteSQL s in (c # t, ord)))
     else (let (t, ord) = rewriteSQL s in (c # t, ord)))"
  by pat_completeness auto
termination
  by (relation "measure length") (auto dest: rest_shorter_eq simp: length_dropWhile_lt)

text \<open>The code of \<^verbatim>\<open>stripCasts\<close> looks for two colons first, then for quotes.\<close>

definition cast_byte :: "char \<Rightarrow> bool" where
  "cast_byte c = (isIdentByte c \<or> c = CHR '' '')"

function stripCasts :: "string \<Rightarrow> string" where
  "stripCasts [] = []"
| "stripCasts (c # s) =
    (if c = CHR '':'' \<and> s \<noteq> [] \<and> hd s = CHR '':'' then stripCasts (dropWhile cast_byte (tl s))
     else if c = squote then (let (a, b) = skipSingleQuoted (c # s) in a @ stripCasts b)
     else if c = dquote then (let (a, b) = skipDoubleQuoted (c # s) in a @ stripCasts b)
     else c # stripCasts s)"
  by pat_completeness auto

lemma length_dropWhile_tl: "s \<noteq> [] \<Longrightarrow> length (dropWhile P (tl s)) < Suc (length s)"
  using length_dropWhile_le [of P "tl s"] by (cases s) auto

termination stripCasts
  by (relation "measure length") (auto dest: rest_shorter_eq simp: length_dropWhile_lt length_dropWhile_tl)

text \<open>\<^verbatim>\<open>unicode.IsLetter\<close> and \<^verbatim>\<open>unicode.IsDigit\<close> of a byte taken as a code point.\<close>

definition latin1_letter :: "char \<Rightarrow> bool" where
  "latin1_letter c = (byte_in 0x41 0x5A c \<or> byte_in 0x61 0x7A c \<or> byte_in 0xAA 0xAA c \<or> byte_in 0xB5 0xB5 c \<or> byte_in 0xBA 0xBA c \<or>
     byte_in 0xC0 0xD6 c \<or> byte_in 0xD8 0xF6 c \<or> byte_in 0xF8 0xFF c)"

definition isWordStart :: "char option \<Rightarrow> char \<Rightarrow> bool" where
  "isWordStart prev c = (isIdentByte c \<and> \<not> is_digit c \<and>
     (case prev of None \<Rightarrow> True | Some p \<Rightarrow> \<not> latin1_letter p \<and> \<not> is_digit p \<and> p \<noteq> CHR ''_''))"

function replaceKeywords :: "(string \<times> string) list \<Rightarrow> char option \<Rightarrow> string \<Rightarrow> string" where
  "replaceKeywords repl prev [] = []"
| "replaceKeywords repl prev (c # s) =
    (if c = squote then (let (a, b) = skipSingleQuoted (c # s) in a @ replaceKeywords repl (Some (last a)) b)
     else if c = dquote then (let (a, b) = skipDoubleQuoted (c # s) in a @ replaceKeywords repl (Some (last a)) b)
     else if isWordStart prev c then
       (let word = takeWhile isIdentByte (c # s) in
         (case map_of repl (toUpper word) of Some r \<Rightarrow> r | None \<Rightarrow> word) @
         replaceKeywords repl (Some (last word)) (dropWhile isIdentByte s))
     else c # replaceKeywords repl (Some c) s)"
  by pat_completeness auto
termination replaceKeywords
  by (relation "measure (\<lambda>(_, _, s). length s)") (auto dest: rest_shorter_eq simp: length_dropWhile_lt)

definition pg_keywords :: "(string \<times> string) list" where
  "pg_keywords = [(''BIGSERIAL'', ''INTEGER PRIMARY KEY AUTOINCREMENT''), (''SERIAL'', ''INTEGER PRIMARY KEY AUTOINCREMENT''),
     (''BYTEA'', ''BLOB''), (''BOOLEAN'', ''BOOLEAN'')]"

definition pg_translate :: "string \<Rightarrow> string \<times> int list" where
  "pg_translate q = (let (out, ord) = rewriteSQL q in (replaceKeywords pg_keywords None (stripCasts out), ord))"

definition pg_translateSQL :: "string \<Rightarrow> string" where
  "pg_translateSQL q = fst (pg_translate q)"

section \<open>Statements as sequences of parts\<close>

text \<open>
  A statement is text without quotes, dollars and colons, string literals and quoted identifiers of any content, parameters, and
  casts to a type name.
\<close>

datatype sql_part = Plain string | Literal string | QuotedIdent string | Param nat | Cast string

definition escape :: "char \<Rightarrow> string \<Rightarrow> string" where
  "escape q s = concat (map (\<lambda>c. if c = q then [q, q] else [c]) s)"

fun show_part :: "sql_part \<Rightarrow> string" where
  "show_part (Plain p) = p"
| "show_part (Literal s) = squote # escape squote s @ [squote]"
| "show_part (QuotedIdent s) = dquote # escape dquote s @ [dquote]"
| "show_part (Param n) = ''$'' @ itoa n"
| "show_part (Cast ty) = ''::'' @ ty"

definition show_sql :: "sql_part list \<Rightarrow> string" where
  "show_sql ps = concat (map show_part ps)"

definition plain_byte :: "char \<Rightarrow> bool" where
  "plain_byte c \<longleftrightarrow> c \<noteq> squote \<and> c \<noteq> dquote \<and> c \<noteq> CHR ''$'' \<and> c \<noteq> CHR '':''"

text \<open>What may follow a part so that the part ends where it should.\<close>

fun part_end :: "sql_part \<Rightarrow> char \<Rightarrow> bool" where
  "part_end (Plain _) c \<longleftrightarrow> \<not> isIdentByte c"
| "part_end (Literal _) c \<longleftrightarrow> c \<noteq> squote"
| "part_end (QuotedIdent _) c \<longleftrightarrow> c \<noteq> dquote"
| "part_end (Param _) c \<longleftrightarrow> \<not> isIdentByte c \<and> c \<noteq> CHR ''$''"
| "part_end (Cast _) c \<longleftrightarrow> \<not> cast_byte c \<and> c \<noteq> squote \<and> c \<noteq> dquote"

fun part_ok :: "sql_part \<Rightarrow> bool" where
  "part_ok (Plain p) \<longleftrightarrow> list_all plain_byte p"
| "part_ok (Param n) \<longleftrightarrow> n < 2 ^ 63"
| "part_ok (Cast ty) \<longleftrightarrow> list_all isIdentByte ty"
| "part_ok _ \<longleftrightarrow> True"

fun sql_ok :: "sql_part list \<Rightarrow> bool" where
  "sql_ok [] \<longleftrightarrow> True"
| "sql_ok (p # ps) \<longleftrightarrow> part_ok p \<and> starts (part_end p) (show_sql ps) \<and> sql_ok ps"

text \<open>What SQLite is given for a part, and the parameters in their order.\<close>

fun sqlite_part :: "sql_part \<Rightarrow> string" where
  "sqlite_part (Plain p) = replaceKeywords pg_keywords None p"
| "sqlite_part (Param n) = ''?''"
| "sqlite_part (Cast ty) = []"
| "sqlite_part p = show_part p"

fun part_params :: "sql_part list \<Rightarrow> int list" where
  "part_params [] = []"
| "part_params (Param n # ps) = int n # part_params ps"
| "part_params (p # ps) = part_params ps"

lemma quoted_tail_escape:
  "starts (\<lambda>c. c \<noteq> q) r \<Longrightarrow> quoted_tail q (escape q s @ q # r) = (escape q s @ [q], r)"
  by (induction s) (auto simp: escape_def starts_def split: list.splits)

lemma skip_literal:
  "starts (\<lambda>c. c \<noteq> squote) r \<Longrightarrow> skipSingleQuoted (squote # escape squote s @ squote # r) = (squote # escape squote s @ [squote], r)"
  "starts (\<lambda>c. c \<noteq> dquote) r \<Longrightarrow> skipDoubleQuoted (dquote # escape dquote s @ dquote # r) = (dquote # escape dquote s @ [dquote], r)"
  by (simp_all add: skipSingleQuoted_def skipDoubleQuoted_def quoted_tail_escape)

lemma quotes_differ [simp]: "squote \<noteq> dquote" "dquote \<noteq> squote" "squote \<noteq> CHR ''$''" "dquote \<noteq> CHR ''$''" "squote \<noteq> CHR '':''" "dquote \<noteq> CHR '':''"
  "CHR ''$'' \<noteq> squote" "CHR ''$'' \<noteq> dquote" "CHR '':'' \<noteq> squote" "CHR '':'' \<noteq> dquote" "CHR ''?'' \<noteq> squote" "CHR ''?'' \<noteq> dquote"
  by (simp_all add: squote_def dquote_def)

lemma ident_bytes [simp]: "\<not> isIdentByte squote" "\<not> isIdentByte dquote" "\<not> isIdentByte (CHR ''$'')" "\<not> isIdentByte (CHR '':'')"
  "\<not> isIdentByte (CHR ''?'')" "is_digit c \<Longrightarrow> isIdentByte c"
  by (simp_all add: isIdentByte_def squote_def dquote_def is_digit_def byte_in_def)

lemma ident_plain: "isIdentByte c \<Longrightarrow> plain_byte c"
  by (auto simp: plain_byte_def)

lemma cast_plain: "cast_byte c \<Longrightarrow> plain_byte c"
proof -
  assume "cast_byte c"
  then consider "isIdentByte c" | "c = CHR '' ''" unfolding cast_byte_def by blast
  then show ?thesis by cases (simp_all add: ident_plain, simp add: plain_byte_def squote_def dquote_def)
qed

section \<open>The first pass\<close>

declare rewriteSQL.simps [simp del] stripCasts.simps [simp del] replaceKeywords.simps [simp del]

lemma rewrite_plain:
  "list_all (\<lambda>c. plain_byte c \<or> c = CHR '':'') p \<Longrightarrow> rewriteSQL (p @ r) = (p @ fst (rewriteSQL r), snd (rewriteSQL r))"
  by (induction p) (auto simp: rewriteSQL.simps(2) plain_byte_def split: prod.splits)

lemma param_index_digits: "digits_val ds < 2 ^ 63 \<Longrightarrow> param_index ds = int (digits_val ds)"
proof (induction ds rule: rev_induct)
  case (snoc d ds)
  have "digits_val (ds @ [d]) = 10 * digits_val ds + digit_val d" by (simp add: digits_val_def)
  with snoc show ?case by (simp add: param_index_def wrap64_id in_int64_def algebra_simps)
qed (simp add: param_index_def digits_val_def)

lemma no_dollar_tag: "dropWhile isIdentByte s = r \<Longrightarrow> r = [] \<or> hd r \<noteq> CHR ''$'' \<Longrightarrow> dollarQuoteTag (CHR ''$'' # s) = None"
  by (auto simp: dollarQuoteTag_def split: list.split)

lemma rewrite_param:
  assumes "starts (\<lambda>c. \<not> isIdentByte c \<and> c \<noteq> CHR ''$'') r" "n < 2 ^ 63"
  shows "rewriteSQL (''$'' @ itoa n @ r) = (CHR ''?'' # fst (rewriteSQL r), int n # snd (rewriteSQL r))"
proof -
  have d: "list_all is_digit (itoa n)" by (rule itoa_digits)
  have nd: "r = [] \<or> \<not> isIdentByte (hd r) \<and> hd r \<noteq> CHR ''$''" using assms(1) by (cases r) (auto simp: starts_def)
  have ds: "\<forall>x\<in>set (itoa n). isIdentByte x" using d by (auto simp: list_all_iff)
  have "takeWhile is_digit (itoa n @ r) = itoa n" "dropWhile is_digit (itoa n @ r) = r"
    using d nd by (cases r; auto simp: list_all_iff takeWhile_append dropWhile_append)+
  moreover have "dropWhile isIdentByte (itoa n @ r) = r"
    using ds nd by (cases r) (simp_all add: dropWhile_eq_Nil_conv)
  then have "dollarQuoteTag (CHR ''$'' # itoa n @ r) = None" using nd by (intro no_dollar_tag) auto
  moreover have "param_index (itoa n) = int n"
    using param_index_digits [of "itoa n"] assms(2) by (simp add: itoa_digits_val)
  ultimately show ?thesis by (simp add: rewriteSQL.simps(2) itoa_not_Nil split: prod.split)
qed

text \<open>The statement after the first pass: the parameters are gone.\<close>

fun unparam :: "sql_part \<Rightarrow> sql_part" where
  "unparam (Param n) = Plain ''?''"
| "unparam p = p"

lemma part_end_eqs:
  "part_end (Plain p) = (\<lambda>c. \<not> isIdentByte c)" "part_end (Literal t) = (\<lambda>c. c \<noteq> squote)"
  "part_end (QuotedIdent t) = (\<lambda>c. c \<noteq> dquote)" "part_end (Param n) = (\<lambda>c. \<not> isIdentByte c \<and> c \<noteq> CHR ''$'')"
  "part_end (Cast ty) = (\<lambda>c. \<not> cast_byte c \<and> c \<noteq> squote \<and> c \<noteq> dquote)"
  by (simp_all add: fun_eq_iff)

declare part_end.simps [simp del] part_end_eqs [simp]

lemma starts_unparam: "starts Q (show_sql ps) \<Longrightarrow> Q (CHR ''?'') \<Longrightarrow> starts Q (show_sql (map unparam ps))"
proof (induction ps)
  case (Cons p ps)
  then show ?case by (cases p) (simp_all add: show_sql_def starts_append starts_Cons split: if_splits)
qed simp

lemma rewrite_show: "sql_ok ps \<Longrightarrow> rewriteSQL (show_sql ps) = (show_sql (map unparam ps), part_params ps)"
proof (induction ps)
  case (Cons p ps)
  define r where "r = show_sql ps"
  have IH: "rewriteSQL r = (show_sql (map unparam ps), part_params ps)" and st: "starts (part_end p) r" and ok: "part_ok p"
    using Cons by (simp_all add: r_def)
  show ?case
  proof (cases p)
    case (Plain t)
    then show ?thesis using rewrite_plain [of t r] IH ok by (simp add: show_sql_def r_def list_all_iff)
  next
    case (Literal t)
    then show ?thesis using skip_literal(1) [of r t] st IH by (simp add: rewriteSQL.simps(2) show_sql_def r_def)
  next
    case (QuotedIdent t)
    then show ?thesis using skip_literal(2) [of r t] st IH by (simp add: rewriteSQL.simps(2) show_sql_def r_def)
  next
    case (Param n)
    then show ?thesis using rewrite_param [of r n] st IH ok by (simp add: show_sql_def r_def)
  next
    case (Cast ty)
    have "list_all (\<lambda>c. plain_byte c \<or> c = CHR '':'') (''::'' @ ty)" using ok Cast ident_plain by (auto simp: list_all_iff)
    then show ?thesis using rewrite_plain [of "''::'' @ ty" r] IH Cast by (simp add: show_sql_def r_def)
  qed
qed (simp add: show_sql_def rewriteSQL.simps)

section \<open>The other passes\<close>

lemma strip_plain: "list_all plain_byte p \<Longrightarrow> stripCasts (p @ r) = p @ stripCasts r"
  by (induction p) (auto simp: stripCasts.simps(2) plain_byte_def)

lemma strip_cast: "list_all cast_byte ty \<Longrightarrow> starts (\<lambda>c. \<not> cast_byte c) r \<Longrightarrow> stripCasts (''::'' @ ty @ r) = stripCasts r"
proof -
  assume ty: "list_all cast_byte ty" and r: "starts (\<lambda>c. \<not> cast_byte c) r"
  have "dropWhile cast_byte (ty @ r) = r"
    using ty r by (cases r) (auto simp: starts_def list_all_iff dropWhile_append dropWhile_eq_Nil_conv)
  then show ?thesis by (simp add: stripCasts.simps(2))
qed

definition uncast :: "sql_part list \<Rightarrow> sql_part list" where
  "uncast ps = filter (\<lambda>p. case p of Cast _ \<Rightarrow> False | _ \<Rightarrow> True) ps"

lemma strip_show:
  "sql_ok ps \<Longrightarrow> stripCasts (show_sql (map unparam ps)) = show_sql (uncast (map unparam ps))"
proof (induction ps)
  case (Cons p ps)
  define r where "r = show_sql (map unparam ps)"
  have first: "starts Q r" if "starts Q (show_sql ps)" "Q (CHR ''?'')" for Q
    unfolding r_def using that by (rule starts_unparam)
  have IH: "stripCasts r = show_sql (uncast (map unparam ps))" and ok: "part_ok p" and st: "starts (part_end p) (show_sql ps)"
    using Cons by (simp_all add: r_def)
  show ?case
  proof (cases p)
    case (Plain t)
    then show ?thesis using strip_plain [of t r] IH ok by (simp add: show_sql_def r_def uncast_def)
  next
    case (Literal t)
    then show ?thesis using skip_literal(1) [of r t] st IH first by (simp add: stripCasts.simps(2) show_sql_def r_def uncast_def)
  next
    case (QuotedIdent t)
    then show ?thesis using skip_literal(2) [of r t] st IH first by (simp add: stripCasts.simps(2) show_sql_def r_def uncast_def)
  next
    case (Param n)
    then show ?thesis using strip_plain [of "''?''" r] IH by (simp add: show_sql_def r_def plain_byte_def uncast_def)
  next
    case (Cast ty)
    then have "list_all cast_byte ty" using ok by (simp add: list_all_iff cast_byte_def)
    moreover have "starts (\<lambda>c. \<not> cast_byte c) r"
      by (rule first) (use st Cast in \<open>auto elim: starts_mono simp: cast_byte_def\<close>)
    ultimately show ?thesis using strip_cast [of ty r] IH Cast by (simp add: show_sql_def r_def uncast_def)
  qed
qed (simp add: show_sql_def stripCasts.simps uncast_def)

section \<open>Keywords\<close>

definition word_of :: "string \<Rightarrow> string" where
  "word_of w = (case map_of pg_keywords (toUpper w) of Some r \<Rightarrow> r | None \<Rightarrow> w)"

text \<open>Within unquoted text only the byte before it matters, and only when the text begins with a letter.\<close>

lemma replace_plain:
  assumes "list_all (\<lambda>c. c \<noteq> squote \<and> c \<noteq> dquote) p" "p \<noteq> []" "isIdentByte (last p) \<longrightarrow> starts (\<lambda>c. \<not> isIdentByte c) r"
  shows "replaceKeywords repl prev (p @ r) = replaceKeywords repl prev p @ replaceKeywords repl (Some (last p)) r"
  using assms
proof (induction repl prev p rule: replaceKeywords.induct)
  case (2 repl prev c s)
  have c: "c \<noteq> squote" "c \<noteq> dquote" and s: "list_all (\<lambda>c. c \<noteq> squote \<and> c \<noteq> dquote) s" using 2(5) by simp_all
  show ?case
  proof (cases "isWordStart prev c")
    case False
    show ?thesis
    proof (cases "s = []")
      case True
      then show ?thesis using c False by (simp add: replaceKeywords.simps)
    next
      case ne: False
      then have "replaceKeywords repl (Some c) (s @ r) = replaceKeywords repl (Some c) s @ replaceKeywords repl (Some (last s)) r"
        using 2 c s False by simp
      then show ?thesis using c False ne by (simp add: replaceKeywords.simps(2))
    qed
  next
    case ws: True
    then have ic: "isIdentByte c" by (simp add: isWordStart_def)
    define w where "w = takeWhile isIdentByte (c # s)"
    define rest where "rest = dropWhile isIdentByte s"
    show ?thesis
    proof (cases "rest = []")
      case True
      then have all: "\<forall>x\<in>set s. isIdentByte x" by (simp add: rest_def dropWhile_eq_Nil_conv)
      then have "isIdentByte (last (c # s))" using ic by (metis last_in_set list.discI set_ConsD)
      then have "starts (\<lambda>c. \<not> isIdentByte c) r" using 2(7) by blast
      then have t1: "takeWhile isIdentByte (s @ r) = s" "dropWhile isIdentByte (s @ r) = r"
        using all by (cases r; auto simp: starts_Cons)+
      have t2: "takeWhile isIdentByte s = s" "dropWhile isIdentByte s = []"
        using all by (simp_all add: takeWhile_eq_all_conv dropWhile_eq_Nil_conv)
      show ?thesis using c ws ic by (simp add: replaceKeywords.simps Let_def t1 t2)
    next
      case False
      then obtain x where x: "x \<in> set s" "\<not> isIdentByte x" by (auto simp: rest_def dropWhile_eq_Nil_conv)
      have tk: "takeWhile isIdentByte (s @ r) = takeWhile isIdentByte s" and dr: "dropWhile isIdentByte (s @ r) = rest @ r"
        using x by (auto simp: rest_def intro: takeWhile_append1 dropWhile_append1)
      have lst: "last (c # s) = last rest" using False by (metis append_Cons last_appendR rest_def takeWhile_dropWhile_id)
      have "list_all (\<lambda>c. c \<noteq> squote \<and> c \<noteq> dquote) rest" using s by (metis list_all_append rest_def takeWhile_dropWhile_id)
      then have "replaceKeywords repl (Some (last w)) (rest @ r)
          = replaceKeywords repl (Some (last w)) rest @ replaceKeywords repl (Some (last rest)) r"
        using 2(3)[OF c ws refl] False 2(7) unfolding lst by (simp add: w_def rest_def ic)
      then show ?thesis using c ws ic lst tk dr by (simp add: replaceKeywords.simps(2) Let_def w_def rest_def)
    qed
  qed
qed simp

text \<open>Only the byte before the text matters, and not when the text does not begin with a letter or an underscore.\<close>

definition word_byte :: "char \<Rightarrow> bool" where
  "word_byte c \<longleftrightarrow> latin1_letter c \<or> is_digit c \<or> c = CHR ''_''"

lemma word_bytes [simp]: "\<not> word_byte squote" "\<not> word_byte dquote" "\<not> word_byte (CHR ''?'')"
  by (simp_all add: word_byte_def squote_def dquote_def latin1_letter_def byte_in_def is_digit_def)

definition apart :: "char option \<Rightarrow> string \<Rightarrow> bool" where
  "apart prev s \<longleftrightarrow> (case prev of None \<Rightarrow> True | Some c \<Rightarrow> \<not> word_byte c) \<or> starts (\<lambda>c. \<not> isIdentByte c) s"

lemma replace_apart: "apart prev s \<Longrightarrow> replaceKeywords repl prev s = replaceKeywords repl None s"
proof (cases s)
  case (Cons c t)
  moreover assume "apart prev s"
  ultimately have "isWordStart prev c = isWordStart None c"
    by (auto simp: apart_def starts_Cons isWordStart_def word_byte_def split: option.splits)
  then show ?thesis using Cons by (simp add: replaceKeywords.simps(2))
qed (simp add: replaceKeywords.simps)

text \<open>What a text starts with, once the casts are gone.\<close>

lemma starts_stripped:
  assumes "Q (CHR ''?'')" "\<And>c. \<not> cast_byte c \<Longrightarrow> c \<noteq> squote \<Longrightarrow> c \<noteq> dquote \<Longrightarrow> Q c"
  shows "sql_ok ps \<Longrightarrow> starts Q (show_sql ps) \<Longrightarrow> starts Q (show_sql (uncast (map unparam ps)))"
proof (induction ps)
  case (Cons p ps)
  show ?case
  proof (cases p)
    case (Cast ty)
    then have "starts Q (show_sql ps)"
      using Cons.prems(1) assms(2) by (auto elim: starts_mono)
    then show ?thesis using Cons Cast by (simp add: uncast_def)
  qed (use Cons assms(1) in \<open>simp_all add: show_sql_def uncast_def starts_append starts_Cons split: if_splits\<close>)
qed (simp add: uncast_def)

lemma replace_quoted:
  "starts (\<lambda>c. c \<noteq> squote) r \<Longrightarrow>
     replaceKeywords repl prev (squote # escape squote t @ squote # r) = squote # escape squote t @ squote # replaceKeywords repl (Some squote) r"
  "starts (\<lambda>c. c \<noteq> dquote) r \<Longrightarrow>
     replaceKeywords repl prev (dquote # escape dquote t @ dquote # r) = dquote # escape dquote t @ dquote # replaceKeywords repl (Some dquote) r"
  by (simp_all add: replaceKeywords.simps(2) skip_literal)

lemma replace_show:
  "sql_ok ps \<Longrightarrow> apart prev (show_sql ps) \<Longrightarrow>
   replaceKeywords pg_keywords prev (show_sql (uncast (map unparam ps))) = concat (map sqlite_part ps)"
proof (induction ps arbitrary: prev)
  case (Cons p ps)
  define r where "r = show_sql (uncast (map unparam ps))"
  have ok: "sql_ok ps" "part_ok p" and st: "starts (part_end p) (show_sql ps)" using Cons.prems by simp_all
  have IH: "replaceKeywords pg_keywords q r = concat (map sqlite_part ps)" if "apart q (show_sql ps)" for q
    unfolding r_def by (rule Cons.IH [OF ok(1) that])
  have first: "starts Q r" if "starts Q (show_sql ps)" "Q (CHR ''?'')" "\<And>c. \<not> cast_byte c \<Longrightarrow> c \<noteq> squote \<Longrightarrow> c \<noteq> dquote \<Longrightarrow> Q c" for Q
    unfolding r_def by (rule starts_stripped [OF that(2,3) ok(1) that(1)])
  show ?case
  proof (cases p)
    case (Plain t)
    then have ni: "starts (\<lambda>c. \<not> isIdentByte c) (show_sql ps)" using st by simp
    then have ap: "apart q (show_sql ps)" for q by (simp add: apart_def)
    show ?thesis
    proof (cases "t = []")
      case True
      then show ?thesis using Plain IH [OF ap] by (simp add: show_sql_def uncast_def r_def replaceKeywords.simps)
    next
      case False
      have "starts (\<lambda>c. \<not> isIdentByte c) r" by (rule first [OF ni]) (simp_all add: cast_byte_def)
      moreover have "list_all (\<lambda>c. c \<noteq> squote \<and> c \<noteq> dquote) t" using ok Plain by (simp add: list_all_iff plain_byte_def)
      ultimately have "replaceKeywords pg_keywords prev (t @ r) = replaceKeywords pg_keywords prev t @ concat (map sqlite_part ps)"
        using replace_plain [of t r] False IH [OF ap] by simp
      moreover have "apart prev t" using Cons.prems(2) Plain False
        by (auto simp: apart_def show_sql_def starts_append starts_def neq_Nil_conv)
      ultimately show ?thesis using Plain replace_apart [of prev t] by (simp add: show_sql_def uncast_def r_def)
    qed
  next
    case (Literal t)
    have "starts (\<lambda>c. c \<noteq> squote) r" by (rule first) (use st Literal in \<open>auto simp: squote_def\<close>)
    then show ?thesis using Literal IH [of "Some squote"] by (simp add: apart_def replace_quoted show_sql_def uncast_def r_def)
  next
    case (QuotedIdent t)
    have "starts (\<lambda>c. c \<noteq> dquote) r" by (rule first) (use st QuotedIdent in \<open>auto simp: dquote_def\<close>)
    then show ?thesis using QuotedIdent IH [of "Some dquote"] by (simp add: apart_def replace_quoted show_sql_def uncast_def r_def)
  next
    case (Param n)
    then show ?thesis using IH [of "Some (CHR ''?'')"]
      by (simp add: apart_def show_sql_def uncast_def r_def replaceKeywords.simps(2) isWordStart_def)
  next
    case (Cast ty)
    then have "starts (\<lambda>c. \<not> isIdentByte c) (show_sql ps)" using st by (auto simp: cast_byte_def elim: starts_mono)
    then have "apart prev (show_sql ps)" by (simp add: apart_def)
    then show ?thesis using Cast IH by (simp add: r_def uncast_def)
  qed
qed (simp add: show_sql_def uncast_def replaceKeywords.simps)

section \<open>The translation of a statement\<close>

lemma translate_parts:
  assumes "sql_ok ps"
  shows "pg_translate (show_sql ps) = (concat (map sqlite_part ps), part_params ps)"
proof -
  have "apart None (show_sql ps)" by (simp add: apart_def)
  then show ?thesis
    by (simp add: pg_translate_def rewrite_show [OF assms] strip_show [OF assms] replace_show [OF assms])
qed


definition sample_statement :: "sql_part list" where
  "sample_statement = [Plain ''INSERT INTO t (a, b) VALUES ('', Param 2, Cast ''bytea'', Plain '', '', Param 1, Plain '', '',
     Literal (''it'' @ [squote] @ ''s $1::text SERIAL''), Plain '') -- SERIAL'']"


text \<open>
  A cast removes more than its type.  Everything after the two colons that consists of letters, digits, underscores and
  spaces is dropped with it, so a statement that goes on in words loses the rest of its text.
\<close>

theorem pg_cast_drops_rest:
  assumes "list_all plain_byte pre" "list_all cast_byte rest"
  shows "pg_translateSQL (pre @ ''::'' @ rest) = pg_translateSQL pre"
proof -
  have "list_all (\<lambda>c. plain_byte c \<or> c = CHR '':'') (pre @ ''::'' @ rest)"
    using assms by (auto simp: list_all_iff dest: cast_plain)
  from rewrite_plain [OF this, of "[]"] have r1: "fst (rewriteSQL (pre @ ''::'' @ rest)) = pre @ ''::'' @ rest"
    by (simp add: rewriteSQL.simps)
  have r2: "fst (rewriteSQL pre) = pre"
    using rewrite_plain [of pre "[]"] assms(1) by (simp add: rewriteSQL.simps list_all_iff)
  have "stripCasts (pre @ ''::'' @ rest) = pre @ stripCasts (''::'' @ rest @ [])"
    using strip_plain [OF assms(1)] by simp
  also have "\<dots> = stripCasts pre"
    using strip_cast [OF assms(2), of "[]"] strip_plain [OF assms(1), of "[]"] by (simp add: stripCasts.simps starts_def)
  finally show ?thesis unfolding pg_translateSQL_def pg_translate_def case_prod_unfold Let_def r1 r2 by simp
qed

theorem pg_cast_drops_rest_witness:
  "pg_translateSQL (''SELECT id'' @ ''::'' @ ''text FROM users'') = pg_translateSQL ''SELECT id''"
  using pg_cast_drops_rest [of "''SELECT id''" "''text FROM users''"]
  by (simp add: plain_byte_def cast_byte_def isIdentByte_def squote_def dquote_def byte_in_def is_digit_def)

section \<open>Batches of statements\<close>

definition flush :: "string \<Rightarrow> string list" where
  "flush b = (let s = trimSpace b in if s \<noteq> [] then [s] else [])"

function split_cmds :: "string \<Rightarrow> string \<Rightarrow> string list" where
  "split_cmds b [] = flush b"
| "split_cmds b (c # s) =
    (if c = squote then (let (a, r) = skipSingleQuoted (c # s) in split_cmds (b @ a) r)
     else if c = dquote then (let (a, r) = skipDoubleQuoted (c # s) in split_cmds (b @ a) r)
     else if c = CHR ''$'' then
       (case dollarQuoteTag (c # s) of
          Some (tag, t) \<Rightarrow> (let (a, r) = dollar_block tag t in split_cmds (b @ a) r)
        | None \<Rightarrow> split_cmds (b @ [c]) s)
     else if c = CHR ''-'' \<and> s \<noteq> [] \<and> hd s = CHR ''-'' then
       split_cmds (b @ takeWhile (\<lambda>c. c \<noteq> CHR 0x0A) (c # s)) (dropWhile (\<lambda>c. c \<noteq> CHR 0x0A) s)
     else if c = CHR '';'' then flush b @ split_cmds [] s
     else split_cmds (b @ [c]) s)"
  by pat_completeness auto
termination split_cmds
  by (relation "measure (\<lambda>(_, s). length s)") (auto dest: rest_shorter_eq simp: length_dropWhile_lt)

definition splitCommands :: "string \<Rightarrow> string list" where
  "splitCommands s = split_cmds [] s"

definition commandTag :: "string \<Rightarrow> int \<Rightarrow> string" where
  "commandTag sql n = (let up = toUpper (trimLeft sql) in
     if hasPrefix up ''SELECT'' then ''SELECT '' @ itoai n
     else if hasPrefix up ''INSERT'' then ''INSERT 0 '' @ itoai n
     else if hasPrefix up ''UPDATE'' then ''UPDATE '' @ itoai n
     else if hasPrefix up ''DELETE'' then ''DELETE '' @ itoai n
     else if hasPrefix up ''CREATE TABLE'' then ''CREATE TABLE''
     else if hasPrefix up ''DROP TABLE'' then ''DROP TABLE''
     else if hasPrefix up ''BEGIN'' \<or> hasPrefix up ''START TRANSACTION'' then ''BEGIN''
     else if hasPrefix up ''COMMIT'' \<or> hasPrefix up ''END'' then ''COMMIT''
     else if hasPrefix up ''ROLLBACK'' then ''ROLLBACK''
     else takeWhile (\<lambda>c. \<not> is_space c) up)"

definition isSelectish :: "string \<Rightarrow> bool" where
  "isSelectish sql = (let up = toUpper (trimLeft sql) in
     hasPrefix up ''SELECT'' \<or> hasPrefix up ''WITH'' \<or> hasPrefix up ''VALUES'' \<or> str_contains up '' RETURNING '')"

text \<open>Text without semicolons and dashes outside of literals and quoted identifiers stays in one statement.\<close>

declare split_cmds.simps [simp del]

fun one_statement :: "sql_part \<Rightarrow> bool" where
  "one_statement (Plain p) \<longleftrightarrow> list_all (\<lambda>c. c \<noteq> CHR '';'' \<and> c \<noteq> CHR ''-'') p"
| "one_statement _ \<longleftrightarrow> True"

lemma split_plain:
  "list_all (\<lambda>c. c \<noteq> squote \<and> c \<noteq> dquote \<and> c \<noteq> CHR ''$'' \<and> c \<noteq> CHR '';'' \<and> c \<noteq> CHR ''-'') p \<Longrightarrow> split_cmds b (p @ r) = split_cmds (b @ p) r"
  by (induction p arbitrary: b) (auto simp: split_cmds.simps(2))

lemma separator_bytes: "\<not> isIdentByte (CHR '';'')" "\<not> isIdentByte (CHR ''-'')"
  by (simp_all add: isIdentByte_def is_digit_def byte_in_def)

lemma digit_bytes:
  "is_digit c \<Longrightarrow> c \<noteq> squote \<and> c \<noteq> dquote \<and> c \<noteq> CHR ''$'' \<and> c \<noteq> CHR '';'' \<and> c \<noteq> CHR ''-''"
  by (auto simp: is_digit_def squote_def dquote_def)

lemma split_param:
  assumes "starts (\<lambda>c. \<not> isIdentByte c \<and> c \<noteq> CHR ''$'') r"
  shows "split_cmds b (''$'' @ itoa n @ r) = split_cmds (b @ ''$'' @ itoa n) r"
proof -
  have ds: "\<forall>x\<in>set (itoa n). isIdentByte x" using itoa_digits [of n] by (auto simp: list_all_iff)
  have nd: "r = [] \<or> \<not> isIdentByte (hd r) \<and> hd r \<noteq> CHR ''$''" using assms by (cases r) (auto simp: starts_def)
  have "dropWhile isIdentByte (itoa n @ r) = r" using ds nd by (cases r) (simp_all add: dropWhile_eq_Nil_conv)
  then have "dollarQuoteTag (CHR ''$'' # itoa n @ r) = None" using nd by (intro no_dollar_tag) auto
  moreover have "split_cmds (b @ ''$'') (itoa n @ r) = split_cmds (b @ ''$'' @ itoa n) r"
    using split_plain [of "itoa n" "b @ ''$''" r] itoa_digits [of n] digit_bytes
    by (simp add: list_all_iff)
  ultimately show ?thesis by (simp add: split_cmds.simps(2))
qed

lemma split_statement:
  assumes r: "r = [] \<or> hd r = CHR '';''"
  shows "sql_ok ps \<Longrightarrow> list_all one_statement ps \<Longrightarrow> split_cmds b (show_sql ps @ r) = split_cmds (b @ show_sql ps) r"
proof (induction ps arbitrary: b)
  case (Cons p ps)
  define t where "t = show_sql ps @ r"
  have st: "starts Q t" if "starts Q (show_sql ps)" "Q (CHR '';'')" for Q
    using that r by (cases r; cases "show_sql ps") (simp_all add: t_def starts_Cons)
  have IH: "split_cmds b t = split_cmds (b @ show_sql ps) r" for b unfolding t_def using Cons by simp
  have ends: "starts (part_end p) (show_sql ps)" using Cons.prems by simp
  show ?case
  proof (cases p)
    case (Plain s)
    then show ?thesis using split_plain [of s b t] IH Cons.prems
      by (simp add: show_sql_def t_def list_all_iff plain_byte_def)
  next
    case (Literal s)
    have "starts (\<lambda>c. c \<noteq> squote) t" by (rule st) (use ends Literal in \<open>simp_all add: squote_def\<close>)
    then show ?thesis using Literal skip_literal(1) [of t s] IH by (simp add: split_cmds.simps(2) show_sql_def t_def)
  next
    case (QuotedIdent s)
    have "starts (\<lambda>c. c \<noteq> dquote) t" by (rule st) (use ends QuotedIdent in \<open>simp_all add: dquote_def\<close>)
    then show ?thesis using QuotedIdent skip_literal(2) [of t s] IH by (simp add: split_cmds.simps(2) show_sql_def t_def)
  next
    case (Param n)
    have "starts (\<lambda>c. \<not> isIdentByte c \<and> c \<noteq> CHR ''$'') t"
      by (rule st) (use ends Param in \<open>simp_all add: isIdentByte_def is_digit_def byte_in_def\<close>)
    from split_param [OF this] show ?thesis using Param IH by (simp add: show_sql_def t_def)
  next
    case (Cast ty)
    then have "list_all isIdentByte ty" using Cons.prems by simp
    then have "list_all (\<lambda>c. c \<noteq> squote \<and> c \<noteq> dquote \<and> c \<noteq> CHR ''$'' \<and> c \<noteq> CHR '';'' \<and> c \<noteq> CHR ''-'') (''::'' @ ty)"
      using separator_bytes by (auto simp: list_all_iff)
    from split_plain [OF this] show ?thesis using Cast IH by (simp add: show_sql_def t_def)
  qed
qed (simp add: show_sql_def)

lemma split_join:
  "pss \<noteq> [] \<Longrightarrow> list_all (\<lambda>ps. sql_ok ps \<and> list_all one_statement ps) pss \<Longrightarrow>
   split_cmds [] (join '';'' (map show_sql pss)) = concat (map (\<lambda>ps. flush (show_sql ps)) pss)"
proof (induction pss)
  case (Cons ps pss)
  have ok: "sql_ok ps" "list_all one_statement ps" using Cons.prems by simp_all
  show ?case
  proof (cases pss)
    case Nil
    then show ?thesis using split_statement [OF _ ok, of "[]" "[]"] by (simp add: split_cmds.simps(1))
  next
    case (Cons qs qss)
    define r where "r = join '';'' (map show_sql pss)"
    have "split_cmds [] (show_sql ps @ CHR '';'' # r) = flush (show_sql ps) @ split_cmds [] r"
      using split_statement [OF _ ok, of "CHR '';'' # r" "[]"] by (simp add: split_cmds.simps(2) squote_def dquote_def)
    moreover have "split_cmds [] r = concat (map (\<lambda>ps. flush (show_sql ps)) pss)"
      unfolding r_def using Cons.IH Cons.prems Cons by simp
    moreover have "join '';'' (map show_sql (ps # pss)) = show_sql ps @ CHR '';'' # r" using Cons by (simp add: r_def)
    ultimately show ?thesis by simp
  qed
qed simp

text \<open>
  A batch is split into its statements: semicolons in string literals and quoted identifiers do not separate, every statement
  is trimmed, and empty ones are dropped.
\<close>

theorem pg_batch_split:
  assumes "list_all (\<lambda>ps. sql_ok ps \<and> list_all one_statement ps) pss" "pss \<noteq> []"
  shows "splitCommands (join '';'' (map show_sql pss)) = filter (\<lambda>s. s \<noteq> []) (map (trimSpace \<circ> show_sql) pss)"
proof -
  have "concat (map (\<lambda>ps. flush (show_sql ps)) pss) = filter (\<lambda>s. s \<noteq> []) (map (trimSpace \<circ> show_sql) pss)"
    by (induction pss) (simp_all add: flush_def)
  then show ?thesis by (simp add: splitCommands_def split_join assms)
qed

definition sample_batch :: "sql_part list list" where
  "sample_batch = [[Plain ''SELECT '', Literal ''a;b''], [Plain '' ''], [Plain '' DELETE FROM t WHERE x = '', Param 1]]"

theorem pg_batch_split_witness:
  "splitCommands (join '';'' (map show_sql sample_batch)) = filter (\<lambda>s. s \<noteq> []) (map (trimSpace \<circ> show_sql) sample_batch)"
  by (rule pg_batch_split)
    (simp_all add: sample_batch_def show_sql_def starts_append starts_Cons plain_byte_def cast_byte_def isIdentByte_def
        squote_def dquote_def byte_in_def is_digit_def escape_def)

end
