(* ===== verification/Pg_Types.thy ===== *)
theory Pg_Types
  imports Pg_Translate
begin

text \<open>
  \<^verbatim>\<open>pgwire/types.go\<close>: type identifiers, and values in the text and binary formats of the protocol.  A nil slice is \<open>None\<close>.
\<close>

section \<open>Type identifiers\<close>

definition oidBool :: int where "oidBool = 16"
definition oidBytea :: int where "oidBytea = 17"
definition oidInt8 :: int where "oidInt8 = 20"
definition oidInt4 :: int where "oidInt4 = 23"
definition oidText :: int where "oidText = 25"
definition oidFloat4 :: int where "oidFloat4 = 700"
definition oidFloat8 :: int where "oidFloat8 = 701"
definition oidDate :: int where "oidDate = 1082"
definition oidTimestamp :: int where "oidTimestamp = 1114"
definition oidTimestamptz :: int where "oidTimestamptz = 1184"
definition oidNumeric :: int where "oidNumeric = 1700"

lemmas oid_defs = oidBool_def oidBytea_def oidInt8_def oidInt4_def oidText_def oidFloat4_def oidFloat8_def oidDate_def
  oidTimestamp_def oidTimestamptz_def oidNumeric_def

definition sqliteTypeToOID :: "string \<Rightarrow> int" where
  "sqliteTypeToOID declType = (let t = toUpper (trimSpace declType) in
     if t = [] then oidText
     else if str_contains t ''BIGINT'' \<or> str_contains t ''INT8'' then oidInt8
     else if str_contains t ''INT'' then oidInt4
     else if str_contains t ''BOOL'' then oidBool
     else if str_contains t ''REAL'' \<or> str_contains t ''FLOA'' \<or> str_contains t ''DOUB'' then oidFloat8
     else if str_contains t ''BLOB'' then oidBytea
     else if str_contains t ''TIMESTAMPTZ'' \<or> str_contains t ''TIMESTAMP WITH'' then oidTimestamptz
     else if str_contains t ''TIMESTAMP'' then oidTimestamp
     else if str_contains t ''DATE'' then oidDate
     else if str_contains t ''NUMERIC'' \<or> str_contains t ''DECIMAL'' then oidNumeric
     else if str_contains t ''CHAR'' \<or> str_contains t ''TEXT'' \<or> str_contains t ''CLOB'' then oidText
     else oidText)"

section \<open>Values\<close>

text \<open>The parts of \<^verbatim>\<open>strconv\<close> and \<^verbatim>\<open>time\<close> that deal with floats and the format of times.\<close>

record pg_env =
  pe_fmt :: fmt_env
  pe_time :: "time \<Rightarrow> string"
  pe_parseFloat :: "string \<Rightarrow> string option"

definition isProbablyText :: "string \<Rightarrow> bool" where
  "isProbablyText b \<longleftrightarrow> list_all (\<lambda>c. c \<noteq> CHR 0x00) b"

definition hex_nibble :: "nat \<Rightarrow> char" where
  "hex_nibble n = ''0123456789abcdef'' ! n"

definition hexBytea :: "string \<Rightarrow> string" where
  "hexBytea b = [CHR 0x5C, CHR ''x''] @ concat (map (\<lambda>c. [hex_nibble (of_char c div 16), hex_nibble (of_char c mod 16)]) b)"

fun encodeText :: "pg_env \<Rightarrow> go_value \<Rightarrow> string option" where
  "encodeText e VNil = None"
| "encodeText e (VBytes b) = Some (if isProbablyText b then b else hexBytea b)"
| "encodeText e (VStr s) = Some s"
| "encodeText e (VBool b) = Some (if b then ''t'' else ''f'')"
| "encodeText e (VInt i) = Some (itoai i)"
| "encodeText e (VFloat x) = Some (fmt_float_g (pe_fmt e) x)"
| "encodeText e (VTime t) = Some (pe_time e t)"

definition hexNibble :: "char \<Rightarrow> int" where
  "hexNibble c = (if is_digit c then of_char c - 48
     else if byte_in 0x61 0x66 c then of_char c - 97 + 10
     else if byte_in 0x41 0x46 c then of_char c - 65 + 10 else - 1)"

text \<open>A last digit without a partner is ignored; a byte that is not a digit makes the result nil, which is an empty value.\<close>

fun unhex_bytes :: "string \<Rightarrow> string option" where
  "unhex_bytes (h # l # s) =
     (if hexNibble h < 0 \<or> hexNibble l < 0 then None
      else map_option (\<lambda>r. char_of (nat (hexNibble h * 16 + hexNibble l)) # r) (unhex_bytes s))"
| "unhex_bytes _ = Some []"

definition pg_unhex :: "string \<Rightarrow> string" where
  "pg_unhex s = (case unhex_bytes s of None \<Rightarrow> [] | Some b \<Rightarrow> b)"

definition decodeText :: "pg_env \<Rightarrow> string \<Rightarrow> int \<Rightarrow> go_value" where
  "decodeText e raw oid =
    (if oid = oidInt8 \<or> oid = oidInt4 then (case parseInt raw of Some n \<Rightarrow> VInt n | None \<Rightarrow> VStr raw)
     else if oid = oidFloat4 \<or> oid = oidFloat8 \<or> oid = oidNumeric then (case pe_parseFloat e raw of Some x \<Rightarrow> VFloat x | None \<Rightarrow> VStr raw)
     else if oid = oidBool then
       (if raw \<in> {''t'', ''true'', ''TRUE'', ''1''} then VBool True
        else if raw \<in> {''f'', ''false'', ''FALSE'', ''0''} then VBool False else VStr raw)
     else if oid = oidBytea then
       (if length raw \<ge> 2 \<and> take 2 raw = [CHR 0x5C, CHR ''x''] then VBytes (pg_unhex (drop 2 raw)) else VBytes raw)
     else VStr raw)"

text \<open>Big-endian integers: the bytes shifted in, in 32 or 64 bits.\<close>

definition be_value :: "string \<Rightarrow> int" where
  "be_value b = foldl (\<lambda>n c. n * 256 + of_char c) 0 b"

definition decodeBinary :: "string \<Rightarrow> int \<Rightarrow> go_value" where
  "decodeBinary raw oid =
    (if oid = oidInt4 \<and> length raw = 4 then VInt (wrap32 (be_value raw))
     else if oid = oidInt8 \<and> length raw = 8 then VInt (wrap64 (be_value raw))
     else if oid = oidBool \<and> length raw = 1 then VBool (hd raw \<noteq> CHR 0x00)
     else if oid = oidBytea then VBytes raw
     else VStr raw)"

definition decodeParam :: "pg_env \<Rightarrow> string option \<Rightarrow> int \<Rightarrow> int \<Rightarrow> go_value" where
  "decodeParam e raw format oid = (case raw of None \<Rightarrow> VNil
     | Some b \<Rightarrow> if format = 0 then decodeText e b oid else decodeBinary b oid)"

section \<open>Round trips\<close>

lemma parseInt_itoai: "in_int64 i \<Longrightarrow> parseInt (itoai i) = Some i"
proof (cases "i < 0")
  case True
  then show "in_int64 i \<Longrightarrow> ?thesis" by (simp add: itoai_def parseInt_def parse_signed_def)
next
  case False
  then show "in_int64 i \<Longrightarrow> ?thesis" by (simp add: itoai_def parseInt_def)
qed

lemma hexNibble_nibble: "n < 16 \<Longrightarrow> hexNibble (hex_nibble n) = int n"
proof -
  assume "n < 16"
  then have "n \<in> set [0..<16]" by simp
  then show ?thesis by (auto simp: upt_rec hex_nibble_def hexNibble_def is_digit_def byte_in_def)
qed

lemma unhex_hexBytea: "unhex_bytes (concat (map (\<lambda>c. [hex_nibble (of_char c div 16), hex_nibble (of_char c mod 16)]) b)) = Some b"
proof (induction b)
  case (Cons c b)
  have "of_char c < (256 :: nat)" by (rule nat_of_char_less_256)
  then have "of_char c div 16 < (16 :: nat)" by (simp add: div_less_iff_less_mult)
  moreover have "int (of_char c div 16) * 16 + int (of_char c mod 16) = int (of_char c)" by presburger
  ultimately show ?case using Cons by (simp add: hexNibble_nibble)
qed simp

text \<open>The value that a parameter of a type stands for, and how a client writes it as text.\<close>

fun value_type :: "go_value \<Rightarrow> int" where
  "value_type (VInt _) = oidInt8"
| "value_type (VBool _) = oidBool"
| "value_type (VBytes _) = oidBytea"
| "value_type (VFloat _) = oidFloat8"
| "value_type _ = oidText"

fun value_plain :: "pg_env \<Rightarrow> go_value \<Rightarrow> bool" where
  "value_plain e (VInt i) \<longleftrightarrow> in_int64 i"
| "value_plain e (VBytes b) \<longleftrightarrow> \<not> isProbablyText b \<or> take 2 b \<noteq> [CHR 0x5C, CHR ''x'']"
| "value_plain e (VFloat x) \<longleftrightarrow> pe_parseFloat e (fmt_float_g (pe_fmt e) x) = Some x"
| "value_plain e (VTime _) \<longleftrightarrow> False"
| "value_plain e _ \<longleftrightarrow> True"



end
