(* ===== verification/Pg_Session.thy ===== *)
theory Pg_Session
  imports Pg_Types "HOL-Library.AList"
begin

text \<open>
  \<^verbatim>\<open>pgwire/session.go\<close>, \<^verbatim>\<open>handshake.go\<close>, \<^verbatim>\<open>simple.go\<close> and \<^verbatim>\<open>extended.go\<close>: one client connection.  A message of the client is one step
  from the session and the database to the messages sent back.  Failures to send are not modelled: the session then ends.
\<close>

section \<open>Data\<close>

record preparedStmt =
  pst_rawQuery :: string
  pst_paramOIDs :: "int list"
  pst_paramOrder :: "int list"

record portal =
  por_stmt :: preparedStmt
  por_params :: "string option list"
  por_paramFmts :: "int list"
  por_resultFmts :: "int list"

text \<open>The session: its statements and portals by name, and whether it has a connection of its own.\<close>

record pg_session =
  sn_stmts :: "(string \<times> preparedStmt) list"
  sn_portals :: "(string \<times> portal) list"
  sn_pinned :: bool

definition newSession :: pg_session where
  "newSession = \<lparr>sn_stmts = [], sn_portals = [], sn_pinned = False\<rparr>"

datatype backend_msg =
    AuthenticationOk
  | ParameterStatus string string
  | BackendKeyData nat nat
  | ReadyForQuery char
  | ErrorResponse string string
  | EmptyQueryResponse
  | ParseComplete
  | BindComplete
  | CloseComplete
  | NoData
  | ParameterDescription "int list"
  | RowDescription "(string \<times> int) list"
  | DataRow "string option list"
  | CommandComplete string

datatype frontend_msg =
    Query string
  | Parse string string "int list"
  | Bind string string "string option list" "int list" "int list"
  | Describe char string
  | Execute string
  | Sync
  | Close char string
  | Flush
  | Terminate
  | OtherMsg

text \<open>The driver, the formats of values, and why the pool has no connection, when it has none.\<close>

record 'db pg_world =
  pw_env :: pg_env
  pw_drv :: "'db sql_driver"
  pw_conn :: "string option"

definition sendReadyForQuery :: "backend_msg list" where
  "sendReadyForQuery = [ReadyForQuery (CHR ''I'')]"

definition pinnedConn :: "'db pg_world \<Rightarrow> pg_session \<Rightarrow> string + pg_session" where
  "pinnedConn w s = (if sn_pinned s then Inr s
     else (case pw_conn w of Some er \<Rightarrow> Inl er | None \<Rightarrow> Inr (s\<lparr>sn_pinned := True\<rparr>)))"

section \<open>Running a statement\<close>

definition execSelect :: "'db pg_world \<Rightarrow> string \<Rightarrow> go_value list \<Rightarrow> 'db \<Rightarrow> backend_msg list \<times> bool \<times> 'db" where
  "execSelect w sql args db = (case drv_query (pw_drv w) db sql args of
     (db', Inl er) \<Rightarrow> ([ErrorResponse ''42000'' er], False, db')
   | (db', Inr rs) \<Rightarrow>
      (let head = RowDescription (map (\<lambda>(n, t). (n, sqliteTypeToOID t)) (rset_cols rs)) #
             map (\<lambda>r. DataRow (map (encodeText (pw_env w)) r)) (rset_rows rs) in
       case rset_err rs of
         Some er \<Rightarrow> (head @ [ErrorResponse ''42000'' er], False, db')
       | None \<Rightarrow> (head @ [CommandComplete (commandTag sql (int (length (rset_rows rs))))], True, db')))"

definition execNonSelect :: "'db pg_world \<Rightarrow> string \<Rightarrow> go_value list \<Rightarrow> 'db \<Rightarrow> backend_msg list \<times> bool \<times> 'db" where
  "execNonSelect w sql args db = (case drv_exec (pw_drv w) db sql args of
     (db', Inl er) \<Rightarrow> ([ErrorResponse ''42000'' er], False, db')
   | (db', Inr (affected, _)) \<Rightarrow>
      (let n = (case affected of Some v \<Rightarrow> v | None \<Rightarrow> 0); tag = commandTag sql n in
       ([CommandComplete (if hasPrefix tag ''INSERT'' \<and> n = 0 then ''INSERT 0 0'' else tag)], True, db')))"

definition exec_stmt :: "'db pg_world \<Rightarrow> string \<Rightarrow> go_value list \<Rightarrow> 'db \<Rightarrow> backend_msg list \<times> bool \<times> 'db" where
  "exec_stmt w sql args db = (if isSelectish sql then execSelect w sql args db else execNonSelect w sql args db)"

section \<open>The simple protocol\<close>

text \<open>The statements of a batch up to the first that fails.\<close>

fun run_batch :: "'db pg_world \<Rightarrow> string list \<Rightarrow> 'db \<Rightarrow> backend_msg list \<times> 'db" where
  "run_batch w [] db = ([], db)"
| "run_batch w (q # qs) db = (case exec_stmt w (pg_translateSQL q) [] db of
     (ms, ok, db') \<Rightarrow> if ok then (let (ms', db'') = run_batch w qs db' in (ms @ ms', db'')) else (ms, db'))"

definition pg_handleQuery :: "'db pg_world \<Rightarrow> string \<Rightarrow> pg_session \<Rightarrow> 'db \<Rightarrow> backend_msg list \<times> pg_session \<times> 'db" where
  "pg_handleQuery w raw s db = (let stmts = splitCommands raw in
     if stmts = [] then (EmptyQueryResponse # sendReadyForQuery, s, db)
     else (case pinnedConn w s of
         Inl er \<Rightarrow> (ErrorResponse ''08000'' (''cannot acquire connection: '' @ er) # sendReadyForQuery, s, db)
       | Inr s' \<Rightarrow> (let (ms, db') = run_batch w stmts db in (ms @ sendReadyForQuery, s', db'))))"

section \<open>The extended protocol\<close>

definition handleParse :: "string \<Rightarrow> string \<Rightarrow> int list \<Rightarrow> pg_session \<Rightarrow> backend_msg list \<times> pg_session" where
  "handleParse name query oids s = (let (translated, order) = pg_translate query in
     ([ParseComplete], s\<lparr>sn_stmts := AList.update name
        \<lparr>pst_rawQuery = translated, pst_paramOIDs = oids, pst_paramOrder = order\<rparr> (sn_stmts s)\<rparr>))"

definition missing_stmt :: "string \<Rightarrow> backend_msg" where
  "missing_stmt name = ErrorResponse ''26000'' (''prepared statement does not exist: '' @ name)"

definition missing_portal :: "string \<Rightarrow> backend_msg" where
  "missing_portal name = ErrorResponse ''26000'' (''portal does not exist: '' @ name)"

definition handleBind :: "string \<Rightarrow> string \<Rightarrow> string option list \<Rightarrow> int list \<Rightarrow> int list \<Rightarrow> pg_session \<Rightarrow> backend_msg list \<times> pg_session" where
  "handleBind dest name params fmts rfmts s = (case map_of (sn_stmts s) name of None \<Rightarrow> ([missing_stmt name], s)
     | Some stmt \<Rightarrow> ([BindComplete], s\<lparr>sn_portals := AList.update dest
         \<lparr>por_stmt = stmt, por_params = params, por_paramFmts = fmts, por_resultFmts = rfmts\<rparr> (sn_portals s)\<rparr>))"

text \<open>\<^verbatim>\<open>inferParamOIDs\<close>: as many as the greatest index or the declared ones.\<close>

definition inferParamOIDs :: "preparedStmt \<Rightarrow> int list" where
  "inferParamOIDs stmt = (let count = max (nat (fold max (pst_paramOrder stmt) 0)) (length (pst_paramOIDs stmt)) in
     map (\<lambda>i. if i < length (pst_paramOIDs stmt) then pst_paramOIDs stmt ! i else 0) [0..<count])"

definition describeRowOrNoData :: "preparedStmt \<Rightarrow> backend_msg list" where
  "describeRowOrNoData stmt = [NoData]"

definition handleDescribe :: "char \<Rightarrow> string \<Rightarrow> pg_session \<Rightarrow> backend_msg list" where
  "handleDescribe objType name s =
    (if objType = CHR ''S'' then (case map_of (sn_stmts s) name of None \<Rightarrow> [missing_stmt name]
       | Some stmt \<Rightarrow> ParameterDescription (inferParamOIDs stmt) # describeRowOrNoData stmt)
     else if objType = CHR ''P'' then (case map_of (sn_portals s) name of None \<Rightarrow> [missing_portal name]
       | Some p \<Rightarrow> describeRowOrNoData (por_stmt p))
     else [])"

definition param_format :: "int list \<Rightarrow> nat \<Rightarrow> int" where
  "param_format fmts i = (if length fmts = 0 then 0 else if length fmts = 1 then fmts ! 0 else if i < length fmts then fmts ! i else 0)"

definition decoded_params :: "pg_env \<Rightarrow> portal \<Rightarrow> go_value list" where
  "decoded_params e p = map (\<lambda>i. decodeParam e (por_params p ! i) (param_format (por_paramFmts p) i)
     (if i < length (pst_paramOIDs (por_stmt p)) then pst_paramOIDs (por_stmt p) ! i else 0)) [0..<length (por_params p)]"

fun bind_args :: "go_value list \<Rightarrow> int list \<Rightarrow> go_value list option" where
  "bind_args vs [] = Some []"
| "bind_args vs (i # is) = (if i < 1 \<or> i > int (length vs) then None
     else map_option (\<lambda>r. vs ! nat (i - 1) # r) (bind_args vs is))"

definition portal_args :: "pg_env \<Rightarrow> portal \<Rightarrow> go_value list option" where
  "portal_args e p = (let vs = decoded_params e p; order = pst_paramOrder (por_stmt p) in
     bind_args vs (if order = [] then map int [1..<length vs + 1] else order))"

definition handleExecute :: "'db pg_world \<Rightarrow> string \<Rightarrow> pg_session \<Rightarrow> 'db \<Rightarrow> backend_msg list \<times> pg_session \<times> 'db" where
  "handleExecute w name s db = (case map_of (sn_portals s) name of None \<Rightarrow> ([missing_portal name], s, db)
     | Some p \<Rightarrow> (case portal_args (pw_env w) p of
         None \<Rightarrow> ([ErrorResponse ''42P02'' ''bind parameter index out of range''], s, db)
       | Some args \<Rightarrow> (case pinnedConn w s of
           Inl er \<Rightarrow> ([ErrorResponse ''08000'' (''cannot acquire connection: '' @ er)], s, db)
         | Inr s' \<Rightarrow> (case exec_stmt w (pst_rawQuery (por_stmt p)) args db of (ms, _, db') \<Rightarrow> (ms, s', db')))))"

definition handleClose :: "char \<Rightarrow> string \<Rightarrow> pg_session \<Rightarrow> backend_msg list \<times> pg_session" where
  "handleClose objType name s = ([CloseComplete],
     if objType = CHR ''S'' then s\<lparr>sn_stmts := AList.delete name (sn_stmts s)\<rparr>
     else if objType = CHR ''P'' then s\<lparr>sn_portals := AList.delete name (sn_portals s)\<rparr> else s)"

section \<open>The session\<close>

text \<open>The answer to a message, and whether the session goes on.\<close>

fun pg_dispatch :: "'db pg_world \<Rightarrow> frontend_msg \<Rightarrow> pg_session \<Rightarrow> 'db \<Rightarrow> (backend_msg list \<times> pg_session \<times> 'db) option" where
  "pg_dispatch w (Query q) s db = Some (pg_handleQuery w q s db)"
| "pg_dispatch w (Parse n q oids) s db = (let (ms, s') = handleParse n q oids s in Some (ms, s', db))"
| "pg_dispatch w (Bind d n ps fs rs) s db = (let (ms, s') = handleBind d n ps fs rs s in Some (ms, s', db))"
| "pg_dispatch w (Describe t n) s db = Some (handleDescribe t n s, s, db)"
| "pg_dispatch w (Execute n) s db = Some (handleExecute w n s db)"
| "pg_dispatch w Sync s db = Some (sendReadyForQuery, s, db)"
| "pg_dispatch w (Close t n) s db = (let (ms, s') = handleClose t n s in Some (ms, s', db))"
| "pg_dispatch w Flush s db = Some ([], s, db)"
| "pg_dispatch w Terminate s db = None"
| "pg_dispatch w OtherMsg s db = Some (ErrorResponse ''0A000'' ''feature not supported: frontend message'' # sendReadyForQuery, s, db)"

text \<open>The loop of \<^verbatim>\<open>serve\<close>; it ends when nothing more can be received.\<close>

fun pg_loop :: "'db pg_world \<Rightarrow> frontend_msg list \<Rightarrow> pg_session \<Rightarrow> 'db \<Rightarrow> backend_msg list \<times> pg_session \<times> 'db" where
  "pg_loop w [] s db = ([], s, db)"
| "pg_loop w (m # ms) s db = (case pg_dispatch w m s db of None \<Rightarrow> ([], s, db)
     | Some (out, s', db') \<Rightarrow> (let (out', s'', db'') = pg_loop w ms s' db' in (out @ out', s'', db'')))"

datatype startup_msg = SSLRequest | GSSEncRequest | CancelRequest | StartupMessage | OtherStartup

definition server_params :: "(string \<times> string) list" where
  "server_params = [(''server_version'', ''13.0 (gcp-local)''), (''server_encoding'', ''UTF8''), (''client_encoding'', ''UTF8''),
     (''DateStyle'', ''ISO, MDY''), (''TimeZone'', ''UTC''), (''integer_datetimes'', ''on''), (''standard_conforming_strings'', ''on'')]"

definition completeStartup :: "backend_msg list" where
  "completeStartup = [AuthenticationOk] @ map (\<lambda>(n, v). ParameterStatus n v) server_params @
     [BackendKeyData 1 1, ReadyForQuery (CHR ''I'')]"

text \<open>How many bytes N refuse encryption, and the messages of a startup that succeeds.\<close>

fun handshake :: "startup_msg list \<Rightarrow> nat \<times> backend_msg list option" where
  "handshake [] = (0, None)"
| "handshake (SSLRequest # ms) = (let (n, r) = handshake ms in (Suc n, r))"
| "handshake (GSSEncRequest # ms) = (let (n, r) = handshake ms in (Suc n, r))"
| "handshake (StartupMessage # ms) = (0, Some completeStartup)"
| "handshake (_ # ms) = (0, None)"

section \<open>Parameters reach their places\<close>

lemma bind_args_order:
  "list_all (\<lambda>i. 1 \<le> i \<and> i \<le> int (length vs)) is \<Longrightarrow> bind_args vs is = Some (map (\<lambda>i. vs ! nat (i - 1)) is)"
  by (induction "is") auto


definition pg_demo :: "unit pg_world" where
  "pg_demo = \<lparr>pw_env = \<lparr>pe_fmt = \<lparr>fmt_float_v = id, fmt_float_g = id, fmt_time = (\<lambda>_. [])\<rparr>, pe_time = (\<lambda>_. []), pe_parseFloat = Some\<rparr>,
     pw_drv = \<lparr>drv_exec = (\<lambda>db q args. (db, Inr (Some (int (length args)), None))),
       drv_query = (\<lambda>db q args. (db, Inr \<lparr>rset_cols = map (\<lambda>_. (''c'', ''TEXT'')) args, rset_rows = [args], rset_err = None\<rparr>))\<rparr>,
     pw_conn = None\<rparr>"

definition select_two :: "sql_part list" where
  "select_two = [Plain ''SELECT '', Param 2, Cast ''text'', Plain '', '', Param 1, Plain '', '', Param 2]"


section \<open>Synchronisation\<close>

fun is_ready :: "backend_msg \<Rightarrow> bool" where
  "is_ready (ReadyForQuery _) = True"
| "is_ready _ = False"

fun asks_ready :: "frontend_msg \<Rightarrow> bool" where
  "asks_ready (Query _) = True"
| "asks_ready Sync = True"
| "asks_ready OtherMsg = True"
| "asks_ready _ = False"

lemma no_ready_exec: "filter is_ready (fst (exec_stmt w sql args db)) = []"
  by (auto simp: exec_stmt_def execSelect_def execNonSelect_def Let_def filter_empty_conv split: prod.split sum.split option.split)

lemma no_ready_batch: "filter is_ready (fst (run_batch w qs db)) = []"
proof (induction qs arbitrary: db)
  case (Cons q qs)
  obtain ms ok db' where e: "exec_stmt w (pg_translateSQL q) [] db = (ms, ok, db')" by (cases "exec_stmt w (pg_translateSQL q) [] db") auto
  then have "filter is_ready ms = []" using no_ready_exec [of w "pg_translateSQL q" "[]" db] by simp
  then show ?case using Cons [of db'] by (simp add: e case_prod_unfold Let_def)
qed simp

lemma ready_dispatch:
  assumes "pg_dispatch w m s db = Some (out, s', db')"
  shows "filter is_ready out = (if asks_ready m then sendReadyForQuery else []) \<and> (asks_ready m \<longrightarrow> out \<noteq> [] \<and> last out = ReadyForQuery (CHR ''I''))"
proof (cases m)
  case (Query q)
  then have out: "out = fst (pg_handleQuery w q s db)" using assms by (metis fst_conv option.inject pg_dispatch.simps(1))
  show ?thesis using Query no_ready_batch [of w "splitCommands q" db]
    by (simp add: out pg_handleQuery_def sendReadyForQuery_def Let_def case_prod_unfold split: sum.split)
next
  case (Execute n)
  then have "out = fst (handleExecute w n s db)" using assms by (metis fst_conv option.inject pg_dispatch.simps(5))
  then show ?thesis using Execute
    by (simp add: no_ready_exec handleExecute_def missing_portal_def case_prod_unfold split: option.split sum.split)
next
  case (Describe t n)
  then show ?thesis using assms
    by (auto simp: handleDescribe_def missing_stmt_def missing_portal_def describeRowOrNoData_def split: if_splits option.splits)
qed (use assms in \<open>auto simp: handleParse_def handleBind_def handleClose_def missing_stmt_def sendReadyForQuery_def
      split: option.splits prod.splits\<close>)

text \<open>
  C26: The client can rely on the count of ReadyForQuery messages: in every session there is exactly one for each query, each synchronisation and each
  message the server does not know, and none for any other message, whatever fails on the way.
\<close>

theorem pg_ready_count:
  "Terminate \<notin> set ms \<Longrightarrow> length (filter is_ready (fst (pg_loop w ms s db))) = length (filter asks_ready ms)"
proof (induction ms arbitrary: s db)
  case (Cons m ms)
  then have "pg_dispatch w m s db \<noteq> None" by (cases m) (auto split: prod.splits)
  then obtain out s' db' where d: "pg_dispatch w m s db = Some (out, s', db')" by auto
  have "length (filter is_ready out) = (if asks_ready m then 1 else 0)"
    using ready_dispatch [OF d] by (simp add: sendReadyForQuery_def)
  moreover have "length (filter is_ready (fst (pg_loop w ms s' db'))) = length (filter asks_ready ms)" using Cons by simp
  ultimately show ?case by (simp add: d case_prod_unfold Let_def)
qed simp

theorem pg_ready_count_witness:
  "length (filter is_ready (fst (pg_loop pg_demo [Query ''SELECT 1; DROP'', Execute ''x'', Sync] newSession ()))) = 2"
  using pg_ready_count [of "[Query ''SELECT 1; DROP'', Execute ''x'', Sync]" pg_demo newSession "()"] by simp

section \<open>Errors in the extended protocol\<close>

text \<open>
  An error does not stop the messages up to the next Sync, as the protocol demands: when a client binds a statement that does
  not exist and executes the portal, the server reports the error and then runs the statement that the portal was bound to before.
\<close>

theorem pg_failed_bind_runs_old_portal:
  assumes "map_of (sn_stmts s) n = None" "map_of (sn_portals s) d = Some p"
    and "portal_args (pw_env w) p = Some args" "sn_pinned s"
  shows "fst (pg_loop w [Bind d n vals fmts rfmts, Execute d] s db)
    = missing_stmt n # fst (exec_stmt w (pst_rawQuery (por_stmt p)) args db)
    \<and> snd (snd (pg_loop w [Bind d n vals fmts rfmts, Execute d] s db)) = snd (snd (exec_stmt w (pst_rawQuery (por_stmt p)) args db))"
  using assms by (simp add: handleBind_def handleExecute_def pinnedConn_def split: prod.split)

definition old_portal :: pg_session where
  "old_portal = \<lparr>sn_stmts = [], sn_portals = [([], \<lparr>por_stmt = \<lparr>pst_rawQuery = ''DELETE FROM t'', pst_paramOIDs = [], pst_paramOrder = []\<rparr>,
     por_params = [], por_paramFmts = [], por_resultFmts = []\<rparr>)], sn_pinned = True\<rparr>"

theorem pg_failed_bind_runs_old_portal_witness:
  "fst (pg_loop pg_demo [Bind [] ''gone'' [] [] [], Execute []] old_portal ())
    = missing_stmt ''gone'' # fst (exec_stmt pg_demo ''DELETE FROM t'' [] ())"
proof -
  let ?p = "\<lparr>por_stmt = \<lparr>pst_rawQuery = ''DELETE FROM t'', pst_paramOIDs = [], pst_paramOrder = []\<rparr>,
     por_params = [], por_paramFmts = [], por_resultFmts = []\<rparr>"
  have "portal_args (pw_env pg_demo) ?p = Some []" by (simp add: portal_args_def decoded_params_def)
  from pg_failed_bind_runs_old_portal [of old_portal "''gone''" "[]" ?p pg_demo "[]" "[]" "[]" "[]" "()", OF _ _ this]
  show ?thesis by (simp add: old_portal_def)
qed

end
