(* ===== verification/Mysql_Translate.thy ===== *)
theory Mysql_Translate
  imports Pg_Translate
begin

text \<open>
  \<^verbatim>\<open>mysqlwire/translate.go\<close>: MySQL statements are rewritten for SQLite in one pass over the text.  The byte helpers are the same code as in
  \<^verbatim>\<open>pgwire\<close>; a position is the rest of the text.
\<close>

section \<open>Regions that are copied\<close>

definition bquote :: char where "bquote = CHR 0x60"

fun my_quoted_tail :: "string \<Rightarrow> string \<times> string" where
  "my_quoted_tail [] = ([], [])"
| "my_quoted_tail [c] = ([c], [])"
| "my_quoted_tail (c # d # s) =
    (if c = CHR 0x5C then (let (a, b) = my_quoted_tail s in (c # d # a, b))
     else if c = squote then (if d = squote then (let (a, b) = my_quoted_tail s in (c # d # a, b)) else ([c], d # s))
     else (let (a, b) = my_quoted_tail (d # s) in (c # a, b)))"

text \<open>Each region starts with the byte that introduces it, and is followed by the rest.\<close>

definition mySingleQuoted :: "string \<Rightarrow> string \<times> string" where
  "mySingleQuoted s = (let (a, b) = my_quoted_tail (tl s) in (hd s # a, b))"

definition myDoubleQuoted :: "string \<Rightarrow> string \<times> string" where
  "myDoubleQuoted s = (let (a, b) = quoted_tail dquote (tl s) in (hd s # a, b))"

definition skipBackquoted :: "string \<Rightarrow> string \<times> string" where
  "skipBackquoted s = (case cutAt bquote (tl s) of None \<Rightarrow> (s, []) | Some (a, b) \<Rightarrow> (hd s # a @ [bquote], b))"

definition skipLineComment :: "string \<Rightarrow> string \<times> string" where
  "skipLineComment s = (take 2 s @ takeWhile (\<lambda>c. c \<noteq> CHR 0x0A) (drop 2 s), dropWhile (\<lambda>c. c \<noteq> CHR 0x0A) (drop 2 s))"

definition skipBlockComment :: "string \<Rightarrow> string \<times> string" where
  "skipBlockComment s = (case cut_string ''*/'' (drop 2 s) of None \<Rightarrow> (s, []) | Some (a, b) \<Rightarrow> (take 2 s @ a @ ''*/'', b))"

text \<open>The region at the start of a text, if there is one.\<close>

definition my_region :: "string \<Rightarrow> (string \<times> string) option" where
  "my_region s = (case s of [] \<Rightarrow> None
     | c # r \<Rightarrow>
       if c = squote then Some (mySingleQuoted s)
       else if c = dquote then Some (myDoubleQuoted s)
       else if c = bquote then Some (skipBackquoted s)
       else if c = CHR ''-'' \<and> r \<noteq> [] \<and> hd r = CHR ''-'' then Some (skipLineComment s)
       else if c = CHR ''/'' \<and> r \<noteq> [] \<and> hd r = CHR ''*'' then Some (skipBlockComment s)
       else None)"

lemma my_quoted_tail_append: "my_quoted_tail s = (a, b) \<Longrightarrow> s = a @ b"
  by (induction s arbitrary: a b rule: my_quoted_tail.induct) (auto split: prod.splits if_splits)

lemma my_region_append: "my_region s = Some (a, b) \<Longrightarrow> s = a @ b \<and> a \<noteq> []"
proof -
  assume r: "my_region s = Some (a, b)"
  then obtain c t where s: "s = c # t" by (auto simp: my_region_def split: list.splits)
  consider (sq) "mySingleQuoted s = (a, b)" | (dq) "myDoubleQuoted s = (a, b)" | (bq) "skipBackquoted s = (a, b)"
    | (lc) "t \<noteq> []" "skipLineComment s = (a, b)" | (bc) "t \<noteq> []" "skipBlockComment s = (a, b)"
    using r by (auto simp: my_region_def s split: if_splits)
  then show ?thesis
  proof cases
    case sq
    then show ?thesis by (auto simp: mySingleQuoted_def s split: prod.splits dest: my_quoted_tail_append)
  next
    case dq
    then show ?thesis by (auto simp: myDoubleQuoted_def s split: prod.splits dest: quoted_tail_append)
  next
    case bq
    then show ?thesis by (auto simp: skipBackquoted_def s split: option.splits dest: cut_SomeD)
  next
    case lc
    then show ?thesis by (cases t) (auto simp: skipLineComment_def s)
  next
    case bc
    then show ?thesis by (cases t) (auto simp: skipBlockComment_def s split: option.splits dest!: cut_string_append)
  qed
qed

section \<open>Words\<close>

definition hspace :: "char \<Rightarrow> bool" where
  "hspace c \<longleftrightarrow> c = CHR '' '' \<or> c = CHR 0x09"

definition typeReplacements :: "(string \<times> string) list" where
  "typeReplacements = [(''TINYINT'', ''INTEGER''), (''SMALLINT'', ''INTEGER''), (''MEDIUMINT'', ''INTEGER''), (''BIGINT'', ''INTEGER''),
     (''INT'', ''INTEGER''), (''DOUBLE'', ''REAL''), (''FLOAT'', ''REAL''), (''DECIMAL'', ''REAL''), (''NUMERIC'', ''REAL''),
     (''DATETIME'', ''DATETIME''), (''TIMESTAMP'', ''DATETIME''), (''LONGTEXT'', ''TEXT''), (''MEDIUMTEXT'', ''TEXT''),
     (''TINYTEXT'', ''TEXT''), (''LONGBLOB'', ''BLOB''), (''MEDIUMBLOB'', ''BLOB''), (''TINYBLOB'', ''BLOB''),
     (''VARBINARY'', ''BLOB''), (''BINARY'', ''BLOB'')]"

text \<open>After the key of a table option: an equals sign and a value.\<close>

definition option_value :: "string \<Rightarrow> string option" where
  "option_value s = (case dropWhile hspace s of [] \<Rightarrow> None
     | c # r \<Rightarrow> if c \<noteq> CHR ''='' then None
         else (case dropWhile hspace r of [] \<Rightarrow> None
           | d # t \<Rightarrow> if d = squote then Some (snd (mySingleQuoted (d # t)))
               else if isIdentByte d then Some (dropWhile isIdentByte t) else None))"

text \<open>\<^verbatim>\<open>matchTableOption\<close>: the word in upper case and what follows it; what follows the option, if it is one.\<close>

definition matchTableOption :: "string \<Rightarrow> string \<Rightarrow> string option" where
  "matchTableOption up r =
    (if up \<in> {''ENGINE'', ''CHARSET'', ''COLLATE'', ''AUTO_INCREMENT'', ''ROW_FORMAT'', ''COMMENT''} then option_value r
     else if up = ''DEFAULT'' then
       (let t = dropWhile hspace r in
        if length t < 7 \<or> \<not> eqFold (take 7 t) ''CHARSET'' then None
        else if drop 7 t \<noteq> [] \<and> isIdentByte (hd (drop 7 t)) then None
        else option_value (drop 7 t))
     else None)"

definition isNumericLen :: "string \<Rightarrow> bool" where
  "isNumericLen s = (case dropWhile hspace (tl s) of [] \<Rightarrow> False | c # _ \<Rightarrow> is_digit c)"

definition trimTrailingHSpace :: "string \<Rightarrow> string" where
  "trimTrailingHSpace out = rev (dropWhile hspace (rev out))"

text \<open>The variables of the pass: the output, the depth of parentheses, and where AUTO_INCREMENT and PRIMARY KEY stand.\<close>

record my_state =
  my_out :: string
  my_depth :: int
  my_aiPending :: bool
  my_aiDepth :: int
  my_pkSeen :: bool
  my_pkDepth :: int

definition my_emit :: "string \<Rightarrow> my_state \<Rightarrow> my_state" where
  "my_emit a st = st\<lparr>my_out := my_out st @ a\<rparr>"

definition my_trim :: "my_state \<Rightarrow> my_state" where
  "my_trim st = st\<lparr>my_out := trimTrailingHSpace (my_out st)\<rparr>"

text \<open>A comma or closing parenthesis ends a column: a pending AUTO_INCREMENT is dropped.\<close>

definition end_column :: "my_state \<Rightarrow> my_state" where
  "end_column st = (let st1 = (if my_aiPending st \<and> my_depth st = my_aiDepth st then (my_trim st)\<lparr>my_aiPending := False\<rparr> else st) in
     if my_pkSeen st1 \<and> my_depth st1 = my_pkDepth st1 then st1\<lparr>my_pkSeen := False\<rparr> else st1)"

definition my_punct :: "char \<Rightarrow> my_state \<Rightarrow> my_state" where
  "my_punct c st =
    (if c = CHR ''('' then st\<lparr>my_depth := my_depth st + 1\<rparr>
     else if c = CHR '')'' then (let st1 = end_column st in st1\<lparr>my_depth := my_depth st1 - 1\<rparr>)
     else if c = CHR '','' then end_column st
     else st)"

definition my_primary :: "string \<Rightarrow> string \<Rightarrow> my_state \<Rightarrow> my_state \<times> string" where
  "my_primary word r st = (let t = dropWhile hspace r in
     if length t \<ge> 3 \<and> eqFold (take 3 t) ''KEY'' \<and> (drop 3 t = [] \<or> \<not> isIdentByte (hd (drop 3 t)))
     then (let st1 = (my_emit ''PRIMARY KEY'' st)\<lparr>my_pkSeen := True, my_pkDepth := my_depth st\<rparr> in
       (if my_aiPending st1 \<and> my_depth st1 = my_aiDepth st1 then (my_emit '' AUTOINCREMENT'' st1)\<lparr>my_aiPending := False\<rparr> else st1, drop 3 t))
     else (my_emit word st, r))"

definition my_autoinc :: "string \<Rightarrow> my_state \<Rightarrow> my_state \<times> string" where
  "my_autoinc r st = (case matchTableOption ''AUTO_INCREMENT'' r of Some t \<Rightarrow> (my_trim st, t)
     | None \<Rightarrow> if my_pkSeen st \<and> my_depth st = my_pkDepth st then (my_emit ''AUTOINCREMENT'' st, r)
         else (st\<lparr>my_aiPending := True, my_aiDepth := my_depth st\<rparr>, dropWhile hspace r))"

definition my_type :: "string \<Rightarrow> string \<Rightarrow> my_state \<Rightarrow> my_state \<times> string" where
  "my_type repl r st = (my_emit repl st,
     if r \<noteq> [] \<and> hd r = CHR ''('' \<and> isNumericLen r then (case cutAt (CHR '')'') r of Some (_, b) \<Rightarrow> b | None \<Rightarrow> r) else r)"

definition my_word :: "string \<Rightarrow> string \<Rightarrow> my_state \<Rightarrow> my_state \<times> string" where
  "my_word word r st = (let up = toUpper word in
     if up = ''UNSIGNED'' \<or> up = ''ZEROFILL'' then (st, if r \<noteq> [] \<and> hspace (hd r) then tl r else r)
     else if up = ''AUTO_INCREMENT'' then my_autoinc r st
     else if up = ''PRIMARY'' then my_primary word r st
     else (case map_of typeReplacements up of Some repl \<Rightarrow> my_type repl r st
       | None \<Rightarrow> (case matchTableOption up r of Some t \<Rightarrow> (my_trim st, t)
         | None \<Rightarrow> (my_emit word st, r))))"

text \<open>One round of the loop: the new state and the rest of the text.\<close>

definition my_step :: "my_state \<Rightarrow> char option \<Rightarrow> char \<Rightarrow> string \<Rightarrow> my_state \<times> string" where
  "my_step st prev c s = (case my_region (c # s) of Some (a, b) \<Rightarrow> (my_emit a st, b)
     | None \<Rightarrow> (let st1 = my_punct c st in
         if \<not> isWordStart prev c then (my_emit [c] st1, s)
         else my_word (takeWhile isIdentByte (c # s)) (dropWhile isIdentByte (c # s)) st1))"

section \<open>The pass ends\<close>

lemma length_my_quoted_tail: "length (snd (my_quoted_tail s)) \<le> length s"
  using my_quoted_tail_append [of s "fst (my_quoted_tail s)" "snd (my_quoted_tail s)"] by (metis le_add2 length_append prod.collapse)

lemma option_value_shorter: "option_value s = Some r \<Longrightarrow> length r \<le> length s"
proof -
  assume "option_value s = Some r"
  then obtain c u d t where *: "dropWhile hspace s = c # u" "dropWhile hspace u = d # t"
    "r = snd (mySingleQuoted (d # t)) \<or> r = dropWhile isIdentByte t"
    by (auto simp: option_value_def split: list.splits if_splits)
  have "length (c # u) \<le> length s" "length (d # t) \<le> length u" using * length_dropWhile_le by metis+
  moreover have "length r \<le> length t"
    using *(3) length_my_quoted_tail [of t] length_dropWhile_le [of isIdentByte t] by (auto simp: mySingleQuoted_def case_prod_unfold Let_def)
  ultimately show ?thesis by simp
qed

lemma matchTableOption_shorter: "matchTableOption up r = Some t \<Longrightarrow> length t \<le> length r"
proof -
  assume m: "matchTableOption up r = Some t"
  have "length (drop 7 (dropWhile hspace r)) \<le> length r" using length_dropWhile_le [of hspace r] by simp
  then show ?thesis using m option_value_shorter
    by (auto simp: matchTableOption_def Let_def split: if_splits dest!: option_value_shorter)
qed

lemma my_word_shorter: "length (snd (my_word w r st)) \<le> length r"
proof -
  have d: "length (dropWhile P r) \<le> length r" for P by (rule length_dropWhile_le)
  have c: "cutAt (CHR '')'') r = Some (a, b) \<Longrightarrow> length b \<le> length r" for a b by (auto dest: cut_SomeD)
  have "length (snd (my_type repl r st)) \<le> length r" for repl by (auto simp: my_type_def c split: option.split)
  moreover have "length (snd (my_primary w r st)) \<le> length r" using d [of hspace] by (auto simp: my_primary_def Let_def)
  moreover have "length (snd (my_autoinc r st)) \<le> length r"
    using d matchTableOption_shorter by (auto simp: my_autoinc_def split: option.split)
  moreover have "length t \<le> length r" if "matchTableOption (toUpper w) r = Some t" for t
    by (rule matchTableOption_shorter [OF that])
  ultimately show ?thesis by (auto simp: my_word_def Let_def split: option.split)
qed

lemma my_step_shorter: "length (snd (my_step st prev c s)) < Suc (length s)"
proof (cases "my_region (c # s)")
  case (Some ab)
  obtain a b where ab: "ab = (a, b)" by fastforce
  have "c # s = a @ b" "a \<noteq> []" using my_region_append Some ab by auto
  then have "length b < length (c # s)" by simp
  then show ?thesis using Some ab by (simp add: my_step_def)
next
  case None
  show ?thesis
  proof (cases "isWordStart prev c")
    case True
    then have "dropWhile isIdentByte (c # s) = dropWhile isIdentByte s" by (simp add: isWordStart_def)
    then have "length (dropWhile isIdentByte (c # s)) \<le> length s" by (simp add: length_dropWhile_le)
    then show ?thesis using None True my_word_shorter [of "takeWhile isIdentByte (c # s)" "dropWhile isIdentByte (c # s)" "my_punct c st"]
      by (simp add: my_step_def Let_def del: dropWhile.simps takeWhile.simps)
  qed (simp add: my_step_def None Let_def)
qed

text \<open>The pass; the byte before the rest decides where a word starts.\<close>

function my_loop :: "my_state \<Rightarrow> char option \<Rightarrow> string \<Rightarrow> my_state" where
  "my_loop st prev [] = st"
| "my_loop st prev (c # s) = (let (st', r) = my_step st prev c s in
     my_loop st' (Some ((c # s) ! (length s - length r))) r)"
  by pat_completeness auto
termination
  by (relation "measure (\<lambda>(_, _, s). length s)") (auto, metis my_step_shorter snd_conv)

declare my_loop.simps(2) [simp del]

definition my_init :: my_state where
  "my_init = \<lparr>my_out = [], my_depth = 0, my_aiPending = False, my_aiDepth = 0, my_pkSeen = False, my_pkDepth = 0\<rparr>"

definition my_translateSQL :: "string \<Rightarrow> string" where
  "my_translateSQL q = my_out (my_loop my_init None q)"

text \<open>The number of question marks outside of regions, and whether a statement returns rows.\<close>

function my_countParams :: "string \<Rightarrow> nat" where
  "my_countParams [] = 0"
| "my_countParams (c # s) = (case my_region (c # s) of Some (a, b) \<Rightarrow> my_countParams b
     | None \<Rightarrow> (if c = CHR ''?'' then 1 else 0) + my_countParams s)"
  by pat_completeness auto
termination
proof (relation "measure length")
  fix c s a b x assume "my_region (c # s) = Some x" "(a, b) = x"
  then show "(b, c # s) \<in> measure length" using my_region_append [of "c # s" a b] by auto
qed auto

declare my_countParams.simps(2) [simp del]

definition my_isSelectish :: "string \<Rightarrow> bool" where
  "my_isSelectish sql = (let up = toUpper (trimLeft sql) in
     hasPrefix up ''SELECT'' \<or> hasPrefix up ''WITH'' \<or> hasPrefix up ''SHOW'' \<or> hasPrefix up ''DESCRIBE'' \<or>
     hasPrefix up ''DESC '' \<or> hasPrefix up ''EXPLAIN'' \<or> hasPrefix up ''VALUES'')"

section \<open>Statements as sequences of parts\<close>

datatype my_part = MyPlain string | MyLiteral string | MyDouble string | MyIdent string | MyComment string | MyBlock string

definition my_escape :: "string \<Rightarrow> string" where
  "my_escape s = concat (map (\<lambda>c. if c = squote then [squote, squote] else if c = CHR 0x5C then [CHR 0x5C, CHR 0x5C] else [c]) s)"

fun show_my :: "my_part \<Rightarrow> string" where
  "show_my (MyPlain p) = p"
| "show_my (MyLiteral s) = squote # my_escape s @ [squote]"
| "show_my (MyDouble s) = dquote # escape dquote s @ [dquote]"
| "show_my (MyIdent s) = bquote # s @ [bquote]"
| "show_my (MyComment s) = ''--'' @ s"
| "show_my (MyBlock s) = ''/*'' @ s @ ''*/''"

definition show_stmt :: "my_part list \<Rightarrow> string" where
  "show_stmt ps = concat (map show_my ps)"

text \<open>The words that the translation acts on.\<close>

definition special_word :: "string \<Rightarrow> bool" where
  "special_word up \<longleftrightarrow> up \<in> {''UNSIGNED'', ''ZEROFILL'', ''AUTO_INCREMENT'', ''PRIMARY'', ''ENGINE'', ''CHARSET'', ''COLLATE'',
     ''ROW_FORMAT'', ''COMMENT'', ''DEFAULT''} \<or> map_of typeReplacements up \<noteq> None"

text \<open>Text without quotes and comments and without such words.\<close>

function plain_ok :: "char option \<Rightarrow> string \<Rightarrow> bool" where
  "plain_ok prev [] \<longleftrightarrow> True"
| "plain_ok prev (c # s) \<longleftrightarrow> c \<noteq> squote \<and> c \<noteq> dquote \<and> c \<noteq> bquote \<and>
     (c = CHR ''-'' \<longrightarrow> s \<noteq> [] \<and> hd s \<noteq> CHR ''-'') \<and> (c = CHR ''/'' \<longrightarrow> s \<noteq> [] \<and> hd s \<noteq> CHR ''*'') \<and>
     (if isWordStart prev c
      then \<not> special_word (toUpper (takeWhile isIdentByte (c # s))) \<and>
        plain_ok (Some (last (takeWhile isIdentByte (c # s)))) (dropWhile isIdentByte s)
      else plain_ok (Some c) s)"
  by pat_completeness auto
termination
  by (relation "measure (\<lambda>(_, s). length s)") (auto simp: length_dropWhile_lt)

declare plain_ok.simps(2) [simp del]

fun my_follow :: "my_part \<Rightarrow> char \<Rightarrow> bool" where
  "my_follow (MyPlain _) c \<longleftrightarrow> \<not> isIdentByte c"
| "my_follow (MyLiteral _) c \<longleftrightarrow> c \<noteq> squote"
| "my_follow (MyDouble _) c \<longleftrightarrow> c \<noteq> dquote"
| "my_follow (MyComment _) c \<longleftrightarrow> c = CHR 0x0A"
| "my_follow _ c \<longleftrightarrow> True"

fun my_part_ok :: "char option \<Rightarrow> my_part \<Rightarrow> bool" where
  "my_part_ok prev (MyPlain p) \<longleftrightarrow> p \<noteq> [] \<and> plain_ok prev p"
| "my_part_ok prev (MyIdent s) \<longleftrightarrow> bquote \<notin> set s"
| "my_part_ok prev (MyComment s) \<longleftrightarrow> CHR 0x0A \<notin> set s"
| "my_part_ok prev (MyBlock s) \<longleftrightarrow> cut_string ''*/'' s = None"
| "my_part_ok prev _ \<longleftrightarrow> True"

fun my_ok :: "char option \<Rightarrow> my_part list \<Rightarrow> bool" where
  "my_ok prev [] \<longleftrightarrow> True"
| "my_ok prev (p # ps) \<longleftrightarrow> my_part_ok prev p \<and> starts (my_follow p) (show_stmt ps) \<and> my_ok (Some (last (show_my p))) ps"

lemma bquote_neq [simp]: "bquote \<noteq> squote" "bquote \<noteq> dquote" "squote \<noteq> bquote" "dquote \<noteq> bquote" "squote \<noteq> CHR 0x5C" "CHR 0x5C \<noteq> squote"
  by (simp_all add: bquote_def squote_def dquote_def)

lemma my_quoted_tail_Cons:
  "my_quoted_tail (c # s) = (if c = CHR 0x5C \<and> s \<noteq> [] then (let (a, b) = my_quoted_tail (tl s) in (c # hd s # a, b))
     else if c = squote then (if s \<noteq> [] \<and> hd s = squote then (let (a, b) = my_quoted_tail (tl s) in (c # hd s # a, b)) else ([c], s))
     else (let (a, b) = my_quoted_tail s in (c # a, b)))"
  by (cases s) (auto simp: squote_def split: prod.splits)

lemma my_quoted_tail_escape:
  "starts (\<lambda>c. c \<noteq> squote) r \<Longrightarrow> my_quoted_tail (my_escape s @ squote # r) = (my_escape s @ [squote], r)"
proof (induction s)
  case Nil
  then show ?case by (cases r) (simp_all add: my_escape_def my_quoted_tail_Cons starts_Cons)
next
  case (Cons c s)
  then show ?case by (simp add: my_escape_def my_quoted_tail_Cons)
qed

lemma cut_string_none_append:
  "cut_string ''*/'' s = None \<Longrightarrow> cut_string ''*/'' (s @ ''*/'' @ r) = Some (s, r)"
proof (induction s)
  case Nil
  then show ?case by (simp add: hasPrefix_def)
next
  case (Cons c s)
  have n: "\<not> hasPrefix (c # s) ''*/''" "cut_string ''*/'' s = None" using Cons.prems by (auto split: if_splits option.splits)
  have "\<not> hasPrefix (c # s @ ''*/'' @ r) ''*/''" using n(1) by (cases s) (auto simp: hasPrefix_def)
  then show ?case using Cons.IH n(2) by simp
qed

text \<open>A region is recognised as a whole.\<close>

lemma my_region_show:
  assumes "my_part_ok prev p" "starts (my_follow p) r" "\<forall>t. p \<noteq> MyPlain t"
  shows "my_region (show_my p @ r) = Some (show_my p, r)"
proof (cases p)
  case (MyLiteral s)
  have "starts (\<lambda>c. c \<noteq> squote) r" using assms(2) MyLiteral by (auto elim: starts_mono)
  then show ?thesis using MyLiteral by (simp add: my_region_def mySingleQuoted_def my_quoted_tail_escape)
next
  case (MyDouble s)
  have "starts (\<lambda>c. c \<noteq> dquote) r" using assms(2) MyDouble by (auto elim: starts_mono)
  then show ?thesis using MyDouble by (simp add: my_region_def myDoubleQuoted_def quoted_tail_escape)
next
  case (MyIdent s)
  then show ?thesis using assms(1) cut_append [of bquote s r] by (simp add: my_region_def skipBackquoted_def)
next
  case (MyComment s)
  have s: "\<forall>c\<in>set s. c \<noteq> CHR 0x0A" using assms(1) MyComment by auto
  then have "takeWhile (\<lambda>c. c \<noteq> CHR 0x0A) (s @ r) = s" "dropWhile (\<lambda>c. c \<noteq> CHR 0x0A) (s @ r) = r"
    using assms(2) MyComment by (cases r; simp add: starts_Cons)+
  then show ?thesis using MyComment by (simp add: my_region_def skipLineComment_def squote_def dquote_def bquote_def)
next
  case (MyBlock s)
  then have "cut_string ''*/'' (s @ ''*/'' @ r) = Some (s, r)" using assms(1) by (intro cut_string_none_append) simp
  then show ?thesis using MyBlock by (simp add: my_region_def skipBlockComment_def squote_def dquote_def bquote_def)
qed (use assms(3) in simp)

section \<open>Statements that are kept\<close>

text \<open>No AUTO_INCREMENT waits for its PRIMARY KEY, and a PRIMARY KEY has been seen in the column only if the argument says so.\<close>

definition quiet :: "bool \<Rightarrow> my_state \<Rightarrow> bool" where
  "quiet b st \<longleftrightarrow> \<not> my_aiPending st \<and> (my_pkSeen st \<longrightarrow> b)"

lemma my_punct_quiet: "quiet b st \<Longrightarrow> quiet b (my_punct c st) \<and> my_out (my_punct c st) = my_out st"
  by (simp add: quiet_def my_punct_def end_column_def Let_def)

lemma my_punct_ident: "isIdentByte c \<Longrightarrow> my_punct c st = st"
  by (auto simp: my_punct_def isIdentByte_def is_digit_def byte_in_def)

lemma my_emit_out [simp]: "my_out (my_emit a st) = my_out st @ a" "quiet b (my_emit a st) = quiet b st"
  by (simp_all add: my_emit_def quiet_def)

lemma my_word_plain: "\<not> special_word (toUpper w) \<Longrightarrow> my_word w r st = (my_emit w st, r)"
  by (auto simp: special_word_def my_word_def matchTableOption_def Let_def)

lemma my_region_plain:
  "c \<noteq> squote \<Longrightarrow> c \<noteq> dquote \<Longrightarrow> c \<noteq> bquote \<Longrightarrow> (c = CHR ''-'' \<longrightarrow> s \<noteq> [] \<and> hd s \<noteq> CHR ''-'') \<Longrightarrow>
   (c = CHR ''/'' \<longrightarrow> s \<noteq> [] \<and> hd s \<noteq> CHR ''*'') \<Longrightarrow> my_region (c # s @ r) = None"
  by (cases s) (auto simp: my_region_def)

lemma my_loop_step: "my_step st prev c s = (st', r) \<Longrightarrow> c # s = a @ r \<Longrightarrow> a \<noteq> [] \<Longrightarrow> my_loop st prev (c # s) = my_loop st' (Some (last a)) r"
proof -
  assume step: "my_step st prev c s = (st', r)" and a: "c # s = a @ r" "a \<noteq> []"
  have "Suc (length s) = length a + length r" using arg_cong [OF a(1), of length] by simp
  then have "length s - length r = length a - 1" using a(2) by (cases a) auto
  then have "(c # s) ! (length s - length r) = last a" using a by (simp add: last_conv_nth nth_append)
  then show ?thesis by (simp add: my_loop.simps(2) step)
qed

lemma plain_kept:
  assumes "plain_ok prev p" "quiet b st" "p \<noteq> []" "isIdentByte (last p) \<Longrightarrow> starts (\<lambda>c. \<not> isIdentByte c) r"
  shows "\<exists>st'. quiet b st' \<and> my_out st' = my_out st @ p \<and> my_loop st prev (p @ r) = my_loop st' (Some (last p)) r"
  using assms
proof (induction prev p arbitrary: st rule: plain_ok.induct)
  case (2 prev c s)
  note pl = "2.prems"(1) [unfolded plain_ok.simps(2)]
  have reg: "my_region (c # s @ r) = None" using pl by (intro my_region_plain) auto
  show ?case
  proof (cases "isWordStart prev c")
    case False
    define st1 where "st1 = my_emit [c] (my_punct c st)"
    have st1: "quiet b st1" "my_out st1 = my_out st @ [c]" using my_punct_quiet "2.prems"(2) by (simp_all add: st1_def)
    have "my_step st prev c (s @ r) = (st1, s @ r)" by (simp add: my_step_def reg False Let_def st1_def)
    from my_loop_step [OF this, of "[c]"] have l: "my_loop st prev (c # s @ r) = my_loop st1 (Some c) (s @ r)" by simp
    show ?thesis
    proof (cases "s = []")
      case True
      then show ?thesis using l st1 by auto
    next
      case ne: False
      have "plain_ok (Some c) s" using pl False by simp
      then obtain st' where "quiet b st'" "my_out st' = my_out st1 @ s" "my_loop st1 (Some c) (s @ r) = my_loop st' (Some (last s)) r"
        using "2.IH"(2) [OF False _ st1(1) ne] "2.prems"(4) ne by (metis last_ConsR)
      then show ?thesis using l st1 ne by auto
    qed
  next
    case True
    then have ic: "isIdentByte c" by (simp add: isWordStart_def)
    define w where "w = takeWhile isIdentByte (c # s)"
    define q where "q = dropWhile isIdentByte s"
    have wq: "c # s = w @ q" using ic by (simp add: w_def q_def)
    have "w \<noteq> []" using ic by (simp add: w_def)
    have split: "takeWhile isIdentByte (c # s @ r) = w" "dropWhile isIdentByte (c # s @ r) = q @ r"
    proof -
      have "takeWhile isIdentByte (s @ r) = takeWhile isIdentByte s \<and> dropWhile isIdentByte (s @ r) = q @ r"
      proof (cases "\<forall>x\<in>set s. isIdentByte x")
        case all: True
        then have "isIdentByte (last (c # s))" using ic by simp
        then have st: "starts (\<lambda>c. \<not> isIdentByte c) r" using "2.prems"(4) by blast
        have t: "takeWhile isIdentByte s = s" "q = []" using all by (simp_all add: takeWhile_eq_all_conv q_def)
        show ?thesis using all st by (cases r) (simp_all add: starts_Cons t)
      next
        case False
        then show ?thesis by (auto simp: q_def intro: takeWhile_append1 dropWhile_append1)
      qed
      then show "takeWhile isIdentByte (c # s @ r) = w" "dropWhile isIdentByte (c # s @ r) = q @ r"
        using ic by (simp_all add: w_def)
    qed
    have sp: "\<not> special_word (toUpper w)" "plain_ok (Some (last w)) q" using pl True by (simp_all add: w_def q_def)
    define st1 where "st1 = my_emit w st"
    have st1: "quiet b st1" "my_out st1 = my_out st @ w" using "2.prems"(2) by (simp_all add: st1_def)
    have "my_step st prev c (s @ r) = (st1, q @ r)"
      unfolding my_step_def reg option.case Let_def split
      by (simp add: True my_punct_ident [OF ic] my_word_plain [OF sp(1)] st1_def)
    from my_loop_step [OF this, of w] have l: "my_loop st prev (c # s @ r) = my_loop st1 (Some (last w)) (q @ r)"
      using wq \<open>w \<noteq> []\<close> by (metis append_Cons append_assoc)
    show ?thesis
    proof (cases "q = []")
      case e: True
      then show ?thesis using l st1 wq by auto
    next
      case ne: False
      have lq: "last (c # s) = last q" using wq ne by simp
      obtain st' where "quiet b st'" "my_out st' = my_out st1 @ q" "my_loop st1 (Some (last w)) (q @ r) = my_loop st' (Some (last q)) r"
        using "2.IH"(1) [OF True sp(2) [unfolded w_def q_def] st1(1) ne [unfolded q_def]] "2.prems"(4) lq unfolding w_def q_def by metis
      moreover note lq
      ultimately show ?thesis using l st1 wq by (metis append_Cons append_assoc)
    qed
  qed
qed simp

lemma parts_kept:
  "my_ok prev ps \<Longrightarrow> quiet b st \<Longrightarrow> my_out (my_loop st prev (show_stmt ps)) = my_out st @ show_stmt ps"
proof (induction ps arbitrary: prev st)
  case (Cons p ps)
  define r where "r = show_stmt ps"
  have ok: "my_part_ok prev p" "starts (my_follow p) r" "my_ok (Some (last (show_my p))) ps" using Cons.prems by (simp_all add: r_def)
  have "\<exists>st'. quiet b st' \<and> my_out st' = my_out st @ show_my p \<and> my_loop st prev (show_my p @ r) = my_loop st' (Some (last (show_my p))) r"
  proof (cases "\<exists>t. p = MyPlain t")
    case True
    then obtain t where t: "p = MyPlain t" by blast
    have "starts (\<lambda>c. \<not> isIdentByte c) r" using ok(2) t by (auto elim: starts_mono)
    then show ?thesis using plain_kept [of prev t b st r] ok(1) t Cons.prems(2) by simp
  next
    case False
    then have reg: "my_region (show_my p @ r) = Some (show_my p, r)" using ok by (intro my_region_show) auto
    have ne: "show_my p \<noteq> []" using False by (cases p) auto
    then obtain c s where cs: "show_my p = c # s" by (cases "show_my p") auto
    have "my_step st prev c (s @ r) = (my_emit (show_my p) st, r)" using reg by (simp add: my_step_def cs)
    from my_loop_step [OF this, of "show_my p"] have "my_loop st prev (show_my p @ r) = my_loop (my_emit (show_my p) st) (Some (last (show_my p))) r"
      using cs by simp
    then show ?thesis using Cons.prems(2) by (intro exI [of _ "my_emit (show_my p) st"]) simp
  qed
  then obtain st' where "quiet b st'" "my_out st' = my_out st @ show_my p"
    "my_loop st prev (show_my p @ r) = my_loop st' (Some (last (show_my p))) r" by blast
  then show ?case using Cons.IH [OF ok(3), of st'] by (simp add: show_stmt_def r_def)
qed (simp add: show_stmt_def)

text \<open>
  The translation touches nothing but the words it is about: a statement without them is kept as it is, whatever its string literals, quoted
  identifiers and comments contain.
\<close>

theorem my_statement_kept:
  assumes "my_ok None ps"
  shows "my_translateSQL (show_stmt ps) = show_stmt ps"
  using parts_kept [OF assms, of False my_init] by (simp add: my_translateSQL_def my_init_def quiet_def)

definition kept_sample :: "my_part list" where
  "kept_sample = [MyPlain ''SELECT name, a - b, '', MyLiteral ''ENGINE=InnoDB'', MyPlain '' FROM '', MyIdent ''int'', MyPlain '' WHERE (x = ?) '',
     MyComment '' BIGINT'', MyPlain (CHR 0x0A # '' AND y = ''), MyLiteral ''it'']"

theorem my_statement_kept_witness:
  "my_ok None kept_sample \<and> my_translateSQL (show_stmt kept_sample) = show_stmt kept_sample"
proof -
  have ok: "my_ok None kept_sample" by code_simp
  from my_statement_kept [OF ok] ok show ?thesis by simp
qed

section \<open>AUTO_INCREMENT and PRIMARY KEY\<close>

lemma step_word:
  assumes "isIdentByte c" "\<not> is_digit c" "\<forall>x\<in>set s. isIdentByte x" "starts (\<lambda>c. \<not> isIdentByte c) r" "isWordStart prev c"
  shows "my_step st prev c (s @ r) = my_word (c # s) r st"
proof -
  have "c \<noteq> squote" "c \<noteq> dquote" "c \<noteq> bquote" "c \<noteq> CHR ''-''" "c \<noteq> CHR ''/''"
    using assms(1) by (auto simp: isIdentByte_def is_digit_def byte_in_def squote_def dquote_def bquote_def)
  then have reg: "my_region (c # s @ r) = None" by (simp add: my_region_def)
  have "takeWhile isIdentByte (s @ r) = s" "dropWhile isIdentByte (s @ r) = r"
    using assms(3,4) by (cases r; auto simp: starts_Cons)+
  then show ?thesis using assms(1,5) by (simp add: my_step_def reg my_punct_ident)
qed

lemma letters [simp]:
  "isIdentByte (CHR ''A'')" "isIdentByte (CHR ''P'')" "\<not> is_digit (CHR ''A'')" "\<not> is_digit (CHR ''P'')"
  "\<not> isIdentByte (CHR '' '')" "\<not> word_byte (CHR '' '')"
  by (simp_all add: isIdentByte_def is_digit_def byte_in_def word_byte_def latin1_letter_def)

lemma upper_words: "toUpper ''AUTO_INCREMENT'' = ''AUTO_INCREMENT''" "toUpper ''PRIMARY'' = ''PRIMARY''"
  "\<forall>x\<in>set ''UTO_INCREMENT''. isIdentByte x" "\<forall>x\<in>set ''RIMARY''. isIdentByte x"
  by code_simp+

lemma word_start: "\<not> word_byte p \<Longrightarrow> isIdentByte c \<Longrightarrow> \<not> is_digit c \<Longrightarrow> isWordStart (Some p) c"
  by (simp add: isWordStart_def word_byte_def)

lemma primary_key:
  assumes "starts (\<lambda>c. \<not> isIdentByte c) r" "\<not> word_byte p"
  shows "my_loop st (Some p) (''PRIMARY KEY'' @ r) = my_loop (fst (my_primary ''PRIMARY'' ('' KEY'' @ r) st)) (Some (CHR ''Y'')) r"
proof -
  have k: "snd (my_primary ''PRIMARY'' ('' KEY'' @ r) st) = r"
    using assms(1) by (cases r) (simp_all add: my_primary_def Let_def hspace_def starts_Cons)
  have "my_step st (Some p) (CHR ''P'') (''RIMARY'' @ ('' KEY'' @ r)) = my_word (CHR ''P'' # ''RIMARY'') ('' KEY'' @ r) st"
    by (rule step_word) (simp_all add: upper_words(4) [simplified] starts_Cons word_start assms(2))
  then have "my_step st (Some p) (CHR ''P'') (''RIMARY KEY'' @ r) = (fst (my_primary ''PRIMARY'' ('' KEY'' @ r) st), r)"
    using k upper_words(2) by (simp add: my_word_def prod_eq_iff)
  from my_loop_step [OF this, of "''PRIMARY KEY''"] show ?thesis by simp
qed

text \<open>
  The two orders of AUTO_INCREMENT and PRIMARY KEY in a column give the same statement, in the only order that SQLite accepts.
\<close>

theorem my_autoincrement_order:
  assumes "plain_ok None pre" "pre \<noteq> []" "\<not> isIdentByte (last pre)" "\<not> word_byte (last pre)"
    and "plain_ok (Some (CHR ''T'')) post" "plain_ok (Some (CHR ''Y'')) post" "post \<noteq> []" "starts (\<lambda>c. \<not> isIdentByte c) post"
    and "matchTableOption ''AUTO_INCREMENT'' post = None"
  shows "my_translateSQL (pre @ ''AUTO_INCREMENT PRIMARY KEY'' @ post) = pre @ ''PRIMARY KEY AUTOINCREMENT'' @ post \<and>
    my_translateSQL (pre @ ''PRIMARY KEY AUTO_INCREMENT'' @ post) = pre @ ''PRIMARY KEY AUTOINCREMENT'' @ post"
proof -
  have init: "quiet False my_init" "my_out my_init = []" by (simp_all add: quiet_def my_init_def)
  have pre: "\<exists>st. quiet False st \<and> my_out st = pre \<and> my_loop my_init None (pre @ r) = my_loop st (Some (last pre)) r" for r
    using plain_kept [OF assms(1) init(1) assms(2), of r] assms(3) init(2) by auto
  have kept: "my_out (my_loop st prev post) = my_out st @ post" if "quiet True st" "plain_ok prev post" for st prev
    using plain_kept [OF that(2,1) assms(7), of "[]"] by auto
  have nid: "post = [] \<or> \<not> isIdentByte (hd post)" using assms(8) by (cases post) (auto simp: starts_Cons)
  have "my_translateSQL (pre @ ''AUTO_INCREMENT PRIMARY KEY'' @ post) = pre @ ''PRIMARY KEY AUTOINCREMENT'' @ post"
  proof -
    obtain st where st: "quiet False st" "my_out st = pre"
      "my_loop my_init None (pre @ ''AUTO_INCREMENT PRIMARY KEY'' @ post) = my_loop st (Some (last pre)) (''AUTO_INCREMENT PRIMARY KEY'' @ post)"
      using pre by blast
    define st1 where "st1 = st\<lparr>my_aiPending := True, my_aiDepth := my_depth st\<rparr>"
    have "matchTableOption ''AUTO_INCREMENT'' ('' PRIMARY KEY'' @ post) = None"
      by (simp add: matchTableOption_def option_value_def hspace_def)
    then have w: "my_word ''AUTO_INCREMENT'' ('' PRIMARY KEY'' @ post) st = (st1, ''PRIMARY KEY'' @ post)"
      using st(1) upper_words(1) by (simp add: my_word_def my_autoinc_def quiet_def st1_def hspace_def)
    have "my_step st (Some (last pre)) (CHR ''A'') (''UTO_INCREMENT'' @ ('' PRIMARY KEY'' @ post)) = my_word (CHR ''A'' # ''UTO_INCREMENT'') ('' PRIMARY KEY'' @ post) st"
      by (rule step_word) (simp_all add: upper_words(3) [simplified] starts_Cons word_start assms(4))
    then have "my_step st (Some (last pre)) (CHR ''A'') (''UTO_INCREMENT PRIMARY KEY'' @ post) = (st1, ''PRIMARY KEY'' @ post)"
      using w by simp
    from my_loop_step [OF this, of "''AUTO_INCREMENT ''"]
    have l: "my_loop my_init None (pre @ ''AUTO_INCREMENT PRIMARY KEY'' @ post) = my_loop st1 (Some (CHR '' '')) (''PRIMARY KEY'' @ post)"
      using st(3) by simp
    define st2 where "st2 = fst (my_primary ''PRIMARY'' ('' KEY'' @ post) st1)"
    have st2: "my_out st2 = pre @ ''PRIMARY KEY AUTOINCREMENT''" "quiet True st2"
      using st(1,2) nid by (simp_all add: st2_def my_primary_def Let_def hspace_def st1_def my_emit_def quiet_def)
    have "my_loop st1 (Some (CHR '' '')) (''PRIMARY KEY'' @ post) = my_loop st2 (Some (CHR ''Y'')) post"
      unfolding st2_def by (rule primary_key [OF assms(8)]) simp
    then show ?thesis unfolding my_translateSQL_def l using kept [OF st2(2) assms(6)] st2(1) by simp
  qed
  moreover have "my_translateSQL (pre @ ''PRIMARY KEY AUTO_INCREMENT'' @ post) = pre @ ''PRIMARY KEY AUTOINCREMENT'' @ post"
  proof -
    define r where "r = '' AUTO_INCREMENT'' @ post"
    obtain st where st: "quiet False st" "my_out st = pre"
      "my_loop my_init None (pre @ ''PRIMARY KEY'' @ r) = my_loop st (Some (last pre)) (''PRIMARY KEY'' @ r)"
      using pre by blast
    define st1 where "st1 = fst (my_primary ''PRIMARY'' ('' KEY'' @ r) st)"
    have st1: "my_out st1 = pre @ ''PRIMARY KEY''" "my_pkSeen st1" "my_depth st1 = my_pkDepth st1" "\<not> my_aiPending st1"
      using st(1,2) by (simp_all add: st1_def my_primary_def Let_def hspace_def r_def my_emit_def quiet_def)
    have l1: "my_loop st (Some (last pre)) (''PRIMARY KEY'' @ r) = my_loop st1 (Some (CHR ''Y'')) r"
      unfolding st1_def by (rule primary_key [OF _ assms(4)]) (simp add: r_def starts_Cons)
    define st2 where "st2 = my_emit '' '' st1"
    have "my_step st1 (Some (CHR ''Y'')) (CHR '' '') (''AUTO_INCREMENT'' @ post) = (st2, ''AUTO_INCREMENT'' @ post)"
      by (simp add: my_step_def my_region_def squote_def dquote_def bquote_def isWordStart_def my_punct_def st2_def)
    from my_loop_step [OF this, of "'' ''"]
    have l2: "my_loop st1 (Some (CHR ''Y'')) r = my_loop st2 (Some (CHR '' '')) (''AUTO_INCREMENT'' @ post)" by (simp add: r_def)
    define st3 where "st3 = my_emit ''AUTOINCREMENT'' st2"
    have w: "my_word ''AUTO_INCREMENT'' post st2 = (st3, post)"
      using st1 upper_words(1) assms(9) by (simp add: my_word_def my_autoinc_def st2_def st3_def my_emit_def)
    have "my_step st2 (Some (CHR '' '')) (CHR ''A'') (''UTO_INCREMENT'' @ post) = my_word (CHR ''A'' # ''UTO_INCREMENT'') post st2"
      by (rule step_word) (simp_all add: upper_words(3) [simplified] assms(8) word_start)
    then have "my_step st2 (Some (CHR '' '')) (CHR ''A'') (''UTO_INCREMENT'' @ post) = (st3, post)" using w by simp
    from my_loop_step [OF this, of "''AUTO_INCREMENT''"]
    have l3: "my_loop st2 (Some (CHR '' '')) (''AUTO_INCREMENT'' @ post) = my_loop st3 (Some (CHR ''T'')) post" by simp
    have st3: "my_out st3 = pre @ ''PRIMARY KEY AUTOINCREMENT''" "quiet True st3"
      using st1 by (simp_all add: st3_def st2_def my_emit_def quiet_def)
    have "my_out (my_loop my_init None (pre @ ''PRIMARY KEY'' @ r)) = pre @ ''PRIMARY KEY AUTOINCREMENT'' @ post"
      unfolding st(3) l1 l2 l3 using kept [OF st3(2) assms(5)] st3(1) by simp
    then show ?thesis by (simp add: my_translateSQL_def r_def)
  qed
  ultimately show ?thesis by blast
qed

theorem my_autoincrement_order_witness:
  "my_translateSQL (''CREATE TABLE t (id INTEGER '' @ ''AUTO_INCREMENT PRIMARY KEY'' @ '', name TEXT)'')
     = ''CREATE TABLE t (id INTEGER PRIMARY KEY AUTOINCREMENT, name TEXT)'' \<and>
   my_translateSQL (''CREATE TABLE t (id INTEGER '' @ ''PRIMARY KEY AUTO_INCREMENT'' @ '', name TEXT)'')
     = ''CREATE TABLE t (id INTEGER PRIMARY KEY AUTOINCREMENT, name TEXT)''"
proof -
  have "plain_ok None ''CREATE TABLE t (id INTEGER ''" "plain_ok (Some (CHR ''T'')) '', name TEXT)''" "plain_ok (Some (CHR ''Y'')) '', name TEXT)''"
    "matchTableOption ''AUTO_INCREMENT'' '', name TEXT)'' = None" "starts (\<lambda>c. \<not> isIdentByte c) '', name TEXT)''"
    by code_simp+
  from my_autoincrement_order [OF this(1) _ _ _ this(2,3) _ this(5,4)] show ?thesis by simp
qed

section \<open>Comparisons taken for table options\<close>

text \<open>
  A table option is removed in any statement, not only after CREATE TABLE: a comparison of a column named comment, engine or
  collate with a literal at the end of a condition disappears without an error of the translation.
\<close>

theorem my_comparison_dropped:
  assumes "plain_ok None pre" "pre \<noteq> []" "\<not> isIdentByte (last pre)" "\<not> word_byte (last pre)"
    and "col \<in> {''comment'', ''engine'', ''collate''}"
  shows "my_translateSQL (pre @ col @ '' = '' @ show_my (MyLiteral v)) = trimTrailingHSpace pre"
proof -
  define rest where "rest = '' = '' @ show_my (MyLiteral v)"
  obtain st where st: "my_out st = pre" "my_loop my_init None (pre @ col @ rest) = my_loop st (Some (last pre)) (col @ rest)"
    using plain_kept [OF assms(1) _ assms(2), of False my_init "col @ rest"] assms(3) by (auto simp: quiet_def my_init_def)
  define c where "c = hd col"
  define s where "s = tl col"
  have col: "col = c # s" "isIdentByte c" "\<not> is_digit c" "\<forall>x\<in>set s. isIdentByte x" "c \<notin> {squote, dquote, bquote}"
    "c \<noteq> CHR ''-''" "c \<noteq> CHR ''/''"
    unfolding c_def s_def using assms(5)
    by (elim insertE emptyE; simp add: isIdentByte_def is_digit_def byte_in_def squote_def dquote_def bquote_def)+
  have split: "takeWhile isIdentByte (c # s @ rest) = col" "dropWhile isIdentByte (c # s @ rest) = rest"
    using col(1,2,4) by (simp_all add: rest_def isIdentByte_def is_digit_def byte_in_def)
  have reg: "my_region (c # s @ rest) = None" using col by (simp add: my_region_def)
  have ws: "isWordStart (Some (last pre)) c" using col assms(4) by (simp add: isWordStart_def word_byte_def)
  have "\<not> hspace squote" by (simp add: hspace_def squote_def)
  then have "option_value rest = Some []"
    using my_quoted_tail_escape [of "[]" v] by (simp add: option_value_def rest_def hspace_def mySingleQuoted_def)
  moreover have "toUpper ''comment'' = ''COMMENT''" "toUpper ''engine'' = ''ENGINE''" "toUpper ''collate'' = ''COLLATE''"
    by code_simp+
  ultimately have "my_word col rest st = (my_trim st, [])"
    using assms(5) by (elim insertE emptyE) (simp_all add: my_word_def matchTableOption_def typeReplacements_def)
  then have "my_step st (Some (last pre)) c (s @ rest) = (my_trim st, [])"
    unfolding my_step_def reg option.case Let_def split by (simp add: ws my_punct_ident [OF col(2)])
  then have "my_loop st (Some (last pre)) (col @ rest) = my_trim st" by (simp add: col(1) my_loop.simps(2))
  then show ?thesis unfolding my_translateSQL_def rest_def [symmetric] by (simp add: st my_trim_def)
qed

theorem my_comparison_dropped_witness:
  "my_translateSQL (''DELETE FROM posts WHERE '' @ ''comment'' @ '' = '' @ show_my (MyLiteral ''spam'')) = ''DELETE FROM posts WHERE''"
proof -
  have "plain_ok None ''DELETE FROM posts WHERE ''" by code_simp
  from my_comparison_dropped [OF this, of "''comment''" "''spam''"] show ?thesis
    by (simp add: isIdentByte_def word_byte_def latin1_letter_def is_digit_def byte_in_def trimTrailingHSpace_def hspace_def)
qed

end
