(* ===== verification/Mysql_Handler.thy ===== *)
theory Mysql_Handler
  imports Mysql_Translate
begin

text \<open>
  \<^verbatim>\<open>mysqlwire/handler.go\<close>, \<^verbatim>\<open>builtins.go\<close> and \<^verbatim>\<open>args.go\<close>: the commands of one MySQL connection.  The packets of the protocol
  belong to a package that is not in the repository, so a result is what the handler gives to it.
\<close>

section \<open>Arguments\<close>

text \<open>
  What the protocol package decodes: integers of all widths, floats, and bytes with the kind of their column type.
\<close>

datatype typed_kind = BlobKind | DecimalKind | BitKind | OtherKind

datatype my_arg = ANil | ATyped typed_kind "string option" | AInt int | AUint nat | AFloat string | ABytes string | AStr string

definition decodeTypedBytes :: "typed_kind \<Rightarrow> string option \<Rightarrow> go_value" where
  "decodeTypedBytes k v = (case v of None \<Rightarrow> VNil
     | Some b \<Rightarrow> (case k of BlobKind \<Rightarrow> VBytes b | DecimalKind \<Rightarrow> VStr b
         | BitKind \<Rightarrow> (case parseInt b of Some n \<Rightarrow> VInt n | None \<Rightarrow> VBytes b)
         | OtherKind \<Rightarrow> VStr b))"

fun convertOne :: "my_arg \<Rightarrow> go_value" where
  "convertOne ANil = VNil"
| "convertOne (ATyped k v) = decodeTypedBytes k v"
| "convertOne (AInt i) = VInt i"
| "convertOne (AUint n) = VInt (int n)"
| "convertOne (AFloat x) = VFloat x"
| "convertOne (ABytes b) = VBytes b"
| "convertOne (AStr s) = VStr s"

definition convertArgs :: "my_arg list \<Rightarrow> go_value list" where
  "convertArgs args = map convertOne args"

section \<open>Results\<close>

text \<open>A result without rows, with the affected rows and the inserted identifier; or rows in the text or the binary form.\<close>

datatype my_result = OkResult nat nat | RowsResult "string list" "go_value list list" bool

text \<open>
  The driver, why the pool has no connection if it has none, the database name, the error of building a result set if there is one, and the formats.
\<close>

record 'db my_world =
  mw_drv :: "'db sql_driver"
  mw_conn :: "string option"
  mw_database :: string
  mw_build :: "string list \<Rightarrow> go_value list list \<Rightarrow> bool \<Rightarrow> string option"
  mw_fmt :: fmt_env

text \<open>An answer, whether the session has its connection, and the database.\<close>

type_synonym 'db my_answer = "(string + my_result) \<times> bool \<times> 'db"

definition empty_result :: my_result where
  "empty_result = OkResult 0 0"

definition build_rows :: "'db my_world \<Rightarrow> string list \<Rightarrow> go_value list list \<Rightarrow> bool \<Rightarrow> string + my_result" where
  "build_rows w cols vals binary = (case mw_build w cols vals binary of Some er \<Rightarrow> Inl er | None \<Rightarrow> Inr (RowsResult cols vals binary))"

definition my_pinned :: "'db my_world \<Rightarrow> bool \<Rightarrow> string option" where
  "my_pinned w pin = (if pin then None else mw_conn w)"

fun normaliseScan :: "fmt_env \<Rightarrow> go_value \<Rightarrow> go_value" where
  "normaliseScan f (VBytes b) = VStr b"
| "normaliseScan f (VBool b) = VInt (if b then 1 else 0)"
| "normaliseScan f (VTime t) = VStr (fmt_time f t)"
| "normaliseScan f v = v"

definition runSelect :: "'db my_world \<Rightarrow> string \<Rightarrow> go_value list \<Rightarrow> bool \<Rightarrow> bool \<Rightarrow> 'db \<Rightarrow> 'db my_answer" where
  "runSelect w q args binary pin db = (case my_pinned w pin of Some er \<Rightarrow> (Inl er, pin, db)
     | None \<Rightarrow> (case drv_query (mw_drv w) db q args of
         (db', Inl er) \<Rightarrow> (Inl er, True, db')
       | (db', Inr rs) \<Rightarrow> (case rset_err rs of Some er \<Rightarrow> (Inl er, True, db')
           | None \<Rightarrow> (build_rows w (map fst (rset_cols rs)) (map (map (normaliseScan (mw_fmt w))) (rset_rows rs)) binary, True, db'))))"

definition runExec :: "'db my_world \<Rightarrow> string \<Rightarrow> go_value list \<Rightarrow> bool \<Rightarrow> 'db \<Rightarrow> 'db my_answer" where
  "runExec w q args pin db = (case my_pinned w pin of Some er \<Rightarrow> (Inl er, pin, db)
     | None \<Rightarrow> (case drv_exec (mw_drv w) db q args of
         (db', Inl er) \<Rightarrow> (Inl er, True, db')
       | (db', Inr (affected, lastid)) \<Rightarrow>
           (Inr (OkResult (case affected of Some n \<Rightarrow> if n \<ge> 0 then nat n else 0 | None \<Rightarrow> 0)
              (case lastid of Some i \<Rightarrow> if i > 0 then nat i else 0 | None \<Rightarrow> 0)), True, db')))"

section \<open>Built-in statements\<close>

definition DefaultUser :: string where "DefaultUser = ''gcp-local''"

definition singleStringResult :: "'db my_world \<Rightarrow> string \<Rightarrow> string \<Rightarrow> bool \<Rightarrow> string + my_result" where
  "singleStringResult w name v binary = build_rows w [name] [[VStr v]] binary"

definition set_prefixes :: "string list" where
  "set_prefixes = [''SET NAMES'', ''SET CHARACTER SET'', ''SET CHARSET'', ''SET AUTOCOMMIT'', ''SET SQL_MODE'', ''SET SESSION'',
     ''SET @@'', ''SET TIME_ZONE'', ''SET TRANSACTION'', ''SET WAIT_TIMEOUT'', ''SET INTERACTIVE_TIMEOUT'']"

definition show_prefixes :: "string list" where
  "show_prefixes = [''SHOW VARIABLES'', ''SHOW SESSION VARIABLES'', ''SHOW GLOBAL VARIABLES'', ''SHOW WARNINGS'', ''SHOW ENGINES'',
     ''SHOW STATUS'', ''SHOW CHARSET'', ''SHOW COLLATION'']"

definition tryBuiltin :: "'db my_world \<Rightarrow> string \<Rightarrow> bool \<Rightarrow> bool \<Rightarrow> 'db \<Rightarrow> 'db my_answer option" where
  "tryBuiltin w query binary pin db = (let up = toUpper (trimSuffix (trimSpace query) '';'') in
     if up = [] then Some (Inr empty_result, pin, db)
     else if up = ''START TRANSACTION'' \<or> hasPrefix up ''START TRANSACTION '' then Some (runExec w ''BEGIN'' [] pin db)
     else if list_ex (hasPrefix up) set_prefixes then Some (Inr empty_result, pin, db)
     else if up = ''SELECT VERSION()'' \<or> up = ''SELECT @@VERSION'' then Some (singleStringResult w ''VERSION()'' ''8.0.11-gcp-local'' binary, pin, db)
     else if up = ''SELECT @@VERSION_COMMENT'' then Some (singleStringResult w ''@@version_comment'' ''gcp-local emulator'' binary, pin, db)
     else if up = ''SELECT DATABASE()'' then Some (singleStringResult w ''DATABASE()'' (mw_database w) binary, pin, db)
     else if up = ''SELECT CURRENT_USER()'' \<or> up = ''SELECT USER()''
       then Some (singleStringResult w ''USER()'' (DefaultUser @ ''@localhost'') binary, pin, db)
     else if list_ex (hasPrefix up) show_prefixes then Some (build_rows w [''Variable_name'', ''Value''] [] binary, pin, db)
     else None)"

section \<open>Commands\<close>

text \<open>A statement of the binary protocol has been translated before.\<close>

definition runQuery :: "'db my_world \<Rightarrow> string \<Rightarrow> my_arg list \<Rightarrow> bool \<Rightarrow> bool \<Rightarrow> 'db \<Rightarrow> 'db my_answer" where
  "runQuery w query args binary pin db = (let q = trimSpace query in
     if q = [] then (Inr empty_result, pin, db)
     else (case tryBuiltin w q binary pin db of Some a \<Rightarrow> a
       | None \<Rightarrow> (let tq = (if binary then q else my_translateSQL q) in
           if my_isSelectish tq then runSelect w tq (convertArgs args) binary pin db
           else runExec w tq (convertArgs args) pin db)))"

definition my_HandleQuery :: "'db my_world \<Rightarrow> string \<Rightarrow> bool \<Rightarrow> 'db \<Rightarrow> 'db my_answer" where
  "my_HandleQuery w query pin db = runQuery w query [] False pin db"

text \<open>A prepared statement: the translated text and the number of its parameters.\<close>

record my_prepared =
  mp_translated :: string
  mp_params :: nat

definition HandleStmtPrepare :: "string \<Rightarrow> my_prepared" where
  "HandleStmtPrepare query = (let t = my_translateSQL query in \<lparr>mp_translated = t, mp_params = my_countParams t\<rparr>)"

definition HandleStmtExecute :: "'db my_world \<Rightarrow> my_prepared option \<Rightarrow> string \<Rightarrow> my_arg list \<Rightarrow> bool \<Rightarrow> 'db \<Rightarrow> 'db my_answer" where
  "HandleStmtExecute w ps query args pin db =
     runQuery w (case ps of Some p \<Rightarrow> mp_translated p | None \<Rightarrow> my_translateSQL query) args True pin db"

section \<open>Preparing and executing\<close>

text \<open>No region starts in a text.\<close>

fun no_region :: "string \<Rightarrow> bool" where
  "no_region [] \<longleftrightarrow> True"
| "no_region (c # s) \<longleftrightarrow> c \<noteq> squote \<and> c \<noteq> dquote \<and> c \<noteq> bquote \<and>
     (c = CHR ''-'' \<longrightarrow> s \<noteq> [] \<and> hd s \<noteq> CHR ''-'') \<and> (c = CHR ''/'' \<longrightarrow> s \<noteq> [] \<and> hd s \<noteq> CHR ''*'') \<and> no_region s"

lemma ident_no_region: "isIdentByte c \<Longrightarrow> c \<noteq> squote \<and> c \<noteq> dquote \<and> c \<noteq> bquote \<and> c \<noteq> CHR ''-'' \<and> c \<noteq> CHR ''/''"
  by (auto simp: isIdentByte_def is_digit_def byte_in_def squote_def dquote_def bquote_def)

lemma no_region_word: "\<forall>c\<in>set w. isIdentByte c \<Longrightarrow> no_region q \<Longrightarrow> no_region (w @ q)"
  by (induction w) (auto dest: ident_no_region)

lemma plain_no_region: "plain_ok prev p \<Longrightarrow> no_region p"
proof (induction prev p rule: plain_ok.induct)
  case (2 prev c s)
  note pl = "2.prems" [unfolded plain_ok.simps(2)]
  show ?case
  proof (cases "isWordStart prev c")
    case True
    have "no_region (dropWhile isIdentByte s)" using "2.IH"(1) [OF True] pl True by simp
    then have "no_region (takeWhile isIdentByte (c # s) @ dropWhile isIdentByte (c # s))"
      using True by (intro no_region_word) (auto dest: set_takeWhileD simp: isWordStart_def split: if_splits)
    then show ?thesis by (simp only: takeWhile_dropWhile_id)
  next
    case False
    then show ?thesis using "2.IH"(2) [OF False] pl by simp
  qed
qed simp

lemma count_plain: "no_region p \<Longrightarrow> my_countParams (p @ r) = length (filter (\<lambda>c. c = CHR ''?'') p) + my_countParams r"
proof (induction p)
  case (Cons c p)
  have "my_region (c # p @ r) = None" using Cons.prems by (intro my_region_plain) auto
  then show ?case using Cons by (simp add: my_countParams.simps(2))
qed simp

fun my_marks :: "my_part \<Rightarrow> nat" where
  "my_marks (MyPlain p) = length (filter (\<lambda>c. c = CHR ''?'') p)"
| "my_marks _ = 0"

lemma count_parts: "my_ok prev ps \<Longrightarrow> my_countParams (show_stmt ps) = sum_list (map my_marks ps)"
proof (induction ps arbitrary: prev)
  case (Cons p ps)
  define r where "r = show_stmt ps"
  have ok: "my_part_ok prev p" "starts (my_follow p) r" "my_ok (Some (last (show_my p))) ps" using Cons.prems by (simp_all add: r_def)
  have "my_countParams (show_my p @ r) = my_marks p + my_countParams r"
  proof (cases "\<exists>t. p = MyPlain t")
    case True
    then show ?thesis using ok(1) count_plain plain_no_region by auto
  next
    case False
    then have reg: "my_region (show_my p @ r) = Some (show_my p, r)" using ok by (intro my_region_show) auto
    obtain c s where cs: "show_my p = c # s" using False by (cases p) auto
    have "my_marks p = 0" using False by (cases p) auto
    then show ?thesis using reg by (simp add: cs my_countParams.simps(2))
  qed
  then show ?case using Cons.IH [OF ok(3)] by (simp add: show_stmt_def r_def)
qed (simp add: show_stmt_def)


definition my_demo :: "unit my_world" where
  "my_demo = \<lparr>mw_drv = \<lparr>drv_exec = (\<lambda>db q args. (db, Inr (Some (int (length args)), None))),
       drv_query = (\<lambda>db q args. (db, Inr \<lparr>rset_cols = [], rset_rows = [], rset_err = None\<rparr>))\<rparr>,
     mw_conn = None, mw_database = ''app'', mw_build = (\<lambda>_ _ _. None),
     mw_fmt = \<lparr>fmt_float_v = id, fmt_float_g = id, fmt_time = (\<lambda>_. [])\<rparr>\<rparr>"

definition prepared_sample :: "my_part list" where
  "prepared_sample = [MyPlain ''INSERT INTO t VALUES (?, '', MyLiteral ''what?'', MyPlain '', ?)'']"


end
