(* ===== verification/Console.thy ===== *)
theory Console
  imports Health
begin

text \<open>
  Package \<^verbatim>\<open>internal/dashboard/console\<close>: the web console.  The console sees a service through a small interface of its own
  (\<^verbatim>\<open>ConsolePubSub\<close>, \<^verbatim>\<open>ConsoleStorage\<close> and so on), here a record of functions over the state of the process; an operation
  that can only read has no new state in its type.  A service that is not enabled is \<open>None\<close> in the options.  Package
  \<^verbatim>\<open>html/template\<close>, the templates and the scripts of the pages are parameters: a page is the view that is handed to the template.
\<close>

section \<open>The interfaces of the services\<close>

record 's con_logging =
  cl_Entries :: "int \<Rightarrow> string \<Rightarrow> 's \<Rightarrow> string + json list"

record 's con_storage =
  cst_Buckets :: "'s \<Rightarrow> string + json list"
  cst_Objects :: "string \<Rightarrow> 's \<Rightarrow> string + json list"
  cst_Preview :: "string \<Rightarrow> string \<Rightarrow> int \<Rightarrow> 's \<Rightarrow> string + string \<times> bool"
  cst_Upload :: "string \<Rightarrow> string \<Rightarrow> string \<Rightarrow> string \<Rightarrow> 's \<Rightarrow> string option \<times> 's"

record 's con_pubsub =
  cps_Topics :: "'s \<Rightarrow> string + json list"
  cps_Subscriptions :: "string \<Rightarrow> 's \<Rightarrow> string + json list"
  cps_Peek :: "string \<Rightarrow> int \<Rightarrow> 's \<Rightarrow> string + json list"
  cps_Publish :: "string \<Rightarrow> string \<Rightarrow> (string \<times> string) list \<Rightarrow> 's \<Rightarrow> (string + string) \<times> 's"

record 's con_firestore =
  cfs_Collections :: "'s \<Rightarrow> string + string list"
  cfs_Documents :: "string \<Rightarrow> 's \<Rightarrow> string + json list"
  cfs_Document :: "string \<Rightarrow> 's \<Rightarrow> string + json"

record 's con_secrets =
  cse_Secrets :: "'s \<Rightarrow> string + json list"
  cse_Versions :: "string \<Rightarrow> 's \<Rightarrow> string + json list"
  cse_Payload :: "string \<Rightarrow> string \<Rightarrow> 's \<Rightarrow> string + string"

record 's con_tasks =
  ctk_Queues :: "'s \<Rightarrow> string + json list"
  ctk_Tasks :: "string \<Rightarrow> 's \<Rightarrow> string + json list"

record 's con_scheduler =
  csc_Jobs :: "'s \<Rightarrow> string + json list"

record 's con_kms =
  ckm_KeyRings :: "'s \<Rightarrow> string + json list"
  ckm_CryptoKeys :: "string \<Rightarrow> 's \<Rightarrow> string + json list"
  ckm_Encrypt :: "string \<Rightarrow> string \<Rightarrow> 's \<Rightarrow> string + string"
  ckm_Decrypt :: "string \<Rightarrow> string \<Rightarrow> 's \<Rightarrow> string + string"

record 's con_monitoring =
  cmo_Series :: "int \<Rightarrow> 's \<Rightarrow> string + json list"

record 's con_bigquery =
  cbq_Datasets :: "'s \<Rightarrow> string + json list"
  cbq_Tables :: "string \<Rightarrow> 's \<Rightarrow> string + json list"
  cbq_Query :: "string \<Rightarrow> 's \<Rightarrow> (string + json) \<times> 's"

record 's con_cloudsql =
  csq_Instances :: "'s \<Rightarrow> string + json list"

record 's con_cloudrun =
  ccr_Resources :: "'s \<Rightarrow> string + json list"

record 's con_status =
  cstat_Status :: "'s \<Rightarrow> json"

record 's con_options =
  co_Version :: string
  co_Commit :: string
  co_Project :: string
  co_Health :: "'s \<Rightarrow> Registry option"
  co_Logging :: "'s con_logging option"
  co_Storage :: "'s con_storage option"
  co_PubSub :: "'s con_pubsub option"
  co_Firestore :: "'s con_firestore option"
  co_Secrets :: "'s con_secrets option"
  co_Tasks :: "'s con_tasks option"
  co_Scheduler :: "'s con_scheduler option"
  co_KMS :: "'s con_kms option"
  co_Monitoring :: "'s con_monitoring option"
  co_BigQuery :: "'s con_bigquery option"
  co_CloudSQL :: "'s con_cloudsql option"
  co_CloudRun :: "'s con_cloudrun option"
  co_Functions :: "'s con_cloudrun option"
  co_Memorystore :: "'s con_status option"
  co_Bigtable :: "'s con_status option"
  co_Spanner :: "'s con_status option"

section \<open>The JSON endpoints\<close>

type_synonym 's con_handler = "http_req \<Rightarrow> 's \<Rightarrow> http_resp \<times> 's"

text \<open>What follows a prefix of the path, a parameter of the query, and one that must be given.\<close>

definition sub_path :: "string \<Rightarrow> http_req \<Rightarrow> string" where
  "sub_path p r = trimPrefix (r_path r) p"

definition query :: "http_req \<Rightarrow> string \<Rightarrow> string" where
  "query r k = get_first (r_query r) k"

text \<open>A listing under a label, or its error with a code.\<close>

definition answer_list :: "nat \<Rightarrow> string \<Rightarrow> string + json list \<Rightarrow> 's \<Rightarrow> http_resp \<times> 's" where
  "answer_list code label x s = (case x of Inl er \<Rightarrow> (respErr code er, s) | Inr l \<Rightarrow> (respJSON 200 (JObj [(label, JArr l)]), s))"

definition answer_text :: "nat \<Rightarrow> string \<Rightarrow> string + string \<Rightarrow> 's \<Rightarrow> http_resp \<times> 's" where
  "answer_text code label x s = (case x of Inl er \<Rightarrow> (respErr code er, s) | Inr t \<Rightarrow> (respJSON 200 (JObj [(label, JStr t)]), s))"

text \<open>A numeric parameter within bounds, or the default.\<close>

definition query_limit :: "http_req \<Rightarrow> string \<Rightarrow> int \<Rightarrow> int \<Rightarrow> int" where
  "query_limit r k dflt mx = (let v = query r k in
     if v = [] then dflt else (case parseInt v of None \<Rightarrow> dflt | Some n \<Rightarrow> if 0 < n \<and> n \<le> mx then n else dflt))"

text \<open>A field of the body; errors of the decoder are ignored and leave what was decoded.\<close>

definition body_doc :: "http_req \<Rightarrow> json" where
  "body_doc r = (case r_json r of None \<Rightarrow> JNull | Some j \<Rightarrow> j)"

definition body_str :: "http_req \<Rightarrow> string \<Rightarrow> string" where
  "body_str r k = fst (fld_str k (body_doc r))"

definition apiLogging :: "'s con_logging \<Rightarrow> 's con_handler" where
  "apiLogging c r s = (if r_path r \<noteq> ''/console/api/logging/entries'' then (http_notFound, s)
     else answer_list 400 ''entries'' (cl_Entries c (query_limit r ''limit'' 200 2000) (query r ''filter'') s) s)"

definition apiStorage :: "'s con_storage \<Rightarrow> 's con_handler" where
  "apiStorage c r s = (let rest = sub_path ''/console/api/storage/'' r; bucket = query r ''bucket''; object = query r ''object'' in
     if rest = ''buckets'' then answer_list 500 ''buckets'' (cst_Buckets c s) s
     else if rest = ''objects'' then
       (if bucket = [] then (respErr 400 ''bucket required'', s) else answer_list 400 ''objects'' (cst_Objects c bucket s) s)
     else if rest = ''preview'' then
       (case cst_Preview c bucket object (query_limit r ''maxBytes'' 8192 (2 ^ 20)) s of
          Inl er \<Rightarrow> (respErr 400 er, s)
        | Inr (body, isText) \<Rightarrow> (respJSON 200 (JObj [(''body'', JStr body), (''isText'', JBool isText)]), s))
     else if rest = ''upload'' then
       (if r_method r \<noteq> POST then (respErr 405 ''POST required'', s)
        else let body = take (2 ^ 20) (r_bytes r) in
          (case cst_Upload c bucket object (get_first (r_header r) ''Content-Type'') body s of
             (Some er, s') \<Rightarrow> (respErr 400 er, s')
           | (None, s') \<Rightarrow> (respJSON 200 (JObj [(''bytes'', JNum (int (length body))), (''object'', JStr object), (''ok'', JBool True)]), s')))
     else (http_notFound, s))"

definition apiPubSub :: "'s con_pubsub \<Rightarrow> 's con_handler" where
  "apiPubSub c r s = (let rest = sub_path ''/console/api/pubsub/'' r; sub = query r ''subscription''; topic = query r ''topic'' in
     if rest = ''topics'' then answer_list 500 ''topics'' (cps_Topics c s) s
     else if rest = ''subscriptions'' then answer_list 500 ''subscriptions'' (cps_Subscriptions c topic s) s
     else if rest = ''peek'' then
       (if sub = [] then (respErr 400 ''subscription required'', s)
        else answer_list 400 ''messages'' (cps_Peek c sub (query_limit r ''limit'' 20 200) s) s)
     else if rest = ''publish'' then
       (if r_method r \<noteq> POST then (respErr 405 ''POST required'', s)
        else if topic = [] then (respErr 400 ''topic required'', s)
        else (case cps_Publish c topic (body_str r ''data'')
                 (case fst (fld_strmap ''attributes'' (body_doc r)) of None \<Rightarrow> [] | Some m \<Rightarrow> m) s of
            (Inl er, s') \<Rightarrow> (respErr 400 er, s')
          | (Inr i, s') \<Rightarrow> (respJSON 200 (JObj [(''messageId'', JStr i)]), s')))
     else (http_notFound, s))"

definition apiFirestore :: "'s con_firestore \<Rightarrow> 's con_handler" where
  "apiFirestore c r s = (let rest = sub_path ''/console/api/firestore/'' r; name = query r ''name'' in
     if rest = ''collections'' then answer_list 500 ''collections'' (map_sum id (map JStr) (cfs_Collections c s)) s
     else if rest = ''documents'' then answer_list 400 ''documents'' (cfs_Documents c (query r ''collection'') s) s
     else if rest = ''document'' then
       (if name = [] then (respErr 400 ''name required'', s)
        else (case cfs_Document c name s of Inl er \<Rightarrow> (respErr 404 er, s) | Inr d \<Rightarrow> (respJSON 200 d, s)))
     else (http_notFound, s))"

definition apiSecrets :: "'s con_secrets \<Rightarrow> 's con_handler" where
  "apiSecrets c r s = (let rest = sub_path ''/console/api/secrets/'' r; secret = query r ''secret''; version = query r ''version'' in
     if rest = ''secrets'' then answer_list 500 ''secrets'' (cse_Secrets c s) s
     else if rest = ''versions'' then
       (if secret = [] then (respErr 400 ''secret required'', s) else answer_list 500 ''versions'' (cse_Versions c secret s) s)
     else if rest = ''payload'' then
       (if secret = [] \<or> version = [] then (respErr 400 ''secret and version required'', s)
        else answer_text 404 ''payload'' (cse_Payload c secret version s) s)
     else (http_notFound, s))"

definition apiTasks :: "'s con_tasks \<Rightarrow> 's con_handler" where
  "apiTasks c r s = (let rest = sub_path ''/console/api/tasks/'' r; q = query r ''queue'' in
     if rest = ''queues'' then answer_list 500 ''queues'' (ctk_Queues c s) s
     else if rest = ''tasks'' then
       (if q = [] then (respErr 400 ''queue required'', s) else answer_list 500 ''tasks'' (ctk_Tasks c q s) s)
     else (http_notFound, s))"

definition apiScheduler :: "'s con_scheduler \<Rightarrow> 's con_handler" where
  "apiScheduler c r s = (if sub_path ''/console/api/scheduler/'' r = ''jobs'' then answer_list 500 ''jobs'' (csc_Jobs c s) s
     else (http_notFound, s))"

definition apiKMS :: "'s con_kms \<Rightarrow> 's con_handler" where
  "apiKMS c r s = (let rest = sub_path ''/console/api/kms/'' r; ring = query r ''keyring''; key = query r ''key'' in
     if rest = ''keyrings'' then answer_list 500 ''keyRings'' (ckm_KeyRings c s) s
     else if rest = ''cryptokeys'' then
       (if ring = [] then (respErr 400 ''keyring required'', s) else answer_list 500 ''cryptoKeys'' (ckm_CryptoKeys c ring s) s)
     else if rest = ''encrypt'' then
       (if r_method r \<noteq> POST then (respErr 405 ''POST required'', s)
        else if key = [] then (respErr 400 ''key required'', s)
        else answer_text 400 ''ciphertext'' (ckm_Encrypt c key (body_str r ''plaintext'') s) s)
     else if rest = ''decrypt'' then
       (if r_method r \<noteq> POST then (respErr 405 ''POST required'', s)
        else if key = [] then (respErr 400 ''key required'', s)
        else answer_text 400 ''plaintext'' (ckm_Decrypt c key (body_str r ''ciphertext'') s) s)
     else (http_notFound, s))"

definition apiMonitoring :: "'s con_monitoring \<Rightarrow> 's con_handler" where
  "apiMonitoring c r s = (if \<not> suffix ''/series'' (r_path r) then (http_notFound, s)
     else answer_list 500 ''series'' (cmo_Series c 200 s) s)"

definition apiBigQuery :: "'s con_bigquery \<Rightarrow> 's con_handler" where
  "apiBigQuery c r s = (let rest = sub_path ''/console/api/bigquery/'' r; dataset = query r ''dataset''; q = body_str r ''query'' in
     if rest = ''datasets'' then answer_list 500 ''datasets'' (cbq_Datasets c s) s
     else if rest = ''tables'' then
       (if dataset = [] then (respErr 400 ''dataset required'', s) else answer_list 500 ''tables'' (cbq_Tables c dataset s) s)
     else if rest = ''query'' then
       (if r_method r \<noteq> POST then (respErr 405 ''POST required'', s)
        else if trimSpace q = [] then (respErr 400 ''query required'', s)
        else (case cbq_Query c q s of (Inl er, s') \<Rightarrow> (respErr 400 er, s') | (Inr d, s') \<Rightarrow> (respJSON 200 d, s')))
     else (http_notFound, s))"

definition apiCloudSQL :: "'s con_cloudsql \<Rightarrow> 's con_handler" where
  "apiCloudSQL c r s = (if \<not> suffix ''/instances'' (r_path r) then (http_notFound, s)
     else answer_list 500 ''instances'' (csq_Instances c s) s)"

definition cloudrunList :: "'s con_cloudrun \<Rightarrow> 's con_handler" where
  "cloudrunList c r s = (if \<not> suffix ''/list'' (r_path r) then (http_notFound, s)
     else answer_list 500 ''resources'' (ccr_Resources c s) s)"

definition api_status :: "'s con_status \<Rightarrow> 's con_handler" where
  "api_status c r s = (if \<not> suffix ''/status'' (r_path r) then (http_notFound, s) else (respJSON 200 (cstat_Status c s), s))"

definition apiHandler :: "'s con_options \<Rightarrow> string \<Rightarrow> 's con_handler option" where
  "apiHandler o' i =
    (if i = ''logging'' then map_option apiLogging (co_Logging o')
     else if i = ''storage'' then map_option apiStorage (co_Storage o')
     else if i = ''pubsub'' then map_option apiPubSub (co_PubSub o')
     else if i = ''firestore'' then map_option apiFirestore (co_Firestore o')
     else if i = ''secrets'' then map_option apiSecrets (co_Secrets o')
     else if i = ''tasks'' then map_option apiTasks (co_Tasks o')
     else if i = ''scheduler'' then map_option apiScheduler (co_Scheduler o')
     else if i = ''kms'' then map_option apiKMS (co_KMS o')
     else if i = ''monitoring'' then map_option apiMonitoring (co_Monitoring o')
     else if i = ''bigquery'' then map_option apiBigQuery (co_BigQuery o')
     else if i = ''cloudsql'' then map_option apiCloudSQL (co_CloudSQL o')
     else if i = ''cloudrun'' then map_option cloudrunList (co_CloudRun o')
     else if i = ''functions'' then map_option cloudrunList (co_Functions o')
     else if i = ''memorystore'' then map_option api_status (co_Memorystore o')
     else if i = ''bigtable'' then map_option api_status (co_Bigtable o')
     else if i = ''spanner'' then map_option api_status (co_Spanner o')
     else None)"

text \<open>The first segment of what follows the prefix.\<close>

definition first_segment :: "string \<Rightarrow> string" where
  "first_segment rest = (case cutAt (CHR ''/'') rest of None \<Rightarrow> rest | Some (a, _) \<Rightarrow> a)"

definition routeAPI :: "'s con_options \<Rightarrow> 's con_handler" where
  "routeAPI o' r s = (let rest = sub_path ''/console/api/'' r in
     if rest = [] then (http_notFound, s)
     else (case apiHandler o' (first_segment rest) of None \<Rightarrow> (http_notFound, s) | Some h \<Rightarrow> h r s))"

section \<open>The pages\<close>

record page =
  pg_ID :: string
  pg_HealthName :: string
  pg_Label :: string
  pg_Href :: string
  pg_Icon :: string
  pg_Endpoint :: string
  pg_Enabled :: bool

definition mk_page :: "string \<Rightarrow> string \<Rightarrow> string \<Rightarrow> string \<Rightarrow> string \<Rightarrow> bool \<Rightarrow> page" where
  "mk_page i health label icon endpoint en = \<lparr>pg_ID = i, pg_HealthName = health, pg_Label = label, pg_Href = ''/console/'' @ i,
     pg_Icon = icon, pg_Endpoint = endpoint, pg_Enabled = en\<rparr>"

definition pages :: "'s con_options \<Rightarrow> page list" where
  "pages o' = [
     mk_page ''logging'' ''logging'' ''Cloud Logging'' ''receipt_long'' ''/v2/entries:*'' (co_Logging o' \<noteq> None),
     mk_page ''storage'' ''storage'' ''Cloud Storage'' ''folder'' ''/storage/v1/b'' (co_Storage o' \<noteq> None),
     mk_page ''pubsub'' ''pubsub'' ''Pub/Sub'' ''swap_horiz'' ''/v1/projects/*/topics, gRPC'' (co_PubSub o' \<noteq> None),
     mk_page ''firestore'' ''firestore'' ''Firestore'' ''database'' ''gRPC (firestore.v1)'' (co_Firestore o' \<noteq> None),
     mk_page ''secrets'' ''secretmanager'' ''Secret Manager'' ''lock'' ''/v1/projects/*/secrets'' (co_Secrets o' \<noteq> None),
     mk_page ''tasks'' ''tasks'' ''Cloud Tasks'' ''task_alt'' ''/v2/projects/*/queues'' (co_Tasks o' \<noteq> None),
     mk_page ''scheduler'' ''scheduler'' ''Cloud Scheduler'' ''schedule'' ''/v1/projects/*/jobs'' (co_Scheduler o' \<noteq> None),
     mk_page ''kms'' ''kms'' ''Cloud KMS'' ''vpn_key'' ''/v1/projects/*/keyRings'' (co_KMS o' \<noteq> None),
     mk_page ''monitoring'' ''monitoring'' ''Cloud Monitoring'' ''show_chart'' ''/v3/projects/*/timeSeries'' (co_Monitoring o' \<noteq> None),
     mk_page ''bigquery'' ''bigquery'' ''BigQuery'' ''table_chart'' ''/bigquery/v2/projects/*'' (co_BigQuery o' \<noteq> None),
     mk_page ''cloudsql'' ''cloudsql'' ''Cloud SQL'' ''storage'' ''/sql/v1beta4 + pg wire'' (co_CloudSQL o' \<noteq> None),
     mk_page ''cloudrun'' ''cloudrun'' ''Cloud Run'' ''rocket_launch'' ''/v2/projects/*/services'' (co_CloudRun o' \<noteq> None),
     mk_page ''functions'' ''functions'' ''Cloud Functions'' ''functions'' ''/v2/projects/*/functions'' (co_Functions o' \<noteq> None),
     mk_page ''memorystore'' ''memorystore'' ''Memorystore'' ''memory'' ''Redis on its own port'' (co_Memorystore o' \<noteq> None),
     mk_page ''bigtable'' ''bigtable'' ''Bigtable'' ''view_module'' ''gRPC (bigtable.v2, stub)'' (co_Bigtable o' \<noteq> None),
     mk_page ''spanner'' ''spanner'' ''Spanner'' ''hub'' ''gRPC (spanner.v1, stub)'' (co_Spanner o' \<noteq> None)]"

text \<open>An entry of the sidebar: label, link, icon, and whether it is the page that is shown.\<close>

type_synonym nav_entry = "string \<times> string \<times> string \<times> bool"

definition sidebar :: "'s con_options \<Rightarrow> string \<Rightarrow> nav_entry list" where
  "sidebar o' active = (''Overview'', ''/console'', ''dashboard'', active = []) #
     map (\<lambda>p. (pg_Label p, pg_Href p, pg_Icon p, pg_ID p = active)) (filter pg_Enabled (pages o'))"

text \<open>What is handed to a template: its name, the title, the sidebar and the data of the page.\<close>

record page_view =
  pv_Template :: string
  pv_Title :: string
  pv_Nav :: "nav_entry list"
  pv_Data :: "(string \<times> json) list"

text \<open>
  The templates: whether the parsed set can be cloned, whether the template of a page parses, and the text an execution writes, with its error.
  \<open>ht_script\<close> is the text of a script constant.
\<close>

record html_lib =
  ht_clone :: "string option"
  ht_parse :: "string \<Rightarrow> string option"
  ht_exec :: "page_view \<Rightarrow> string \<times> string option"
  ht_script :: "string \<Rightarrow> string"

definition html_resp :: "string \<Rightarrow> http_resp" where
  "html_resp t = \<lparr>rs_code = 200, rs_header = [(''Content-Type'', ''text/html; charset=utf-8'')], rs_body = Some (RawB t)\<rparr>"

definition render :: "html_lib \<Rightarrow> 's con_options \<Rightarrow> string \<Rightarrow> string \<Rightarrow> string \<Rightarrow> (string \<times> json) list \<Rightarrow> http_resp" where
  "render L o' tmpl title active dat =
     (let v = \<lparr>pv_Template = tmpl, pv_Title = title, pv_Nav = sidebar o' active,
          pv_Data = dat @ [(''Version'', JStr (co_Version o')), (''Commit'', JStr (co_Commit o'))] @
            (if map_of dat ''PageScript'' = None then [(''PageScript'', JStr [])] else [])\<rparr> in
      (case ht_clone L of Some er \<Rightarrow> http_error (''template clone: '' @ er) 500
       | None \<Rightarrow> (case ht_parse L tmpl of Some er \<Rightarrow> http_error (''template parse: '' @ er) 500
         | None \<Rightarrow> (case ht_exec L v of (t, None) \<Rightarrow> html_resp t
             | (t, Some er) \<Rightarrow> html_resp (t @ ''\<newline><!-- template error: '' @ er @ '' -->\<newline>'')))))"

text \<open>The page of an identifier, when its service is enabled.\<close>

definition simple_page :: "html_lib \<Rightarrow> 's con_options \<Rightarrow> string \<Rightarrow> string \<Rightarrow> string \<Rightarrow> string \<Rightarrow> http_resp" where
  "simple_page L o' tmpl title i script = render L o' tmpl title i [(''PageScript'', JStr (ht_script L script))]"

definition based_script :: "html_lib \<Rightarrow> string \<Rightarrow> string \<Rightarrow> string" where
  "based_script L base script = ''window.__consoleBasePath = '' @ [CHR 0x27] @ base @ [CHR 0x27] @ '';'' @ ht_script L script"

definition cloudrun_page :: "html_lib \<Rightarrow> 's con_options \<Rightarrow> string \<Rightarrow> string \<Rightarrow> string \<Rightarrow> string \<Rightarrow> http_resp" where
  "cloudrun_page L o' title i label note = render L o' ''cloudrun.html'' title i
     [(''PageScript'', JStr (based_script L i ''cloudrunPageJS'')), (''ResourceLabel'', JStr label), (''ResourceNote'', JStr note)]"

definition stub_page :: "html_lib \<Rightarrow> 's con_options \<Rightarrow> string \<Rightarrow> string \<Rightarrow> http_resp" where
  "stub_page L o' title i = render L o' ''stubservice.html'' title i [(''PageScript'', JStr (based_script L i ''stubPageJS''))]"

definition pageLogging :: "html_lib \<Rightarrow> 's con_options \<Rightarrow> http_resp" where
  "pageLogging L o' = simple_page L o' ''logging.html'' ''Cloud Logging'' ''logging'' ''loggingPageJS''"

definition pageStorage :: "html_lib \<Rightarrow> 's con_options \<Rightarrow> http_resp" where
  "pageStorage L o' = simple_page L o' ''storage.html'' ''Cloud Storage'' ''storage'' ''storagePageJS''"

definition pagePubSub :: "html_lib \<Rightarrow> 's con_options \<Rightarrow> http_resp" where
  "pagePubSub L o' = simple_page L o' ''pubsub.html'' ''Pub/Sub'' ''pubsub'' ''pubsubPageJS''"

definition pageFirestore :: "html_lib \<Rightarrow> 's con_options \<Rightarrow> http_resp" where
  "pageFirestore L o' = simple_page L o' ''firestore.html'' ''Firestore'' ''firestore'' ''firestorePageJS''"

definition pageSecrets :: "html_lib \<Rightarrow> 's con_options \<Rightarrow> http_resp" where
  "pageSecrets L o' = simple_page L o' ''secrets.html'' ''Secret Manager'' ''secrets'' ''secretsPageJS''"

definition pageTasks :: "html_lib \<Rightarrow> 's con_options \<Rightarrow> http_resp" where
  "pageTasks L o' = simple_page L o' ''tasks.html'' ''Cloud Tasks'' ''tasks'' ''tasksPageJS''"

definition pageScheduler :: "html_lib \<Rightarrow> 's con_options \<Rightarrow> http_resp" where
  "pageScheduler L o' = simple_page L o' ''scheduler.html'' ''Cloud Scheduler'' ''scheduler'' ''schedulerPageJS''"

definition pageKMS :: "html_lib \<Rightarrow> 's con_options \<Rightarrow> http_resp" where
  "pageKMS L o' = simple_page L o' ''kms.html'' ''Cloud KMS'' ''kms'' ''kmsPageJS''"

definition pageMonitoring :: "html_lib \<Rightarrow> 's con_options \<Rightarrow> http_resp" where
  "pageMonitoring L o' = simple_page L o' ''monitoring.html'' ''Cloud Monitoring'' ''monitoring'' ''monitoringPageJS''"

definition pageBigQuery :: "html_lib \<Rightarrow> 's con_options \<Rightarrow> http_resp" where
  "pageBigQuery L o' = simple_page L o' ''bigquery.html'' ''BigQuery'' ''bigquery'' ''bigqueryPageJS''"

definition pageCloudSQL :: "html_lib \<Rightarrow> 's con_options \<Rightarrow> http_resp" where
  "pageCloudSQL L o' = simple_page L o' ''cloudsql.html'' ''Cloud SQL'' ''cloudsql'' ''cloudsqlPageJS''"

definition pageMemorystore :: "html_lib \<Rightarrow> 's con_options \<Rightarrow> http_resp" where
  "pageMemorystore L o' = simple_page L o' ''memorystore.html'' ''Memorystore'' ''memorystore'' ''memorystorePageJS''"

definition pageCloudRun :: "html_lib \<Rightarrow> 's con_options \<Rightarrow> http_resp" where
  "pageCloudRun L o' = cloudrun_page L o' ''Cloud Run'' ''cloudrun'' ''Services''
     ''Cloud Run services. Real Cloud Run boots containers; this emulator proxies invoke requests to a configured backendUrl.''"

definition pageFunctions :: "html_lib \<Rightarrow> 's con_options \<Rightarrow> http_resp" where
  "pageFunctions L o' = cloudrun_page L o' ''Cloud Functions'' ''functions'' ''Functions''
     ''Cloud Functions. Same proxy model as Cloud Run; no subprocess execution.''"

definition pageBigtable :: "html_lib \<Rightarrow> 's con_options \<Rightarrow> http_resp" where
  "pageBigtable L o' = stub_page L o' ''Bigtable'' ''bigtable''"

definition pageSpanner :: "html_lib \<Rightarrow> 's con_options \<Rightarrow> http_resp" where
  "pageSpanner L o' = stub_page L o' ''Spanner'' ''spanner''"

definition pageHandler :: "html_lib \<Rightarrow> 's con_options \<Rightarrow> string \<Rightarrow> http_resp option" where
  "pageHandler L o' i =
    (if i = ''logging'' then (if co_Logging o' \<noteq> None then Some (pageLogging L o') else None)
     else if i = ''storage'' then (if co_Storage o' \<noteq> None then Some (pageStorage L o') else None)
     else if i = ''pubsub'' then (if co_PubSub o' \<noteq> None then Some (pagePubSub L o') else None)
     else if i = ''firestore'' then (if co_Firestore o' \<noteq> None then Some (pageFirestore L o') else None)
     else if i = ''secrets'' then (if co_Secrets o' \<noteq> None then Some (pageSecrets L o') else None)
     else if i = ''tasks'' then (if co_Tasks o' \<noteq> None then Some (pageTasks L o') else None)
     else if i = ''scheduler'' then (if co_Scheduler o' \<noteq> None then Some (pageScheduler L o') else None)
     else if i = ''kms'' then (if co_KMS o' \<noteq> None then Some (pageKMS L o') else None)
     else if i = ''monitoring'' then (if co_Monitoring o' \<noteq> None then Some (pageMonitoring L o') else None)
     else if i = ''bigquery'' then (if co_BigQuery o' \<noteq> None then Some (pageBigQuery L o') else None)
     else if i = ''cloudsql'' then (if co_CloudSQL o' \<noteq> None then Some (pageCloudSQL L o') else None)
     else if i = ''cloudrun'' then (if co_CloudRun o' \<noteq> None then Some (pageCloudRun L o') else None)
     else if i = ''functions'' then (if co_Functions o' \<noteq> None then Some (pageFunctions L o') else None)
     else if i = ''memorystore'' then (if co_Memorystore o' \<noteq> None then Some (pageMemorystore L o') else None)
     else if i = ''bigtable'' then (if co_Bigtable o' \<noteq> None then Some (pageBigtable L o') else None)
     else if i = ''spanner'' then (if co_Spanner o' \<noteq> None then Some (pageSpanner L o') else None)
     else None)"

text \<open>The rows of the overview: label, link, endpoint and status.\<close>

definition page_status :: "Registry option \<Rightarrow> page \<Rightarrow> string" where
  "page_status reg p = (if \<not> pg_Enabled p then ''disabled''
     else (case reg of None \<Rightarrow> ''ready'' | Some h \<Rightarrow> (case Registry_Lookup h (pg_HealthName p) of None \<Rightarrow> ''ready'' | Some st \<Rightarrow> status_text st)))"

definition summary_row :: "Registry option \<Rightarrow> page \<Rightarrow> json" where
  "summary_row reg p = JObj [(''Label'', JStr (pg_Label p)), (''Href'', JStr (pg_Href p)), (''Endpoint'', JStr (pg_Endpoint p)),
     (''Status'', JStr (page_status reg p))]"

definition con_handleIndex :: "html_lib \<Rightarrow> 's con_options \<Rightarrow> http_req \<Rightarrow> 's \<Rightarrow> http_resp" where
  "con_handleIndex L o' r s = render L o' ''index.html'' ''Overview'' []
     [(''Summary'', JArr (map (summary_row (co_Health o' s)) (pages o'))),
      (''EnabledCount'', JNum (int (length (filter pg_Enabled (pages o'))))),
      (''TotalCount'', JNum (int (length (pages o')))),
      (''Endpoint'', JStr (if r_host r = [] then ''localhost:4443'' else r_host r)), (''Project'', JStr (co_Project o'))]"

definition routePage :: "html_lib \<Rightarrow> 's con_options \<Rightarrow> http_req \<Rightarrow> 's \<Rightarrow> http_resp" where
  "routePage L o' r s = (let rest = sub_path ''/console/'' r in
     if rest = [] then con_handleIndex L o' r s
     else (case pageHandler L o' (first_segment rest) of None \<Rightarrow> http_notFound | Some p \<Rightarrow> p))"

text \<open>
  The patterns that \<^verbatim>\<open>Register\<close> mounts, the longest first; \<open>static\<close> answers for the embedded files.  Requests outside them are not
  for the console.
\<close>

definition console_serve :: "html_lib \<Rightarrow> (string \<Rightarrow> http_resp) \<Rightarrow> 's con_options \<Rightarrow> http_req \<Rightarrow> 's \<Rightarrow> (http_resp \<times> 's) option" where
  "console_serve L static o' r s =
    (if hasPrefix (r_path r) ''/console/static/'' then Some (static (trimPrefix (r_path r) ''/console/static/''), s)
     else if hasPrefix (r_path r) ''/console/api/'' then Some (routeAPI o' r s)
     else if hasPrefix (r_path r) ''/console/'' then Some (routePage L o' r s, s)
     else if r_path r = ''/console'' then Some (con_handleIndex L o' r s, s)
     else None)"

section \<open>What the console can change\<close>

lemma answer_same [simp]: "snd (answer_list code l x s) = s" "snd (answer_text code l y s) = s"
  by (simp_all add: answer_list_def answer_text_def split: sum.splits)

lemma api_keeps:
  "snd (apiLogging a r s) = s" "snd (apiFirestore b r s) = s" "snd (apiSecrets c r s) = s" "snd (apiTasks d r s) = s"
  "snd (apiScheduler f r s) = s" "snd (apiKMS g r s) = s" "snd (apiMonitoring k r s) = s" "snd (apiCloudSQL l r s) = s"
  "snd (cloudrunList m r s) = s" "snd (api_status n r s) = s"
  by (simp_all add: apiLogging_def apiFirestore_def apiSecrets_def apiTasks_def apiScheduler_def apiKMS_def apiMonitoring_def
      apiCloudSQL_def cloudrunList_def api_status_def Let_def split: sum.splits)

text \<open>Only three interfaces have an operation that changes the state.\<close>

lemma api_changes:
  assumes "apiHandler o' i = Some h" "snd (h r s) \<noteq> s"
  shows "(\<exists>c. co_PubSub o' = Some c \<and> h = apiPubSub c) \<or> (\<exists>c. co_Storage o' = Some c \<and> h = apiStorage c) \<or>
    (\<exists>c. co_BigQuery o' = Some c \<and> h = apiBigQuery c)"
  using assms unfolding apiHandler_def by (auto simp: api_keeps split: if_splits)

lemma api_reads:
  assumes "apiHandler o' i = Some h" "r_method r \<noteq> POST"
  shows "snd (h r s) = s"
proof (rule ccontr)
  assume c: "snd (h r s) \<noteq> s"
  have "snd (apiStorage c r s) = s" "snd (apiPubSub d r s) = s" "snd (apiBigQuery f r s) = s" for c d f
    using assms(2) by (simp_all add: apiStorage_def apiPubSub_def apiBigQuery_def Let_def split: sum.splits)
  with api_changes [OF assms(1) c] c show False by auto
qed

text \<open>
  A request to the console that is not a POST changes nothing, whichever service it is about and whatever that
  service's interface does; a page never changes anything, whatever the method.
\<close>

lemma console_reads_only:
  assumes "console_serve L static o' r s = Some (resp, s')"
    and "r_method r \<noteq> POST \<or> \<not> hasPrefix (r_path r) ''/console/api/''"
  shows "s' = s"
proof -
  have "snd (routeAPI o' r s) = s" if "r_method r \<noteq> POST"
    using api_reads [OF _ that] by (auto simp: routeAPI_def Let_def split: option.splits)
  then show ?thesis using assms by (auto simp: console_serve_def split: if_splits)
qed

text \<open>The identifiers of the pages are distinct, have no slash, and are those of both dispatch tables.\<close>

lemma pages_ids: "map pg_ID (pages o') = [''logging'', ''storage'', ''pubsub'', ''firestore'', ''secrets'', ''tasks'', ''scheduler'', ''kms'',
    ''monitoring'', ''bigquery'', ''cloudsql'', ''cloudrun'', ''functions'', ''memorystore'', ''bigtable'', ''spanner'']"
  by (simp add: pages_def mk_page_def)

text \<open>Which service stands behind an identifier, once for both tables and the list of pages.\<close>

definition service_on :: "'s con_options \<Rightarrow> (string \<times> bool) list" where
  "service_on o' = [(''logging'', co_Logging o' \<noteq> None), (''storage'', co_Storage o' \<noteq> None), (''pubsub'', co_PubSub o' \<noteq> None),
     (''firestore'', co_Firestore o' \<noteq> None), (''secrets'', co_Secrets o' \<noteq> None), (''tasks'', co_Tasks o' \<noteq> None),
     (''scheduler'', co_Scheduler o' \<noteq> None), (''kms'', co_KMS o' \<noteq> None), (''monitoring'', co_Monitoring o' \<noteq> None),
     (''bigquery'', co_BigQuery o' \<noteq> None), (''cloudsql'', co_CloudSQL o' \<noteq> None), (''cloudrun'', co_CloudRun o' \<noteq> None),
     (''functions'', co_Functions o' \<noteq> None), (''memorystore'', co_Memorystore o' \<noteq> None), (''bigtable'', co_Bigtable o' \<noteq> None),
     (''spanner'', co_Spanner o' \<noteq> None)]"

lemma table_step:
  "(y \<noteq> None \<longleftrightarrow> map_of r i = Some True) \<Longrightarrow> (if i = k then (if b then Some x else None) else y) \<noteq> None \<longleftrightarrow> map_of ((k, b) # r) i = Some True"
  "(y \<noteq> None \<longleftrightarrow> map_of r i = Some True) \<Longrightarrow> (if i = k then map_option f z else y) \<noteq> None \<longleftrightarrow> map_of ((k, z \<noteq> None) # r) i = Some True"
  "None \<noteq> None \<longleftrightarrow> map_of [] i = Some True"
  by auto

lemma pageHandler_on: "pageHandler L o' i \<noteq> None \<longleftrightarrow> map_of (service_on o') i = Some True"
  unfolding pageHandler_def service_on_def by (intro table_step)

lemma apiHandler_on: "apiHandler o' i \<noteq> None \<longleftrightarrow> map_of (service_on o') i = Some True"
  unfolding apiHandler_def service_on_def by (intro table_step)

lemma pages_on: "map (\<lambda>p. (pg_ID p, pg_Enabled p)) (pages o') = service_on o'"
  by (simp add: pages_def mk_page_def service_on_def)

lemma service_on_distinct: "distinct (map fst (service_on o'))"
  by (simp add: service_on_def)

lemma page_handlers:
  assumes "p \<in> set (pages o')"
  shows "pg_Enabled p \<longleftrightarrow> pageHandler L o' (pg_ID p) \<noteq> None" "pg_Enabled p \<longleftrightarrow> apiHandler o' (pg_ID p) \<noteq> None"
proof -
  have "(pg_ID p, pg_Enabled p) \<in> set (service_on o')" using assms by (simp add: pages_on [symmetric])
  then have "map_of (service_on o') (pg_ID p) = Some (pg_Enabled p)"
    using service_on_distinct by (rule map_of_is_SomeI [rotated])
  then show "pg_Enabled p \<longleftrightarrow> pageHandler L o' (pg_ID p) \<noteq> None" "pg_Enabled p \<longleftrightarrow> apiHandler o' (pg_ID p) \<noteq> None"
    unfolding pageHandler_on apiHandler_on by simp_all
qed

lemma pages_href:
  "list_all (\<lambda>p. pg_Href p = ''/console/'' @ pg_ID p \<and> pg_ID p \<noteq> [] \<and> CHR ''/'' \<notin> set (pg_ID p)) (pages o')"
  by (simp add: pages_def mk_page_def)

lemma pageHandler_known: "pageHandler L o' i \<noteq> None \<Longrightarrow> i \<in> pg_ID ` set (pages o')"
proof -
  assume "pageHandler L o' i \<noteq> None"
  then have "(i, True) \<in> set (service_on o')" unfolding pageHandler_on by (rule map_of_SomeD)
  then show ?thesis unfolding pages_on [symmetric] by auto
qed

text \<open>
  The sidebar, the pages and the JSON endpoints agree: a page is linked exactly when its service is enabled, following the link
  gives the page and not 404, its endpoints exist exactly then, and no other page exists.
\<close>

theorem console_pages_agree:
  assumes "p \<in> set (pages o')" "r_path r = pg_Href p"
  shows "((pg_Label p, pg_Href p, pg_Icon p, pg_ID p = active) \<in> set (sidebar o' active) \<longleftrightarrow> pg_Enabled p) \<and>
    console_serve L static o' r s = Some (case pageHandler L o' (pg_ID p) of None \<Rightarrow> http_notFound | Some v \<Rightarrow> v, s) \<and>
    (pageHandler L o' (pg_ID p) \<noteq> None \<longleftrightarrow> pg_Enabled p) \<and> (apiHandler o' (pg_ID p) \<noteq> None \<longleftrightarrow> pg_Enabled p) \<and>
    (\<forall>i. pageHandler L o' i \<noteq> None \<longrightarrow> i \<in> pg_ID ` set (pages o'))"
proof -
  have href: "pg_Href q = ''/console/'' @ pg_ID q" "pg_ID q \<noteq> []" "CHR ''/'' \<notin> set (pg_ID q)" if "q \<in> set (pages o')" for q
    using pages_href [of o'] that by (auto simp: list_all_iff)
  note t = href [OF assms(1)]
  have "\<not> prefix ''static/'' (pg_ID p)" "\<not> prefix ''api/'' (pg_ID p)"
    using t(3) by (auto simp: prefix_def)
  then have "console_serve L static o' r s = Some (case pageHandler L o' (pg_ID p) of None \<Rightarrow> http_notFound | Some v \<Rightarrow> v, s)"
    using t assms(2) cut_None [of "CHR ''/''" "pg_ID p"]
    by (simp add: console_serve_def routePage_def sub_path_def trimPrefix_def hasPrefix_def first_segment_def del: cut_None)
  moreover have "distinct (map pg_ID (pages o'))" by (simp add: pages_ids)
  then have same: "q = p" if "q \<in> set (pages o')" "pg_Href q = pg_Href p" for q
    using that assms(1) href(1) by (simp add: distinct_map inj_on_def)
  have "(pg_Label p, pg_Href p, pg_Icon p, pg_ID p = active) \<in> set (sidebar o' active) \<longleftrightarrow> pg_Enabled p"
  proof
    assume "(pg_Label p, pg_Href p, pg_Icon p, pg_ID p = active) \<in> set (sidebar o' active)"
    moreover have "pg_Href p \<noteq> ''/console''" using t(1) by simp
    ultimately obtain q where "q \<in> set (pages o')" "pg_Enabled q" "pg_Href q = pg_Href p"
      unfolding sidebar_def set_map list.set by force
    with same show "pg_Enabled p" by blast
  next
    assume "pg_Enabled p"
    then have "p \<in> set (filter pg_Enabled (pages o'))" using assms(1) by simp
    then show "(pg_Label p, pg_Href p, pg_Icon p, pg_ID p = active) \<in> set (sidebar o' active)"
      unfolding sidebar_def set_map list.set by blast
  qed
  moreover note page_handlers(1) [OF assms(1), of L] page_handlers(2) [OF assms(1)] pageHandler_known [of L o']
  ultimately show ?thesis by blast
qed

end
