(* ===== verification/Bq_Sql.thy ===== *)
theory Bq_Sql
  imports Sql_Db Go_Time
begin

text \<open>
  The translation of BigQuery statements in \<^verbatim>\<open>internal/services/bigquery/bigquery.go\<close>.  The regular expressions are matchers:
  what is left after the longest match at the start of a text.
\<close>

section \<open>Regular expressions\<close>

text \<open>\<^verbatim>\<open>\s\<close>, and a word in any case; under Unicode case folding the long s (two bytes) is an S.\<close>

definition re_space :: "char \<Rightarrow> bool" where
  "re_space c \<longleftrightarrow> of_char c \<in> {9, 10, 12, 13, 32 :: nat}"

fun fold_match :: "string \<Rightarrow> string \<Rightarrow> string option" where
  "fold_match [] s = Some s"
| "fold_match (p # ps) [] = None"
| "fold_match (p # ps) (c # s) =
     (if upper_char c = p then fold_match ps s
      else if p = CHR ''S'' \<and> c = CHR 0xC5 \<and> s \<noteq> [] \<and> hd s = CHR 0xBF then fold_match ps (tl s)
      else None)"

definition open_match :: "string \<Rightarrow> string \<Rightarrow> string option" where
  "open_match word s = (case fold_match word s of None \<Rightarrow> None
     | Some r \<Rightarrow> (case dropWhile re_space r of c # r' \<Rightarrow> if c = CHR ''('' then Some r' else None | [] \<Rightarrow> None))"

text \<open>
  \<^verbatim>\<open>ReplaceAllStringFunc\<close>: from left to right, a match is replaced and skipped.  The first argument counts the bytes still to be
  skipped; a matcher returns the replacement and the rest.
\<close>

primrec replace_from :: "(string \<Rightarrow> (string \<times> string) option) \<Rightarrow> string \<Rightarrow> nat \<Rightarrow> string" where
  "replace_from m [] k = []"
| "replace_from m (c # s) k =
     (if k > 0 then replace_from m s (k - 1)
      else (case m (c # s) of None \<Rightarrow> c # replace_from m s 0
        | Some (out, r) \<Rightarrow> out @ replace_from m s (length s - length r)))"

definition replace_all :: "(string \<Rightarrow> (string \<times> string) option) \<Rightarrow> string \<Rightarrow> string" where
  "replace_all m s = replace_from m s 0"

section \<open>Functions\<close>

definition timestamp_match :: "string \<Rightarrow> (string \<times> string) option" where
  "timestamp_match s = (case open_match ''CURRENT_TIMESTAMP'' s of None \<Rightarrow> None
     | Some r \<Rightarrow> (case dropWhile re_space r of c # r' \<Rightarrow> if c = CHR '')'' then Some (''CURRENT_TIMESTAMP'', r') else None | [] \<Rightarrow> None))"

definition rewriteCurrentTimestamp :: "string \<Rightarrow> string" where
  "rewriteCurrentTimestamp q = replace_all timestamp_match q"

definition safe_cast_match :: "string \<Rightarrow> (string \<times> string) option" where
  "safe_cast_match s = (case open_match ''SAFE_CAST'' s of None \<Rightarrow> None | Some r \<Rightarrow> Some (''CAST('', r))"

definition rewriteSafeCast :: "string \<Rightarrow> string" where
  "rewriteSafeCast q = replace_all safe_cast_match q"

text \<open>The first \<^verbatim>\<open>\bCONCAT\s*\(\<close>: the text before it and after its parenthesis.  \<open>prev\<close> is whether a byte of a word precedes.\<close>

definition re_word :: "char \<Rightarrow> bool" where
  "re_word c \<longleftrightarrow> c = CHR ''_'' \<or> is_digit c \<or> byte_in 0x61 0x7A c \<or> byte_in 0x41 0x5A c"

fun find_concat :: "bool \<Rightarrow> string \<Rightarrow> (string \<times> string) option" where
  "find_concat prev [] = None"
| "find_concat prev (c # s) =
     (case (if prev then None else open_match ''CONCAT'' (c # s)) of
        Some r \<Rightarrow> Some ([], r)
      | None \<Rightarrow> (case find_concat (re_word c) s of None \<Rightarrow> None | Some (a, r) \<Rightarrow> Some (c # a, r)))"

text \<open>
  \<^verbatim>\<open>splitTopLevelArgs\<close> after the opening parenthesis: the depth, the quote it is in, the argument so far, and the rest.
\<close>

fun split_args :: "nat \<Rightarrow> char option \<Rightarrow> string \<Rightarrow> string \<Rightarrow> (string list \<times> string) option" where
  "split_args d q cur [] = None"
| "split_args d (Some k) cur (c # s) = split_args d (if c = k then None else Some k) (cur @ [c]) s"
| "split_args d None cur (c # s) =
     (if c = CHR 0x27 \<or> c = CHR 0x22 \<or> c = CHR 0x60 then split_args d (Some c) (cur @ [c]) s
      else if c = CHR ''('' then split_args (Suc d) None (cur @ [c]) s
      else if c = CHR '')'' then (if d = 1 then Some ([trimSpace cur], s) else split_args (d - 1) None (cur @ [c]) s)
      else if c = CHR '','' \<and> d = 1
        then (case split_args d None [] s of None \<Rightarrow> None | Some (args, r) \<Rightarrow> Some (trimSpace cur # args, r))
      else split_args d None (cur @ [c]) s)"

definition splitTopLevelArgs :: "string \<Rightarrow> (string list \<times> string) option" where
  "splitTopLevelArgs s = split_args 1 None [] s"

definition concat_step :: "string \<Rightarrow> string option" where
  "concat_step q = (case find_concat False q of None \<Rightarrow> None
     | Some (pre, body) \<Rightarrow> (case splitTopLevelArgs body of None \<Rightarrow> None
        | Some (args, rest) \<Rightarrow>
            Some (pre @ ''('' @ (if length args < 2 then join '' '' args else join '' || '' args) @ '')'' @ rest)))"

text \<open>The loop ends because each round removes the letters of one \<^verbatim>\<open>CONCAT\<close>.\<close>

definition count_c :: "string \<Rightarrow> nat" where
  "count_c s = length (filter (\<lambda>c. upper_char c = CHR ''C'') s)"

lemma count_c_simps [simp]:
  "count_c [] = 0" "count_c (a @ b) = count_c a + count_c b"
  "count_c (c # s) = (if upper_char c = CHR ''C'' then Suc (count_c s) else count_c s)"
  by (simp_all add: count_c_def)

lemma count_c_dropWhile: "count_c (dropWhile P s) \<le> count_c s"
  by (induction s) auto

lemma count_c_rev [simp]: "count_c (rev s) = count_c s"
  by (simp add: count_c_def rev_filter [symmetric])

lemma count_c_trim: "count_c (trimSpace s) \<le> count_c s"
proof -
  have "count_c (trimSpace s) = count_c (dropWhile is_space (rev (dropWhile is_space s)))" by (simp add: trimSpace_def)
  also have "\<dots> \<le> count_c (rev (dropWhile is_space s))" by (rule count_c_dropWhile)
  also have "\<dots> \<le> count_c s" by (simp add: count_c_dropWhile)
  finally show ?thesis .
qed

lemma fold_match_count:
  "fold_match p s = Some r \<Longrightarrow> count_c r + count_c (filter (\<lambda>c. c = CHR ''C'') p) \<le> count_c s"
proof (induction p s rule: fold_match.induct)
  case (3 p ps c s)
  show ?case
  proof (cases "upper_char c = p")
    case True
    then show ?thesis using 3 by (auto simp: upper_char_def split: if_splits)
  next
    case False
    then have *: "p = CHR ''S''" "s \<noteq> []" "fold_match ps (tl s) = Some r" using 3(3) by (auto split: if_splits)
    then have "count_c r + count_c (filter (\<lambda>c. c = CHR ''C'') ps) \<le> count_c (tl s)" using 3 False by (auto split: if_splits)
    also have "\<dots> \<le> count_c s" using *(2) by (cases s) auto
    finally show ?thesis using * by simp
  qed
qed auto

lemma open_match_count: "open_match w s = Some r \<Longrightarrow> count_c r + count_c (filter (\<lambda>c. c = CHR ''C'') w) \<le> count_c s"
proof -
  assume "open_match w s = Some r"
  then obtain t c where t: "fold_match w s = Some t" "dropWhile re_space t = c # r"
    by (auto simp: open_match_def split: option.splits list.splits if_splits)
  have "count_c r \<le> count_c (dropWhile re_space t)" by (simp add: t(2))
  also have "\<dots> \<le> count_c t" by (rule count_c_dropWhile)
  finally show ?thesis using fold_match_count [OF t(1)] by simp
qed

lemma find_concat_count: "find_concat prev s = Some (a, r) \<Longrightarrow> count_c a + count_c r + 2 \<le> count_c s"
proof (induction prev s arbitrary: a r rule: find_concat.induct)
  case (2 prev c s)
  show ?case
  proof (cases "if prev then None else open_match ''CONCAT'' (c # s)")
    case (Some t)
    then have "open_match ''CONCAT'' (c # s) = Some t" by (simp split: if_splits)
    from open_match_count [OF this] have "count_c t + 2 \<le> count_c (c # s)" by (simp add: upper_char_def)
    then show ?thesis using 2(2) Some by simp
  next
    case None
    then obtain b where "find_concat (re_word c) s = Some (b, r)" "a = c # b" using 2(2) by (auto split: option.splits)
    then show ?thesis using 2(1) [OF None, of b r] by auto
  qed
qed simp

lemma count_c_join: "count_c (join sep xs) \<le> sum_list (map count_c xs) + count_c sep * length xs"
  by (induction sep xs rule: join.induct) auto

lemma split_args_count:
  "split_args d q cur s = Some (args, r) \<Longrightarrow> sum_list (map count_c args) + count_c r \<le> count_c cur + count_c s"
proof (induction d q cur s arbitrary: args r rule: split_args.induct)
  case (3 d cur c s)
  let ?goal = "sum_list (map count_c args) + count_c r \<le> count_c cur + count_c (c # s)"
  have step: ?goal if "split_args d' q' (cur @ [c]) s = Some (args, r)"
    and "split_args d' q' (cur @ [c]) s = Some (args, r) \<Longrightarrow> sum_list (map count_c args) + count_c r \<le> count_c (cur @ [c]) + count_c s" for d' q'
    using that by (simp split: if_splits)
  show ?case
  proof (cases "c = CHR 0x27 \<or> c = CHR 0x22 \<or> c = CHR 0x60")
    case q: True
    then show ?thesis using 3 by (intro step [of d "Some c"]) auto
  next
    case q: False
    show ?thesis
    proof (cases "c = CHR ''(''")
      case True
      then show ?thesis using 3 by (intro step [of "Suc d" None]) auto
    next
      case o: False
      show ?thesis
      proof (cases "c = CHR '')''")
        case True
        then show ?thesis using 3 count_c_trim [of cur] by (cases "d = 1") (auto intro: step [of "d - 1" None])
      next
        case cl: False
        show ?thesis
        proof (cases "c = CHR '','' \<and> d = 1")
          case True
          then obtain as where as: "split_args d None [] s = Some (as, r)" "args = trimSpace cur # as"
            using "3.prems" q o cl by (auto split: option.splits)
          have "sum_list (map count_c as) + count_c r \<le> count_c [] + count_c s" by (rule "3.IH"(4) [OF q o cl True as(1)])
          then show ?thesis using as(2) count_c_trim [of cur] by simp
        next
          case False
          have "split_args d None (cur @ [c]) s = Some (args, r)" using "3.prems" q o cl False by auto
          from step [OF this "3.IH"(5) [OF q o cl False]] show ?thesis .
        qed
      qed
    qed
  qed
qed (auto split: if_splits)

lemma concat_step_count: "concat_step q = Some q' \<Longrightarrow> count_c q' < count_c q"
proof -
  assume "concat_step q = Some q'"
  then obtain pre body args rest where *: "find_concat False q = Some (pre, body)" "split_args 1 None [] body = Some (args, rest)"
    "q' = pre @ ''('' @ (if length args < 2 then join '' '' args else join '' || '' args) @ '')'' @ rest"
    by (auto simp: concat_step_def splitTopLevelArgs_def split: option.splits)
  have "count_c (if length args < 2 then join '' '' args else join '' || '' args) \<le> sum_list (map count_c args)"
    using count_c_join [of "'' ''" args] count_c_join [of "'' || ''" args] by (simp add: upper_char_def)
  then show ?thesis using find_concat_count [OF *(1)] split_args_count [OF *(2)] by (simp add: *(3) upper_char_def)
qed

function rewriteConcat :: "string \<Rightarrow> string" where
  "rewriteConcat q = (case concat_step q of None \<Rightarrow> q | Some q' \<Rightarrow> rewriteConcat q')"
  by pat_completeness auto
termination
  by (relation "measure count_c") (auto dest: concat_step_count)

declare rewriteConcat.simps [simp del]

definition translateBQFunctions :: "string \<Rightarrow> string" where
  "translateBQFunctions q = rewriteConcat (rewriteSafeCast (rewriteCurrentTimestamp q))"

section \<open>Table references\<close>

definition ref_start :: "char \<Rightarrow> bool" where
  "ref_start c \<longleftrightarrow> byte_in 0x41 0x5A c \<or> byte_in 0x61 0x7A c \<or> c = CHR ''_''"

definition ref_cont :: "char \<Rightarrow> bool" where
  "ref_cont c \<longleftrightarrow> ref_start c \<or> is_digit c \<or> c = CHR ''-''"

definition ref_seg :: "string \<Rightarrow> (string \<times> string) option" where
  "ref_seg s = (if s \<noteq> [] \<and> ref_start (hd s) then Some (takeWhile ref_cont s, dropWhile ref_cont s) else None)"

text \<open>A dot and a segment.\<close>

definition dot_seg :: "string \<Rightarrow> (string \<times> string) option" where
  "dot_seg s = (if s \<noteq> [] \<and> hd s = CHR ''.'' then ref_seg (tl s) else None)"

definition opt_tick :: "string \<Rightarrow> bool \<times> string" where
  "opt_tick s = (if s \<noteq> [] \<and> hd s = CHR 0x60 then (True, tl s) else (False, s))"

text \<open>\<^verbatim>\<open>bqRefToken\<close>: the segments, whether there are backticks, and the rest.\<close>

definition ref_match :: "string \<Rightarrow> (string list \<times> bool \<times> string) option" where
  "ref_match s = (let (b1, s0) = opt_tick s in
     case ref_seg s0 of None \<Rightarrow> None | Some (x, s1) \<Rightarrow>
     (case dot_seg s1 of None \<Rightarrow> None | Some (y, s2) \<Rightarrow>
       (case dot_seg s2 of
          Some (z, s3) \<Rightarrow> (let (b2, r) = opt_tick s3 in Some ([x, y, z], b1 \<or> b2, r))
        | None \<Rightarrow> (let (b2, r) = opt_tick s2 in Some ([x, y], b1 \<or> b2, r)))))"

definition sql_name :: "string \<Rightarrow> string \<Rightarrow> string" where
  "sql_name ds tbl = ds @ ''__'' @ tbl"

text \<open>The replacement of a reference; the text of the match is what precedes the rest.\<close>

definition ref_replace :: "string list \<Rightarrow> string \<Rightarrow> (string \<times> string) option" where
  "ref_replace known s = (case ref_match s of None \<Rightarrow> None
     | Some (segs, ticks, r) \<Rightarrow>
         (let m = take (length s - length r) s in
          Some (if length segs = 3
            then (if segs ! 1 \<in> set known then go_quote (sql_name (segs ! 1) (segs ! 2)) else if ticks then join ''.'' segs else m)
            else (if segs ! 0 \<in> set known then go_quote (sql_name (segs ! 0) (segs ! 1)) else if ticks then join ''.'' segs else m), r)))"

definition translateBQTables :: "string list \<Rightarrow> string \<Rightarrow> string" where
  "translateBQTables known q = replace_all (ref_replace known) q"

section \<open>What the translation does\<close>

text \<open>A statement as text without dots, and references to tables or columns, with or without backticks.\<close>

datatype bq_part = BqText string | BqRef bool "string list"

fun show_bq :: "bq_part \<Rightarrow> string" where
  "show_bq (BqText t) = t"
| "show_bq (BqRef ticks segs) = (if ticks then [CHR 0x60] else []) @ join ''.'' segs @ (if ticks then [CHR 0x60] else [])"

definition seg_ok :: "string \<Rightarrow> bool" where
  "seg_ok x \<longleftrightarrow> x \<noteq> [] \<and> ref_start (hd x) \<and> list_all ref_cont x"

definition after_ref :: "char \<Rightarrow> bool" where
  "after_ref c \<longleftrightarrow> \<not> ref_cont c \<and> c \<noteq> CHR ''.'' \<and> c \<noteq> CHR 0x60"

fun bq_ok :: "bq_part list \<Rightarrow> bool" where
  "bq_ok [] \<longleftrightarrow> True"
| "bq_ok (BqText t # ps) \<longleftrightarrow> CHR ''.'' \<notin> set t \<and> (ps = [] \<or> t \<noteq> [] \<and> \<not> ref_cont (last t) \<and> last t \<noteq> CHR 0x60) \<and> bq_ok ps"
| "bq_ok (BqRef ticks segs # ps) \<longleftrightarrow> (length segs = 2 \<or> length segs = 3) \<and> list_all seg_ok segs \<and>
     starts after_ref (concat (map show_bq ps)) \<and> bq_ok ps"

fun bq_sqlite :: "string list \<Rightarrow> bq_part \<Rightarrow> string" where
  "bq_sqlite known (BqText t) = t"
| "bq_sqlite known (BqRef ticks segs) =
     (let (ds, tbl) = (case segs of [d, t] \<Rightarrow> (d, t) | [p, d, t] \<Rightarrow> (d, t) | _ \<Rightarrow> ([], [])) in
      if ds \<in> set known then go_quote (sql_name ds tbl) else join ''.'' segs)"

lemma no_dot_follows:
  assumes "CHR ''.'' \<notin> set u" "r = [] \<or> u \<noteq> [] \<and> \<not> ref_cont (last u)" "ref_seg (u @ r) = Some (x, y)"
  shows "dot_seg y = None"
proof -
  have y: "y = dropWhile ref_cont (u @ r)" using assms(3) by (auto simp: ref_seg_def split: if_splits)
  have "y = [] \<or> hd y \<noteq> CHR ''.''"
  proof (cases "r = []")
    case True
    then have "set y \<subseteq> set u" unfolding y by (auto dest: set_dropWhileD)
    then show ?thesis using assms(1) by (metis hd_in_set subsetD)
  next
    case False
    then have "last u \<in> set u" "\<not> ref_cont (last u)" using assms(2) by auto
    then have "y = dropWhile ref_cont u @ r" "dropWhile ref_cont u \<noteq> []"
      unfolding y by (auto simp: dropWhile_append1 dropWhile_eq_Nil_conv)
    moreover have "hd (dropWhile ref_cont u) \<in> set u" using calculation(2) by (meson hd_in_set set_dropWhileD)
    ultimately show ?thesis using assms(1) by (metis hd_append2)
  qed
  then show ?thesis by (auto simp: dot_seg_def)
qed

lemma ref_match_text:
  assumes "u \<noteq> []" "CHR ''.'' \<notin> set u" "r = [] \<or> \<not> ref_cont (last u) \<and> last u \<noteq> CHR 0x60"
  shows "ref_match (u @ r) = None"
proof -
  obtain c v where u: "u = c # v" using assms(1) by (cases u) auto
  define w where "w = (if c = CHR 0x60 then v else u)"
  have "r = [] \<or> w \<noteq> [] \<and> \<not> ref_cont (last w)" using assms(3) u by (auto simp: w_def)
  moreover have "CHR ''.'' \<notin> set w" using assms(2) u by (auto simp: w_def)
  ultimately have "dot_seg y = None" if "ref_seg (w @ r) = Some (x, y)" for x y using no_dot_follows that by blast
  then show ?thesis using u by (auto simp: ref_match_def opt_tick_def w_def split: option.splits)
qed

lemma replace_text:
  assumes "CHR ''.'' \<notin> set t" "r = [] \<or> t \<noteq> [] \<and> \<not> ref_cont (last t) \<and> last t \<noteq> CHR 0x60"
  shows "replace_all (ref_replace known) (t @ r) = t @ replace_all (ref_replace known) r"
proof -
  have "CHR ''.'' \<notin> set u \<Longrightarrow> (u \<noteq> [] \<Longrightarrow> r = [] \<or> \<not> ref_cont (last u) \<and> last u \<noteq> CHR 0x60) \<Longrightarrow>
      replace_from (ref_replace known) (u @ r) 0 = u @ replace_from (ref_replace known) r 0" for u
  proof (induction u)
    case (Cons c u)
    have "ref_match ((c # u) @ r) = None" using Cons.prems by (intro ref_match_text) auto
    then have "ref_replace known ((c # u) @ r) = None" by (simp add: ref_replace_def)
    moreover have "replace_from (ref_replace known) (u @ r) 0 = u @ replace_from (ref_replace known) r 0"
      using Cons.prems by (intro Cons.IH) (auto split: if_splits)
    ultimately show ?case by simp
  qed simp
  then show ?thesis using assms by (auto simp: replace_all_def)
qed

lemma ref_seg_show: "seg_ok x \<Longrightarrow> starts (\<lambda>c. \<not> ref_cont c) r \<Longrightarrow> ref_seg (x @ r) = Some (x, r)"
proof -
  assume x: "seg_ok x" and r: "starts (\<lambda>c. \<not> ref_cont c) r"
  then have "takeWhile ref_cont (x @ r) = x" "dropWhile ref_cont (x @ r) = r"
    by (cases r; auto simp: seg_ok_def list_all_iff starts_Cons)+
  then show ?thesis using x by (simp add: ref_seg_def seg_ok_def)
qed

lemma ref_bytes [simp]: "\<not> ref_cont (CHR ''.'')" "\<not> ref_cont (CHR 0x60)" "\<not> ref_start (CHR 0x60)"
  by (simp_all add: ref_cont_def ref_start_def is_digit_def byte_in_def)

lemma ref_match_show:
  assumes "length segs = 2 \<or> length segs = 3" "list_all seg_ok segs" "starts after_ref r"
  shows "ref_match (show_bq (BqRef ticks segs) @ r) = Some (segs, ticks, r)"
proof -
  define r' where "r' = (if ticks then CHR 0x60 # r else r)"
  have st: "starts (\<lambda>c. \<not> ref_cont c) r'" and nd: "dot_seg r' = None"
    using assms(3) by (cases r; auto simp: r'_def starts_Cons after_ref_def dot_seg_def)+
  have tick: "opt_tick r' = (ticks, r)" using assms(3) by (cases r) (auto simp: r'_def opt_tick_def starts_Cons after_ref_def)
  have dot: "dot_seg (CHR ''.'' # x @ q) = Some (x, q)" if "seg_ok x" "starts (\<lambda>c. \<not> ref_cont c) q" for x q
    using ref_seg_show [OF that] by (simp add: dot_seg_def)
  have open1: "opt_tick (show_bq (BqRef ticks (x # xs)) @ r) = (ticks, join ''.'' (x # xs) @ r')" if "seg_ok x" for x xs
    using that by (cases x; cases xs) (auto simp: opt_tick_def r'_def seg_ok_def)
  from assms(1) consider x y where "segs = [x, y]" | x y z where "segs = [x, y, z]"
    by (auto simp: length_Suc_conv numeral_2_eq_2 numeral_3_eq_3)
  then show ?thesis
  proof cases
    case 1
    then show ?thesis using assms(2) st nd tick open1 [of x "[y]"] by (simp add: ref_match_def ref_seg_show dot starts_Cons del: show_bq.simps)
  next
    case 2
    then show ?thesis using assms(2) st nd tick open1 [of x "[y, z]"] by (simp add: ref_match_def ref_seg_show dot starts_Cons del: show_bq.simps)
  qed
qed

lemma replace_from_skip: "replace_from m (a @ r) (length a) = replace_from m r 0"
  by (induction a) auto

lemma replace_ref:
  assumes "length segs = 2 \<or> length segs = 3" "list_all seg_ok segs" "starts after_ref r"
  shows "replace_all (ref_replace known) (show_bq (BqRef ticks segs) @ r) =
    bq_sqlite known (BqRef ticks segs) @ replace_all (ref_replace known) r"
proof -
  define m where "m = show_bq (BqRef ticks segs)"
  have "m \<noteq> []"
    using assms(1,2) by (auto simp: m_def seg_ok_def length_Suc_conv numeral_2_eq_2 numeral_3_eq_3)
  then obtain c s where m: "m = c # s" by (cases m) auto
  have match: "ref_match (m @ r) = Some (segs, ticks, r)" using ref_match_show [OF assms] by (simp add: m_def)
  have "ref_replace known (m @ r) = Some (bq_sqlite known (BqRef ticks segs), r)"
  proof -
    have t: "take (length (m @ r) - length r) (m @ r) = m" by simp
    have plain: "\<not> ticks \<Longrightarrow> m = join ''.'' segs" by (simp add: m_def)
    show ?thesis unfolding ref_replace_def match option.case prod.case Let_def t
      using assms(1) plain by (auto simp: length_Suc_conv numeral_2_eq_2 numeral_3_eq_3)
  qed
  then show ?thesis unfolding m_def [symmetric] replace_all_def using m replace_from_skip [of _ s r] by simp
qed

text \<open>
  References are translated wherever they stand: a reference whose data set exists becomes the quoted name of the SQLite table,
  any other keeps its text without backticks, and the text between references is kept.
\<close>

theorem bq_references_translated:
  "bq_ok ps \<Longrightarrow> translateBQTables known (concat (map show_bq ps)) = concat (map (bq_sqlite known) ps)"
proof (induction ps rule: bq_ok.induct)
  case (2 t ps)
  have "ps = [] \<or> ps \<noteq> []" by blast
  then show ?case using 2 replace_text [of t "concat (map show_bq ps)" known] by (auto simp: translateBQTables_def)
next
  case (3 ticks segs ps)
  then show ?case using replace_ref [of segs "concat (map show_bq ps)" known ticks]
    by (simp add: translateBQTables_def del: show_bq.simps bq_sqlite.simps)
qed (simp add: translateBQTables_def replace_all_def)

definition sample_query :: "bq_part list" where
  "sample_query = [BqText ''SELECT '', BqRef False [''u'', ''name''], BqText '', '', BqText ''1 FROM '', BqRef True [''my-proj'', ''shop'', ''users''],
     BqText '' u JOIN '', BqRef False [''shop'', ''orders''], BqText '' o'']"

theorem bq_references_translated_witness:
  "bq_ok sample_query \<and> translateBQTables [''shop''] (concat (map show_bq sample_query)) = concat (map (bq_sqlite [''shop'']) sample_query)"
proof -
  have ok: "bq_ok sample_query"
    by (simp add: sample_query_def seg_ok_def after_ref_def ref_cont_def ref_start_def is_digit_def byte_in_def starts_Cons starts_append)
  from bq_references_translated [OF ok] ok show ?thesis by simp
qed

text \<open>An argument of a call as text, quoted text and nested parentheses.\<close>

datatype piece = Byte char | Quoted char string | Parens "piece list"

fun show_piece :: "piece \<Rightarrow> string" where
  "show_piece (Byte c) = [c]"
| "show_piece (Quoted q s) = q # s @ [q]"
| "show_piece (Parens ps) = ''('' @ concat (map show_piece ps) @ '')''"

definition show_arg :: "piece list \<Rightarrow> string" where
  "show_arg ps = concat (map show_piece ps)"

definition is_quote :: "char \<Rightarrow> bool" where
  "is_quote c \<longleftrightarrow> c = CHR 0x27 \<or> c = CHR 0x22 \<or> c = CHR 0x60"

fun piece_ok :: "bool \<Rightarrow> piece \<Rightarrow> bool" where
  "piece_ok outer (Byte c) \<longleftrightarrow> \<not> is_quote c \<and> c \<noteq> CHR ''('' \<and> c \<noteq> CHR '')'' \<and> \<not> (outer \<and> c = CHR '','')"
| "piece_ok outer (Quoted q s) \<longleftrightarrow> is_quote q \<and> q \<notin> set s"
| "piece_ok outer (Parens ps) \<longleftrightarrow> list_all (piece_ok False) ps"

lemma split_quoted: "q \<notin> set s \<Longrightarrow> split_args d (Some q) cur (s @ q # r) = split_args d None (cur @ s @ [q]) r"
  by (induction s arbitrary: cur) auto

lemma split_piece:
  "d > 0 \<Longrightarrow> piece_ok (d = 1) p \<Longrightarrow> split_args d None cur (show_piece p @ r) = split_args d None (cur @ show_piece p) r"
proof (induction p arbitrary: d cur r)
  case (Byte c)
  then show ?case by (auto simp: is_quote_def)
next
  case (Quoted q s)
  then show ?case using split_quoted [of q s d "cur @ [q]" r] by (auto simp: is_quote_def)
next
  case (Parens ps)
  have "list_all (piece_ok False) ps" using Parens.prems by simp
  then have "split_args (Suc d) None cur (concat (map show_piece ps) @ q) = split_args (Suc d) None (cur @ concat (map show_piece ps)) q" for cur q
    using Parens.IH
  proof (induction ps arbitrary: cur)
    case (Cons x ps)
    then have "split_args (Suc d) None cur (show_piece x @ concat (map show_piece ps) @ q)
        = split_args (Suc d) None (cur @ show_piece x) (concat (map show_piece ps) @ q)"
      using Parens.prems(1) by simp
    then show ?case using Cons by simp
  qed simp
  then show ?case using Parens.prems(1) by simp
qed

lemma split_arg:
  "list_all (piece_ok True) ps \<Longrightarrow> split_args 1 None cur (show_arg ps @ r) = split_args 1 None (cur @ show_arg ps) r"
proof (induction ps arbitrary: cur)
  case (Cons p ps)
  have "split_args 1 None cur (show_piece p @ show_arg ps @ r) = split_args 1 None (cur @ show_piece p) (show_arg ps @ r)"
    using split_piece [of 1 p] Cons.prems by simp
  also have "\<dots> = split_args 1 None ((cur @ show_piece p) @ show_arg ps) r" using Cons by simp
  finally show ?case by (simp add: show_arg_def)
qed (simp add: show_arg_def)

lemma split_top_args:
  "args \<noteq> [] \<Longrightarrow> list_all (list_all (piece_ok True)) args \<Longrightarrow>
   splitTopLevelArgs (join '','' (map show_arg args) @ '')'' @ rest) = Some (map (trimSpace \<circ> show_arg) args, rest)"
  unfolding splitTopLevelArgs_def
proof (induction args)
  case (Cons a args)
  have a: "split_args 1 None [] (show_arg a @ r) = split_args 1 None (show_arg a) r" for r
    using split_arg [of a "[]" r] Cons.prems by simp
  show ?case
  proof (cases args)
    case Nil
    then show ?thesis using a [of "'')'' @ rest"] by simp
  next
    case (Cons b bs)
    have "split_args 1 None [] (join '','' (map show_arg args) @ '')'' @ rest) = Some (map (trimSpace \<circ> show_arg) args, rest)"
      using Cons.IH Cons.prems Cons by simp
    then show ?thesis using a [of "'','' @ join '','' (map show_arg args) @ '')'' @ rest"] Cons by simp
  qed
qed simp

text \<open>
  The first call of CONCAT becomes the concatenation of its arguments, of which it has at least two: commas in quoted text and in nested parentheses do
  not separate arguments.  The rewriting then goes on, into the arguments as well, and ends.
\<close>

theorem bq_concat_rewritten:
  assumes "find_concat False q = Some (pre, join '','' (map show_arg args) @ '')'' @ rest)"
    and "length args \<ge> 2" "list_all (list_all (piece_ok True)) args"
  shows "rewriteConcat q = rewriteConcat (pre @ ''('' @ join '' || '' (map (trimSpace \<circ> show_arg) args) @ '')'' @ rest)"
proof -
  have "args \<noteq> []" using assms(2) by auto
  from split_top_args [OF this assms(3)]
  have "concat_step q = Some (pre @ ''('' @ join '' || '' (map (trimSpace \<circ> show_arg) args) @ '')'' @ rest)"
    using assms(2) by (simp add: concat_step_def assms(1))
  then show ?thesis by (subst rewriteConcat.simps) simp
qed

definition sample_args :: "piece list list" where
  "sample_args = [map Byte ''name'', [Byte (CHR '' ''), Quoted (CHR 0x27) '', '']]"

theorem bq_concat_rewritten_witness:
  "rewriteConcat (''SELECT concat (name, '' @ show_piece (Quoted (CHR 0x27) '', '') @ '') FROM t'')
    = rewriteConcat (''SELECT ('' @ join '' || '' (map (trimSpace \<circ> show_arg) sample_args) @ '') FROM t'')"
proof -
  have f: "find_concat False (''SELECT concat (name, '' @ show_piece (Quoted (CHR 0x27) '', '') @ '') FROM t'')
      = Some (''SELECT '', join '','' (map show_arg sample_args) @ '')'' @ '' FROM t'')"
    by code_simp
  show ?thesis
    using bq_concat_rewritten [OF f] by (simp add: sample_args_def is_quote_def)
qed

text \<open>After the loop no call is left whose parentheses match.\<close>

theorem bq_concat_complete: "concat_step (rewriteConcat q) = None"
proof (induction q rule: rewriteConcat.induct)
  case (1 q)
  then show ?case by (cases "concat_step q") (simp_all add: rewriteConcat.simps [of q])
qed

end
