(* ===== verification/BigQuery.thy ===== *)
theory BigQuery
  imports Bq_Sql Cloud_Logging
begin

text \<open>
  Service \<^verbatim>\<open>internal/services/bigquery\<close>: data sets and tables in memory, each table backed by a table of SQLite.  The driver is a
  parameter (\<open>Sql_Db\<close>).  One connection of the pool is modelled: in-memory databases are not shared between connections.
\<close>

section \<open>Data\<close>

record schemaField =
  sf_Name :: string
  sf_Type :: string
  sf_Mode :: string

record bq_dataset =
  bd_ID :: string
  bd_Kind :: string
  bd_CreateTime :: time

record bq_table =
  bt_ID :: string
  bt_DatasetID :: string
  bt_Kind :: string
  bt_Fields :: "schemaField list"
  bt_CreateTime :: time

record 'db bigquery =
  bq_project :: string
  bq_db :: 'db
  bq_datasets :: "(string \<times> bq_dataset) list"
  bq_tables :: "(string \<times> (string \<times> bq_table) list) list"

text \<open>
  The environment: the driver, the formatting of values, the clock, the order in which \<^verbatim>\<open>range\<close> visits the keys of a map, and the
  text of the error for an argument that the driver cannot take.
\<close>

record 'db bq_env =
  be_drv :: "'db sql_driver"
  be_fmt :: fmt_env
  be_now :: time
  be_keys :: "string list \<Rightarrow> string list"
  be_argErr :: "json list \<Rightarrow> string"

definition range_map :: "'db bq_env \<Rightarrow> (string \<times> 'a) list \<Rightarrow> (string \<times> 'a) list" where
  "range_map e m = map (\<lambda>k. (k, the (map_of m k))) (be_keys e (map fst m))"

definition enc_schemaField :: "schemaField \<Rightarrow> json" where
  "enc_schemaField f = JObj ([(''name'', JStr (sf_Name f)), (''type'', JStr (sf_Type f))] @ omit (sf_Mode f = []) ''mode'' (JStr (sf_Mode f)))"

text \<open>A slice without elements that nothing was assigned to is null.\<close>

definition jslice :: "json list \<Rightarrow> json" where
  "jslice xs = (if xs = [] then JNull else JArr xs)"

definition enc_dataset :: "bq_dataset \<Rightarrow> json" where
  "enc_dataset d = JObj [(''datasetId'', JStr (bd_ID d)), (''kind'', JStr (bd_Kind d)), (''creationTime'', JTime (bd_CreateTime d))]"

definition enc_table :: "bq_table \<Rightarrow> json" where
  "enc_table t = JObj [(''tableId'', JStr (bt_ID t)), (''datasetId'', JStr (bt_DatasetID t)), (''kind'', JStr (bt_Kind t)),
     (''schema'', JObj [(''fields'', jslice (map enc_schemaField (bt_Fields t)))]), (''creationTime'', JTime (bt_CreateTime t))]"

definition dec_schemaField :: "json \<Rightarrow> schemaField \<times> bool" where
  "dec_schemaField j = (let (n, o1) = fld_str ''name'' j; (t, o2) = fld_str ''type'' j; (m, o3) = fld_str ''mode'' j in
     (\<lparr>sf_Name = n, sf_Type = t, sf_Mode = m\<rparr>, is_struct_doc j \<and> o1 \<and> o2 \<and> o3))"

definition validIdent :: "string \<Rightarrow> bool" where
  "validIdent s \<longleftrightarrow> s \<noteq> [] \<and> list_all (\<lambda>c. byte_in 0x41 0x5A c \<or> byte_in 0x61 0x7A c \<or> is_digit c \<or> c = CHR ''_'' \<or> c = CHR ''-'') s"

definition bq_New :: "string \<Rightarrow> 'db \<Rightarrow> 'db bigquery" where
  "bq_New project db = \<lparr>bq_project = project, bq_db = db, bq_datasets = [], bq_tables = []\<rparr>"

type_synonym 'db bq_result = "http_resp \<times> 'db bigquery"

section \<open>Data sets\<close>

definition createDataset :: "'db bq_env \<Rightarrow> http_req \<Rightarrow> 'db bigquery \<Rightarrow> 'db bq_result" where
  "createDataset e r s = (case r_json r of None \<Rightarrow> (respErr 400 ''invalid json'', s)
     | Some j \<Rightarrow> (let rf = fld_doc ''datasetReference'' j; (i, ok) = fld_str ''datasetId'' rf in
         if \<not> (is_struct_doc j \<and> is_struct_doc rf \<and> ok) then (respErr 400 ''invalid json'', s)
         else if i = [] then (respErr 400 ''datasetId required'', s)
         else if \<not> validIdent i then (respErr 400 ''invalid datasetId'', s)
         else if map_of (bq_datasets s) i \<noteq> None then (respErr 409 ''dataset exists'', s)
         else (let d = \<lparr>bd_ID = i, bd_Kind = ''bigquery#dataset'', bd_CreateTime = be_now e\<rparr> in
           (respJSON 200 (enc_dataset d),
            s\<lparr>bq_datasets := AList.update i d (bq_datasets s), bq_tables := AList.update i [] (bq_tables s)\<rparr>))))"

definition listDatasets :: "'db bq_env \<Rightarrow> 'db bigquery \<Rightarrow> http_resp" where
  "listDatasets e s = respJSON 200 (JObj [(''kind'', JStr ''bigquery#datasetList''),
     (''datasets'', JArr (map (enc_dataset \<circ> snd) (range_map e (bq_datasets s))))])"

text \<open>The tables of a data set; of a data set that does not exist, none.\<close>

definition tables_of :: "'db bigquery \<Rightarrow> string \<Rightarrow> (string \<times> bq_table) list" where
  "tables_of s ds = (case map_of (bq_tables s) ds of None \<Rightarrow> [] | Some ts \<Rightarrow> ts)"

definition drop_stmt :: "string \<Rightarrow> string" where
  "drop_stmt n = ''DROP TABLE IF EXISTS '' @ go_quote n"

definition exec_drop :: "'db bq_env \<Rightarrow> string \<Rightarrow> string \<Rightarrow> 'db \<Rightarrow> 'db" where
  "exec_drop e ds tbl db = fst (drv_exec (be_drv e) db (drop_stmt (sql_name ds tbl)) [])"

definition datasetItem :: "'db bq_env \<Rightarrow> http_req \<Rightarrow> string \<Rightarrow> 'db bigquery \<Rightarrow> 'db bq_result" where
  "datasetItem e r i s = (case map_of (bq_datasets s) i of None \<Rightarrow> (respErr 404 ''dataset not found'', s)
     | Some d \<Rightarrow> (case r_method r of
         GET \<Rightarrow> (respJSON 200 (enc_dataset d), s)
       | DELETE \<Rightarrow> (header_only 204,
           s\<lparr>bq_datasets := AList.delete i (bq_datasets s),
             bq_db := fold (\<lambda>(t, _). exec_drop e i t) (range_map e (tables_of s i)) (bq_db s),
             bq_tables := AList.delete i (bq_tables s)\<rparr>)
       | _ \<Rightarrow> (methodNotAllowed, s)))"

section \<open>Tables\<close>

definition sqlType :: "string \<Rightarrow> string" where
  "sqlType t = (let u = toUpper t in
     if u = ''INTEGER'' \<or> u = ''INT64'' then ''INTEGER''
     else if u = ''FLOAT'' \<or> u = ''FLOAT64'' \<or> u = ''NUMERIC'' then ''REAL''
     else if u = ''BOOL'' \<or> u = ''BOOLEAN'' then ''INTEGER''
     else ''TEXT'')"

definition create_stmt :: "string \<Rightarrow> schemaField list \<Rightarrow> string" where
  "create_stmt n fs = ''CREATE TABLE '' @ go_quote n @ '' ('' @
     join '', '' (map (\<lambda>f. go_quote (sf_Name f) @ '' '' @ sqlType (sf_Type f)) fs) @ '')''"

definition createSQLTable :: "'db bq_env \<Rightarrow> string \<Rightarrow> string \<Rightarrow> schemaField list \<Rightarrow> 'db \<Rightarrow> 'db \<times> string option" where
  "createSQLTable e ds tbl fs db =
    (if fs = [] then (db, Some ''schema fields required'')
     else (case drv_exec (be_drv e) db (create_stmt (sql_name ds tbl) fs) [] of
         (db', Inl er) \<Rightarrow> (db', Some er) | (db', Inr _) \<Rightarrow> (db', None)))"

definition create_table :: "'db bq_env \<Rightarrow> http_req \<Rightarrow> string \<Rightarrow> 'db bigquery \<Rightarrow> 'db bq_result" where
  "create_table e r ds s = (case r_json r of None \<Rightarrow> (respErr 400 ''invalid json'', s)
     | Some j \<Rightarrow> (let rf = fld_doc ''tableReference'' j; (i, o1) = fld_str ''tableId'' rf;
           sch = fld_doc ''schema'' j; (fs, o2) = fld_arr dec_schemaField ''fields'' sch in
         if \<not> (is_struct_doc j \<and> is_struct_doc rf \<and> is_struct_doc sch \<and> o1 \<and> o2) then (respErr 400 ''invalid json'', s)
         else if i = [] then (respErr 400 ''tableId required'', s)
         else if \<not> validIdent i then (respErr 400 ''invalid tableId'', s)
         else if \<not> list_all (\<lambda>f. validIdent (sf_Name f)) fs then (respErr 400 ''invalid schema field name'', s)
         else if map_of (tables_of s ds) i \<noteq> None then (respErr 409 ''table exists'', s)
         else (case createSQLTable e ds i fs (bq_db s) of
             (db', Some er) \<Rightarrow> (respErr 400 er, s\<lparr>bq_db := db'\<rparr>)
           | (db', None) \<Rightarrow>
               (let t = \<lparr>bt_ID = i, bt_DatasetID = ds, bt_Kind = ''bigquery#table'', bt_Fields = fs, bt_CreateTime = be_now e\<rparr> in
                (respJSON 200 (enc_table t),
                 s\<lparr>bq_db := db', bq_tables := AList.update ds (AList.update i t (tables_of s ds)) (bq_tables s)\<rparr>)))))"

definition tableCollection :: "'db bq_env \<Rightarrow> http_req \<Rightarrow> string \<Rightarrow> 'db bigquery \<Rightarrow> 'db bq_result" where
  "tableCollection e r ds s = (if map_of (bq_datasets s) ds = None then (respErr 404 ''dataset not found'', s)
     else (case r_method r of
         POST \<Rightarrow> create_table e r ds s
       | GET \<Rightarrow> (respJSON 200 (JObj [(''kind'', JStr ''bigquery#tableList''),
            (''tables'', JArr (map (enc_table \<circ> snd) (range_map e (tables_of s ds))))]), s)
       | _ \<Rightarrow> (methodNotAllowed, s)))"

definition tableItem :: "'db bq_env \<Rightarrow> http_req \<Rightarrow> string \<Rightarrow> string \<Rightarrow> 'db bigquery \<Rightarrow> 'db bq_result" where
  "tableItem e r ds tbl s = (if map_of (bq_datasets s) ds = None then (respErr 404 ''dataset not found'', s)
     else (case map_of (tables_of s ds) tbl of None \<Rightarrow> (respErr 404 ''table not found'', s)
       | Some t \<Rightarrow> (case r_method r of
           GET \<Rightarrow> (respJSON 200 (enc_table t), s)
         | DELETE \<Rightarrow> (header_only 204,
             s\<lparr>bq_tables := AList.update ds (AList.delete tbl (tables_of s ds)) (bq_tables s), bq_db := exec_drop e ds tbl (bq_db s)\<rparr>)
         | _ \<Rightarrow> (methodNotAllowed, s))))"

section \<open>Rows\<close>

definition insert_stmt :: "string \<Rightarrow> string list \<Rightarrow> string" where
  "insert_stmt n cols = ''INSERT INTO '' @ go_quote n @ '' ('' @ join '', '' (map go_quote cols) @ '') VALUES ('' @
     join '','' (replicate (length cols) ''?'') @ '')''"

definition dec_row :: "json \<Rightarrow> (string \<times> json) list \<times> bool" where
  "dec_row j = (let (_, o1) = fld_str ''insertId'' j; (m, o2) = fld_map ''json'' j in
     (case m of None \<Rightarrow> [] | Some ms \<Rightarrow> ms, is_struct_doc j \<and> o1 \<and> o2))"

text \<open>The value of a column: of a repeated member the last, and null when there is none.\<close>

definition row_value :: "(string \<times> json) list \<Rightarrow> string \<Rightarrow> json" where
  "row_value m k = (case map_of (rev m) k of None \<Rightarrow> JNull | Some v \<Rightarrow> v)"

text \<open>The arguments are converted before the statement runs.\<close>

definition insert_row :: "'db bq_env \<Rightarrow> string \<Rightarrow> string list \<Rightarrow> (string \<times> json) list \<Rightarrow> 'db \<Rightarrow> 'db \<times> string option" where
  "insert_row e n cols m db = (let vs = map (row_value m) cols in
     if list_ex (\<lambda>v. json_arg v = None) vs then (db, Some (be_argErr e vs))
     else (case drv_exec (be_drv e) db (insert_stmt n cols) (map (the \<circ> json_arg) vs) of
         (db', Inl er) \<Rightarrow> (db', Some er) | (db', Inr _) \<Rightarrow> (db', None)))"

fun insert_rows :: "'db bq_env \<Rightarrow> string \<Rightarrow> string list \<Rightarrow> (string \<times> json) list list \<Rightarrow> 'db \<Rightarrow> 'db \<times> string option" where
  "insert_rows e n cols [] db = (db, None)"
| "insert_rows e n cols (m # ms) db = (case insert_row e n cols m db of
     (db', Some er) \<Rightarrow> (db', Some er) | (db', None) \<Rightarrow> insert_rows e n cols ms db')"

definition insertAll :: "'db bq_env \<Rightarrow> http_req \<Rightarrow> string \<Rightarrow> string \<Rightarrow> 'db bigquery \<Rightarrow> 'db bq_result" where
  "insertAll e r ds tbl s = (if r_method r \<noteq> POST then (methodNotAllowed, s)
     else (case map_of (tables_of s ds) tbl of None \<Rightarrow> (respErr 404 ''table not found'', s)
       | Some t \<Rightarrow> (case r_json r of None \<Rightarrow> (respErr 400 ''invalid json'', s)
         | Some j \<Rightarrow> (let (rows, ok) = fld_arr dec_row ''rows'' j in
             if \<not> (is_struct_doc j \<and> ok) then (respErr 400 ''invalid json'', s)
             else (case insert_rows e (sql_name ds tbl) (map sf_Name (bt_Fields t)) rows (bq_db s) of
                 (db', Some er) \<Rightarrow> (respErr 400 er, s\<lparr>bq_db := db'\<rparr>)
               | (db', None) \<Rightarrow> (respJSON 200 (JObj [(''kind'', JStr ''bigquery#tableDataInsertAllResponse'')]), s\<lparr>bq_db := db'\<rparr>))))))"

section \<open>Queries\<close>

definition knownDatasets :: "'db bigquery \<Rightarrow> string list" where
  "knownDatasets s = map fst (bq_datasets s)"

definition translateBQ :: "'db bigquery \<Rightarrow> string \<Rightarrow> string" where
  "translateBQ s q = translateBQTables (knownDatasets s) (translateBQFunctions q)"

definition normaliseBQType :: "string \<Rightarrow> string" where
  "normaliseBQType t = (let u = toUpper t in
     if u = ''INT64'' \<or> u = ''INTEGER'' then ''INTEGER''
     else if u = ''FLOAT64'' \<or> u = ''FLOAT'' \<or> u = ''NUMERIC'' then ''FLOAT''
     else if u = ''BOOL'' \<or> u = ''BOOLEAN'' then ''BOOLEAN''
     else if u = [] then ''STRING'' else u)"

definition sqliteToBQType :: "string \<Rightarrow> string" where
  "sqliteToBQType t = (let u = toUpper t in
     if u = ''INTEGER'' \<or> u = ''INT'' then ''INTEGER''
     else if u = ''REAL'' \<or> u = ''FLOAT'' \<or> u = ''DOUBLE'' then ''FLOAT''
     else if u = ''BOOLEAN'' then ''BOOLEAN'' else ''STRING'')"

text \<open>All columns of all tables in the order they are visited; a lookup finds the first of a name.\<close>

definition fieldTypeIndex :: "'db bq_env \<Rightarrow> 'db bigquery \<Rightarrow> (string \<times> string) list" where
  "fieldTypeIndex e s = concat (map (\<lambda>(_, ts). concat (map (\<lambda>(_, t). map (\<lambda>f. (sf_Name f, normaliseBQType (sf_Type f))) (bt_Fields t))
     (range_map e ts))) (range_map e (bq_tables s)))"

definition column_field :: "'db bq_env \<Rightarrow> 'db bigquery \<Rightarrow> string \<times> string \<Rightarrow> schemaField" where
  "column_field e s c = \<lparr>sf_Name = fst c,
     sf_Type = (case map_of (fieldTypeIndex e s) (fst c) of Some bt \<Rightarrow> bt | None \<Rightarrow> sqliteToBQType (snd c)), sf_Mode = []\<rparr>"

definition enc_queryResponse :: "schemaField list \<Rightarrow> string list list \<Rightarrow> json" where
  "enc_queryResponse fs rows = JObj [(''jobComplete'', JBool True), (''schema'', JObj [(''fields'', jslice (map enc_schemaField fs))]),
     (''rows'', jslice (map (\<lambda>r. JObj [(''f'', jslice (map (\<lambda>v. JObj [(''v'', JStr v)]) r))]) rows)),
     (''totalRows'', JStr (itoa (length rows)))]"

text \<open>An error that ends the iteration over the rows is not looked at.\<close>

definition bq_handleQuery :: "'db bq_env \<Rightarrow> http_req \<Rightarrow> 'db bigquery \<Rightarrow> 'db bq_result" where
  "bq_handleQuery e r s = (if r_method r \<noteq> POST then (methodNotAllowed, s)
     else (case r_json r of None \<Rightarrow> (respErr 400 ''invalid json'', s)
       | Some j \<Rightarrow> (let (q, o1) = fld_str ''query'' j; (_, o2) = fld_bool ''useLegacySql'' j in
           if \<not> (is_struct_doc j \<and> o1 \<and> o2) then (respErr 400 ''invalid json'', s)
           else (case drv_query (be_drv e) (bq_db s) (translateBQ s q) [] of
               (db', Inl er) \<Rightarrow> (respErr 400 er, s\<lparr>bq_db := db'\<rparr>)
             | (db', Inr rs) \<Rightarrow> (respJSON 200 (enc_queryResponse (map (column_field e s) (rset_cols rs))
                 (map (map (sprint_v (be_fmt e))) (rset_rows rs))), s\<lparr>bq_db := db'\<rparr>)))))"

definition handleJobs :: "'db bq_env \<Rightarrow> http_req \<Rightarrow> string list \<Rightarrow> 'db bigquery \<Rightarrow> http_resp" where
  "handleJobs e r parts s = (if length parts = 2 \<and> r_method r = POST
     then (case r_json r of None \<Rightarrow> respErr 400 ''invalid json''
       | Some j \<Rightarrow> (let cf = fld_doc ''configuration'' j; qu = fld_doc ''query'' cf; (q, ok) = fld_str ''query'' qu in
           if \<not> (is_struct_doc j \<and> is_struct_doc cf \<and> is_struct_doc qu \<and> ok) then respErr 400 ''invalid json''
           else if q = [] then respErr 400 ''query required''
           else respJSON 200 (JObj [(''kind'', JStr ''bigquery#job''),
             (''jobReference'', JObj [(''projectId'', JStr (bq_project s)), (''jobId'', JStr (''job-'' @ itoai (unix_nanos (be_now e))))]),
             (''status'', JObj [(''state'', JStr ''DONE'')])])))
     else http_notFound)"

section \<open>Dispatch\<close>

definition handleDatasets :: "'db bq_env \<Rightarrow> http_req \<Rightarrow> string list \<Rightarrow> 'db bigquery \<Rightarrow> 'db bq_result" where
  "handleDatasets e r parts s =
    (if length parts = 2 \<and> r_method r = POST then createDataset e r s
     else if length parts = 2 \<and> r_method r = GET then (listDatasets e s, s)
     else if length parts = 3 then datasetItem e r (parts ! 2) s
     else if length parts = 4 \<and> parts ! 3 = ''tables'' then tableCollection e r (parts ! 2) s
     else if length parts = 5 \<and> parts ! 3 = ''tables'' then tableItem e r (parts ! 2) (parts ! 4) s
     else if length parts = 6 \<and> parts ! 3 = ''tables'' \<and> parts ! 5 = ''insertAll'' then insertAll e r (parts ! 2) (parts ! 4) s
     else (http_notFound, s))"

definition bq_parts :: "http_req \<Rightarrow> string list" where
  "bq_parts r = split_on (CHR ''/'') (trimPrefix (r_path r) ''/bigquery/v2/projects/'')"

definition bq_dispatch :: "'db bq_env \<Rightarrow> http_req \<Rightarrow> 'db bigquery \<Rightarrow> 'db bq_result" where
  "bq_dispatch e r s = (let parts = bq_parts r in
     if length parts < 2 then (http_notFound, s)
     else if parts ! 1 = ''datasets'' then handleDatasets e r parts s
     else if parts ! 1 = ''queries'' then bq_handleQuery e r s
     else if parts ! 1 = ''jobs'' then (handleJobs e r parts s, s)
     else (http_notFound, s))"

section \<open>Console\<close>

definition ConsoleDatasets :: "'db bq_env \<Rightarrow> 'db bigquery \<Rightarrow> (string \<times> time) list" where
  "ConsoleDatasets e s = sort_key fst (map (\<lambda>(i, d). (i, bd_CreateTime d)) (range_map e (bq_datasets s)))"

text \<open>A row: identifier, data set, creation time, number of columns.\<close>

definition ConsoleTables :: "'db bq_env \<Rightarrow> string \<Rightarrow> 'db bigquery \<Rightarrow> (string \<times> string \<times> time \<times> nat) list" where
  "ConsoleTables e ds s = sort_key fst
     (map (\<lambda>(i, t). (i, bt_DatasetID t, bt_CreateTime t, length (bt_Fields t))) (range_map e (tables_of s ds)))"

text \<open>At most 200 rows, each a map from column names to values; the error is that of the iteration, if it got that far.\<close>

definition ConsoleQuery :: "'db bq_env \<Rightarrow> string \<Rightarrow> 'db bigquery \<Rightarrow> (string + string list \<times> (string \<times> go_value) list list \<times> string option) \<times> 'db bigquery" where
  "ConsoleQuery e q s = (case drv_query (be_drv e) (bq_db s) q [] of
     (db', Inl er) \<Rightarrow> (Inl er, s\<lparr>bq_db := db'\<rparr>)
   | (db', Inr rs) \<Rightarrow> (let cols = map fst (rset_cols rs) in
       (Inr (cols, map (\<lambda>vs. fold (\<lambda>(c, v). AList.update c v) (zip cols vs) []) (take 200 (rset_rows rs)),
          if length (rset_rows rs) \<ge> 200 then None else rset_err rs), s\<lparr>bq_db := db'\<rparr>)))"

end
