(* ===== verification/BigQuery_Laws.thy ===== *)
theory BigQuery_Laws
  imports BigQuery
begin

text \<open>
  What holds of the BigQuery service whatever requests arrive, and what it promises when SQLite does what it documents.
\<close>

section \<open>Well-formed states\<close>

definition keys_ok :: "'db bq_env \<Rightarrow> bool" where
  "keys_ok e \<longleftrightarrow> (\<forall>ks. set (be_keys e ks) = set ks)"

definition table_ok :: "bq_table \<Rightarrow> bool" where
  "table_ok t \<longleftrightarrow> bt_Fields t \<noteq> [] \<and> list_all (\<lambda>f. validIdent (sf_Name f)) (bt_Fields t)"

definition datasets_ok :: "(string \<Rightarrow> bq_dataset option) \<Rightarrow> bool" where
  "datasets_ok D \<longleftrightarrow> (\<forall>ds d. D ds = Some d \<longrightarrow> validIdent ds)"

definition tables_ok :: "(string \<times> bq_table) list \<Rightarrow> bool" where
  "tables_ok ts \<longleftrightarrow> (\<forall>i t. map_of ts i = Some t \<longrightarrow> validIdent i \<and> table_ok t)"

definition all_tables_ok :: "(string \<Rightarrow> (string \<times> bq_table) list option) \<Rightarrow> bool" where
  "all_tables_ok T \<longleftrightarrow> (\<forall>ds ts. T ds = Some ts \<longrightarrow> validIdent ds \<and> tables_ok ts)"

definition bq_inv :: "'db bigquery \<Rightarrow> bool" where
  "bq_inv s \<longleftrightarrow> datasets_ok (map_of (bq_datasets s)) \<and> all_tables_ok (map_of (bq_tables s))"

lemma datasets_ok_upd:
  "datasets_ok D \<Longrightarrow> validIdent i \<Longrightarrow> datasets_ok (D(i \<mapsto> d))" "datasets_ok D \<Longrightarrow> datasets_ok (D(i := None))"
  by (simp_all add: datasets_ok_def)

lemma tables_ok_upd:
  "tables_ok []"
  "tables_ok ts \<Longrightarrow> validIdent i \<Longrightarrow> table_ok t \<Longrightarrow> tables_ok (AList.update i t ts)"
  "tables_ok ts \<Longrightarrow> tables_ok (AList.delete i ts)"
  by (simp_all add: tables_ok_def update_conv' delete_conv')

lemma all_tables_ok_upd:
  "all_tables_ok T \<Longrightarrow> validIdent ds \<Longrightarrow> tables_ok ts \<Longrightarrow> all_tables_ok (T(ds \<mapsto> ts))"
  "all_tables_ok T \<Longrightarrow> all_tables_ok (T(ds := None))"
  by (simp_all add: all_tables_ok_def)

lemma tables_of_ok: "bq_inv s \<Longrightarrow> tables_ok (tables_of s ds)"
  by (auto simp: bq_inv_def all_tables_ok_def tables_of_def tables_ok_upd(1) split: option.split)

text \<open>The statements of the service itself: their identifiers are valid ones in quotes.\<close>

inductive safe_stmt :: "string \<Rightarrow> bool" where
  safe_create: "validIdent ds \<Longrightarrow> validIdent tbl \<Longrightarrow> fs \<noteq> [] \<Longrightarrow> list_all (\<lambda>f. validIdent (sf_Name f)) fs \<Longrightarrow>
     safe_stmt (create_stmt (sql_name ds tbl) fs)"
| safe_drop: "validIdent ds \<Longrightarrow> validIdent tbl \<Longrightarrow> safe_stmt (drop_stmt (sql_name ds tbl))"
| safe_insert: "validIdent ds \<Longrightarrow> validIdent tbl \<Longrightarrow> cols \<noteq> [] \<Longrightarrow> list_all validIdent cols \<Longrightarrow>
     safe_stmt (insert_stmt (sql_name ds tbl) cols)"

text \<open>A property of databases that such statements keep.\<close>

definition kept :: "'db sql_driver \<Rightarrow> ('db \<Rightarrow> bool) \<Rightarrow> bool" where
  "kept drv P \<longleftrightarrow> (\<forall>db stmt args. P db \<longrightarrow> safe_stmt stmt \<longrightarrow> P (fst (drv_exec drv db stmt args)))"

lemma keptD: "kept drv P \<Longrightarrow> P db \<Longrightarrow> safe_stmt stmt \<Longrightarrow> P (fst (drv_exec drv db stmt args))"
  by (simp add: kept_def)

lemma range_map_sub:
  assumes "keys_ok e" "(k, v) \<in> set (range_map e m)"
  shows "map_of m k = Some v"
proof -
  have "k \<in> set (map fst m)" "v = the (map_of m k)" using assms by (auto simp: range_map_def keys_ok_def)
  then show ?thesis by (cases "map_of m k") (simp_all add: map_of_eq_None_iff)
qed

definition good :: "('db \<Rightarrow> bool) \<Rightarrow> 'db bigquery \<Rightarrow> bool" where
  "good P s \<longleftrightarrow> bq_inv s \<and> P (bq_db s)"

lemma good_parts:
  "good P s \<longleftrightarrow> datasets_ok (map_of (bq_datasets s)) \<and> all_tables_ok (map_of (bq_tables s)) \<and> P (bq_db s)"
  by (simp add: good_def bq_inv_def)

lemma table_valid:
  assumes "good P s" "map_of (tables_of s ds) i = Some t"
  shows "validIdent ds" "validIdent i" "table_ok t"
proof -
  obtain ts where ts: "map_of (bq_tables s) ds = Some ts" "map_of ts i = Some t"
    using assms(2) by (simp add: tables_of_def split: option.splits)
  then show "validIdent ds" "validIdent i" "table_ok t"
    using assms(1) by (simp_all add: good_parts all_tables_ok_def tables_ok_def)
qed

lemma dataset_valid: "good P s \<Longrightarrow> map_of (bq_datasets s) ds = Some d \<Longrightarrow> validIdent ds"
  by (simp add: good_parts datasets_ok_def)

lemma createDataset_good: "good P s \<Longrightarrow> good P (snd (createDataset e r s))"
proof -
  assume g: "good P s"
  have upd: "good P (s\<lparr>bq_datasets := AList.update i d (bq_datasets s), bq_tables := AList.update i [] (bq_tables s)\<rparr>)"
    if "validIdent i" for i d
    using g that by (simp add: good_parts update_conv' datasets_ok_upd all_tables_ok_upd tables_ok_upd)
  show ?thesis
    by (simp add: createDataset_def Let_def g upd split: option.split prod.split)
qed

lemma drops_kept:
  assumes "kept (be_drv e) P" "validIdent ds" "\<forall>(t, x)\<in>set l. validIdent t" "P db"
  shows "P (fold (\<lambda>(t, x). exec_drop e ds t) l db)"
  using assms(3,4)
proof (induction l arbitrary: db)
  case (Cons a l)
  have "P (exec_drop e ds (fst a) db)"
    unfolding exec_drop_def
    by (rule keptD [OF assms(1) Cons.prems(2) safe_drop [OF assms(2)]]) (use Cons.prems(1) in \<open>simp add: case_prod_unfold\<close>)
  then show ?case using Cons by (simp add: case_prod_unfold)
qed simp

lemma datasetItem_good:
  assumes k: "kept (be_drv e) P" "keys_ok e" and g: "good P s"
  shows "good P (snd (datasetItem e r i s))"
proof (cases "map_of (bq_datasets s) i")
  case (Some d)
  let ?db = "fold (\<lambda>(t, _). exec_drop e i t) (range_map e (tables_of s i)) (bq_db s)"
  have v: "validIdent i" by (rule dataset_valid [OF g Some])
  have "\<forall>(t, x)\<in>set (range_map e (tables_of s i)). validIdent t"
    using table_valid(2) [OF g range_map_sub [OF k(2)]] by fast
  then have "P ?db" by (rule drops_kept [OF k(1) v]) (use g in \<open>simp add: good_def\<close>)
  then have "good P (s\<lparr>bq_datasets := AList.delete i (bq_datasets s), bq_db := ?db, bq_tables := AList.delete i (bq_tables s)\<rparr>)"
    using g by (simp add: good_parts delete_conv' datasets_ok_upd all_tables_ok_upd)
  then show ?thesis using Some g by (simp add: datasetItem_def split: meth.split)
qed (simp add: datasetItem_def g)

lemma create_table_good:
  assumes k: "kept (be_drv e) P" and g: "good P s" and ds: "map_of (bq_datasets s) ds = Some d"
  shows "good P (snd (create_table e r ds s))"
proof -
  have v: "validIdent ds" by (rule dataset_valid [OF g ds])
  have exec: "P (fst (createSQLTable e ds i fs (bq_db s)))" if "validIdent i" "list_all (\<lambda>f. validIdent (sf_Name f)) fs" for i fs
  proof (cases "fs = []")
    case False
    then have "P (fst (drv_exec (be_drv e) (bq_db s) (create_stmt (sql_name ds i) fs) []))"
      using that v False g by (intro keptD [OF k] safe_create) (simp_all add: good_def)
    then show ?thesis using False by (simp add: createSQLTable_def split: prod.split sum.split) fastforce
  qed (use g in \<open>simp add: createSQLTable_def good_def\<close>)
  have upd: "good P (s\<lparr>bq_db := db', bq_tables := AList.update ds (AList.update i t (tables_of s ds)) (bq_tables s)\<rparr>)"
    if "validIdent i" "P db'" "table_ok t" for i db' t
    using g v that tables_of_ok [of s ds] by (simp add: good_parts bq_inv_def update_conv' all_tables_ok_upd tables_ok_upd)
  have ok: "fs \<noteq> []" if "createSQLTable e ds i fs db = (db', None)" for i fs db db'
    using that by (auto simp: createSQLTable_def)
  show ?thesis
  proof (cases "r_json r")
    case (Some j)
    obtain i o1 where i: "fld_str ''tableId'' (fld_doc ''tableReference'' j) = (i, o1)" by fastforce
    obtain fs o2 where fs: "fld_arr dec_schemaField ''fields'' (fld_doc ''schema'' j) = (fs, o2)" by fastforce
    obtain db' er where c: "createSQLTable e ds i fs (bq_db s) = (db', er)" by fastforce
    show ?thesis
    proof (cases "validIdent i \<and> list_all (\<lambda>f. validIdent (sf_Name f)) fs")
      case True
      then have "P db'" using exec [of i fs] c by simp
      show ?thesis
      proof (cases er)
        case None
        have "fs \<noteq> []" by (rule ok) (use c None in simp)
        then show ?thesis using Some g True None upd [of i db'] \<open>P db'\<close>
          by (simp add: create_table_def Let_def i fs c table_ok_def)
      next
        case (Some msg)
        have "good P (s\<lparr>bq_db := db'\<rparr>)" using g \<open>P db'\<close> by (simp add: good_parts)
        then show ?thesis using \<open>r_json r = Some j\<close> g True Some by (simp add: create_table_def Let_def i fs c)
      qed
    next
      case False
      then show ?thesis using Some g by (auto simp: create_table_def Let_def i fs)
    qed
  qed (simp add: create_table_def g)
qed

lemma tableItem_good:
  assumes k: "kept (be_drv e) P" and g: "good P s"
  shows "good P (snd (tableItem e r ds tbl s))"
proof (cases "map_of (tables_of s ds) tbl")
  case (Some t)
  note v = table_valid [OF g Some]
  have "P (exec_drop e ds tbl (bq_db s))"
    unfolding exec_drop_def by (rule keptD [OF k _ safe_drop [OF v(1,2)]]) (use g in \<open>simp add: good_def\<close>)
  then have "good P (s\<lparr>bq_tables := AList.update ds (AList.delete tbl (tables_of s ds)) (bq_tables s), bq_db := exec_drop e ds tbl (bq_db s)\<rparr>)"
    using g v(1) tables_of_ok [of s ds] by (simp add: good_parts bq_inv_def update_conv' all_tables_ok_upd tables_ok_upd)
  then show ?thesis using Some g by (simp add: tableItem_def split: meth.split)
qed (simp add: tableItem_def g)

lemma tableCollection_good:
  "kept (be_drv e) P \<Longrightarrow> good P s \<Longrightarrow> good P (snd (tableCollection e r ds s))"
  using create_table_good by (fastforce simp: tableCollection_def split: meth.split)

lemma insert_row_kept:
  assumes "kept (be_drv e) P" "safe_stmt (insert_stmt n cols)" "P db"
  shows "P (fst (insert_row e n cols m db))"
proof -
  have "P (fst (drv_exec (be_drv e) db (insert_stmt n cols) args))" for args by (rule keptD [OF assms(1,3,2)])
  then show ?thesis using assms(3) by (simp add: insert_row_def Let_def split: prod.split sum.split) (metis fst_conv)
qed

lemma insert_rows_kept:
  assumes "kept (be_drv e) P" "safe_stmt (insert_stmt n cols)"
  shows "P db \<Longrightarrow> P (fst (insert_rows e n cols ms db))"
proof (induction ms arbitrary: db)
  case (Cons m ms)
  have "P (fst (insert_row e n cols m db))" by (rule insert_row_kept [OF assms Cons.prems])
  then show ?case using Cons.IH by (cases "insert_row e n cols m db"; cases "snd (insert_row e n cols m db)") simp_all
qed simp

lemma insertAll_good:
  assumes k: "kept (be_drv e) P" and g: "good P s"
  shows "good P (snd (insertAll e r ds tbl s))"
proof (cases "map_of (tables_of s ds) tbl")
  case (Some t)
  note v = table_valid [OF g Some]
  have safe: "safe_stmt (insert_stmt (sql_name ds tbl) (map sf_Name (bt_Fields t)))"
    using v by (intro safe_insert) (simp_all add: table_ok_def list_all_iff)
  have "P (fst (insert_rows e (sql_name ds tbl) (map sf_Name (bt_Fields t)) rows (bq_db s)))" for rows
    by (rule insert_rows_kept [OF k safe]) (use g in \<open>simp add: good_def\<close>)
  then have "good P (s\<lparr>bq_db := fst (insert_rows e (sql_name ds tbl) (map sf_Name (bt_Fields t)) rows (bq_db s))\<rparr>)" for rows
    using g by (simp add: good_parts)
  then show ?thesis using Some g
    by (simp add: insertAll_def split: option.split prod.split) (metis fst_conv)
qed (simp add: insertAll_def g)

definition is_query :: "http_req \<Rightarrow> bool" where
  "is_query r \<longleftrightarrow> length (bq_parts r) \<ge> 2 \<and> bq_parts r ! 1 = ''queries''"

lemma dispatch_good:
  assumes "kept (be_drv e) P" "keys_ok e" "good P s" "\<not> is_query r"
  shows "good P (snd (bq_dispatch e r s))"
proof -
  have "good P (snd (handleDatasets e r parts s))" for parts
    using assms by (simp add: handleDatasets_def createDataset_good datasetItem_good tableCollection_good tableItem_good insertAll_good)
  then show ?thesis using assms by (simp add: bq_dispatch_def Let_def is_query_def)
qed

text \<open>A session: requests one after the other, each with the clock and the map orders it meets.\<close>

fun bq_run :: "('db bq_env \<times> http_req) list \<Rightarrow> 'db bigquery \<Rightarrow> 'db bigquery" where
  "bq_run [] s = s"
| "bq_run ((e, r) # rs) s = bq_run rs (snd (bq_dispatch e r s))"

lemma bq_run_good:
  "\<forall>(e, r)\<in>set rs. be_drv e = drv \<and> keys_ok e \<and> \<not> is_query r \<Longrightarrow> kept drv P \<Longrightarrow> good P s \<Longrightarrow> good P (bq_run rs s)"
  by (induction rs s rule: bq_run.induct) (auto intro: dispatch_good)

section \<open>What reaches SQLite\<close>


definition log_driver :: "string list sql_driver" where
  "log_driver = \<lparr>drv_exec = (\<lambda>db stmt args. (db @ [stmt], Inr (Some 0, None))),
     drv_query = (\<lambda>db stmt args. (db, Inr \<lparr>rset_cols = [], rset_rows = [], rset_err = None\<rparr>))\<rparr>"

definition demo_fmt :: fmt_env where
  "demo_fmt = \<lparr>fmt_float_v = (\<lambda>x. x), fmt_float_g = (\<lambda>x. x), fmt_time = (\<lambda>_. [])\<rparr>"

definition demo_env :: "'db sql_driver \<Rightarrow> 'db bq_env" where
  "demo_env drv = \<lparr>be_drv = drv, be_fmt = demo_fmt, be_now = 0, be_keys = (\<lambda>ks. ks), be_argErr = (\<lambda>_. [])\<rparr>"

definition bq_req :: "string \<Rightarrow> json \<Rightarrow> http_req" where
  "bq_req path j = \<lparr>r_method = POST, r_path = ''/bigquery/v2/projects/p/'' @ path, r_query = [], r_header = [], r_host = [],
     r_tls = False, r_contentLength = 0, r_bytes = [], r_json = Some j\<rparr>"

definition new_dataset :: "string \<Rightarrow> json" where
  "new_dataset ds = JObj [(''datasetReference'', JObj [(''datasetId'', JStr ds)])]"

definition new_table :: "string \<Rightarrow> json" where
  "new_table tbl = JObj [(''tableReference'', JObj [(''tableId'', JStr tbl)]),
     (''schema'', JObj [(''fields'', JArr [JObj [(''name'', JStr ''x''), (''type'', JStr ''INT64'')]])])]"


section \<open>Inserting and selecting\<close>

text \<open>
  What SQLite documents of a table that exists under a name: an INSERT with a value for every column appends a row, in which a value
  is stored according to the type of its column, and a SELECT of everything returns the rows in order.  Names are compared without case.
\<close>

definition sqlite_rows :: "'db sql_driver \<Rightarrow> ('db \<Rightarrow> string \<Rightarrow> ((string \<times> string) list \<times> go_value list list) option)
    \<Rightarrow> (string \<Rightarrow> go_value \<Rightarrow> go_value) \<Rightarrow> bool" where
  "sqlite_rows drv contents stored \<longleftrightarrow>
     (\<forall>db n cols rows args. validIdent n \<longrightarrow> contents db (map lower_char n) = Some (cols, rows) \<longrightarrow> length args = length cols \<longrightarrow>
        (\<exists>db' info. drv_exec drv db (insert_stmt n (map fst cols)) args = (db', Inr info) \<and>
           contents db' (map lower_char n) = Some (cols, rows @ [map2 (\<lambda>c. stored (snd c)) cols args]))) \<and>
     (\<forall>db n cols rows. validIdent n \<longrightarrow> contents db (map lower_char n) = Some (cols, rows) \<longrightarrow>
        drv_query drv db (''SELECT * FROM '' @ go_quote n) [] = (db, Inr \<lparr>rset_cols = cols, rset_rows = rows, rset_err = None\<rparr>))"

definition table_cols :: "bq_table \<Rightarrow> (string \<times> string) list" where
  "table_cols t = map (\<lambda>f. (sf_Name f, sqlType (sf_Type f))) (bt_Fields t)"

definition stored_row :: "(string \<Rightarrow> go_value \<Rightarrow> go_value) \<Rightarrow> bq_table \<Rightarrow> (string \<times> json) list \<Rightarrow> go_value list" where
  "stored_row stored t m = map (\<lambda>f. stored (sqlType (sf_Type f)) (the (json_arg (row_value m (sf_Name f))))) (bt_Fields t)"

definition row_plain :: "bq_table \<Rightarrow> (string \<times> json) list \<Rightarrow> bool" where
  "row_plain t m \<longleftrightarrow> list_all (\<lambda>f. json_arg (row_value m (sf_Name f)) \<noteq> None) (bt_Fields t)"

lemma insert_rows_stored:
  assumes sql: "sqlite_rows (be_drv e) contents stored" and n: "validIdent n"
  shows "contents db (map lower_char n) = Some (table_cols t, rows) \<Longrightarrow> list_all (row_plain t) ms \<Longrightarrow>
    \<exists>db'. insert_rows e n (map sf_Name (bt_Fields t)) ms db = (db', None) \<and>
      contents db' (map lower_char n) = Some (table_cols t, rows @ map (stored_row stored t) ms)"
proof (induction ms arbitrary: db rows)
  case (Cons m ms)
  define args where "args = map (the \<circ> json_arg) (map (row_value m) (map sf_Name (bt_Fields t)))"
  have cols: "map fst (table_cols t) = map sf_Name (bt_Fields t)" by (simp add: table_cols_def)
  have "length args = length (table_cols t)" by (simp add: args_def table_cols_def)
  then obtain db1 info where db1: "drv_exec (be_drv e) db (insert_stmt n (map sf_Name (bt_Fields t))) args = (db1, Inr info)"
    and c1: "contents db1 (map lower_char n) = Some (table_cols t, rows @ [map2 (\<lambda>c. stored (snd c)) (table_cols t) args])"
    using sql n Cons.prems(1) unfolding sqlite_rows_def cols [symmetric] by blast
  have "map2 (\<lambda>c. stored (snd c)) (table_cols t) args = stored_row stored t m"
    by (simp add: table_cols_def args_def stored_row_def zip_map_map zip_same_conv_map)
  then have c2: "contents db1 (map lower_char n) = Some (table_cols t, rows @ [stored_row stored t m])" using c1 by simp
  have "insert_row e n (map sf_Name (bt_Fields t)) m db = (db1, None)"
    using Cons.prems(2) db1 by (auto simp: insert_row_def Let_def args_def row_plain_def list_ex_iff list_all_iff comp_def)
  moreover obtain db' where "insert_rows e n (map sf_Name (bt_Fields t)) ms db1 = (db', None)"
    "contents db' (map lower_char n) = Some (table_cols t, (rows @ [stored_row stored t m]) @ map (stored_row stored t) ms)"
    using Cons.IH [OF c2] Cons.prems(2) by auto
  ultimately show ?case by simp
qed simp

text \<open>Statements without parentheses have no calls to rewrite.\<close>

lemma open_match_paren: "open_match w s = Some r \<Longrightarrow> CHR ''('' \<in> set s"
proof -
  assume "open_match w s = Some r"
  then obtain t where t: "fold_match w s = Some t" "dropWhile re_space t = CHR ''('' # r"
    by (auto simp: open_match_def split: option.splits list.splits if_splits)
  have "set t \<subseteq> set s" using t(1)
  proof (induction w s rule: fold_match.induct)
    case (3 p ps c s)
    then show ?case by (auto split: if_splits dest: list.set_sel(2))
  qed auto
  moreover have "CHR ''('' \<in> set t" using t(2) by (metis list.set_intros(1) set_dropWhileD)
  ultimately show ?thesis by blast
qed

lemma replace_from_none: "(\<And>u. set u \<subseteq> set s \<Longrightarrow> m u = None) \<Longrightarrow> replace_from m s 0 = s"
proof (induction s)
  case (Cons c s)
  have "m (c # s) = None" by (rule Cons.prems) simp
  moreover have "replace_from m s 0 = s" by (rule Cons.IH) (rule Cons.prems, auto)
  ultimately show ?case by simp
qed simp

lemma find_concat_none: "CHR ''('' \<notin> set s \<Longrightarrow> find_concat b s = None"
proof (induction b s rule: find_concat.induct)
  case (2 b c s)
  have "open_match ''CONCAT'' (c # s) = None" using 2(2) open_match_paren by (meson not_Some_eq)
  then show ?case using 2 by simp
qed simp

lemma no_calls: "CHR ''('' \<notin> set q \<Longrightarrow> translateBQFunctions q = q"
proof -
  assume q: "CHR ''('' \<notin> set q"
  have n: "open_match w u = None" if "set u \<subseteq> set q" for w u using q that open_match_paren by (meson not_Some_eq subsetD)
  have "rewriteCurrentTimestamp q = q" unfolding rewriteCurrentTimestamp_def replace_all_def
    by (rule replace_from_none) (simp add: timestamp_match_def n)
  moreover have "rewriteSafeCast q = q" unfolding rewriteSafeCast_def replace_all_def
    by (rule replace_from_none) (simp add: safe_cast_match_def n)
  moreover have "rewriteConcat q = q" by (subst rewriteConcat.simps) (simp add: concat_step_def find_concat_none q)
  ultimately show ?thesis by (simp add: translateBQFunctions_def)
qed

lemma validIdent_sql_name: "validIdent ds \<Longrightarrow> validIdent tbl \<Longrightarrow> validIdent (sql_name ds tbl)"
  by (simp add: validIdent_def sql_name_def)

lemma valid_seg: "validIdent x \<Longrightarrow> ref_start (hd x) \<Longrightarrow> seg_ok x"
  by (auto simp: validIdent_def seg_ok_def ref_cont_def ref_start_def list_all_iff)

lemma valid_bytes: "validIdent x \<Longrightarrow> CHR ''('' \<notin> set x"
  by (auto simp: validIdent_def list_all_iff byte_in_def is_digit_def)

lemma translate_select:
  assumes "validIdent ds" "validIdent tbl" "ref_start (hd ds)" "ref_start (hd tbl)" "ds \<in> set (knownDatasets s)"
  shows "translateBQ s (''SELECT * FROM '' @ ds @ ''.'' @ tbl) = ''SELECT * FROM '' @ go_quote (sql_name ds tbl)"
proof -
  define parts where "parts = [BqText ''SELECT * FROM '', BqRef False [ds, tbl]]"
  have ok: "bq_ok parts"
    using valid_seg assms by (simp add: parts_def ref_cont_def ref_start_def is_digit_def byte_in_def)
  have show_parts: "concat (map show_bq parts) = ''SELECT * FROM '' @ ds @ ''.'' @ tbl" by (simp add: parts_def)
  have "translateBQFunctions (''SELECT * FROM '' @ ds @ ''.'' @ tbl) = ''SELECT * FROM '' @ ds @ ''.'' @ tbl"
    by (rule no_calls) (use valid_bytes assms in simp)
  moreover have "translateBQTables (knownDatasets s) (concat (map show_bq parts)) = ''SELECT * FROM '' @ go_quote (sql_name ds tbl)"
  proof -
    have r: "replace_all (ref_replace k) (concat (map show_bq parts)) = concat (map (bq_sqlite k) parts)" for k
      using replace_text [of "''SELECT * FROM ''" "show_bq (BqRef False [ds, tbl])" k] replace_ref [of "[ds, tbl]" "[]" k False] ok
      by (simp add: parts_def replace_all_def)
    show ?thesis unfolding translateBQTables_def r using assms(5) by (simp add: parts_def)
  qed
  ultimately show ?thesis by (simp add: translateBQ_def show_parts)
qed


text \<open>A small driver with tables as lists of rows, for concrete runs.\<close>

type_synonym row_db = "(string \<times> ((string \<times> string) list \<times> go_value list list)) list"

definition quoted_name :: "string \<Rightarrow> string" where
  "quoted_name s = takeWhile (\<lambda>c. c \<noteq> CHR 0x22) (tl s)"

definition row_exec :: "row_db \<Rightarrow> string \<Rightarrow> go_value list \<Rightarrow> row_db \<times> (string + int option \<times> int option)" where
  "row_exec db stmt args = (let n = map lower_char (quoted_name (drop 12 stmt)) in
     case map_of db n of None \<Rightarrow> (db, Inl ''no such table'')
     | Some (cols, rows) \<Rightarrow> (AList.update n (cols, rows @ [args]) db, Inr (Some 1, None)))"

definition row_query :: "row_db \<Rightarrow> string \<Rightarrow> go_value list \<Rightarrow> row_db \<times> (string + result_set)" where
  "row_query db stmt args = (let n = map lower_char (quoted_name (drop 14 stmt)) in
     case map_of db n of None \<Rightarrow> (db, Inl ''no such table'')
     | Some (cols, rows) \<Rightarrow> (db, Inr \<lparr>rset_cols = cols, rset_rows = rows, rset_err = None\<rparr>))"

definition row_driver :: "row_db sql_driver" where
  "row_driver = \<lparr>drv_exec = row_exec, drv_query = row_query\<rparr>"

lemma quote_valid: "validIdent n \<Longrightarrow> concat (map quote_char n) = n \<and> CHR 0x22 \<notin> set n"
proof -
  assume "validIdent n"
  then have "list_all (\<lambda>c. quote_char c = [c] \<and> c \<noteq> CHR 0x22) n"
    unfolding validIdent_def list_all_iff by (auto simp: quote_char_def byte_in_def is_digit_def)
  then show ?thesis by (induction n) auto
qed

lemma quoted_name_quote: "validIdent n \<Longrightarrow> quoted_name (go_quote n @ s) = n"
  using quote_valid [of n] by (auto simp: quoted_name_def go_quote_def takeWhile_append)

lemma row_driver_ok: "sqlite_rows row_driver (\<lambda>db. map_of db) (\<lambda>_ v. v)"
proof -
  have id: "map2 (\<lambda>c v. v) cols args = args" if "length args = length (cols :: (string \<times> string) list)" for cols and args :: "go_value list"
    using that by (induction args cols rule: list_induct2) auto
  have ins: "quoted_name (drop 12 (insert_stmt n cols)) = n" if "validIdent n" for n cols
  proof -
    obtain t where "drop 12 (insert_stmt n cols) = go_quote n @ t" by (simp add: insert_stmt_def)
    then show ?thesis by (simp add: quoted_name_quote that)
  qed
  have sel: "quoted_name (drop 14 (''SELECT * FROM '' @ go_quote n)) = n" if "validIdent n" for n
    using quoted_name_quote [OF that, of "[]"] by simp
  have "row_exec db (insert_stmt n (map fst cols)) args = (AList.update (map lower_char n) (cols, rows @ [args]) db, Inr (Some 1, None))"
    if "validIdent n" "map_of db (map lower_char n) = Some (cols, rows)" for db n cols rows args
    by (simp add: row_exec_def ins that)
  moreover have "row_query db (''SELECT * FROM '' @ go_quote n) [] = (db, Inr \<lparr>rset_cols = cols, rset_rows = rows, rset_err = None\<rparr>)"
    if "validIdent n" "map_of db (map lower_char n) = Some (cols, rows)" for db n cols rows
    unfolding row_query_def sel [OF that(1)] by (simp add: that(2))
  ultimately show ?thesis
    unfolding sqlite_rows_def row_driver_def sql_driver.simps by (simp add: id update_conv')
qed

definition users_table :: bq_table where
  "users_table = \<lparr>bt_ID = ''users'', bt_DatasetID = ''shop'', bt_Kind = ''bigquery#table'',
     bt_Fields = [\<lparr>sf_Name = ''x'', sf_Type = ''INT64'', sf_Mode = []\<rparr>], bt_CreateTime = 0\<rparr>"

definition shop_state :: "row_db bigquery" where
  "shop_state = \<lparr>bq_project = ''p'', bq_db = [(''shop__users'', (table_cols users_table, [[VInt 1]]))],
     bq_datasets = [(''shop'', \<lparr>bd_ID = ''shop'', bd_Kind = ''bigquery#dataset'', bd_CreateTime = 0\<rparr>)],
     bq_tables = [(''shop'', [(''users'', users_table)])]\<rparr>"

definition insert_body :: json where
  "insert_body = JObj [(''rows'', JArr [JObj [(''json'', JObj [(''x'', JStr ''seven'')])]])]"

definition select_body :: json where
  "select_body = JObj [(''query'', JStr ''SELECT * FROM shop.users'')]"


section \<open>Names that collide\<close>

text \<open>
  What SQLite documents of creating tables: it fails exactly when a table of that name, compared without case, exists.
\<close>

definition sqlite_creates :: "'db sql_driver \<Rightarrow> ('db \<Rightarrow> string \<Rightarrow> bool) \<Rightarrow> bool" where
  "sqlite_creates drv exist \<longleftrightarrow> (\<forall>db n fs. validIdent n \<longrightarrow> fs \<noteq> [] \<longrightarrow>
     (if exist db (map lower_char n) then (\<exists>er. drv_exec drv db (create_stmt n fs) [] = (db, Inl er))
      else (\<exists>db' info. drv_exec drv db (create_stmt n fs) [] = (db', Inr info) \<and> exist db' (map lower_char n))))"

text \<open>
  Two tables of different data sets share a table of SQLite when the names of data set and table, joined by two underscores, are
  the same: the second cannot be created, although no table of its name is in its data set.
\<close>

theorem bq_names_collide:
  assumes "sqlite_creates (be_drv e) exist" "bq_inv s"
    and nm: "sql_name ds1 t1 = sql_name ds2 t2" "validIdent t1" "validIdent t2" "ds1 \<noteq> ds2"
    and dd: "map_of (bq_datasets s) ds1 = Some d1" "map_of (bq_datasets s) ds2 = Some d2"
    and tb: "map_of (tables_of s ds1) t1 = None" "map_of (tables_of s ds2) t2 = None"
    and fresh: "\<not> exist (bq_db s) (map lower_char (sql_name ds1 t1))"
    and req: "bq_parts r1 = [p, ''datasets'', ds1, ''tables'']" "r_method r1 = POST" "r_json r1 = Some (new_table t1)"
    "bq_parts r2 = [p, ''datasets'', ds2, ''tables'']" "r_method r2 = POST" "r_json r2 = Some (new_table t2)"
  shows "rs_code (fst (bq_dispatch e r1 s)) = 200 \<and> rs_code (fst (bq_dispatch e r2 (snd (bq_dispatch e r1 s)))) = 400"
proof -
  define fs where "fs = [\<lparr>sf_Name = ''x'', sf_Type = ''INT64'', sf_Mode = []\<rparr>]"
  have v: "validIdent (sql_name ds1 t1)"
    using assms(2) dd(1) nm(2) by (intro validIdent_sql_name) (simp_all add: bq_inv_def datasets_ok_def)
  have x: "validIdent ''x''" by (simp add: validIdent_def byte_in_def)
  have body: "fld_str ''tableId'' (fld_doc ''tableReference'' (new_table t)) = (t, True)"
    "fld_arr dec_schemaField ''fields'' (fld_doc ''schema'' (new_table t)) = (fs, True)" "is_struct_doc (new_table t)"
    "is_struct_doc (fld_doc ''tableReference'' (new_table t))" "is_struct_doc (fld_doc ''schema'' (new_table t))" for t
    by (simp_all add: new_table_def fld_doc_def fld_str_def fld_arr_def dec_schemaField_def eqFold_def lower_char_def fs_def)
  have ne: "t1 \<noteq> []" "t2 \<noteq> []" using nm(2,3) by (auto simp: validIdent_def)
  have fs_ok: "list_all (\<lambda>f. validIdent (sf_Name f)) fs" "fs \<noteq> []" using x by (simp_all add: fs_def)
  obtain db' info where c1: "drv_exec (be_drv e) (bq_db s) (create_stmt (sql_name ds1 t1) fs) [] = (db', Inr info)"
    and ex: "exist db' (map lower_char (sql_name ds1 t1))"
    using assms(1) fresh v fs_ok(2) unfolding sqlite_creates_def by meson
  obtain er where c2: "drv_exec (be_drv e) db' (create_stmt (sql_name ds2 t2) fs) [] = (db', Inl er)"
    using assms(1) ex v fs_ok(2) unfolding sqlite_creates_def nm(1) by meson
  define tab where "tab = \<lparr>bt_ID = t1, bt_DatasetID = ds1, bt_Kind = ''bigquery#table'', bt_Fields = fs, bt_CreateTime = be_now e\<rparr>"
  define s1 where "s1 = s\<lparr>bq_db := db', bq_tables := AList.update ds1 (AList.update t1 tab (tables_of s ds1)) (bq_tables s)\<rparr>"
  have d1: "bq_dispatch e r1 s = (respJSON 200 (enc_table tab), s1)"
    by (simp add: bq_dispatch_def req dd tb handleDatasets_def tableCollection_def create_table_def Let_def body ne nm(2) fs_ok
        createSQLTable_def c1 s1_def tab_def)
  have "map_of (tables_of s1 ds2) t2 = None" using nm(4) tb(2) by (simp add: s1_def tables_of_def update_conv')
  moreover have "map_of (bq_datasets s1) ds2 = Some d2" "bq_db s1 = db'" using dd(2) by (simp_all add: s1_def)
  ultimately have "rs_code (fst (bq_dispatch e r2 s1)) = 400"
    by (simp add: bq_dispatch_def req handleDatasets_def tableCollection_def create_table_def Let_def body ne nm(3) fs_ok
        createSQLTable_def c2)
  then show ?thesis by (simp add: d1)
qed

definition name_driver :: "string list sql_driver" where
  "name_driver = \<lparr>drv_exec = (\<lambda>db stmt args. let n = map lower_char (quoted_name (drop 13 stmt)) in
       if n \<in> set db then (db, Inl ''table already exists'') else (n # db, Inr (Some 0, None))),
     drv_query = (\<lambda>db stmt args. (db, Inr \<lparr>rset_cols = [], rset_rows = [], rset_err = None\<rparr>))\<rparr>"

lemma name_driver_ok: "sqlite_creates name_driver (\<lambda>db n. n \<in> set db)"
proof -
  have "quoted_name (drop 13 (create_stmt n fs)) = n" if "validIdent n" for n fs
  proof -
    obtain t where "drop 13 (create_stmt n fs) = go_quote n @ t" by (simp add: create_stmt_def)
    then show ?thesis by (simp add: quoted_name_quote that)
  qed
  then show ?thesis by (simp add: sqlite_creates_def name_driver_def)
qed

definition two_datasets :: "string list bigquery" where
  "two_datasets = \<lparr>bq_project = ''p'', bq_db = [],
     bq_datasets = [(''a'', \<lparr>bd_ID = ''a'', bd_Kind = ''bigquery#dataset'', bd_CreateTime = 0\<rparr>),
       (''a__b'', \<lparr>bd_ID = ''a__b'', bd_Kind = ''bigquery#dataset'', bd_CreateTime = 0\<rparr>)],
     bq_tables = [(''a'', []), (''a__b'', [])]\<rparr>"

theorem bq_names_collide_witness:
  "rs_code (fst (bq_dispatch (demo_env name_driver) (bq_req ''datasets/a/tables'' (new_table ''b__c'')) two_datasets)) = 200 \<and>
   rs_code (fst (bq_dispatch (demo_env name_driver) (bq_req ''datasets/a__b/tables'' (new_table ''c''))
     (snd (bq_dispatch (demo_env name_driver) (bq_req ''datasets/a/tables'' (new_table ''b__c'')) two_datasets)))) = 400"
proof (rule bq_names_collide)
  show "sqlite_creates (be_drv (demo_env name_driver)) (\<lambda>db n. n \<in> set db)" by (simp add: demo_env_def name_driver_ok)
  show "bq_inv two_datasets"
    by (simp add: bq_inv_def two_datasets_def datasets_ok_def all_tables_ok_def tables_ok_def validIdent_def byte_in_def)
  show "sql_name ''a'' ''b__c'' = sql_name ''a__b'' ''c''" by (simp add: sql_name_def)
  show "validIdent ''b__c''" "validIdent ''c''" by (simp_all add: validIdent_def byte_in_def)
  show "''a'' \<noteq> ''a__b''" by simp
  show "map_of (bq_datasets two_datasets) ''a'' = Some \<lparr>bd_ID = ''a'', bd_Kind = ''bigquery#dataset'', bd_CreateTime = 0\<rparr>"
    "map_of (bq_datasets two_datasets) ''a__b'' = Some \<lparr>bd_ID = ''a__b'', bd_Kind = ''bigquery#dataset'', bd_CreateTime = 0\<rparr>"
    "map_of (tables_of two_datasets ''a'') ''b__c'' = None" "map_of (tables_of two_datasets ''a__b'') ''c'' = None"
    "map lower_char (sql_name ''a'' ''b__c'') \<notin> set (bq_db two_datasets)"
    by (simp_all add: two_datasets_def tables_of_def)
  show "bq_parts (bq_req ''datasets/a/tables'' (new_table ''b__c'')) = [''p'', ''datasets'', ''a'', ''tables'']"
    "bq_parts (bq_req ''datasets/a__b/tables'' (new_table ''c'')) = [''p'', ''datasets'', ''a__b'', ''tables'']"
    by (simp_all add: bq_parts_def bq_req_def trimPrefix_def)
qed (simp_all add: bq_req_def)

end
