(* ===== verification/Cloud_Sql.thy ===== *)
theory Cloud_Sql
  imports Resource_Codec Httpresp Config Go_Time
begin

text \<open>
  Service \<^verbatim>\<open>internal/services/cloudsql\<close>: the admin surface of Cloud SQL.  An instance is a document in the store and a running
  wire listener, which serves a SQLite database named by the project and the instance.  The record \<open>sql_host\<close> is what the
  driver and the operating system answer while an instance starts.  The listeners of packages \<^verbatim>\<open>pgwire\<close> and \<^verbatim>\<open>mysqlwire\<close> are
  kept as \<open>wire_listener\<close>; \<open>cs_started\<close> holds every listener that was ever started, by number, so that one that is open
  and that nobody can stop any more can be told.
\<close>

section \<open>Data\<close>

definition nsInstances :: string where "nsInstances = ''cloudsql/instances''"

lemmas [ns_defs] = nsInstances_def

record sql_instance =
  in_Name :: string
  in_Project :: string
  in_DatabaseVersion :: string
  in_State :: string
  in_CreateTime :: time
  in_Engine :: string
  in_Database :: string
  in_Port :: int
  in_Host :: string

definition enc_instance :: "sql_instance \<Rightarrow> json" where
  "enc_instance i = JObj ([(''name'', JStr (in_Name i)), (''project'', JStr (in_Project i)),
     (''databaseVersion'', JStr (in_DatabaseVersion i)), (''state'', JStr (in_State i)),
     (''createTime'', JTime (in_CreateTime i))] @
     omit (in_Engine i = []) ''engine'' (JStr (in_Engine i)) @ omit (in_Database i = []) ''database'' (JStr (in_Database i)) @
     omit (in_Port i = 0) ''port'' (JNum (in_Port i)) @ omit (in_Host i = []) ''host'' (JStr (in_Host i)))"

definition dec_instance :: "(string \<Rightarrow> time option) \<Rightarrow> json \<Rightarrow> sql_instance \<times> bool" where
  "dec_instance rfc j = (let (n, o1) = fld_str ''name'' j; (p, o2) = fld_str ''project'' j; (v, o3) = fld_str ''databaseVersion'' j;
       (st, o4) = fld_str ''state'' j; (t, o5) = fld_time rfc ''createTime'' j; (en, o6) = fld_str ''engine'' j;
       (d, o7) = fld_str ''database'' j; (po, o8) = fld_int ''port'' j; (h, o9) = fld_str ''host'' j in
     (\<lparr>in_Name = n, in_Project = p, in_DatabaseVersion = v, in_State = st, in_CreateTime = t, in_Engine = en, in_Database = d,
        in_Port = po, in_Host = h\<rparr>,
      is_struct_doc j \<and> o1 \<and> o2 \<and> o3 \<and> o4 \<and> o5 \<and> o6 \<and> o7 \<and> o8 \<and> o9))"

fun unmarshal_instance :: "(string \<Rightarrow> time option) \<Rightarrow> blob \<Rightarrow> sql_instance \<times> bool" where
  "unmarshal_instance rfc (JsonB j) = dec_instance rfc j"
| "unmarshal_instance rfc (RawB _) = (fst (dec_instance rfc JNull), False)"

definition keyFor :: "string \<Rightarrow> string \<Rightarrow> string" where
  "keyFor project name = ''projects/'' @ project @ ''/instances/'' @ name"

definition instance_key :: "sql_instance \<Rightarrow> string" where
  "instance_key i = keyFor (in_Project i) (in_Name i)"

definition defaultDatabaseVersion :: "string \<Rightarrow> string" where
  "defaultDatabaseVersion engine = (if engine = ''mysql'' then ''MYSQL_8_0'' else ''POSTGRES_15'')"

section \<open>Listeners\<close>

datatype wire = PgWire | MysqlWire

record wire_listener =
  wl_wire :: wire
  wl_name :: string
  wl_database :: string
  wl_addr :: string
  wl_dsn :: string
  wl_bound :: string
  wl_open :: bool

record cloudsql =
  cs_listeners :: "(string \<times> nat) list"
  cs_started :: "wire_listener list"

text \<open>
  Opening and pinging a data source, reading a file, executing statements on a data source, and listening on an address, which
  gives the address that was bound.
\<close>

record sql_host =
  sh_open :: "string \<Rightarrow> string option"
  sh_ping :: "string \<Rightarrow> string option"
  sh_readFile :: "string \<Rightarrow> string + string"
  sh_exec :: "string \<Rightarrow> string \<Rightarrow> string option"
  sh_listen :: "string \<Rightarrow> string + string"

definition wire_name :: "wire \<Rightarrow> string" where
  "wire_name k = (case k of PgWire \<Rightarrow> ''pgwire'' | MysqlWire \<Rightarrow> ''mysqlwire'')"

text \<open>\<^verbatim>\<open>NewListener\<close> and \<^verbatim>\<open>Start\<close> of the two packages, and \<^verbatim>\<open>Stop\<close>.\<close>

definition NewListener :: "wire \<Rightarrow> string \<Rightarrow> string \<Rightarrow> string \<Rightarrow> string \<Rightarrow> wire_listener" where
  "NewListener k name database addr dsn =
     \<lparr>wl_wire = k, wl_name = name, wl_database = database, wl_addr = addr, wl_dsn = dsn, wl_bound = [], wl_open = False\<rparr>"

definition listener_Start :: "sql_host \<Rightarrow> wire_listener \<Rightarrow> string + wire_listener" where
  "listener_Start h l = (if wl_open l then Inr l
     else (case sh_listen h (wl_addr l) of
        Inl er \<Rightarrow> Inl (wire_name (wl_wire l) @ '' listen '' @ wl_addr l @ '': '' @ er)
      | Inr a \<Rightarrow> Inr (l\<lparr>wl_bound := a, wl_open := True\<rparr>)))"

definition listener_Stop :: "wire_listener \<Rightarrow> wire_listener" where
  "listener_Stop l = l\<lparr>wl_open := False\<rparr>"

definition engine_wire :: "string \<Rightarrow> wire" where
  "engine_wire engine = (if engine = ''mysql'' then MysqlWire else PgWire)"

definition startListener :: "sql_host \<Rightarrow> string \<Rightarrow> string \<Rightarrow> string \<Rightarrow> string \<Rightarrow> string \<Rightarrow> string + wire_listener" where
  "startListener h engine name database addr dsn = listener_Start h (NewListener (engine_wire engine) name database addr dsn)"

text \<open>The digits after the last colon of an address.\<close>

definition portFromAddr :: "string \<Rightarrow> int" where
  "portFromAddr addr = (case cut_last (CHR '':'') addr of None \<Rightarrow> 0
     | Some (_, p) \<Rightarrow> if list_all is_digit p then foldl (\<lambda>n c. wrap64 (n * 10 + int (digit_val c))) 0 p else 0)"

definition dsn :: "string \<Rightarrow> string \<Rightarrow> string" where
  "dsn project name = ''file:cloudsql_'' @ project @ ''_'' @ name @ ''?mode=memory&cache=shared''"

text \<open>The checks and steps before the listener starts; the error of the first that fails.\<close>

definition open_database :: "sql_host \<Rightarrow> string \<Rightarrow> string \<Rightarrow> string option" where
  "open_database h d seedPath = (case sh_open h d of Some er \<Rightarrow> Some (''open sqlite: '' @ er)
     | None \<Rightarrow> (case sh_ping h d of Some er \<Rightarrow> Some (''ping sqlite: '' @ er)
        | None \<Rightarrow> if seedPath = [] then None
            else (case sh_readFile h seedPath of Inl er \<Rightarrow> Some (''read seed '' @ seedPath @ '': '' @ er)
             | Inr sql \<Rightarrow> map_option (\<lambda>er. ''apply seed: '' @ er) (sh_exec h d sql))))"

definition startInstance :: "sql_host \<Rightarrow> sql_instance \<Rightarrow> string \<Rightarrow> cloudsql \<Rightarrow> string + (sql_instance \<times> cloudsql)" where
  "startInstance h body seedPath c =
     (if in_Engine body \<notin> {[], ''sqlite'', ''mysql''} then Inl (''engine '' @ go_quote (in_Engine body) @ '' not supported'')
      else let d = dsn (in_Project body) (in_Name body) in
        (case open_database h d seedPath of Some er \<Rightarrow> Inl er
         | None \<Rightarrow> (case startListener h (in_Engine body) (in_Name body) (in_Database body) (''127.0.0.1:'' @ itoai (in_Port body)) d of
             Inl er \<Rightarrow> Inl er
           | Inr l \<Rightarrow> Inr (body\<lparr>in_Host := ''127.0.0.1'', in_Port := portFromAddr (wl_bound l)\<rparr>,
               c\<lparr>cs_started := cs_started c @ [l],
                 cs_listeners := AList.update (instance_key body) (length (cs_started c)) (cs_listeners c)\<rparr>))))"

definition stop_at :: "nat \<Rightarrow> wire_listener list \<Rightarrow> wire_listener list" where
  "stop_at i ls = (if i < length ls then ls[i := listener_Stop (ls ! i)] else ls)"

definition stopInstance :: "string \<Rightarrow> cloudsql \<Rightarrow> cloudsql" where
  "stopInstance key c = (let c' = c\<lparr>cs_listeners := AList.delete key (cs_listeners c)\<rparr> in
     case map_of (cs_listeners c) key of None \<Rightarrow> c' | Some i \<Rightarrow> c'\<lparr>cs_started := stop_at i (cs_started c)\<rparr>)"

definition cloudsql_Stop :: "cloudsql \<Rightarrow> cloudsql" where
  "cloudsql_Stop c = c\<lparr>cs_listeners := [], cs_started := fold (\<lambda>(_, i). stop_at i) (cs_listeners c) (cs_started c)\<rparr>"

section \<open>Starting the service\<close>

definition configured_instance :: "Config \<Rightarrow> time \<Rightarrow> nat \<Rightarrow> CloudSQLInstance \<Rightarrow> sql_instance" where
  "configured_instance cfg now i x =
     (let base = CloudSQL_BasePort (Services cfg);
          port = (if csql_Port x = 0 \<and> 0 < base then wrap64 (base + int i) else csql_Port x);
          eng = (if csql_Engine x = [] then ''sqlite'' else csql_Engine x)
      in \<lparr>in_Name = csql_Name x, in_Project = Project cfg, in_DatabaseVersion = defaultDatabaseVersion eng, in_State = ''RUNNABLE'',
          in_CreateTime = now, in_Engine = eng, in_Database = csql_Database x, in_Port = port, in_Host = []\<rparr>)"

definition store_instance :: "sql_instance \<Rightarrow> mem \<Rightarrow> mem" where
  "store_instance b s = (case Put s nsInstances (instance_key b) (JsonB (enc_instance b)) of Inl _ \<Rightarrow> s | Inr s' \<Rightarrow> s')"

fun seed_instances :: "(nat \<Rightarrow> sql_host) \<Rightarrow> (nat \<Rightarrow> time) \<Rightarrow> Config \<Rightarrow> nat \<Rightarrow> CloudSQLInstance list \<Rightarrow> mem \<Rightarrow> cloudsql
    \<Rightarrow> (string + unit) \<times> mem \<times> cloudsql" where
  "seed_instances h now cfg i [] s c = (Inr (), s, c)"
| "seed_instances h now cfg i (x # xs) s c = (case startInstance (h i) (configured_instance cfg (now i) i x) (csql_Seed x) c of
       Inl er \<Rightarrow> (Inl (''init cloudsql instance '' @ csql_Name x @ '': '' @ er), s, c)
     | Inr (b, c') \<Rightarrow> seed_instances h now cfg (Suc i) xs (store_instance b s) c')"

definition cloudsql_New :: "(nat \<Rightarrow> sql_host) \<Rightarrow> (nat \<Rightarrow> time) \<Rightarrow> Config \<Rightarrow> mem \<Rightarrow> (string + unit) \<times> mem \<times> cloudsql" where
  "cloudsql_New h now cfg s = seed_instances h now cfg 0 (CloudSQL_Instances (Services cfg)) s \<lparr>cs_listeners = [], cs_started = []\<rparr>"

section \<open>Handlers\<close>

type_synonym csql_result = "http_resp \<times> mem \<times> cloudsql"

text \<open>The instance a POST asks for, with the defaults filled in.\<close>

definition posted_instance :: "time \<Rightarrow> string \<Rightarrow> sql_instance \<Rightarrow> sql_instance" where
  "posted_instance now project body =
     (let eng = (if in_Engine body = [] then ''sqlite'' else in_Engine body) in
      body\<lparr>in_Project := project, in_Engine := eng,
        in_DatabaseVersion := (if in_DatabaseVersion body = [] then defaultDatabaseVersion eng else in_DatabaseVersion body),
        in_State := ''RUNNABLE'', in_CreateTime := now\<rparr>)"

definition create_instance :: "sql_host \<Rightarrow> sql_instance \<Rightarrow> mem \<Rightarrow> cloudsql \<Rightarrow> csql_result" where
  "create_instance h body s c = (case startInstance h body [] c of
     Inl er \<Rightarrow> (respErr 500 (''start instance: '' @ er), s, c)
   | Inr (b, c') \<Rightarrow> (respJSON 200 (enc_instance b), store_instance b s, c'))"

definition csql_collection :: "(string \<Rightarrow> time option) \<Rightarrow> sql_host \<Rightarrow> go_env \<Rightarrow> http_req \<Rightarrow> string \<Rightarrow> mem \<Rightarrow> cloudsql \<Rightarrow> csql_result" where
  "csql_collection rfc h e r project s c = (case r_method r of
     POST \<Rightarrow> (case r_json r of None \<Rightarrow> (respErr 400 ''invalid json'', s, c)
       | Some j \<Rightarrow> (let (b0, ok) = dec_instance rfc j in
           if \<not> ok then (respErr 400 ''invalid json'', s, c)
           else if in_Name b0 = [] then (respErr 400 ''name required'', s, c)
           else let body = posted_instance (e_now e 0) project b0 in
             (case Get s nsInstances (keyFor project (in_Name body)) of
                Inr _ \<Rightarrow> (respErr 409 ''instance exists'', s, c)
              | Inl _ \<Rightarrow> create_instance h body s c)))
   | GET \<Rightarrow> (let all = (case List s nsInstances (''projects/'' @ project @ ''/instances/'') of Inl _ \<Rightarrow> [] | Inr l \<Rightarrow> l)
       in (respJSON 200 (JObj [(''items'', JArr (map enc_instance (decoded (unmarshal_instance rfc) (e_range e all))))]), s, c))
   | _ \<Rightarrow> (methodNotAllowed, s, c))"

definition csql_item :: "http_req \<Rightarrow> string \<Rightarrow> string \<Rightarrow> mem \<Rightarrow> cloudsql \<Rightarrow> csql_result" where
  "csql_item r project name s c = (let key = keyFor project name in
     case r_method r of
       GET \<Rightarrow> (case Get s nsInstances key of
           Inl er \<Rightarrow> if er = ErrNotFound then (respErr 404 ''instance not found'', s, c) else (write_raw (RawB []), s, c)
         | Inr d \<Rightarrow> (write_raw d, s, c))
     | DELETE \<Rightarrow> (case Get s nsInstances key of
           Inl er \<Rightarrow> if er = ErrNotFound then (respErr 404 ''instance not found'', s, c)
             else (header_only 200, (case Delete s nsInstances key of Inl _ \<Rightarrow> s | Inr s' \<Rightarrow> s'), stopInstance key c)
         | Inr _ \<Rightarrow> (header_only 200, (case Delete s nsInstances key of Inl _ \<Rightarrow> s | Inr s' \<Rightarrow> s'), stopInstance key c))
     | _ \<Rightarrow> (methodNotAllowed, s, c))"

definition csql_dispatch :: "(string \<Rightarrow> time option) \<Rightarrow> sql_host \<Rightarrow> go_env \<Rightarrow> http_req \<Rightarrow> mem \<Rightarrow> cloudsql \<Rightarrow> csql_result" where
  "csql_dispatch rfc h e r s c =
     (let parts = split_on (CHR ''/'') (trimPrefix (r_path r) ''/sql/v1beta4/projects/'') in
      if length parts < 2 \<or> parts ! 1 \<noteq> ''instances'' then (http_notFound, s, c)
      else if length parts = 2 then csql_collection rfc h e r (parts ! 0) s c
      else if length parts = 3 then csql_item r (parts ! 0) (parts ! 2) s c
      else (http_notFound, s, c))"

text \<open>The rows of the console: name, engine, port, host, database and state.\<close>

definition ConsoleInstances :: "(string \<Rightarrow> time option) \<Rightarrow> go_env \<Rightarrow> mem
    \<Rightarrow> store_err + (string \<times> string \<times> int \<times> string \<times> string \<times> string) list" where
  "ConsoleInstances rfc e s = (case List s nsInstances [] of Inl er \<Rightarrow> Inl er
     | Inr all \<Rightarrow> Inr (sort_key fst (map (\<lambda>i. (in_Name i, if in_Engine i = [] then in_DatabaseVersion i else in_Engine i,
          in_Port i, in_Host i, in_Database i, in_State i)) (decoded (unmarshal_instance rfc) (e_range e all)))))"

section \<open>Encoding\<close>

lemma instance_roundtrip [codec]: "in_int64 (in_Port i) \<Longrightarrow> unmarshal_instance rfc (JsonB (enc_instance i)) = (i, True)"
  by (simp add: enc_instance_def dec_instance_def fld_str_def fld_time_def fld_int_def omit_def eqFold_def lower_char_def Let_def)

lemma in_int64_wrap64 [simp]: "in_int64 (wrap64 n)"
  by (simp add: in_int64_def wrap64_def)

lemma portFromAddr_range [simp]: "in_int64 (portFromAddr a)"
proof -
  have "in_int64 n \<Longrightarrow> in_int64 (foldl (\<lambda>n c. wrap64 (n * 10 + int (digit_val c))) n p)" for n p
    by (induction p arbitrary: n) auto
  moreover have "in_int64 0" by (simp add: in_int64_def)
  ultimately show ?thesis by (auto simp: portFromAddr_def split: option.splits prod.splits)
qed

interpretation inst_res: stored_resource enc_instance "unmarshal_instance rfc" "\<lambda>i. in_int64 (in_Port i)" instance_key nsInstances for rfc
  by unfold_locales (rule instance_roundtrip)

section \<open>Instances and listeners\<close>

text \<open>A listener that serves an instance: the shim of its engine, its name and database, its data source, on its port.\<close>

definition listens_for :: "sql_instance \<Rightarrow> wire_listener \<Rightarrow> bool" where
  "listens_for x l \<longleftrightarrow> wl_wire l = engine_wire (in_Engine x) \<and> wl_name l = in_Name x \<and> wl_database l = in_Database x \<and>
     wl_dsn l = dsn (in_Project x) (in_Name x) \<and> in_Host x = ''127.0.0.1'' \<and> in_Port x = portFromAddr (wl_bound l) \<and>
     in_State x = ''RUNNABLE''"

definition served :: "mem \<Rightarrow> cloudsql \<Rightarrow> string \<Rightarrow> nat \<Rightarrow> bool" where
  "served s c k i \<longleftrightarrow> i < length (cs_started c) \<and> wl_open (cs_started c ! i) \<and>
     (\<exists>x. mem_lookup s nsInstances k = Some (JsonB (enc_instance x)) \<and> instance_key x = k \<and> listens_for x (cs_started c ! i))"

definition csql_inv :: "mem \<times> cloudsql \<Rightarrow> bool" where
  "csql_inv = (\<lambda>(s, c). mem_ok s \<and> distinct (map fst (cs_listeners c)) \<and>
     (\<forall>k i. map_of (cs_listeners c) k = Some i \<longrightarrow> served s c k i) \<and>
     (\<forall>k k' i. map_of (cs_listeners c) k = Some i \<longrightarrow> map_of (cs_listeners c) k' = Some i \<longrightarrow> k = k') \<and>
     (\<forall>k. mem_lookup s nsInstances k \<noteq> None \<longrightarrow> map_of (cs_listeners c) k \<noteq> None) \<and>
     (\<forall>i < length (cs_started c). wl_open (cs_started c ! i) \<longrightarrow> (\<exists>k. map_of (cs_listeners c) k = Some i)))"

inductive csql_step :: "mem \<times> cloudsql \<Rightarrow> mem \<times> cloudsql \<Rightarrow> bool" where
  csql_request: "csql_dispatch rfc h e r s c = (resp, s', c') \<Longrightarrow> csql_step (s, c) (s', c')"
| csql_other: "mem_ok s' \<Longrightarrow> mem_lookup s' nsInstances = mem_lookup s nsInstances \<Longrightarrow> csql_step (s, c) (s', c)"

text \<open>The service started over a store without instances, from a configuration with distinct names.\<close>

definition csql_init :: "mem \<times> cloudsql \<Rightarrow> bool" where
  "csql_init = (\<lambda>(s, c). \<exists>h now cfg s0. mem_ok s0 \<and> (\<forall>k. mem_lookup s0 nsInstances k = None) \<and>
     distinct (map csql_Name (CloudSQL_Instances (Services cfg))) \<and> cloudsql_New h now cfg s0 = (Inr (), s, c))"

lemma keyFor_inj [simp]: "keyFor p n = keyFor p m \<longleftrightarrow> n = m"
  by (simp add: keyFor_def)

text \<open>What a successful start adds.\<close>

lemma startInstance_Inr:
  assumes "startInstance h b seed c = Inr (b', c')" "in_State b = ''RUNNABLE''"
  shows "\<exists>l. cs_started c' = cs_started c @ [l] \<and> wl_open l \<and> listens_for b' l \<and> instance_key b' = instance_key b \<and>
    cs_listeners c' = AList.update (instance_key b) (length (cs_started c)) (cs_listeners c)"
  using assms by (auto simp: startInstance_def startListener_def listener_Start_def NewListener_def listens_for_def
      instance_key_def Let_def split: if_splits option.splits sum.splits)

lemma store_instance_eq [simp]: "store_instance b s = mput s nsInstances (instance_key b) (JsonB (enc_instance b))"
  by (simp add: store_instance_def)

lemma start_inv:
  assumes inv: "csql_inv (s, c)" and fresh: "mem_lookup s nsInstances (instance_key b) = None"
    and start: "startInstance h b seed c = Inr (b', c')" "in_State b = ''RUNNABLE''"
  shows "csql_inv (store_instance b' s, c')"
proof -
  let ?k = "instance_key b" let ?n = "length (cs_started c)"
  obtain l where l: "cs_started c' = cs_started c @ [l]" "wl_open l" "listens_for b' l" "instance_key b' = ?k"
    "cs_listeners c' = AList.update ?k ?n (cs_listeners c)"
    using startInstance_Inr [OF start] by blast
  have ok: "mem_ok s" and old: "\<And>k i. map_of (cs_listeners c) k = Some i \<Longrightarrow> served s c k i"
    using inv by (auto simp: csql_inv_def)
  have new: "map_of (cs_listeners c') k = (if k = ?k then Some ?n else map_of (cs_listeners c) k)" for k
    by (simp add: l update_conv')
  have lt: "map_of (cs_listeners c) k = Some i \<Longrightarrow> i < ?n \<and> k \<noteq> ?k" for k i
    using old [of k i] fresh by (auto simp: served_def)
  have "served (store_instance b' s) c' k i" if "map_of (cs_listeners c') k = Some i" for k i
  proof (cases "k = ?k")
    case True
    with that have "i = ?n" by (simp add: new)
    with True l ok show ?thesis by (auto simp: served_def)
  next
    case False
    with that have "served s c k i" by (simp add: new old)
    with False l ok show ?thesis by (auto simp: served_def nth_append)
  qed
  moreover have "k = k'" if "map_of (cs_listeners c') k = Some i" "map_of (cs_listeners c') k' = Some i" for k k' i
  proof -
    have "\<And>k k' i. map_of (cs_listeners c) k = Some i \<Longrightarrow> map_of (cs_listeners c) k' = Some i \<Longrightarrow> k = k'"
      using inv by (auto simp: csql_inv_def)
    with that lt show ?thesis by (auto simp: new split: if_splits)
  qed
  moreover have "map_of (cs_listeners c') k \<noteq> None" if "mem_lookup (store_instance b' s) nsInstances k \<noteq> None" for k
    using that inv ok by (auto simp: new csql_inv_def l(4) split: if_splits)
  moreover have "\<exists>k. map_of (cs_listeners c') k = Some i" if i: "i < length (cs_started c')" "wl_open (cs_started c' ! i)" for i
  proof (cases "i = ?n")
    case True
    then show ?thesis by (auto simp: new)
  next
    case False
    with i have "i < ?n" "wl_open (cs_started c ! i)" by (simp_all add: l nth_append)
    with inv obtain k where "map_of (cs_listeners c) k = Some i" by (auto simp: csql_inv_def)
    with lt show ?thesis by (auto simp: new)
  qed
  moreover have "distinct (map fst (cs_listeners c'))" using inv by (simp add: l(5) csql_inv_def distinct_update)
  ultimately show ?thesis using ok unfolding csql_inv_def by auto
qed

lemma length_stop_at [simp]: "length (stop_at i ls) = length ls"
  by (simp add: stop_at_def)

lemma nth_stop_at: "j < length ls \<Longrightarrow> stop_at i ls ! j = (if j = i then listener_Stop (ls ! j) else ls ! j)"
  by (auto simp: stop_at_def nth_list_update)

lemma stop_inv:
  assumes inv: "csql_inv (s, c)"
  shows "csql_inv (mdel s nsInstances k, stopInstance k c)"
proof -
  let ?c = "stopInstance k c"
  have ok: "mem_ok s" using inv by (simp add: csql_inv_def)
  have maps: "map_of (cs_listeners ?c) k' = (if k' = k then None else map_of (cs_listeners c) k')" for k'
    by (auto simp: stopInstance_def Let_def delete_conv' split: option.splits)
  have d: "distinct (map fst (cs_listeners ?c))"
    using inv by (auto simp: csql_inv_def stopInstance_def Let_def intro: distinct_delete split: option.splits)
  have len: "length (cs_started ?c) = length (cs_started c)"
    by (simp add: stopInstance_def Let_def split: option.splits)
  have at: "cs_started ?c ! i = (if map_of (cs_listeners c) k = Some i then listener_Stop (cs_started c ! i) else cs_started c ! i)"
    if "i < length (cs_started c)" for i
    using that by (auto simp: stopInstance_def Let_def nth_stop_at split: option.splits)
  have old: "map_of (cs_listeners c) k' = Some i \<Longrightarrow> served s c k' i" for k' i
    using inv by (auto simp: csql_inv_def)
  have inj: "map_of (cs_listeners c) k' = Some i \<Longrightarrow> map_of (cs_listeners c) k'' = Some i \<Longrightarrow> k' = k''" for k' k'' i
    using inv by (auto simp: csql_inv_def)
  have "served (mdel s nsInstances k) ?c k' i" if "map_of (cs_listeners ?c) k' = Some i" for k' i
  proof -
    have "k' \<noteq> k" "map_of (cs_listeners c) k' = Some i" using that by (auto simp: maps split: if_splits)
    with old [of k' i] inj [of k' i k] ok show ?thesis by (auto simp: served_def len at)
  qed
  moreover have "map_of (cs_listeners ?c) k' \<noteq> None" if "mem_lookup (mdel s nsInstances k) nsInstances k' \<noteq> None" for k'
    using that inv ok by (auto simp: maps csql_inv_def split: if_splits)
  moreover have "\<exists>k'. map_of (cs_listeners ?c) k' = Some i" if i: "i < length (cs_started ?c)" "wl_open (cs_started ?c ! i)" for i
  proof -
    have n: "map_of (cs_listeners c) k \<noteq> Some i" and "wl_open (cs_started c ! i)" "i < length (cs_started c)"
      using i by (auto simp: len at listener_Stop_def split: if_splits)
    with inv obtain k' where "map_of (cs_listeners c) k' = Some i" by (auto simp: csql_inv_def)
    with n show ?thesis by (auto simp: maps)
  qed
  moreover have "map_of (cs_listeners ?c) k' = Some i \<Longrightarrow> map_of (cs_listeners ?c) k'' = Some i \<Longrightarrow> k' = k''" for k' k'' i
    using inj by (auto simp: maps split: if_splits)
  ultimately show ?thesis using ok d unfolding csql_inv_def by auto
qed

lemma csql_dispatch_cases:
  assumes "mem_ok s" "csql_dispatch rfc h e r s c = (resp, s', c')"
  shows "s' = s \<and> c' = c \<or> (\<exists>k. s' = mdel s nsInstances k \<and> c' = stopInstance k c) \<or>
    (\<exists>b b'. mem_lookup s nsInstances (instance_key b) = None \<and> in_State b = ''RUNNABLE'' \<and>
       startInstance h b [] c = Inr (b', c') \<and> s' = store_instance b' s)"
proof -
  have "s' = s \<and> c' = c \<or> (\<exists>b b'. mem_lookup s nsInstances (instance_key b) = None \<and> in_State b = ''RUNNABLE'' \<and>
       startInstance h b [] c = Inr (b', c') \<and> s' = store_instance b' s)"
    if col: "csql_collection rfc h e r p s c = (resp, s', c')" for p
  proof (cases "s' = s \<and> c' = c")
    case False
    then obtain b0 where m: "mem_lookup s nsInstances (keyFor p (in_Name b0)) = None"
      and cr: "create_instance h (posted_instance (e_now e 0) p b0) s c = (resp, s', c')"
      using col by (auto simp: csql_collection_def Let_def Get_lookup posted_instance_def
          split: meth.splits option.splits prod.splits if_splits sum.splits)
    let ?b = "posted_instance (e_now e 0) p b0"
    have k: "instance_key ?b = keyFor p (in_Name b0)" "in_State ?b = ''RUNNABLE''"
      by (simp_all add: posted_instance_def instance_key_def Let_def)
    from cr False obtain b' where "startInstance h ?b [] c = Inr (b', c')" "s' = store_instance b' s"
      by (auto simp: create_instance_def split: sum.splits)
    moreover have "mem_lookup s nsInstances (instance_key ?b) = None" using k m by simp
    ultimately show ?thesis using k(2) by blast
  qed blast
  moreover have "s' = s \<and> c' = c \<or> (\<exists>k. s' = mdel s nsInstances k \<and> c' = stopInstance k c)"
    if "csql_item r p n s c = (resp, s', c')" for p n
    using that assms(1) by (auto simp: csql_item_def Let_def Get_lookup Delete_cases split: meth.splits option.splits if_splits)
  ultimately show ?thesis using assms(2)
    by (auto simp: csql_dispatch_def Let_def split: if_splits)
qed

lemma csql_step_inv: "csql_step sc sc' \<Longrightarrow> csql_inv sc \<Longrightarrow> csql_inv sc'"
proof (induction rule: csql_step.induct)
  case (csql_request rfc h e r s c resp s' c')
  then have "mem_ok s" by (simp add: csql_inv_def)
  from csql_dispatch_cases [OF this csql_request(1)] csql_request(2) start_inv stop_inv show ?case by blast
next
  case (csql_other s' s c)
  then show ?case by (auto simp: csql_inv_def served_def)
qed

text \<open>The configured instances are started one after the other; their keys differ because their names do.\<close>

lemma seed_instances_inv:
  assumes "seed_instances h now cfg i xs s c = (Inr (), s', c')" "csql_inv (s, c)" "distinct (map csql_Name xs)"
    and "\<And>x. x \<in> set xs \<Longrightarrow> mem_lookup s nsInstances (keyFor (Project cfg) (csql_Name x)) = None"
  shows "csql_inv (s', c')"
  using assms
proof (induction xs arbitrary: i s c)
  case (Cons x xs)
  let ?b = "configured_instance cfg (now i) i x"
  have k: "instance_key ?b = keyFor (Project cfg) (csql_Name x)" "in_State ?b = ''RUNNABLE''"
    by (simp_all add: configured_instance_def instance_key_def Let_def)
  from Cons.prems(1) obtain b' c1 where st: "startInstance (h i) ?b (csql_Seed x) c = Inr (b', c1)"
    and rest: "seed_instances h now cfg (Suc i) xs (store_instance b' s) c1 = (Inr (), s', c')"
    by (auto split: sum.splits)
  have kb: "instance_key b' = instance_key ?b" using startInstance_Inr [OF st k(2)] by auto
  have "csql_inv (store_instance b' s, c1)"
    using start_inv [OF Cons.prems(2) _ st k(2)] Cons.prems(4) by (simp add: k)
  moreover have "mem_lookup (store_instance b' s) nsInstances (keyFor (Project cfg) (csql_Name y)) = None" if "y \<in> set xs" for y
  proof -
    have "csql_Name y \<noteq> csql_Name x" "mem_ok s"
      using that Cons.prems(2,3) by (auto simp: csql_inv_def image_iff)
    with that Cons.prems(4) show ?thesis by (simp add: kb k)
  qed
  ultimately show ?case using Cons.IH [OF rest] Cons.prems(3) by simp
qed simp

lemma csql_init_inv: "csql_init sc \<Longrightarrow> csql_inv sc"
proof -
  assume "csql_init sc"
  moreover obtain s c where p: "sc = (s, c)" by (cases sc)
  ultimately obtain h now cfg s0 where sc: "mem_ok s0" "\<forall>k. mem_lookup s0 nsInstances k = None"
    "distinct (map csql_Name (CloudSQL_Instances (Services cfg)))" "cloudsql_New h now cfg s0 = (Inr (), s, c)"
    unfolding csql_init_def by blast
  then have "csql_inv (s0, \<lparr>cs_listeners = [], cs_started = []\<rparr>)" by (simp add: csql_inv_def)
  from seed_instances_inv [OF _ this sc(3)] sc(2,4) show ?thesis unfolding p cloudsql_New_def by blast
qed

interpretation csqlm: machine csql_init csql_step csql_inv
  by unfold_locales (rule csql_init_inv csql_step_inv; assumption)+

lemma nth_fold_stop_at:
  "j < length ls \<Longrightarrow> fold (\<lambda>(_, i). stop_at i) kis ls ! j = (if \<exists>k. (k, j) \<in> set kis then listener_Stop (ls ! j) else ls ! j)"
  by (induction kis arbitrary: ls) (auto simp: nth_stop_at listener_Stop_def)

lemma length_fold_stop_at [simp]: "length (fold (\<lambda>(_, i). stop_at i) kis ls) = length ls"
  by (induction kis arbitrary: ls) auto

lemma csql_Stop_closes:
  assumes "csql_inv (s, c)" "l \<in> set (cs_started (cloudsql_Stop c))"
  shows "\<not> wl_open l"
proof -
  obtain i where i: "i < length (cs_started c)" "l = cs_started (cloudsql_Stop c) ! i"
    using assms(2) by (auto simp: in_set_conv_nth cloudsql_Stop_def)
  moreover have "\<exists>k. (k, i) \<in> set (cs_listeners c)" if "wl_open (cs_started c ! i)"
    using that i(1) assms(1) unfolding csql_inv_def split_conv by (meson map_of_SomeD)
  ultimately show ?thesis by (auto simp: cloudsql_Stop_def nth_fold_stop_at listener_Stop_def)
qed


section \<open>The life of an instance\<close>

lemma csql_collection_path:
  assumes "noslash p" "r_path r = ''/sql/v1beta4/projects/'' @ p @ ''/instances''"
  shows "csql_dispatch rfc h e r s c = csql_collection rfc h e r p s c"
proof -
  have "split_on (CHR ''/'') (trimPrefix (r_path r) ''/sql/v1beta4/projects/'') = [p, ''instances'']"
    using assms split_on_append [of "CHR ''/''" p "''instances''"] by (simp add: trimPrefix_def noslash_def)
  then show ?thesis by (simp add: csql_dispatch_def)
qed

lemma csql_item_path:
  assumes "noslash p" "noslash n" "r_path r = ''/sql/v1beta4/projects/'' @ p @ ''/instances/'' @ n"
  shows "csql_dispatch rfc h e r s c = csql_item r p n s c"
proof -
  have "split_on (CHR ''/'') (trimPrefix (r_path r) ''/sql/v1beta4/projects/'') = [p, ''instances'', n]"
    using assms split_on_append [of "CHR ''/''" p "''instances/'' @ n"] split_on_no_sep [of "CHR ''/''" n]
    by (simp add: trimPrefix_def noslash_def)
  then show ?thesis by (simp add: csql_dispatch_def)
qed

text \<open>An accepted POST: the new listener, the document in the store, and what is answered.\<close>

lemma csql_posted:
  assumes "csql_collection rfc h e r p s c = (resp, s1, c1)" "rs_code resp = 200" "r_method r = POST"
    "r_json r = Some j" "dec_instance rfc j = (b, True)"
  obtains x l where "rs_body resp = Some (JsonB (enc_instance x))" "in_Name x = in_Name b" "in_Project x = p"
    "listens_for x l" "wl_open l" "cs_started c1 = cs_started c @ [l]" "in_Name b \<noteq> []"
    "cs_listeners c1 = AList.update (keyFor p (in_Name b)) (length (cs_started c)) (cs_listeners c)" "s1 = store_instance x s"
proof -
  let ?b = "posted_instance (e_now e 0) p b"
  have cr: "create_instance h ?b s c = (resp, s1, c1)" and ne: "in_Name b \<noteq> []"
    using assms by (auto simp: csql_collection_def Let_def split: sum.splits if_splits)
  have k: "instance_key ?b = keyFor p (in_Name b)" "in_State ?b = ''RUNNABLE''" "in_Name ?b = in_Name b" "in_Project ?b = p"
    by (simp_all add: posted_instance_def instance_key_def Let_def)
  from cr assms(2) obtain x where st: "startInstance h ?b [] c = Inr (x, c1)" and x: "resp = respJSON 200 (enc_instance x)" "s1 = store_instance x s"
    by (auto simp: create_instance_def split: sum.splits)
  obtain l where l: "cs_started c1 = cs_started c @ [l]" "wl_open l" "listens_for x l"
      "cs_listeners c1 = AList.update (instance_key ?b) (length (cs_started c)) (cs_listeners c)"
    using startInstance_Inr [OF st k(2)] by blast
  have "in_Name x = in_Name ?b" "in_Project x = in_Project ?b"
    using st by (auto simp: startInstance_def Let_def split: if_splits option.splits sum.splits)
  with l x ne k that show ?thesis by auto
qed

text \<open>
  C32: An accepted POST starts one listener and answers with the instance it serves, under the port that was bound; a GET then
  returns the same document, a second POST of the name is refused and changes nothing, and a DELETE stops exactly that
  listener, after which the instance is not found.
\<close>

theorem sql_instance_lifecycle:
  assumes "mem_ok s" "noslash p" "noslash (in_Name b)"
    and post: "r_method r = POST" "r_path r = ''/sql/v1beta4/projects/'' @ p @ ''/instances''" "r_json r = Some j" "dec_instance rfc j = (b, True)"
    and get: "r_method g = GET" "r_path g = ''/sql/v1beta4/projects/'' @ p @ ''/instances/'' @ in_Name b"
    and del: "r_method d = DELETE" "r_path d = ''/sql/v1beta4/projects/'' @ p @ ''/instances/'' @ in_Name b"
    and run: "csql_dispatch rfc h e r s c = (resp, s1, c1)" "rs_code resp = 200"
  shows "\<exists>x l. rs_body resp = Some (JsonB (enc_instance x)) \<and> in_Name x = in_Name b \<and> in_Project x = p \<and>
      listens_for x l \<and> wl_open l \<and> cs_started c1 = cs_started c @ [l] \<and>
      csql_dispatch rfc h' e' g s1 c1 = (write_raw (JsonB (enc_instance x)), s1, c1) \<and>
      csql_dispatch rfc h' e' r s1 c1 = (respErr 409 ''instance exists'', s1, c1) \<and>
      (\<exists>s2 c2. csql_dispatch rfc h' e' d s1 c1 = (header_only 200, s2, c2) \<and> cs_started c2 = cs_started c @ [listener_Stop l] \<and>
         csql_dispatch rfc h' e' g s2 c2 = (respErr 404 ''instance not found'', s2, c2))"
proof -
  let ?k = "keyFor p (in_Name b)"
  note at_root = csql_collection_path [OF assms(2) post(2)]
  obtain x l where x: "rs_body resp = Some (JsonB (enc_instance x))" "in_Name x = in_Name b" "in_Project x = p"
    "listens_for x l" "wl_open l" "cs_started c1 = cs_started c @ [l]" "in_Name b \<noteq> []"
    "cs_listeners c1 = AList.update ?k (length (cs_started c)) (cs_listeners c)" "s1 = store_instance x s"
    by (rule csql_posted [OF run(1) [unfolded at_root] run(2) post(1,3,4)])
  have s1: "mem_ok s1" "mem_lookup s1 nsInstances ?k = Some (JsonB (enc_instance x))"
    using x(2,3,9) assms(1) by (simp_all add: instance_key_def)
  have G: "csql_dispatch rfc h' e' g s' c' = csql_item g p (in_Name b) s' c'"
    "csql_dispatch rfc h' e' d s' c' = csql_item d p (in_Name b) s' c'" for s' c'
    using csql_item_path assms(2,3) get(2) del(2) by blast+
  have "csql_dispatch rfc h' e' g s1 c1 = (write_raw (JsonB (enc_instance x)), s1, c1)"
    using s1 get(1) by (simp add: G csql_item_def Get_lookup)
  moreover have "csql_dispatch rfc h' e' r s1 c1 = (respErr 409 ''instance exists'', s1, c1)"
    using s1 post x(7)
    by (simp add: csql_collection_path [OF assms(2) post(2)] csql_collection_def Get_lookup posted_instance_def Let_def)
  moreover let ?s2 = "mdel s1 nsInstances ?k" and ?c2 = "stopInstance ?k c1"
  have "csql_dispatch rfc h' e' d s1 c1 = (header_only 200, ?s2, ?c2)"
    using s1 del(1) by (simp add: G csql_item_def Get_lookup Delete_cases Let_def)
  moreover have "cs_started ?c2 = cs_started c @ [listener_Stop l]"
    using x(6,8) by (simp add: stopInstance_def Let_def update_conv' stop_at_def)
  moreover have "csql_dispatch rfc h' e' g ?s2 ?c2 = (respErr 404 ''instance not found'', ?s2, ?c2)"
    using s1 get(1) by (simp add: G csql_item_def Get_lookup Let_def)
  ultimately show ?thesis using x by blast
qed

text \<open>A start that fails leaves nothing behind.\<close>

lemma sql_failed_start:
  assumes "csql_dispatch rfc h e r s c = (resp, s', c')" "mem_ok s" "rs_code resp \<noteq> 200"
  shows "s' = s \<and> c' = c"
  using assms by (auto simp: csql_dispatch_def csql_collection_def csql_item_def create_instance_def Let_def
      split: if_splits meth.splits option.splits sum.splits prod.splits)

text \<open>
  The name of the data source does not separate the project from the instance, so instances of two projects can share one
  database.
\<close>

lemma sql_dsn_shared: "dsn ''a'' ''b_c'' = dsn ''a_b'' ''c''"
  by (simp add: dsn_def)

text \<open>
  The check for an existing instance and the start are not one critical section: when two requests for the same name have both
  passed the check, the second listener replaces the first in the map, and the first is left running by \<^verbatim>\<open>Stop\<close>.
\<close>

lemma sql_overlapping_creates_leak:
  assumes "startInstance h b [] \<lparr>cs_listeners = [], cs_started = []\<rparr> = Inr (b1, c1)" "startInstance h' b [] c1 = Inr (b2, c2)"
    and "in_State b = ''RUNNABLE''"
  shows "\<exists>l1 l2. cs_started (cloudsql_Stop c2) = [l1, l2] \<and> wl_open l1 \<and> \<not> wl_open l2"
proof -
  obtain l1 where l1: "cs_started c1 = [l1]" "wl_open l1" "cs_listeners c1 = [(instance_key b, 0)]"
    using startInstance_Inr [OF assms(1,3)] by auto
  obtain l2 where "cs_started c2 = [l1, l2]" "cs_listeners c2 = [(instance_key b, 1)]"
    using startInstance_Inr [OF assms(2,3)] l1 by auto
  with l1 show ?thesis by (auto simp: cloudsql_Stop_def stop_at_def listener_Stop_def)
qed

subsection \<open>One instance on a free port\<close>

definition demo_host :: sql_host where
  "demo_host = \<lparr>sh_open = (\<lambda>_. None), sh_ping = (\<lambda>_. None), sh_readFile = (\<lambda>_. Inl ''no file''), sh_exec = (\<lambda>_ _. None),
     sh_listen = (\<lambda>_. Inr ''127.0.0.1:5432'')\<rparr>"

definition sql_req :: "meth \<Rightarrow> string \<Rightarrow> json option \<Rightarrow> http_req" where
  "sql_req m p j = \<lparr>r_method = m, r_path = ''/sql/v1beta4/projects/'' @ p, r_query = [], r_header = [], r_host = [], r_tls = False,
     r_contentLength = 0, r_bytes = [], r_json = j\<rparr>"

definition demo_instance :: sql_instance where
  "demo_instance = \<lparr>in_Name = ''db'', in_Project = ''p'', in_DatabaseVersion = ''POSTGRES_15'', in_State = ''RUNNABLE'', in_CreateTime = 7,
     in_Engine = ''sqlite'', in_Database = [], in_Port = 5432, in_Host = ''127.0.0.1''\<rparr>"

definition sql_demo_listener :: wire_listener where
  "sql_demo_listener = \<lparr>wl_wire = PgWire, wl_name = ''db'', wl_database = [], wl_addr = ''127.0.0.1:0'', wl_dsn = dsn ''p'' ''db'',
     wl_bound = ''127.0.0.1:5432'', wl_open = True\<rparr>"

definition demo_csql :: cloudsql where
  "demo_csql = \<lparr>cs_listeners = [(keyFor ''p'' ''db'', 0)], cs_started = [sql_demo_listener]\<rparr>"

definition demo_body :: sql_instance where
  "demo_body = \<lparr>in_Name = ''db'', in_Project = [], in_DatabaseVersion = [], in_State = [], in_CreateTime = 0, in_Engine = [],
     in_Database = [], in_Port = 0, in_Host = []\<rparr>"

lemma sql_demo_dec: "dec_instance (\<lambda>_. None) (JObj [(''name'', JStr ''db'')]) = (demo_body, True)"
  by (simp add: dec_instance_def fld_str_def fld_time_def fld_int_def eqFold_def lower_char_def demo_body_def)

lemma sql_demo_port: "portFromAddr ''127.0.0.1:5432'' = 5432"
  by (simp add: portFromAddr_def cut_last_def cutAt_def is_digit_def digit_val_def wrap64_def)

lemma itoai_0: "itoai 0 = ''0''"
  by code_simp

lemma sql_demo_post:
  "csql_dispatch (\<lambda>_. None) demo_host \<lparr>e_now = \<lambda>_. 7, e_range = rev\<rparr> (sql_req POST ''p/instances'' (Some (JObj [(''name'', JStr ''db'')])))
     NewMemory \<lparr>cs_listeners = [], cs_started = []\<rparr> =
   (respJSON 200 (enc_instance demo_instance), mput NewMemory nsInstances (keyFor ''p'' ''db'') (JsonB (enc_instance demo_instance)), demo_csql)"
  using csql_collection_path [of "''p''" "sql_req POST ''p/instances'' (Some (JObj [(''name'', JStr ''db'')]))"]
  by (simp add: sql_req_def noslash_def csql_collection_def sql_demo_dec Get_lookup mem_lookup_def NewMemory_def Let_def
      demo_body_def posted_instance_def create_instance_def startInstance_def open_database_def demo_host_def startListener_def
      listener_Start_def NewListener_def engine_wire_def sql_demo_port instance_key_def defaultDatabaseVersion_def
      demo_instance_def demo_csql_def sql_demo_listener_def itoai_0)

theorem sql_instance_lifecycle_witness:
  "\<exists>x l. listens_for x l \<and> wl_open l \<and> in_Name x = ''db'' \<and> cs_started demo_csql = [l]"
proof -
  let ?r = "sql_req POST ''p/instances'' (Some (JObj [(''name'', JStr ''db'')]))"
  have "mem_ok NewMemory" "noslash ''p''" "noslash (in_Name demo_body)" "r_method ?r = POST"
    "r_path ?r = ''/sql/v1beta4/projects/'' @ ''p'' @ ''/instances''" "r_json ?r = Some (JObj [(''name'', JStr ''db'')])"
    by (simp_all add: sql_req_def noslash_def demo_body_def)
  from sql_instance_lifecycle [OF this sql_demo_dec _ _ _ _ sql_demo_post,
      of "sql_req GET ''p/instances/db'' None" "sql_req DELETE ''p/instances/db'' None"]
  show ?thesis by (fastforce simp: sql_req_def demo_body_def)
qed


end
