(* ===== verification/Console_Services.thy ===== *)
theory Console_Services
  imports Console Api_Services Cloud_Storage_Upload Cloud_Logging Firestore BigQuery_Laws Cloud_Sql Pubsub_Push
begin

text \<open>
  The services behind the console: how \<^verbatim>\<open>gateway.New\<close> wires them into its options, and how each \<^verbatim>\<open>console.go\<close> lays its rows
  out as JSON objects.  Shown: what a request to the console can change at all, and that what is published or
  uploaded through it is what it shows.  A map that is absent and one that is empty are not told apart; both are
  shown as null.
\<close>

section \<open>The preview of an object\<close>

text \<open>\<^verbatim>\<open>hex.Dump\<close>: sixteen bytes a line, with their offset in front and their printable characters behind.\<close>

definition hex_byte :: "nat \<Rightarrow> string" where
  "hex_byte n = [Go_Time.hex_digit (n div 16 mod 16), Go_Time.hex_digit (n mod 16)]"

definition hex_offset :: "nat \<Rightarrow> string" where
  "hex_offset n = hex_byte (n div 2 ^ 24) @ hex_byte (n div 2 ^ 16) @ hex_byte (n div 2 ^ 8) @ hex_byte n"

definition hex_char :: "char \<Rightarrow> char" where
  "hex_char c = (if (of_char c :: nat) < 32 \<or> (of_char c :: nat) > 126 then CHR ''.'' else c)"

definition hex_cell :: "string \<Rightarrow> nat \<Rightarrow> string" where
  "hex_cell l i = (if i < length l then hex_byte (of_char (l ! i)) @ '' '' else ''   '') @
     (if i = 7 then '' '' else if i = 15 then '' |'' else [])"

definition hex_line :: "nat \<Rightarrow> string \<Rightarrow> string" where
  "hex_line off l = hex_offset off @ ''  '' @ concat (map (hex_cell l) [0..<16]) @ map hex_char l @ ''|\<newline>''"

function hex_dump :: "nat \<Rightarrow> string \<Rightarrow> string" where
  "hex_dump off [] = []"
| "hex_dump off (c # s) = hex_line off (take 16 (c # s)) @ hex_dump (off + 16) (drop 16 (c # s))"
  by pat_completeness auto
termination by (relation "measure (length \<circ> snd)") auto

text \<open>The bytes that a store holds under a key of the data namespace.\<close>

definition ConsoleObjectPreview :: "mem \<Rightarrow> string \<Rightarrow> string \<Rightarrow> int \<Rightarrow> string + string \<times> bool" where
  "ConsoleObjectPreview s bucket object maxBytes = (case Get s nsBuckets bucket of Inl _ \<Rightarrow> Inl (''bucket not found: '' @ bucket)
     | Inr _ \<Rightarrow> (case Get s (objectDataNamespace bucket) object of
          Inl er \<Rightarrow> Inl (err_text er)
        | Inr d \<Rightarrow> (let body = (case d of RawB b \<Rightarrow> b | JsonB _ \<Rightarrow> []);
              body = (if 0 < maxBytes \<and> maxBytes < int (length body) then take (nat maxBytes) body else body)
            in if valid_utf8 body \<and> CHR 0x00 \<notin> set body then Inr (body, True) else Inr (hex_dump 0 body, False))))"

section \<open>Rows\<close>

definition jmap :: "(string \<times> string) list \<Rightarrow> json" where
  "jmap m = (if m = [] then JNull else jstrmap m)"

fun go_json :: "go_value \<Rightarrow> json" where
  "go_json VNil = JNull"
| "go_json (VBool b) = JBool b"
| "go_json (VInt n) = JNum n"
| "go_json (VFloat x) = JFloat x"
| "go_json (VStr s) = JStr s"
| "go_json (VBytes b) = JStr (b64_encode b)"
| "go_json (VTime t) = JTime t"

definition rows :: "('a \<Rightarrow> json) \<Rightarrow> store_err + 'a list \<Rightarrow> string + json list" where
  "rows f x = map_sum err_text (map f) x"

definition row_topic :: "string \<Rightarrow> json" where
  "row_topic n = JObj [(''name'', JStr n)]"

definition row_subscription :: "string \<times> string \<times> int \<times> string \<Rightarrow> json" where
  "row_subscription = (\<lambda>(n, t, d, p). JObj [(''ackDeadlineSeconds'', JNum d), (''name'', JStr n), (''pushEndpoint'', JStr p), (''topic'', JStr t)])"

definition row_message :: "string \<times> time \<times> (string \<times> string) list \<times> string \<times> bool \<Rightarrow> json" where
  "row_message = (\<lambda>(i, t, a, d, f). JObj [(''attributes'', jmap a), (''data'', JStr d), (''inflight'', JBool f), (''messageId'', JStr i),
     (''publishTime'', JTime t)])"

definition row_secret :: "string \<times> string \<times> time \<times> (string \<times> string) list \<Rightarrow> json" where
  "row_secret = (\<lambda>(n, i, t, l). JObj [(''createTime'', JTime t), (''id'', JStr i), (''labels'', jmap l), (''name'', JStr n)])"

definition row_version :: "string \<times> int \<times> string \<times> time \<Rightarrow> json" where
  "row_version = (\<lambda>(n, v, st, t). JObj [(''createTime'', JTime t), (''name'', JStr n), (''state'', JStr st), (''version'', JNum v)])"

definition row_queue :: "string \<times> string \<Rightarrow> json" where
  "row_queue = (\<lambda>(n, i). JObj [(''id'', JStr i), (''name'', JStr n)])"

definition row_task :: "string \<times> string \<times> time \<times> time \<times> (string \<times> string) option \<Rightarrow> json" where
  "row_task = (\<lambda>(n, i, c, sch, h). JObj ([(''createTime'', JTime c), (''id'', JStr i)] @
     (case h of None \<Rightarrow> [] | Some (_, m) \<Rightarrow> [(''method'', JStr m)]) @ [(''name'', JStr n), (''scheduleTime'', JTime sch)] @
     (case h of None \<Rightarrow> [] | Some (u, _) \<Rightarrow> [(''url'', JStr u)])))"

definition row_job :: "string \<times> string \<times> string \<times> (string \<times> string) option \<times> time option \<Rightarrow> json" where
  "row_job = (\<lambda>(n, sch, st, h, nx). JObj ((case h of None \<Rightarrow> [] | Some (_, m) \<Rightarrow> [(''method'', JStr m)]) @ [(''name'', JStr n)] @
     (case nx of None \<Rightarrow> [] | Some t \<Rightarrow> [(''nextFire'', JTime t)]) @ [(''schedule'', JStr sch), (''state'', JStr st)] @
     (case h of None \<Rightarrow> [] | Some (u, _) \<Rightarrow> [(''uri'', JStr u)])))"

definition row_bucket :: "string \<times> string \<times> string \<times> time \<times> time \<Rightarrow> json" where
  "row_bucket = (\<lambda>(n, l, c, t, u). JObj [(''class'', JStr c), (''created'', JTime t), (''location'', JStr l), (''name'', JStr n), (''updated'', JTime u)])"

definition row_object :: "string \<times> string \<times> string \<times> time \<times> string \<Rightarrow> json" where
  "row_object = (\<lambda>(n, sz, ct, u, h). JObj [(''contentType'', JStr ct), (''md5'', JStr h), (''name'', JStr n), (''size'', JStr sz), (''updated'', JTime u)])"

definition row_keyRing :: "string \<times> string \<times> time \<Rightarrow> json" where
  "row_keyRing = (\<lambda>(n, i, t). JObj [(''createTime'', JTime t), (''id'', JStr i), (''name'', JStr n)])"

definition row_cryptoKey :: "string \<times> string \<times> string \<times> time \<Rightarrow> json" where
  "row_cryptoKey = (\<lambda>(n, i, p, t). JObj [(''createTime'', JTime t), (''id'', JStr i), (''name'', JStr n), (''purpose'', JStr p)])"

definition row_entry :: "string \<times> string \<times> string \<times> string \<times> string \<Rightarrow> json" where
  "row_entry = (\<lambda>(t, sev, l, i, m). JObj [(''insertId'', JStr i), (''logName'', JStr l), (''message'', JStr m), (''severity'', JStr sev), (''timestamp'', JStr t)])"

definition row_series :: "string \<times> string \<times> string \<times> string \<times> nat \<times> (time \<times> (string \<times> json) list option) option \<Rightarrow> json" where
  "row_series = (\<lambda>(mt, rt, k, v, n, l). JObj ((case l of None \<Rightarrow> [] | Some (t, x) \<Rightarrow> [(''lastEndTime'', JTime t),
        (''lastValue'', case x of None \<Rightarrow> JNull | Some ms \<Rightarrow> JObj ms)]) @
     [(''metricKind'', JStr k), (''metricType'', JStr mt), (''points'', JNum (int n)), (''resourceType'', JStr rt), (''valueType'', JStr v)]))"

definition row_resource :: "string \<times> string \<times> time \<Rightarrow> json" where
  "row_resource = (\<lambda>(n, b, t). JObj [(''backendUrl'', JStr b), (''createTime'', JTime t), (''name'', JStr n)])"

definition row_document :: "string \<times> string \<times> time \<times> time \<Rightarrow> json" where
  "row_document = (\<lambda>(i, n, c, u). JObj [(''createTime'', JTime c), (''id'', JStr i), (''name'', JStr n), (''updateTime'', JTime u)])"

definition con_doc_view :: "storedDoc \<Rightarrow> json" where
  "con_doc_view d = JObj [(''createTime'', JTime (sd_CreateTime d)), (''fields'', JObj (sort_key fst (sd_Fields d))), (''name'', JStr (sd_Name d)),
     (''updateTime'', JTime (sd_UpdateTime d))]"

definition row_dataset :: "string \<times> time \<Rightarrow> json" where
  "row_dataset = (\<lambda>(i, t). JObj [(''creationTime'', JTime t), (''id'', JStr i)])"

definition row_table :: "string \<times> string \<times> time \<times> nat \<Rightarrow> json" where
  "row_table = (\<lambda>(i, ds, t, n). JObj [(''creationTime'', JTime t), (''datasetId'', JStr ds), (''fields'', JNum (int n)), (''id'', JStr i)])"

definition row_instance :: "string \<times> string \<times> int \<times> string \<times> string \<times> string \<Rightarrow> json" where
  "row_instance = (\<lambda>(n, en, p, h, d, st). JObj [(''database'', JStr d), (''engine'', JStr en), (''host'', JStr h), (''name'', JStr n),
     (''port'', JNum p), (''state'', JStr st)])"

text \<open>The columns and rows of a query; the error of the iteration wins over them.\<close>

definition query_view :: "string + string list \<times> (string \<times> go_value) list list \<times> string option \<Rightarrow> string + json" where
  "query_view x = (case x of Inl er \<Rightarrow> Inl er | Inr (_, _, Some er) \<Rightarrow> Inl er
     | Inr (cols, rs, None) \<Rightarrow> Inr (JObj [(''columns'', jstrs cols), (''rows'', JArr (map (\<lambda>r. JObj (map (\<lambda>(k, v). (k, go_json v)) (sort_key fst r))) rs))]))"

section \<open>The wiring\<close>

fun pubsub_err_text :: "pubsub_err \<Rightarrow> string" where
  "pubsub_err_text PErrAlreadyExists = ''already exists''"
| "pubsub_err_text ErrTopicMissing = ''topic missing''"
| "pubsub_err_text ErrSubMissing = ''subscription missing''"
| "pubsub_err_text (PErrStore er) = err_text er"

text \<open>The state the console can reach, and the environment of a request.\<close>

record 'db console_state =
  ct_store :: mem
  ct_pubsub :: pubsub
  ct_storage :: storage_state
  ct_bq :: "'db bigquery"
  ct_health :: Registry

record 'db console_env =
  ce_rfc :: "string \<Rightarrow> time option"
  ce_go :: go_env
  ce_cron :: cron_lib
  ce_rnd :: rand_read
  ce_fs :: fs_env
  ce_bq :: "'db bq_env"
  ce_hash :: hash_lib
  ce_detect :: "string \<Rightarrow> string"
  ce_text :: "json \<Rightarrow> string"
  ce_redis :: "string list"
  ce_redisPort :: int

definition wire_logging :: "'db console_env \<Rightarrow> 'db console_state con_logging" where
  "wire_logging e = \<lparr>cl_Entries = (\<lambda>n f s. map_sum id (map row_entry) (log_ConsoleEntries (ce_rfc e) (ce_text e) (ce_go e) (ct_store s) n f))\<rparr>"

definition wire_storage :: "'db console_env \<Rightarrow> 'db console_state con_storage" where
  "wire_storage e = \<lparr>
     cst_Buckets = (\<lambda>s. rows row_bucket (ConsoleBuckets (ce_rfc e) (ce_go e) (ct_store s))),
     cst_Objects = (\<lambda>b s. map_sum id (map row_object) (ConsoleObjects (ce_rfc e) (ce_go e) (ct_store s) b)),
     cst_Preview = (\<lambda>b n k s. ConsoleObjectPreview (ct_store s) b n k),
     cst_Upload = (\<lambda>b n t d s. let (er, m, st) = ConsoleUpload (ce_detect e) (ce_hash e) (ce_go e) b n t d (ct_store s) (ct_storage s)
        in (er, s\<lparr>ct_store := m, ct_storage := st\<rparr>))\<rparr>"

definition wire_pubsub :: "'db console_env \<Rightarrow> 'db console_state con_pubsub" where
  "wire_pubsub e = \<lparr>
     cps_Topics = (\<lambda>s. rows row_topic (ConsoleTopics (ce_go e) (ct_store s))),
     cps_Subscriptions = (\<lambda>t s. rows row_subscription (ConsoleSubscriptions (ce_go e) (ct_store s) t)),
     cps_Peek = (\<lambda>n k s. Inr (map row_message (ConsolePeekMessages (ct_pubsub s) n k))),
     cps_Publish = (\<lambda>t d a s. let (x, p) = ConsolePublish (ce_go e) (ct_store s) (ct_pubsub s) t d a
        in (map_sum pubsub_err_text id x, s\<lparr>ct_pubsub := p\<rparr>))\<rparr>"

definition wire_firestore :: "'db console_env \<Rightarrow> 'db console_state con_firestore" where
  "wire_firestore e = \<lparr>
     cfs_Collections = (\<lambda>s. map_sum err_text id (ConsoleCollections (ct_store s))),
     cfs_Documents = (\<lambda>c s. map_sum id (map row_document) (ConsoleDocuments (ce_fs e) (ct_store s) c)),
     cfs_Document = (\<lambda>n s. map_sum id con_doc_view (ConsoleDocument (ce_fs e) (ct_store s) n))\<rparr>"

definition wire_secrets :: "'db console_env \<Rightarrow> 'db console_state con_secrets" where
  "wire_secrets e = \<lparr>
     cse_Secrets = (\<lambda>s. rows row_secret (ConsoleSecrets (ce_rfc e) (ce_go e) (ct_store s))),
     cse_Versions = (\<lambda>n s. rows row_version (ConsoleVersions (ce_rfc e) (ce_go e) (ct_store s) n)),
     cse_Payload = (\<lambda>n v s. ConsoleVersionPayload (ce_rfc e) (ce_go e) (ct_store s) n v)\<rparr>"

definition wire_tasks :: "'db console_env \<Rightarrow> 'db console_state con_tasks" where
  "wire_tasks e = \<lparr>
     ctk_Queues = (\<lambda>s. rows row_queue (ConsoleQueues (ce_go e) (ct_store s))),
     ctk_Tasks = (\<lambda>q s. rows row_task (ConsoleTasks (ce_rfc e) (ce_go e) (ct_store s) q))\<rparr>"

definition wire_scheduler :: "'db console_env \<Rightarrow> 'db console_state con_scheduler" where
  "wire_scheduler e = \<lparr>csc_Jobs = (\<lambda>s. rows row_job (ConsoleJobs (ce_cron e) (ce_go e) (ct_store s)))\<rparr>"

definition wire_kms :: "'db console_env \<Rightarrow> 'db console_state con_kms" where
  "wire_kms e = \<lparr>
     ckm_KeyRings = (\<lambda>s. rows row_keyRing (ConsoleKeyRings (ce_rfc e) (ce_go e) (ct_store s))),
     ckm_CryptoKeys = (\<lambda>k s. rows row_cryptoKey (ConsoleCryptoKeys (ce_rfc e) (ce_go e) (ct_store s) k)),
     ckm_Encrypt = (\<lambda>k t s. ConsoleEncrypt (ce_rfc e) (ce_rnd e) (ct_store s) k t),
     ckm_Decrypt = (\<lambda>k t s. ConsoleDecrypt (ce_rfc e) (ct_store s) k t)\<rparr>"

definition wire_monitoring :: "'db console_env \<Rightarrow> 'db console_state con_monitoring" where
  "wire_monitoring e = \<lparr>cmo_Series = (\<lambda>n s. rows row_series (ConsoleSeries (ce_rfc e) (ce_go e) (ct_store s) n))\<rparr>"

definition wire_bigquery :: "'db console_env \<Rightarrow> 'db console_state con_bigquery" where
  "wire_bigquery e = \<lparr>
     cbq_Datasets = (\<lambda>s. Inr (map row_dataset (ConsoleDatasets (ce_bq e) (ct_bq s)))),
     cbq_Tables = (\<lambda>d s. Inr (map row_table (ConsoleTables (ce_bq e) d (ct_bq s)))),
     cbq_Query = (\<lambda>q s. let (x, b) = ConsoleQuery (ce_bq e) q (ct_bq s) in (query_view x, s\<lparr>ct_bq := b\<rparr>))\<rparr>"

definition wire_cloudsql :: "'db console_env \<Rightarrow> 'db console_state con_cloudsql" where
  "wire_cloudsql e = \<lparr>csq_Instances = (\<lambda>s. rows row_instance (ConsoleInstances (ce_rfc e) (ce_go e) (ct_store s)))\<rparr>"

definition wire_cloudrun :: "Kind \<Rightarrow> 'db console_env \<Rightarrow> 'db console_state con_cloudrun" where
  "wire_cloudrun k e = \<lparr>ccr_Resources = (\<lambda>s. rows row_resource (ConsoleResources k (ce_rfc e) (ce_go e) (ct_store s)))\<rparr>"

text \<open>The status cards; the keys and the port of the Redis server belong to its package.\<close>

definition memorystore_status :: "string list \<Rightarrow> int \<Rightarrow> json" where
  "memorystore_status keys port = JObj [(''host'', JStr ''127.0.0.1''), (''keyCount'', JNum (int (length keys))),
     (''keys'', jstrs (take 50 keys)), (''port'', JNum port)]"

definition bigtable_status :: "string \<Rightarrow> json" where
  "bigtable_status project = JObj [(''note'', JStr (''All data RPCs (ReadRows, MutateRow, '' @ [CHR 0xE2, CHR 0x80, CHR 0xA6] @
        '') return UNIMPLEMENTED. Connect to discover the surface; no data is stored.'')), (''project'', JStr project),
     (''state'', JStr ''stub''), (''surface'', JStr ''gRPC: google.bigtable.v2.Bigtable'')]"

definition spanner_status :: "string \<Rightarrow> json" where
  "spanner_status project = JObj [(''note'', JStr
        ''CreateSession / DeleteSession are implemented. ExecuteSql, BeginTransaction, etc. return UNIMPLEMENTED.''),
     (''project'', JStr project), (''state'', JStr ''stub''), (''surface'', JStr ''gRPC: google.spanner.v1.Spanner'')]"

definition enabled :: "bool \<Rightarrow> 'a \<Rightarrow> 'a option" where
  "enabled b x = (if b then Some x else None)"

definition console_options :: "'db console_env \<Rightarrow> Config \<Rightarrow> string \<Rightarrow> string \<Rightarrow> 'db console_state con_options" where
  "console_options e cfg version commit = (let c = Services cfg in \<lparr>
     co_Version = version, co_Commit = commit, co_Project = Project cfg, co_Health = (\<lambda>s. Some (ct_health s)),
     co_Logging = enabled (Logging_Enabled c) (wire_logging e),
     co_Storage = enabled (Storage_Enabled c) (wire_storage e),
     co_PubSub = enabled (PubSub_Enabled c) (wire_pubsub e),
     co_Firestore = enabled (Firestore_Enabled c) (wire_firestore e),
     co_Secrets = enabled (SecretManager_Enabled c) (wire_secrets e),
     co_Tasks = enabled (Tasks_Enabled c) (wire_tasks e),
     co_Scheduler = enabled (Scheduler_Enabled c) (wire_scheduler e),
     co_KMS = enabled (KMS_Enabled c) (wire_kms e),
     co_Monitoring = enabled (Monitoring_Enabled c) (wire_monitoring e),
     co_BigQuery = enabled (BigQuery_Enabled c) (wire_bigquery e),
     co_CloudSQL = enabled (CloudSQL_Enabled c) (wire_cloudsql e),
     co_CloudRun = enabled (CloudRun_Enabled c) (wire_cloudrun KindService e),
     co_Functions = enabled (Functions_Enabled c) (wire_cloudrun KindFunction e),
     co_Memorystore = enabled (Memorystore_Enabled c) \<lparr>cstat_Status = (\<lambda>_. memorystore_status (ce_redis e) (ce_redisPort e))\<rparr>,
     co_Bigtable = enabled (Bigtable_Enabled c) \<lparr>cstat_Status = (\<lambda>_. bigtable_status (Project cfg))\<rparr>,
     co_Spanner = enabled (Spanner_Enabled c) \<lparr>cstat_Status = (\<lambda>_. spanner_status (Project cfg))\<rparr>\<rparr>)"

section \<open>The plain dashboard\<close>

text \<open>Package \<^verbatim>\<open>internal/dashboard\<close>: the names of the stored resources by kind; errors of the store are dropped.\<close>

definition dash_groups :: "(string \<times> string) list" where
  "dash_groups = [(''buckets'', nsBuckets), (''topics'', nsTopics), (''subscriptions'', nsSubscriptions), (''secrets'', nsSecrets),
     (''queues'', nsQueues), (''tasks'', nsTasks), (''scheduler'', nsJobs), (''keyRings'', nsKeyRings), (''cryptoKeys'', nsCryptoKeys),
     (''sqlInstances'', nsInstances), (''firestoreDocs'', nsDocs)]"

definition dash_handleState :: "go_env \<Rightarrow> mem \<Rightarrow> http_resp" where
  "dash_handleState e s = respJSON 200 (JObj (map (\<lambda>(label, n).
     (label, jstrs (map fst (e_range e (case List s n [] of Inl _ \<Rightarrow> [] | Inr l \<Rightarrow> l))))) dash_groups))"

lemma dash_names: "map snd dash_groups = [''storage/buckets'', ''pubsub/topics'', ''pubsub/subscriptions'', ''secretmanager/secrets'',
    ''tasks/queues'', ''tasks/tasks'', ''scheduler/jobs'', ''kms/keyrings'', ''kms/cryptokeys'', ''cloudsql/instances'', ''firestore/documents'']"
  by (simp add: dash_groups_def ns_defs)

section \<open>What the console writes\<close>

lemma console_upload_effect:
  assumes "mem_ok m" "ConsoleUpload dct H e b n t d m st = (er, m', st')"
  shows "only_ns {objectNamespace b, objectDataNamespace b} m m'"
proof (cases "m' = m")
  case False
  then obtain ob ct where "storeObject H e b n ct d m st = (ob, m', st')"
    using assms(2) by (auto simp: ConsoleUpload_def Let_def split: if_splits sum.splits prod.splits)
  from storeObject_effect(1,2) [OF assms(1) this] show ?thesis by (auto simp: only_ns_def fun_eq_iff upd2_def)
qed (use assms in simp)

text \<open>What a request to a JSON endpoint changes, and through which operation.\<close>

lemma routeAPI_effect:
  assumes "routeAPI (console_options e cfg version commit) r s = (resp, s')" "mem_ok (ct_store s)" "s' \<noteq> s"
  shows "sub_path ''/console/api/pubsub/'' r = ''publish'' \<and>
      (\<exists>t d a x p. ConsolePublish (ce_go e) (ct_store s) (ct_pubsub s) t d a = (x, p) \<and> s' = s\<lparr>ct_pubsub := p\<rparr>) \<or>
    sub_path ''/console/api/storage/'' r = ''upload'' \<and> (\<exists>m st. s' = s\<lparr>ct_store := m, ct_storage := st\<rparr> \<and>
      only_ns {objectNamespace (query r ''bucket''), objectDataNamespace (query r ''bucket'')} (ct_store s) m) \<or>
    sub_path ''/console/api/bigquery/'' r = ''query'' \<and> (\<exists>db. s' = s\<lparr>ct_bq := (ct_bq s)\<lparr>bq_db := db\<rparr>\<rparr>)"
proof -
  let ?o = "console_options e cfg version commit"
  have wired: "co_PubSub ?o = Some c1 \<Longrightarrow> c1 = wire_pubsub e" "co_Storage ?o = Some c2 \<Longrightarrow> c2 = wire_storage e"
    "co_BigQuery ?o = Some c3 \<Longrightarrow> c3 = wire_bigquery e" for c1 c2 c3
    by (simp_all add: console_options_def enabled_def Let_def split: if_splits)
  obtain i h where i: "apiHandler ?o i = Some h" "h r s = (resp, s')"
    using assms(1,3) by (auto simp: routeAPI_def Let_def split: if_splits option.splits)
  then consider (a) "apiPubSub (wire_pubsub e) r s = (resp, s')" | (b) "apiStorage (wire_storage e) r s = (resp, s')"
    | (c) "apiBigQuery (wire_bigquery e) r s = (resp, s')"
    using api_changes [OF i(1), of r s] i(2) assms(3) wired by fastforce
  then show ?thesis
  proof cases
    case a
    then have "sub_path ''/console/api/pubsub/'' r = ''publish'' \<and>
        (\<exists>t d a x p. ConsolePublish (ce_go e) (ct_store s) (ct_pubsub s) t d a = (x, p) \<and> s' = s\<lparr>ct_pubsub := p\<rparr>)"
      using assms(3) by (auto simp: apiPubSub_def wire_pubsub_def Let_def answer_list_def split: if_splits sum.splits prod.splits) blast+
    then show ?thesis by blast
  next
    case b
    then obtain m st er where u: "sub_path ''/console/api/storage/'' r = ''upload''" "s' = s\<lparr>ct_store := m, ct_storage := st\<rparr>"
      "ConsoleUpload (ce_detect e) (ce_hash e) (ce_go e) (query r ''bucket'') (query r ''object'') (get_first (r_header r) ''Content-Type'')
         (take (2 ^ 20) (r_bytes r)) (ct_store s) (ct_storage s) = (er, m, st)"
      using assms(3) by (auto simp: apiStorage_def wire_storage_def Let_def answer_list_def split: if_splits sum.splits prod.splits option.splits)
    from console_upload_effect [OF assms(2) u(3)] u(1,2) show ?thesis by blast
  next
    case c
    then have "sub_path ''/console/api/bigquery/'' r = ''query''" "\<exists>db. s' = s\<lparr>ct_bq := (ct_bq s)\<lparr>bq_db := db\<rparr>\<rparr>"
      using assms(3) by (auto simp: apiBigQuery_def wire_bigquery_def Let_def answer_list_def ConsoleQuery_def split: if_splits sum.splits prod.splits)
    then show ?thesis by blast
  qed
qed

text \<open>
  C33: The console of the gateway can change the emulator in three ways only, each by a POST to one path: a publish touches the memory of
  the Pub/Sub service, an upload the objects of the bucket it names, and a query the database of the BigQuery service;
  documents of all other services, and all other memory, stay as they are.
\<close>

theorem console_writes_confined:
  assumes "console_serve L static (console_options e cfg version commit) r s = Some (resp, s')" "mem_ok (ct_store s)"
  shows "s' = s \<or> r_method r = POST \<and>
    (r_path r = ''/console/api/pubsub/publish'' \<and> (\<exists>p. s' = s\<lparr>ct_pubsub := p\<rparr>) \<or>
     r_path r = ''/console/api/storage/upload'' \<and> (\<exists>m st. s' = s\<lparr>ct_store := m, ct_storage := st\<rparr> \<and>
        only_ns {objectNamespace (query r ''bucket''), objectDataNamespace (query r ''bucket'')} (ct_store s) m) \<or>
     r_path r = ''/console/api/bigquery/query'' \<and> (\<exists>db. s' = s\<lparr>ct_bq := (ct_bq s)\<lparr>bq_db := db\<rparr>\<rparr>))"
proof (cases "s' = s")
  case False
  have at: "sub_path p r = x \<Longrightarrow> x \<noteq> [] \<Longrightarrow> p = ''/console/api/'' @ q \<Longrightarrow> hasPrefix (r_path r) ''/console/api/'' \<Longrightarrow>
      hd x \<noteq> CHR ''/'' \<Longrightarrow> r_path r = p @ x" for p x q
    by (auto simp: sub_path_def trimPrefix_def hasPrefix_def prefix_def split: if_splits)
  have post: "r_method r = POST" and api: "hasPrefix (r_path r) ''/console/api/''"
    using False console_reads_only [OF assms(1)] by blast+
  then have "routeAPI (console_options e cfg version commit) r s = (resp, s')"
    using assms(1) False by (auto simp: console_serve_def split: if_splits)
  from routeAPI_effect [OF this assms(2) False] show ?thesis
    using post at [OF _ _ _ api, of "''/console/api/pubsub/''" "''publish''"] at [OF _ _ _ api, of "''/console/api/storage/''" "''upload''"]
      at [OF _ _ _ api, of "''/console/api/bigquery/''" "''query''"] by auto
qed simp

section \<open>Publishing through the console\<close>

lemma peek_last:
  assumes "map content q' = map content q @ [m]" "ps_queues p n = q'" "length q < k"
  shows "\<exists>l x. map row_message (ConsolePeekMessages p n (int k)) = l @ [x] \<and> length l = length q \<and>
    jget ''messageId'' x = Some (JStr (gm_ID m)) \<and> jget ''data'' x = Some (JStr (gm_Data m))"
proof -
  have "length q' = Suc (length q)" using assms(1) by (metis length_append_singleton length_map)
  then obtain ys y where q': "q' = ys @ [y]" "length ys = length q" by (cases q' rule: rev_cases) auto
  then have y: "content y = m" using assms(1) by simp
  have "ConsolePeekMessages p n (int k) = map (\<lambda>m. (pm_MessageID (Message m), pm_PublishTime (Message m), pm_Attributes (Message m),
           fst (b64_decode (pm_Data (Message m))), Inflight m)) q'"
    using assms(2,3) q' by (auto simp: ConsolePeekMessages_def Let_def)
  moreover have "pm_MessageID (Message y) = gm_ID m" "fst (b64_decode (pm_Data (Message y))) = gm_Data m"
    using y by (auto simp: content_def to_received_def split: prod.splits)
  ultimately show ?thesis using q' by (simp add: row_message_def eqFold_def lower_char_def)
qed

lemma console_publish_effect:
  assumes "env_ok e" "mem_ok s" "subs_typed s" "Get s nsTopics t = Inr d" "subscribed s t n"
  shows "\<exists>i p' m. ConsolePublish e s p t data attrs = (Inr i, p') \<and> gm_ID m = i \<and> gm_Data m = data \<and>
    map content (ps_queues p' n) = map content (ps_queues p n) @ [m]"
proof -
  let ?ms = "[\<lparr>gm_ID = [], gm_Data = data, gm_Attributes = attrs, gm_OrderingKey = [], gm_PublishTime = 0\<rparr>]"
  obtain subs where subs: "subsForTopic e s t = Inr subs" by (simp add: subsForTopic_def)
  obtain batch sq where st: "stamp e 0 (ps_msgSeq p) ?ms = (batch, sq)" by fastforce
  from stamp_fields [OF st] obtain m where m: "batch = [m]" "gm_Data m = data" by (cases batch) auto
  let ?p' = "enqueue_subs subs batch (p\<lparr>ps_msgSeq := sq\<rparr>)"
  have "PublishMessages e s p t ?ms = (Inr [gm_ID m], ?p')"
    using assms(4) subs st m by (simp add: PublishMessages_def)
  moreover have "map content (ps_queues ?p' n) = map content (ps_queues p n) @ [m]"
    using enqueue_subs_decoded [OF subsForTopic_set(2) [OF assms(1-3) subs], of batch _ n]
      subsForTopic_set(1) [OF assms(1-3) subs, of n] assms(5) m by simp
  ultimately show ?thesis using m(2) by (simp add: ConsolePublish_def)
qed

text \<open>
  C34: A message published with the console's form is shown as the last one when the console then lists the messages of a
  subscription of the topic, under the identifier the form was answered with and with the text that was sent, as long as
  the limit of the listing reaches it.
\<close>

theorem console_publish_then_peek:
  assumes "env_ok (ce_go e)" "mem_ok (ct_store s)" "subs_typed (ct_store s)" "Get (ct_store s) nsTopics t = Inr d"
    and "subscribed (ct_store s) t n" "t \<noteq> []" "n \<noteq> []" "PubSub_Enabled (Services cfg)"
    and post: "r_method r = POST" "r_path r = ''/console/api/pubsub/publish''" "query r ''topic'' = t"
      "r_json r = Some (JObj [(''data'', JStr data)])"
    and peek: "r_path g = ''/console/api/pubsub/peek''" "query g ''subscription'' = n"
      "int (length (ps_queues (ct_pubsub s) n)) < query_limit g ''limit'' 20 200"
  shows "\<exists>i s' l x. console_serve L static (console_options e cfg v c) r s = Some (respJSON 200 (JObj [(''messageId'', JStr i)]), s') \<and>
    console_serve L static (console_options e cfg v c) g s' = Some (respJSON 200 (JObj [(''messages'', JArr (l @ [x]))]), s') \<and>
    length l = length (ps_queues (ct_pubsub s) n) \<and> jget ''messageId'' x = Some (JStr i) \<and> jget ''data'' x = Some (JStr data)"
proof -
  have api: "console_serve L static (console_options e cfg v c) r' s' = Some (apiPubSub (wire_pubsub e) r' s')"
    if "r_path r' = ''/console/api/pubsub/'' @ x" for r' s' x
    using that assms(8)
    by (simp add: console_serve_def hasPrefix_def routeAPI_def sub_path_def trimPrefix_def first_segment_def cutAt_def apiHandler_def
        console_options_def enabled_def Let_def)
  let ?k = "nat (query_limit g ''limit'' 20 200)"
  have k: "int ?k = query_limit g ''limit'' 20 200" "length (ps_queues (ct_pubsub s) n) < ?k" using peek(3) by linarith+
  obtain i p' m where pub: "ConsolePublish (ce_go e) (ct_store s) (ct_pubsub s) t data [] = (Inr i, p')" "gm_ID m = i" "gm_Data m = data"
    "map content (ps_queues p' n) = map content (ps_queues (ct_pubsub s) n) @ [m]"
    using console_publish_effect [OF assms(1-5)] by blast
  have "apiPubSub (wire_pubsub e) r s = (respJSON 200 (JObj [(''messageId'', JStr i)]), s\<lparr>ct_pubsub := p'\<rparr>)"
    using post assms(6) pub(1)
    by (simp add: apiPubSub_def sub_path_def trimPrefix_def wire_pubsub_def body_str_def body_doc_def fld_str_def fld_strmap_def eqFold_def
        lower_char_def)
  moreover obtain l x where lx: "map row_message (ConsolePeekMessages p' n (int ?k)) = l @ [x]" "length l = length (ps_queues (ct_pubsub s) n)"
    "jget ''messageId'' x = Some (JStr i)" "jget ''data'' x = Some (JStr data)"
    using peek_last [OF pub(4) refl k(2)] pub(2,3) by blast
  moreover have "apiPubSub (wire_pubsub e) g (s\<lparr>ct_pubsub := p'\<rparr>) = (respJSON 200 (JObj [(''messages'', JArr (l @ [x]))]), s\<lparr>ct_pubsub := p'\<rparr>)"
    using peek(1,2) assms(7) lx(1) [unfolded k(1)] by (simp add: apiPubSub_def sub_path_def trimPrefix_def wire_pubsub_def answer_list_def)
  ultimately show ?thesis using api [of r "''publish''"] api [of g "''peek''"] post(2) peek(1) by auto
qed

subsection \<open>A message on the demonstration topic\<close>

definition demo_con_env :: "unit console_env" where
  "demo_con_env = \<lparr>ce_rfc = (\<lambda>_. None), ce_go = env_at 0, ce_cron = cron_every, ce_rnd = (\<lambda>_. Inl ''no entropy''), ce_fs = fs_demo,
     ce_bq = demo_env \<lparr>drv_exec = (\<lambda>db _ _. (db, Inl ''read only'')), drv_query = (\<lambda>db _ _. (db, Inl ''read only''))\<rparr>,
     ce_hash = demo_hash, ce_detect = (\<lambda>_. ''text/plain''), ce_text = (\<lambda>_. []), ce_redis = [], ce_redisPort = 6379\<rparr>"

definition demo_con :: "unit console_state" where
  "demo_con = \<lparr>ct_store = demo_mem, ct_pubsub = empty_pubsub, ct_storage = st_state, ct_bq = bq_New ''p'' (), ct_health = new_Registry\<rparr>"

definition demo_html :: html_lib where
  "demo_html = \<lparr>ht_clone = None, ht_parse = (\<lambda>_. None), ht_exec = (\<lambda>v. (pv_Title v, None)), ht_script = (\<lambda>_. [])\<rparr>"

abbreviation demo_serve :: "http_req \<Rightarrow> unit console_state \<Rightarrow> (http_resp \<times> unit console_state) option" where
  "demo_serve \<equiv> console_serve demo_html (\<lambda>_. http_notFound) (console_options demo_con_env Default ''dev'' ''none'')"

definition con_req :: "meth \<Rightarrow> string \<Rightarrow> (string \<times> string) list \<Rightarrow> json option \<Rightarrow> http_req" where
  "con_req m p q j = \<lparr>r_method = m, r_path = p, r_query = q, r_header = [], r_host = [], r_tls = False, r_contentLength = 0,
     r_bytes = [], r_json = j\<rparr>"

lemma demo_subscribed: "subscribed demo_mem ''T'' ''S''"
  using demo_dec by (simp add: subscribed_def mem_lookup_def demo_mem_def demo_sub_def)

abbreviation demo_publish :: http_req where
  "demo_publish \<equiv> con_req POST ''/console/api/pubsub/publish'' [(''topic'', ''T'')] (Some (JObj [(''data'', JStr ''hi'')]))"

theorem console_publish_then_peek_witness:
  "\<exists>i s' x. demo_serve demo_publish demo_con = Some (respJSON 200 (JObj [(''messageId'', JStr i)]), s') \<and>
    demo_serve (con_req GET ''/console/api/pubsub/peek'' [(''subscription'', ''S'')] None) s' =
      Some (respJSON 200 (JObj [(''messages'', JArr [x])]), s') \<and> jget ''data'' x = Some (JStr ''hi'')"
proof -
  let ?g = "con_req GET ''/console/api/pubsub/peek'' [(''subscription'', ''S'')] None"
  have "env_ok (ce_go demo_con_env)" "mem_ok (ct_store demo_con)" "subs_typed (ct_store demo_con)"
    "Get (ct_store demo_con) nsTopics ''T'' = Inr (JsonB (enc_topic \<lparr>topic_Name = ''T''\<rparr>))" "subscribed (ct_store demo_con) ''T'' ''S''"
    "PubSub_Enabled (Services Default)"
    using demo_mem_ok demo_get demo_subscribed by (simp_all add: demo_con_env_def demo_con_def Default_def)
  moreover have "query_limit ?g ''limit'' 20 200 = 20" "ps_queues (ct_pubsub demo_con) ''S'' = []"
    by (simp_all add: query_limit_def query_def con_req_def get_first_def demo_con_def empty_pubsub_def)
  ultimately obtain i s' l x where *:
    "demo_serve demo_publish demo_con = Some (respJSON 200 (JObj [(''messageId'', JStr i)]), s')"
    "demo_serve ?g s' = Some (respJSON 200 (JObj [(''messages'', JArr (l @ [x]))]), s')" "length l = 0" "jget ''data'' x = Some (JStr ''hi'')"
    using console_publish_then_peek [of demo_con_env demo_con "''T''" _ "''S''" Default demo_publish "''hi''" ?g demo_html "\<lambda>_. http_notFound" "''dev''" "''none''"]
    by (fastforce simp: con_req_def query_def get_first_def)
  then show ?thesis by (intro exI [of _ i] exI [of _ s'] exI [of _ x]) simp
qed

theorem console_writes_confined_witness:
  "\<exists>resp s'. demo_serve demo_publish demo_con = Some (resp, s') \<and> ct_store s' = demo_mem"
proof -
  obtain resp s' where s: "demo_serve demo_publish demo_con = Some (resp, s')"
    by (simp add: console_serve_def con_req_def hasPrefix_def)
       (metis surj_pair)
  have "mem_ok (ct_store demo_con)" using demo_mem_ok by (simp add: demo_con_def)
  from console_writes_confined [OF s this] have "ct_store s' = ct_store demo_con" by (auto simp: con_req_def)
  then show ?thesis using s by (simp add: demo_con_def)
qed

theorem console_pages_agree_witness:
  "demo_serve (con_req GET ''/console/memorystore'' [] None) demo_con = Some (http_notFound, demo_con) \<and>
    (\<exists>v. demo_serve (con_req GET ''/console/pubsub'' [] None) demo_con = Some (v, demo_con) \<and> rs_code v = 200)"
proof -
  let ?o = "console_options demo_con_env Default ''dev'' ''none''"
  let ?p = "mk_page ''pubsub'' ''pubsub'' ''Pub/Sub'' ''swap_horiz'' ''/v1/projects/*/topics, gRPC'' (co_PubSub ?o \<noteq> None)"
  let ?m = "mk_page ''memorystore'' ''memorystore'' ''Memorystore'' ''memory'' ''Redis on its own port'' (co_Memorystore ?o \<noteq> None)"
  have "?p \<in> set (pages ?o)" "?m \<in> set (pages ?o)" unfolding pages_def by (simp_all only: list.set insert_iff simp_thms)
  note c = console_pages_agree [OF this(1), of "con_req GET ''/console/pubsub'' [] None" "[]" demo_html "\<lambda>_. http_notFound" demo_con]
    console_pages_agree [OF this(2), of "con_req GET ''/console/memorystore'' [] None" "[]" demo_html "\<lambda>_. http_notFound" demo_con]
  have on: "co_PubSub ?o = Some (wire_pubsub demo_con_env)" "co_Memorystore ?o = None"
    by (simp_all add: console_options_def enabled_def Default_def Let_def)
  then have "pageHandler demo_html ?o ''memorystore'' = None"
    "pageHandler demo_html ?o ''pubsub'' = Some (pagePubSub demo_html ?o)"
    by (simp_all add: pageHandler_def)
  moreover have "rs_code (pagePubSub demo_html ?o) = 200"
    by (simp add: pagePubSub_def simple_page_def render_def demo_html_def html_resp_def)
  ultimately show ?thesis using c by (simp add: mk_page_def con_req_def)
qed

end
