(* ===== verification/Command_Line.thy ===== *)
theory Command_Line
  imports Config Httpresp
begin

text \<open>
  The command line: \<^verbatim>\<open>cmd/gcp-local/main.go\<close> with the packages \<^verbatim>\<open>internal/pidfile\<close> and \<^verbatim>\<open>internal/auth\<close>.  Package \<^verbatim>\<open>flag\<close> is
  modelled as far as the commands use it.  The operating system, the HTTP client and the packages that a start
  calls are records of answers; the pid file is the document it holds, \<open>None\<close> when it cannot be read.
  Shown: the process that is started in the background does not start another one; the wait for it ends; what
  \<^verbatim>\<open>stop\<close> reports and removes; and that the commands find the port of the running emulator.
\<close>

section \<open>The pid file\<close>

record pid_info =
  pi_PID :: int
  pi_Port :: int
  pi_Host :: string

definition enc_pid :: "pid_info \<Rightarrow> json" where
  "enc_pid i = JObj [(''pid'', JNum (pi_PID i)), (''port'', JNum (pi_Port i)), (''host'', JStr (pi_Host i))]"

definition dec_pid :: "json \<Rightarrow> pid_info \<times> bool" where
  "dec_pid j = (let (p, o1) = fld_int ''pid'' j; (q, o2) = fld_int ''port'' j; (h, o3) = fld_str ''host'' j in
     (\<lparr>pi_PID = p, pi_Port = q, pi_Host = h\<rparr>, is_struct_doc j \<and> o1 \<and> o2 \<and> o3))"

text \<open>\<^verbatim>\<open>strconv.Atoi\<close> of the text of a document that is not read as a struct: the older format, a plain number.\<close>

fun plain_pid :: "blob \<Rightarrow> int option" where
  "plain_pid (JsonB (JNum n)) = (if in_int64 n then Some n else None)"
| "plain_pid (JsonB _) = None"
| "plain_pid (RawB s) = parseInt s"

fun unmarshal_pid :: "blob \<Rightarrow> pid_info option" where
  "unmarshal_pid (JsonB j) = (let (i, ok) = dec_pid j in if ok then Some i else None)"
| "unmarshal_pid (RawB _) = None"

text \<open>The callers only ask whether there was an error.\<close>

definition pid_Read :: "blob option \<Rightarrow> pid_info option" where
  "pid_Read f = (case f of None \<Rightarrow> None
     | Some d \<Rightarrow> (case unmarshal_pid d of Some i \<Rightarrow> Some i
        | None \<Rightarrow> map_option (\<lambda>n. \<lparr>pi_PID = n, pi_Port = 0, pi_Host = []\<rparr>) (plain_pid d)))"

text \<open>Making the directory and writing the file; a write that fails leaves the file in some state.\<close>

record pid_env =
  pe_mkdir :: "string option"
  pe_write :: "(string \<times> blob option) option"
  pe_remove :: "string option"

definition pid_Write :: "pid_env \<Rightarrow> pid_info \<Rightarrow> blob option \<Rightarrow> string option \<times> blob option" where
  "pid_Write e i f = (case pe_mkdir e of Some er \<Rightarrow> (Some er, f)
     | None \<Rightarrow> (case pe_write e of Some (er, f') \<Rightarrow> (Some er, f') | None \<Rightarrow> (None, Some (JsonB (enc_pid i)))))"

definition pid_Remove :: "pid_env \<Rightarrow> blob option \<Rightarrow> string option \<times> blob option" where
  "pid_Remove e f = (case f of None \<Rightarrow> (None, None)
     | Some _ \<Rightarrow> (case pe_remove e of Some er \<Rightarrow> (Some er, f) | None \<Rightarrow> (None, None)))"

text \<open>Whether signal 0 reaches the process is an answer of the operating system.\<close>

definition pid_Alive :: "bool \<Rightarrow> int \<Rightarrow> bool" where
  "pid_Alive signalled pid \<longleftrightarrow> 0 < pid \<and> signalled"

definition pid_String :: "pid_info \<Rightarrow> string" where
  "pid_String i = ''pid='' @ itoai (pi_PID i) @ '' host='' @ pi_Host i @ '' port='' @ itoai (pi_Port i)"

section \<open>Package flag\<close>

text \<open>
  \<^verbatim>\<open>FlagSet.Parse\<close>: the assignments in their order.  All flag sets are made with \<^verbatim>\<open>ExitOnError\<close>, so an error ends the process
  and is \<open>None\<close> here.  \<open>int0\<close> is \<^verbatim>\<open>strconv.ParseInt(_, 0, 64)\<close>.
\<close>

datatype flag_kind = IntFlag | StringFlag | BoolFlag

definition parseBool :: "string \<Rightarrow> bool option" where
  "parseBool s = (if s \<in> {''1'', ''t'', ''T'', ''true'', ''TRUE'', ''True''} then Some True
     else if s \<in> {''0'', ''f'', ''F'', ''false'', ''FALSE'', ''False''} then Some False else None)"

datatype flag_value = IntV int | StringV string | BoolV bool

fun flag_set :: "(string \<Rightarrow> int option) \<Rightarrow> flag_kind \<Rightarrow> string \<Rightarrow> flag_value option" where
  "flag_set int0 IntFlag s = map_option IntV (int0 s)"
| "flag_set int0 StringFlag s = Some (StringV s)"
| "flag_set int0 BoolFlag s = map_option BoolV (parseBool s)"

text \<open>The argument without its one or two minus signs; \<open>None\<close> when it is not a flag.\<close>

definition flag_text :: "string \<Rightarrow> string option" where
  "flag_text s = (case s of a # b # r \<Rightarrow> if a \<noteq> CHR ''-'' then None else if b = CHR ''-'' then Some r else Some (b # r)
     | _ \<Rightarrow> None)"

definition flag_split :: "string \<Rightarrow> string \<times> string option" where
  "flag_split t = (case cutAt (CHR ''='') t of None \<Rightarrow> (t, None) | Some (a, v) \<Rightarrow> (a, Some v))"

type_synonym assignments = "(string \<times> flag_value) list"

fun parse_flags :: "(string \<Rightarrow> int option) \<Rightarrow> (string \<times> flag_kind) list \<Rightarrow> string list \<Rightarrow> assignments option" where
  "parse_flags int0 fs [] = Some []"
| "parse_flags int0 fs (s # args) = (case flag_text s of None \<Rightarrow> Some []
     | Some t \<Rightarrow> if s = ''--'' then Some []
        else if t = [] \<or> hd t = CHR ''-'' \<or> hd t = CHR ''='' then None
        else let (name, v) = flag_split t in
          (case map_of fs name of None \<Rightarrow> None
           | Some BoolFlag \<Rightarrow> (case flag_set int0 BoolFlag (case v of None \<Rightarrow> ''true'' | Some x \<Rightarrow> x) of None \<Rightarrow> None
               | Some b \<Rightarrow> map_option (\<lambda>r. (name, b) # r) (parse_flags int0 fs args))
           | Some k \<Rightarrow> (case v of
                Some x \<Rightarrow> (case flag_set int0 k x of None \<Rightarrow> None
                    | Some b \<Rightarrow> map_option (\<lambda>r. (name, b) # r) (parse_flags int0 fs args))
              | None \<Rightarrow> (case args of [] \<Rightarrow> None
                  | x # rest \<Rightarrow> (case flag_set int0 k x of None \<Rightarrow> None
                      | Some b \<Rightarrow> map_option (\<lambda>r. (name, b) # r) (parse_flags int0 fs rest))))))"

text \<open>The value of a flag: the last assignment, or its default.\<close>

definition int_flag :: "assignments \<Rightarrow> string \<Rightarrow> int \<Rightarrow> int" where
  "int_flag m k d = (case map_of (rev m) k of Some (IntV i) \<Rightarrow> i | _ \<Rightarrow> d)"

definition string_flag :: "assignments \<Rightarrow> string \<Rightarrow> string \<Rightarrow> string" where
  "string_flag m k d = (case map_of (rev m) k of Some (StringV s) \<Rightarrow> s | _ \<Rightarrow> d)"

definition bool_flag :: "assignments \<Rightarrow> string \<Rightarrow> bool" where
  "bool_flag m k = (case map_of (rev m) k of Some (BoolV b) \<Rightarrow> b | _ \<Rightarrow> False)"

section \<open>start\<close>

definition start_flags :: "(string \<times> flag_kind) list" where
  "start_flags = [(''port'', IntFlag), (''config'', StringFlag), (''no-daemon'', BoolFlag), (''tls'', BoolFlag),
     (''__daemon-child'', BoolFlag)]"

definition loadConfig :: "(string \<Rightarrow> string + string) \<Rightarrow> (string \<Rightarrow> Config \<Rightarrow> string + Config) \<Rightarrow> string \<Rightarrow> int \<Rightarrow> string + Config" where
  "loadConfig readFile yaml path portOverride = (case Load readFile yaml path of Inl er \<Rightarrow> Inl er
     | Inr cfg \<Rightarrow> Inr (if portOverride \<noteq> 0 then cfg\<lparr>Port := portOverride\<rparr> else cfg))"

text \<open>The service account that is written to the credentials file; the key is a constant of the source.\<close>

definition fake_creds :: "string \<Rightarrow> string \<Rightarrow> json" where
  "fake_creds key project = JObj [(''type'', JStr ''service_account''), (''project_id'', JStr project),
     (''private_key_id'', JStr ''gcp-local-fake-key''), (''private_key'', JStr key),
     (''client_email'', JStr (''gcp-local@'' @ project @ ''.iam.gserviceaccount.com'')),
     (''client_id'', JStr ''000000000000000000000''), (''auth_uri'', JStr ''https://accounts.google.com/o/oauth2/auth''),
     (''token_uri'', JStr ''https://oauth2.googleapis.com/token''),
     (''auth_provider_x509_cert_url'', JStr ''https://www.googleapis.com/oauth2/v1/certs''),
     (''client_x509_cert_url'', JStr ''https://www.googleapis.com/robot/v1/metadata/x509/gcp-local'')]"

text \<open>
  What the packages answer that a foreground start calls, in its order: the configuration file, the TLS files, the credentials,
  tracing, the gateway, and the run of the gateway until it stops.
\<close>

record start_env =
  se_readFile :: "string \<Rightarrow> string + string"
  se_yaml :: "string \<Rightarrow> Config \<Rightarrow> string + Config"
  se_tlsPaths :: "string + string \<times> string"
  se_ensureCert :: "string option"
  se_creds :: "string \<Rightarrow> string + string"
  se_otel :: "string option"
  se_gateway :: "Config \<Rightarrow> string option"
  se_pid :: int
  se_pidfile :: pid_env
  se_run :: "Config \<Rightarrow> string option"

text \<open>
  A foreground start: its error, the pid file while the gateway runs (when it got that far, with the configuration it runs), and the pid file
  afterwards.
\<close>

type_synonym start_result = "string option \<times> (Config \<times> blob option) option \<times> blob option"

definition with_tls :: "start_env \<Rightarrow> bool \<Rightarrow> Config \<Rightarrow> string + Config" where
  "with_tls e useTLS cfg = (if \<not> useTLS then Inr cfg
     else (case se_tlsPaths e of Inl er \<Rightarrow> Inl (''tls paths: '' @ er)
       | Inr (c, k) \<Rightarrow> (case se_ensureCert e of Some er \<Rightarrow> Inl (''ensure cert: '' @ er)
          | None \<Rightarrow> Inr (cfg\<lparr>TLS_cfg := \<lparr>tls_Enabled = True, tls_CertFile = c, tls_KeyFile = k\<rparr>\<rparr>))))"

definition run_foreground :: "start_env \<Rightarrow> int \<Rightarrow> string \<Rightarrow> bool \<Rightarrow> blob option \<Rightarrow> start_result" where
  "run_foreground e port path useTLS f =
     (case loadConfig (se_readFile e) (se_yaml e) path port of Inl er \<Rightarrow> (Some (''load config: '' @ er), None, f)
      | Inr cfg0 \<Rightarrow> (case with_tls e useTLS cfg0 of Inl er \<Rightarrow> (Some er, None, f)
      | Inr cfg \<Rightarrow> (case se_creds e (Project cfg) of Inl er \<Rightarrow> (Some (''write creds: '' @ er), None, f)
      | Inr _ \<Rightarrow> (case se_otel e of Some er \<Rightarrow> (Some (''init otel: '' @ er), None, f)
      | None \<Rightarrow> (case se_gateway e cfg of Some er \<Rightarrow> (Some (''init gateway: '' @ er), None, f)
      | None \<Rightarrow> (case pid_Write (se_pidfile e) \<lparr>pi_PID = se_pid e, pi_Port = Port cfg, pi_Host = ''localhost:'' @ itoai (Port cfg)\<rparr> f of
           (Some er, f') \<Rightarrow> (Some (''pidfile: '' @ er), None, f')
         | (None, f') \<Rightarrow> (se_run e cfg, Some (cfg, f'), snd (pid_Remove (se_pidfile e) f'))))))))"

text \<open>
  A background start.  The arguments of the process it spawns are part of the result; then \<^verbatim>\<open>/healthz\<close> is asked until it answers or
  the deadline has passed.  \<open>de_now k\<close> is the reading of the clock before probe \<open>k\<close>, \<open>de_get k\<close> the status of the probe.
\<close>

record daemon_env =
  de_executable :: "string option"
  de_start :: "string + int"
  de_release :: "string option"
  de_begin :: time
  de_now :: "nat \<Rightarrow> time"
  de_get :: "nat \<Rightarrow> string \<Rightarrow> string + nat"

definition ns_second :: int where "ns_second = 1000000000"

partial_function (option) probe_loop :: "daemon_env \<Rightarrow> string \<Rightarrow> time \<Rightarrow> nat \<Rightarrow> bool option" where
  "probe_loop d url deadline k = (if de_now d k < deadline
     then (if de_get d k url = Inr 200 then Some True else probe_loop d url deadline (Suc k)) else Some False)"

definition childArgs :: "string list \<Rightarrow> string list" where
  "childArgs args = [''start'', ''--__daemon-child''] @ args"

definition health_url :: "bool \<Rightarrow> int \<Rightarrow> string" where
  "health_url useTLS port = (if useTLS then ''https'' else ''http'') @ ''://localhost:'' @ itoai port @ ''/healthz''"

text \<open>The error, or the line that is printed.\<close>

definition startDaemon :: "daemon_env \<Rightarrow> int \<Rightarrow> bool \<Rightarrow> (string + string) option" where
  "startDaemon d port useTLS = (case de_executable d of Some er \<Rightarrow> Some (Inl er)
     | None \<Rightarrow> (case de_start d of Inl er \<Rightarrow> Some (Inl (''spawn daemon: '' @ er))
     | Inr pid \<Rightarrow> (case de_release d of Some er \<Rightarrow> Some (Inl (''release: '' @ er))
     | None \<Rightarrow> map_option (\<lambda>ready. if ready then Inr (''gcp-local started on :'' @ itoai port @ '' (pid='' @ itoai pid @ '')'')
            else Inl ''daemon failed to become ready within 5s'')
          (probe_loop d (health_url useTLS port) (de_begin d + 5 * ns_second) 0))))"

text \<open>What a start does with its arguments: exit on a bad flag, spawn a process with arguments, or run in the foreground.\<close>

datatype start_plan = BadFlag | Spawn "string list" int bool | Foreground int string bool

definition start_plan :: "(string \<Rightarrow> int option) \<Rightarrow> string list \<Rightarrow> start_plan" where
  "start_plan int0 args = (case parse_flags int0 start_flags args of None \<Rightarrow> BadFlag
     | Some m \<Rightarrow> let port = int_flag m ''port'' 4443; useTLS = bool_flag m ''tls'' in
        if \<not> bool_flag m ''no-daemon'' \<and> \<not> bool_flag m ''__daemon-child'' then Spawn (childArgs args) port useTLS
        else Foreground port (string_flag m ''config'' []) useTLS)"

section \<open>env, gcloud-setup and gcloud-teardown\<close>

definition resolved_port :: "int \<Rightarrow> blob option \<Rightarrow> int" where
  "resolved_port port f = (let p = (if port = 0 then (case pid_Read f of Some i \<Rightarrow> pi_Port i | None \<Rightarrow> 0) else port)
     in if p = 0 then 4443 else p)"

definition runEnv :: "int \<Rightarrow> string \<Rightarrow> string \<Rightarrow> blob option \<Rightarrow> string list" where
  "runEnv port project credsPath f = (let host = ''localhost:'' @ itoai (resolved_port port f) in
     [''export STORAGE_EMULATOR_HOST=http://'' @ host, ''export PUBSUB_EMULATOR_HOST='' @ host,
      ''export FIRESTORE_EMULATOR_HOST='' @ host, ''export BIGTABLE_EMULATOR_HOST='' @ host,
      ''export SPANNER_EMULATOR_HOST='' @ host, ''export GOOGLE_CLOUD_PROJECT='' @ project,
      ''export GOOGLE_APPLICATION_CREDENTIALS='' @ credsPath])"

definition gcloudServices :: "string list" where
  "gcloudServices = [''storage'', ''pubsub'', ''secretmanager'', ''cloudtasks'', ''cloudscheduler'', ''cloudkms'', ''logging'',
     ''monitoring'', ''bigquery'', ''firestore'', ''run'', ''cloudfunctions'', ''sqladmin'']"

definition runGcloudSetup :: "int \<Rightarrow> string \<Rightarrow> string \<Rightarrow> bool \<Rightarrow> blob option \<Rightarrow> string list" where
  "runGcloudSetup port project cfgName useTLS f =
     (let endpoint = (if useTLS then ''https'' else ''http'') @ ''://localhost:'' @ itoai (resolved_port port f) @ ''/'' in
      [''gcloud config configurations create --no-activate '' @ cfgName @ '' 2>/dev/null || true'',
       ''gcloud config configurations activate '' @ cfgName, ''gcloud config set auth/disable_credentials true'',
       ''gcloud config set account local-dev'', ''gcloud config set project '' @ project] @
      map (\<lambda>svc. ''gcloud config set api_endpoint_overrides/'' @ svc @ '' '' @ endpoint) gcloudServices)"

definition runGcloudTeardown :: "string \<Rightarrow> bool \<Rightarrow> string list" where
  "runGcloudTeardown cfgName del = ''gcloud config configurations activate default'' #
     (if del then [''gcloud config configurations delete '' @ cfgName @ '' --quiet''] else [])"

section \<open>status, stop and reset\<close>

text \<open>
  \<open>sv_alive\<close> is the answer to signal 0, \<open>sv_get\<close> the HTTP client, \<open>sv_fmt\<close> how package \<^verbatim>\<open>fmt\<close> prints a decoded value and
  \<open>sv_range\<close> the order in which a map is visited.
\<close>

record status_env =
  sv_alive :: bool
  sv_get :: "string \<Rightarrow> string + http_resp"
  sv_fmt :: "json \<Rightarrow> string"
  sv_range :: "(string \<times> json) list \<Rightarrow> (string \<times> json) list"

fun body_services :: "blob option \<Rightarrow> (string \<times> json) list" where
  "body_services (Some (JsonB (JObj ms))) = (case map_of (rev ms) ''services'' of Some (JObj svcs) \<Rightarrow> AList.clearjunk (rev svcs) | _ \<Rightarrow> [])"
| "body_services _ = []"

definition runStatus :: "status_env \<Rightarrow> blob option \<Rightarrow> string list \<times> nat" where
  "runStatus e f = (case pid_Read f of None \<Rightarrow> ([''status: not running (no pidfile)''], 1)
     | Some i \<Rightarrow> if \<not> pid_Alive (sv_alive e) (pi_PID i) then ([''status: stale pidfile (pid='' @ itoai (pi_PID i) @ '' not alive)''], 1)
       else (case sv_get e (''http://'' @ pi_Host i @ ''/healthz'') of
          Inl er \<Rightarrow> ([''status: pid='' @ itoai (pi_PID i) @ '' alive, healthz unreachable: '' @ er], 2)
        | Inr resp \<Rightarrow> if rs_code resp \<noteq> 200 then ([''status: pid='' @ itoai (pi_PID i) @ '' alive, /healthz='' @ itoa (rs_code resp)], 2)
            else ((''status: ok '' @ pid_String i) #
              map (\<lambda>(k, v). ''  '' @ k @ '': '' @ sv_fmt e v) (sv_range e (body_services (rs_body resp))), 0)))"

text \<open>\<open>sp_alive k\<close> is the answer to the \<open>k\<close>-th signal 0, \<open>sp_term\<close> to SIGTERM.\<close>

record stop_env =
  sp_alive :: "nat \<Rightarrow> bool"
  sp_term :: "string option"
  sp_pidfile :: pid_env

text \<open>Up to \<open>n\<close> polls, of which this is number \<open>k\<close>.\<close>

fun stop_loop :: "stop_env \<Rightarrow> pid_info \<Rightarrow> nat \<Rightarrow> nat \<Rightarrow> blob option \<Rightarrow> string \<times> nat \<times> blob option" where
  "stop_loop e i k 0 f = (''stop: pid='' @ itoai (pi_PID i) @ '' still alive after 5s'', 1, f)"
| "stop_loop e i k (Suc n) f = (if \<not> pid_Alive (sp_alive e k) (pi_PID i)
     then (''stop: pid='' @ itoai (pi_PID i) @ '' terminated'', 0, snd (pid_Remove (sp_pidfile e) f))
     else stop_loop e i (Suc k) n f)"

definition runStop :: "stop_env \<Rightarrow> blob option \<Rightarrow> string \<times> nat \<times> blob option" where
  "runStop e f = (case pid_Read f of None \<Rightarrow> (''stop: not running (no pidfile)'', 1, f)
     | Some i \<Rightarrow> if \<not> pid_Alive (sp_alive e 0) (pi_PID i) then (''stop: stale pidfile removed'', 0, snd (pid_Remove (sp_pidfile e) f))
       else (case sp_term e of Some er \<Rightarrow> (''stop: signal failed: '' @ er, 1, f)
        | None \<Rightarrow> stop_loop e i 1 50 f))"

text \<open>The error of a reset, over the HTTP client.\<close>

definition runReset :: "(string \<Rightarrow> string + nat \<times> string) \<Rightarrow> blob option \<Rightarrow> string option" where
  "runReset post f = (case pid_Read f of None \<Rightarrow> Some ''not running (no pidfile)''
     | Some i \<Rightarrow> (case post (''http://'' @ pi_Host i @ ''/admin/reset'') of Inl er \<Rightarrow> Some er
        | Inr (code, body) \<Rightarrow> if 300 \<le> code then Some (''reset failed: '' @ itoa code @ '' '' @ body) else None))"

section \<open>The process in the background\<close>

lemma map_of_rev_Cons:
  "map_of (rev ((k, v) # m)) x = (case map_of (rev m) x of Some y \<Rightarrow> Some y | None \<Rightarrow> if x = k then Some v else None)"
  by (auto simp: map_add_def split: option.splits)

lemma flag_cons [simp]:
  "k \<noteq> k' \<Longrightarrow> int_flag ((k', v) # m) k d = int_flag m k d"
  "k \<noteq> k' \<Longrightarrow> string_flag ((k', v) # m) k s = string_flag m k s"
  "k \<noteq> k' \<Longrightarrow> bool_flag ((k', v) # m) k = bool_flag m k"
  by (auto simp: int_flag_def string_flag_def bool_flag_def map_add_def split: option.splits flag_value.splits)

lemma parse_child:
  "parse_flags int0 start_flags (''--__daemon-child'' # args) =
     map_option (\<lambda>r. (''__daemon-child'', BoolV True) # r) (parse_flags int0 start_flags args)"
  by (simp add: flag_text_def flag_split_def cutAt_def start_flags_def parseBool_def)

text \<open>
  When \<^verbatim>\<open>start\<close> spawns a process, that process reads the same port, configuration file and TLS flag and runs in the
  foreground: it does not spawn another one, unless the internal flag is given by hand.
\<close>

theorem child_runs_in_foreground:
  assumes "start_plan int0 args = Spawn cargs port useTLS" "parse_flags int0 start_flags args = Some m"
    and "''__daemon-child'' \<notin> fst ` set m"
  shows "\<exists>rest. cargs = ''start'' # rest \<and> start_plan int0 rest = Foreground port (string_flag m ''config'' []) useTLS"
proof -
  have none: "map_of (rev m) ''__daemon-child'' = None"
    using assms(3) by (simp add: map_of_eq_None_iff)
  then have "bool_flag ((''__daemon-child'', BoolV True) # m) ''__daemon-child''"
    by (simp add: bool_flag_def map_of_rev_Cons del: map_of.simps rev.simps)
  moreover have "cargs = ''start'' # ''--__daemon-child'' # args" "port = int_flag m ''port'' 4443" "useTLS = bool_flag m ''tls''"
    using assms(1,2) by (auto simp: start_plan_def childArgs_def Let_def split: if_splits)
  ultimately show ?thesis using assms(2)
    by (simp add: start_plan_def parse_child Let_def del: parse_flags.simps)
qed

theorem child_runs_in_foreground_witness:
  "\<exists>rest. childArgs [''--port=8080'', ''--config'', ''x.yaml''] = ''start'' # rest \<and>
     start_plan (\<lambda>_. Some 8080) rest = Foreground 8080 ''x.yaml'' False"
proof -
  let ?args = "[''--port=8080'', ''--config'', ''x.yaml'']" and ?m = "[(''port'', IntV 8080), (''config'', StringV ''x.yaml'')]"
  have p: "parse_flags (\<lambda>_. Some 8080) start_flags ?args = Some ?m"
    by (simp add: flag_text_def flag_split_def cutAt_def start_flags_def)
  then have "start_plan (\<lambda>_. Some 8080) ?args = Spawn (childArgs ?args) 8080 False"
    by (simp add: start_plan_def int_flag_def bool_flag_def del: parse_flags.simps)
  from child_runs_in_foreground [OF this p] show ?thesis by (simp add: string_flag_def)
qed

text \<open>With the internal flag set to false by hand every process spawns a further one.\<close>

lemma forced_daemon_spawns_again:
  "start_plan int0 [''--__daemon-child'', ''--__daemon-child=false''] =
     Spawn (childArgs [''--__daemon-child'', ''--__daemon-child=false'']) 4443 False"
  by (simp add: start_plan_def flag_text_def flag_split_def cutAt_def start_flags_def parseBool_def int_flag_def bool_flag_def)

section \<open>The wait for the process\<close>

lemma clock_steps:
  assumes "\<And>k. de_now d k + 100000000 \<le> de_now d (Suc k)" "de_begin d \<le> de_now d 0"
  shows "de_begin d + int k * 100000000 \<le> de_now d k"
proof (induction k)
  case (Suc k)
  have "int (Suc k) * 100000000 = int k * 100000000 + 100000000" by simp
  with Suc assms(1) [of k] show ?case by linarith
qed (simp add: assms)

lemma probe_loop_result:
  assumes "\<And>k. de_now d k + 100000000 \<le> de_now d (Suc k)" "de_begin d \<le> de_now d 0" "k + n = 50"
  shows "probe_loop d url (de_begin d + 5 * ns_second) k =
    Some (\<exists>i. k \<le> i \<and> de_get d i url = Inr 200 \<and> (\<forall>j. k \<le> j \<longrightarrow> j \<le> i \<longrightarrow> de_now d j < de_begin d + 5 * ns_second))"
  using assms(3)
proof (induction n arbitrary: k)
  case 0
  then have "\<not> de_now d k < de_begin d + 5 * ns_second" using clock_steps [OF assms(1,2), of k] by (simp add: ns_second_def)
  then show ?case by (subst probe_loop.simps) auto
next
  case (Suc n)
  show ?case
  proof (cases "de_now d k < de_begin d + 5 * ns_second \<and> de_get d k url \<noteq> Inr 200")
    case True
    have "probe_loop d url (de_begin d + 5 * ns_second) (Suc k) =
      Some (\<exists>i. Suc k \<le> i \<and> de_get d i url = Inr 200 \<and> (\<forall>j. Suc k \<le> j \<longrightarrow> j \<le> i \<longrightarrow> de_now d j < de_begin d + 5 * ns_second))"
      using Suc.prems by (intro Suc.IH) simp
    moreover have "(\<exists>i. Suc k \<le> i \<and> de_get d i url = Inr 200 \<and> (\<forall>j. Suc k \<le> j \<longrightarrow> j \<le> i \<longrightarrow> de_now d j < de_begin d + 5 * ns_second)) \<longleftrightarrow>
      (\<exists>i. k \<le> i \<and> de_get d i url = Inr 200 \<and> (\<forall>j. k \<le> j \<longrightarrow> j \<le> i \<longrightarrow> de_now d j < de_begin d + 5 * ns_second))"
      using True by (metis Suc_leD Suc_leI le_neq_implies_less)
    ultimately show ?thesis using True by (subst probe_loop.simps) simp
  next
    case False
    then show ?thesis by (subst probe_loop.simps) (auto intro: exI [of _ k])
  qed
qed

text \<open>
  The wait of a background start ends after at most fifty probes when the clock shows the pause of 100 ms between two of them,
  and the start succeeds exactly when a probe that begins before the deadline of five seconds is answered with 200.
\<close>

theorem daemon_wait_ends:
  assumes "\<And>k. de_now d k + 100000000 \<le> de_now d (Suc k)" "de_begin d \<le> de_now d 0"
    and "de_executable d = None" "de_start d = Inr pid" "de_release d = None"
  shows "startDaemon d port useTLS =
    Some (if \<exists>i < 50. de_get d i (health_url useTLS port) = Inr 200 \<and> (\<forall>j \<le> i. de_now d j < de_begin d + 5 * ns_second)
      then Inr (''gcp-local started on :'' @ itoai port @ '' (pid='' @ itoai pid @ '')'')
      else Inl ''daemon failed to become ready within 5s'')"
proof -
  have "i < 50" if "de_now d i < de_begin d + 5 * ns_second" for i
    using clock_steps [OF assms(1,2), of i] that by (simp add: ns_second_def)
  then have "(\<exists>i. 0 \<le> i \<and> de_get d i u = Inr 200 \<and> (\<forall>j. 0 \<le> j \<longrightarrow> j \<le> i \<longrightarrow> de_now d j < de_begin d + 5 * ns_second)) \<longleftrightarrow>
      (\<exists>i < 50. de_get d i u = Inr 200 \<and> (\<forall>j \<le> i. de_now d j < de_begin d + 5 * ns_second))" for u by auto
  then show ?thesis
    using probe_loop_result [OF assms(1,2), of 0 50 "health_url useTLS port"] assms(3-5) by (simp add: startDaemon_def)
qed

definition quick_daemon :: daemon_env where
  "quick_daemon = \<lparr>de_executable = None, de_start = Inr 77, de_release = None, de_begin = 0,
     de_now = (\<lambda>k. int k * 100000000 + 1), de_get = (\<lambda>k _. if k < 3 then Inl ''connection refused'' else Inr 200)\<rparr>"

theorem daemon_wait_ends_witness:
  "startDaemon quick_daemon 4443 False = Some (Inr (''gcp-local started on :'' @ itoai 4443 @ '' (pid='' @ itoai 77 @ '')''))"
proof -
  have q: "\<exists>i < 50. de_get quick_daemon i (health_url False 4443) = Inr 200 \<and>
      (\<forall>j \<le> i. de_now quick_daemon j < de_begin quick_daemon + 5 * ns_second)"
  proof (intro exI [of _ 3] conjI allI impI)
    fix j :: nat
    assume "j \<le> 3"
    then have "int j * 100000000 \<le> 3 * 100000000" by linarith
    then show "de_now quick_daemon j < de_begin quick_daemon + 5 * ns_second" by (simp add: quick_daemon_def ns_second_def)
  qed (simp_all add: quick_daemon_def)
  have "de_now quick_daemon k + 100000000 \<le> de_now quick_daemon (Suc k)" for k
    by (simp add: quick_daemon_def algebra_simps)
  from daemon_wait_ends [of quick_daemon 77 4443 False, OF this] show ?thesis
    unfolding if_P [OF q] by (simp add: quick_daemon_def)
qed

section \<open>stop\<close>

lemma stop_loop_result:
  "stop_loop e i k n f = (if \<exists>j. k \<le> j \<and> j < k + n \<and> \<not> pid_Alive (sp_alive e j) (pi_PID i)
     then (''stop: pid='' @ itoai (pi_PID i) @ '' terminated'', 0, snd (pid_Remove (sp_pidfile e) f))
     else (''stop: pid='' @ itoai (pi_PID i) @ '' still alive after 5s'', 1, f))"
proof (induction e i k n f rule: stop_loop.induct)
  case (2 e i k n f)
  have "(\<exists>j. k \<le> j \<and> j < k + Suc n \<and> \<not> pid_Alive (sp_alive e j) (pi_PID i)) \<longleftrightarrow>
      \<not> pid_Alive (sp_alive e k) (pi_PID i) \<or> (\<exists>j. Suc k \<le> j \<and> j < Suc k + n \<and> \<not> pid_Alive (sp_alive e j) (pi_PID i))"
    by (auto simp: less_Suc_eq_le) (metis Suc_leI le_neq_implies_less, use Suc_leD in blast)
  with 2 show ?case by simp blast
qed auto

text \<open>
  \<^verbatim>\<open>stop\<close> always ends; it reports success exactly when there is a pid file and the process is gone at once, or SIGTERM was
  delivered and the process is gone at one of the following fifty checks; then the pid file is removed, otherwise it is kept.
\<close>

theorem stop_reports:
  assumes "runStop e f = (msg, code, f')"
  shows "(code = 0 \<longleftrightarrow> (\<exists>i. pid_Read f = Some i \<and> (\<not> pid_Alive (sp_alive e 0) (pi_PID i) \<or>
       sp_term e = None \<and> (\<exists>k. 1 \<le> k \<and> k \<le> 50 \<and> \<not> pid_Alive (sp_alive e k) (pi_PID i))))) \<and>
    (if code = 0 then f' = snd (pid_Remove (sp_pidfile e) f) else code = 1 \<and> f' = f)"
proof -
  have "(\<exists>j. 1 \<le> j \<and> j < 1 + 50 \<and> P j) \<longleftrightarrow> (\<exists>j. 1 \<le> j \<and> j \<le> 50 \<and> P j)" for P :: "nat \<Rightarrow> bool"
    by (simp add: less_Suc_eq_le numeral_eq_Suc)
  then show ?thesis using assms
    by (cases "pid_Read f"; cases "sp_term e") (simp_all add: runStop_def stop_loop_result split: if_splits, blast+)
qed

section \<open>The port of the running emulator\<close>

lemma pid_roundtrip: "in_int64 (pi_PID i) \<Longrightarrow> in_int64 (pi_Port i) \<Longrightarrow> pid_Read (Some (JsonB (enc_pid i))) = Some i"
  by (simp add: pid_Read_def enc_pid_def dec_pid_def fld_int_def fld_str_def eqFold_def lower_char_def)

lemma run_foreground_Some:
  assumes "run_foreground e port path useTLS f = (er, Some (cfg, f1), f2)"
  shows "f1 = Some (JsonB (enc_pid \<lparr>pi_PID = se_pid e, pi_Port = Port cfg, pi_Host = ''localhost:'' @ itoai (Port cfg)\<rparr>))"
    "f2 = snd (pid_Remove (se_pidfile e) f1)" "er = se_run e cfg" "port \<noteq> 0 \<Longrightarrow> Port cfg = port"
    "tls_Enabled (TLS_cfg cfg) \<or> \<not> useTLS"
  using assms by (auto simp: run_foreground_def pid_Write_def with_tls_def loadConfig_def
      split: sum.splits prod.splits option.splits if_splits)

text \<open>
  While the gateway of a foreground start runs, the other commands find it: the pid file is read back as its process and
  its port, a command without a port uses the one the gateway listens on, and the port is the one of the command line
  whenever that is not zero, whatever the configuration file says.  When it stops, the pid file is gone if it can be removed.
\<close>

theorem commands_find_port:
  assumes "run_foreground e port path useTLS f = (er, Some (cfg, f1), f2)" "in_int64 (se_pid e)" "in_int64 (Port cfg)" "Port cfg \<noteq> 0"
  shows "pid_Read f1 = Some \<lparr>pi_PID = se_pid e, pi_Port = Port cfg, pi_Host = ''localhost:'' @ itoai (Port cfg)\<rparr> \<and>
    resolved_port 0 f1 = Port cfg \<and> (port \<noteq> 0 \<longrightarrow> Port cfg = port) \<and> (pe_remove (se_pidfile e) = None \<longrightarrow> f2 = None)"
proof -
  note r = run_foreground_Some [OF assms(1)]
  have p: "pid_Read f1 = Some \<lparr>pi_PID = se_pid e, pi_Port = Port cfg, pi_Host = ''localhost:'' @ itoai (Port cfg)\<rparr>"
    using assms(2,3) by (simp add: r(1) pid_roundtrip)
  moreover have "resolved_port 0 f1 = Port cfg" using assms(4) by (simp add: resolved_port_def p)
  ultimately show ?thesis using r(4) by (simp add: r(1,2) pid_Remove_def)
qed

definition start_world :: start_env where
  "start_world = \<lparr>se_readFile = (\<lambda>_. Inr ''port: 9000''), se_yaml = (\<lambda>_ c. Inr (c\<lparr>Port := 9000\<rparr>)), se_tlsPaths = Inl ''no home'',
     se_ensureCert = None, se_creds = (\<lambda>_. Inr ''creds.json''), se_otel = None, se_gateway = (\<lambda>_. None), se_pid = 77,
     se_pidfile = \<lparr>pe_mkdir = None, pe_write = None, pe_remove = None\<rparr>, se_run = (\<lambda>_. None)\<rparr>"

text \<open>The file asks for port 9000, and the default of the flag wins.\<close>

lemma start_world_run:
  "\<exists>cfg f1. run_foreground start_world 4443 ''x.yaml'' False None = (None, Some (cfg, f1), None) \<and> Port cfg = 4443"
  by (simp add: run_foreground_def start_world_def loadConfig_def Load_def Default_def with_tls_def pid_Write_def pid_Remove_def)

theorem commands_find_port_witness:
  "\<exists>cfg f1 f2. run_foreground start_world 4443 ''x.yaml'' False None = (None, Some (cfg, f1), f2) \<and> f2 = None \<and> resolved_port 0 f1 = 4443"
proof -
  obtain cfg f1 where *: "run_foreground start_world 4443 ''x.yaml'' False None = (None, Some (cfg, f1), None)" "Port cfg = 4443"
    using start_world_run by blast
  have i: "in_int64 (se_pid start_world)" "in_int64 (Port cfg)" "Port cfg \<noteq> 0" by (simp_all add: *(2) start_world_def in_int64_def)
  show ?thesis using commands_find_port [OF *(1) i] * by auto
qed

definition stop_world :: stop_env where
  "stop_world = \<lparr>sp_alive = (\<lambda>k. k < 3), sp_term = None, sp_pidfile = \<lparr>pe_mkdir = None, pe_write = None, pe_remove = None\<rparr>\<rparr>"

theorem stop_reports_witness:
  "\<exists>msg. runStop stop_world (Some (JsonB (JNum 77))) = (msg, 0, None)"
proof -
  obtain msg code f' where r: "runStop stop_world (Some (JsonB (JNum 77))) = (msg, code, f')" by (metis prod_cases3)
  have "pid_Read (Some (JsonB (JNum 77))) = Some \<lparr>pi_PID = 77, pi_Port = 0, pi_Host = []\<rparr>"
    by (simp add: pid_Read_def dec_pid_def fld_int_def fld_str_def in_int64_def)
  moreover have "\<exists>k \<ge> 1. k \<le> 50 \<and> \<not> pid_Alive (sp_alive stop_world k) 77"
    by (rule exI [of _ 3]) (simp add: stop_world_def pid_Alive_def)
  ultimately have "code = 0" using stop_reports [OF r] by (auto simp: stop_world_def)
  then show ?thesis using r stop_reports [OF r] by (simp add: stop_world_def pid_Remove_def)
qed

end
