(* ===== verification/Http_Mux.thy ===== *)
theory Http_Mux
  imports Cloud_Storage
begin

text \<open>
  What the gateway uses of \<^verbatim>\<open>net/http\<close>: the request multiplexer \<^verbatim>\<open>ServeMux\<close> of Go 1.22 and later, for patterns without a method, a
  host or a wildcard.  A pattern that ends with a slash stands for the whole tree below it, any other for its own path; the path
  of a request is compared segment by segment, each decoded on its own.  Shown: a path of its own wins, then the deepest tree,
  and neither depends on the order of the registrations.
\<close>

section \<open>Patterns and paths\<close>

text \<open>The segments behind the leading slash; the last one is empty when the text ends with a slash.\<close>

definition path_segs :: "string \<Rightarrow> string list" where
  "path_segs p = split_on (CHR ''/'') (drop 1 p)"

definition is_tree :: "string \<Rightarrow> bool" where
  "is_tree p \<longleftrightarrow> suffix ''/'' p"

definition segUnescape :: "string \<Rightarrow> string" where
  "segUnescape s = (case pathUnescape s of None \<Rightarrow> s | Some u \<Rightarrow> u)"

definition request_segs :: "string \<Rightarrow> string list" where
  "request_segs path = map segUnescape (path_segs path)"

text \<open>The segments that a pattern fixes.\<close>

definition pattern_segs :: "string \<Rightarrow> string list" where
  "pattern_segs p = (if is_tree p then butlast (path_segs p) else path_segs p)"

definition pat_covers :: "string \<Rightarrow> string list \<Rightarrow> bool" where
  "pat_covers p segs \<longleftrightarrow> (if is_tree p then strict_prefix (pattern_segs p) segs else pattern_segs p = segs)"

text \<open>A pattern is more specific than another: a single path over any tree, a deeper tree over a shallower one.\<close>

definition pat_rank :: "string \<Rightarrow> nat \<times> nat" where
  "pat_rank p = (if is_tree p then 0 else 1, length (pattern_segs p))"

definition rank_less :: "nat \<times> nat \<Rightarrow> nat \<times> nat \<Rightarrow> bool" where
  "rank_less a b \<longleftrightarrow> fst a < fst b \<or> fst a = fst b \<and> snd a < snd b"

type_synonym 'h mux = "(string \<times> 'h) list"

fun most_specific :: "(string \<times> 'h) list \<Rightarrow> (string \<times> 'h) option" where
  "most_specific [] = None"
| "most_specific (p # ps) = (case most_specific ps of None \<Rightarrow> Some p
     | Some q \<Rightarrow> if rank_less (pat_rank (fst p)) (pat_rank (fst q)) then Some q else Some p)"

definition mux_match :: "'h mux \<Rightarrow> string \<Rightarrow> (string \<times> 'h) option" where
  "mux_match m path = most_specific (filter (\<lambda>(p, _). pat_covers p (request_segs path)) m)"

text \<open>\<^verbatim>\<open>Handle\<close> panics on a pattern that is registered already.\<close>

definition mux_ok :: "'h mux \<Rightarrow> bool" where
  "mux_ok m \<longleftrightarrow> distinct (map fst m)"

text \<open>\<^verbatim>\<open>path.Clean\<close> on a rooted path, and \<^verbatim>\<open>cleanPath\<close>, which keeps a trailing slash.\<close>

fun clean_segs :: "string list \<Rightarrow> string list \<Rightarrow> string list" where
  "clean_segs out [] = rev out"
| "clean_segs out (s # ss) = (if s = [] \<or> s = ''.'' then clean_segs out ss
     else if s = ''..'' then clean_segs (tl out) ss else clean_segs (s # out) ss)"

definition cleanPath :: "string \<Rightarrow> string" where
  "cleanPath p = (if p = [] then ''/''
     else let q = (if hd p = CHR ''/'' then p else CHR ''/'' # p);
              np = CHR ''/'' # join ''/'' (clean_segs [] (path_segs q)) in
       if suffix ''/'' q \<and> np \<noteq> ''/'' then np @ ''/'' else np)"

section \<open>Finding the handler\<close>

text \<open>A match is exact when it leaves nothing for the tree of the pattern.\<close>

definition exact_match :: "(string \<times> 'h) option \<Rightarrow> string \<Rightarrow> bool" where
  "exact_match n path = (case n of None \<Rightarrow> False
     | Some (p, _) \<Rightarrow> if \<not> is_tree p then True else suffix ''/'' path \<and> length (path_segs p) = length (path_segs path))"

text \<open>
  What is found for a request: a redirection to a path, a handler, or nothing, together with the pattern; \<open>esc\<close> is the escaped
  path of the URL and \<open>path\<close> the decoded one.
\<close>

datatype 'h mux_found = Redirect string | Found 'h | NotFoundHere

definition findHandler :: "'h mux \<Rightarrow> string \<Rightarrow> http_req \<Rightarrow> 'h mux_found \<times> string" where
  "findHandler m esc r =
    (let connect = r_method r = OtherMethod ''CONNECT'';
         path = (if connect then esc else cleanPath esc);
         n = mux_match m path in
      if \<not> exact_match n path \<and> \<not> suffix ''/'' path \<and> exact_match (mux_match m (path @ ''/'')) (path @ ''/'')
      then (let to = cleanPath (r_path r) @ ''/'' in (Redirect to, to))
      else if \<not> connect \<and> path \<noteq> esc then (Redirect path, case n of None \<Rightarrow> [] | Some (p, _) \<Rightarrow> p)
      else (case n of None \<Rightarrow> (NotFoundHere, []) | Some (p, h) \<Rightarrow> (Found h, p)))"

text \<open>\<^verbatim>\<open>http.RedirectHandler\<close> with 301; the text of the URL is a parameter.\<close>

fun htmlEscape :: "string \<Rightarrow> string" where
  "htmlEscape [] = []"
| "htmlEscape (c # s) = (if c = CHR ''&'' then ''&amp;'' else if c = CHR ''<'' then ''&lt;'' else if c = CHR ''>'' then ''&gt;''
     else if c = CHR 0x22 then ''&#34;'' else if c = CHR 0x27 then ''&#39;'' else [c]) @ htmlEscape s"

definition http_redirect :: "string \<Rightarrow> http_req \<Rightarrow> http_resp" where
  "http_redirect url r = \<lparr>rs_code = 301, rs_header = (''Location'', url) #
       (if r_method r = GET \<or> r_method r = OtherMethod ''HEAD'' then [(''Content-Type'', ''text/html; charset=utf-8'')] else []),
     rs_body = (if r_method r = GET then Some (RawB (''<a href='' @ [CHR 0x22] @ htmlEscape url @ [CHR 0x22] @ ''>Moved Permanently</a>.\<newline>\<newline>'')) else None)\<rparr>"

section \<open>The most specific pattern\<close>

lemma rank_less_order:
  "\<not> rank_less a a" "rank_less a b \<Longrightarrow> rank_less b c \<Longrightarrow> rank_less a c" "\<not> rank_less a b \<Longrightarrow> \<not> rank_less b a \<Longrightarrow> a = b"
  "\<not> rank_less a b \<Longrightarrow> \<not> rank_less b c \<Longrightarrow> \<not> rank_less a c"
  by (auto simp: rank_less_def prod_eq_iff)

lemma most_specific_None [simp]: "most_specific ps = None \<longleftrightarrow> ps = []"
  by (cases ps) (auto split: option.splits)

lemma most_specific_Some:
  "most_specific ps = Some q \<Longrightarrow> q \<in> set ps \<and> (\<forall>p \<in> set ps. \<not> rank_less (pat_rank (fst q)) (pat_rank (fst p)))"
proof (induction ps arbitrary: q)
  case (Cons p ps)
  show ?case
  proof (cases "most_specific ps")
    case None
    then show ?thesis using Cons.prems by (simp add: rank_less_order(1))
  next
    case (Some x)
    from Cons.IH [OF this] have x: "x \<in> set ps" "\<forall>p \<in> set ps. \<not> rank_less (pat_rank (fst x)) (pat_rank (fst p))" by auto
    show ?thesis
    proof (cases "rank_less (pat_rank (fst p)) (pat_rank (fst x))")
      case True
      then have "q = x" using Cons.prems Some by simp
      have "\<not> rank_less (pat_rank (fst x)) (pat_rank (fst p))" using rank_less_order(1,2) True by meson
      then show ?thesis using x \<open>q = x\<close> by simp
    next
      case False
      then have "q = p" using Cons.prems Some by simp
      have "\<not> rank_less (pat_rank (fst p)) (pat_rank (fst y))" if "y \<in> set ps" for y
        by (rule rank_less_order(4) [OF False bspec [OF x(2) that]])
      then show ?thesis using \<open>q = p\<close> rank_less_order(1) by auto
    qed
  qed
qed simp

text \<open>Rooted patterns with the same kind and the same segments are the same text.\<close>

definition rooted :: "string \<Rightarrow> bool" where
  "rooted p \<longleftrightarrow> prefix ''/'' p"

lemma rooted_join: "rooted p \<Longrightarrow> p = CHR ''/'' # join ''/'' (path_segs p)"
  by (cases p) (auto simp: rooted_def path_segs_def join_split_on)

lemma split_on_nonempty_last: "s \<noteq> [] \<Longrightarrow> last s = c \<longleftrightarrow> last (split_on c s) = []"
proof (induction s)
  case (Cons x xs)
  show ?case
  proof (cases xs)
    case Nil
    then show ?thesis by simp
  next
    case (Cons y ys)
    obtain w ws where w: "split_on c xs = w # ws" by (cases "split_on c xs") auto
    have "w = [] \<Longrightarrow> ws \<noteq> []" using Cons w by (auto split: if_splits list.splits)
    then show ?thesis using Cons.IH Cons w by auto
  qed
qed simp

lemma suffix_last_split: "suffix [c] (c # s) \<longleftrightarrow> last (split_on c s) = []"
proof (cases s rule: rev_cases)
  case (snoc ys y)
  then have "suffix [c] (c # s) \<longleftrightarrow> last s = c" by (auto simp: suffix_def)
  with snoc show ?thesis using split_on_nonempty_last [of s c] by simp
qed simp

lemma tree_last:
  assumes "rooted p"
  shows "is_tree p \<longleftrightarrow> last (path_segs p) = []"
proof -
  have "suffix [c] (c # s) \<longleftrightarrow> last (split_on c s) = []" for c and s :: string
    by (rule suffix_last_split)
  from this [of "CHR ''/''" "drop 1 p"] show ?thesis
    using assms by (cases p) (simp_all add: is_tree_def rooted_def path_segs_def)
qed

lemma pattern_eq:
  assumes "rooted p" "rooted q" "is_tree p = is_tree q" "pattern_segs p = pattern_segs q"
  shows "p = q"
proof -
  have "path_segs p \<noteq> []" "path_segs q \<noteq> []" by (simp_all add: path_segs_def)
  moreover have "last (path_segs p) = last (path_segs q)" if "is_tree p"
    using that assms(3) tree_last [OF assms(1)] tree_last [OF assms(2)] by simp
  ultimately have "path_segs p = path_segs q"
    using assms(3,4) append_butlast_last_id [of "path_segs p"] append_butlast_last_id [of "path_segs q"]
    unfolding pattern_segs_def by (metis (full_types))
  then show ?thesis using rooted_join [OF assms(1)] rooted_join [OF assms(2)] by simp
qed

lemma same_rank_covers:
  assumes "rooted p" "rooted q" "pat_covers p segs" "pat_covers q segs" "pat_rank p = pat_rank q"
  shows "p = q"
proof (rule pattern_eq [OF assms(1,2)])
  show t: "is_tree p = is_tree q" using assms(5) by (auto simp: pat_rank_def split: if_splits)
  have "length (pattern_segs p) = length (pattern_segs q)" using assms(5) by (simp add: pat_rank_def split: if_splits)
  moreover have "prefix (pattern_segs p) segs" "prefix (pattern_segs q) segs"
    using assms(3,4) by (auto simp: pat_covers_def strict_prefix_def split: if_splits)
  ultimately show "pattern_segs p = pattern_segs q" by (metis append_eq_conv_conj prefix_def)
qed

definition mux_wf :: "'h mux \<Rightarrow> bool" where
  "mux_wf m \<longleftrightarrow> mux_ok m \<and> list_all (\<lambda>(p, _). rooted p) m"

text \<open>
  The handler of a path is that of the one registered pattern that covers it and is more specific than all others that do;
  there is none exactly when no pattern covers the path.
\<close>

lemma mux_match_iff:
  assumes "mux_wf m"
  shows "mux_match m path = Some (p, h) \<longleftrightarrow> (p, h) \<in> set m \<and> pat_covers p (request_segs path) \<and>
    (\<forall>(q, _) \<in> set m. pat_covers q (request_segs path) \<longrightarrow> q \<noteq> p \<longrightarrow> rank_less (pat_rank q) (pat_rank p))"
    (is "?L \<longleftrightarrow> ?R")
proof
  have root: "rooted q" if "(q, g) \<in> set m" for q g using assms that by (auto simp: mux_wf_def list_all_iff)
  assume ?L
  then have s: "(p, h) \<in> set m" "pat_covers p (request_segs path)"
    "\<And>q g. (q, g) \<in> set m \<Longrightarrow> pat_covers q (request_segs path) \<Longrightarrow> \<not> rank_less (pat_rank p) (pat_rank q)"
    using most_specific_Some [of "filter (\<lambda>(p, _). pat_covers p (request_segs path)) m" "(p, h)"] by (auto simp: mux_match_def)
  moreover have "rank_less (pat_rank q) (pat_rank p)" if "(q, g) \<in> set m" "pat_covers q (request_segs path)" "q \<noteq> p" for q g
    using s(3) [OF that(1,2)] same_rank_covers [OF root [OF that(1)] root [OF s(1)] that(2) s(2)] that(3) rank_less_order(3) by blast
  ultimately show ?R by auto
next
  assume R: ?R
  let ?f = "filter (\<lambda>(p, _). pat_covers p (request_segs path)) m"
  have "(p, h) \<in> set ?f" using R by simp
  then have "?f \<noteq> []" by (metis empty_iff list.set(1))
  then obtain q g where q: "most_specific ?f = Some (q, g)" using most_specific_None by (metis not_None_eq prod.collapse)
  from most_specific_Some [OF this] R have m: "(q, g) \<in> set m" "pat_covers q (request_segs path)"
    "\<not> rank_less (pat_rank q) (pat_rank p)" by auto
  with R have "q = p" by blast
  moreover have "distinct (map fst m)" using assms by (simp add: mux_wf_def mux_ok_def)
  ultimately have "g = h" using m(1) R by (meson eq_key_imp_eq_value)
  with q \<open>q = p\<close> show ?L by (simp add: mux_match_def)
qed

lemma mux_match_None: "mux_match m path = None \<longleftrightarrow> (\<forall>(p, _) \<in> set m. \<not> pat_covers p (request_segs path))"
  by (auto simp: mux_match_def filter_empty_conv)

lemma mux_match_mem: "mux_match m path = Some (p, h) \<Longrightarrow> (p, h) \<in> set m \<and> pat_covers p (request_segs path)"
  using most_specific_Some [of "filter (\<lambda>(p, _). pat_covers p (request_segs path)) m" "(p, h)"] by (auto simp: mux_match_def)

text \<open>The order of the registrations does not matter.\<close>

lemma mux_match_perm:
  assumes "mux_wf m" "mset m' = mset m"
  shows "mux_match m' path = mux_match m path"
proof -
  have s: "set m' = set m" and d: "mset (map fst m') = mset (map fst m)" using assms(2) by (metis set_mset_mset, metis mset_map)
  from mset_eq_imp_distinct_iff [OF d] assms(1) have "mux_wf m'" by (simp add: mux_wf_def mux_ok_def list_all_iff s)
  note i = mux_match_iff [OF this] mux_match_iff [OF assms(1)]
  show ?thesis
  proof (cases "mux_match m path")
    case None
    then have "mux_match m' path = None" unfolding mux_match_None s .
    with None show ?thesis by simp
  next
    case (Some x)
    then obtain p h where x: "mux_match m path = Some (p, h)" by (cases x) auto
    have "mux_match m' path = Some (p, h)" unfolding i(1) s using x unfolding i(2) .
    with x show ?thesis by simp
  qed
qed

text \<open>A clean path without an escape is looked up as it is.\<close>

lemma segUnescape_plain: "CHR ''%'' \<notin> set s \<Longrightarrow> segUnescape s = s"
proof -
  have "CHR ''%'' \<notin> set s \<Longrightarrow> pathUnescape s = Some s" by (induction s) auto
  then show "CHR ''%'' \<notin> set s \<Longrightarrow> segUnescape s = s" by (simp add: segUnescape_def)
qed

lemma findHandler_mem:
  "findHandler m esc r = (Found h, p) \<Longrightarrow> (p, h) \<in> set m"
  using mux_match_mem by (auto simp: findHandler_def Let_def split: if_splits option.splits prod.splits dest!: mux_match_mem)

end
