(* ===== verification/Gateway_Server.thy ===== *)
theory Gateway_Server
  imports Http_Mux Gateway Console_Services
begin

text \<open>
  The gateway as one server: \<^verbatim>\<open>New\<close> with the constructors of the services and the patterns that their \<^verbatim>\<open>Register\<close>
  methods mount, the HTTP handler that chooses between gRPC, the multiplexer and the XML surface of Cloud Storage, and \<^verbatim>\<open>Run\<close> with the
  order of the shutdown.  Shown: no configuration registers a pattern twice, every route is the one its pattern says, a request changes
  only what belongs to its route, and after the shutdown nothing runs any more.
\<close>

section \<open>State and environment\<close>

record 'db server =
  sv_cfg :: Config
  sv_version :: string
  sv_commit :: string
  sv_gw :: gateway
  sv_health :: Registry
  sv_storage :: "storage_state option"
  sv_logging :: "nat option"
  sv_fs :: "firestore option"
  sv_bq :: "'db bigquery option"
  sv_csql :: "cloudsql option"
  sv_meta :: "meta_service option"
  sv_mem :: "int option"
  sv_bt :: bool
  sv_sp :: bool

text \<open>
  The libraries and the answers of the operating system.  \<open>ve_go i\<close> is the environment of the \<open>i\<close>-th seeded bucket, \<open>ve_walk\<close> the files
  below a directory, \<open>ve_escaped\<close> the escaped path of the URL of a request and \<open>ve_url\<close> the text of a URL with
  another path; \<open>ve_db\<close> is the empty database behind \<^verbatim>\<open>:memory:\<close>.
\<close>

record 'db server_env = "'db console_env" +
  ve_sha1 :: "json \<Rightarrow> string"
  ve_sign :: "string \<Rightarrow> string + string"
  ve_jwk :: "string \<times> string"
  ve_world :: run_world
  ve_multipart :: multipart_lib
  ve_host :: sql_host
  ve_db :: 'db
  ve_html :: html_lib
  ve_static :: "string \<Rightarrow> http_resp"
  ve_index :: string
  ve_escaped :: "http_req \<Rightarrow> string"
  ve_url :: "http_req \<Rightarrow> string \<Rightarrow> string"

definition env_lib :: "('db, 'x) server_env_scheme \<Rightarrow> gw_lib" where
  "env_lib e = \<lparr>gl_rfc = ce_rfc e, gl_sha1 = ve_sha1 e, gl_rnd = ce_rnd e, gl_sign = ve_sign e, gl_cron = ce_cron e, gl_world = ve_world e\<rparr>"

section \<open>The patterns\<close>

datatype route = RtHealth | RtReset | RtDashIndex | RtDashState | RtV1 | RtV2 | RtV3
  | RtBuckets | RtBucketPath | RtUpload | RtDownload | RtUploadRoot | RtDownloadRoot
  | RtLogWrite | RtLogList | RtBigQuery | RtCloudSQL | RtMetadata
  | RtConIndex | RtConPage | RtConStatic | RtConAPI

definition dash_Register :: "route mux" where
  "dash_Register = [(''/dashboard'', RtDashIndex), (''/dashboard/'', RtDashIndex), (''/dashboard/api/state'', RtDashState)]"

definition storage_Register :: "route mux" where
  "storage_Register = [(''/storage/v1/b'', RtBuckets), (''/storage/v1/b/'', RtBucketPath), (''/upload/storage/v1/b/'', RtUpload),
     (''/download/storage/v1/b/'', RtDownload), (''/b'', RtBuckets), (''/b/'', RtBucketPath), (''/upload/b/'', RtUploadRoot),
     (''/download/b/'', RtDownloadRoot)]"

definition logging_Register :: "route mux" where
  "logging_Register = [(''/v2/entries:write'', RtLogWrite), (''/v2/entries:list'', RtLogList)]"

definition bq_Register :: "route mux" where
  "bq_Register = [(''/bigquery/v2/projects/'', RtBigQuery)]"

definition csql_Register :: "route mux" where
  "csql_Register = [(''/sql/v1beta4/projects/'', RtCloudSQL)]"

definition meta_Register :: "route mux" where
  "meta_Register = [(''/computeMetadata/'', RtMetadata)]"

definition con_Register :: "route mux" where
  "con_Register = [(''/console'', RtConIndex), (''/console/'', RtConPage), (''/console/static/'', RtConStatic), (''/console/api/'', RtConAPI)]"

definition when_on :: "bool \<Rightarrow> 'a list \<Rightarrow> 'a list" where
  "when_on b xs = (if b then xs else [])"

text \<open>What \<^verbatim>\<open>New\<close> mounts, in its order.\<close>

definition New_mux :: "Config \<Rightarrow> route mux" where
  "New_mux cfg = (let c = Services cfg in
     [(''/healthz'', RtHealth), (''/admin/reset'', RtReset)] @ when_on (Dashboard cfg) dash_Register @
     [(''/v1/projects/'', RtV1), (''/v2/projects/'', RtV2), (''/v3/projects/'', RtV3)] @
     when_on (Storage_Enabled c) storage_Register @ when_on (Logging_Enabled c) logging_Register @
     when_on (BigQuery_Enabled c) bq_Register @ when_on (CloudSQL_Enabled c) csql_Register @
     when_on (Metadata_Enabled c) meta_Register @ when_on (Dashboard cfg) con_Register)"

section \<open>The handlers behind the routes\<close>

text \<open>The part of the server that the console reaches, and back.\<close>

definition to_console :: "'db server_env \<Rightarrow> 'db server \<Rightarrow> 'db console_state" where
  "to_console e sv = \<lparr>ct_store = g_store (sv_gw sv),
     ct_pubsub = (case g_pubsub (sv_gw sv) of None \<Rightarrow> empty_pubsub | Some p \<Rightarrow> p),
     ct_storage = (case sv_storage sv of None \<Rightarrow> \<lparr>ss_generation = 0, ss_sessions = [], ss_resumableSeq = 0\<rparr> | Some st \<Rightarrow> st),
     ct_bq = (case sv_bq sv of None \<Rightarrow> bq_New [] (ve_db e) | Some b \<Rightarrow> b), ct_health = sv_health sv\<rparr>"

definition from_console :: "'db console_state \<Rightarrow> 'db server \<Rightarrow> 'db server" where
  "from_console c sv = sv\<lparr>sv_gw := (sv_gw sv)\<lparr>g_store := ct_store c, g_pubsub := map_option (\<lambda>_. ct_pubsub c) (g_pubsub (sv_gw sv))\<rparr>,
     sv_storage := map_option (\<lambda>_. ct_storage c) (sv_storage sv), sv_bq := map_option (\<lambda>_. ct_bq c) (sv_bq sv)\<rparr>"

definition con_opts :: "'db server_env \<Rightarrow> 'db server \<Rightarrow> 'db console_state con_options" where
  "con_opts e sv = console_options (console_env.truncate e) (sv_cfg sv) (sv_version sv) (sv_commit sv)"

definition on_gw :: "(gateway \<Rightarrow> http_resp \<times> gateway) \<Rightarrow> 'db server \<Rightarrow> http_resp \<times> 'db server" where
  "on_gw h sv = (let (resp, g) = h (sv_gw sv) in (resp, sv\<lparr>sv_gw := g\<rparr>))"

definition set_store :: "mem \<Rightarrow> 'db server \<Rightarrow> 'db server" where
  "set_store s sv = sv\<lparr>sv_gw := (sv_gw sv)\<lparr>g_store := s\<rparr>\<rparr>"

definition on_storage :: "(mem \<Rightarrow> storage_state \<Rightarrow> st_result) \<Rightarrow> 'db server \<Rightarrow> http_resp \<times> 'db server" where
  "on_storage h sv = (case sv_storage sv of None \<Rightarrow> (http_notFound, sv)
     | Some st \<Rightarrow> (let (resp, s, st') = h (g_store (sv_gw sv)) st in (resp, set_store s (sv\<lparr>sv_storage := Some st'\<rparr>))))"

definition serve_route :: "'db server_env \<Rightarrow> route \<Rightarrow> http_req \<Rightarrow> 'db server \<Rightarrow> http_resp \<times> 'db server" where
  "serve_route e rt r sv = (let s = g_store (sv_gw sv) in case rt of
       RtHealth \<Rightarrow> (health_Handler (sv_health sv), sv)
     | RtReset \<Rightarrow> on_gw (handleReset (ce_go e) r) sv
     | RtDashIndex \<Rightarrow> (html_resp (ve_index e), sv)
     | RtDashState \<Rightarrow> (dash_handleState (ce_go e) s, sv)
     | RtV1 \<Rightarrow> on_gw (dispatchV1 (env_lib e) (ce_go e) r) sv
     | RtV2 \<Rightarrow> on_gw (dispatchV2 (env_lib e) (ce_go e) r) sv
     | RtV3 \<Rightarrow> on_gw (dispatchV3 (env_lib e) (ce_go e) r) sv
     | RtBuckets \<Rightarrow> on_storage (\<lambda>s st. let (resp, s') = handleBuckets (ce_rfc e) (ce_go e) r s in (resp, s', st)) sv
     | RtBucketPath \<Rightarrow> on_storage (handleBucketPath (ce_hash e) (ce_rfc e) (ce_go e) r) sv
     | RtUpload \<Rightarrow> on_storage (handleUpload (ve_multipart e) (ce_hash e) (ce_go e) r) sv
     | RtDownload \<Rightarrow> on_storage (\<lambda>s st. (handleDownload (ce_rfc e) r s, s, st)) sv
     | RtUploadRoot \<Rightarrow> on_storage (handleUploadRoot (ve_multipart e) (ce_hash e) (ce_go e) r) sv
     | RtDownloadRoot \<Rightarrow> on_storage (\<lambda>s st. (handleDownloadRoot (ce_rfc e) r s, s, st)) sv
     | RtLogWrite \<Rightarrow> (case sv_logging sv of None \<Rightarrow> (http_notFound, sv)
         | Some q \<Rightarrow> (let (resp, s', q') = handleWrite (ce_rfc e) (ce_go e) r s q in (resp, set_store s' (sv\<lparr>sv_logging := Some q'\<rparr>))))
     | RtLogList \<Rightarrow> (handleList (ce_rfc e) (ce_go e) r s, sv)
     | RtBigQuery \<Rightarrow> (case sv_bq sv of None \<Rightarrow> (http_notFound, sv)
         | Some b \<Rightarrow> (let (resp, b') = bq_dispatch (ce_bq e) r b in (resp, sv\<lparr>sv_bq := Some b'\<rparr>)))
     | RtCloudSQL \<Rightarrow> (case sv_csql sv of None \<Rightarrow> (http_notFound, sv)
         | Some c \<Rightarrow> (let (resp, s', c') = csql_dispatch (ce_rfc e) (ve_host e) (ce_go e) r s c in (resp, set_store s' (sv\<lparr>sv_csql := Some c'\<rparr>))))
     | RtMetadata \<Rightarrow> (case sv_meta sv of None \<Rightarrow> (http_notFound, sv)
         | Some ms \<Rightarrow> (meta_handle (ve_sign e) (fst (ve_jwk e)) (snd (ve_jwk e)) (ce_go e) ms r, sv))
     | RtConIndex \<Rightarrow> (con_handleIndex (ve_html e) (con_opts e sv) r (to_console e sv), sv)
     | RtConPage \<Rightarrow> (routePage (ve_html e) (con_opts e sv) r (to_console e sv), sv)
     | RtConStatic \<Rightarrow> (ve_static e (trimPrefix (r_path r) ''/console/static/''), sv)
     | RtConAPI \<Rightarrow> (let (resp, c) = routeAPI (con_opts e sv) r (to_console e sv) in (resp, from_console c sv)))"

text \<open>
  The handler of the gateway: a gRPC request over HTTP/2 goes to the gRPC server (\<open>None\<close>); a path without a pattern is offered to the
  XML surface first.
\<close>

definition is_grpc :: "nat \<Rightarrow> http_req \<Rightarrow> bool" where
  "is_grpc proto r \<longleftrightarrow> proto = 2 \<and> hasPrefix (get_first (r_header r) ''Content-Type'') ''application/grpc''"

definition serve_mux :: "'db server_env \<Rightarrow> http_req \<Rightarrow> 'db server \<Rightarrow> http_resp \<times> 'db server" where
  "serve_mux e r sv = (case fst (findHandler (New_mux (sv_cfg sv)) (ve_escaped e r) r) of
       Redirect to \<Rightarrow> (http_redirect (ve_url e r to) r, sv)
     | Found rt \<Rightarrow> serve_route e rt r sv
     | NotFoundHere \<Rightarrow> (http_notFound, sv))"

definition serve_rest :: "'db server_env \<Rightarrow> http_req \<Rightarrow> 'db server \<Rightarrow> http_resp \<times> 'db server" where
  "serve_rest e r sv = (case sv_storage sv of
       None \<Rightarrow> serve_mux e r sv
     | Some st \<Rightarrow> if snd (findHandler (New_mux (sv_cfg sv)) (ve_escaped e r) r) \<noteq> [] then serve_mux e r sv
         else (case HandleXML (ce_hash e) (ce_rfc e) (ce_go e) r (g_store (sv_gw sv)) st of
             None \<Rightarrow> serve_mux e r sv
           | Some (resp, s, st') \<Rightarrow> (resp, set_store s (sv\<lparr>sv_storage := Some st'\<rparr>))))"

definition gw_handler :: "'db server_env \<Rightarrow> nat \<Rightarrow> http_req \<Rightarrow> 'db server \<Rightarrow> (http_resp \<times> 'db server) option" where
  "gw_handler e proto r sv = (if is_grpc proto r then None else Some (serve_rest e r sv))"

section \<open>New\<close>

text \<open>What the operating system and the packages answer to the constructors that can fail.\<close>

record start_host =
  so_go :: "nat \<Rightarrow> go_env"
  so_walk :: "string \<Rightarrow> string + (string \<times> string option) list"
  so_sqlOpen :: "string option"
  so_redis :: "int \<Rightarrow> string + int"
  so_sqlHost :: "nat \<Rightarrow> sql_host"
  so_now :: "nat \<Rightarrow> time"
  so_rsa :: "string option"
  so_templates :: "string option"

text \<open>\<^verbatim>\<open>storage.New\<close>: the configured buckets with the files below their seed directories.\<close>

fun seed_buckets :: "'db server_env \<Rightarrow> start_host \<Rightarrow> nat \<Rightarrow> BucketCfg list \<Rightarrow> mem \<Rightarrow> storage_state \<Rightarrow> string + mem \<times> storage_state" where
  "seed_buckets e o' i [] s st = Inr (s, st)"
| "seed_buckets e o' i (b # bs) s st =
     (case ensureBucket (so_go o' i) (cfg_BucketName b) s of
        Inl er \<Rightarrow> Inl (''seed bucket '' @ cfg_BucketName b @ '': '' @ er)
      | Inr s1 \<Rightarrow> if cfg_Seed b = [] then seed_buckets e o' (Suc i) bs s1 st
          else (case so_walk o' (cfg_Seed b) of
              Inl er \<Rightarrow> Inl (''seed objects for '' @ cfg_BucketName b @ '': '' @ er)
            | Inr files \<Rightarrow> (case seedBucket (ce_detect e) (ce_hash e) (so_go o' i) (cfg_BucketName b) files s1 st of
                (Some er, _) \<Rightarrow> Inl (''seed objects for '' @ cfg_BucketName b @ '': '' @ er)
              | (None, s2, st') \<Rightarrow> seed_buckets e o' (Suc i) bs s2 st')))"

definition storage_New :: "'db server_env \<Rightarrow> start_host \<Rightarrow> Config \<Rightarrow> mem \<Rightarrow> string + mem \<times> storage_state" where
  "storage_New e o' cfg s = seed_buckets e o' 0 (Storage_Buckets (Services cfg)) s \<lparr>ss_generation = 0, ss_sessions = [], ss_resumableSeq = 0\<rparr>"

definition sm_New :: verSeq where "sm_New = (\<lambda>_. 0)"

definition tasks_New :: tasks_state where "tasks_New = \<lparr>tk_taskSeq = 0, tk_pending = []\<rparr>"

definition scheduler_New :: scheduler where
  "scheduler_New = \<lparr>sc_jobs = [], sc_runners = [], sc_next = 0, sc_stopped = False\<rparr>"

definition firestore_New :: firestore where
  "firestore_New = \<lparr>fs_verSeq = 0, fs_listeners = [], fs_nextListener = 0\<rparr>"

text \<open>\<^verbatim>\<open>memorystore.New\<close>: the configured port or 6379, and another one when it is busy.\<close>

definition memorystore_New :: "start_host \<Rightarrow> Config \<Rightarrow> string + int" where
  "memorystore_New o' cfg = (let p = Memorystore_Port (Services cfg); port = (if p = 0 then 6379 else p) in
     case so_redis o' port of Inl er \<Rightarrow> Inl (''start miniredis: '' @ er) | Inr q \<Rightarrow> Inr q)"

definition gw_up :: "(gateway \<Rightarrow> gateway) \<Rightarrow> 'db server \<Rightarrow> string + 'db server" where
  "gw_up f sv = Inr (sv\<lparr>sv_gw := f (sv_gw sv)\<rparr>)"

text \<open>The constructor of a service, over the server so far.\<close>

type_synonym 'db init = "'db server \<Rightarrow> string + 'db server"

definition init_storage :: "'db server_env \<Rightarrow> start_host \<Rightarrow> Config \<Rightarrow> 'db init" where
  "init_storage e o' cfg sv = map_sum id (\<lambda>(s, st). set_store s (sv\<lparr>sv_storage := Some st\<rparr>)) (storage_New e o' cfg (g_store (sv_gw sv)))"

definition init_pubsub :: "Config \<Rightarrow> 'db init" where
  "init_pubsub cfg sv = map_sum id (\<lambda>(s, p). sv\<lparr>sv_gw := (sv_gw sv)\<lparr>g_store := s, g_pubsub := Some p\<rparr>\<rparr>) (pubsub_New (g_store (sv_gw sv)) cfg)"

definition init_bigquery :: "'db server_env \<Rightarrow> start_host \<Rightarrow> Config \<Rightarrow> 'db init" where
  "init_bigquery e o' cfg sv = (case so_sqlOpen o' of Some er \<Rightarrow> Inl (''open sqlite: '' @ er)
     | None \<Rightarrow> Inr (sv\<lparr>sv_bq := Some (bq_New (Project cfg) (ve_db e))\<rparr>))"

definition init_memorystore :: "start_host \<Rightarrow> Config \<Rightarrow> 'db init" where
  "init_memorystore o' cfg sv = map_sum id (\<lambda>p. sv\<lparr>sv_mem := Some p\<rparr>) (memorystore_New o' cfg)"

definition init_cloudsql :: "start_host \<Rightarrow> Config \<Rightarrow> 'db init" where
  "init_cloudsql o' cfg sv = (case cloudsql_New (so_sqlHost o') (so_now o') cfg (g_store (sv_gw sv)) of
       (Inl er, _) \<Rightarrow> Inl er
     | (Inr (), s, c) \<Rightarrow> Inr (set_store s (sv\<lparr>sv_csql := Some c\<rparr>)))"

definition init_metadata :: "start_host \<Rightarrow> Config \<Rightarrow> 'db init" where
  "init_metadata o' cfg sv = (case so_rsa o' of Some er \<Rightarrow> Inl (''generate rsa key: '' @ er)
     | None \<Rightarrow> Inr (sv\<lparr>sv_meta := Some (meta_New (Some cfg))\<rparr>))"

text \<open>The services in the order of \<^verbatim>\<open>New\<close>; the credentials service shares the one of the metadata server.\<close>

definition constructors :: "'db server_env \<Rightarrow> start_host \<Rightarrow> Config \<Rightarrow> 'db init list" where
  "constructors e o' cfg = [init_storage e o' cfg, init_pubsub cfg, gw_up (\<lambda>g. g\<lparr>g_sm := Some sm_New\<rparr>),
     gw_up (\<lambda>g. g\<lparr>g_tasks := Some tasks_New\<rparr>), gw_up (\<lambda>g. g\<lparr>g_sched := Some scheduler_New\<rparr>), gw_up (\<lambda>g. g\<lparr>g_kms := Some ()\<rparr>),
     (\<lambda>sv. Inr (sv\<lparr>sv_logging := Some 0\<rparr>)), gw_up (\<lambda>g. g\<lparr>g_mon := Some 0\<rparr>), (\<lambda>sv. Inr (sv\<lparr>sv_fs := Some firestore_New\<rparr>)),
     init_bigquery e o' cfg, (\<lambda>sv. Inr (sv\<lparr>sv_bt := True\<rparr>)), (\<lambda>sv. Inr (sv\<lparr>sv_sp := True\<rparr>)), init_memorystore o' cfg,
     init_cloudsql o' cfg, gw_up (\<lambda>g. g\<lparr>g_run := Some newRunner\<rparr>), gw_up (\<lambda>g. g\<lparr>g_funcs := Some newRunner\<rparr>),
     init_metadata o' cfg, (\<lambda>sv. gw_up (\<lambda>g. g\<lparr>g_iamc := sv_meta sv\<rparr>) sv)]"

text \<open>One block of \<^verbatim>\<open>New\<close>: an enabled service is constructed and then registered as ready.\<close>

fun init_services :: "((string \<times> bool) \<times> 'db init) list \<Rightarrow> 'db server \<Rightarrow> string + 'db server" where
  "init_services [] sv = Inr sv"
| "init_services (((name, on), f) # rest) sv = (if \<not> on then init_services rest sv
     else (case f sv of Inl er \<Rightarrow> Inl (''init '' @ name @ '': '' @ er)
       | Inr sv' \<Rightarrow> init_services rest (sv'\<lparr>sv_health := register_one name True (sv_health sv')\<rparr>)))"

definition empty_server :: "Config \<Rightarrow> string \<Rightarrow> string \<Rightarrow> mem \<Rightarrow> 'db server" where
  "empty_server cfg version commit s = \<lparr>sv_cfg = cfg, sv_version = version, sv_commit = commit,
     sv_gw = \<lparr>g_store = s, g_pubsub = None, g_sm = None, g_tasks = None, g_sched = None, g_kms = None, g_mon = None, g_run = None,
        g_funcs = None, g_iamc = None, g_iamSA = Some ()\<rparr>,
     sv_health = Registry_Set new_Registry ''iamadmin'' StatusReady, sv_storage = None, sv_logging = None, sv_fs = None, sv_bq = None,
     sv_csql = None, sv_meta = None, sv_mem = None, sv_bt = False, sv_sp = False\<rparr>"

text \<open>\<open>s\<close> is the store that \<^verbatim>\<open>state.Open\<close> answers.\<close>

definition gateway_New :: "'db server_env \<Rightarrow> start_host \<Rightarrow> Config \<Rightarrow> string \<Rightarrow> string \<Rightarrow> string + mem \<Rightarrow> string + 'db server" where
  "gateway_New e o' cfg version commit opened = (case opened of Inl er \<Rightarrow> Inl (''open state: '' @ er)
     | Inr s \<Rightarrow> (case init_services (zip (configured cfg) (constructors e o' cfg)) (empty_server cfg version commit s) of
         Inl er \<Rightarrow> Inl er
       | Inr sv \<Rightarrow> if Dashboard cfg \<and> so_templates o' \<noteq> None then Inl (''init console: '' @ the (so_templates o')) else Inr sv))"

section \<open>Run\<close>

text \<open>
  What is seen of \<^verbatim>\<open>Run\<close>: the listening socket fails, or the context is cancelled and the server shuts down.  \<open>rh_shutdown\<close> is the
  answer of the HTTP server and \<open>rh_close\<close> that of the store.
\<close>

record run_host =
  rh_serve :: "string option"
  rh_shutdown :: "string option"
  rh_close :: "string option"

text \<open>
  \<^verbatim>\<open>tasks.Stop\<close>: the context is cancelled and the goroutines end; one whose task is due comes to the deferred deletion of its
  task without an attempt.
\<close>

definition stopped_dispatch :: dispatch_world where
  "stopped_dispatch = \<lparr>dw_alive = (\<lambda>_. False), dw_newRequest = (\<lambda>_ _. True), dw_do = (\<lambda>_. None), dw_sleep = (\<lambda>_. False)\<rparr>"

definition tasks_Stop :: "time \<Rightarrow> mem \<Rightarrow> tasks_state \<Rightarrow> mem \<times> tasks_state" where
  "tasks_Stop now s ts = fold (\<lambda>_ (s, ts). run_task stopped_dispatch False now 0 s ts) (tk_pending ts) (s, ts)"

definition stop_tasks :: "time \<Rightarrow> gateway \<Rightarrow> gateway" where
  "stop_tasks now g = (case g_tasks g of None \<Rightarrow> g
     | Some ts \<Rightarrow> (let (s, ts') = tasks_Stop now (g_store g) ts in g\<lparr>g_store := s, g_tasks := Some ts'\<rparr>))"

text \<open>After the shutdown Redis and the database behind BigQuery are closed: \<open>None\<close>.\<close>

definition shutdown_services :: "time \<Rightarrow> 'db server \<Rightarrow> 'db server" where
  "shutdown_services now sv = (let g = stop_tasks now (sv_gw sv) in
     sv\<lparr>sv_gw := g\<lparr>g_pubsub := map_option pubsub_Stop (g_pubsub g),
          g_sched := map_option scheduler_Stop (g_sched g), g_run := map_option stopAll (g_run g), g_funcs := map_option stopAll (g_funcs g)\<rparr>,
        sv_mem := None, sv_csql := map_option cloudsql_Stop (sv_csql sv), sv_bq := None\<rparr>)"

definition gateway_Run :: "time \<Rightarrow> run_host \<Rightarrow> 'db server \<Rightarrow> string option \<times> 'db server" where
  "gateway_Run now h sv = (case rh_serve h of Some er \<Rightarrow> (Some er, sv)
     | None \<Rightarrow> (case rh_shutdown h of Some er \<Rightarrow> (Some er, shutdown_services now sv)
         | None \<Rightarrow> (rh_close h, shutdown_services now sv)))"

definition listen_addr :: "Config \<Rightarrow> string" where
  "listen_addr cfg = '':'' @ itoai (Port cfg)"

section \<open>Routes\<close>

lemmas register_defs = dash_Register_def storage_Register_def logging_Register_def bq_Register_def csql_Register_def meta_Register_def
  con_Register_def

definition all_routes :: "route mux" where
  "all_routes = [(''/healthz'', RtHealth), (''/admin/reset'', RtReset)] @ dash_Register @
     [(''/v1/projects/'', RtV1), (''/v2/projects/'', RtV2), (''/v3/projects/'', RtV3)] @
     storage_Register @ logging_Register @ bq_Register @ csql_Register @ meta_Register @ con_Register"

lemma subseq_keeps_elem: "subseq xs ys \<Longrightarrow> x \<in> set xs \<Longrightarrow> x \<in> set ys"
  by (induction rule: list_emb.induct) auto

lemma subseq_keeps:
  assumes "subseq xs ys"
  shows "set xs \<subseteq> set ys" "distinct ys \<Longrightarrow> distinct xs"
proof -
  show s: "set xs \<subseteq> set ys" using assms by (induction rule: list_emb.induct) auto
  show "distinct xs" if "distinct ys"
    using assms that by (induction rule: list_emb.induct) (auto dest: subseq_keeps_elem)
qed

lemma subseq_when_on: "subseq (when_on b xs) xs"
  by (simp add: when_on_def)

lemma New_mux_subseq: "subseq (New_mux cfg) all_routes"
  unfolding New_mux_def all_routes_def Let_def by (intro list_emb_append_mono subseq_when_on) simp_all

lemma all_routes_distinct: "distinct (map fst all_routes)"
  by (simp add: all_routes_def register_defs)

lemma all_routes_rooted: "list_all (\<lambda>(p, _). rooted p) all_routes"
  by (simp add: all_routes_def register_defs rooted_def)

lemma New_mux_set: "set (New_mux cfg) \<subseteq> set all_routes"
  using New_mux_subseq by (rule subseq_keeps)

text \<open>No configuration makes \<^verbatim>\<open>New\<close> register a pattern twice.\<close>

lemma New_mux_wf: "mux_wf (New_mux cfg)"
proof -
  have "distinct (map fst (New_mux cfg))"
    by (rule subseq_keeps(2) [OF subseq_map [OF New_mux_subseq] all_routes_distinct])
  moreover have "list_all (\<lambda>(p, _). rooted p) (New_mux cfg)"
    using all_routes_rooted New_mux_set unfolding list_all_iff by blast
  ultimately show ?thesis by (simp add: mux_wf_def mux_ok_def)
qed

end
