(* ===== verification/Gateway_Frames.thy ===== *)
theory Gateway_Frames
  imports Gateway_Server
begin

text \<open>
  What a request to the whole gateway can change.  The handlers that are mounted on the multiplexer themselves (Cloud Storage,
  Cloud Logging, Cloud SQL, BigQuery, the console) get the same contract as the versioned ones: a set of namespaces of their own and
  a memory of their own.
\<close>

section \<open>Namespaces of the mounted services\<close>

text \<open>Buckets, objects and their data.  The policies of buckets are in the namespace of all policies.\<close>

definition storage_ns :: "string set" where
  "storage_ns = {n. prefix ''storage/'' n}"

lemma storage_ns_members [simp]:
  "nsBuckets \<in> storage_ns" "objectNamespace b \<in> storage_ns" "objectDataNamespace b \<in> storage_ns"
  by (simp_all add: storage_ns_def nsBuckets_def objectNamespace_def objectDataNamespace_def)

lemma storeObject_only:
  "mem_ok s \<Longrightarrow> storeObject H e b n ct d s st = (ob, s', st') \<Longrightarrow> only_ns storage_ns s s'"
  by (auto simp: storeObject_def Let_def intro: only_ns_trans [OF only_ns_mput only_ns_mput])

lemma del_quiet_only: "mem_ok s \<Longrightarrow> n \<in> N \<Longrightarrow> only_ns N s (del_quiet s n k)"
  by (auto simp: del_quiet_def Delete_cases split: sum.splits if_splits)

lemma delete_objects_only:
  assumes "n \<in> N" "m \<in> N"
  shows "mem_ok s \<Longrightarrow> only_ns N s (foldl (\<lambda>s k. del_quiet (del_quiet s n k) m k) s ks)"
proof (induction ks arbitrary: s)
  case (Cons k ks)
  have d: "only_ns N s (del_quiet (del_quiet s n k) m k)"
    using del_quiet_only [OF Cons.prems assms(1), of k] del_quiet_only [OF _ assms(2), of "del_quiet s n k" k]
    by (blast intro: only_ns_trans dest: only_ns_ok)
  with Cons.IH [OF only_ns_ok [OF d]] show ?case by (auto intro: only_ns_trans)
qed simp

lemma only_ns_mdel2: "mem_ok s \<Longrightarrow> n \<in> N \<Longrightarrow> m \<in> N \<Longrightarrow> only_ns N s (mdel (mdel s n k) m j)"
  by (rule only_ns_trans [OF only_ns_mdel only_ns_mdel]) simp_all

lemma deleteObject_only: "mem_ok s \<Longrightarrow> deleteObject b n s st = (resp, s', st') \<Longrightarrow> only_ns storage_ns s s'"
  by (auto simp: deleteObject_def Delete_cases only_ns_mdel2 split: sum.splits if_splits option.splits)

lemma bucketOp_only:
  assumes "mem_ok s" "bucketOp e r b s = (resp, s')"
  shows "only_ns storage_ns s s'"
proof -
  have "only_ns storage_ns s t" if "deleteBucketAndObjects e b s = (er, t)" for er t
  proof -
    let ?t = "foldl (\<lambda>s k. del_quiet (del_quiet s (objectNamespace b) k) (objectDataNamespace b) k) s
        (map fst (e_range e (case List s (objectNamespace b) [] of Inl _ \<Rightarrow> [] | Inr l \<Rightarrow> l)))"
    have o: "only_ns storage_ns s ?t" by (rule delete_objects_only) (simp_all add: assms(1))
    have "only_ns storage_ns ?t (mdel ?t nsBuckets b)" by (rule only_ns_mdel [OF only_ns_ok [OF o]]) simp
    with o have "only_ns storage_ns s (mdel ?t nsBuckets b)" by (rule only_ns_trans)
    moreover have "t = s \<or> t = ?t \<or> t = mdel ?t nsBuckets b"
      using that Delete_cases [OF only_ns_ok [OF o], of nsBuckets b]
      unfolding deleteBucketAndObjects_def Let_def by (auto simp del: del_quiet_mdel split: sum.splits option.splits)
    ultimately show ?thesis using o assms(1) by fastforce
  qed
  then show ?thesis using assms by (auto simp: bucketOp_def split: meth.splits sum.splits prod.splits option.splits)
qed

lemma handleBuckets_only: "mem_ok s \<Longrightarrow> handleBuckets rfc e r s = (resp, s') \<Longrightarrow> only_ns storage_ns s s'"
  by (auto simp: handleBuckets_def createBucket_def Let_def split: meth.splits option.splits prod.splits if_splits sum.splits)

lemma handleObject_only: "mem_ok s \<Longrightarrow> handleObject rfc r b n s st = (resp, s', st') \<Longrightarrow> only_ns storage_ns s s'"
  using deleteObject_only by (auto simp: handleObject_def split: option.splits sum.splits meth.splits)

lemma handleGCSPolicy_only: "mem_ok s \<Longrightarrow> HandleGCSPolicy sha r res s = (resp, s') \<Longrightarrow> only_ns {iam_Namespace} s s'"
  by (auto simp: HandleGCSPolicy_def iam_Set_def Let_def split: meth.splits option.splits prod.splits if_splits sum.splits)

lemma handleBucketPath_only:
  assumes "mem_ok s" "handleBucketPath H rfc e r s st = (resp, s', st')"
  shows "only_ns (insert iam_Namespace storage_ns) s s'"
proof -
  have sub: "storage_ns \<subseteq> insert iam_Namespace storage_ns" "{iam_Namespace} \<subseteq> insert iam_Namespace storage_ns" by auto
  have "only_ns storage_ns s s' \<or> only_ns {iam_Namespace} s s'"
    using assms handleBuckets_only bucketOp_only handleObject_only handleGCSPolicy_only
    by (auto simp: handleBucketPath_def Let_def split: if_splits prod.splits)
  then show ?thesis using only_ns_mono sub by blast
qed

lemma finalise_only: "mem_ok s \<Longrightarrow> finaliseResumableLocked H e sess i s st = (resp, s', st') \<Longrightarrow> only_ns storage_ns s s'"
  using storeObject_only by (auto simp: finaliseResumableLocked_def Let_def split: prod.splits)

lemma resumableData_only: "mem_ok s \<Longrightarrow> uploadResumableData H e r b i s st = (resp, s', st') \<Longrightarrow> only_ns storage_ns s s'"
  using finalise_only
  by (auto simp: uploadResumableData_def finaliseResumable_def Let_def split: option.splits if_splits sum.splits prod.splits)

lemma uploadMedia_only: "mem_ok s \<Longrightarrow> uploadMedia H e r b s st = (resp, s', st') \<Longrightarrow> only_ns storage_ns s s'"
  using storeObject_only by (auto simp: uploadMedia_def Let_def split: prod.splits if_splits)

lemma uploadMultipart_only: "mem_ok s \<Longrightarrow> uploadMultipart M H e r b s st = (resp, s', st') \<Longrightarrow> only_ns storage_ns s s'"
  using storeObject_only by (auto simp: uploadMultipart_def Let_def split: prod.splits if_splits option.splits sum.splits)

lemma resumableStart_only: "mem_ok s \<Longrightarrow> uploadResumableStart r b s st = (resp, s', st') \<Longrightarrow> only_ns storage_ns s s'"
  by (auto simp: uploadResumableStart_def Let_def split: prod.splits if_splits)

lemma handleUpload_only: "mem_ok s \<Longrightarrow> handleUpload M H e r s st = (resp, s', st') \<Longrightarrow> only_ns storage_ns s s'"
  unfolding handleUpload_def Let_def
  by (auto split: prod.splits if_splits sum.splits intro: resumableData_only uploadMedia_only uploadMultipart_only resumableStart_only)

lemma HandleXML_only: "mem_ok s \<Longrightarrow> HandleXML H rfc e r s st = Some (resp, s', st') \<Longrightarrow> only_ns storage_ns s s'"
  using deleteObject_only storeObject_only
  by (auto simp: HandleXML_def xmlPutObject_def Let_def split: if_splits prod.splits sum.splits option.splits meth.splits)

lemma write_entries_only: "mem_ok s \<Longrightarrow> write_entries e now req es s q = (s', q') \<Longrightarrow> only_ns {nsEntries} s s'"
proof (induction e now req es s q rule: write_entries.induct)
  case (2 e now req en es s q)
  define en' where "en' = complete_entry e now req en"
  define t where "t = mput s nsEntries (entry_id en' (u64_inc q)) (JsonB (enc_logEntry en'))"
  have t: "only_ns {nsEntries} s t" "mem_ok t" using 2(2) by (simp_all add: t_def)
  have "write_entries e (if le_Timestamp en = 0 then Suc now else now) req es t (u64_inc q) = (s', q')"
    using 2(3) by (simp add: Let_def t_def en'_def)
  with 2(1) [OF refl refl refl, folded en'_def] t(2) have "only_ns {nsEntries} t s'" by (simp add: t_def)
  with t(1) show ?case by (rule only_ns_trans)
qed simp

lemma handleWrite_only: "mem_ok s \<Longrightarrow> handleWrite rfc e r s q = (resp, s', q') \<Longrightarrow> only_ns {nsEntries} s s'"
  using write_entries_only by (auto simp: handleWrite_def split: if_splits option.splits prod.splits)

lemma csql_dispatch_only: "mem_ok s \<Longrightarrow> csql_dispatch rfc h e r s c = (resp, s', c') \<Longrightarrow> only_ns {nsInstances} s s'"
  using csql_dispatch_cases by fastforce

section \<open>The domains of the server\<close>

text \<open>A service with its namespaces and its memory.  No namespace belongs to two of them.\<close>

datatype domain = DApi service | DStorage | DLogging | DSql | DBigQuery | DFirestore

fun domain_ns :: "domain \<Rightarrow> string set" where
  "domain_ns (DApi x) = service_ns x"
| "domain_ns DStorage = storage_ns"
| "domain_ns DLogging = {nsEntries}"
| "domain_ns DSql = {nsInstances}"
| "domain_ns DBigQuery = {}"
| "domain_ns DFirestore = {nsDocs}"

fun same_domain :: "domain \<Rightarrow> 'db server \<Rightarrow> 'db server \<Rightarrow> bool" where
  "same_domain (DApi x) sv sv' = same_memory x (sv_gw sv) (sv_gw sv')"
| "same_domain DStorage sv sv' = (sv_storage sv' = sv_storage sv)"
| "same_domain DLogging sv sv' = (sv_logging sv' = sv_logging sv)"
| "same_domain DSql sv sv' = (sv_csql sv' = sv_csql sv)"
| "same_domain DBigQuery sv sv' = (sv_bq sv' = sv_bq sv)"
| "same_domain DFirestore sv sv' = (sv_fs sv' = sv_fs sv)"

lemma domain_ns_disjoint: "x \<noteq> y \<Longrightarrow> domain_ns x \<inter> domain_ns y = {}"
proof -
  have api: "domain_ns (DApi a) \<inter> domain_ns d = {}" if "\<forall>b. d \<noteq> DApi b" for a d
    using that by (cases d; cases a) (simp_all add: ia_ns_def pubsub_ns_def sm_ns_def sched_ns_def kms_ns_def tasks_ns_def mon_ns_def
        storage_ns_def ns_defs)
  assume ne: "x \<noteq> y"
  show ?thesis
  proof (cases "(\<forall>b. x \<noteq> DApi b) \<and> (\<forall>b. y \<noteq> DApi b)")
    case True
    with ne show ?thesis by (cases x; cases y) (simp_all add: storage_ns_def ns_defs)
  next
    case False
    with ne api service_ns_disjoint show ?thesis by (metis Int_commute domain_ns.simps(1))
  qed
qed

text \<open>\<open>changes D sv sv'\<close>: at most the documents and the memory of the domains in \<open>D\<close> have changed.\<close>

definition changes :: "domain set \<Rightarrow> 'db server \<Rightarrow> 'db server \<Rightarrow> bool" where
  "changes D sv sv' \<longleftrightarrow> only_ns (\<Union>d\<in>D. domain_ns d) (g_store (sv_gw sv)) (g_store (sv_gw sv')) \<and> sv_cfg sv' = sv_cfg sv \<and>
     (\<forall>d. d \<notin> D \<longrightarrow> same_domain d sv sv')"

lemma same_memory_refl [simp]: "same_memory x g g"
  by (cases x) auto

lemma same_domain_refl [simp]: "same_domain d sv sv"
  by (cases d) auto

lemma changes_refl [simp]: "changes D sv sv \<longleftrightarrow> mem_ok (g_store (sv_gw sv))"
  by (simp add: changes_def)

lemma same_memory_trans: "same_memory x g h \<Longrightarrow> same_memory x h k \<Longrightarrow> same_memory x g k"
  by (cases x) auto

lemma same_domain_trans: "same_domain d sv tv \<Longrightarrow> same_domain d tv uv \<Longrightarrow> same_domain d sv uv"
  by (cases d) (auto intro: same_memory_trans)

lemma changes_trans: "changes D sv tv \<Longrightarrow> changes D tv uv \<Longrightarrow> changes D sv uv"
  by (auto simp: changes_def intro: only_ns_trans same_domain_trans)

lemma changes_mono: "changes D sv tv \<Longrightarrow> D \<subseteq> E \<Longrightarrow> changes E sv tv"
  by (auto simp: changes_def intro: only_ns_mono)

lemma changes_ok: "changes D sv tv \<Longrightarrow> mem_ok (g_store (sv_gw tv))"
  by (auto simp: changes_def only_ns_def)

text \<open>A domain that is not among the changed ones keeps its documents.\<close>

lemma changes_keeps:
  assumes "changes D sv sv'" "x \<notin> D"
  shows "same_domain x sv sv'" "n \<in> domain_ns x \<Longrightarrow> mem_lookup (g_store (sv_gw sv')) n = mem_lookup (g_store (sv_gw sv)) n"
proof -
  show "same_domain x sv sv'" using assms by (simp add: changes_def)
  assume n: "n \<in> domain_ns x"
  have "n \<notin> (\<Union>d\<in>D. domain_ns d)" using n assms(2) domain_ns_disjoint [of x]
    by (metis UN_E disjoint_iff)
  then show "mem_lookup (g_store (sv_gw sv')) n = mem_lookup (g_store (sv_gw sv)) n" using assms(1) by (simp add: changes_def only_ns_def)
qed

end
