(* ===== verification/Gateway_Confined.thy ===== *)
theory Gateway_Confined
  imports Gateway_Frames
begin

text \<open>
  A request to the whole gateway changes at most the domains that its route stands for: all handlers together, the ones of the versioned
  APIs, of Cloud Storage and its XML surface, of Cloud Logging, BigQuery, Cloud SQL and the console.
\<close>

section \<open>The domains of a request\<close>

definition reset_domains :: "domain set" where
  "reset_domains = {DStorage, DApi SvcPubSub, DApi SvcSecrets, DApi SvcTasks, DApi SvcScheduler, DApi SvcKms, DApi SvcIam, DApi SvcIamAdmin}"

definition api_domain :: "version \<Rightarrow> http_req \<Rightarrow> domain set" where
  "api_domain v r = (case path_owner v r of None \<Rightarrow> {} | Some x \<Rightarrow> {DApi x})"

fun route_domains :: "route \<Rightarrow> http_req \<Rightarrow> domain set" where
  "route_domains RtReset r = reset_domains"
| "route_domains RtV1 r = api_domain V1 r"
| "route_domains RtV2 r = api_domain V2 r"
| "route_domains RtV3 r = api_domain V3 r"
| "route_domains RtBuckets r = {DStorage}"
| "route_domains RtBucketPath r = {DStorage, DApi SvcIam}"
| "route_domains RtUpload r = {DStorage}"
| "route_domains RtUploadRoot r = {DStorage}"
| "route_domains RtLogWrite r = {DLogging}"
| "route_domains RtBigQuery r = {DBigQuery}"
| "route_domains RtCloudSQL r = {DSql}"
| "route_domains RtConAPI r = {DApi SvcPubSub, DStorage, DBigQuery}"
| "route_domains _ r = {}"

definition request_domains :: "'db server_env \<Rightarrow> 'db server \<Rightarrow> http_req \<Rightarrow> domain set" where
  "request_domains e sv r = (case findHandler (New_mux (sv_cfg sv)) (ve_escaped e r) r of
       (Found rt, _) \<Rightarrow> route_domains rt r
     | (_, pattern) \<Rightarrow> if pattern = [] then {DStorage} else {})"

section \<open>Every route is confined\<close>

lemma changes_gw:
  assumes "touches (path_owner v r) (sv_gw sv) g"
  shows "changes (api_domain v r) sv (sv\<lparr>sv_gw := g\<rparr>)"
proof -
  have "same_domain d sv (sv\<lparr>sv_gw := g\<rparr>)" if "d \<notin> api_domain v r" for d
    using assms that by (cases d) (auto simp: touches_def api_domain_def split: option.splits)
  moreover have "(\<Union>d\<in>api_domain v r. domain_ns d) = (case path_owner v r of None \<Rightarrow> {} | Some x \<Rightarrow> service_ns x)"
    by (simp add: api_domain_def split: option.splits)
  ultimately show ?thesis using assms by (simp add: changes_def touches_def)
qed

lemma changesI:
  assumes "only_ns (\<Union>d\<in>D. domain_ns d) (g_store (sv_gw sv)) (g_store (sv_gw sv'))" "sv_cfg sv' = sv_cfg sv"
    and "\<And>d. d \<notin> D \<Longrightarrow> same_domain d sv sv'"
  shows "changes D sv sv'"
  using assms by (simp add: changes_def)

lemma changes_store:
  assumes "only_ns (\<Union>d\<in>D. domain_ns d) (g_store (sv_gw sv)) s"
  shows "changes D sv (set_store s sv)"
    "DStorage \<in> D \<Longrightarrow> changes D sv (set_store s (sv\<lparr>sv_storage := st\<rparr>))"
    "DLogging \<in> D \<Longrightarrow> changes D sv (set_store s (sv\<lparr>sv_logging := q\<rparr>))"
    "DSql \<in> D \<Longrightarrow> changes D sv (set_store s (sv\<lparr>sv_csql := c\<rparr>))"
proof -
  have "same_domain d sv (set_store s sv)" "d \<noteq> DStorage \<Longrightarrow> same_domain d sv (set_store s (sv\<lparr>sv_storage := st\<rparr>))"
    "d \<noteq> DLogging \<Longrightarrow> same_domain d sv (set_store s (sv\<lparr>sv_logging := q\<rparr>))"
    "d \<noteq> DSql \<Longrightarrow> same_domain d sv (set_store s (sv\<lparr>sv_csql := c\<rparr>))" for d
    by (cases d; simp add: set_store_def)+
  note same = this
  show "changes D sv (set_store s sv)"
    by (rule changesI) (use assms same(1) in \<open>simp_all add: set_store_def\<close>)
  show "changes D sv (set_store s (sv\<lparr>sv_storage := st\<rparr>))" if "DStorage \<in> D"
  proof (rule changesI)
    show "same_domain d sv (set_store s (sv\<lparr>sv_storage := st\<rparr>))" if "d \<notin> D" for d using that \<open>DStorage \<in> D\<close> same(2) [of d] by blast
  qed (use assms in \<open>simp_all add: set_store_def\<close>)
  show "changes D sv (set_store s (sv\<lparr>sv_logging := q\<rparr>))" if "DLogging \<in> D"
  proof (rule changesI)
    show "same_domain d sv (set_store s (sv\<lparr>sv_logging := q\<rparr>))" if "d \<notin> D" for d using that \<open>DLogging \<in> D\<close> same(3) [of d] by blast
  qed (use assms in \<open>simp_all add: set_store_def\<close>)
  show "changes D sv (set_store s (sv\<lparr>sv_csql := c\<rparr>))" if "DSql \<in> D"
  proof (rule changesI)
    show "same_domain d sv (set_store s (sv\<lparr>sv_csql := c\<rparr>))" if "d \<notin> D" for d using that \<open>DSql \<in> D\<close> same(4) [of d] by blast
  qed (use assms in \<open>simp_all add: set_store_def\<close>)
qed

text \<open>The handlers of Cloud Storage.\<close>

lemma on_storage_changes:
  assumes "on_storage h sv = (resp, sv')" "mem_ok (g_store (sv_gw sv))" "DStorage \<in> D"
    and "\<And>st resp s' st'. h (g_store (sv_gw sv)) st = (resp, s', st') \<Longrightarrow> only_ns (\<Union>d\<in>D. domain_ns d) (g_store (sv_gw sv)) s'"
  shows "changes D sv sv'"
proof (cases "sv_storage sv")
  case (Some st)
  obtain resp' s' st' where h: "h (g_store (sv_gw sv)) st = (resp', s', st')" by (cases "h (g_store (sv_gw sv)) st")
  with Some assms(1) have "sv' = set_store s' (sv\<lparr>sv_storage := Some st'\<rparr>)" by (simp add: on_storage_def)
  then show ?thesis using changes_store(2) [OF assms(4) [OF h] assms(3)] by simp
qed (use assms(1,2) in \<open>simp add: on_storage_def\<close>)

lemma storage_routes_confined:
  assumes ok: "mem_ok (g_store (sv_gw sv))"
  shows "serve_route e RtBuckets r sv = (resp, sv') \<Longrightarrow> changes (route_domains RtBuckets r) sv sv'"
    "serve_route e RtBucketPath r sv = (resp, sv') \<Longrightarrow> changes (route_domains RtBucketPath r) sv sv'"
    "serve_route e RtUpload r sv = (resp, sv') \<Longrightarrow> changes (route_domains RtUpload r) sv sv'"
    "serve_route e RtUploadRoot r sv = (resp, sv') \<Longrightarrow> changes (route_domains RtUploadRoot r) sv sv'"
proof -
  note ch = on_storage_changes [OF _ ok]
  show "changes (route_domains RtBuckets r) sv sv'" if "serve_route e RtBuckets r sv = (resp, sv')"
    using that unfolding serve_route_def Let_def route.case
    by (rule ch) (auto split: prod.splits intro: handleBuckets_only [OF ok])
  show "changes (route_domains RtBucketPath r) sv sv'" if "serve_route e RtBucketPath r sv = (resp, sv')"
    using that unfolding serve_route_def Let_def route.case
    by (rule ch) (auto simp: Un_commute intro: handleBucketPath_only [OF ok])
  show "changes (route_domains RtUpload r) sv sv'" if "serve_route e RtUpload r sv = (resp, sv')"
    using that unfolding serve_route_def Let_def route.case
    by (rule ch) (auto intro: handleUpload_only [OF ok])
  show "changes (route_domains RtUploadRoot r) sv sv'" if "serve_route e RtUploadRoot r sv = (resp, sv')"
    using that unfolding serve_route_def Let_def route.case
    by (rule ch) (auto simp: handleUploadRoot_def intro: handleUpload_only [OF ok])
qed

lemma reading_routes:
  assumes "rt \<in> {RtHealth, RtDashIndex, RtDashState, RtDownload, RtDownloadRoot, RtLogList, RtMetadata, RtConIndex, RtConPage, RtConStatic}"
  shows "snd (serve_route e rt r sv) = sv"
proof -
  have "snd (on_storage (\<lambda>s st. (h s, s, st)) sv) = sv" for h :: "mem \<Rightarrow> http_resp"
    by (auto simp: on_storage_def set_store_def split: option.splits)
  with assms show ?thesis by (auto simp: serve_route_def Let_def split: option.splits)
qed

text \<open>The JSON endpoints of the console.\<close>

lemma console_route_confined:
  assumes ok: "mem_ok (g_store (sv_gw sv))" and "serve_route e RtConAPI r sv = (resp, sv')"
  shows "changes (route_domains RtConAPI r) sv sv'"
proof -
  obtain c where c: "routeAPI (con_opts e sv) r (to_console e sv) = (resp, c)" "sv' = from_console c sv"
    using assms(2) by (auto simp: serve_route_def Let_def split: prod.splits)
  have st: "ct_store (to_console e sv) = g_store (sv_gw sv)" by (simp add: to_console_def)
  have "only_ns storage_ns (g_store (sv_gw sv)) (ct_store c)"
  proof (cases "c = to_console e sv")
    case False
    from routeAPI_effect [OF c(1) [unfolded con_opts_def] _ False] ok st
    have "ct_store c = g_store (sv_gw sv) \<or> (\<exists>a b. only_ns {objectNamespace a, objectDataNamespace b} (g_store (sv_gw sv)) (ct_store c))"
      by auto
    then show ?thesis
    proof (elim disjE exE)
      fix a b assume "only_ns {objectNamespace a, objectDataNamespace b} (g_store (sv_gw sv)) (ct_store c)"
      then show ?thesis by (rule only_ns_mono) simp
    qed (simp add: ok)
  qed (simp add: st ok)
  then have "only_ns (\<Union>d\<in>route_domains RtConAPI r. domain_ns d) (g_store (sv_gw sv)) (ct_store c)"
    by (rule only_ns_mono) auto
  moreover have "same_domain d sv sv'" if "d \<notin> route_domains RtConAPI r" for d
  proof (cases d)
    case (DApi x)
    with that show ?thesis by (cases x) (simp_all add: c(2) from_console_def)
  qed (use that in \<open>simp_all add: c(2) from_console_def\<close>)
  ultimately show ?thesis by (simp add: changes_def c(2) from_console_def)
qed

lemma reset_all_only: "mem_ok s \<Longrightarrow> set ns \<subseteq> N \<Longrightarrow> only_ns N s (snd (reset_all e ns s))"
proof (induction ns arbitrary: s)
  case (Cons n ns)
  have keys: "only_ns N s (snd (reset_keys n ks s))" if "mem_ok s" for s ks
    using that Cons.prems(2)
  proof (induction ks arbitrary: s)
    case (Cons k ks)
    have d: "only_ns N s (mdel s n k)" using Cons.prems by simp
    have "only_ns N (mdel s n k) (snd (reset_keys n ks (mdel s n k)))" using Cons.IH [OF only_ns_ok [OF d]] Cons.prems(2) by simp
    with d Cons.prems(1) Delete_cases [OF Cons.prems(1), of n k] show ?case
      by (auto split: sum.splits option.splits intro: only_ns_trans)
  qed simp
  have rest: "only_ns N s (snd (reset_all e ns t))" if "only_ns N s t" for t
    using that Cons.IH [OF only_ns_ok [OF that]] Cons.prems(2) by (auto intro: only_ns_trans)
  show ?case using keys Cons.prems(1) rest
    by (auto split: sum.splits prod.splits option.splits) (metis snd_conv)+
qed simp

lemma reset_confined:
  assumes "mem_ok (g_store (sv_gw sv))" "serve_route e RtReset r sv = (resp, sv')"
  shows "changes reset_domains sv sv'"
proof -
  have "set reset_namespaces \<subseteq> (\<Union>d\<in>reset_domains. domain_ns d)"
    by (simp add: reset_namespaces_def reset_domains_def storage_ns_def pubsub_ns_def sm_ns_def tasks_ns_def sched_ns_def kms_ns_def
        ia_ns_def ns_defs)
  note only = reset_all_only [OF assms(1) this, of "ce_go e"]
  have "sv' = sv \<or> sv' = set_store (snd (reset_all (ce_go e) reset_namespaces (g_store (sv_gw sv)))) sv"
    using assms(2) by (cases "reset_all (ce_go e) reset_namespaces (g_store (sv_gw sv))")
      (auto simp: serve_route_def handleReset_def on_gw_def set_store_def Let_def split: if_splits option.splits)
  then show ?thesis using changes_store(1) [OF only] assms(1) by auto
qed

lemma api_routes_confined:
  assumes ok: "mem_ok (g_store (sv_gw sv))"
  shows "serve_route e RtV1 r sv = (resp, sv') \<Longrightarrow> changes (route_domains RtV1 r) sv sv'"
    "serve_route e RtV2 r sv = (resp, sv') \<Longrightarrow> changes (route_domains RtV2 r) sv sv'"
    "serve_route e RtV3 r sv = (resp, sv') \<Longrightarrow> changes (route_domains RtV3 r) sv sv'"
proof -
  have gw: "changes (api_domain v r) sv sv'" if "on_gw (dispatch_version (env_lib e) (ce_go e) v r) sv = (resp, sv')" for v
    using that dispatch_touches [OF ok, of v r "env_lib e" "ce_go e"] changes_gw [of v r sv]
    by (auto simp: on_gw_def split: prod.splits)
  show "serve_route e RtV1 r sv = (resp, sv') \<Longrightarrow> changes (route_domains RtV1 r) sv sv'"
    using gw [of V1] by (simp add: serve_route_def dispatch_version_def Let_def)
  show "serve_route e RtV2 r sv = (resp, sv') \<Longrightarrow> changes (route_domains RtV2 r) sv sv'"
    using gw [of V2] by (simp add: serve_route_def dispatch_version_def Let_def)
  show "serve_route e RtV3 r sv = (resp, sv') \<Longrightarrow> changes (route_domains RtV3 r) sv sv'"
    using gw [of V3] by (simp add: serve_route_def dispatch_version_def Let_def)
qed

lemma own_routes_confined:
  assumes ok: "mem_ok (g_store (sv_gw sv))"
  shows "serve_route e RtLogWrite r sv = (resp, sv') \<Longrightarrow> changes (route_domains RtLogWrite r) sv sv'"
    "serve_route e RtCloudSQL r sv = (resp, sv') \<Longrightarrow> changes (route_domains RtCloudSQL r) sv sv'"
    "serve_route e RtBigQuery r sv = (resp, sv') \<Longrightarrow> changes (route_domains RtBigQuery r) sv sv'"
proof -
  show "changes (route_domains RtLogWrite r) sv sv'" if "serve_route e RtLogWrite r sv = (resp, sv')"
    using that ok handleWrite_only [OF ok] changes_store(3) [of "{DLogging}" sv]
    by (auto simp: serve_route_def Let_def split: option.splits prod.splits)
  show "changes (route_domains RtCloudSQL r) sv sv'" if "serve_route e RtCloudSQL r sv = (resp, sv')"
    using that ok csql_dispatch_only [OF ok] changes_store(4) [of "{DSql}" sv]
    by (auto simp: serve_route_def Let_def split: option.splits prod.splits)
  have "same_domain d sv (sv\<lparr>sv_bq := b\<rparr>)" if "d \<noteq> DBigQuery" for d b using that by (cases d) simp_all
  then show "changes (route_domains RtBigQuery r) sv sv'" if "serve_route e RtBigQuery r sv = (resp, sv')"
    using that ok by (auto simp: serve_route_def changes_def Let_def split: option.splits prod.splits)
qed

lemma route_confined:
  assumes ok: "mem_ok (g_store (sv_gw sv))" and h: "serve_route e rt r sv = (resp, sv')"
  shows "changes (route_domains rt r) sv sv'"
proof (cases "rt \<in> {RtHealth, RtDashIndex, RtDashState, RtDownload, RtDownloadRoot, RtLogList, RtMetadata, RtConIndex, RtConPage, RtConStatic}")
  case True
  then have "sv' = sv" using reading_routes [OF True, of e r sv] h by simp
  with ok show ?thesis by simp
next
  case False
  then show ?thesis
    using h reset_confined [OF ok] storage_routes_confined [OF ok] api_routes_confined [OF ok] own_routes_confined [OF ok]
      console_route_confined [OF ok]
    by (cases rt) auto
qed

text \<open>The handler of the gateway, whatever the configuration and the request.\<close>

lemma gw_handler_confined:
  assumes ok: "mem_ok (g_store (sv_gw sv))" and h: "gw_handler e proto r sv = Some (resp, sv')"
  shows "changes (request_domains e sv r) sv sv'"
proof -
  have s: "serve_rest e r sv = (resp, sv')" using h by (simp add: gw_handler_def split: if_splits)
  obtain hit pat where f: "findHandler (New_mux (sv_cfg sv)) (ve_escaped e r) r = (hit, pat)" by fastforce
  have mux: "changes (request_domains e sv r) sv sv'" if "serve_mux e r sv = (resp, sv')"
    using that ok route_confined [OF ok]
    by (auto simp: serve_mux_def request_domains_def f split: mux_found.splits)
  show ?thesis
  proof (cases "serve_mux e r sv = (resp, sv')")
    case False
    then obtain st s' st' where x: "HandleXML (ce_hash e) (ce_rfc e) (ce_go e) r (g_store (sv_gw sv)) st = Some (resp, s', st')"
      "sv' = set_store s' (sv\<lparr>sv_storage := Some st'\<rparr>)" "pat = []"
      using s f by (auto simp: serve_rest_def split: option.splits if_splits prod.splits)
    have "hit \<noteq> Found rt" for rt
    proof
      assume "hit = Found rt"
      then have "(pat, rt) \<in> set (New_mux (sv_cfg sv))" using f by (simp add: findHandler_mem)
      then have "(pat, rt) \<in> set all_routes" using New_mux_set by blast
      then show False using x(3) all_routes_rooted by (auto simp: list_all_iff rooted_def)
    qed
    then have "request_domains e sv r = {DStorage}" using f x(3) by (simp add: request_domains_def split: mux_found.splits)
    then show ?thesis using changes_store(2) [of "{DStorage}"] HandleXML_only [OF ok x(1)] x(2) by simp
  qed (rule mux)
qed

end
