(* ===== verification/Gateway_Invariants.thy ===== *)
theory Gateway_Invariants
  imports Gateway_Confined
begin

text \<open>
  The invariants of the services hold for the whole server: every request to the gateway, in whatever order and to whatever
  service, keeps all of them, although the services share one store.  A request is a step of the service that its route belongs to,
  and for all other services a change outside their namespaces.
\<close>

section \<open>The invariants in the gateway\<close>

fun service_inv :: "service \<Rightarrow> gateway \<Rightarrow> bool" where
  "service_inv SvcPubSub g = (\<forall>p. g_pubsub g = Some p \<longrightarrow> ps_inv (g_store g, p))"
| "service_inv SvcSecrets g = (\<forall>v. g_sm g = Some v \<longrightarrow> sm_inv (g_store g, v))"
| "service_inv SvcKms g = kms_inv (g_store g)"
| "service_inv SvcIamAdmin g = ia_inv (g_store g)"
| "service_inv SvcRun g = (\<forall>rn. g_run g = Some rn \<longrightarrow> rn_inv rn)"
| "service_inv SvcFunctions g = (\<forall>rn. g_funcs g = Some rn \<longrightarrow> rn_inv rn)"
| "service_inv _ g = True"

definition gw_inv :: "gateway \<Rightarrow> bool" where
  "gw_inv g \<longleftrightarrow> mem_ok (g_store g) \<and> (\<forall>x. service_inv x g)"

text \<open>A change outside the namespaces of a service keeps its invariant.\<close>

lemma service_inv_frame:
  assumes "service_inv x g" "mem_ok (g_store g')" "same_memory x g g'"
    and "\<And>n. n \<in> service_ns x \<Longrightarrow> mem_lookup (g_store g') n = mem_lookup (g_store g) n"
  shows "service_inv x g'"
proof (cases x)
  case SvcPubSub
  have "nsSubscriptions \<in> pubsub_ns" by (simp add: pubsub_ns_def)
  with assms SvcPubSub show ?thesis by (auto intro: ps_step_inv [OF st_other])
next
  case SvcSecrets
  then have "mem_lookup (g_store g') nsVersions = mem_lookup (g_store g) nsVersions" using assms(4) by (simp add: sm_ns_def)
  with assms(1-3) SvcSecrets show ?thesis by (auto intro: sm_inv_frame [of "g_store g"])
next
  case SvcKms
  then have "mem_lookup (g_store g') nsKeyRings = mem_lookup (g_store g) nsKeyRings"
    "mem_lookup (g_store g') nsCryptoKeys = mem_lookup (g_store g) nsCryptoKeys" using assms(4) by (simp_all add: kms_ns_def)
  with assms(1,2) SvcKms show ?thesis by (simp add: kms_inv_def typed_ns_def)
next
  case SvcIamAdmin
  then have "mem_lookup (g_store g') NamespaceKeys = mem_lookup (g_store g) NamespaceKeys"
    "mem_lookup (g_store g') NamespaceAccounts = mem_lookup (g_store g) NamespaceAccounts" using assms(4) by (simp_all add: ia_ns_def)
  with assms(1,2) SvcIamAdmin show ?thesis by (simp add: ia_inv_def)
qed (use assms in simp_all)

lemma gw_inv_own:
  assumes "gw_inv g" "touches (Some x) g g'" "service_inv x g'"
  shows "gw_inv g'"
proof -
  have ok: "mem_ok (g_store g')" using assms(2) by (simp add: touches_def only_ns_def)
  have "service_inv y g'" if "y \<noteq> x" for y
  proof (rule service_inv_frame [OF _ ok])
    show "service_inv y g" using assms(1) by (simp add: gw_inv_def)
    show "same_memory y g g'" using assms(2) that by (simp add: touches_def)
    show "mem_lookup (g_store g') n = mem_lookup (g_store g) n" if "n \<in> service_ns y" for n
      using assms(2) that service_ns_disjoint [OF \<open>y \<noteq> x\<close>] by (auto simp: touches_def only_ns_def)
  qed
  with assms(3) ok show ?thesis unfolding gw_inv_def by metis
qed

section \<open>The conditions\<close>

text \<open>
  What a request needs of its surroundings: \<^verbatim>\<open>range\<close> visits every entry once, the counters have room for what the request may
  draw, and the operating system gives a new process an identifier that no recorded one has.
\<close>

definition fresh_pids :: "run_world \<Rightarrow> cr_runner option \<Rightarrow> bool" where
  "fresh_pids w orn \<longleftrightarrow> (\<forall>rn pid. orn = Some rn \<longrightarrow> rw_start w = Inr pid \<longrightarrow>
     \<not> running rn pid \<and> pid \<notin> ch_pid ` snd ` set (rn_children rn))"

definition gw_room :: "gw_lib \<Rightarrow> go_env \<Rightarrow> http_req \<Rightarrow> gateway \<Rightarrow> bool" where
  "gw_room L e r g \<longleftrightarrow> env_ok e \<and> rnd_ok (gl_rnd L) \<and> (\<forall>p. g_pubsub g = Some p \<longrightarrow> ps_room r (g_store g) p) \<and>
     (\<forall>v n. g_sm g = Some v \<longrightarrow> v n < 2 ^ 63 - 1) \<and> fresh_pids (gl_world L) (g_run g) \<and> fresh_pids (gl_world L) (g_funcs g)"

section \<open>The handlers keep the invariant of their service\<close>

lemma via_elim:
  assumes "via h get put r parts g = Some (resp, g')"
  obtains st s' st' where "get g = Some st" "h r parts (g_store g) st = Some (resp, s', st')" "g' = put st' (g\<lparr>g_store := s'\<rparr>)"
  using assms by (auto simp: via_def split: option.splits)

lemma cr_runner_step:
  assumes "cr_HandleV2 k rfc w e r parts s rn = Some (resp, s', rn')" "fresh_pids w (Some rn)"
  shows "rn' = rn \<or> rn_step rn rn'"
proof -
  have inv: "rn_step rn q" if "startOrGet w n c ev rn = (res, q)" for n c ev res q
    using assms(2) by (intro rn_invoke [OF _ that]) (auto simp: fresh_pids_def)
  have "rn' = rn \<or> rn_step rn rn'" if "cr_invoke k rfc w r p l i s rn = (resp, s', rn')" for p l i
    using that inv by (auto simp: cr_invoke_def Let_def split: sum.splits prod.splits option.splits if_splits)
  moreover have "rn' = rn \<or> rn_step rn rn'" if "cr_item k r p l i s rn = (resp, s', rn')" for p l i
    using that rn_delete [of rn] by (auto simp: cr_item_def Let_def split: meth.splits sum.splits if_splits)
  moreover have "rn' = rn" if "cr_collection k rfc e r p l s rn = (resp, s', rn')" for p l
    using that by (auto simp: cr_collection_def Let_def split: meth.splits sum.splits if_splits option.splits prod.splits)
  ultimately show ?thesis using assms(1) by (auto simp: cr_HandleV2_def split: if_splits)
qed

lemma cr_keeps_inv:
  "cr_HandleV2 k rfc w e r parts s rn = Some (resp, s', rn') \<Longrightarrow> fresh_pids w (Some rn) \<Longrightarrow> rn_inv rn \<Longrightarrow> rn_inv rn'"
  using cr_runner_step rn_step_inv by blast

lemma handlers_keep_own:
  assumes inv: "gw_inv g" and room: "gw_room L e r g" and parts: "list_all noslash parts"
  shows "h_pubsub L e r parts g = Some (resp, g') \<Longrightarrow> service_inv SvcPubSub g'"
    "h_sm L e r parts g = Some (resp, g') \<Longrightarrow> service_inv SvcSecrets g'"
    "h_kms L e r parts g = Some (resp, g') \<Longrightarrow> service_inv SvcKms g'"
    "h_iamSA L e r parts g = Some (resp, g') \<Longrightarrow> service_inv SvcIamAdmin g'"
    "h_run L e r parts g = Some (resp, g') \<Longrightarrow> service_inv SvcRun g'"
    "h_funcs L e r parts g = Some (resp, g') \<Longrightarrow> service_inv SvcFunctions g'"
proof -
  have i: "service_inv x g" for x using inv by (simp add: gw_inv_def)
  show "service_inv SvcPubSub g'" if h: "h_pubsub L e r parts g = Some (resp, g')"
  proof -
    from h obtain p s' p' where p: "g_pubsub g = Some p" "pubsub_HandleV1 (gl_rfc L) e r parts (g_store g) p = Some (resp, s', p')"
      "g' = g\<lparr>g_store := s', g_pubsub := Some p'\<rparr>" unfolding h_pubsub_def by (elim via_elim) auto
    have "(s', p') = (g_store g, p) \<or> ps_step (g_store g, p) (s', p')"
      using rest_request_is_one_step [OF _ _ p(2)] room p(1) by (simp add: gw_room_def)
    then have "ps_inv (s', p')" using i [of SvcPubSub] p(1) ps_step_inv by auto
    then show ?thesis using p(3) by simp
  qed
  show "service_inv SvcSecrets g'" if h: "h_sm L e r parts g = Some (resp, g')"
  proof -
    from h obtain v s' v' where v: "g_sm g = Some v" "sm_HandleV1 (gl_rfc L) e r parts (g_store g) v = Some (resp, s', v')"
      "g' = g\<lparr>g_store := s', g_sm := Some v'\<rparr>" unfolding h_sm_def by (elim via_elim) auto
    have "sm_step (g_store g, v) (s', v')" using room v(1) by (intro sm_request [OF _ parts _ v(2)]) (auto simp: gw_room_def)
    then show ?thesis using i [of SvcSecrets] v(1,3) sm_step_inv by auto
  qed
  show "service_inv SvcKms g'" if h: "h_kms L e r parts g = Some (resp, g')"
  proof -
    from h obtain s' where s: "kms_HandleV1 (gl_rfc L) (gl_rnd L) e r parts (g_store g) = Some (resp, s')" "g_store g' = s'"
      unfolding h_kms_def by (elim via_elim) (auto simp: stateless_def)
    have "kms_step (g_store g) s'" using room by (intro kms_request [OF _ s(1)]) (simp add: gw_room_def)
    then show ?thesis using i [of SvcKms] s(2) kms_step_inv by auto
  qed
  show "service_inv SvcIamAdmin g'" if h: "h_iamSA L e r parts g = Some (resp, g')"
  proof -
    from h obtain s' where s: "iamadmin_HandleV1 (gl_rnd L) e r parts (g_store g) = Some (resp, s')" "g_store g' = s'"
      unfolding h_iamSA_def by (elim via_elim) (auto simp: stateless_def)
    have "ia_step (g_store g) s'" using room by (intro ia_request [OF _ parts s(1)]) (simp add: gw_room_def)
    then show ?thesis using i [of SvcIamAdmin] s(2) ia_step_inv by auto
  qed
  show "service_inv SvcRun g'" if h: "h_run L e r parts g = Some (resp, g')"
  proof -
    from h obtain rn s' rn' where rn: "g_run g = Some rn"
      "cr_HandleV2 KindService (gl_rfc L) (gl_world L) e r parts (g_store g) rn = Some (resp, s', rn')" "g_run g' = Some rn'"
      unfolding h_run_def by (elim via_elim) auto
    then show ?thesis using i [of SvcRun] room cr_keeps_inv [OF rn(2)] by (simp add: gw_room_def)
  qed
  show "service_inv SvcFunctions g'" if h: "h_funcs L e r parts g = Some (resp, g')"
  proof -
    from h obtain rn s' rn' where rn: "g_funcs g = Some rn"
      "cr_HandleV2 KindFunction (gl_rfc L) (gl_world L) e r parts (g_store g) rn = Some (resp, s', rn')" "g_funcs g' = Some rn'"
      unfolding h_funcs_def by (elim via_elim) auto
    then show ?thesis using i [of SvcFunctions] room cr_keeps_inv [OF rn(2)] by (simp add: gw_room_def)
  qed
qed

lemma splitPath_noslash: "list_all noslash (splitPath path pre)"
  unfolding list_all_iff splitPath_def noslash_def using split_on_parts by blast

lemma answer_keeps:
  assumes "answers_for x cl h" "gw_inv g" "h r p g = Some (resp, g')" "service_inv x g'"
  shows "gw_inv g'"
proof -
  have "touches (Some x) g g'" using answersD [OF assms(1) _ assms(3)] assms(2) by (simp add: gw_inv_def)
  then show ?thesis using gw_inv_own [OF assms(2) _ assms(4)] by blast
qed

text \<open>Every request to a versioned API keeps every invariant.\<close>

lemma dispatch_keeps_inv:
  assumes inv: "gw_inv g" and room: "gw_room L e r g"
  shows "gw_inv (snd (dispatch_version L e v r g))"
proof -
  define p where "p = splitPath (r_path r) (version_path v)"
  note own = handlers_keep_own [OF inv room, of p, unfolded p_def, OF splitPath_noslash, folded p_def]
  note hs = handlers_answer [of L e] h_iamc_answers [of L e] iam_verb_answers [of L]
  obtain resp g' where d: "dispatch_version L e v r g = (resp, g')" by fastforce
  have v1: "\<exists>h\<in>set (v1_handlers L e g). h r p g = Some (resp, g')"
    if "first_claim (v1_handlers L e g) r p g = Some (resp, g')" using first_claim_Some that by metis
  consider "g' = g" | "handleIAMVerb L r p g = Some (resp, g')" | "\<exists>h\<in>set (v1_handlers L e g). h r p g = Some (resp, g')"
    | "h_tasks L e r p g = Some (resp, g')" | "h_run L e r p g = Some (resp, g')" | "h_funcs L e r p g = Some (resp, g')"
    | "h_mon L e r p g = Some (resp, g')"
  proof (cases v)
    case V1
    with d that(1-3) v1 show ?thesis
      by (auto simp: dispatch_version_def dispatchV1_def Let_def p_def split: if_splits option.splits)
  next
    case V2
    with d that(1,2,4-6) show ?thesis
      by (auto simp: dispatch_version_def dispatchV2_def Let_def p_def split: if_splits option.splits)
  next
    case V3
    with d that(1,7) show ?thesis
      by (auto simp: dispatch_version_def dispatchV3_def Let_def p_def split: if_splits option.splits)
  qed
  then have "gw_inv g'"
  proof cases
    case 3
    then obtain h where h: "h \<in> set (v1_handlers L e g)" "h r p g = Some (resp, g')" by blast
    then consider "h = h_iamSA L e" | "h = h_pubsub L e" | "h = h_sm L e" | "h = h_sched L e" | "h = h_kms L e" | "h = h_iamc L e"
      by (auto simp: v1_handlers_def split: if_splits)
    then show ?thesis using h(2) own hs answer_keeps [OF _ inv, of _ _ h r p resp g'] by cases auto
  qed (use own hs answer_keeps [OF _ inv, of _ _ _ r p resp g'] inv in auto)
  then show ?thesis by (simp add: d)
qed

section \<open>The server\<close>

definition log_part :: "'db server \<Rightarrow> bool" where
  "log_part sv \<longleftrightarrow> (\<forall>q. sv_logging sv = Some q \<longrightarrow> log_inv (g_store (sv_gw sv), q))"

definition sql_part :: "'db server \<Rightarrow> bool" where
  "sql_part sv \<longleftrightarrow> (\<forall>c. sv_csql sv = Some c \<longrightarrow> csql_inv (g_store (sv_gw sv), c))"

definition server_inv :: "'db server \<Rightarrow> bool" where
  "server_inv sv \<longleftrightarrow> gw_inv (sv_gw sv) \<and> log_part sv \<and> sql_part sv"

lemma log_part_frame:
  assumes "log_part sv" "sv_logging sv' = sv_logging sv" "mem_ok (g_store (sv_gw sv'))"
    and "mem_lookup (g_store (sv_gw sv')) nsEntries = mem_lookup (g_store (sv_gw sv)) nsEntries"
  shows "log_part sv'"
  using assms by (auto simp: log_part_def log_inv_def)

lemma sql_part_frame:
  assumes "sql_part sv" "sv_csql sv' = sv_csql sv" "mem_ok (g_store (sv_gw sv'))"
    and "mem_lookup (g_store (sv_gw sv')) nsInstances = mem_lookup (g_store (sv_gw sv)) nsInstances"
  shows "sql_part sv'"
  using assms unfolding sql_part_def by (auto intro: csql_step_inv [OF csql_other])

text \<open>What lies outside the changed domains keeps its invariant.\<close>

lemma server_inv_frame:
  assumes inv: "server_inv sv" and ch: "changes D sv sv'"
    and own: "\<And>x. DApi x \<in> D \<Longrightarrow> service_inv x (sv_gw sv')" "DLogging \<in> D \<Longrightarrow> log_part sv'" "DSql \<in> D \<Longrightarrow> sql_part sv'"
  shows "server_inv sv'"
proof -
  have ok: "mem_ok (g_store (sv_gw sv'))" using changes_ok [OF ch] .
  have "service_inv x (sv_gw sv')" for x
  proof (cases "DApi x \<in> D")
    case False
    show ?thesis
    proof (rule service_inv_frame [OF _ ok])
      show "service_inv x (sv_gw sv)" using inv by (simp add: server_inv_def gw_inv_def)
    qed (use changes_keeps [OF ch False] in simp_all)
  qed (rule own)
  moreover have "log_part sv'" if "DLogging \<notin> D"
  proof (rule log_part_frame [OF _ _ ok])
    show "log_part sv" using inv by (simp add: server_inv_def)
  qed (use changes_keeps [OF ch that] in simp_all)
  moreover have "sql_part sv'" if "DSql \<notin> D"
  proof (rule sql_part_frame [OF _ _ ok])
    show "sql_part sv" using inv by (simp add: server_inv_def)
  qed (use changes_keeps [OF ch that] in simp_all)
  ultimately show ?thesis using ok own(2,3) unfolding server_inv_def gw_inv_def by blast
qed

text \<open>The conditions for a request to the whole server: those of the versioned APIs, one more publish from the console, and room for the entries.\<close>

definition server_room :: "'db server_env \<Rightarrow> http_req \<Rightarrow> 'db server \<Rightarrow> bool" where
  "server_room e r sv \<longleftrightarrow> gw_room (env_lib e) (ce_go e) r (sv_gw sv) \<and>
     (\<forall>p. g_pubsub (sv_gw sv) = Some p \<longrightarrow> ps_msgSeq p + 1 < 2 ^ 64 \<and>
        ps_ackSeq p + length (bucket_of (g_store (sv_gw sv)) nsSubscriptions) < 2 ^ 64) \<and>
     (\<forall>q. sv_logging sv = Some q \<longrightarrow>
        q + (case r_json r of None \<Rightarrow> 0 | Some j \<Rightarrow> length (wr_Entries (fst (dec_writeRequest (ce_rfc e) j)))) < 2 ^ 64)"

lemma reset_keeps_inv:
  assumes inv: "server_inv sv" and e: "env_ok (ce_go e)" and h: "serve_route e RtReset r sv = (resp, sv')"
  shows "server_inv sv'"
proof -
  have ok: "mem_ok (g_store (sv_gw sv))" using inv by (simp add: server_inv_def gw_inv_def)
  have i: "service_inv x (sv_gw sv)" for x using inv by (simp add: server_inv_def gw_inv_def)
  obtain s where all: "reset_all (ce_go e) reset_namespaces (g_store (sv_gw sv)) = (None, s)" and s: "mem_ok s"
    "mem_lookup s = (\<lambda>n k. if n \<in> set reset_namespaces then None else mem_lookup (g_store (sv_gw sv)) n k)"
    using reset_all_clears [OF e ok] by blast
  have "sv' = sv \<or> sv' = set_store s sv"
    using h all by (auto simp: serve_route_def handleReset_def on_gw_def set_store_def Let_def split: if_splits)
  moreover have "server_inv (set_store s sv)" if sv': "sv' = set_store s sv"
  proof (rule server_inv_frame [OF inv reset_confined [OF ok h, unfolded sv']])
    have gone: "mem_lookup s nsSubscriptions = (\<lambda>_. None)" "mem_lookup s nsVersions = (\<lambda>_. None)" "mem_lookup s nsKeyRings = (\<lambda>_. None)"
      "mem_lookup s nsCryptoKeys = (\<lambda>_. None)" "mem_lookup s NamespaceKeys = (\<lambda>_. None)"
      by (auto simp: s(2) reset_namespaces_def ns_defs)
    fix x
    show "service_inv x (sv_gw (set_store s sv))"
    proof (cases x)
      case SvcPubSub
      have "ps_inv (s, p)" if "ps_inv (g_store (sv_gw sv), p)" for p
        using ps_step_inv [OF st_other [OF s(1)] that] gone by simp
      then show ?thesis using i [of SvcPubSub] SvcPubSub by (simp add: set_store_def)
    next
      case SvcSecrets
      have "sm_inv (s, v)" if "sm_inv (g_store (sv_gw sv), v)" for v
        using sm_inv_frame [OF that s(1)] gone by simp
      then show ?thesis using i [of SvcSecrets] SvcSecrets by (simp add: set_store_def)
    qed (use i [of x] s(1) gone in \<open>simp_all add: set_store_def kms_inv_def ia_inv_def typed_ns_def\<close>)
  qed (auto simp: reset_domains_def)
  ultimately show ?thesis using inv by blast
qed

lemma console_keeps_inv:
  assumes inv: "server_inv sv" and room: "server_room e r sv" and h: "serve_route e RtConAPI r sv = (resp, sv')"
  shows "server_inv sv'"
proof -
  have ok: "mem_ok (g_store (sv_gw sv))" using inv by (simp add: server_inv_def gw_inv_def)
  obtain c where c: "routeAPI (con_opts e sv) r (to_console e sv) = (resp, c)" "sv' = from_console c sv"
    using h by (auto simp: serve_route_def Let_def split: prod.splits)
  have "ps_inv (ct_store c, ct_pubsub c)" if p: "g_pubsub (sv_gw sv) = Some p" for p
  proof -
    have q: "ct_store (to_console e sv) = g_store (sv_gw sv)" "ct_pubsub (to_console e sv) = p"
      by (simp_all add: to_console_def p)
    have i: "ps_inv (g_store (sv_gw sv), p)" using inv p by (auto simp: server_inv_def gw_inv_def dest: spec [of _ SvcPubSub])
    show ?thesis
    proof (cases "c = to_console e sv")
      case False
      from routeAPI_effect [OF c(1) [unfolded con_opts_def] _ False] ok q
      consider t d a x where "ConsolePublish (ce_go e) (g_store (sv_gw sv)) p t d a = (x, ct_pubsub c)" "ct_store c = g_store (sv_gw sv)"
        | a b where "only_ns {objectNamespace a, objectDataNamespace b} (g_store (sv_gw sv)) (ct_store c)" "ct_pubsub c = p"
        | "ct_store c = g_store (sv_gw sv)" "ct_pubsub c = p"
        by (auto simp: console_env.defs)
      then show ?thesis
      proof cases
        case 1
        obtain m res where "PublishMessages (ce_go e) (g_store (sv_gw sv)) p t [m] = (res, ct_pubsub c)"
          using 1(1) unfolding ConsolePublish_def by (auto split: prod.splits sum.splits list.splits)
        then have "ps_step (g_store (sv_gw sv), p) (g_store (sv_gw sv), ct_pubsub c)"
          using room p by (intro st_publish) (auto simp: server_room_def gw_room_def)
        then show ?thesis using ps_step_inv i 1(2) by simp
      next
        case 2
        have "objectNamespace a \<noteq> nsSubscriptions" "objectDataNamespace b \<noteq> nsSubscriptions"
          by (simp_all add: objectNamespace_def objectDataNamespace_def ns_defs)
        with 2 have "ps_step (g_store (sv_gw sv), p) (ct_store c, p)"
          by (intro st_other) (auto simp: only_ns_def)
        then show ?thesis using ps_step_inv i 2(2) by simp
      qed (use i in simp)
    qed (use i q in simp)
  qed
  then have "service_inv SvcPubSub (sv_gw sv')" by (auto simp: c(2) from_console_def)
  then show ?thesis using server_inv_frame [OF inv console_route_confined [OF ok h]] by auto
qed

lemma route_keeps_inv:
  assumes inv: "server_inv sv" and room: "server_room e r sv" and h: "serve_route e rt r sv = (resp, sv')"
  shows "server_inv sv'"
proof -
  have ok: "mem_ok (g_store (sv_gw sv))" using inv by (simp add: server_inv_def gw_inv_def)
  note frame = server_inv_frame [OF inv route_confined [OF ok h]]
  have v: "server_inv sv'" if "on_gw (dispatch_version (env_lib e) (ce_go e) v r) sv = (resp, sv')" and "changes (api_domain v r) sv sv'" for v
  proof -
    define g where g: "g = snd (dispatch_version (env_lib e) (ce_go e) v r (sv_gw sv))"
    have sv': "sv' = sv\<lparr>sv_gw := g\<rparr>" using that(1) by (simp add: on_gw_def g split: prod.splits)
    have "gw_inv g" using dispatch_keeps_inv inv room g by (auto simp: server_inv_def server_room_def)
    moreover have "DLogging \<notin> api_domain v r" "DSql \<notin> api_domain v r" by (simp_all add: api_domain_def split: option.splits)
    ultimately show ?thesis using server_inv_frame [OF inv that(2)] sv' by (simp add: gw_inv_def)
  qed
  show ?thesis
  proof (cases rt)
    case RtReset
    with reset_keeps_inv [OF inv] h room show ?thesis by (auto simp: server_room_def gw_room_def)
  next
    case RtV1
    with v [of V1] h api_routes_confined(1) [OF ok] show ?thesis by (simp add: serve_route_def dispatch_version_def Let_def)
  next
    case RtV2
    with v [of V2] h api_routes_confined(2) [OF ok] show ?thesis by (simp add: serve_route_def dispatch_version_def Let_def)
  next
    case RtV3
    with v [of V3] h api_routes_confined(3) [OF ok] show ?thesis by (simp add: serve_route_def dispatch_version_def Let_def)
  next
    case RtConAPI
    with console_keeps_inv [OF inv room] h show ?thesis by simp
  next
    case RtBucketPath
    with frame show ?thesis by auto
  next
    case RtLogWrite
    have "log_part sv'" if q: "sv_logging sv = Some q" for q
    proof -
      obtain s' q' where "handleWrite (ce_rfc e) (ce_go e) r (g_store (sv_gw sv)) q = (resp, s', q')" "sv' = set_store s' (sv\<lparr>sv_logging := Some q'\<rparr>)"
        using h RtLogWrite q by (auto simp: serve_route_def Let_def split: prod.splits)
      moreover from this(1) have "log_step (g_store (sv_gw sv), q) (s', q')"
        by (rule log_write) (use room q in \<open>simp add: server_room_def\<close>)
      ultimately show ?thesis using log_step_inv inv q by (auto simp: log_part_def set_store_def server_inv_def)
    qed
    moreover have "log_part sv'" if "sv_logging sv = None"
      using h RtLogWrite that by (simp add: serve_route_def log_part_def Let_def)
    ultimately show ?thesis using frame RtLogWrite by (cases "sv_logging sv") auto
  next
    case RtCloudSQL
    have "sql_part sv'" if c: "sv_csql sv = Some c" for c
    proof -
      obtain s' c' where "csql_dispatch (ce_rfc e) (ve_host e) (ce_go e) r (g_store (sv_gw sv)) c = (resp, s', c')"
        "sv' = set_store s' (sv\<lparr>sv_csql := Some c'\<rparr>)"
        using h RtCloudSQL c by (auto simp: serve_route_def Let_def split: prod.splits)
      then show ?thesis using csql_step_inv [OF csql_request] inv c by (auto simp: sql_part_def set_store_def server_inv_def)
    qed
    moreover have "sql_part sv'" if "sv_csql sv = None"
      using h RtCloudSQL that by (simp add: serve_route_def sql_part_def Let_def)
    ultimately show ?thesis using frame RtCloudSQL by (cases "sv_csql sv") auto
  qed (use frame in auto)
qed

lemma request_keeps_inv:
  assumes inv: "server_inv sv" and room: "server_room e r sv" and h: "gw_handler e proto r sv = Some (resp, sv')"
  shows "server_inv sv'"
proof -
  have ok: "mem_ok (g_store (sv_gw sv))" using inv by (simp add: server_inv_def gw_inv_def)
  obtain hit pat where f: "findHandler (New_mux (sv_cfg sv)) (ve_escaped e r) r = (hit, pat)" by fastforce
  show ?thesis
  proof (cases hit)
    case (Found rt)
    have "pat \<noteq> []"
    proof -
      have "(pat, rt) \<in> set (New_mux (sv_cfg sv))" using f Found by (simp add: findHandler_mem)
      then have "(pat, rt) \<in> set all_routes" using New_mux_set by blast
      then show ?thesis using all_routes_rooted by (auto simp: list_all_iff rooted_def)
    qed
    then have "serve_route e rt r sv = (resp, sv')"
      using h f Found by (auto simp: gw_handler_def serve_rest_def serve_mux_def split: if_splits option.splits)
    then show ?thesis by (rule route_keeps_inv [OF inv room])
  next
    case (Redirect to)
    then have "request_domains e sv r \<subseteq> {DStorage}" by (simp add: request_domains_def f)
    then show ?thesis using server_inv_frame [OF inv gw_handler_confined [OF ok h]] by auto
  next
    case NotFoundHere
    then have "request_domains e sv r \<subseteq> {DStorage}" by (simp add: request_domains_def f)
    then show ?thesis using server_inv_frame [OF inv gw_handler_confined [OF ok h]] by auto
  qed
qed

end
