(* ===== verification/Gateway_Lifecycle.thy ===== *)
theory Gateway_Lifecycle
  imports Gateway_Invariants
begin

text \<open>
  The life of a server: \<^verbatim>\<open>New\<close> establishes the invariants of all services, every step keeps them, and the shutdown at the end of
  \<^verbatim>\<open>Run\<close> leaves nothing running.
\<close>

section \<open>Start\<close>

text \<open>The store while \<^verbatim>\<open>New\<close> seeds buckets, topics and subscriptions: everything else is still empty.\<close>

definition seeded :: "mem \<Rightarrow> bool" where
  "seeded s \<longleftrightarrow> mem_ok s \<and> subs_typed s \<and> (\<forall>n. n \<notin> storage_ns \<union> pubsub_ns \<longrightarrow> mem_lookup s n = Map.empty)"

definition booting :: "'db server \<Rightarrow> bool" where
  "booting sv \<longleftrightarrow> seeded (g_store (sv_gw sv)) \<and> service_inv SvcPubSub (sv_gw sv) \<and> g_sm (sv_gw sv) \<in> {None, Some sm_New} \<and>
     g_run (sv_gw sv) \<in> {None, Some newRunner} \<and> g_funcs (sv_gw sv) \<in> {None, Some newRunner} \<and>
     sv_logging sv \<in> {None, Some 0} \<and> sv_csql sv = None"

lemma other_namespaces:
  "{nsSecrets, nsVersions, nsKeyRings, nsCryptoKeys, NamespaceAccounts, NamespaceKeys, nsEntries, nsInstances} \<inter> (storage_ns \<union> pubsub_ns) = {}"
  by (simp add: storage_ns_def pubsub_ns_def ns_defs)

lemma newRunner_inv: "rn_inv newRunner"
  by (simp add: rn_inv_def newRunner_def running_def)

lemma booting_inv:
  assumes "booting sv"
  shows "server_inv sv"
proof -
  have "mem_lookup (g_store (sv_gw sv)) n = Map.empty" if "n \<notin> storage_ns \<union> pubsub_ns" for n
    using assms that by (simp add: booting_def seeded_def)
  then have none: "mem_lookup (g_store (sv_gw sv)) nsVersions = Map.empty" "mem_lookup (g_store (sv_gw sv)) nsKeyRings = Map.empty"
    "mem_lookup (g_store (sv_gw sv)) nsCryptoKeys = Map.empty" "mem_lookup (g_store (sv_gw sv)) NamespaceKeys = Map.empty"
    "mem_lookup (g_store (sv_gw sv)) nsEntries = Map.empty"
    using other_namespaces by blast+
  have ok: "mem_ok (g_store (sv_gw sv))" using assms by (simp add: booting_def seeded_def)
  have b: "service_inv SvcPubSub (sv_gw sv)" "g_sm (sv_gw sv) \<in> {None, Some sm_New}" "g_run (sv_gw sv) \<in> {None, Some newRunner}"
    "g_funcs (sv_gw sv) \<in> {None, Some newRunner}" using assms by (simp_all add: booting_def)
  have "service_inv x (sv_gw sv)" for x
  proof (cases x)
    case SvcSecrets
    have "sm_inv (g_store (sv_gw sv), sm_New)" using none(1) ok by (simp add: sm_inv_def sm_New_def)
    then show ?thesis using b(2) SvcSecrets by auto
  next
    case SvcPubSub
    with b(1) show ?thesis by simp
  next
    case SvcKms
    then show ?thesis using none(2,3) ok by (simp add: kms_inv_def typed_ns_def)
  next
    case SvcIamAdmin
    then show ?thesis using none(4) ok by (simp add: ia_inv_def)
  qed (use b(3,4) newRunner_inv in auto)
  then show ?thesis using assms ok none(5)
    by (auto simp: server_inv_def gw_inv_def log_part_def sql_part_def booting_def log_inv_def)
qed

lemma seeded_storage:
  assumes "seeded s" "only_ns storage_ns s s'"
  shows "seeded s'" "ps_inv (s, p) \<Longrightarrow> ps_inv (s', p)"
proof -
  have "nsSubscriptions \<notin> storage_ns" by (simp add: storage_ns_def ns_defs)
  then have same: "mem_lookup s' nsSubscriptions = mem_lookup s nsSubscriptions" using assms(2) by (simp add: only_ns_def)
  then show "seeded s'" using assms by (auto simp: seeded_def only_ns_def typed_ns_def)
  show "ps_inv (s', p)" if "ps_inv (s, p)"
    by (rule ps_step_inv [OF st_other that]) (use only_ns_ok [OF assms(2)] same in simp_all)
qed

lemma seedBucket_only:
  "mem_ok s \<Longrightarrow> seedBucket dct H e b fs s st = (er, s', st') \<Longrightarrow> only_ns storage_ns s s'"
proof (induction dct H e b fs s st rule: seedBucket.induct)
  case (2 dct H e b rel content fs s st)
  show ?case
  proof (cases content)
    case (Some data)
    obtain ob t u where o: "storeObject H e b rel (detectContentType dct rel data) data s st = (ob, t, u)"
      by (cases "storeObject H e b rel (detectContentType dct rel data) data s st")
    note put = storeObject_only [OF 2(2) o]
    have "seedBucket dct H e b fs t u = (er, s', st')" using 2(3) Some o by simp
    from 2(1) [OF Some refl o [symmetric] refl only_ns_ok [OF put] this] put show ?thesis by (blast intro: only_ns_trans)
  qed (use 2 in simp)
qed simp

lemma seed_buckets_only:
  "mem_ok s \<Longrightarrow> seed_buckets e o' i bs s st = Inr (s', st') \<Longrightarrow> only_ns storage_ns s s'"
proof (induction bs arbitrary: i s st)
  case (Cons b bs)
  from Cons.prems(2) obtain s1 where e: "ensureBucket (so_go o' i) (cfg_BucketName b) s = Inr s1" by (auto split: sum.splits)
  then have o1: "only_ns storage_ns s s1" using Cons.prems(1)
    by (auto simp: ensureBucket_def split: if_splits sum.splits)
  consider "seed_buckets e o' (Suc i) bs s1 st = Inr (s', st')"
    | fs s2 st2 where "seedBucket (ce_detect e) (ce_hash e) (so_go o' i) (cfg_BucketName b) fs s1 st = (None, s2, st2)"
      "seed_buckets e o' (Suc i) bs s2 st2 = Inr (s', st')"
    using Cons.prems(2) e by (auto split: if_splits sum.splits prod.splits option.splits)
  then show ?case
  proof cases
    case 1
    from Cons.IH [OF only_ns_ok [OF o1] this] o1 show ?thesis by (blast intro: only_ns_trans)
  next
    case 2
    note o2 = seedBucket_only [OF only_ns_ok [OF o1] 2(1)]
    from Cons.IH [OF only_ns_ok [OF o2] 2(2)] o1 o2 show ?thesis by (blast intro: only_ns_trans)
  qed
qed simp

lemma seed_subs_ok:
  "ps_inv (s, p) \<Longrightarrow> seed_subs proj t subs (s, p) = Inr (s', p') \<Longrightarrow> ps_inv (s', p') \<and> only_ns pubsub_ns s s'"
proof (induction subs arbitrary: s p)
  case (Cons sub subs)
  define b where "b = \<lparr>sub_Name = ''projects/'' @ proj @ ''/subscriptions/'' @ cfg_SubName sub, sub_Topic = t, sub_AckDeadlineSeconds = 10,
     sub_PushConfig = (if cfg_PushEndpoint sub \<noteq> [] then Some \<lparr>PushEndpoint = cfg_PushEndpoint sub\<rparr> else None)\<rparr>"
  define s1 where "s1 = mput s nsSubscriptions (sub_Name b) (JsonB (enc_sub b))"
  have "sub_ok b" by (simp add: b_def sub_ok_def in_int64_def)
  then have i: "ps_inv (s1, p)" using putSub_inv [OF Cons.prems(1)] by (simp add: s1_def)
  then have "ps_inv (s1, startPusher p b)" by (rule ps_inv_same_queues) simp_all
  moreover have o: "only_ns pubsub_ns s s1" using ps_inv_D(1) [OF Cons.prems(1)] by (simp add: s1_def pubsub_ns_def)
  moreover have "seed_subs proj t subs (s1, if sub_PushConfig b \<noteq> None then startPusher p b else p) = Inr (s', p')"
    using Cons.prems(2) by (cases "cfg_PushEndpoint sub = []") (simp_all add: b_def s1_def putSubscription_def Let_def)
  ultimately show ?case using Cons.IH [of s1 "if sub_PushConfig b \<noteq> None then startPusher p b else p"] i
    by (auto split: if_splits intro: only_ns_trans)
qed (auto dest: ps_inv_D(1))

lemma seed_topics_ok:
  "ps_inv (s, p) \<Longrightarrow> seed_topics proj ts (s, p) = Inr (s', p') \<Longrightarrow> ps_inv (s', p') \<and> only_ns pubsub_ns s s'"
proof (induction ts arbitrary: s p)
  case (Cons t ts)
  let ?n = "''projects/'' @ proj @ ''/topics/'' @ cfg_TopicName t"
  define s1 where "s1 = mput s nsTopics ?n (JsonB (enc_topic \<lparr>topic_Name = ?n\<rparr>))"
  have i: "ps_inv (s1, p)" "only_ns pubsub_ns s s1"
    using topic_inv [OF Cons.prems(1)] ps_inv_D(1) [OF Cons.prems(1)] by (simp_all add: s1_def pubsub_ns_def)
  from Cons.prems(2) obtain s2 p2 where "seed_subs proj ?n (cfg_Subscriptions t) (s1, p) = Inr (s2, p2)"
    "seed_topics proj ts (s2, p2) = Inr (s', p')" by (auto simp: putTopic_def s1_def Let_def split: sum.splits)
  with seed_subs_ok [OF i(1)] Cons.IH i(2) show ?case by (blast intro: only_ns_trans)
qed (auto dest: ps_inv_D(1))

text \<open>An enabled service is constructed by its block of \<^verbatim>\<open>New\<close>; the health registry is not part of an invariant.\<close>

lemma init_services_keeps:
  assumes "\<And>x f sv sv'. (x, f) \<in> set cs \<Longrightarrow> P sv \<Longrightarrow> f sv = Inr sv' \<Longrightarrow> P sv'" "\<And>sv h. P sv \<Longrightarrow> P (sv\<lparr>sv_health := h\<rparr>)"
  shows "P sv \<Longrightarrow> init_services cs sv = Inr sv' \<Longrightarrow> P sv'"
  using assms(1)
proof (induction cs sv rule: init_services.induct)
  case (2 name on f rest sv)
  have IH: "\<And>x f sv sv'. (x, f) \<in> set rest \<Longrightarrow> P sv \<Longrightarrow> f sv = Inr sv' \<Longrightarrow> P sv'"
    using 2(5) by (meson list.set_intros(2))
  show ?case
  proof (cases on)
    case True
    with 2(4) obtain t where t: "f sv = Inr t" "init_services rest (t\<lparr>sv_health := register_one name True (sv_health t)\<rparr>) = Inr sv'"
      by (auto split: sum.splits)
    have "P t" using 2(5) [of "(name, on)" f, OF _ 2(3) t(1)] by simp
    then show ?thesis using 2(2) True t IH assms(2) by auto
  qed (use 2(1,3,4) IH in auto)
qed simp

lemma init_services_append:
  "init_services (xs @ ys) sv = (case init_services xs sv of Inl er \<Rightarrow> Inl er | Inr sv' \<Rightarrow> init_services ys sv')"
  by (induction xs sv rule: init_services.induct) (auto split: sum.splits)

lemma booting_simps [simp]:
  "booting (sv\<lparr>sv_health := h\<rparr>) = booting sv" "booting (sv\<lparr>sv_bq := b\<rparr>) = booting sv" "booting (sv\<lparr>sv_fs := f\<rparr>) = booting sv"
  "booting (sv\<lparr>sv_mem := m\<rparr>) = booting sv" "booting (sv\<lparr>sv_bt := x\<rparr>) = booting sv" "booting (sv\<lparr>sv_sp := x\<rparr>) = booting sv"
  "booting sv \<Longrightarrow> booting (sv\<lparr>sv_logging := Some 0\<rparr>)"
  by (simp_all add: booting_def)

lemma server_inv_health [simp]: "server_inv (sv\<lparr>sv_health := h\<rparr>) = server_inv sv"
  by (simp add: server_inv_def log_part_def sql_part_def)

text \<open>The blocks before Cloud SQL.\<close>

lemma init_storage_boots:
  assumes "booting sv" "init_storage e o' cfg sv = Inr sv'"
  shows "booting sv'"
proof -
  obtain s st where s: "seed_buckets e o' 0 (Storage_Buckets (Services cfg)) (g_store (sv_gw sv))
      \<lparr>ss_generation = 0, ss_sessions = [], ss_resumableSeq = 0\<rparr> = Inr (s, st)" "sv' = set_store s (sv\<lparr>sv_storage := Some st\<rparr>)"
    using assms(2) unfolding init_storage_def storage_New_def by (auto simp: map_sum_def split: sum.splits prod.splits)
  have b: "seeded (g_store (sv_gw sv))" using assms(1) by (simp add: booting_def)
  have "only_ns storage_ns (g_store (sv_gw sv)) s" using seed_buckets_only [OF _ s(1)] b by (simp add: seeded_def)
  then show ?thesis using seeded_storage [OF b] assms(1) s(2) by (simp add: booting_def set_store_def)
qed

lemma init_pubsub_boots:
  assumes "booting sv" "init_pubsub cfg sv = Inr sv'"
  shows "booting sv'"
proof -
  obtain s p where s: "seed_topics (Project cfg) (PubSub_Topics (Services cfg)) (g_store (sv_gw sv), empty_pubsub) = Inr (s, p)"
    "sv' = sv\<lparr>sv_gw := (sv_gw sv)\<lparr>g_store := s, g_pubsub := Some p\<rparr>\<rparr>"
    using assms(2) unfolding init_pubsub_def pubsub_New_def by (auto simp: map_sum_def split: sum.splits prod.splits)
  have b: "seeded (g_store (sv_gw sv))" using assms(1) by (simp add: booting_def)
  then have "ps_inv (g_store (sv_gw sv), empty_pubsub)" by (intro ps_init_inv) (simp add: ps_init_def seeded_def)
  from seed_topics_ok [OF this s(1)] have p: "ps_inv (s, p)" "only_ns pubsub_ns (g_store (sv_gw sv)) s" by simp_all
  then have "seeded s" using b ps_inv_D(1,2) [OF p(1)] by (auto simp: seeded_def only_ns_def)
  then show ?thesis using assms(1) s(2) p(1) by (simp add: booting_def)
qed

text \<open>Cloud SQL itself and the blocks after it.\<close>

lemma csql_New_only:
  "mem_ok s \<Longrightarrow> seed_instances h now cfg i xs s c = (Inr (), s', c') \<Longrightarrow> only_ns {nsInstances} s s'"
proof (induction h now cfg i xs s c rule: seed_instances.induct)
  case (2 h now cfg i x xs s c)
  then obtain b c1 where b: "startInstance (h i) (configured_instance cfg (now i) i x) (csql_Seed x) c = Inr (b, c1)"
    "seed_instances h now cfg (Suc i) xs (store_instance b s) c1 = (Inr (), s', c')" by (auto split: sum.splits)
  have "only_ns {nsInstances} s (store_instance b s)" using 2(2) by simp
  with 2(1) [OF b(1) refl only_ns_ok [OF this] b(2)] show ?case by (blast intro: only_ns_trans)
qed simp

lemma init_cloudsql_elim:
  assumes "init_cloudsql o' cfg sv = Inr sv'"
  obtains s c where "cloudsql_New (so_sqlHost o') (so_now o') cfg (g_store (sv_gw sv)) = (Inr (), s, c)"
    "sv' = set_store s (sv\<lparr>sv_csql := Some c\<rparr>)"
proof -
  obtain res s c where n: "cloudsql_New (so_sqlHost o') (so_now o') cfg (g_store (sv_gw sv)) = (res, s, c)"
    by (cases "cloudsql_New (so_sqlHost o') (so_now o') cfg (g_store (sv_gw sv))")
  have "Inr sv' = (case res of Inl er \<Rightarrow> Inl er | Inr u \<Rightarrow> Inr (set_store s (sv\<lparr>sv_csql := Some c\<rparr>)))"
    unfolding assms [symmetric] init_cloudsql_def n by (cases res) (simp_all add: case_unit_Unity)
  then have "res = Inr ()" "sv' = set_store s (sv\<lparr>sv_csql := Some c\<rparr>)" by (auto split: sum.splits)
  with n that show ?thesis by simp
qed

lemma init_cloudsql_inv:
  assumes "booting sv" "init_cloudsql o' cfg sv = Inr sv'" "distinct (map csql_Name (CloudSQL_Instances (Services cfg)))"
  shows "server_inv sv'"
proof -
  obtain s c where s: "cloudsql_New (so_sqlHost o') (so_now o') cfg (g_store (sv_gw sv)) = (Inr (), s, c)"
    "sv' = set_store s (sv\<lparr>sv_csql := Some c\<rparr>)" using init_cloudsql_elim [OF assms(2)] .
  have "nsInstances \<notin> storage_ns \<union> pubsub_ns" using other_namespaces by blast
  then have ok: "mem_ok (g_store (sv_gw sv))" "mem_lookup (g_store (sv_gw sv)) nsInstances = Map.empty"
    using assms(1) by (simp_all add: booting_def seeded_def)
  then have "\<forall>k. mem_lookup (g_store (sv_gw sv)) nsInstances k = None" by simp
  with ok(1) s(1) assms(3) have "csql_init (s, c)" unfolding csql_init_def by blast
  then have "sql_part sv'" using csql_init_inv s(2) by (simp add: sql_part_def set_store_def)
  moreover have "changes {DSql} sv sv'"
    using csql_New_only [OF ok(1) s(1) [unfolded cloudsql_New_def]] changes_store(4) [of "{DSql}" sv] s(2) by simp
  ultimately show ?thesis using server_inv_frame [OF booting_inv [OF assms(1)]] by blast
qed

lemma gw_up_inv:
  assumes "server_inv sv" "gw_up f sv = Inr sv'" "g_store (f (sv_gw sv)) = g_store (sv_gw sv)"
    and "g_run (f (sv_gw sv)) \<in> {g_run (sv_gw sv), Some newRunner}" "g_funcs (f (sv_gw sv)) \<in> {g_funcs (sv_gw sv), Some newRunner}"
    and "g_pubsub (f (sv_gw sv)) = g_pubsub (sv_gw sv)" "g_sm (f (sv_gw sv)) = g_sm (sv_gw sv)"
  shows "server_inv sv'"
proof -
  have sv': "sv' = sv\<lparr>sv_gw := f (sv_gw sv)\<rparr>" using assms(2) by (simp add: gw_up_def)
  have "service_inv x (f (sv_gw sv))" for x
  proof -
    have "service_inv x (sv_gw sv)" using assms(1) by (simp add: server_inv_def gw_inv_def)
    then show ?thesis using assms(3-) newRunner_inv by (cases x) auto
  qed
  then show ?thesis using assms(1,3) sv' by (simp add: server_inv_def gw_inv_def log_part_def sql_part_def)
qed

lemma gw_up_boots:
  assumes "booting sv" "gw_up f sv = Inr sv'" "g_store (f (sv_gw sv)) = g_store (sv_gw sv)" "g_pubsub (f (sv_gw sv)) = g_pubsub (sv_gw sv)"
    and "g_sm (f (sv_gw sv)) \<in> {g_sm (sv_gw sv), Some sm_New}" "g_run (f (sv_gw sv)) = g_run (sv_gw sv)" "g_funcs (f (sv_gw sv)) = g_funcs (sv_gw sv)"
  shows "booting sv'"
  using assms by (auto simp: gw_up_def booting_def)

text \<open>\<^verbatim>\<open>New\<close> in three parts.\<close>

definition first_inits :: "'db server_env \<Rightarrow> start_host \<Rightarrow> Config \<Rightarrow> 'db init list" where
  "first_inits e o' cfg = take 13 (constructors e o' cfg)"

definition last_inits :: "'db server_env \<Rightarrow> start_host \<Rightarrow> Config \<Rightarrow> 'db init list" where
  "last_inits e o' cfg = drop 14 (constructors e o' cfg)"

lemma New_parts:
  "zip (configured cfg) (constructors e o' cfg) = zip (take 13 (configured cfg)) (first_inits e o' cfg) @
     [((''cloudsql'', CloudSQL_Enabled (Services cfg)), init_cloudsql o' cfg)] @ zip (drop 14 (configured cfg)) (last_inits e o' cfg)"
  by (simp add: first_inits_def last_inits_def configured_def constructors_def Let_def)

lemma first_inits_boot:
  assumes "f \<in> set (first_inits e o' cfg)" "booting sv" "f sv = Inr sv'"
  shows "booting sv'"
proof -
  have up: "booting sv'" if "gw_up h sv = Inr sv'" "g_store (h (sv_gw sv)) = g_store (sv_gw sv)"
    "g_pubsub (h (sv_gw sv)) = g_pubsub (sv_gw sv)" "g_sm (h (sv_gw sv)) \<in> {g_sm (sv_gw sv), Some sm_New}"
    "g_run (h (sv_gw sv)) = g_run (sv_gw sv)" "g_funcs (h (sv_gw sv)) = g_funcs (sv_gw sv)" for h
    using gw_up_boots [OF assms(2) that] .
  consider "f = init_storage e o' cfg" | "f = init_pubsub cfg" | "f = gw_up (\<lambda>g. g\<lparr>g_sm := Some sm_New\<rparr>)"
    | "f = gw_up (\<lambda>g. g\<lparr>g_tasks := Some tasks_New\<rparr>)" | "f = gw_up (\<lambda>g. g\<lparr>g_sched := Some scheduler_New\<rparr>)"
    | "f = gw_up (\<lambda>g. g\<lparr>g_kms := Some ()\<rparr>)" | "f = (\<lambda>sv. Inr (sv\<lparr>sv_logging := Some 0\<rparr>))" | "f = gw_up (\<lambda>g. g\<lparr>g_mon := Some 0\<rparr>)"
    | "f = (\<lambda>sv. Inr (sv\<lparr>sv_fs := Some firestore_New\<rparr>))" | "f = init_bigquery e o' cfg" | "f = (\<lambda>sv. Inr (sv\<lparr>sv_bt := True\<rparr>))"
    | "f = (\<lambda>sv. Inr (sv\<lparr>sv_sp := True\<rparr>))" | "f = init_memorystore o' cfg"
    using assms(1) unfolding first_inits_def constructors_def by auto
  then show ?thesis
  proof cases
    case 1
    with assms(2,3) init_storage_boots show ?thesis by blast
  next
    case 2
    with assms(2,3) init_pubsub_boots show ?thesis by blast
  next
    case 10
    with assms(2,3) show ?thesis by (auto simp: init_bigquery_def split: option.splits)
  next
    case 13
    with assms(2,3) show ?thesis by (auto simp: init_memorystore_def map_sum_def split: sum.splits)
  qed (use assms(2,3) up in auto)
qed

lemma last_inits_keep:
  assumes "f \<in> set (last_inits e o' cfg)" "server_inv sv" "f sv = Inr sv'"
  shows "server_inv sv'"
proof -
  consider "f = gw_up (\<lambda>g. g\<lparr>g_run := Some newRunner\<rparr>)" | "f = gw_up (\<lambda>g. g\<lparr>g_funcs := Some newRunner\<rparr>)"
    | "f = init_metadata o' cfg" | "f = (\<lambda>sv. gw_up (\<lambda>g. g\<lparr>g_iamc := sv_meta sv\<rparr>) sv)"
    using assms(1) unfolding last_inits_def constructors_def by auto
  then show ?thesis
  proof cases
    case 3
    with assms(2,3) show ?thesis by (auto simp: init_metadata_def server_inv_def log_part_def sql_part_def split: option.splits)
  qed (use assms(3) gw_up_inv [OF assms(2)] in auto)
qed

lemma New_stages:
  assumes "gateway_New e o' cfg version commit (Inr s) = Inr sv" "mem_ok s" "\<And>n. mem_lookup s n = Map.empty"
  obtains s1 s2 where "booting s1" "init_services [((''cloudsql'', CloudSQL_Enabled (Services cfg)), init_cloudsql o' cfg)] s1 = Inr s2"
    "init_services (zip (drop 14 (configured cfg)) (last_inits e o' cfg)) s2 = Inr sv"
proof -
  let ?sql = "((''cloudsql'', CloudSQL_Enabled (Services cfg)), init_cloudsql o' cfg)"
  have run: "init_services (zip (configured cfg) (constructors e o' cfg)) (empty_server cfg version commit s) = Inr sv"
    using assms(1) by (auto simp: gateway_New_def split: sum.splits if_splits)
  then obtain s1 s2 where s1: "init_services (zip (take 13 (configured cfg)) (first_inits e o' cfg)) (empty_server cfg version commit s) = Inr s1"
    and s2: "init_services [?sql] s1 = Inr s2" "init_services (zip (drop 14 (configured cfg)) (last_inits e o' cfg)) s2 = Inr sv"
    unfolding New_parts by (auto simp: init_services_append simp del: append_Cons append_Nil init_services.simps split: sum.splits)
  have "booting (empty_server cfg version commit s)"
    using assms(2,3) by (simp add: booting_def empty_server_def seeded_def typed_ns_def)
  then have "booting s1"
    by (rule init_services_keeps [where P = booting, OF _ _ _ s1, rotated 2]) (auto dest!: set_zip_rightD intro: first_inits_boot)
  with s2 that show ?thesis by blast
qed

lemma New_inv:
  assumes "gateway_New e o' cfg version commit (Inr s) = Inr sv" "mem_ok s" "\<And>n. mem_lookup s n = Map.empty"
    and "distinct (map csql_Name (CloudSQL_Instances (Services cfg)))"
  shows "server_inv sv"
proof -
  obtain s1 s2 where s: "booting s1"
    "init_services [((''cloudsql'', CloudSQL_Enabled (Services cfg)), init_cloudsql o' cfg)] s1 = Inr s2"
    "init_services (zip (drop 14 (configured cfg)) (last_inits e o' cfg)) s2 = Inr sv" using New_stages [OF assms(1-3)] .
  have "server_inv s2"
    using s(2) init_cloudsql_inv [OF s(1) _ assms(4)] booting_inv [OF s(1)] by (auto split: sum.splits if_splits)
  then show ?thesis
    by (rule init_services_keeps [where P = server_inv, OF _ _ _ s(3), rotated 2]) (auto dest!: set_zip_rightD intro: last_inits_keep)
qed

text \<open>
  The configuration has a list of secrets to create (\<^verbatim>\<open>services.secretmanager.secrets\<close>), but no constructor reads it: a new server has
  no secret whatever the configuration says.
\<close>

theorem configured_secrets_ignored:
  assumes "gateway_New e o' cfg version commit (Inr NewMemory) = Inr sv"
  shows "mem_lookup (g_store (sv_gw sv)) nsSecrets k = None"
proof -
  let ?P = "\<lambda>sv :: 'a server. mem_ok (g_store (sv_gw sv)) \<and> mem_lookup (g_store (sv_gw sv)) nsSecrets = Map.empty"
  obtain s1 s2 where s: "booting s1"
    "init_services [((''cloudsql'', CloudSQL_Enabled (Services cfg)), init_cloudsql o' cfg)] s1 = Inr s2"
    "init_services (zip (drop 14 (configured cfg)) (last_inits e o' cfg)) s2 = Inr sv" using New_stages [OF assms] by auto
  have "nsSecrets \<notin> storage_ns \<union> pubsub_ns" using other_namespaces by blast
  then have p1: "?P s1" using s(1) by (simp add: booting_def seeded_def)
  have sql: "?P t" if i: "init_cloudsql o' cfg s1 = Inr t" for t
  proof -
    obtain u c where u: "cloudsql_New (so_sqlHost o') (so_now o') cfg (g_store (sv_gw s1)) = (Inr (), u, c)"
      "t = set_store u (s1\<lparr>sv_csql := Some c\<rparr>)" using init_cloudsql_elim [OF i] .
    have "only_ns {nsInstances} (g_store (sv_gw s1)) u" using csql_New_only p1 u(1) unfolding cloudsql_New_def by blast
    then show ?thesis using p1 u(2) by (simp add: set_store_def only_ns_def ns_defs)
  qed
  have "?P s2" using s(2) sql p1 by (auto split: sum.splits if_splits)
  moreover have "?P t'" if "f \<in> set (last_inits e o' cfg)" "?P t" "f t = Inr t'" for f t t'
    using that by (auto simp: last_inits_def constructors_def gw_up_def init_metadata_def split: option.splits)
  ultimately have "?P sv"
    by (intro init_services_keeps [where P = ?P, OF _ _ _ s(3)]) (auto dest!: set_zip_rightD)
  then show ?thesis by simp
qed

section \<open>Steps\<close>

text \<open>
  What happens in a running server: an HTTP request, a step of the Pub/Sub service that does not come over HTTP (a gRPC call, a push
  worker), the goroutine of a task, the end of a child process, and whatever Firestore (over gRPC) and the scheduler's runners do to
  their own domains.
\<close>

inductive server_step :: "'db server \<Rightarrow> 'db server \<Rightarrow> bool" where
  sv_request: "server_room e r sv \<Longrightarrow> gw_handler e proto r sv = Some (resp, sv') \<Longrightarrow> server_step sv sv'"
| sv_pubsub: "g_pubsub (sv_gw sv) = Some p \<Longrightarrow> ps_step (g_store (sv_gw sv), p) (s', p') \<Longrightarrow>
    only_ns pubsub_ns (g_store (sv_gw sv)) s' \<Longrightarrow> server_step sv (sv\<lparr>sv_gw := (sv_gw sv)\<lparr>g_store := s', g_pubsub := Some p'\<rparr>\<rparr>)"
| sv_task: "g_tasks (sv_gw sv) = Some ts \<Longrightarrow> run_task w woken now i (g_store (sv_gw sv)) ts = (s', ts') \<Longrightarrow>
    server_step sv (sv\<lparr>sv_gw := (sv_gw sv)\<lparr>g_store := s', g_tasks := Some ts'\<rparr>\<rparr>)"
| sv_exit: "server_step sv (sv\<lparr>sv_gw := (sv_gw sv)\<lparr>g_run := map_option (kill pid) (g_run (sv_gw sv)),
     g_funcs := map_option (kill pid) (g_funcs (sv_gw sv))\<rparr>\<rparr>)"
| sv_other: "changes {DFirestore, DApi SvcScheduler} sv sv' \<Longrightarrow> server_step sv sv'"

lemma dispatchHTTP_only: "mem_ok s \<Longrightarrow> only_ns tasks_ns s (snd (dispatchHTTP w t s))"
  by (auto simp: dispatchHTTP_def tasks_ns_def Let_def Delete_cases split: sum.splits prod.splits option.splits)

lemma server_step_inv:
  assumes "server_step sv sv'" "server_inv sv"
  shows "server_inv sv'"
  using assms
proof (induction rule: server_step.induct)
  case (sv_request e r sv proto resp sv')
  then show ?case using request_keeps_inv by blast
next
  case (sv_pubsub sv p s' p')
  let ?sv = "sv\<lparr>sv_gw := (sv_gw sv)\<lparr>g_store := s', g_pubsub := Some p'\<rparr>\<rparr>"
  have "ps_inv (g_store (sv_gw sv), p)"
    using sv_pubsub.prems sv_pubsub(1) unfolding server_inv_def gw_inv_def by (metis service_inv.simps(1))
  then have own: "service_inv SvcPubSub (sv_gw ?sv)" using ps_step_inv [OF sv_pubsub(2)] by simp
  have "changes {DApi SvcPubSub} sv ?sv"
  proof (rule changesI)
    fix d assume "d \<notin> {DApi SvcPubSub}"
    then show "same_domain d sv ?sv" by (cases d) simp_all
  qed (use sv_pubsub(3) in simp_all)
  then show ?case by (rule server_inv_frame [OF sv_pubsub.prems]) (use own in auto)
next
  case (sv_task sv ts w woken now i s' ts')
  let ?sv = "sv\<lparr>sv_gw := (sv_gw sv)\<lparr>g_store := s', g_tasks := Some ts'\<rparr>\<rparr>"
  have ok: "mem_ok (g_store (sv_gw sv))" using sv_task.prems by (simp add: server_inv_def gw_inv_def)
  have "only_ns tasks_ns (g_store (sv_gw sv)) s'"
    using sv_task(2) dispatchHTTP_only [OF ok] ok by (auto simp: run_task_def Let_def split: if_splits)
  then have "changes {DApi SvcTasks} sv ?sv"
  proof (intro changesI)
    fix d assume "d \<notin> {DApi SvcTasks}"
    then show "same_domain d sv ?sv" by (cases d) simp_all
  qed simp_all
  then show ?case by (rule server_inv_frame [OF sv_task.prems]) auto
next
  case (sv_exit sv pid)
  let ?g = "(sv_gw sv)\<lparr>g_run := map_option (kill pid) (g_run (sv_gw sv)), g_funcs := map_option (kill pid) (g_funcs (sv_gw sv))\<rparr>"
  have "service_inv x ?g" for x
  proof -
    have "service_inv x (sv_gw sv)" using sv_exit by (simp add: server_inv_def gw_inv_def)
    then show ?thesis using rn_step_inv [OF rn_exit] by (cases x) auto
  qed
  then show ?case using sv_exit by (simp add: server_inv_def gw_inv_def log_part_def sql_part_def)
next
  case (sv_other sv sv')
  then show ?case using server_inv_frame [OF sv_other.prems sv_other(1)] by auto
qed

text \<open>The server as a machine, started over an empty store with a configuration whose SQL instances have different names.\<close>

definition server_init :: "'db server \<Rightarrow> bool" where
  "server_init sv \<longleftrightarrow> (\<exists>e o' cfg version commit. gateway_New e o' cfg version commit (Inr NewMemory) = Inr sv \<and>
     distinct (map csql_Name (CloudSQL_Instances (Services cfg))))"

lemma server_init_inv: "server_init sv \<Longrightarrow> server_inv sv"
  unfolding server_init_def by (auto intro!: New_inv simp: fun_eq_iff)

interpretation svm: machine server_init server_step server_inv
  by unfold_locales (rule server_init_inv server_step_inv; assumption)+

section \<open>The shutdown\<close>

lemma run_task_pending: "tk_pending ts = t # q \<Longrightarrow> tk_pending (snd (run_task w woken now 0 s ts)) = q"
  by (simp add: run_task_def Let_def)

lemma tasks_Stop_pending: "tk_pending (snd (tasks_Stop now s ts)) = []"
proof -
  have "tk_pending (snd (fold (\<lambda>_ (s, ts). run_task w woken now 0 s ts) xs (s, ts))) = []" if "length xs = length (tk_pending ts)"
    for xs :: "taskResource list" and w woken
    using that
  proof (induction xs arbitrary: s ts)
    case (Cons x xs)
    then obtain t q where q: "tk_pending ts = t # q" by (cases "tk_pending ts") simp_all
    obtain s' ts' where r: "run_task w woken now 0 s ts = (s', ts')" by fastforce
    with Cons.IH [of ts' s'] Cons.prems q run_task_pending [OF q, of w woken now s] show ?case by simp
  qed simp
  from this [OF refl] show ?thesis unfolding tasks_Stop_def .
qed

end
