(* ===== verification/Gateway_Laws.thy ===== *)
theory Gateway_Laws
  imports Gateway_Lifecycle
begin

text \<open>
  The laws of the whole server: what a start gives, that requests leave the other domains alone, that the invariants hold
  in every reachable state, what the shutdown leaves, and that an object stored over the XML surface comes back through the multiplexer.
\<close>

section \<open>Start\<close>

text \<open>Which services are there, in the order of \<open>configured\<close>.\<close>

definition presence :: "'db server \<Rightarrow> bool list" where
  "presence sv = (let g = sv_gw sv in [sv_storage sv \<noteq> None, g_pubsub g \<noteq> None, g_sm g \<noteq> None, g_tasks g \<noteq> None, g_sched g \<noteq> None,
     g_kms g \<noteq> None, sv_logging sv \<noteq> None, g_mon g \<noteq> None, sv_fs sv \<noteq> None, sv_bq sv \<noteq> None, sv_bt sv, sv_sp sv, sv_mem sv \<noteq> None,
     sv_csql sv \<noteq> None, g_run g \<noteq> None, g_funcs g \<noteq> None, sv_meta sv \<noteq> None, g_iamc g \<noteq> None])"

lemma presence_health [simp]: "presence (sv\<lparr>sv_health := h\<rparr>) = presence sv"
  by (simp add: presence_def)

lemma presence_length [simp]: "length (presence sv) = 18"
  by (simp add: presence_def Let_def)

text \<open>A constructor makes its own service present and leaves the rest of the server as it is.\<close>

definition makes :: "nat \<Rightarrow> 'db init \<Rightarrow> bool" where
  "makes i f \<longleftrightarrow> (\<forall>sv sv'. f sv = Inr sv' \<longrightarrow> sv_health sv' = sv_health sv \<and> sv_cfg sv' = sv_cfg sv \<and> presence sv' = (presence sv)[i := True])"

lemma init_gw_ups_make:
  "makes 2 (gw_up (\<lambda>g. g\<lparr>g_sm := Some a\<rparr>))" "makes 3 (gw_up (\<lambda>g. g\<lparr>g_tasks := Some b\<rparr>))"
  "makes 4 (gw_up (\<lambda>g. g\<lparr>g_sched := Some c\<rparr>))" "makes 5 (gw_up (\<lambda>g. g\<lparr>g_kms := Some d\<rparr>))"
  "makes 7 (gw_up (\<lambda>g. g\<lparr>g_mon := Some q\<rparr>))" "makes 14 (gw_up (\<lambda>g. g\<lparr>g_run := Some rn\<rparr>))"
  "makes 15 (gw_up (\<lambda>g. g\<lparr>g_funcs := Some rn\<rparr>))"
  by (auto simp: makes_def gw_up_def presence_def Let_def)

lemma init_plain_make:
  "makes 6 (\<lambda>sv. Inr (sv\<lparr>sv_logging := Some q\<rparr>))" "makes 8 (\<lambda>sv. Inr (sv\<lparr>sv_fs := Some f\<rparr>))"
  "makes 10 (\<lambda>sv. Inr (sv\<lparr>sv_bt := True\<rparr>))" "makes 11 (\<lambda>sv. Inr (sv\<lparr>sv_sp := True\<rparr>))"
  by (auto simp: makes_def presence_def Let_def)

lemma init_seeded_make:
  "makes 0 (init_storage e o' cfg)" "makes 1 (init_pubsub cfg)" "makes 9 (init_bigquery e o' cfg)" "makes 12 (init_memorystore o' cfg)"
  "makes 13 (init_cloudsql o' cfg)" "makes 16 (init_metadata o' cfg)"
proof -
  show "makes 0 (init_storage e o' cfg)" "makes 1 (init_pubsub cfg)" "makes 12 (init_memorystore o' cfg)"
    by (auto simp: makes_def init_storage_def init_pubsub_def init_memorystore_def set_store_def presence_def map_sum_def Let_def
        split: sum.splits prod.splits)
  show "makes 9 (init_bigquery e o' cfg)" "makes 16 (init_metadata o' cfg)"
    by (auto simp: makes_def init_bigquery_def init_metadata_def presence_def Let_def split: option.splits)
  show "makes 13 (init_cloudsql o' cfg)"
    unfolding makes_def
  proof (intro allI impI)
    fix sv sv'
    assume i: "init_cloudsql o' cfg sv = Inr sv'"
    then obtain s c where "sv' = set_store s (sv\<lparr>sv_csql := Some c\<rparr>)" using init_cloudsql_elim by metis
    then show "sv_health sv' = sv_health sv \<and> sv_cfg sv' = sv_cfg sv \<and> presence sv' = (presence sv)[13 := True]"
      by (simp add: set_store_def presence_def Let_def)
  qed
qed

lemma init_services_present:
  assumes "\<And>j. j < length cs \<Longrightarrow> makes (i + j) (snd (cs ! j))" "init_services cs sv = Inr sv'" "i + length cs \<le> 18"
    and "\<And>j. i \<le> j \<Longrightarrow> j < 18 \<Longrightarrow> \<not> presence sv ! j"
  shows "presence sv' = take i (presence sv) @ map (snd \<circ> fst) cs @ drop (i + length cs) (presence sv) \<and> sv_cfg sv' = sv_cfg sv \<and>
    sv_health sv' = register_services (map fst cs) (sv_health sv)"
  using assms
proof (induction cs arbitrary: i sv)
  case (Cons c cs)
  obtain name on f where c: "c = ((name, on), f)" by (cases c) auto
  have m: "makes i f" using Cons.prems(1) [of 0] c by simp
  have rest: "makes (Suc i + j) (snd (cs ! j))" if "j < length cs" for j using Cons.prems(1) [of "Suc j"] that by simp
  have len: "Suc i + length cs \<le> 18" "i < 18" using Cons.prems(3) by simp_all
  have no: "\<not> presence sv ! i" using Cons.prems(4) [of i] len(2) by simp
  obtain t where t: "init_services cs t = Inr sv'" "presence t = (presence sv)[i := on]" "sv_cfg t = sv_cfg sv"
    "sv_health t = register_one name on (sv_health sv)"
  proof (cases on)
    case True
    with Cons.prems(2) c obtain u where u: "f sv = Inr u" "init_services cs (u\<lparr>sv_health := register_one name True (sv_health u)\<rparr>) = Inr sv'"
      by (auto split: sum.splits)
    have "sv_health u = sv_health sv" "sv_cfg u = sv_cfg sv" "presence u = (presence sv)[i := True]"
      using m u(1) by (simp_all add: makes_def)
    with u(2) True show ?thesis by (intro that [of "u\<lparr>sv_health := register_one name True (sv_health u)\<rparr>"]) simp_all
  next
    case False
    have "(presence sv)[i := False] = presence sv" using no len(2) by (metis list_update_id)
    with Cons.prems(2) c False show ?thesis by (intro that [of sv]) (simp_all add: register_one_def)
  qed
  have "\<not> presence t ! j" if "Suc i \<le> j" "j < 18" for j using t(2) Cons.prems(4) [of j] that by simp
  from Cons.IH [OF rest t(1) len(1) this] t(2-4) show ?case
    using len(2) by (simp add: c take_Suc_conv_app_nth)
qed simp

lemma constructors_make: "j < 17 \<Longrightarrow> makes j (constructors e o' cfg ! j)"
proof -
  have "\<forall>j\<in>{..<17}. makes j (constructors e o' cfg ! j)"
    by (simp add: lessThan_nat_numeral lessThan_Suc constructors_def init_gw_ups_make init_plain_make init_seeded_make
        init_seeded_make(2) [unfolded One_nat_def])
  then show "j < 17 \<Longrightarrow> makes j (constructors e o' cfg ! j)" by simp
qed

text \<open>The credentials service comes last and shares the memory of the metadata server.\<close>

lemma New_split_last:
  "zip (configured cfg) (constructors e o' cfg) = zip (take 17 (configured cfg)) (take 17 (constructors e o' cfg)) @
     [((''iamcredentials'', Metadata_Enabled (Services cfg)), \<lambda>sv. gw_up (\<lambda>g. g\<lparr>g_iamc := sv_meta sv\<rparr>) sv)]"
  by (simp add: configured_def constructors_def Let_def)

lemma empty_server_fields [simp]:
  "sv_cfg (empty_server cfg version commit s) = cfg"
  "sv_health (empty_server cfg version commit s) = Registry_Set new_Registry ''iamadmin'' StatusReady"
  "presence (empty_server cfg version commit s) = replicate 18 False"
  by (simp_all add: empty_server_def presence_def Let_def numeral_eq_Suc)

lemma register_services_append: "register_services (xs @ ys) h = register_services ys (register_services xs h)"
  by (induction xs h rule: register_services.induct) simp_all

lemma New_present:
  assumes "init_services (zip (configured cfg) (constructors e o' cfg)) (empty_server cfg version commit s) = Inr sv"
  shows "presence sv = map snd (configured cfg) \<and> sv_cfg sv = cfg \<and> sv_health sv = New_health cfg"
proof -
  let ?cs = "zip (take 17 (configured cfg)) (take 17 (constructors e o' cfg))"
  let ?last = "\<lambda>sv :: 'a server. gw_up (\<lambda>g. g\<lparr>g_iamc := sv_meta sv\<rparr>) sv"
  have len: "length (configured cfg) = 18" "length (constructors e o' cfg) = 18" by (simp_all add: configured_def constructors_def Let_def)
  obtain t where t: "init_services ?cs (empty_server cfg version commit s) = Inr t"
    "init_services [((''iamcredentials'', Metadata_Enabled (Services cfg)), ?last)] t = Inr sv"
    using assms unfolding New_split_last init_services_append by (auto split: sum.splits)
  have "makes (0 + j) (snd (?cs ! j))" if "j < length ?cs" for j using that constructors_make [of j e o' cfg] len by simp
  moreover have "\<not> presence (empty_server cfg version commit s) ! j" if "j < 18" for j using that by simp
  ultimately have p: "presence t = map (snd \<circ> fst) ?cs @ drop 17 (replicate 18 False)" "sv_cfg t = cfg"
    "sv_health t = register_services (map fst ?cs) (Registry_Set new_Registry ''iamadmin'' StatusReady)"
    using init_services_present [of ?cs 0, OF _ t(1)] len by simp_all
  have "map (snd \<circ> fst) ?cs = map snd (map fst ?cs)" by simp
  moreover have "map fst ?cs = take 17 (configured cfg)" using len by (simp add: map_fst_zip_take)
  ultimately have q: "presence t = map snd (take 17 (configured cfg)) @ [False]"
    "sv_health t = register_services (take 17 (configured cfg)) (Registry_Set new_Registry ''iamadmin'' StatusReady)"
    using p by simp_all
  have "sv_meta t \<noteq> None \<longleftrightarrow> Metadata_Enabled (Services cfg)"
    using q(1) by (simp add: presence_def configured_def Let_def)
  moreover have "presence u = (presence t)[17 := sv_meta t \<noteq> None]" if "u = t\<lparr>sv_gw := (sv_gw t)\<lparr>g_iamc := sv_meta t\<rparr>\<rparr>" for u
    using that by (simp add: presence_def Let_def)
  moreover have "(map snd (take 17 (configured cfg)) @ [False])[17 := Metadata_Enabled (Services cfg)] = map snd (configured cfg)"
    "map snd (configured cfg) ! 17 = Metadata_Enabled (Services cfg)"
    by (simp_all add: configured_def Let_def)
  ultimately have "presence sv = map snd (configured cfg) \<and> sv_cfg sv = sv_cfg t \<and>
      sv_health sv = register_services [(''iamcredentials'', Metadata_Enabled (Services cfg))] (sv_health t)"
    using t(2) q(1) len by (cases "Metadata_Enabled (Services cfg)") (auto simp: gw_up_def register_one_def list_update_append)
  moreover note register_services_append [of "take 17 (configured cfg)" "[(''iamcredentials'', Metadata_Enabled (Services cfg))]"]
  moreover have "take 17 (configured cfg) @ [(''iamcredentials'', Metadata_Enabled (Services cfg))] = configured cfg"
    by (simp add: configured_def Let_def)
  ultimately show ?thesis using p(2) q(2) by (simp add: New_health_def)
qed

lemma init_services_error:
  "init_services cs sv = Inl er \<Longrightarrow> \<exists>name f x t. ((name, True), f) \<in> set cs \<and> f t = Inl x \<and> er = ''init '' @ name @ '': '' @ x"
proof (induction cs sv rule: init_services.induct)
  case (2 name on f rest sv)
  have more: "\<exists>name f x t. ((name, True), f) \<in> set (c # rest) \<and> f t = Inl x \<and> er = ''init '' @ name @ '': '' @ x"
    if "\<exists>name f x t. ((name, True), f) \<in> set rest \<and> f t = Inl x \<and> er = ''init '' @ name @ '': '' @ x" for c
    using that by fastforce
  show ?case
  proof (cases "on \<and> (\<exists>x. f sv = Inl x)")
    case True
    then obtain x where "on" "f sv = Inl x" by blast
    then have "((name, True), f) \<in> set (((name, on), f) # rest)" "er = ''init '' @ name @ '': '' @ x" using 2(3) by auto
    with \<open>f sv = Inl x\<close> show ?thesis by blast
  next
    case False
    show ?thesis
    proof (cases on)
      case True
      then obtain t where t: "f sv = Inr t" using False by (cases "f sv") auto
      with 2(3) True have "init_services rest (t\<lparr>sv_health := register_one name True (sv_health t)\<rparr>) = Inl er" by simp
      then show ?thesis using more 2(2) [OF _ t] True by blast
    qed (use 2(1,3) more in simp)
  qed
qed simp


section \<open>Requests\<close>

text \<open>A run of requests; one that goes to the gRPC server is left out here.\<close>

fun serve_requests :: "('db server_env \<times> nat \<times> http_req) list \<Rightarrow> 'db server \<Rightarrow> 'db server" where
  "serve_requests [] sv = sv"
| "serve_requests ((e, proto, r) # rs) sv =
     serve_requests rs (case gw_handler e proto r sv of None \<Rightarrow> sv | Some (_, sv') \<Rightarrow> sv')"


section \<open>Every reachable state\<close>


section \<open>Shutdown\<close>


section \<open>The XML surface behind the multiplexer\<close>

text \<open>The first segments of the registered patterns.\<close>

definition route_heads :: "string set" where
  "route_heads = {''healthz'', ''admin'', ''dashboard'', ''v1'', ''v2'', ''v3'', ''storage'', ''upload'', ''download'', ''b'', ''bigquery'',
     ''sql'', ''computeMetadata'', ''console''}"

lemma all_routes_heads: "\<forall>(p, _)\<in>set all_routes. pattern_segs p \<noteq> [] \<and> hd (pattern_segs p) \<in> route_heads"
  by (simp add: all_routes_def register_defs route_heads_def pattern_segs_def path_segs_def is_tree_def suffix_def)

text \<open>A path whose first segment starts no pattern has no handler.\<close>

lemma unrouted:
  assumes "request_segs path = b # rest" "b \<notin> route_heads"
  shows "mux_match (New_mux cfg) path = None"
proof -
  have "\<not> pat_covers p (request_segs path)" if "(p, h) \<in> set (New_mux cfg)" for p h
  proof
    assume c: "pat_covers p (request_segs path)"
    have "(p, h) \<in> set all_routes" using that New_mux_set by blast
    then have p: "pattern_segs p \<noteq> []" "hd (pattern_segs p) \<in> route_heads" using all_routes_heads by auto
    have "prefix (pattern_segs p) (b # rest)" using c assms(1) by (auto simp: pat_covers_def strict_prefix_def split: if_splits)
    then have "hd (pattern_segs p) = b" using p(1) by (cases "pattern_segs p") auto
    with p(2) assms(2) show False by simp
  qed
  then show ?thesis unfolding mux_match_None by auto
qed

lemma unrouted_slash:
  assumes "path = CHR ''/'' # b @ CHR ''/'' # x" "CHR ''/'' \<notin> set b" "CHR ''%'' \<notin> set b" "b \<notin> route_heads"
  shows "mux_match (New_mux cfg) path = None"
proof -
  have "request_segs path = b # map segUnescape (split_on (CHR ''/'') x)"
    using assms(1-3) by (simp add: request_segs_def path_segs_def split_on_append segUnescape_plain)
  from unrouted [OF this assms(4)] show ?thesis .
qed

lemma xml_request:
  assumes "r_path r = CHR ''/'' # b @ CHR ''/'' # x" "ve_escaped e r = r_path r" "cleanPath (r_path r) = r_path r"
    and "CHR ''/'' \<notin> set b" "CHR ''%'' \<notin> set b" "b \<notin> route_heads" "x \<noteq> []" "pathUnescape x = Some name"
    and "\<not> is_grpc proto r" "sv_storage sv = Some st" "Get (g_store (sv_gw sv)) nsBuckets b = Inr d"
    and "r_method r = PUT \<or> r_method r = GET"
  shows "gw_handler e proto r sv = Some (let (resp, s, st') = (if r_method r = PUT
      then xmlPutObject (ce_hash e) (ce_go e) r b name (g_store (sv_gw sv)) st
      else (downloadObject (ce_rfc e) b name (g_store (sv_gw sv)), g_store (sv_gw sv), st)) in
    (resp, set_store s (sv\<lparr>sv_storage := Some st'\<rparr>)))"
proof -
  have none: "mux_match (New_mux (sv_cfg sv)) (r_path r) = None" "mux_match (New_mux (sv_cfg sv)) (r_path r @ ''/'') = None"
    using unrouted_slash [OF assms(1) assms(4-6)] unrouted_slash [of "r_path r @ ''/''" b "x @ ''/''", OF _ assms(4-6)] assms(1) by simp_all
  have "findHandler (New_mux (sv_cfg sv)) (ve_escaped e r) r = (NotFoundHere, [])"
    using assms(2,3) by (simp add: findHandler_def none exact_match_def Let_def)
  moreover have "trimPrefix (r_path r) ''/'' = b @ CHR ''/'' # x" by (simp add: assms(1) trimPrefix_def hasPrefix_def)
  then have "HandleXML H rfc go r (g_store (sv_gw sv)) st = Some (if r_method r = PUT
      then xmlPutObject H go r b name (g_store (sv_gw sv)) st else (downloadObject rfc b name (g_store (sv_gw sv)), g_store (sv_gw sv), st))"
    for H rfc go
    using assms(7,8,11,12) splitFirst_append [OF assms(4), of x] by (auto simp: HandleXML_def Let_def)
  ultimately show ?thesis using assms(9,10) by (simp add: gw_handler_def serve_rest_def split: prod.split)
qed

text \<open>
  C10: an object that is put under \<^verbatim>\<open>/bucket/object\<close> comes back with the same bytes and content type when it is asked for under the
  same path, through the handler of the gateway and whatever services are enabled, if the name of the bucket is not the first segment
  of a registered pattern.
\<close>

theorem gateway_xml_roundtrip:
  assumes "mem_ok (g_store (sv_gw sv))" "sv_storage sv = Some st" "Get (g_store (sv_gw sv)) nsBuckets b = Inr d" "b \<notin> route_heads"
    and "CHR ''/'' \<notin> set b" "CHR ''%'' \<notin> set b" "x \<noteq> []" "pathUnescape x = Some name"
    and "path = CHR ''/'' # b @ CHR ''/'' # x" "cleanPath path = path" "r_path put = path" "r_path get = path"
    and "r_method put = PUT" "r_method get = GET" "ve_escaped e put = path" "ve_escaped e' get = path"
    and "\<not> is_grpc proto put" "\<not> is_grpc proto' get"
  shows "\<exists>resp sv' h. gw_handler e proto put sv = Some (resp, sv') \<and> rs_code resp = 200 \<and>
    gw_handler e' proto' get sv' = Some (\<lparr>rs_code = 200, rs_header =
      [(''Content-Type'', let ct = get_first (r_header put) ''Content-Type'' in if ct = [] then ''application/octet-stream'' else ct),
       (''Content-Length'', itoa (length (r_bytes put)))] @ h, rs_body = Some (RawB (r_bytes put))\<rparr>, sv')"
proof -
  obtain obj s' st' where so: "storeObject (ce_hash e) (ce_go e) b name (get_first (r_header put) ''Content-Type'') (r_bytes put)
      (g_store (sv_gw sv)) st = (obj, s', st')" by (metis prod_cases3)
  define sv' where "sv' = set_store s' (sv\<lparr>sv_storage := Some st'\<rparr>)"
  note eff = storeObject_effect [OF assms(1) so]
  have "\<exists>resp. gw_handler e proto put sv = Some (resp, sv') \<and> rs_code resp = 200"
    using xml_request [of put b x e name proto sv st d] assms so by (simp add: xmlPutObject_def sv'_def)
  moreover have sv': "sv_storage sv' = Some st'" "g_store (sv_gw sv') = s'" "set_store s' (sv'\<lparr>sv_storage := Some st'\<rparr>) = sv'"
    by (simp_all add: sv'_def set_store_def)
  have "Get s' nsBuckets b = Inr d" using assms(3) by (simp add: Get_lookup eff(2))
  then have "gw_handler e' proto' get sv' = Some (downloadObject (ce_rfc e') b name s', sv')"
    using xml_request [of get b x e' name proto' sv' st' d] assms sv' by simp
  moreover have "mem_lookup s' (objectNamespace b) name = Some (JsonB (enc_object obj))"
    "mem_lookup s' (objectDataNamespace b) name = Some (RawB (r_bytes put))" by (simp_all add: eff(2))
  from downloadObject_stored [OF this, of "ce_rfc e'"] obtain h where "downloadObject (ce_rfc e') b name s' = \<lparr>rs_code = 200, rs_header =
      [(''Content-Type'', let ct = get_first (r_header put) ''Content-Type'' in if ct = [] then ''application/octet-stream'' else ct),
       (''Content-Length'', itoa (length (r_bytes put)))] @ h, rs_body = Some (RawB (r_bytes put))\<rparr>"
    unfolding eff(3) Let_def by blast
  ultimately show ?thesis by metis
qed

section \<open>Witnesses\<close>

text \<open>A server started from the default configuration with one bucket.\<close>

definition demo_cfg :: Config where
  "demo_cfg = Default\<lparr>Services := (Services Default)\<lparr>Storage_Buckets := [\<lparr>cfg_BucketName = ''data'', cfg_Seed = []\<rparr>]\<rparr>\<rparr>"

definition demo_senv :: "unit server_env" where
  "demo_senv = \<lparr>ce_rfc = (\<lambda>_. None), ce_go = env_at 0, ce_cron = cron_every, ce_rnd = (\<lambda>n. Inr (replicate n (CHR ''x''))), ce_fs = fs_demo,
     ce_bq = ce_bq demo_con_env, ce_hash = demo_hash, ce_detect = (\<lambda>_. ''text/plain''), ce_text = (\<lambda>_. []), ce_redis = [], ce_redisPort = 6379,
     ve_sha1 = (\<lambda>_. []), ve_sign = Inr, ve_jwk = ([], []), ve_world = leak_world 1, ve_multipart = demo_ml, ve_host = demo_host, ve_db = (),
     ve_html = demo_html, ve_static = (\<lambda>_. http_notFound), ve_index = [], ve_escaped = r_path, ve_url = (\<lambda>_ p. p)\<rparr>"

definition demo_start :: start_host where
  "demo_start = \<lparr>so_go = (\<lambda>_. env_at 0), so_walk = (\<lambda>_. Inl ''no directory''), so_sqlOpen = None, so_redis = Inr, so_sqlHost = (\<lambda>_. demo_host),
     so_now = (\<lambda>_. 0), so_rsa = None, so_templates = None\<rparr>"

abbreviation demo_store :: mem where
  "demo_store \<equiv> mput NewMemory nsBuckets ''data'' (JsonB (enc_bucket (mk_bucket (env_at 0) ''data'')))"


lemma demo_cfg_fields:
  "Storage_Enabled (Services demo_cfg)" "PubSub_Enabled (Services demo_cfg)" "SecretManager_Enabled (Services demo_cfg)"
  "Tasks_Enabled (Services demo_cfg)" "Scheduler_Enabled (Services demo_cfg)" "KMS_Enabled (Services demo_cfg)"
  "Logging_Enabled (Services demo_cfg)" "Monitoring_Enabled (Services demo_cfg)" "Firestore_Enabled (Services demo_cfg)"
  "BigQuery_Enabled (Services demo_cfg)" "Bigtable_Enabled (Services demo_cfg)" "Spanner_Enabled (Services demo_cfg)"
  "\<not> Memorystore_Enabled (Services demo_cfg)" "CloudSQL_Enabled (Services demo_cfg)" "CloudRun_Enabled (Services demo_cfg)"
  "Functions_Enabled (Services demo_cfg)" "Metadata_Enabled (Services demo_cfg)" "PubSub_Topics (Services demo_cfg) = []"
  "CloudSQL_Instances (Services demo_cfg) = []"
  by (simp_all add: demo_cfg_def Default_def)

lemma demo_storage: "storage_New demo_senv demo_start demo_cfg NewMemory = Inr (demo_store, \<lparr>ss_generation = 0, ss_sessions = [], ss_resumableSeq = 0\<rparr>)"
  by (simp add: storage_New_def demo_cfg_def Default_def demo_start_def ensureBucket_def Get_lookup)

lemma demo_New:
  "\<exists>sv. gateway_New demo_senv demo_start demo_cfg ''dev'' ''none'' (Inr NewMemory) = Inr sv \<and> g_store (sv_gw sv) = demo_store \<and>
    g_pubsub (sv_gw sv) = Some empty_pubsub \<and> g_sm (sv_gw sv) = Some sm_New \<and> sv_storage sv \<noteq> None \<and> sv_logging sv = Some 0 \<and>
    g_run (sv_gw sv) = Some newRunner \<and> g_funcs (sv_gw sv) = Some newRunner \<and> sv_cfg sv = demo_cfg"
proof -
  have host: "so_sqlOpen demo_start = None" "so_rsa demo_start = None" "so_templates demo_start = None" by (simp_all add: demo_start_def)
  show ?thesis
    by (simp add: gateway_New_def constructors_def configured_def demo_cfg_fields Let_def init_storage_def demo_storage empty_server_def
        set_store_def init_pubsub_def pubsub_New_def gw_up_def init_bigquery_def init_cloudsql_def cloudsql_New_def init_metadata_def host case_unit_Unity)
qed
text \<open>Requests to it.\<close>

definition demo_put :: http_req where
  "demo_put = \<lparr>r_method = PUT, r_path = ''/data/f.txt'', r_query = [], r_header = [(''Content-Type'', ''text/plain'')], r_host = [], r_tls = False,
     r_contentLength = 2, r_bytes = ''hi'', r_json = None\<rparr>"

lemma demo_path:
  "cleanPath ''/data/f.txt'' = ''/data/f.txt''" "pathUnescape ''f.txt'' = Some ''f.txt''" "''data'' \<notin> route_heads"
  "CHR ''/'' \<notin> set ''data''" "CHR ''%'' \<notin> set ''data''" "''/data/f.txt'' = CHR ''/'' # ''data'' @ CHR ''/'' # ''f.txt''"
  by (code_simp, simp_all add: route_heads_def)

lemma demo_not_grpc: "\<not> is_grpc 1 r"
  by (simp add: is_grpc_def)

lemma demo_bucket: "Get demo_store nsBuckets ''data'' = Inr (JsonB (enc_bucket (mk_bucket (env_at 0) ''data'')))"
  by (simp add: Get_lookup)

lemma demo_no_subs: "bucket_of demo_store nsSubscriptions = []"
  by (simp add: mput_def bucket_of_def NewMemory_def ns_defs)

text \<open>A state that is reached from the start by the upload of an object.\<close>

lemma demo_reach_server:
  "\<exists>sv. reach server_init server_step (sv :: unit server) \<and>
    mem_lookup (g_store (sv_gw sv)) (objectDataNamespace ''data'') ''f.txt'' = Some (RawB ''hi'') \<and> g_pubsub (sv_gw sv) = Some empty_pubsub"
proof -
  obtain sv where sv: "gateway_New demo_senv demo_start demo_cfg ''dev'' ''none'' (Inr NewMemory) = Inr sv" "g_store (sv_gw sv) = demo_store"
    "g_pubsub (sv_gw sv) = Some empty_pubsub" "g_sm (sv_gw sv) = Some sm_New" "sv_storage sv \<noteq> None" "sv_logging sv = Some 0"
    "g_run (sv_gw sv) = Some newRunner" "g_funcs (sv_gw sv) = Some newRunner" "sv_cfg sv = demo_cfg" using demo_New by blast
  have init: "server_init sv"
    unfolding server_init_def using sv(1) demo_cfg_fields(19) by (metis distinct.simps(1) list.simps(8))
  obtain st where st: "sv_storage sv = Some st" using sv(5) by blast
  obtain obj s' st' where so: "storeObject demo_hash (env_at 0) ''data'' ''f.txt'' ''text/plain'' ''hi'' demo_store st = (obj, s', st')"
    by (metis prod_cases3)
  have ct: "get_first (r_header demo_put) ''Content-Type'' = ''text/plain''" by (simp add: demo_put_def get_first_def)
  have "gw_handler demo_senv 1 demo_put sv = Some (fst (xmlPutObject demo_hash (env_at 0) demo_put ''data'' ''f.txt'' demo_store st),
      set_store s' (sv\<lparr>sv_storage := Some st'\<rparr>))"
    using xml_request [of demo_put "''data''" "''f.txt''" demo_senv "''f.txt''" 1 sv st, OF _ _ _ demo_path(4,5,3) _ demo_path(2) demo_not_grpc st] so ct demo_path(1)
      demo_bucket sv(2) by (simp add: demo_put_def demo_senv_def xmlPutObject_def)
  moreover have "server_room demo_senv demo_put sv"
    using sv(2-8) by (simp add: server_room_def gw_room_def demo_senv_def env_lib_def rnd_ok_def env_at_ok ps_room_def body_count_def demo_put_def demo_no_subs
        empty_pubsub_def sm_New_def fresh_pids_def newRunner_def running_def)
  ultimately have "server_step sv (set_store s' (sv\<lparr>sv_storage := Some st'\<rparr>))" by (rule sv_request [rotated])
  moreover have "mem_lookup s' (objectDataNamespace ''data'') ''f.txt'' = Some (RawB ''hi'')"
    using storeObject_effect(2) [OF _ so] by simp
  ultimately show ?thesis
    using reach_step [OF reach_init [of server_init, OF init]] sv(3)
    by (intro exI [of _ "set_store s' (sv\<lparr>sv_storage := Some st'\<rparr>)"]) (simp add: set_store_def)
qed




theorem gateway_xml_roundtrip_witness:
  "\<exists>sv resp sv' resp'. gw_handler demo_senv 1 demo_put sv = Some (resp, sv') \<and>
    gw_handler demo_senv 1 (demo_req GET ''/data/f.txt'') sv' = Some (resp', sv') \<and> rs_body resp' = Some (RawB ''hi'')"
proof -
  obtain sv :: "unit server" and st where sv: "g_store (sv_gw sv) = demo_store" "sv_storage sv = Some st" using demo_New by blast
  have "mem_ok (g_store (sv_gw sv))" "Get (g_store (sv_gw sv)) nsBuckets ''data'' = Inr (JsonB (enc_bucket (mk_bucket (env_at 0) ''data'')))"
    using demo_bucket sv(1) by simp_all
  moreover have "r_path demo_put = ''/data/f.txt''" "r_method demo_put = PUT" "r_bytes demo_put = ''hi''" "ve_escaped demo_senv r = r_path r" for r
    by (simp_all add: demo_put_def demo_senv_def)
  moreover have "r_path (demo_req GET ''/data/f.txt'') = ''/data/f.txt''" "r_method (demo_req GET ''/data/f.txt'') = GET"
    by (simp_all add: demo_req_def)
  ultimately show ?thesis
    using gateway_xml_roundtrip [of sv st "''data''" _ "''f.txt''" "''f.txt''" "''/data/f.txt''" demo_put "demo_req GET ''/data/f.txt''" demo_senv demo_senv 1 1,
        OF _ sv(2) _ demo_path(3,4,5) _ demo_path(2,6,1)] demo_not_grpc by fastforce
qed

end
