(* ===== verification/Tls_Trust.thy ===== *)
theory Tls_Trust
  imports Go_Prelude
begin

text \<open>
  Package \<^verbatim>\<open>internal/tlsx\<close>: the self-signed certificate of the emulator, its two files, and the trust store of the platform.
  Key generation, X.509 and the system calls are parameters; the files are a map from paths to what they hold.  Shown: a
  first start leaves a certificate and the key it was made for, or not both files; later starts keep them; and what a write that fails
  half-way next to an old key does.
\<close>

section \<open>Package filepath\<close>

fun clean_parts :: "bool \<Rightarrow> string list \<Rightarrow> string list \<Rightarrow> string list" where
  "clean_parts root out [] = rev out"
| "clean_parts root out (s # ss) = (if s = [] \<or> s = ''.'' then clean_parts root out ss
     else if s = ''..'' then (if out \<noteq> [] \<and> hd out \<noteq> ''..'' then clean_parts root (tl out) ss
       else if root then clean_parts root out ss else clean_parts root (s # out) ss)
     else clean_parts root (s # out) ss)"

definition filepath_Clean :: "string \<Rightarrow> string" where
  "filepath_Clean p = (let root = prefix ''/'' p; q = join ''/'' (clean_parts root [] (split_on (CHR ''/'') p)) in
     if root then ''/'' @ q else if q = [] then ''.'' else q)"

definition filepath_Join :: "string list \<Rightarrow> string" where
  "filepath_Join xs = (let ys = filter (\<lambda>x. x \<noteq> []) xs in if ys = [] then [] else filepath_Clean (join ''/'' ys))"

text \<open>
  What \<^verbatim>\<open>Clean\<close> leaves is a cleaned path: leading \<^verbatim>\<open>..\<close> parts, which a rooted path has not, then names.  Joining a name to
  a cleaned path is the same as cleaning once at the end.
\<close>

definition cleaned :: "bool \<Rightarrow> string list \<Rightarrow> bool" where
  "cleaned root q \<longleftrightarrow> [] \<notin> set q \<and> ''.'' \<notin> set q \<and>
     (\<exists>k r. q = replicate k ''..'' @ r \<and> ''..'' \<notin> set r \<and> (root \<longrightarrow> k = 0))"

lemma clean_parts_append: "clean_parts root out (xs @ ys) = clean_parts root (rev (clean_parts root out xs)) ys"
  by (induction root out xs rule: clean_parts.induct) auto

lemma clean_parts_set: "set (clean_parts root out xs) \<subseteq> set out \<union> set xs"
proof (induction root out xs rule: clean_parts.induct)
  case (2 root out s ss)
  have "out \<noteq> [] \<Longrightarrow> set (tl out) \<subseteq> set out" by (cases out) auto
  with 2 show ?case by (auto; blast)
qed simp

lemma clean_parts_keep: "''..'' \<notin> set r \<Longrightarrow> [] \<notin> set r \<Longrightarrow> ''.'' \<notin> set r \<Longrightarrow> clean_parts root out r = rev out @ r"
  by (induction r arbitrary: out) auto

lemma clean_parts_up: "clean_parts False (replicate j ''..'') (replicate k ''..'' @ r) = clean_parts False (replicate (k + j) ''..'') r"
proof (induction k arbitrary: j)
  case (Suc k)
  have "hd (replicate j ''..'') = ''..''" if "replicate j ''..'' \<noteq> []" using that by (cases j) simp_all
  then have "clean_parts False (replicate j ''..'') (replicate (Suc k) ''..'' @ r) =
      clean_parts False (replicate (Suc j) ''..'') (replicate k ''..'' @ r)" by auto
  with Suc.IH [of "Suc j"] show ?case by simp
qed simp

lemma clean_parts_cleaned: "cleaned root q \<Longrightarrow> clean_parts root [] q = q"
proof -
  assume a: "cleaned root q"
  then obtain k r where q: "q = replicate k ''..'' @ r" "''..'' \<notin> set r" "root \<longrightarrow> k = 0" by (auto simp: cleaned_def)
  have r: "[] \<notin> set r" "''.'' \<notin> set r" using a q(1) by (auto simp: cleaned_def)
  show ?thesis
  proof (cases root)
    case False
    then show ?thesis using clean_parts_up [of 0 k r] clean_parts_keep [OF q(2) r, of False "replicate k ''..''"] q(1) by simp
  qed (use q r clean_parts_keep [OF q(2) r, of root "[]"] in simp)
qed

lemma cleaned_snoc: "cleaned root q \<Longrightarrow> s \<noteq> [] \<Longrightarrow> s \<noteq> ''.'' \<Longrightarrow> s \<noteq> ''..'' \<Longrightarrow> cleaned root (q @ [s])"
proof -
  assume a: "cleaned root q" "s \<noteq> []" "s \<noteq> ''.''" "s \<noteq> ''..''"
  then obtain k r where q: "q = replicate k ''..'' @ r" "''..'' \<notin> set r" "root \<longrightarrow> k = 0" by (auto simp: cleaned_def)
  have "q @ [s] = replicate k ''..'' @ (r @ [s])" "''..'' \<notin> set (r @ [s])" using q a(4) by simp_all
  moreover have "[] \<notin> set (q @ [s])" "''.'' \<notin> set (q @ [s])" using a by (auto simp: cleaned_def)
  ultimately show ?thesis using q(3) unfolding cleaned_def by blast
qed

lemma cleaned_up: "cleaned False q \<Longrightarrow> q = [] \<or> last q = ''..'' \<Longrightarrow> cleaned False (q @ [''..''])"
proof -
  assume a: "cleaned False q" "q = [] \<or> last q = ''..''"
  then obtain k r where q: "q = replicate k ''..'' @ r" "''..'' \<notin> set r" by (auto simp: cleaned_def)
  have "r = []" using a(2) q by (cases r rule: rev_cases) auto
  then have "q @ [''..''] = replicate (Suc k) ''..'' @ []" using q(1) by (simp add: replicate_append_same)
  moreover have "[] \<notin> set (q @ [''..''])" "''.'' \<notin> set (q @ [''..''])" using a(1) by (auto simp: cleaned_def)
  ultimately show ?thesis unfolding cleaned_def by (metis empty_iff empty_set)
qed

lemma cleaned_butlast: "cleaned root q \<Longrightarrow> cleaned root (butlast q)"
proof -
  assume a: "cleaned root q"
  then obtain k r where q: "q = replicate k ''..'' @ r" "''..'' \<notin> set r" "root \<longrightarrow> k = 0" by (auto simp: cleaned_def)
  have s: "[] \<notin> set (butlast q)" "''.'' \<notin> set (butlast q)" using a by (auto simp: cleaned_def dest: in_set_butlastD)
  show ?thesis
  proof (cases "r = []")
    case True
    then have "butlast q = replicate (k - 1) ''..'' @ []" using q(1) by (cases k) (simp_all add: replicate_append_same [symmetric])
    then show ?thesis using s q(3) unfolding cleaned_def by (metis append_Nil2 diff_0_eq_0 empty_iff empty_set)
  next
    case False
    then have "butlast q = replicate k ''..'' @ butlast r" "''..'' \<notin> set (butlast r)"
      using q by (auto simp: butlast_append dest: in_set_butlastD)
    then show ?thesis using s q(3) unfolding cleaned_def by blast
  qed
qed

lemma cleaned_clean_parts: "cleaned root (rev out) \<Longrightarrow> cleaned root (clean_parts root out xs)"
proof (induction root out xs rule: clean_parts.induct)
  case (2 root out s ss)
  have b: "out \<noteq> [] \<Longrightarrow> cleaned root (rev (tl out))" using cleaned_butlast [OF 2(6)] by (cases out) simp_all
  have u: "\<not> root \<Longrightarrow> \<not> (out \<noteq> [] \<and> hd out \<noteq> ''..'') \<Longrightarrow> cleaned root (rev (''..'' # out))"
    using cleaned_up [of "rev out"] 2(6) by (cases out) auto
  have n: "s \<noteq> [] \<Longrightarrow> s \<noteq> ''.'' \<Longrightarrow> s \<noteq> ''..'' \<Longrightarrow> cleaned root (rev (s # out))" using cleaned_snoc [OF 2(6)] by simp
  show ?case using 2 b u n by auto
qed simp

definition path_name :: "string \<Rightarrow> bool" where
  "path_name s \<longleftrightarrow> s \<noteq> [] \<and> s \<noteq> ''.'' \<and> s \<noteq> ''..'' \<and> CHR ''/'' \<notin> set s"

lemma split_on_snoc: "c \<notin> set b \<Longrightarrow> split_on c (a @ c # b) = split_on c a @ [b]"
proof (induction a)
  case (Cons x a)
  then show ?case by (cases "split_on c a") auto
qed (simp add: split_on_no_sep)

text \<open>The parts of a path and its path without its parts.\<close>

definition path_parts :: "string \<Rightarrow> string list" where
  "path_parts p = clean_parts (prefix ''/'' p) [] (split_on (CHR ''/'') p)"

definition unparts :: "bool \<Rightarrow> string list \<Rightarrow> string" where
  "unparts root q = (if root then ''/'' @ join ''/'' q else join ''/'' q)"

lemma Clean_unparts: "path_parts p \<noteq> [] \<Longrightarrow> filepath_Clean p = unparts (prefix ''/'' p) (path_parts p)"
proof -
  assume a: "path_parts p \<noteq> []"
  have "[] \<notin> set (path_parts p)" using cleaned_clean_parts [of "prefix ''/'' p" "[]"] by (auto simp: path_parts_def cleaned_def)
  then have "join ''/'' (path_parts p) \<noteq> []" using a by (cases "path_parts p" rule: remdups_adj.cases) auto
  then show ?thesis by (cases "prefix ''/'' p") (simp_all add: filepath_Clean_def path_parts_def unparts_def Let_def)
qed

lemma prefix_rooted: "p \<noteq> [] \<Longrightarrow> prefix ''/'' (p @ z) = prefix ''/'' p"
  by (cases p) auto

lemma path_parts_snoc: "p \<noteq> [] \<Longrightarrow> path_name x \<Longrightarrow> path_parts (p @ CHR ''/'' # x) = path_parts p @ [x]"
  by (simp add: path_parts_def split_on_snoc path_name_def clean_parts_append prefix_rooted del: Cons_prefix_Cons)

lemma path_parts_unparts:
  assumes "cleaned root q" "q \<noteq> []" "\<And>s. s \<in> set q \<Longrightarrow> CHR ''/'' \<notin> set s"
  shows "path_parts (unparts root q) = q \<and> prefix ''/'' (unparts root q) = root \<and> unparts root q \<noteq> []"
proof -
  obtain a as where q: "q = a # as" using assms(2) by (cases q) auto
  have a: "a \<noteq> []" "CHR ''/'' \<notin> set a" using assms(1,3) q by (auto simp: cleaned_def)
  then obtain c cs where c: "a = c # cs" "c \<noteq> CHR ''/''" by (cases a) auto
  have "split_on (CHR ''/'') (join ''/'' q) = q" using assms(2,3) by (simp add: split_on_join list_all_iff)
  moreover have "\<exists>t. join ''/'' q = c # t" using c(1) q by (cases as) simp_all
  then have "\<not> prefix ''/'' (join ''/'' q)" "join ''/'' q \<noteq> []" using c(2) by auto
  ultimately show ?thesis using clean_parts_cleaned [OF assms(1)] c(2)
    by (auto simp: path_parts_def unparts_def)
qed

lemma cleaned_path_parts:
  "cleaned (prefix ''/'' p) (path_parts p)" "s \<in> set (path_parts p) \<Longrightarrow> CHR ''/'' \<notin> set s"
  using cleaned_clean_parts [of "prefix ''/'' p" "[]"] clean_parts_set [of "prefix ''/'' p" "[]" "split_on (CHR ''/'') p"]
  by (auto simp: path_parts_def cleaned_def [of _ "[]"] split_on_parts dest: subsetD)

text \<open>A name is joined to a path: the result is clean and is the path of its parts.\<close>

lemma Clean_name:
  assumes "path_name x" "p \<noteq> []"
  shows "filepath_Clean (p @ CHR ''/'' # x) = unparts (prefix ''/'' p) (path_parts p @ [x])"
    "path_parts (unparts (prefix ''/'' p) (path_parts p @ [x])) = path_parts p @ [x]"
    "prefix ''/'' (unparts (prefix ''/'' p) (path_parts p @ [x])) = prefix ''/'' p"
    "unparts (prefix ''/'' p) (path_parts p @ [x]) \<noteq> []"
proof -
  note r = prefix_rooted [OF assms(2)]
  have q: "path_parts (p @ CHR ''/'' # x) = path_parts p @ [x]" using assms by (simp add: path_parts_snoc)
  then show "filepath_Clean (p @ CHR ''/'' # x) = unparts (prefix ''/'' p) (path_parts p @ [x])"
    using Clean_unparts [of "p @ CHR ''/'' # x"] by (simp add: r)
  have "cleaned (prefix ''/'' p) (path_parts p @ [x])" "\<And>s. s \<in> set (path_parts p @ [x]) \<Longrightarrow> CHR ''/'' \<notin> set s"
    using cleaned_path_parts(1) [of "p @ CHR ''/'' # x"] cleaned_path_parts(2) [of _ "p @ CHR ''/'' # x"] by (simp_all add: q r)
  from path_parts_unparts [OF this(1) _ this(2)]
  show "path_parts (unparts (prefix ''/'' p) (path_parts p @ [x])) = path_parts p @ [x]"
    "prefix ''/'' (unparts (prefix ''/'' p) (path_parts p @ [x])) = prefix ''/'' p"
    "unparts (prefix ''/'' p) (path_parts p @ [x]) \<noteq> []" by simp_all
qed

lemma Join_name:
  assumes "path_name x" "path_name y" "p \<noteq> []"
  shows "filepath_Join [filepath_Join [p, x], y] = filepath_Join [p, x, y]"
proof -
  note x = Clean_name [OF assms(1,3)] and y = Clean_name [OF assms(2), of "p @ CHR ''/'' # x"]
  note xy = Clean_name [OF assms(2) x(4)]
  have "filepath_Clean ((p @ CHR ''/'' # x) @ CHR ''/'' # y) = filepath_Clean (filepath_Clean (p @ CHR ''/'' # x) @ CHR ''/'' # y)"
    using y(1) xy(1) x path_parts_snoc [OF assms(3,1)] by (simp add: prefix_rooted [OF assms(3)])
  then show ?thesis using assms x(1,4) by (simp add: filepath_Join_def path_name_def)
qed

lemma Join_inj: "path_name x \<Longrightarrow> path_name y \<Longrightarrow> p \<noteq> [] \<Longrightarrow> filepath_Join [p, x] = filepath_Join [p, y] \<Longrightarrow> x = y"
proof -
  assume a: "path_name x" "path_name y" "p \<noteq> []" "filepath_Join [p, x] = filepath_Join [p, y]"
  have "filepath_Clean (p @ CHR ''/'' # x) = filepath_Clean (p @ CHR ''/'' # y)" using a by (simp add: filepath_Join_def path_name_def)
  then have "path_parts p @ [x] = path_parts p @ [y]"
    using Clean_name(1,2) [OF a(1,3)] Clean_name(1,2) [OF a(2,3)] by metis
  then show ?thesis by simp
qed

lemma Join_nonempty: "s \<noteq> [] \<Longrightarrow> s \<in> set xs \<Longrightarrow> filepath_Join xs \<noteq> []"
  by (auto simp: filepath_Join_def filepath_Clean_def Let_def filter_empty_conv)

section \<open>Files and answers\<close>

record tls_paths =
  tp_Dir :: string
  tp_CertFile :: string
  tp_KeyFile :: string

datatype tls_file = Pem string string | Damaged

text \<open>A path holds the permission bits of its file, as the program asked for them, and the content.\<close>

type_synonym tls_files = "string \<rightharpoonup> nat \<times> tls_file"

record cert_template =
  ct_SerialNumber :: nat
  ct_Organization :: "string list"
  ct_CommonName :: string
  ct_NotBefore :: time
  ct_NotAfter :: time
  ct_KeyUsage :: "string list"
  ct_ExtKeyUsage :: "string list"
  ct_BasicConstraintsValid :: bool
  ct_IsCA :: bool
  ct_DNSNames :: "string list"
  ct_IPAddresses :: "string list"

text \<open>
  What the packages and the operating system answer: errors of a call are texts.  \<open>th_left\<close> is what a file holds whose \<^verbatim>\<open>Close\<close> failed,
  \<open>th_exec\<close> the output and the error of a command.
\<close>

record tls_host =
  th_home :: "string + string"
  th_mkdir :: "string option"
  th_genKey :: "string + string"
  th_serial :: "string + nat"
  th_now :: time
  th_create :: "cert_template \<Rightarrow> string \<Rightarrow> string + string"
  th_marshal :: "string \<Rightarrow> string + string"
  th_open :: "string \<Rightarrow> string option"
  th_write :: "string \<Rightarrow> string option"
  th_close :: "string \<Rightarrow> string option"
  th_left :: "string \<Rightarrow> tls_file"
  th_remove :: "string \<Rightarrow> bool"
  th_goos :: string
  th_stat :: "string \<Rightarrow> bool"
  th_exec :: "string list \<Rightarrow> string \<times> string option"

definition DefaultPaths :: "tls_host \<Rightarrow> string + tls_paths" where
  "DefaultPaths h = (case th_home h of Inl er \<Rightarrow> Inl (''user home dir: '' @ er)
     | Inr home \<Rightarrow> let dir = filepath_Join [home, ''.gcp-local'', ''tls''] in
         Inr \<lparr>tp_Dir = dir, tp_CertFile = filepath_Join [dir, ''cert.pem''], tp_KeyFile = filepath_Join [dir, ''key.pem'']\<rparr>)"

lemma DefaultPaths_differ: "DefaultPaths h = Inr p \<Longrightarrow> tp_CertFile p \<noteq> tp_KeyFile p"
proof
  assume a: "DefaultPaths h = Inr p" "tp_CertFile p = tp_KeyFile p"
  obtain home where h: "th_home h = Inr home" using a(1) by (auto simp: DefaultPaths_def split: sum.splits)
  have p: "tp_CertFile p = filepath_Join [filepath_Join [home, ''.gcp-local'', ''tls''], ''cert.pem'']"
    "tp_KeyFile p = filepath_Join [filepath_Join [home, ''.gcp-local'', ''tls''], ''key.pem'']"
    using a(1) by (auto simp: DefaultPaths_def h Let_def)
  have "path_name ''cert.pem''" "path_name ''key.pem''" "filepath_Join [home, ''.gcp-local'', ''tls''] \<noteq> []"
    by (simp_all add: path_name_def Join_nonempty [of "''tls''"])
  from Join_inj [OF this] show False using a(2) p by simp
qed

definition tls_exists :: "string \<Rightarrow> tls_files \<Rightarrow> bool" where
  "tls_exists path fs \<longleftrightarrow> fs path \<noteq> None"

section \<open>The certificate\<close>

text \<open>
  An opened file is truncated and keeps the mode it was created with; the deferred \<^verbatim>\<open>Close\<close> reports its error only when there is
  none yet.
\<close>

definition file_mode :: "tls_files \<Rightarrow> string \<Rightarrow> nat \<Rightarrow> nat" where
  "file_mode fs path mode = (case fs path of Some (m, _) \<Rightarrow> m | None \<Rightarrow> mode)"

definition writePEM :: "tls_host \<Rightarrow> string \<Rightarrow> nat \<Rightarrow> string \<Rightarrow> string \<Rightarrow> tls_files \<Rightarrow> string option \<times> tls_files" where
  "writePEM h path mode blockType der fs = (let m = file_mode fs path mode in case th_open h path of Some er \<Rightarrow> (Some (''open '' @ path @ '': '' @ er), fs)
     | None \<Rightarrow> (case th_write h path of Some er \<Rightarrow> (Some (''encode pem '' @ path @ '': '' @ er), fs(path \<mapsto> (m, Damaged)))
       | None \<Rightarrow> (case th_close h path of Some er \<Rightarrow> (Some (''close '' @ path @ '': '' @ er), fs(path \<mapsto> (m, th_left h path)))
         | None \<Rightarrow> (None, fs(path \<mapsto> (m, Pem blockType der))))))"

definition cert_hour :: int where "cert_hour = 3600 * 1000000000"

text \<open>The octal modes 0644 and 0600.\<close>

definition cert_mode :: nat where "cert_mode = 6 * 64 + 4 * 8 + 4"

definition key_mode :: nat where "key_mode = 6 * 64"

definition tls_template :: "nat \<Rightarrow> time \<Rightarrow> cert_template" where
  "tls_template serial now = (let notBefore = now - cert_hour in
     \<lparr>ct_SerialNumber = serial, ct_Organization = [''gcp-local''], ct_CommonName = ''gcp-local self-signed'', ct_NotBefore = notBefore,
      ct_NotAfter = notBefore + 10 * 365 * 24 * cert_hour, ct_KeyUsage = [''DigitalSignature'', ''KeyEncipherment'', ''CertSign''],
      ct_ExtKeyUsage = [''ServerAuth'', ''ClientAuth''], ct_BasicConstraintsValid = True, ct_IsCA = True, ct_DNSNames = [''localhost''],
      ct_IPAddresses = [''127.0.0.1'', ''::1'']\<rparr>)"

definition tls_generate :: "tls_host \<Rightarrow> tls_paths \<Rightarrow> tls_files \<Rightarrow> string option \<times> tls_files" where
  "tls_generate h p fs = (case th_genKey h of Inl er \<Rightarrow> (Some (''generate rsa key: '' @ er), fs)
     | Inr key \<Rightarrow> (case th_serial h of Inl er \<Rightarrow> (Some (''serial: '' @ er), fs)
     | Inr serial \<Rightarrow> (case th_create h (tls_template serial (th_now h)) key of Inl er \<Rightarrow> (Some (''create certificate: '' @ er), fs)
     | Inr der \<Rightarrow> (case writePEM h (tp_CertFile p) cert_mode ''CERTIFICATE'' der fs of (Some er, fs1) \<Rightarrow> (Some er, fs1)
     | (None, fs1) \<Rightarrow> (case th_marshal h key of Inl er \<Rightarrow> (Some (''marshal key: '' @ er), fs1)
     | Inr keyDER \<Rightarrow> (case writePEM h (tp_KeyFile p) key_mode ''PRIVATE KEY'' keyDER fs1 of
          (Some er, fs2) \<Rightarrow> (Some er, if th_remove h (tp_CertFile p) then fs2(tp_CertFile p := None) else fs2)
        | (None, fs2) \<Rightarrow> (None, fs2)))))))"

definition EnsureCert :: "tls_host \<Rightarrow> tls_paths \<Rightarrow> tls_files \<Rightarrow> string option \<times> tls_files" where
  "EnsureCert h p fs = (if tls_exists (tp_CertFile p) fs \<and> tls_exists (tp_KeyFile p) fs then (None, fs)
     else (case th_mkdir h of Some er \<Rightarrow> (Some (''mkdir '' @ tp_Dir p @ '': '' @ er), fs) | None \<Rightarrow> tls_generate h p fs))"

section \<open>The trust store\<close>

text \<open>The dash is U+2014, here by its bytes.\<close>

definition em_dash :: string where "em_dash = [CHR 0xE2, CHR 0x80, CHR 0x94]"

definition linux_install_text :: "string \<Rightarrow> string list" where
  "linux_install_text c = [''Linux trust install (manual '' @ em_dash @ '' distro specific):'', [], ''Debian/Ubuntu:'',
     ''  sudo cp '' @ c @ '' /usr/local/share/ca-certificates/gcp-local.crt'', ''  sudo update-ca-certificates'', [], ''Fedora/RHEL:'',
     ''  sudo cp '' @ c @ '' /etc/pki/ca-trust/source/anchors/gcp-local.crt'', ''  sudo update-ca-trust'', [],
     ''Browsers (Firefox/Chromium) use their own NSS database; add via'',
     ''  certutil -d sql:$HOME/.pki/nssdb -A -t '' @ [CHR 0x22] @ ''CT,C,C'' @ [CHR 0x22] @ '' -n gcp-local -i '' @ c, [],
     ''The emulator does not manage NSS programmatically. Skipping.'']"

definition linux_uninstall_text :: "string list" where
  "linux_uninstall_text = [''Linux trust uninstall (manual '' @ em_dash @ '' distro specific):'', [], ''Debian/Ubuntu:'',
     ''  sudo rm /usr/local/share/ca-certificates/gcp-local.crt'', ''  sudo update-ca-certificates --fresh'', [], ''Fedora/RHEL:'',
     ''  sudo rm /etc/pki/ca-trust/source/anchors/gcp-local.crt'', ''  sudo update-ca-trust'', [], ''Browsers:'',
     ''  certutil -d sql:$HOME/.pki/nssdb -D -n gcp-local'']"

text \<open>The lines that are printed and the error.\<close>

type_synonym trust_result = "string list \<times> string option"

definition printLinuxInstructions :: "tls_paths \<Rightarrow> bool \<Rightarrow> string list" where
  "printLinuxInstructions p install = (if install then linux_install_text (tp_CertFile p) else linux_uninstall_text)"

definition login_keychain :: "tls_host \<Rightarrow> string \<Rightarrow> string" where
  "login_keychain h home = (let k = home @ ''/Library/Keychains/login.keychain-db'' in
     if th_stat h k then k else home @ ''/Library/Keychains/login.keychain'')"

definition darwinTrust :: "tls_host \<Rightarrow> tls_paths \<Rightarrow> bool \<Rightarrow> tls_files \<Rightarrow> trust_result" where
  "darwinTrust h p install fs = (case th_home h of Inl er \<Rightarrow> ([], Some (''user home dir: '' @ er))
     | Inr home \<Rightarrow> let keychain = login_keychain h home; c = tp_CertFile p in
        if install \<and> \<not> tls_exists c fs then ([], Some (''cert not found at '' @ c))
        else (case th_exec h (if install then [''security'', ''add-trusted-cert'', ''-r'', ''trustRoot'', ''-k'', keychain, c]
                else [''security'', ''remove-trusted-cert'', c]) of
            (combined, Some er) \<Rightarrow> ([combined], Some (if install
                then ''`security add-trusted-cert` failed (may require an interactive terminal / sudo): '' @ er
                else ''`security remove-trusted-cert` failed: '' @ er))
          | (_, None) \<Rightarrow> ([if install then ''trust install: added '' @ c @ '' to '' @ keychain
                else ''trust uninstall: removed '' @ c @ '' from '' @ keychain], None)))"

definition on_platform :: "tls_host \<Rightarrow> tls_paths \<Rightarrow> bool \<Rightarrow> tls_files \<Rightarrow> trust_result" where
  "on_platform h p install fs = (let verb = (if install then ''trust install: '' else ''trust uninstall: '') in
     if th_goos h = ''darwin'' then darwinTrust h p install fs
     else if th_goos h = ''linux'' then (printLinuxInstructions p install, None)
     else if th_goos h = ''windows'' then ([], Some (verb @ ''not supported on Windows''))
     else ([], Some (verb @ ''unsupported platform '' @ th_goos h)))"

definition TrustInstall :: "tls_host \<Rightarrow> tls_paths \<Rightarrow> tls_files \<Rightarrow> trust_result" where
  "TrustInstall h p fs = (if \<not> tls_exists (tp_CertFile p) fs
     then ([], Some (''cert not found at '' @ tp_CertFile p @ '' '' @ em_dash @ '' run `gcp-local start --tls` first''))
     else on_platform h p True fs)"

definition TrustUninstall :: "tls_host \<Rightarrow> tls_paths \<Rightarrow> tls_files \<Rightarrow> trust_result" where
  "TrustUninstall h p fs = on_platform h p False fs"

section \<open>Properties\<close>

lemma writePEM_other: "writePEM h path m b d fs = (er, fs') \<Longrightarrow> q \<noteq> path \<Longrightarrow> fs' q = fs q"
  by (auto simp: writePEM_def Let_def split: option.splits)

lemma writePEM_ok: "writePEM h path m b d fs = (None, fs') \<Longrightarrow> fs' = fs(path \<mapsto> (file_mode fs path m, Pem b d))"
  by (auto simp: writePEM_def Let_def split: option.splits)

text \<open>A pair of files that belongs together.\<close>

definition matching_pair :: "tls_host \<Rightarrow> tls_paths \<Rightarrow> nat \<Rightarrow> tls_files \<Rightarrow> bool" where
  "matching_pair h p m fs \<longleftrightarrow> (\<exists>key serial der keyDER cm. th_create h (tls_template serial (th_now h)) key = Inr der \<and> th_marshal h key = Inr keyDER \<and>
     fs (tp_CertFile p) = Some (cm, Pem ''CERTIFICATE'' der) \<and> fs (tp_KeyFile p) = Some (m, Pem ''PRIVATE KEY'' keyDER))"

lemma generate_cases:
  assumes "tls_generate h p fs = (er, fs')" "tp_CertFile p \<noteq> tp_KeyFile p"
  shows "er = None \<Longrightarrow> matching_pair h p (file_mode fs (tp_KeyFile p) key_mode) fs'"
    and "er \<noteq> None \<Longrightarrow> fs' (tp_KeyFile p) = fs (tp_KeyFile p) \<or> (th_remove h (tp_CertFile p) \<longrightarrow> fs' (tp_CertFile p) = None)"
proof -
  show "matching_pair h p (file_mode fs (tp_KeyFile p) key_mode) fs'" if e: "er = None"
  proof -
    obtain key serial der fs1 keyDER where g: "th_create h (tls_template serial (th_now h)) key = Inr der"
      "writePEM h (tp_CertFile p) cert_mode ''CERTIFICATE'' der fs = (None, fs1)" "th_marshal h key = Inr keyDER"
      "writePEM h (tp_KeyFile p) key_mode ''PRIVATE KEY'' keyDER fs1 = (None, fs')"
      using assms(1) e by (auto simp: tls_generate_def split: sum.splits option.splits prod.splits)
    then show ?thesis using assms(2) writePEM_ok [OF g(2)] writePEM_ok [OF g(4)] unfolding matching_pair_def by (auto simp: file_mode_def)
  qed
  show "fs' (tp_KeyFile p) = fs (tp_KeyFile p) \<or> (th_remove h (tp_CertFile p) \<longrightarrow> fs' (tp_CertFile p) = None)" if e: "er \<noteq> None"
    using assms e
    by (auto simp: tls_generate_def split: sum.splits option.splits prod.splits) (metis writePEM_other)+
qed

lemma new_pair:
  assumes "tp_CertFile p \<noteq> tp_KeyFile p" "fs (tp_KeyFile p) = None" "EnsureCert h p fs = (None, fs')"
  shows "matching_pair h p key_mode fs' \<and> tls_exists (tp_CertFile p) fs' \<and> (\<forall>h'. EnsureCert h' p fs' = (None, fs'))"
proof -
  have "tls_generate h p fs = (None, fs')" using assms(2,3) by (auto simp: EnsureCert_def tls_exists_def split: option.splits)
  from generate_cases(1) [OF this assms(1)] have "matching_pair h p key_mode fs'" using assms(2) by (simp add: file_mode_def)
  then show ?thesis by (auto simp: matching_pair_def tls_exists_def EnsureCert_def)
qed

text \<open>
  A start with \<^verbatim>\<open>--tls\<close> in a directory without a key either fails and leaves the two files not both there, so that the next start
  tries again, or leaves a certificate for \<^verbatim>\<open>localhost\<close> and the very key it was made for, readable by its owner only, which every later start keeps whatever
  the system answers.
\<close>

theorem ensure_cert_pair:
  assumes "tp_CertFile p \<noteq> tp_KeyFile p" "fs (tp_KeyFile p) = None" "th_remove h (tp_CertFile p)" "EnsureCert h p fs = (er, fs')"
  shows "if er = None then matching_pair h p key_mode fs' \<and> EnsureCert h' p fs' = (None, fs')
    else \<not> (tls_exists (tp_CertFile p) fs' \<and> tls_exists (tp_KeyFile p) fs')"
proof (cases "th_mkdir h")
  case None
  then have g: "tls_generate h p fs = (er, fs')" using assms(2,4) by (simp add: EnsureCert_def tls_exists_def)
  show ?thesis
    using generate_cases [OF g assms(1)] assms(2,3) by (auto simp: tls_exists_def matching_pair_def EnsureCert_def file_mode_def)
next
  case (Some e)
  then have "er \<noteq> None" "fs' = fs"
    using assms(2,4) by (auto simp: EnsureCert_def tls_exists_def)
  then show ?thesis using assms(2) by (auto simp: tls_exists_def)
qed

text \<open>
  A certificate that is written half-way next to a key that is left from before is never repaired: the start fails, but the next
  one finds both files and serves with them.
\<close>

theorem damaged_pair_reused:
  assumes "fs (tp_CertFile p) = None" "fs (tp_KeyFile p) = Some k" "tp_CertFile p \<noteq> tp_KeyFile p" "th_mkdir h = None"
    and "th_genKey h = Inr key" "th_serial h = Inr n" "th_create h (tls_template n (th_now h)) key = Inr der"
    and "th_open h (tp_CertFile p) = None" "th_write h (tp_CertFile p) = Some er"
  shows "\<exists>fs'. EnsureCert h p fs = (Some (''encode pem '' @ tp_CertFile p @ '': '' @ er), fs') \<and> (\<exists>m. fs' (tp_CertFile p) = Some (m, Damaged)) \<and>
    EnsureCert h' p fs' = (None, fs')"
  using assms by (auto simp: EnsureCert_def tls_generate_def writePEM_def tls_exists_def)

text \<open>Witness: a machine where everything works.\<close>

definition demo_tls :: tls_host where
  "demo_tls = \<lparr>th_home = Inr ''/home/u'', th_mkdir = None, th_genKey = Inr ''k'', th_serial = Inr 7, th_now = 0, th_create = (\<lambda>t k. Inr (''cert of '' @ k)),
     th_marshal = (\<lambda>k. Inr (''key '' @ k)), th_open = (\<lambda>_. None), th_write = (\<lambda>_. None), th_close = (\<lambda>_. None), th_left = (\<lambda>_. Damaged),
     th_remove = (\<lambda>_. True), th_goos = ''linux'', th_stat = (\<lambda>_. False), th_exec = (\<lambda>_. ([], None))\<rparr>"

definition demo_tls_paths :: tls_paths where
  "demo_tls_paths = \<lparr>tp_Dir = ''/home/u/.gcp-local/tls'', tp_CertFile = ''/home/u/.gcp-local/tls/cert.pem'', tp_KeyFile = ''/home/u/.gcp-local/tls/key.pem''\<rparr>"

lemma demo_default_paths: "DefaultPaths demo_tls = Inr demo_tls_paths"
  by (simp add: DefaultPaths_def demo_tls_def demo_tls_paths_def filepath_Join_def filepath_Clean_def Let_def)

theorem ensure_cert_pair_witness:
  "\<exists>fs'. EnsureCert demo_tls demo_tls_paths Map.empty = (None, fs') \<and> matching_pair demo_tls demo_tls_paths key_mode fs'"
proof -
  obtain fs' where e: "EnsureCert demo_tls demo_tls_paths Map.empty = (None, fs')"
    by (simp add: EnsureCert_def tls_exists_def tls_generate_def writePEM_def demo_tls_def)
  have "tp_CertFile demo_tls_paths \<noteq> tp_KeyFile demo_tls_paths" "th_remove demo_tls (tp_CertFile demo_tls_paths)"
    by (simp_all add: demo_tls_paths_def demo_tls_def)
  from ensure_cert_pair [OF this(1) _ this(2) e] e show ?thesis by simp
qed

end
