(* ===== verification/Observability.thy ===== *)
theory Observability
  imports Go_Time
begin

text \<open>
  Package \<^verbatim>\<open>internal/observability\<close>: what \<^verbatim>\<open>Init\<close> installs.  The exporter and the resource of the SDK are answers; the process-wide
  tracer provider and propagators are a state.  Shown: tracing is either off with the propagators in place, on with both, or
  the call fails and leaves nothing behind.
\<close>

datatype otlp_client = HttpClient | GrpcClient

text \<open>\<^verbatim>\<open>otlpTraceClient\<close>: the variable for traces wins over the general one.\<close>

definition otlpTraceClient :: "(string \<Rightarrow> string) \<Rightarrow> string + otlp_client" where
  "otlpTraceClient getenv = (let p = getenv ''OTEL_EXPORTER_OTLP_TRACES_PROTOCOL'';
       proto = (if p = [] then getenv ''OTEL_EXPORTER_OTLP_PROTOCOL'' else p); key = map lower_char (trimSpace proto) in
     if key \<in> {[], ''http/protobuf'', ''http''} then Inr HttpClient
     else if key = ''grpc'' then Inr GrpcClient
     else Inl (''unsupported OTEL_EXPORTER_OTLP_PROTOCOL '' @ go_quote proto @ '' (want '' @ go_quote ''http/protobuf'' @ '' or '' @ go_quote ''grpc'' @ '')''))"

text \<open>The environment and what the SDK answers; the state of the process, with the exporters that are open.\<close>

record otel_host =
  oh_getenv :: "string \<Rightarrow> string"
  oh_exporter :: "otlp_client \<Rightarrow> string option"
  oh_resource :: "string \<Rightarrow> string \<Rightarrow> string option"

record otel_state =
  ot_propagators :: bool
  ot_provider :: "(otlp_client \<times> string \<times> string) option"
  ot_exporters :: "otlp_client list"

datatype shutdown_func = NoopShutdown | ProviderShutdown

definition otel_Init :: "otel_host \<Rightarrow> string \<Rightarrow> string \<Rightarrow> otel_state \<Rightarrow> (string + shutdown_func) \<times> otel_state" where
  "otel_Init h serviceName version s =
     (if oh_getenv h ''OTEL_EXPORTER_OTLP_ENDPOINT'' = [] \<and> oh_getenv h ''OTEL_EXPORTER_OTLP_TRACES_ENDPOINT'' = []
      then (Inr NoopShutdown, s\<lparr>ot_propagators := True\<rparr>)
      else (case otlpTraceClient (oh_getenv h) of Inl er \<Rightarrow> (Inl er, s)
        | Inr client \<Rightarrow> (case oh_exporter h client of Some er \<Rightarrow> (Inl (''otlp trace exporter: '' @ er), s)
        | None \<Rightarrow> let s1 = s\<lparr>ot_exporters := client # ot_exporters s\<rparr> in
           (case oh_resource h serviceName version of Some er \<Rightarrow> (Inl (''otel resource: '' @ er), s1\<lparr>ot_exporters := tl (ot_exporters s1)\<rparr>)
            | None \<Rightarrow> (Inr ProviderShutdown, s1\<lparr>ot_provider := Some (client, serviceName, version), ot_propagators := True\<rparr>)))))"

theorem otel_Init_result:
  assumes "otel_Init h service version s = (r, s')"
  shows "case r of Inl er \<Rightarrow> s' = s
     | Inr NoopShutdown \<Rightarrow> s' = s\<lparr>ot_propagators := True\<rparr> \<and> oh_getenv h ''OTEL_EXPORTER_OTLP_ENDPOINT'' = []
     | Inr ProviderShutdown \<Rightarrow> \<exists>client. otlpTraceClient (oh_getenv h) = Inr client \<and>
         s' = s\<lparr>ot_propagators := True, ot_provider := Some (client, service, version), ot_exporters := client # ot_exporters s\<rparr>"
  using assms by (auto simp: otel_Init_def Let_def split: if_splits sum.splits option.splits)

end
