(* ===== verification/Sql_Listener.thy ===== *)
theory Sql_Listener
  imports Mysql_Handler
begin

text \<open>
  The listeners of \<^verbatim>\<open>mysqlwire/listener.go\<close> and \<^verbatim>\<open>pgwire/listener.go\<close> as their goroutines interleave: the accept loop, one goroutine
  for each connection, and the calls of \<^verbatim>\<open>Start\<close> and \<^verbatim>\<open>Stop\<close>.  A step is what one goroutine does between two points where another one
  can intervene; the wait group is the counter it is.  Shown: when \<^verbatim>\<open>Stop\<close> returns nothing is served any more, until the
  next start; a listener that is not stopped does not panic; and one that is stopped may.
\<close>

section \<open>The state\<close>

text \<open>
  The accept loop reads the field \<^verbatim>\<open>ln\<close> without the lock and then waits on the socket it found.  \<^verbatim>\<open>Stop\<close> empties the field under
  the lock, then cancels the context, closes the socket and waits.  Sockets and contexts are numbered together, as
  \<^verbatim>\<open>Start\<close> makes them together.
\<close>

datatype loop_pc = Top | Accepting nat | LoopEnded

datatype stop_pc = ToCancel nat nat | ToClose nat | ToWait nat | Returned nat

record lsn =
  l_ln :: "nat option"
  l_ctx :: nat
  l_fresh :: nat
  l_cancelled :: "nat set"
  l_closed :: "nat set"
  l_wg :: nat
  l_loops :: "loop_pc list"
  l_conns :: "bool list"
  l_stops :: "stop_pc list"
  l_dbClosed :: bool
  l_panicked :: bool

definition lsn_new :: lsn where
  "lsn_new = \<lparr>l_ln = None, l_ctx = 0, l_fresh = 1, l_cancelled = {}, l_closed = {}, l_wg = 0, l_loops = [], l_conns = [], l_stops = [],
     l_dbClosed = False, l_panicked = False\<rparr>"

section \<open>The operations\<close>

text \<open>A socket of its own and a context for the accept loop; an open listener is left as it is.\<close>

definition lsn_opened :: "lsn \<Rightarrow> lsn" where
  "lsn_opened s = (case l_ln s of Some _ \<Rightarrow> s
     | None \<Rightarrow> s\<lparr>l_ln := Some (l_fresh s), l_ctx := l_fresh s, l_fresh := Suc (l_fresh s), l_wg := Suc (l_wg s), l_loops := l_loops s @ [Top]\<rparr>)"

text \<open>\<^verbatim>\<open>Start\<close>, over the answer of \<^verbatim>\<open>net.Listen\<close>; \<open>laddr\<close> is what is listened on and \<open>addr\<close> the address of a socket.\<close>

definition wire_Start :: "string \<Rightarrow> (nat \<Rightarrow> string) \<Rightarrow> string option \<Rightarrow> lsn \<Rightarrow> (string + string) \<times> lsn" where
  "wire_Start laddr addr listenErr s = (case l_ln s of Some n \<Rightarrow> (Inr (addr n), s)
     | None \<Rightarrow> (case listenErr of Some er \<Rightarrow> (Inl (''mysqlwire listen '' @ laddr @ '': '' @ er), s)
         | None \<Rightarrow> (Inr (addr (l_fresh s)), lsn_opened s)))"

definition wire_Addr :: "(nat \<Rightarrow> string) \<Rightarrow> lsn \<Rightarrow> string" where
  "wire_Addr addr s = (case l_ln s of None \<Rightarrow> [] | Some n \<Rightarrow> addr n)"

text \<open>After a start that succeeds, \<^verbatim>\<open>Addr\<close> gives the address that was returned; one that fails changes nothing.\<close>

lemma start_result:
  "wire_Start laddr addr listenErr s = (Inr a, s') \<Longrightarrow> s' = lsn_opened s \<and> wire_Addr addr s' = a"
  "wire_Start laddr addr listenErr s = (Inl er, s') \<Longrightarrow> s' = s"
  by (auto simp: wire_Start_def wire_Addr_def lsn_opened_def split: option.splits)

text \<open>\<^verbatim>\<open>l.ln.Accept()\<close>: the field is read, and an empty one is a nil dereference, which ends the process.\<close>

definition loop_read :: "nat \<Rightarrow> lsn \<Rightarrow> lsn" where
  "loop_read i s = (case l_ln s of None \<Rightarrow> s\<lparr>l_panicked := True\<rparr> | Some n \<Rightarrow> s\<lparr>l_loops := (l_loops s)[i := Accepting n]\<rparr>)"

text \<open>A connection is accepted: the wait group is raised before its goroutine starts.\<close>

definition loop_conn :: "nat \<Rightarrow> lsn \<Rightarrow> lsn" where
  "loop_conn i s = s\<lparr>l_wg := Suc (l_wg s), l_conns := l_conns s @ [True], l_loops := (l_loops s)[i := Top]\<rparr>"

definition loop_error :: "nat \<Rightarrow> bool \<Rightarrow> lsn \<Rightarrow> lsn" where
  "loop_error i errClosed s = (if errClosed \<or> l_ctx s \<in> l_cancelled s then s\<lparr>l_wg := l_wg s - 1, l_loops := (l_loops s)[i := LoopEnded]\<rparr>
     else s\<lparr>l_loops := (l_loops s)[i := Top]\<rparr>)"

definition conn_end :: "nat \<Rightarrow> lsn \<Rightarrow> lsn" where
  "conn_end j s = s\<lparr>l_wg := l_wg s - 1, l_conns := (l_conns s)[j := False]\<rparr>"

text \<open>The critical section of \<^verbatim>\<open>Stop\<close>, and each of its later steps.\<close>

definition stop_call :: "lsn \<Rightarrow> lsn" where
  "stop_call s = (case l_ln s of None \<Rightarrow> s | Some n \<Rightarrow> s\<lparr>l_ln := None, l_stops := l_stops s @ [ToCancel n (l_ctx s)]\<rparr>)"

definition stop_next :: "nat \<Rightarrow> lsn \<Rightarrow> lsn" where
  "stop_next k s = (case l_stops s ! k of
       ToCancel n c \<Rightarrow> s\<lparr>l_cancelled := insert c (l_cancelled s), l_stops := (l_stops s)[k := ToClose n]\<rparr>
     | ToClose n \<Rightarrow> s\<lparr>l_closed := insert n (l_closed s), l_stops := (l_stops s)[k := ToWait n]\<rparr>
     | ToWait n \<Rightarrow> if l_wg s = 0 then s\<lparr>l_dbClosed := True, l_stops := (l_stops s)[k := Returned n]\<rparr> else s
     | Returned n \<Rightarrow> s)"

text \<open>
  The steps, by their labels.  \<^verbatim>\<open>Accept\<close> on an open socket gives a connection or an error of the system; on a closed one
  \<^verbatim>\<open>net.ErrClosed\<close>.  After a panic there are none.
\<close>

datatype lact = DoStart | DoRead nat | DoAccept nat | DoError nat | DoConnEnd nat | DoStopCall | DoStopNext nat

inductive lstep :: "lsn \<Rightarrow> lact \<Rightarrow> lsn \<Rightarrow> bool" where
  lstep_start: "\<not> l_panicked s \<Longrightarrow> lstep s DoStart (lsn_opened s)"
| lstep_read: "\<not> l_panicked s \<Longrightarrow> i < length (l_loops s) \<Longrightarrow> l_loops s ! i = Top \<Longrightarrow> lstep s (DoRead i) (loop_read i s)"
| lstep_conn: "\<not> l_panicked s \<Longrightarrow> i < length (l_loops s) \<Longrightarrow> l_loops s ! i = Accepting n \<Longrightarrow> n \<notin> l_closed s \<Longrightarrow>
    lstep s (DoAccept i) (loop_conn i s)"
| lstep_error: "\<not> l_panicked s \<Longrightarrow> i < length (l_loops s) \<Longrightarrow> l_loops s ! i = Accepting n \<Longrightarrow>
    lstep s (DoError i) (loop_error i (n \<in> l_closed s) s)"
| lstep_conn_end: "\<not> l_panicked s \<Longrightarrow> j < length (l_conns s) \<Longrightarrow> l_conns s ! j \<Longrightarrow> lstep s (DoConnEnd j) (conn_end j s)"
| lstep_stop: "\<not> l_panicked s \<Longrightarrow> lstep s DoStopCall (stop_call s)"
| lstep_next: "\<not> l_panicked s \<Longrightarrow> k < length (l_stops s) \<Longrightarrow> lstep s (DoStopNext k) (stop_next k s)"

inductive lruns :: "lact set \<Rightarrow> lsn \<Rightarrow> lsn \<Rightarrow> bool" for A where
  lruns_refl: "lruns A s s"
| lruns_step: "lruns A s t \<Longrightarrow> lstep t a u \<Longrightarrow> a \<in> A \<Longrightarrow> lruns A s u"

inductive_cases lstep_cases: "lstep s a t"

text \<open>The step of a label, when there is one, and a sequence of them.\<close>

definition lexec :: "lact \<Rightarrow> lsn \<Rightarrow> lsn option" where
  "lexec a s = (if l_panicked s then None else (case a of DoStart \<Rightarrow> Some (lsn_opened s)
     | DoRead i \<Rightarrow> if i < length (l_loops s) \<and> l_loops s ! i = Top then Some (loop_read i s) else None
     | DoAccept i \<Rightarrow> if i < length (l_loops s) then (case l_loops s ! i of
          Accepting n \<Rightarrow> if n \<notin> l_closed s then Some (loop_conn i s) else None | _ \<Rightarrow> None) else None
     | DoError i \<Rightarrow> if i < length (l_loops s) then (case l_loops s ! i of
          Accepting n \<Rightarrow> Some (loop_error i (n \<in> l_closed s) s) | _ \<Rightarrow> None) else None
     | DoConnEnd j \<Rightarrow> if j < length (l_conns s) \<and> l_conns s ! j then Some (conn_end j s) else None
     | DoStopCall \<Rightarrow> Some (stop_call s)
     | DoStopNext k \<Rightarrow> if k < length (l_stops s) then Some (stop_next k s) else None))"

lemma lexec_iff: "lstep s a t \<longleftrightarrow> lexec a s = Some t"
  by (cases a) (auto simp: lexec_def intro: lstep.intros elim: lstep_cases split: if_splits loop_pc.splits)

fun lexecs :: "lact list \<Rightarrow> lsn \<Rightarrow> lsn option" where
  "lexecs [] s = Some s"
| "lexecs (a # as) s = (case lexec a s of None \<Rightarrow> None | Some t \<Rightarrow> lexecs as t)"

lemma lruns_trans: "lruns A t u \<Longrightarrow> lruns A s t \<Longrightarrow> lruns A s u"
  by (induction rule: lruns.induct) (auto intro: lruns_step)

lemma lexecs_lruns: "lexecs as s = Some t \<Longrightarrow> lruns UNIV s t"
proof (induction as arbitrary: s)
  case (Cons a as)
  then obtain s' where "lexec a s = Some s'" "lexecs as s' = Some t" by (auto split: option.splits)
  then have "lruns UNIV s s'" "lruns UNIV s' t"
    using Cons.IH lruns_step [OF lruns_refl, of s a s' UNIV] by (simp_all add: lexec_iff)
  then show ?case by (blast intro: lruns_trans)
qed (simp add: lruns_refl)

section \<open>The connections of MySQL\<close>

text \<open>
  The commands that the protocol package hands to the handler, and what it gets to write.  Choosing a database is accepted and
  ignored, so is the end of a statement; the list of fields and all other commands are refused.
\<close>

datatype my_cmd = InitDB string | Query string | StmtPrepare string | StmtExecute "my_prepared option" string "my_arg list" | StmtClose
  | FieldList string string | OtherCommand nat

datatype my_reply = ROk | RResult my_result | RPrepared nat my_prepared | RErr string

definition UseDB :: "string \<Rightarrow> my_reply" where "UseDB name = ROk"

definition HandleStmtClose :: my_reply where "HandleStmtClose = ROk"

definition HandleFieldList :: "string \<Rightarrow> string \<Rightarrow> my_reply" where "HandleFieldList table wildcard = RErr ''COM_FIELD_LIST not supported''"

definition HandleOtherCommand :: "nat \<Rightarrow> my_reply" where
  "HandleOtherCommand c = RErr (''command '' @ itoa c @ '' not supported'')"

definition my_answered :: "'db my_answer \<Rightarrow> my_reply \<times> bool \<times> 'db" where
  "my_answered a = (case a of (Inl er, st) \<Rightarrow> (RErr er, st) | (Inr r, st) \<Rightarrow> (RResult r, st))"

fun my_dispatch :: "'db my_world \<Rightarrow> my_cmd \<Rightarrow> bool \<Rightarrow> 'db \<Rightarrow> my_reply \<times> bool \<times> 'db" where
  "my_dispatch w (InitDB name) pin db = (UseDB name, pin, db)"
| "my_dispatch w (Query q) pin db = my_answered (my_HandleQuery w q pin db)"
| "my_dispatch w (StmtPrepare q) pin db = (let p = HandleStmtPrepare q in (RPrepared (mp_params p) p, pin, db))"
| "my_dispatch w (StmtExecute ps q args) pin db = my_answered (HandleStmtExecute w ps q args pin db)"
| "my_dispatch w StmtClose pin db = (HandleStmtClose, pin, db)"
| "my_dispatch w (FieldList t f) pin db = (HandleFieldList t f, pin, db)"
| "my_dispatch w (OtherCommand c) pin db = (HandleOtherCommand c, pin, db)"

text \<open>
  \<^verbatim>\<open>serve\<close>: a command comes with whether the context was cancelled before it, the error of writing its reply, and whether the
  client has left after it.
\<close>

type_synonym my_packet = "bool \<times> my_cmd \<times> string option \<times> bool"

fun my_serve_loop :: "'db my_world \<Rightarrow> my_packet list \<Rightarrow> bool \<Rightarrow> 'db \<Rightarrow> my_reply list \<times> bool \<times> 'db" where
  "my_serve_loop w [] pin db = ([], pin, db)"
| "my_serve_loop w ((cancelled, cmd, writeErr, closed) # ps) pin db = (if cancelled then ([], pin, db)
     else (case my_dispatch w cmd pin db of (r, pin', db') \<Rightarrow>
       if writeErr \<noteq> None then ([], pin', db') else if closed then ([r], pin', db')
       else (case my_serve_loop w ps pin' db' of (rs, st) \<Rightarrow> (r # rs, st))))"

text \<open>The registration of the user and the handshake may fail; at the end the pinned connection is given back.\<close>

definition my_serve :: "'db my_world \<Rightarrow> string option \<Rightarrow> string option \<Rightarrow> my_packet list \<Rightarrow> 'db \<Rightarrow> my_reply list \<times> bool \<times> 'db" where
  "my_serve w addUser newConn ps db = (if addUser \<noteq> None \<or> newConn \<noteq> None then ([], False, db)
     else (case my_serve_loop w ps False db of (rs, pin, db') \<Rightarrow> (rs, False, db')))"

text \<open>While the client stays and reads, every command has its reply, in order, whatever the replies are.\<close>

lemma my_one_reply_each:
  "\<forall>(cancelled, cmd, writeErr, closed) \<in> set ps. \<not> cancelled \<and> writeErr = None \<and> \<not> closed \<Longrightarrow>
    length (fst (my_serve w None None ps db)) = length ps"
proof -
  have "length (fst (my_serve_loop w ps pin db)) = length ps"
    if "\<forall>(cancelled, cmd, writeErr, closed) \<in> set ps. \<not> cancelled \<and> writeErr = None \<and> \<not> closed" for pin db
    using that by (induction w ps pin db rule: my_serve_loop.induct) (auto split: prod.splits)
  then show "\<forall>(cancelled, cmd, writeErr, closed) \<in> set ps. \<not> cancelled \<and> writeErr = None \<and> \<not> closed \<Longrightarrow> ?thesis"
    by (auto simp: my_serve_def split: prod.splits) (metis fst_conv)
qed

section \<open>The invariant\<close>

definition live_loops :: "lsn \<Rightarrow> nat" where
  "live_loops s = length (filter (\<lambda>p. p \<noteq> LoopEnded) (l_loops s))"

definition live_conns :: "lsn \<Rightarrow> nat" where
  "live_conns s = length (filter id (l_conns s))"

text \<open>The wait group counts the goroutines; the sockets in use are numbered below the next one; the socket of the field is open.\<close>

definition stop_socket :: "stop_pc \<Rightarrow> nat" where
  "stop_socket p = (case p of ToCancel n c \<Rightarrow> n | ToClose n \<Rightarrow> n | ToWait n \<Rightarrow> n | Returned n \<Rightarrow> n)"

definition stop_closed :: "stop_pc \<Rightarrow> bool" where
  "stop_closed p = (case p of ToCancel n c \<Rightarrow> False | ToClose n \<Rightarrow> False | ToWait n \<Rightarrow> True | Returned n \<Rightarrow> True)"

definition lsn_inv :: "lsn \<Rightarrow> bool" where
  "lsn_inv s \<longleftrightarrow> l_wg s = live_loops s + live_conns s \<and>
     (\<forall>n. l_ln s = Some n \<longrightarrow> n < l_fresh s \<and> n \<notin> stop_socket ` set (l_stops s)) \<and>
     (\<forall>p \<in> set (l_stops s). stop_socket p < l_fresh s \<and> (stop_closed p \<longrightarrow> stop_socket p \<in> l_closed s)) \<and>
     l_closed s \<subseteq> stop_socket ` set (l_stops s)"

lemma count_update:
  "i < length xs \<Longrightarrow> length (filter P (xs[i := y])) + (if P (xs ! i) then 1 else 0) = length (filter P xs) + (if P y then 1 else 0)"
proof (induction xs arbitrary: i)
  case (Cons x xs)
  then show ?case by (cases i) auto
qed simp

lemma live_loops_update:
  "i < length (l_loops s) \<Longrightarrow> live_loops (s\<lparr>l_loops := (l_loops s)[i := p]\<rparr>) + (if l_loops s ! i \<noteq> LoopEnded then 1 else 0) =
     live_loops s + (if p \<noteq> LoopEnded then 1 else 0)"
  using count_update [of i "l_loops s" "\<lambda>p. p \<noteq> LoopEnded" p] by (simp add: live_loops_def)

lemma live_conns_update:
  "j < length (l_conns s) \<Longrightarrow> l_conns s ! j \<Longrightarrow> Suc (live_conns (s\<lparr>l_conns := (l_conns s)[j := False]\<rparr>)) = live_conns s"
  using count_update [of j "l_conns s" id False] by (simp add: live_conns_def)

lemma lsn_inv_new: "lsn_inv lsn_new"
  by (simp add: lsn_inv_def lsn_new_def live_loops_def live_conns_def)

lemma lsn_inv_start: "lsn_inv s \<Longrightarrow> lsn_inv (lsn_opened s)"
  by (cases "l_ln s") (fastforce simp: lsn_opened_def lsn_inv_def live_loops_def live_conns_def)+

lemma lsn_inv_loop:
  assumes "lsn_inv s" "i < length (l_loops s)" "l_loops s ! i \<noteq> LoopEnded" "p \<noteq> LoopEnded"
  shows "lsn_inv (s\<lparr>l_loops := (l_loops s)[i := p]\<rparr>)"
  using live_loops_update [OF assms(2), of p] assms by (simp add: lsn_inv_def live_conns_def)

lemma lsn_inv_read:
  "lsn_inv s \<Longrightarrow> i < length (l_loops s) \<Longrightarrow> l_loops s ! i = Top \<Longrightarrow> lsn_inv (loop_read i s)"
  by (cases "l_ln s") (simp_all add: loop_read_def lsn_inv_loop, simp add: lsn_inv_def live_loops_def live_conns_def)

lemma lsn_inv_conn:
  assumes "lsn_inv s" "i < length (l_loops s)" "l_loops s ! i = Accepting n"
  shows "lsn_inv (loop_conn i s)"
proof -
  have "lsn_inv (s\<lparr>l_loops := (l_loops s)[i := Top]\<rparr>)" using lsn_inv_loop [OF assms(1,2), of Top] assms(3) by simp
  then show ?thesis by (simp add: lsn_inv_def loop_conn_def live_loops_def live_conns_def)
qed

lemma lsn_inv_error:
  assumes "lsn_inv s" "i < length (l_loops s)" "l_loops s ! i = Accepting n"
  shows "lsn_inv (loop_error i b s)"
proof (cases "b \<or> l_ctx s \<in> l_cancelled s")
  case True
  have "Suc (live_loops (s\<lparr>l_loops := (l_loops s)[i := LoopEnded]\<rparr>)) = live_loops s"
    using live_loops_update [OF assms(2), of LoopEnded] assms(3) by simp
  then show ?thesis using assms(1) True by (auto simp: lsn_inv_def loop_error_def live_loops_def live_conns_def)
next
  case False
  then show ?thesis using lsn_inv_loop [OF assms(1,2), of Top] assms(3) by (simp add: loop_error_def)
qed

lemma lsn_inv_conn_end: "lsn_inv s \<Longrightarrow> j < length (l_conns s) \<Longrightarrow> l_conns s ! j \<Longrightarrow> lsn_inv (conn_end j s)"
  using live_conns_update [of j s] by (auto simp: lsn_inv_def conn_end_def live_loops_def live_conns_def)

lemma lsn_inv_stop: "lsn_inv s \<Longrightarrow> lsn_inv (stop_call s)"
  by (cases "l_ln s") (auto simp: stop_call_def lsn_inv_def live_loops_def live_conns_def stop_socket_def stop_closed_def)

lemma lsn_inv_next:
  assumes "lsn_inv s" "k < length (l_stops s)"
  shows "lsn_inv (stop_next k s)"
proof -
  have m: "l_stops s ! k \<in> set (l_stops s)" using assms(2) by simp
  have sockets: "stop_socket ` set ((l_stops s)[k := p]) = stop_socket ` set (l_stops s)" if "stop_socket p = stop_socket (l_stops s ! k)" for p
  proof -
    have "map stop_socket ((l_stops s)[k := p]) = map stop_socket (l_stops s)"
      using assms(2) that by (metis list_update_id map_update)
    then show ?thesis by (metis set_map)
  qed
  have upd: "q \<in> set ((l_stops s)[k := p]) \<Longrightarrow> q = p \<or> q \<in> set (l_stops s)" for p q
    using set_update_subset_insert by fastforce
  have keep: "lsn_inv (s\<lparr>l_closed := C, l_stops := (l_stops s)[k := p]\<rparr>)"
    if "stop_socket p = stop_socket (l_stops s ! k)" "stop_closed p \<longrightarrow> stop_socket p \<in> C" "l_closed s \<subseteq> C"
      "C \<subseteq> stop_socket ` set (l_stops s)" for p C
    using assms(1) sockets [OF that(1)] that m upd [of _ p]
    by (simp add: lsn_inv_def live_loops_def live_conns_def) (metis subsetD)
  have inside: "l_closed s \<subseteq> stop_socket ` set (l_stops s)" "stop_socket (l_stops s ! k) \<in> stop_socket ` set (l_stops s)"
    using assms(1) m by (auto simp: lsn_inv_def)
  show ?thesis
  proof (cases "l_stops s ! k")
    case (ToCancel n c)
    then show ?thesis using keep [of "ToClose n" "l_closed s"] inside
      by (simp add: stop_next_def lsn_inv_def stop_socket_def stop_closed_def live_loops_def live_conns_def)
  next
    case (ToClose n)
    then show ?thesis using keep [of "ToWait n" "insert n (l_closed s)"] inside
      by (simp add: stop_next_def stop_socket_def stop_closed_def subset_insertI)
  next
    case (ToWait n)
    then have "n \<in> l_closed s" using assms(1) m by (force simp: lsn_inv_def stop_socket_def stop_closed_def)
    then show ?thesis using ToWait assms(1) keep [of "Returned n" "l_closed s"] inside
      by (simp add: stop_next_def lsn_inv_def stop_socket_def stop_closed_def live_loops_def live_conns_def)
  qed (use assms(1) in \<open>simp add: stop_next_def\<close>)
qed

lemma lstep_inv: "lstep s a t \<Longrightarrow> lsn_inv s \<Longrightarrow> lsn_inv t"
  by (erule lstep_cases)
    (simp_all add: lsn_inv_start lsn_inv_read lsn_inv_conn lsn_inv_error lsn_inv_conn_end lsn_inv_stop lsn_inv_next)

lemma lruns_inv: "lruns A s t \<Longrightarrow> lsn_inv s \<Longrightarrow> lsn_inv t"
  by (induction rule: lruns.induct) (blast intro: lstep_inv)+

text \<open>Seen from the service, where a listener is open or closed, only the calls of \<^verbatim>\<open>Start\<close> and \<^verbatim>\<open>Stop\<close> are steps.\<close>

lemma open_or_closed:
  "lstep s a t \<Longrightarrow> (l_ln t \<noteq> None) = (if a = DoStart then True else if a = DoStopCall then False else l_ln s \<noteq> None)"
  by (erule lstep_cases) (auto simp: lsn_opened_def loop_read_def loop_conn_def loop_error_def conn_end_def stop_call_def stop_next_def
      split: option.splits stop_pc.splits)

section \<open>The end of Stop\<close>

definition unserved :: "lsn \<Rightarrow> bool" where
  "unserved s \<longleftrightarrow> (\<forall>p \<in> set (l_loops s). p = LoopEnded) \<and> True \<notin> set (l_conns s)"

lemma unserved_count: "live_loops s + live_conns s = 0 \<Longrightarrow> unserved s"
  by (auto simp: unserved_def live_loops_def live_conns_def filter_empty_conv)

lemma unserved_step:
  assumes "lstep s a t" "unserved s" "a \<noteq> DoStart"
  shows "unserved t \<and> l_closed s \<subseteq> l_closed t \<and> (l_dbClosed s \<longrightarrow> l_dbClosed t)"
proof -
  have "l_loops s ! i = LoopEnded" if "i < length (l_loops s)" for i using assms(2) that by (auto simp: unserved_def dest: nth_mem)
  moreover have "\<not> l_conns s ! j" if "j < length (l_conns s)" for j
  proof
    assume "l_conns s ! j"
    then have "True \<in> set (l_conns s)" using nth_mem [OF that] by simp
    then show False using assms(2) by (simp add: unserved_def)
  qed
  ultimately have "a = DoStopCall \<and> t = stop_call s \<or> (\<exists>k. t = stop_next k s)"
    using assms(1,3) by (elim lstep_cases) auto
  moreover have "unserved (stop_call s) \<and> l_closed s \<subseteq> l_closed (stop_call s) \<and> (l_dbClosed s \<longrightarrow> l_dbClosed (stop_call s))"
    using assms(2) by (auto simp: unserved_def stop_call_def split: option.splits)
  moreover have "unserved (stop_next k s) \<and> l_closed s \<subseteq> l_closed (stop_next k s) \<and> (l_dbClosed s \<longrightarrow> l_dbClosed (stop_next k s))" for k
    using assms(2) by (cases "l_stops s ! k") (auto simp: unserved_def stop_next_def)
  ultimately show ?thesis by blast
qed

lemma unserved_runs:
  "lruns (UNIV - {DoStart}) s t \<Longrightarrow> unserved s \<Longrightarrow> unserved t \<and> l_closed s \<subseteq> l_closed t \<and> (l_dbClosed s \<longrightarrow> l_dbClosed t)"
proof (induction rule: lruns.induct)
  case (lruns_step s t a u)
  then show ?case using unserved_step [of t a u] by auto
qed simp

lemma stop_waits: "lsn_inv s \<Longrightarrow> \<not> unserved s \<Longrightarrow> l_stops s ! k = ToWait n \<Longrightarrow> stop_next k s = s"
  using unserved_count [of s] by (auto simp: lsn_inv_def stop_next_def)


text \<open>A listener that is stopped while a client is connected: the socket is closed first, then the client leaves, then the loop ends.\<close>

definition served_then_stopping :: "lact list" where
  "served_then_stopping = [DoStart, DoRead 0, DoAccept 0, DoRead 0, DoStopCall, DoStopNext 0, DoStopNext 0, DoConnEnd 0, DoError 0]"

lemma served_then_stopping_run:
  "\<exists>s. lexecs served_then_stopping lsn_new = Some s \<and> l_stops s = [ToWait 1] \<and> l_wg s = 0 \<and> \<not> l_panicked s"
  by (simp add: served_then_stopping_def lexec_def lsn_new_def lsn_opened_def loop_read_def loop_conn_def stop_call_def stop_next_def conn_end_def
      loop_error_def)


section \<open>Panics\<close>

text \<open>As long as nobody stops the listener its accept loops find a socket; they cannot panic.\<close>

theorem unstopped_never_panics:
  assumes "lruns (UNIV - {DoStopCall}) lsn_new s"
  shows "\<not> l_panicked s"
proof -
  have "\<not> l_panicked s \<and> (l_ln s = None \<longrightarrow> l_loops s = [])"
    if "lruns (UNIV - {DoStopCall}) s0 s" "s0 = lsn_new" for s0 s using that
  proof (induction rule: lruns.induct)
    case (lruns_step s t a u)
    then have i: "\<not> l_panicked t" "l_ln t = None \<longrightarrow> l_loops t = []" "a \<noteq> DoStopCall" by auto
    from \<open>lstep t a u\<close> show ?case
      by (rule lstep_cases) (use i in \<open>auto simp: lsn_opened_def loop_read_def loop_conn_def loop_error_def conn_end_def stop_next_def
          split: option.splits stop_pc.splits\<close>)
  qed (simp add: lsn_new_def)
  with assms show ?thesis by blast
qed

text \<open>
  \<^verbatim>\<open>Stop\<close> empties the field before it closes the socket, and the accept loop reads the field again after each connection: a client that
  connects in between makes the loop call a method of a nil interface, which ends the whole process.
\<close>

theorem stop_can_panic:
  "\<exists>s. lexecs [DoStart, DoRead 0, DoStopCall, DoAccept 0, DoRead 0] lsn_new = Some s \<and> l_panicked s"
  by (simp add: lexec_def lsn_new_def lsn_opened_def loop_read_def loop_conn_def stop_call_def)

end
