(* ===== verification/Cloud_Run_Start.thy ===== *)
theory Cloud_Run_Start
  imports Cloud_Run
begin

text \<open>
  How a child process of the runner gets its port and how the runner waits for it: \<^verbatim>\<open>freeTCPPort\<close> and \<^verbatim>\<open>waitListening\<close> of
  \<^verbatim>\<open>cloudrun/runner.go\<close>, which are two of the answers of \<open>run_world\<close>.  The operating system, the clock and the context of the
  request are parameters.  Shown: the wait ends, and a child that is returned has accepted a connection in time.
\<close>

section \<open>The port\<close>

text \<open>\<open>fp_addr\<close> is the port of a TCP address, or the name of another type of address.\<close>

record free_port_host =
  fp_listen :: "string option"
  fp_addr :: "string + nat"
  fp_close :: "string option"

definition freeTCPPort :: "free_port_host \<Rightarrow> string + nat" where
  "freeTCPPort h = (case fp_listen h of Some er \<Rightarrow> Inl er
     | None \<Rightarrow> (case fp_addr h of Inl ty \<Rightarrow> Inl (''unexpected listener addr type '' @ ty)
       | Inr port \<Rightarrow> (case fp_close h of Some er \<Rightarrow> Inl er | None \<Rightarrow> Inr port)))"

section \<open>The wait\<close>

text \<open>
  \<open>we_now k\<close> is the clock before dial \<open>k\<close>, \<open>we_dial k\<close> whether it connects, \<open>we_done k\<close> the error of the context if it ends
  before the pause after it does.
\<close>

record wait_env =
  we_begin :: time
  we_now :: "nat \<Rightarrow> time"
  we_dial :: "nat \<Rightarrow> bool"
  we_done :: "nat \<Rightarrow> string option"

partial_function (option) wait_loop :: "wait_env \<Rightarrow> string \<Rightarrow> time \<Rightarrow> nat \<Rightarrow> string option option" where
  "wait_loop e timedOut deadline k = (if we_now e k < deadline
     then (if we_dial e k then Some None
       else case we_done e k of Some er \<Rightarrow> Some (Some er) | None \<Rightarrow> wait_loop e timedOut deadline (Suc k))
     else Some (Some timedOut))"

definition ns_ms :: int where "ns_ms = 1000000"

definition waitListening :: "wait_env \<Rightarrow> (int \<Rightarrow> string) \<Rightarrow> int \<Rightarrow> string option option" where
  "waitListening e showDuration timeout = wait_loop e (''timed out after '' @ showDuration timeout) (we_begin e + timeout) 0"

text \<open>A dial that comes before the deadline, after failed ones, and before the context ends.\<close>

definition bound_at :: "wait_env \<Rightarrow> time \<Rightarrow> nat \<Rightarrow> nat \<Rightarrow> bool" where
  "bound_at e deadline k i \<longleftrightarrow> k \<le> i \<and> we_dial e i \<and> we_now e i < deadline \<and>
     (\<forall>j. k \<le> j \<longrightarrow> j < i \<longrightarrow> we_now e j < deadline \<and> we_done e j = None)"

lemma wait_clock:
  assumes "\<And>k. we_now e k + 50 * ns_ms \<le> we_now e (Suc k)" "we_begin e \<le> we_now e 0"
  shows "we_begin e + int k * (50 * ns_ms) \<le> we_now e k"
proof (induction k)
  case (Suc k)
  have "int (Suc k) * (50 * ns_ms) = int k * (50 * ns_ms) + 50 * ns_ms" by (simp add: algebra_simps)
  with Suc assms(1) [of k] show ?case by linarith
qed (simp add: assms)

lemma wait_loop_result:
  assumes "\<And>k. we_now e k + 50 * ns_ms \<le> we_now e (Suc k)" "deadline \<le> we_now e (k + n)"
  shows "\<exists>r. wait_loop e t deadline k = Some r \<and> (r = None \<longleftrightarrow> (\<exists>i. bound_at e deadline k i))"
  using assms(2)
proof (induction n arbitrary: k)
  case 0
  then show ?case by (subst wait_loop.simps) (auto simp: bound_at_def le_eq_less_or_eq)
next
  case (Suc n)
  consider "\<not> we_now e k < deadline" | "we_now e k < deadline" "we_dial e k" | er where "we_now e k < deadline" "\<not> we_dial e k" "we_done e k = Some er"
    | "we_now e k < deadline" "\<not> we_dial e k" "we_done e k = None" by fastforce
  then show ?case
  proof cases
    case 1
    then show ?thesis by (subst wait_loop.simps) (auto simp: bound_at_def le_eq_less_or_eq)
  next
    case 2
    then show ?thesis by (subst wait_loop.simps) (auto simp: bound_at_def intro: exI [of _ k])
  next
    case 3
    then show ?thesis by (subst wait_loop.simps) (auto simp: bound_at_def le_eq_less_or_eq)
  next
    case 4
    have le: "k \<le> j \<longleftrightarrow> j = k \<or> Suc k \<le> j" for j by auto
    have "bound_at e deadline (Suc k) i \<longleftrightarrow> bound_at e deadline k i" for i
      unfolding bound_at_def le using 4 by auto
    with Suc.IH [of "Suc k"] Suc.prems 4 show ?thesis by (subst wait_loop.simps) simp
  qed
qed

text \<open>
  The wait of ten seconds ends, by then at the latest, and succeeds exactly when a dial before the deadline connects and the
  context has not ended earlier.
\<close>

theorem wait_ends:
  assumes "\<And>k. we_now e k + 50 * ns_ms \<le> we_now e (Suc k)" "we_begin e \<le> we_now e 0" "timeout = int n * (50 * ns_ms)"
  shows "\<exists>r. waitListening e show timeout = Some r \<and> (r = None \<longleftrightarrow> (\<exists>i < n. bound_at e (we_begin e + timeout) 0 i))"
proof -
  have late: "we_begin e + timeout \<le> we_now e k" if "n \<le> k" for k
  proof -
    have "int n * (50 * ns_ms) \<le> int k * (50 * ns_ms)" using that by (simp add: ns_ms_def)
    then show ?thesis using wait_clock [OF assms(1,2), of k] assms(3) by linarith
  qed
  then have "bound_at e (we_begin e + timeout) 0 i \<Longrightarrow> i < n" for i by (auto simp: bound_at_def) (meson late leI not_le)
  then show ?thesis
    using wait_loop_result [OF assms(1) late [of "0 + n"], of "''timed out after '' @ show timeout"] by (auto simp: waitListening_def)
qed

section \<open>A child that is returned\<close>

text \<open>The world of a request with both answers filled in by the code; a wait that does not end has none.\<close>

definition runner_world :: "free_port_host \<Rightarrow> wait_env \<Rightarrow> (int \<Rightarrow> string) \<Rightarrow> run_world \<Rightarrow> run_world option" where
  "runner_world h e show w = map_option (\<lambda>r. w\<lparr>rw_freePort := freeTCPPort h, rw_listening := r\<rparr>) (waitListening e show (10 * 1000 * ns_ms))"

theorem started_child_listens:
  assumes "\<And>k. we_now e k + 50 * ns_ms \<le> we_now e (Suc k)" "we_begin e \<le> we_now e 0"
    and "map_of (rn_children rn) name = None"
  shows "\<exists>w'. runner_world h e show w = Some w' \<and>
    (\<forall>c rn'. startOrGet w' name command env rn = (Inr c, rn') \<longrightarrow>
       freeTCPPort h = Inr (ch_port c) \<and> (\<exists>i < 200. bound_at e (we_begin e + 10 * 1000 * ns_ms) 0 i) \<and> map_of (rn_children rn') name = Some c)"
proof -
  have "10 * 1000 * ns_ms = int 200 * (50 * ns_ms)" by simp
  from wait_ends [OF assms(1,2) this, of "show"] obtain r where r: "waitListening e show (10 * 1000 * ns_ms) = Some r"
    "r = None \<longleftrightarrow> (\<exists>i < 200. bound_at e (we_begin e + 10 * 1000 * ns_ms) 0 i)" by blast
  then show ?thesis using assms(3)
    by (auto simp: runner_world_def startOrGet_def runner_lookup_def runner_spawn_def runner_register_def update_conv' Let_def
        split: if_splits sum.splits option.splits prod.splits)
qed

end
