(* ===== verification/Spec2Isabelle.thy ===== *)
theory Spec2Isabelle
  imports Pubsub_Push Pubsub_Liveness Gateway Firestore_Listen Pg_Session Mysql_Handler Console_Services Command_Line
    Gateway_Laws Entry_Point Sql_Listener Cloud_Run_Start
begin

text \<open>
  \<^bold>\<open>A verification of gcp-local, a local emulator of Google Cloud services.\<close>

  The program is one Go process.  The command line (\<^verbatim>\<open>src/cmd/gcp-local\<close>) starts it, in the foreground or in the background; a gateway
  (\<^verbatim>\<open>src/internal/gateway\<close>) builds the services under \<^verbatim>\<open>src/internal/services\<close> that a configuration enables and routes HTTP and gRPC
  requests to them.  The services keep their resources as JSON documents in one key-value store (\<^verbatim>\<open>src/internal/state\<close>) under
  namespaces of their own, and keep queues, counters and running jobs in memory; BigQuery and Cloud SQL keep rows in SQLite.
  Some start goroutines that act on their own: push subscriptions, task dispatch, cron jobs, SQL listeners, child processes.

  \<^bold>\<open>How the code is represented.\<close>  A struct is a record, an error is a value of a sum type, a
  handler is a function from the request, the store and the state of its service to the response, the store and
  the state.  A goroutine is a function per step or per run.  Handlers take their locks for the whole of an
  operation on their state, so an operation is one step and the interleavings of clients are sequences of steps
  (the relation \<open>reach\<close> of \<open>Resource_Codec\<close>); where the code gives a lock up in between, the pieces are steps of their own
  (the runner of Cloud Run, the creation of a SQL instance, the listeners).  Byte strings are char lists.  JSON documents are values, not
  texts.  Times are integers; Go's \<^verbatim>\<open>int\<close> is an integer with \<open>wrap64\<close> where the code computes with it, and the counters of
  message, acknowledgement and task identifiers wrap at \<open>2 ^ 64\<close>.  What the code does not determine is in the record
  \<open>go_env\<close>: the readings of the clock and the order in which \<^verbatim>\<open>range\<close> visits a map.

  \<^bold>\<open>Parameters.\<close>  Code that is not in the repository, and functions of which only the result matters, are arguments: the package
  bbolt (with its documented laws as hypotheses), the YAML and cron packages, the random source, the RSA signature and X.509,
  the SQLite driver (\<open>sql_driver\<close>, with its documented behaviour as hypotheses of the two properties that need it), the protocol packages of
  gRPC, PostgreSQL and MySQL, the tracing SDK, the HTML templates, the endpoints reached over HTTP, and the operating system with its
  processes, files and sockets (\<open>run_world\<close>, \<open>sql_host\<close>, \<open>tls_host\<close>, \<open>start_env\<close>, \<open>daemon_env\<close> and their like).  The theorems hold for every
  value of an argument, or say which laws they need.

  \<^bold>\<open>The theories.\<close>
  \<^item> \<open>Go_Prelude\<close>, \<open>Go_Base64\<close>, \<open>Go_Time\<close>, \<open>Go_Crypto\<close>, \<open>Httpresp\<close>, \<open>Http_Mux\<close>: the Go library as far as the code uses it (strings, JSON decoding, base64,
    calendar and quoting, AES-GCM, the pattern multiplexer) and the responses (\<^verbatim>\<open>internal/httpresp\<close>).
  \<^item> \<open>State_Store\<close> (\<^verbatim>\<open>internal/state\<close>): the interface \<^verbatim>\<open>Store\<close> as the locale \<open>kv_store\<close>, \<^verbatim>\<open>Memory\<close> and
    \<^verbatim>\<open>Bolt\<close>.  Every sequence of calls behaves as one partial map per namespace, and both backends agree.
  \<^item> \<open>Resource_Codec\<close>: the locales \<open>stored_resource\<close> (a resource survives its encoding) and \<open>machine\<close> (an invariant of a transition system),
    which the services interpret.
  \<^item> \<open>Health\<close> (\<^verbatim>\<open>internal/health\<close>), \<open>Config\<close> (\<^verbatim>\<open>internal/config\<close>), \<open>Observability\<close> (\<^verbatim>\<open>internal/observability\<close>): the registry behind \<^verbatim>\<open>/healthz\<close>,
    the configuration with its defaults, the set-up of tracing.
  \<^item> \<open>Pubsub\<close>, \<open>Pubsub_Delivery\<close>, \<open>Pubsub_Liveness\<close>, \<open>Pubsub_Rest\<close>, \<open>Pubsub_Push\<close> (\<^verbatim>\<open>internal/services/pubsub\<close>): data and Go API; queue laws and
    the service as a transition system; delivery as liveness; the REST handlers; push workers, gRPC servers and console.  Shown: fan-out of a
    publish, leases of a pull, acknowledgement of exactly what was pulled, stale acknowledgements, uniqueness of identifiers in
    every reachable state, the REST round trip, what a push worker does with each answer.
  \<^item> \<open>Iam_Policy\<close> (\<^verbatim>\<open>internal/iam\<close>), \<open>Iam_Admin\<close> (\<^verbatim>\<open>iamadmin\<close>), \<open>Metadata_Server\<close> (\<^verbatim>\<open>metadata\<close>, \<^verbatim>\<open>iamcredentials\<close>): policies with their etags, service accounts and keys,
    tokens and impersonation.
  \<^item> \<open>Secret_Manager\<close>, \<open>Cloud_Kms\<close> (\<^verbatim>\<open>secretmanager\<close>, \<^verbatim>\<open>kms\<close>): versions and their counters, the cascade of a deletion; keys that stay well-formed, and that
    decryption undoes encryption after any further requests.
  \<^item> \<open>Cloud_Tasks\<close>, \<open>Cloud_Scheduler\<close> (\<^verbatim>\<open>tasks\<close>, \<^verbatim>\<open>scheduler\<close>): dispatch with retries and their bounds; jobs and runners, where a live runner always
    belongs to a stored job and is the only one.
  \<^item> \<open>Cloud_Storage\<close>, \<open>Cloud_Storage_Upload\<close> (\<^verbatim>\<open>storage\<close>): buckets, objects, the three kinds of upload and the XML surface; round trips, assembly of
    chunks, cascading deletion.
  \<^item> \<open>Log_Filter\<close>, \<open>Cloud_Logging\<close>, \<open>Cloud_Monitoring\<close> (\<^verbatim>\<open>logging\<close>, \<^verbatim>\<open>monitoring\<close>): tokeniser, parser and evaluation of filters, printing and parsing; entries and time
    series.
  \<^item> \<open>Firestore_Values\<close>, \<open>Firestore\<close>, \<open>Firestore_Listen\<close> (\<^verbatim>\<open>firestore\<close>): the value codec, the documents and commits (a commit refines its writes on a map), and what
    listeners see.
  \<^item> \<open>Sql_Db\<close>, \<open>Bq_Sql\<close>, \<open>BigQuery\<close>, \<open>BigQuery_Laws\<close> (\<^verbatim>\<open>bigquery\<close>): the driver interface, the translation of statements, tables and queries; which statements SQLite is
    ever given, and that inserted rows are selected.
  \<^item> \<open>Pg_Translate\<close>, \<open>Pg_Types\<close>, \<open>Pg_Session\<close>, \<open>Mysql_Translate\<close>, \<open>Mysql_Handler\<close>, \<open>Sql_Listener\<close>, \<open>Cloud_Sql\<close> (\<^verbatim>\<open>cloudsql\<close> with \<^verbatim>\<open>pgwire\<close> and \<^verbatim>\<open>mysqlwire\<close>): the rewriting of SQL for SQLite, values and messages of the two protocols, sessions, the listeners as interleaved goroutines, and the
    instances of the admin API, each with its own listener.
  \<^item> \<open>Cloud_Run\<close>, \<open>Cloud_Run_Start\<close> (\<^verbatim>\<open>cloudrun\<close>): services, functions and their child processes; the wait for a child to listen.
  \<^item> \<open>Console\<close>, \<open>Console_Services\<close> (\<^verbatim>\<open>internal/dashboard\<close>): the web console: its routes and endpoints, its connection to the services, what it can change and that it shows
    what was written through it.
  \<^item> \<open>Api_Services\<close>, \<open>Gateway\<close>, \<open>Gateway_Server\<close>, \<open>Gateway_Frames\<close>, \<open>Gateway_Confined\<close>, \<open>Gateway_Invariants\<close>, \<open>Gateway_Lifecycle\<close>, \<open>Gateway_Laws\<close> (\<^verbatim>\<open>internal/gateway\<close>): the locale \<open>api_service\<close> is what the gateway relies on: a service declines a request or answers it and changes only its own namespaces and memory.
    All services interpret it.  From it: a request leaves all other domains alone, the invariants of all services hold together in every
    state a server reaches, a start gives exactly the enabled services, and the shutdown leaves nothing running.
  \<^item> \<open>Command_Line\<close>, \<open>Tls_Trust\<close>, \<open>Entry_Point\<close> (\<^verbatim>\<open>cmd/gcp-local\<close>, \<^verbatim>\<open>pidfile\<close>, \<^verbatim>\<open>auth\<close>, \<^verbatim>\<open>tlsx\<close>): flags and commands; paths, certificate files and the trust store; and
    \<^verbatim>\<open>main\<close>, with what a start leaves for the other commands.

  \<^bold>\<open>Bounds and termination.\<close>  No function uses fuel.  Loops without a structural measure are total by a measure: the attempts of a dispatch
  (at most five), the tokenisers and rewriters of texts (the rest gets shorter), the filter parser (the tokens get fewer).  Two loops wait for
  the clock and are partial functions with a proof that they end: the readiness probe of a background start (fifty probes) and the wait for
  a child process (two hundred dials).  \<^verbatim>\<open>stop\<close> polls fifty times by its text.  Accept loops and sessions are step relations or run over
  the list of messages that arrive.  Properties that speak of fresh identifiers say that the counter has not wrapped.

  \<^bold>\<open>Not modelled.\<close>  The text layer of JSON and read errors of request bodies, the panic of a pull whose limit exceeds what can be allocated,
  sockets, the TLS handshake and HTTP/2, the tracing middleware, the bytes of the gRPC, PostgreSQL and MySQL protocols, the HTML and scripts of
  the console (texts for a browser), Bigtable, Spanner and Memorystore beyond their start and their status card (they start emulators of other
  packages), and \<^verbatim>\<open>src/scripts/seed_firestore\<close>, which is a client with example data.
\<close>

end
